(* ===== verification/Prelude.thy ===== *)
theory Prelude
  imports Complex_Main "HOL-Library.Multiset" "HOL-Library.Sublist"
    "HOL-Library.Char_ord" "HOL-Library.List_Lexorder"
begin

text \<open>
  Shared vocabulary of the development: the readings of the JavaScript
  primitives the components share (\<open>Math.round\<close> and its two and four decimal
  variants, \<open>String.prototype.toLowerCase\<close>, \<open>startsWith\<close>, \<open>includes\<close>), the
  generic list and rounding lemmas, and the collections of automation the
  component theories add to.

  JavaScript numbers that carry money, probabilities and percentages are
  modelled by exact reals: binary64 rounding error is not modelled.  Values
  that can be \<open>NaN\<close>, \<open>Infinity\<close>, \<open>null\<close> or \<open>undefined\<close> in the code are options
  or datatypes of their own where the code distinguishes them.
\<close>

named_theorems bounds "range facts of numeric operations"
named_theorems step_intro "facts that establish an invariant after a step"

type_synonym address = string   \<comment> \<open>a hex address, as the code keeps it\<close>
type_synonym millis = int       \<comment> \<open>a \<open>Date.getTime()\<close> value\<close>


section \<open>Numbers\<close>

text \<open>\<open>Math.round\<close>: the nearest integer, ties towards positive infinity.\<close>

definition js_round :: "real \<Rightarrow> int" where
  "js_round x = \<lfloor>x + 1 / 2\<rfloor>"

text \<open>The \<open>Math.round(x * 10**k) / 10**k\<close> idiom.\<close>

definition round_dp :: "nat \<Rightarrow> real \<Rightarrow> real" where
  "round_dp k x = of_int (js_round (x * 10 ^ k)) / 10 ^ k"

abbreviation round2 :: "real \<Rightarrow> real" where "round2 \<equiv> round_dp 2"
abbreviation round4 :: "real \<Rightarrow> real" where "round4 \<equiv> round_dp 4"

lemma js_round_lower [bounds]: "x - 1 / 2 < of_int (js_round x)"
  unfolding js_round_def by linarith

lemma js_round_upper [bounds]: "of_int (js_round x) \<le> x + 1 / 2"
  unfolding js_round_def by linarith

lemma js_round_of_int [simp]: "js_round (of_int n) = n"
  unfolding js_round_def by linarith

lemma js_round_mono: "x \<le> y \<Longrightarrow> js_round x \<le> js_round y"
  unfolding js_round_def by (intro floor_mono) simp

lemma js_round_nonneg: "0 \<le> x \<Longrightarrow> 0 \<le> js_round x"
  unfolding js_round_def by simp

lemma round_dp_error: "\<bar>round_dp k x - x\<bar> \<le> 1 / (2 * 10 ^ k)"
proof -
  let ?d = "of_int (js_round (x * 10 ^ k)) - x * 10 ^ k :: real"
  have "\<bar>?d\<bar> \<le> 1 / 2"
    using js_round_lower [of "x * 10 ^ k"] js_round_upper [of "x * 10 ^ k"] by linarith
  then have "\<bar>?d\<bar> / 10 ^ k \<le> (1 / 2) / 10 ^ k"
    by (rule divide_right_mono) simp
  moreover have "round_dp k x - x = ?d / 10 ^ k"
    by (simp add: round_dp_def diff_divide_distrib)
  ultimately show ?thesis by (simp only: abs_divide power_abs)
qed

lemma round_dp_mono: "x \<le> y \<Longrightarrow> round_dp k x \<le> round_dp k y"
  unfolding round_dp_def by (intro divide_right_mono) (auto intro!: js_round_mono mult_right_mono)

lemma round_dp_int: "round_dp k (of_int n) = of_int n"
proof -
  have "(of_int n :: real) * 10 ^ k = of_int (n * 10 ^ k)" by simp
  then have "js_round ((of_int n :: real) * 10 ^ k) = n * 10 ^ k"
    by (simp only: js_round_of_int)
  then show ?thesis by (simp add: round_dp_def)
qed

lemma round_dp_0 [simp]: "round_dp k 0 = 0"
  using round_dp_int [of k 0] by simp

lemma round_dp_1 [simp]: "round_dp k 1 = 1"
  using round_dp_int [of k 1] by simp

lemma round_dp_nonneg [bounds]: "0 \<le> x \<Longrightarrow> 0 \<le> round_dp k x"
  using round_dp_mono [of 0 x k] by simp

lemma round_dp_le1 [bounds]: "x \<le> 1 \<Longrightarrow> round_dp k x \<le> 1"
  using round_dp_mono [of x 1 k] by simp

text \<open>\<open>Math.max(lo, Math.min(hi, x))\<close>.\<close>

definition clamp :: "real \<Rightarrow> real \<Rightarrow> real \<Rightarrow> real" where
  "clamp lo hi x = max lo (min hi x)"

lemma clamp_bounds [bounds]: "lo \<le> hi \<Longrightarrow> lo \<le> clamp lo hi x \<and> clamp lo hi x \<le> hi"
  by (simp add: clamp_def)

lemma clamp_mono: "x \<le> y \<Longrightarrow> clamp lo hi x \<le> clamp lo hi y"
  by (auto simp: clamp_def)

lemma clamp_id: "lo \<le> x \<Longrightarrow> x \<le> hi \<Longrightarrow> clamp lo hi x = x"
  by (simp add: clamp_def)


section \<open>Strings\<close>

text \<open>\<open>toLowerCase\<close> on the ASCII letters (addresses, hashes, tags).\<close>

definition lower_char :: "char \<Rightarrow> char" where
  "lower_char c = (let n = of_char c :: nat in if 65 \<le> n \<and> n \<le> 90 then char_of (n + 32) else c)"

definition lower :: "string \<Rightarrow> string" where
  "lower s = map lower_char s"

lemma lower_char_idem [simp]: "lower_char (lower_char c) = lower_char c"
proof (cases "65 \<le> (of_char c :: nat) \<and> (of_char c :: nat) \<le> 90")
  case True
  then have "(of_char (char_of ((of_char c :: nat) + 32)) :: nat) = of_char c + 32"
    by simp
  with True show ?thesis by (simp add: lower_char_def Let_def)
next
  case False
  then show ?thesis by (auto simp: lower_char_def Let_def)
qed

lemma lower_idem [simp]: "lower (lower s) = lower s"
  by (simp add: lower_def)

lemma lower_length [simp]: "length (lower s) = length s"
  by (simp add: lower_def)

text \<open>\<open>s.startsWith(p)\<close>; \<open>s.includes(p)\<close>.\<close>

definition starts_with :: "string \<Rightarrow> string \<Rightarrow> bool" where
  "starts_with p s \<longleftrightarrow> take (length p) s = p"

fun contains :: "string \<Rightarrow> string \<Rightarrow> bool" where
  "contains p [] = (p = [])"
| "contains p (c # cs) = (starts_with p (c # cs) \<or> contains p cs)"

lemma starts_with_prefix: "starts_with p s \<longleftrightarrow> prefix p s"
  by (metis append_eq_conv_conj append_take_drop_id prefix_def starts_with_def)

lemma contains_sublist: "contains p s \<longleftrightarrow> sublist p s"
proof (induction s)
  case Nil
  show ?case by simp
next
  case (Cons c cs)
  then show ?case by (simp add: starts_with_prefix sublist_Cons_right)
qed


section \<open>Lists and options\<close>

text \<open>The \<open>??\<close> operator.\<close>

definition nullish :: "'a option \<Rightarrow> 'a \<Rightarrow> 'a" where
  "nullish x d = (case x of None \<Rightarrow> d | Some v \<Rightarrow> v)"

lemma nullish_simps [simp]: "nullish None d = d" "nullish (Some v) d = v"
  by (simp_all add: nullish_def)

text \<open>\<open>[...new Set(xs)]\<close>: the first occurrence of every element, in order.\<close>

fun uniq :: "'a list \<Rightarrow> 'a list" where
  "uniq [] = []"
| "uniq (x # xs) = x # filter (\<lambda>y. y \<noteq> x) (uniq xs)"

lemma set_uniq [simp]: "set (uniq xs) = set xs"
  by (induction xs) auto

lemma distinct_uniq [simp]: "distinct (uniq xs)"
  by (induction xs) auto

lemma length_uniq_le: "length (uniq xs) \<le> length xs"
  by (induction xs) (auto intro: order_trans [OF length_filter_le])

text \<open>\<open>x || undefined\<close> on texts.\<close>

definition clear_empty :: "'a list option \<Rightarrow> 'a list option" where
  "clear_empty x = (if x = Some [] then None else x)"

lemma find_Some_filter: "List.find P xs = (case filter P xs of [] \<Rightarrow> None | x # _ \<Rightarrow> Some x)"
  by (induction xs) auto

lemma count_filter_le: "length (filter P (filter Q xs)) \<le> length (filter P xs)"
  by (induction xs) auto

text \<open>Sums over lists.\<close>

lemma sum_list_nonneg_real:
  "(\<And>x. x \<in> set xs \<Longrightarrow> 0 \<le> f x) \<Longrightarrow> 0 \<le> sum_list (map (f :: 'a \<Rightarrow> real) xs)"
  by (induction xs) (auto intro: add_nonneg_nonneg)

lemma sum_list_le_length:
  "(\<And>x. x \<in> set xs \<Longrightarrow> f x \<le> c) \<Longrightarrow> sum_list (map (f :: 'a \<Rightarrow> real) xs) \<le> c * real (length xs)"
proof (induction xs)
  case (Cons x xs)
  then have "f x \<le> c" and "sum_list (map f xs) \<le> c * real (length xs)" by auto
  then show ?case by (simp add: algebra_simps)
qed simp

lemma stable_sort_unique:
  assumes "mset ys = mset xs"
    and "\<And>k. filter (\<lambda>x. f x = k) ys = filter (\<lambda>x. f x = k) xs"
    and "sorted (map f ys)"
  shows "ys = sort_key f xs"
proof -
  have "sort_key f xs = ys"
  proof (rule properties_for_sort_key)
    show "mset ys = mset xs" by (fact assms(1))
  next
    fix k assume "k \<in> set ys"
    have "filter (\<lambda>x. f x = f k) ys = filter (\<lambda>x. f x = f k) xs" by (rule assms(2))
    then show "filter (\<lambda>x. f k = f x) ys = filter (\<lambda>x. f k = f x) xs"
      by (simp add: eq_commute)
  next
    show "sorted (map f ys)" by (fact assms(3))
  qed
  then show ?thesis by simp
qed

end
