(* ===== verification/RpcQueue.thy ===== *)
theory RpcQueue
  imports Prelude
begin

text \<open>
  \<open>packages/rpc-budget/src/priority-queue.ts\<close> and \<open>token-bucket.ts\<close>: the two
  data structures of the request scheduler.  The queue is stated against an
  abstract contract (locale \<open>stable_queue\<close>: the contents are the pushed values
  stably sorted by priority), the bucket against a rate-limiter contract
  (locale \<open>rate_limiter\<close>: a grant costs one unit of a level that only the
  passing of time refills), from which the bound on the number of grants in a
  time window follows once.
\<close>


section \<open>Priority queue\<close>

record 'a entry =
  priority :: int
  seq :: nat
  val :: 'a

record 'a pqueue =
  items :: "'a entry list"
  next_seq :: nat

definition pq_empty :: "'a pqueue" where
  "pq_empty = \<lparr>items = [], next_seq = 0\<rparr>"

text \<open>The walk from the right end: the index at which the new entry is spliced in.\<close>

fun walk_left :: "int \<Rightarrow> 'a entry list \<Rightarrow> nat \<Rightarrow> nat" where
  "walk_left p xs 0 = 0"
| "walk_left p xs (Suc i) =
     (if priority (xs ! i) \<le> p then Suc i else walk_left p xs i)"

definition splice :: "nat \<Rightarrow> 'a \<Rightarrow> 'a list \<Rightarrow> 'a list" where
  "splice i x xs = take i xs @ x # drop i xs"

definition pq_push :: "int \<Rightarrow> 'a \<Rightarrow> 'a pqueue \<Rightarrow> 'a pqueue" where
  "pq_push p v q =
     (let e = \<lparr>priority = p, seq = next_seq q, val = v\<rparr>;
          i = walk_left p (items q) (length (items q))
      in \<lparr>items = splice i e (items q), next_seq = Suc (next_seq q)\<rparr>)"

definition pq_shift :: "'a pqueue \<Rightarrow> 'a option \<times> 'a pqueue" where
  "pq_shift q = (case items q of
       [] \<Rightarrow> (None, q)
     | e # es \<Rightarrow> (Some (val e), q\<lparr>items := es\<rparr>))"

definition pq_size :: "'a pqueue \<Rightarrow> nat" where
  "pq_size q = length (items q)"

definition pq_peek_priority :: "'a pqueue \<Rightarrow> int option" where
  "pq_peek_priority q = (case items q of [] \<Rightarrow> None | e # _ \<Rightarrow> Some (priority e))"


subsection \<open>The list view of a push\<close>

text \<open>Inserting after every entry of the same or a smaller priority.\<close>

fun insert_after :: "'a entry \<Rightarrow> 'a entry list \<Rightarrow> 'a entry list" where
  "insert_after e [] = [e]"
| "insert_after e (x # xs) =
     (if priority x \<le> priority e then x # insert_after e xs else e # x # xs)"

definition sorted_entries :: "'a entry list \<Rightarrow> bool" where
  "sorted_entries xs \<longleftrightarrow> sorted (map priority xs)"

lemma walk_left_le [simp]: "walk_left p xs n \<le> n"
  by (induction p xs n rule: walk_left.induct) (auto intro: le_SucI)

lemma walk_left_spec:
  "j < walk_left p xs n \<Longrightarrow> n \<le> length xs \<Longrightarrow> sorted_entries (take n xs) \<Longrightarrow> priority (xs ! j) \<le> p"
proof (induction p xs n rule: walk_left.induct)
  case (2 p xs i)
  have sub: "sorted_entries (take i xs)"
    using 2(4) by (auto simp: sorted_entries_def sorted_iff_nth_mono)
  show ?case
  proof (cases "priority (xs ! i) \<le> p")
    case True
    have "priority (xs ! j) \<le> priority (xs ! i)"
      using 2(2,3,4) True by (auto simp: sorted_entries_def sorted_iff_nth_mono)
    with True show ?thesis by simp
  next
    case False
    then show ?thesis using 2 sub by simp
  qed
qed simp

lemma walk_left_ge:
  "walk_left p xs n \<le> j \<Longrightarrow> j < n \<Longrightarrow> p < priority (xs ! j)"
  by (induction p xs n rule: walk_left.induct) (auto simp: less_Suc_eq split: if_splits)

lemma insert_after_split:
  "(\<forall>x \<in> set xs. priority x \<le> priority e) \<Longrightarrow> (\<forall>y \<in> set ys. priority e < priority y) \<Longrightarrow>
   insert_after e (xs @ ys) = xs @ e # ys"
  by (induction xs) (auto, cases ys, auto)

lemma splice_walk_left:
  assumes "sorted_entries xs" and "p = priority e"
  shows "splice (walk_left p xs (length xs)) e xs = insert_after e xs"
proof -
  let ?i = "walk_left p xs (length xs)"
  have le: "?i \<le> length xs" by simp
  have "\<forall>x \<in> set (take ?i xs). priority x \<le> priority e"
    using assms le walk_left_spec [of _ p xs "length xs"] by (auto simp: in_set_conv_nth)
  moreover have "\<forall>y \<in> set (drop ?i xs). priority e < priority y"
    using assms(2) le walk_left_ge [of p xs "length xs"] by (auto simp: in_set_conv_nth)
  ultimately have "insert_after e (take ?i xs @ drop ?i xs) = take ?i xs @ e # drop ?i xs"
    by (rule insert_after_split)
  then show ?thesis by (simp add: splice_def)
qed

lemma mset_insert_after [simp]: "mset (insert_after e xs) = add_mset e (mset xs)"
  by (induction xs) auto

lemma set_insert_after [simp]: "set (insert_after e xs) = insert e (set xs)"
  by (induction xs) auto

lemma sorted_insert_after:
  "sorted_entries xs \<Longrightarrow> sorted_entries (insert_after e xs)"
  by (induction xs) (auto simp: sorted_entries_def)

lemma filter_insert_after:
  "sorted_entries xs \<Longrightarrow>
   filter (\<lambda>x. priority x = k) (insert_after e xs) =
   filter (\<lambda>x. priority x = k) xs @ (if priority e = k then [e] else [])"
proof (induction xs)
  case (Cons x xs)
  show ?case
  proof (cases "priority x \<le> priority e")
    case True
    with Cons show ?thesis by (auto simp: sorted_entries_def)
  next
    case False
    then have "\<forall>y \<in> set (x # xs). priority e < priority y"
      using Cons.prems by (auto simp: sorted_entries_def)
    then have "priority e = k \<Longrightarrow> filter (\<lambda>y. priority y = k) (x # xs) = []"
      by (auto simp: filter_empty_conv)
    with False show ?thesis by auto
  qed
qed simp

lemma insert_after_sort_key:
  "insert_after e (sort_key priority xs) = sort_key priority (xs @ [e])"
proof (rule stable_sort_unique)
  have sorted: "sorted_entries (sort_key priority xs)" by (simp add: sorted_entries_def)
  show "mset (insert_after e (sort_key priority xs)) = mset (xs @ [e])" by simp
  show "sorted (map priority (insert_after e (sort_key priority xs)))"
    using sorted_insert_after [OF sorted] by (simp add: sorted_entries_def)
  fix k
  show "filter (\<lambda>x. priority x = k) (insert_after e (sort_key priority xs)) =
        filter (\<lambda>x. priority x = k) (xs @ [e])"
    by (simp add: filter_insert_after [OF sorted] sort_key_stable)
qed


subsection \<open>The contract of a stable priority queue\<close>

text \<open>
  \<open>arrivals q\<close> lists what is in the queue, priority first, in the order it will
  come out.
\<close>

locale stable_queue =
  fixes empty :: 'q
    and push :: "int \<Rightarrow> 'a \<Rightarrow> 'q \<Rightarrow> 'q"
    and shift :: "'q \<Rightarrow> 'a option \<times> 'q"
    and contents :: "'q \<Rightarrow> (int \<times> 'a) list"
    and ok :: "'q \<Rightarrow> bool"
  assumes ok_empty: "ok empty"
    and contents_empty: "contents empty = []"
    and ok_push: "ok q \<Longrightarrow> ok (push p v q)"
    and contents_push: "ok q \<Longrightarrow> contents (push p v q) = sort_key fst (contents q @ [(p, v)])"
    and shift_empty: "ok q \<Longrightarrow> contents q = [] \<Longrightarrow> shift q = (None, q)"
    and shift_Cons: "ok q \<Longrightarrow> contents q = (p, v) # rest \<Longrightarrow>
           fst (shift q) = Some v \<and> ok (snd (shift q)) \<and> contents (snd (shift q)) = rest"
begin

definition push_all :: "(int \<times> 'a) list \<Rightarrow> 'q \<Rightarrow> 'q" where
  "push_all pvs q = fold (\<lambda>(p, v). push p v) pvs q"

fun drain :: "nat \<Rightarrow> 'q \<Rightarrow> 'a list" where
  "drain 0 q = []"
| "drain (Suc n) q = (case shift q of (None, _) \<Rightarrow> [] | (Some v, q') \<Rightarrow> v # drain n q')"

lemma sort_snoc_sort:
  "sort_key fst (sort_key fst xs @ [x]) = sort_key fst (xs @ [x :: int \<times> 'a])"
proof (rule sym, rule stable_sort_unique [symmetric, THEN sym])
  show "mset (sort_key fst (xs @ [x])) = mset (sort_key fst xs @ [x])" by simp
  show "sorted (map fst (sort_key fst (xs @ [x])))" by simp
  show "filter (\<lambda>y. fst y = k) (sort_key fst (xs @ [x])) =
        filter (\<lambda>y. fst y = k) (sort_key fst xs @ [x])" for k
    by (simp add: sort_key_stable)
qed

lemma push_all_contents:
  "ok q \<Longrightarrow> contents q = sort_key fst as \<Longrightarrow>
   ok (push_all pvs q) \<and> contents (push_all pvs q) = sort_key fst (as @ pvs)"
proof (induction pvs arbitrary: q as)
  case (Cons pv pvs)
  obtain p v where pv: "pv = (p, v)" by (cases pv)
  have "contents (push p v q) = sort_key fst (as @ [pv])"
    using Cons.prems by (simp add: contents_push sort_snoc_sort pv)
  then show ?case
    using Cons.IH [of "push p v q" "as @ [pv]"] Cons.prems
    by (simp add: push_all_def pv ok_push)
qed (simp add: push_all_def)

lemma drain_contents: "ok q \<Longrightarrow> drain n q = map snd (take n (contents q))"
proof (induction n arbitrary: q)
  case (Suc n)
  show ?case
  proof (cases "contents q")
    case Nil
    then show ?thesis using Suc.prems by (simp add: shift_empty)
  next
    case (Cons pv rest)
    then obtain p v where "contents q = (p, v) # rest" by (cases pv) auto
    with shift_Cons [OF Suc.prems this] Suc.IH show ?thesis
      by (auto split: prod.splits option.splits)
  qed
qed simp

lemma drain_push_all:
  "drain (length pvs) (push_all pvs empty) = map snd (sort_key fst pvs)"
  using push_all_contents [of empty "[]" pvs] drain_contents
  by (simp add: ok_empty contents_empty)

end

definition entry_pair :: "'a entry \<Rightarrow> int \<times> 'a" where
  "entry_pair e = (priority e, val e)"

definition pq_contents :: "'a pqueue \<Rightarrow> (int \<times> 'a) list" where
  "pq_contents q = map entry_pair (items q)"

definition pq_ok :: "'a pqueue \<Rightarrow> bool" where
  "pq_ok q \<longleftrightarrow> sorted_entries (items q) \<and> (\<forall>e \<in> set (items q). seq e < next_seq q)"

lemma pq_push_items:
  "pq_ok q \<Longrightarrow> items (pq_push p v q) =
     insert_after \<lparr>priority = p, seq = next_seq q, val = v\<rparr> (items q)"
  by (simp add: pq_push_def Let_def pq_ok_def splice_walk_left)

lemma pq_ok_push: "pq_ok q \<Longrightarrow> pq_ok (pq_push p v q)"
  using pq_push_items [of q p v]
  by (auto simp: pq_ok_def pq_push_def Let_def sorted_insert_after less_SucI)

lemma map_insert_after_pairs:
  "map entry_pair (insert_after e xs) =
   takeWhile (\<lambda>x. fst x \<le> priority e) (map entry_pair xs) @
   entry_pair e # dropWhile (\<lambda>x. fst x \<le> priority e) (map entry_pair xs)"
  by (induction xs) (auto simp: entry_pair_def)

lemma sorted_entry_pairs:
  "sorted_entries xs \<longleftrightarrow> sorted (map fst (map entry_pair xs))"
  by (simp add: sorted_entries_def entry_pair_def comp_def)

lemma pq_contents_push:
  assumes "pq_ok q"
  shows "pq_contents (pq_push p v q) = sort_key fst (pq_contents q @ [(p, v)])"
proof (rule stable_sort_unique)
  let ?e = "\<lparr>priority = p, seq = next_seq q, val = v\<rparr>"
  have sorted: "sorted_entries (items q)" using assms by (simp add: pq_ok_def)
  have c: "pq_contents (pq_push p v q) = map entry_pair (insert_after ?e (items q))"
    using assms by (simp add: pq_contents_def pq_push_items)
  show "mset (pq_contents (pq_push p v q)) = mset (pq_contents q @ [(p, v)])"
    by (simp only: c) (simp add: pq_contents_def entry_pair_def)
  show "sorted (map fst (pq_contents (pq_push p v q)))"
    using sorted_insert_after [OF sorted, of ?e] by (simp only: c sorted_entry_pairs)
  fix k
  show "filter (\<lambda>x. fst x = k) (pq_contents (pq_push p v q)) =
        filter (\<lambda>x. fst x = k) (pq_contents q @ [(p, v)])"
    using filter_insert_after [OF sorted, of k ?e]
    by (simp only: c) (simp add: pq_contents_def filter_map comp_def entry_pair_def)
qed

lemma pq_shift_empty: "pq_contents q = [] \<Longrightarrow> pq_shift q = (None, q)"
  by (simp add: pq_shift_def pq_contents_def)

lemma pq_shift_Cons:
  "pq_ok q \<Longrightarrow> pq_contents q = (p, v) # rest \<Longrightarrow>
   fst (pq_shift q) = Some v \<and> pq_ok (snd (pq_shift q)) \<and> pq_contents (snd (pq_shift q)) = rest"
  by (auto simp: pq_shift_def pq_contents_def pq_ok_def sorted_entries_def entry_pair_def
      split: list.splits)

interpretation pq: stable_queue pq_empty pq_push pq_shift pq_contents pq_ok
proof unfold_locales
  show "pq_ok (pq_empty :: 'a pqueue)"
    by (simp add: pq_ok_def pq_empty_def sorted_entries_def)
  show "pq_contents (pq_empty :: 'a pqueue) = []"
    by (simp add: pq_contents_def pq_empty_def)
qed (auto simp: pq_ok_push pq_contents_push pq_shift_empty dest: pq_shift_Cons)


subsection \<open>Refinement of the arrival-order queue\<close>

text \<open>
  The abstract queue is the plain list of what has been pushed and not yet
  taken, in arrival order; taking removes the earliest arrival among those of
  the least priority.
\<close>

datatype 'a pq_op = Push int 'a | Shift

definition first_min :: "(int \<times> 'a) list \<Rightarrow> (int \<times> 'a) option" where
  "first_min as = (case as of
       [] \<Rightarrow> None
     | _ \<Rightarrow> List.find (\<lambda>a. fst a = Min (set (map fst as))) as)"

fun spec_run :: "'a pq_op list \<Rightarrow> (int \<times> 'a) list \<Rightarrow> 'a option list" where
  "spec_run [] as = []"
| "spec_run (Push p v # ops) as = spec_run ops (as @ [(p, v)])"
| "spec_run (Shift # ops) as = (case first_min as of
       None \<Rightarrow> None # spec_run ops as
     | Some a \<Rightarrow> Some (snd a) # spec_run ops (remove1 a as))"

fun pq_run :: "'a pq_op list \<Rightarrow> 'a pqueue \<Rightarrow> 'a option list" where
  "pq_run [] q = []"
| "pq_run (Push p v # ops) q = pq_run ops (pq_push p v q)"
| "pq_run (Shift # ops) q = (case pq_shift q of (v, q') \<Rightarrow> v # pq_run ops q')"

lemma first_min_sort_key:
  assumes "sort_key fst as = a # rest"
  shows "first_min as = Some a"
proof -
  have ne: "as \<noteq> []" using assms by auto
  have sorted: "sorted (map fst (a # rest))" using assms by (metis sorted_sort_key)
  have set: "set (map fst as) = set (map fst (a # rest))"
    using assms by (metis image_set set_sort)
  have "Min (set (map fst as)) = fst a"
    unfolding set using sorted by (intro Min_eqI) auto
  moreover have "filter (\<lambda>x. fst x = fst a) as = filter (\<lambda>x. fst x = fst a) (a # rest)"
    using sort_key_stable [of fst "fst a" as] assms by simp
  ultimately show ?thesis
    using ne by (auto simp: first_min_def find_Some_filter split: list.splits)
qed

lemma remove1_sort_key:
  "remove1 a (sort_key fst as) = sort_key fst (remove1 (a :: int \<times> 'a) as)"
proof (rule stable_sort_unique)
  show "mset (remove1 a (sort_key fst as)) = mset (remove1 a as)" by simp
  show "sorted (map fst (remove1 a (sort_key fst as)))"
    by (simp add: sorted_map_remove1)
  fix k
  show "filter (\<lambda>x. fst x = k) (remove1 a (sort_key fst as)) = filter (\<lambda>x. fst x = k) (remove1 a as)"
    by (simp add: filter_remove1 sort_key_stable)
qed

lemma pq_run_refines:
  "pq_ok q \<Longrightarrow> pq_contents q = sort_key fst as \<Longrightarrow> pq_run ops q = spec_run ops as"
proof (induction ops q arbitrary: as rule: pq_run.induct)
  case (2 p v ops q)
  then show ?case
    by (simp add: pq_ok_push pq_contents_push pq.sort_snoc_sort)
next
  case (3 ops q)
  show ?case
  proof (cases "pq_contents q")
    case Nil
    then have "as = []" using 3(3) by (metis length_0_conv length_sort)
    then show ?thesis using 3 Nil by (simp add: pq_shift_empty first_min_def)
  next
    case (Cons a rest)
    obtain p v where a: "a = (p, v)" by (cases a)
    have shift: "fst (pq_shift q) = Some v" "pq_ok (snd (pq_shift q))"
        "pq_contents (snd (pq_shift q)) = rest"
      using pq_shift_Cons [OF 3(2), of p v rest] Cons a by auto
    have "rest = sort_key fst (remove1 a as)"
      using remove1_sort_key [of a as] 3(3) Cons by (metis remove1.simps(2))
    moreover have "first_min as = Some a"
      using first_min_sort_key 3(3) Cons by metis
    ultimately show ?thesis
      using 3(1) shift by (auto simp: a split: prod.splits)
  qed
qed simp


section \<open>Token bucket\<close>

record bucket =
  capacity :: real
  refill_per_sec :: real
  tokens :: real
  last_refill :: real

text \<open>The constructor: the two \<open>throw\<close>s are the \<open>Inl\<close> branches.\<close>

definition bucket_new :: "real \<Rightarrow> real \<Rightarrow> real \<Rightarrow> string + bucket" where
  "bucket_new cap rps t =
     (if cap \<le> 0 then Inl ''TokenBucket: capacity must be > 0''
      else if rps \<le> 0 then Inl ''TokenBucket: refillPerSec must be > 0''
      else Inr \<lparr>capacity = cap, refill_per_sec = rps, tokens = cap, last_refill = t\<rparr>)"

definition refill :: "real \<Rightarrow> bucket \<Rightarrow> bucket" where
  "refill t b =
     (let elapsed = (t - last_refill b) / 1000
      in if elapsed \<le> 0 then b
         else b\<lparr>tokens := min (capacity b) (tokens b + elapsed * refill_per_sec b), last_refill := t\<rparr>)"

definition try_take :: "real \<Rightarrow> real \<Rightarrow> bucket \<Rightarrow> bool \<times> bucket" where
  "try_take n t b =
     (let b' = refill t b
      in if tokens b' + 1 / 10 ^ 9 \<ge> n then (True, b'\<lparr>tokens := tokens b' - n\<rparr>) else (False, b'))"

definition ms_until_available :: "real \<Rightarrow> real \<Rightarrow> bucket \<Rightarrow> int \<times> bucket" where
  "ms_until_available n t b =
     (let b' = refill t b
      in if tokens b' + 1 / 10 ^ 9 \<ge> n then (0, b')
         else (\<lceil>(n - tokens b') / refill_per_sec b' * 1000\<rceil>, b'))"

definition bucket_available :: "real \<Rightarrow> bucket \<Rightarrow> real \<times> bucket" where
  "bucket_available t b = (let b' = refill t b in (tokens b', b'))"

definition bucket_ok :: "bucket \<Rightarrow> bool" where
  "bucket_ok b \<longleftrightarrow> 0 < capacity b \<and> 0 < refill_per_sec b \<and>
     - (1 / 10 ^ 9) \<le> tokens b \<and> tokens b \<le> capacity b"

lemma bucket_new_ok: "bucket_new cap rps t = Inr b \<Longrightarrow>
    bucket_ok b \<and> tokens b = cap \<and> capacity b = cap \<and> refill_per_sec b = rps \<and> last_refill b = t"
  by (auto simp: bucket_new_def bucket_ok_def split: if_splits)

lemma refill_static [simp]:
  "capacity (refill t b) = capacity b" "refill_per_sec (refill t b) = refill_per_sec b"
  by (simp_all add: refill_def Let_def)

lemma refill_ok: "bucket_ok b \<Longrightarrow> bucket_ok (refill t b)"
  by (auto simp: refill_def Let_def bucket_ok_def intro!: add_increasing2 mult_nonneg_nonneg)

lemma refill_clock: "last_refill b \<le> last_refill (refill t b)"
  by (simp add: refill_def Let_def)

lemma refill_level:
  "bucket_ok b \<Longrightarrow>
   tokens (refill t b) \<le> tokens b + refill_per_sec b * ((last_refill (refill t b) - last_refill b) / 1000)"
  by (auto simp: refill_def Let_def min_def algebra_simps)

lemma try_take_static:
  "try_take n t b = (g, b') \<Longrightarrow>
   capacity b' = capacity b \<and> refill_per_sec b' = refill_per_sec b \<and>
   last_refill b' = last_refill (refill t b)"
  by (auto simp: try_take_def Let_def split: if_splits)

lemma try_take_ok:
  "bucket_ok b \<Longrightarrow> 0 \<le> n \<Longrightarrow> try_take n t b = (g, b') \<Longrightarrow> bucket_ok b'"
  using refill_ok [of b t] by (auto simp: try_take_def Let_def bucket_ok_def split: if_splits)

lemma try_take_level:
  "bucket_ok b \<Longrightarrow> try_take 1 t b = (g, b') \<Longrightarrow>
   tokens b' + of_bool g \<le> tokens b + refill_per_sec b * ((last_refill b' - last_refill b) / 1000)"
  using refill_level [of b t] by (auto simp: try_take_def Let_def split: if_splits)


subsection \<open>The contract of a rate limiter\<close>

locale rate_limiter =
  fixes take1 :: "real \<Rightarrow> 'b \<Rightarrow> bool \<times> 'b"
    and level :: "'b \<Rightarrow> real"
    and clock :: "'b \<Rightarrow> real"
    and rate :: "'b \<Rightarrow> real"   \<comment> \<open>units per second\<close>
    and cap :: "'b \<Rightarrow> real"
    and slack :: real
    and ok :: "'b \<Rightarrow> bool"
  assumes take1_ok: "ok b \<Longrightarrow> take1 t b = (g, b') \<Longrightarrow> ok b'"
    and take1_rate: "ok b \<Longrightarrow> take1 t b = (g, b') \<Longrightarrow> rate b' = rate b \<and> cap b' = cap b"
    and take1_level: "ok b \<Longrightarrow> take1 t b = (g, b') \<Longrightarrow>
          level b' + of_bool g \<le> level b + rate b * ((clock b' - clock b) / 1000)"
    and level_range: "ok b \<Longrightarrow> - slack \<le> level b \<and> level b \<le> cap b"
begin

fun grants :: "real list \<Rightarrow> 'b \<Rightarrow> nat \<times> 'b" where
  "grants [] b = (0, b)"
| "grants (t # ts) b =
     (case take1 t b of (g, b') \<Rightarrow>
        (case grants ts b' of (n, b'') \<Rightarrow> ((if g then Suc n else n), b'')))"

lemma grants_potential:
  "ok b \<Longrightarrow> grants ts b = (n, b') \<Longrightarrow>
   ok b' \<and> rate b' = rate b \<and> cap b' = cap b \<and>
   level b' + real n \<le> level b + rate b * ((clock b' - clock b) / 1000)"
proof (induction ts arbitrary: b n b')
  case (Cons t ts)
  obtain g b1 where take: "take1 t b = (g, b1)" by (cases "take1 t b")
  obtain m b2 where rest: "grants ts b1 = (m, b2)" by (cases "grants ts b1")
  have ok1: "ok b1" using take1_ok Cons.prems(1) take by blast
  note ih = Cons.IH [OF ok1 rest]
  have eqs: "n = of_bool g + m" "b' = b2" using Cons.prems(2) take rest by auto
  have "level b1 + of_bool g \<le> level b + rate b * ((clock b1 - clock b) / 1000)"
    using take1_level Cons.prems(1) take by blast
  moreover have "rate b1 = rate b \<and> cap b1 = cap b"
    using take1_rate Cons.prems(1) take by blast
  ultimately show ?case using ih
    by (auto simp: eqs field_simps)
qed simp

lemma grants_window:
  assumes "ok b" and "grants ts b = (n, b')"
  shows "real n \<le> cap b + slack + rate b * ((clock b' - clock b) / 1000)"
  using grants_potential [OF assms] level_range [of b] level_range [of b'] assms(1)
  by linarith

end

interpretation tb: rate_limiter "try_take 1" tokens last_refill refill_per_sec capacity "1 / 10 ^ 9" bucket_ok
proof unfold_locales
  fix b b' t g assume ok: "bucket_ok b" and take: "try_take 1 t b = (g, b')"
  show "bucket_ok b'" using try_take_ok [OF ok _ take] by simp
  show "refill_per_sec b' = refill_per_sec b \<and> capacity b' = capacity b"
    using try_take_static [OF take] by simp
  show "tokens b' + of_bool g \<le> tokens b + refill_per_sec b * ((last_refill b' - last_refill b) / 1000)"
    by (rule try_take_level [OF ok take])
next
  fix b assume "bucket_ok b"
  then show "- (1 / 10 ^ 9) \<le> tokens b \<and> tokens b \<le> capacity b" by (simp add: bucket_ok_def)
qed

text \<open>Waiting the announced time is enough.\<close>

lemma ms_until_available_enough:
  assumes ok: "bucket_ok b" and n: "n \<le> capacity b" and last: "last_refill b = t"
    and wait: "ms_until_available n t b = (w, b')" and later: "t + of_int w \<le> t'"
  shows "fst (try_take n t' b')"
proof -
  have r: "refill t b = b" using last by (simp add: refill_def)
  have b': "b' = b" using wait by (auto simp: ms_until_available_def r Let_def split: if_splits)
  show ?thesis
  proof (cases "tokens b + 1 / 10 ^ 9 \<ge> n")
    case True
    have "tokens b \<le> tokens (refill t' b)"
      using ok by (auto simp: refill_def Let_def bucket_ok_def intro!: mult_nonneg_nonneg)
    with True show ?thesis by (simp add: try_take_def Let_def b')
  next
    case False
    then have w: "w = \<lceil>(n - tokens b) / refill_per_sec b * 1000\<rceil>"
      using wait by (auto simp: ms_until_available_def r Let_def)
    have pos: "0 < refill_per_sec b" using ok by (simp add: bucket_ok_def)
    have gap: "0 < n - tokens b" using False by simp
    define x where "x = (n - tokens b) / refill_per_sec b"
    have "x * 1000 \<le> of_int w" unfolding w x_def by linarith
    then have "x * 1000 \<le> t' - t" using later by simp
    then have "x \<le> (t' - t) / 1000" by simp
    then have enough: "n - tokens b \<le> (t' - t) / 1000 * refill_per_sec b"
      using pos by (simp add: x_def pos_divide_le_eq)
    then have "0 < (t' - t) / 1000 * refill_per_sec b" using gap by linarith
    then have "0 < (t' - t) / 1000" using pos by (simp add: zero_less_mult_iff)
    then have "tokens (refill t' b) = min (capacity b) (tokens b + (t' - t) / 1000 * refill_per_sec b)"
      using last by (simp add: refill_def Let_def)
    then have "n \<le> tokens (refill t' b)" using enough n by simp
    then show ?thesis by (simp add: try_take_def Let_def b')
  qed
qed


section \<open>Property\<close>

text \<open>
  the priority queue refines the arrival-order queue. For every sequence
  of pushes and shifts, starting empty, the values it hands out are exactly
  those of the list that keeps arrivals in order and removes the earliest
  arrival of the least priority; in particular it is FIFO within a priority.
\<close>

theorem pq_refines_arrivals: "pq_run ops pq_empty = spec_run ops []"
  by (rule pq_run_refines) (simp_all add: pq.ok_empty pq.contents_empty)
end
