(* ===== verification/RpcScheduler.thy ===== *)
theory RpcScheduler
  imports RpcQueue
begin

text \<open>
  \<open>packages/rpc-budget/src/scheduler.ts\<close>, \<open>config.ts\<close> and \<open>priorities.ts\<close>: the
  per-URL request scheduler.  Every entry of the event loop into the class is
  one atomic operation (\<open>schedule\<close>, the pump's microtask, the timer's callback,
  the settling of a running job); \<open>sched_step\<close> lists them and the invariants are
  proved over the reachable states.  The clock is read as one value per
  operation.  The promise plumbing (\<open>resolve\<close>, \<open>reject\<close>) is not modelled: a job
  is what its closure is known by.  \<open>running\<close> and \<open>start_log\<close> are ghost fields
  (which jobs are in flight, in which order jobs were started).
\<close>


section \<open>Configuration\<close>

datatype priority_tier = Watcher | Commit | Outcomes | Deepdive | Backfill

fun tier_priority :: "priority_tier \<Rightarrow> int" where
  "tier_priority Watcher = 0"
| "tier_priority Commit = 1"
| "tier_priority Outcomes = 2"
| "tier_priority Deepdive = 3"
| "tier_priority Backfill = 4"

record budget_config =
  cfg_rpm :: real
  cfg_max_in_flight :: real
  cfg_burst :: "real option"

record budget_overrides =
  ov_rpm :: "real option"
  ov_max_in_flight :: "real option"
  ov_burst :: "real option"

text \<open>\<open>{ ...overrides, ...cfg }\<close>: a key the second object has wins.\<close>

definition configure_rpc_budget :: "budget_overrides \<Rightarrow> budget_overrides \<Rightarrow> budget_overrides" where
  "configure_rpc_budget old cfg =
     (let pick = (\<lambda>f. case f cfg of None \<Rightarrow> f old | Some v \<Rightarrow> Some v)
      in \<lparr>ov_rpm = pick ov_rpm, ov_max_in_flight = pick ov_max_in_flight, ov_burst = pick ov_burst\<rparr>)"

text \<open>\<open>Number(process.env.X)\<close> is \<open>None\<close> when it is not finite.\<close>

definition env_or :: "real option \<Rightarrow> real \<Rightarrow> real" where
  "env_or e d = (case e of Some v \<Rightarrow> if v > 0 then v else d | None \<Rightarrow> d)"

definition resolve_budget_config ::
    "budget_overrides \<Rightarrow> real option \<Rightarrow> real option \<Rightarrow> budget_config" where
  "resolve_budget_config ov env_rpm env_inflight =
     \<lparr>cfg_rpm = nullish (ov_rpm ov) (env_or env_rpm 500),
      cfg_max_in_flight = nullish (ov_max_in_flight ov) (env_or env_inflight 12),
      cfg_burst = ov_burst ov\<rparr>"


section \<open>State and operations\<close>

record 'j job =
  job_priority :: int
  job_run :: 'j

record 'j sched =
  s_bucket :: bucket
  s_queue :: "'j job pqueue"
  s_max_in_flight :: real
  s_in_flight :: nat
  s_timer :: "real option"      \<comment> \<open>when the pending timer is due\<close>
  s_pumping :: bool
  s_enqueued :: nat
  s_started :: nat
  s_completed :: nat
  s_failed :: nat
  s_by_priority :: "int \<rightharpoonup> nat"
  running :: "'j job list"
  start_log :: "'j job list"

definition default_burst :: "real \<Rightarrow> real" where
  "default_burst rpm = max (of_int \<lceil>rpm / 30\<rceil>) 3"

definition sched_new :: "real \<Rightarrow> real option \<Rightarrow> real option \<Rightarrow> real \<Rightarrow> string + 'j sched" where
  "sched_new rpm burst max_if t =
     (case bucket_new (nullish burst (default_burst rpm)) (rpm / 60) t of
        Inl e \<Rightarrow> Inl e
      | Inr b \<Rightarrow> Inr \<lparr>s_bucket = b, s_queue = pq_empty, s_max_in_flight = nullish max_if 12,
                     s_in_flight = 0, s_timer = None, s_pumping = False, s_enqueued = 0,
                     s_started = 0, s_completed = 0, s_failed = 0, s_by_priority = Map.empty,
                     running = [], start_log = []\<rparr>)"

text \<open>\<open>pump\<close>: one microtask at most is outstanding.\<close>

definition sched_pump :: "'j sched \<Rightarrow> 'j sched" where
  "sched_pump s = (if s_pumping s then s else s\<lparr>s_pumping := True\<rparr>)"

definition sched_schedule :: "int \<Rightarrow> 'j \<Rightarrow> 'j sched \<Rightarrow> 'j sched" where
  "sched_schedule p r s =
     sched_pump (s\<lparr>s_queue := pq_push p \<lparr>job_priority = p, job_run = r\<rparr> (s_queue s),
                   s_enqueued := Suc (s_enqueued s)\<rparr>)"

text \<open>The bookkeeping of a job's start, at the end of the loop body.\<close>

definition sched_start :: "'j job \<Rightarrow> 'j sched \<Rightarrow> 'j sched" where
  "sched_start j s = s\<lparr>s_in_flight := Suc (s_in_flight s),
      s_started := Suc (s_started s),
      s_by_priority := (s_by_priority s)(job_priority j \<mapsto>
          nullish (s_by_priority s (job_priority j)) 0 + 1),
      running := j # running s,
      start_log := start_log s @ [j]\<rparr>"

text \<open>Out of tokens: arm the timer unless one is pending.\<close>

definition sched_wait :: "real \<Rightarrow> 'j sched \<Rightarrow> 'j sched" where
  "sched_wait t s =
     (case ms_until_available 1 t (s_bucket s) of (w, b) \<Rightarrow>
        s\<lparr>s_bucket := b,
          s_timer := (case s_timer s of
              None \<Rightarrow> Some (t + of_int (max w 5))
            | Some due \<Rightarrow> Some due)\<rparr>)"

function (sequential) sched_loop :: "real \<Rightarrow> 'j sched \<Rightarrow> 'j sched" where
  "sched_loop t s =
     (if pq_size (s_queue s) > 0 \<and> real (s_in_flight s) < s_max_in_flight s
      then (case try_take 1 t (s_bucket s) of (granted, b) \<Rightarrow>
              if \<not> granted then sched_wait t (s\<lparr>s_bucket := b\<rparr>)
              else (case pq_shift (s_queue s) of
                      (None, q) \<Rightarrow> s\<lparr>s_bucket := b, s_queue := q\<rparr>
                    | (Some j, q) \<Rightarrow>
                        sched_loop t (sched_start j (s\<lparr>s_bucket := b, s_queue := q\<rparr>))))
      else s)"
  by pat_completeness auto
termination
  by (relation "measure (\<lambda>(t, s). pq_size (s_queue s))")
    (auto simp: pq_shift_def pq_size_def sched_start_def split: list.splits)

declare sched_loop.simps [simp del]

definition sched_microtask :: "real \<Rightarrow> 'j sched \<Rightarrow> 'j sched" where
  "sched_microtask t s = sched_loop t (s\<lparr>s_pumping := False\<rparr>)"

definition sched_timer_fire :: "real \<Rightarrow> 'j sched \<Rightarrow> 'j sched" where
  "sched_timer_fire t s = sched_loop t (s\<lparr>s_timer := None\<rparr>)"

text \<open>\<open>execute\<close> from the point where \<open>await job.run()\<close> settles.\<close>

definition sched_settle :: "real \<Rightarrow> 'j job \<Rightarrow> bool \<Rightarrow> 'j sched \<Rightarrow> 'j sched" where
  "sched_settle t j fulfilled s =
     (let s1 = (if fulfilled then s\<lparr>s_completed := Suc (s_completed s)\<rparr>
                else s\<lparr>s_failed := Suc (s_failed s)\<rparr>)
      in sched_loop t (s1\<lparr>s_in_flight := s_in_flight s1 - 1, running := remove1 j (running s1)\<rparr>))"

record sched_stats =
  st_enqueued :: nat
  st_started :: nat
  st_completed :: nat
  st_failed :: nat
  st_in_flight :: nat
  st_queued :: nat
  st_by_priority :: "int \<rightharpoonup> nat"

definition sched_stats_of :: "'j sched \<Rightarrow> sched_stats" where
  "sched_stats_of s = \<lparr>st_enqueued = s_enqueued s, st_started = s_started s,
     st_completed = s_completed s, st_failed = s_failed s, st_in_flight = s_in_flight s,
     st_queued = pq_size (s_queue s), st_by_priority = s_by_priority s\<rparr>"

inductive sched_step :: "'j sched \<Rightarrow> 'j sched \<Rightarrow> bool" where
  schedule: "sched_step s (sched_schedule p r s)"
| microtask: "s_pumping s \<Longrightarrow> sched_step s (sched_microtask t s)"
| timer: "s_timer s = Some due \<Longrightarrow> due \<le> t \<Longrightarrow> sched_step s (sched_timer_fire t s)"
| settle: "j \<in> set (running s) \<Longrightarrow> sched_step s (sched_settle t j fulfilled s)"

inductive sched_reach :: "'j sched \<Rightarrow> 'j sched \<Rightarrow> bool" for s0 where
  start: "sched_reach s0 s0"
| step: "sched_reach s0 s \<Longrightarrow> sched_step s s' \<Longrightarrow> sched_reach s0 s'"

inductive_cases sched_stepE: "sched_step s s'"


text \<open>The three ways a pass of the loop goes.\<close>

lemma sched_loop_idle:
  "pq_size (s_queue s) = 0 \<or> s_max_in_flight s \<le> real (s_in_flight s) \<Longrightarrow> sched_loop t s = s"
  by (subst sched_loop.simps) auto

lemma sched_loop_denied:
  "0 < pq_size (s_queue s) \<Longrightarrow> real (s_in_flight s) < s_max_in_flight s \<Longrightarrow>
   try_take 1 t (s_bucket s) = (False, b) \<Longrightarrow> sched_loop t s = sched_wait t (s\<lparr>s_bucket := b\<rparr>)"
  by (subst sched_loop.simps) simp

lemma sched_loop_granted:
  "0 < pq_size (s_queue s) \<Longrightarrow> real (s_in_flight s) < s_max_in_flight s \<Longrightarrow>
   try_take 1 t (s_bucket s) = (True, b) \<Longrightarrow> pq_shift (s_queue s) = (Some j, q) \<Longrightarrow>
   sched_loop t s = sched_loop t (sched_start j (s\<lparr>s_bucket := b, s_queue := q\<rparr>))"
  by (subst sched_loop.simps) simp


section \<open>Invariants\<close>

text \<open>One induction for everything the loop preserves.\<close>

lemma sched_loop_preserves:
  assumes wait: "\<And>t s b. P s \<Longrightarrow> pq_size (s_queue s) > 0 \<Longrightarrow> try_take 1 t (s_bucket s) = (False, b) \<Longrightarrow>
        P (sched_wait t (s\<lparr>s_bucket := b\<rparr>))"
    and run: "\<And>t s b j q. P s \<Longrightarrow> real (s_in_flight s) < s_max_in_flight s \<Longrightarrow>
        try_take 1 t (s_bucket s) = (True, b) \<Longrightarrow> pq_shift (s_queue s) = (Some j, q) \<Longrightarrow>
        P (sched_start j (s\<lparr>s_bucket := b, s_queue := q\<rparr>))"
  shows "P s \<Longrightarrow> P (sched_loop t s)"
proof (induction t s rule: sched_loop.induct)
  case (1 t s)
  have nonempty: "pq_size (s_queue s) > 0 \<Longrightarrow> pq_shift (s_queue s) \<noteq> (None, q)" for q
    by (auto simp: pq_size_def pq_shift_def split: list.splits)
  obtain g b where take: "try_take 1 t (s_bucket s) = (g, b)" by (cases "try_take 1 t (s_bucket s)")
  obtain oj q where sh: "pq_shift (s_queue s) = (oj, q)" by (cases "pq_shift (s_queue s)")
  show ?case
  proof (cases "pq_size (s_queue s) > 0 \<and> real (s_in_flight s) < s_max_in_flight s")
    case False
    then have "sched_loop t s = s" by (subst sched_loop.simps) (simp only: if_False)
    then show ?thesis using 1(2) by simp
  next
    case go: True
    show ?thesis
    proof (cases g)
      case False
      then show ?thesis using wait [OF 1(2)] go take by (simp add: sched_loop.simps)
    next
      case True
      obtain j where j: "oj = Some j" using nonempty [of q] go sh by (cases oj) auto
      have "sched_loop t s = sched_loop t (sched_start j (s\<lparr>s_bucket := b, s_queue := q\<rparr>))"
        using go take sh True j by (subst sched_loop.simps) simp
      moreover have "P (sched_start j (s\<lparr>s_bucket := b, s_queue := q\<rparr>))"
        using run [OF 1(2)] go take sh True j by simp
      ultimately show ?thesis
        using 1(1) [OF go take [symmetric] _ sh [symmetric] j] True by simp
    qed
  qed
qed

definition sched_inv :: "'j sched \<Rightarrow> bool" where
  "sched_inv s \<longleftrightarrow> bucket_ok (s_bucket s) \<and> pq_ok (s_queue s) \<and>
     (\<forall>e \<in> set (items (s_queue s)). job_priority (val e) = priority e) \<and>
     length (running s) = s_in_flight s \<and>
     s_started s = s_completed s + s_failed s + s_in_flight s \<and>
     s_enqueued s = s_started s + pq_size (s_queue s) \<and>
     s_in_flight s \<le> nat \<lceil>s_max_in_flight s\<rceil> \<and>
     length (start_log s) = s_started s"

lemma sched_wait_simps [simp]:
  "s_queue (sched_wait t s) = s_queue s" "s_in_flight (sched_wait t s) = s_in_flight s"
  "s_max_in_flight (sched_wait t s) = s_max_in_flight s"
  "s_started (sched_wait t s) = s_started s" "s_completed (sched_wait t s) = s_completed s"
  "s_failed (sched_wait t s) = s_failed s" "s_enqueued (sched_wait t s) = s_enqueued s"
  "running (sched_wait t s) = running s" "start_log (sched_wait t s) = start_log s"
  "s_by_priority (sched_wait t s) = s_by_priority s" "s_pumping (sched_wait t s) = s_pumping s"
  "s_bucket (sched_wait t s) = refill t (s_bucket s)"
  by (auto simp: sched_wait_def ms_until_available_def Let_def split: prod.splits if_splits)

lemma sched_wait_timer [simp]: "s_timer (sched_wait t s) \<noteq> None"
  by (auto simp: sched_wait_def split: prod.splits option.splits)

lemma in_flight_step: "real n < m \<Longrightarrow> Suc n \<le> nat \<lceil>m\<rceil>"
  by linarith

lemma pq_shift_Some:
  assumes "pq_shift q = (Some v, q')"
  obtains e where "items q = e # items q'" "val e = v" "next_seq q' = next_seq q"
  using assms by (cases "items q") (auto simp: pq_shift_def)

lemma sched_loop_inv: "sched_inv s \<Longrightarrow> sched_inv (sched_loop t s)"
proof (rule sched_loop_preserves [where P = sched_inv])
  fix t and s :: "'j sched" and b assume "sched_inv s" "try_take 1 t (s_bucket s) = (False, b)"
  then show "sched_inv (sched_wait t (s\<lparr>s_bucket := b\<rparr>))"
    using try_take_ok [of "s_bucket s" 1 t False b] by (simp add: sched_inv_def refill_ok)
next
  fix t and s :: "'j sched" and b j q
  assume inv: "sched_inv s" and room: "real (s_in_flight s) < s_max_in_flight s"
    and take: "try_take 1 t (s_bucket s) = (True, b)" and sh: "pq_shift (s_queue s) = (Some j, q)"
  obtain e where e: "items (s_queue s) = e # items q" "next_seq q = next_seq (s_queue s)"
    using sh by (rule pq_shift_Some)
  have "bucket_ok b" using try_take_ok [of "s_bucket s" 1 t True b] inv take by (simp add: sched_inv_def)
  moreover have "pq_ok q" using inv e by (simp add: sched_inv_def pq_ok_def sorted_entries_def)
  ultimately show "sched_inv (sched_start j (s\<lparr>s_bucket := b, s_queue := q\<rparr>))"
    using inv e in_flight_step [OF room] by (simp add: sched_inv_def sched_start_def pq_size_def)
qed

lemma pq_size_push [simp]: "pq_size (pq_push p v q) = Suc (pq_size q)"
  by (simp add: pq_push_def Let_def pq_size_def splice_def)

lemma sched_schedule_inv: "sched_inv s \<Longrightarrow> sched_inv (sched_schedule p r s)"
  by (auto simp: sched_inv_def sched_schedule_def sched_pump_def pq_ok_push pq_push_items)

lemma sched_settle_inv:
  assumes "sched_inv s" and "j \<in> set (running s)"
  shows "sched_inv (sched_settle t j fulfilled s)"
proof -
  have "0 < s_in_flight s" using assms by (auto simp: sched_inv_def intro: Nat.gr0I)
  with assms have "sched_inv (s\<lparr>s_completed := s_completed s + of_bool fulfilled,
      s_failed := s_failed s + of_bool (\<not> fulfilled),
      s_in_flight := s_in_flight s - 1, running := remove1 j (running s)\<rparr>)"
    by (auto simp: sched_inv_def length_remove1)
  then show ?thesis by (auto simp: sched_settle_def Let_def intro!: sched_loop_inv)
qed

lemma sched_step_inv: "sched_step s s' \<Longrightarrow> sched_inv s \<Longrightarrow> sched_inv s'"
proof (induction rule: sched_step.induct)
  case (microtask s t)
  then show ?case by (auto simp: sched_microtask_def sched_inv_def intro!: sched_loop_inv [unfolded sched_inv_def])
next
  case (timer s due t)
  then show ?case by (auto simp: sched_timer_fire_def sched_inv_def intro!: sched_loop_inv [unfolded sched_inv_def])
qed (simp_all add: sched_schedule_inv sched_settle_inv)

lemma sched_reach_inv: "sched_reach s0 s \<Longrightarrow> sched_inv s0 \<Longrightarrow> sched_inv s"
  by (induction rule: sched_reach.induct) (auto intro: sched_step_inv)

lemma sched_new_inv: "sched_new rpm burst m t = Inr s \<Longrightarrow> sched_inv s"
  using bucket_new_ok
  by (auto simp: sched_new_def sched_inv_def pq_ok_def sorted_entries_def pq_size_def pq_empty_def
      split: sum.splits)


subsection \<open>No lost wake-up\<close>

text \<open>Work that waits always has something that will look at it again.\<close>

definition wakeup_armed :: "'j sched \<Rightarrow> bool" where
  "wakeup_armed s \<longleftrightarrow> pq_size (s_queue s) = 0 \<or> s_pumping s \<or> s_timer s \<noteq> None \<or>
     s_max_in_flight s \<le> real (s_in_flight s)"

lemma sched_loop_wakeup: "wakeup_armed (sched_loop t s)"
proof (induction t s rule: sched_loop.induct)
  case (1 t s)
  obtain g b where take: "try_take 1 t (s_bucket s) = (g, b)" by (cases "try_take 1 t (s_bucket s)")
  obtain oj q where sh: "pq_shift (s_queue s) = (oj, q)" by (cases "pq_shift (s_queue s)")
  show ?case
  proof (cases "pq_size (s_queue s) > 0 \<and> real (s_in_flight s) < s_max_in_flight s")
    case False
    then have "sched_loop t s = s" by (subst sched_loop.simps) (simp only: if_False)
    then show ?thesis using False by (auto simp: wakeup_armed_def)
  next
    case go: True
    show ?thesis
    proof (cases "g \<and> oj \<noteq> None")
      case False
      then show ?thesis using go take sh
        by (subst sched_loop.simps)
          (auto simp: wakeup_armed_def pq_shift_def pq_size_def split: list.splits)
    next
      case True
      then obtain j where j: "oj = Some j" by auto
      have "sched_loop t s = sched_loop t (sched_start j (s\<lparr>s_bucket := b, s_queue := q\<rparr>))"
        using go take sh True j by (subst sched_loop.simps) simp
      then show ?thesis using 1 [OF go take [symmetric] _ sh [symmetric] j] True by simp
    qed
  qed
qed

lemma sched_step_wakeup: "sched_step s s' \<Longrightarrow> wakeup_armed s'"
proof (induction rule: sched_step.induct)
  case (schedule s p r)
  show ?case by (simp add: sched_schedule_def sched_pump_def wakeup_armed_def)
qed (auto simp: sched_microtask_def sched_timer_fire_def sched_settle_def Let_def
      sched_loop_wakeup)

lemma sched_reach_wakeup:
  "sched_reach s0 s \<Longrightarrow> wakeup_armed s0 \<Longrightarrow> wakeup_armed s"
  by (induction rule: sched_reach.induct) (auto intro: sched_step_wakeup)


subsection \<open>The sustained rate\<close>

definition rate_potential :: "bucket \<Rightarrow> nat \<Rightarrow> 'j sched \<Rightarrow> bool" where
  "rate_potential b0 n0 s \<longleftrightarrow> bucket_ok (s_bucket s) \<and>
     refill_per_sec (s_bucket s) = refill_per_sec b0 \<and> capacity (s_bucket s) = capacity b0 \<and>
     tokens (s_bucket s) + (real (s_started s) - real n0) \<le>
       tokens b0 + refill_per_sec b0 * ((last_refill (s_bucket s) - last_refill b0) / 1000)"

lemma rate_potential_taken:
  assumes "rate_potential b0 n0 s" and take: "try_take 1 t (s_bucket s) = (g, b)"
    and "s_bucket s' = b" and "s_started s' = s_started s + of_bool g"
  shows "rate_potential b0 n0 s'"
proof -
  have ok: "bucket_ok (s_bucket s)" using assms(1) by (simp add: rate_potential_def)
  have "bucket_ok b" using try_take_ok [OF ok _ take] by simp
  moreover have "tokens b + of_bool g \<le>
      tokens (s_bucket s) + refill_per_sec b0 * ((last_refill b - last_refill (s_bucket s)) / 1000)"
    using try_take_level [OF ok take] assms(1) by (simp add: rate_potential_def)
  ultimately show ?thesis
    using assms try_take_static [OF take]
    by (simp add: rate_potential_def algebra_simps diff_divide_distrib)
qed

lemma rate_potential_refill:
  assumes "rate_potential b0 n0 s" and "s_bucket s' = refill t (s_bucket s)" and "s_started s' = s_started s"
  shows "rate_potential b0 n0 s'"
  using assms refill_ok [of "s_bucket s" t] refill_level [of "s_bucket s" t]
  by (simp add: rate_potential_def algebra_simps diff_divide_distrib)

lemma rate_potential_cong:
  "rate_potential b0 n0 s \<Longrightarrow> s_bucket s' = s_bucket s \<Longrightarrow> s_started s' = s_started s \<Longrightarrow>
   rate_potential b0 n0 s'"
  by (simp add: rate_potential_def)

lemma sched_loop_rate: "rate_potential b0 n0 s \<Longrightarrow> rate_potential b0 n0 (sched_loop t s)"
proof (rule sched_loop_preserves [where P = "rate_potential b0 n0"])
  fix t and s :: "'j sched" and b
  assume inv: "rate_potential b0 n0 s" and take: "try_take 1 t (s_bucket s) = (False, b)"
  have "rate_potential b0 n0 (s\<lparr>s_bucket := b\<rparr>)"
    by (rule rate_potential_taken [OF inv take]) simp_all
  then show "rate_potential b0 n0 (sched_wait t (s\<lparr>s_bucket := b\<rparr>))"
    by (rule rate_potential_refill [where t = t]) simp_all
next
  fix t and s :: "'j sched" and b j q
  assume inv: "rate_potential b0 n0 s" and take: "try_take 1 t (s_bucket s) = (True, b)"
  show "rate_potential b0 n0 (sched_start j (s\<lparr>s_bucket := b, s_queue := q\<rparr>))"
    by (rule rate_potential_taken [OF inv take]) (simp_all add: sched_start_def)
qed

lemma sched_step_rate:
  "sched_step s s' \<Longrightarrow> rate_potential b0 n0 s \<Longrightarrow> rate_potential b0 n0 s'"
proof (induction rule: sched_step.induct)
  case (schedule s p r)
  then show ?case
    by (rule rate_potential_cong) (simp_all add: sched_schedule_def sched_pump_def)
qed (auto simp: sched_microtask_def sched_timer_fire_def sched_settle_def Let_def
      intro!: sched_loop_rate elim: rate_potential_cong)

lemma sched_reach_rate:
  "sched_reach s0 s \<Longrightarrow> bucket_ok (s_bucket s0) \<Longrightarrow> rate_potential (s_bucket s0) (s_started s0) s"
proof (induction rule: sched_reach.induct)
  case start
  then show ?case by (simp add: rate_potential_def)
qed (auto intro: sched_step_rate)


subsection \<open>Order of starts\<close>

lemma sched_loop_starts:
  "\<exists>n. start_log (sched_loop t s) = start_log s @ map val (take n (items (s_queue s))) \<and>
       items (s_queue (sched_loop t s)) = drop n (items (s_queue s))"
  (is "\<exists>n. ?Q n s (sched_loop t s)")
proof -
  have "\<exists>n. ?Q n s0 (sched_loop t s)" if start: "\<exists>n. ?Q n s0 s" for s0
  proof (rule sched_loop_preserves [where P = "\<lambda>s'. \<exists>n. ?Q n s0 s'", OF _ _ start])
    fix t and s' :: "'a sched" and b
    assume "\<exists>n. ?Q n s0 s'"
    then show "\<exists>n. ?Q n s0 (sched_wait t (s'\<lparr>s_bucket := b\<rparr>))" by simp
  next
    fix t and s' :: "'a sched" and b j q
    assume "\<exists>n. ?Q n s0 s'" and sh: "pq_shift (s_queue s') = (Some j, q)"
    then obtain n where n: "?Q n s0 s'" by blast
    obtain e where e: "items (s_queue s') = e # items q" "val e = j"
      using sh by (rule pq_shift_Some)
    let ?xs = "items (s_queue s0)"
    have d: "drop n ?xs = e # items q" using n e by simp
    then have len: "n < length ?xs" by (metis drop_eq_Nil leI list.distinct(1))
    have "?xs ! n = e" using d len by (metis Cons_nth_drop_Suc list.inject)
    then have "take (Suc n) ?xs = take n ?xs @ [e]" using len by (simp add: take_Suc_conv_app_nth)
    moreover have "drop (Suc n) ?xs = items q" using d len by (metis Cons_nth_drop_Suc list.inject)
    ultimately have "?Q (Suc n) s0 (sched_start j (s'\<lparr>s_bucket := b, s_queue := q\<rparr>))"
      using n e by (simp add: sched_start_def)
    then show "\<exists>n. ?Q n s0 (sched_start j (s'\<lparr>s_bucket := b, s_queue := q\<rparr>))" ..
  qed
  moreover have "?Q 0 s s" by simp
  ultimately show ?thesis by blast
qed

lemma sched_loop_order:
  assumes inv: "sched_inv s" and new: "start_log (sched_loop t s) = start_log s @ js"
  shows "sorted (map job_priority js) \<and>
    (\<forall>j \<in> set js. \<forall>e \<in> set (items (s_queue (sched_loop t s))). job_priority j \<le> priority e)"
proof -
  let ?xs = "items (s_queue s)"
  obtain n where n: "start_log (sched_loop t s) = start_log s @ map val (take n ?xs)"
      "items (s_queue (sched_loop t s)) = drop n ?xs"
    using sched_loop_starts [of t s] by blast
  have js: "js = map val (take n ?xs)" using n new by simp
  have "map job_priority js = map priority (take n ?xs)"
    using inv set_take_subset [of n ?xs] by (auto simp: js sched_inv_def)
  moreover have sorted: "sorted (map priority (take n ?xs @ drop n ?xs))"
    using inv by (simp add: sched_inv_def pq_ok_def sorted_entries_def)
  ultimately show ?thesis
    using inv set_take_subset [of n ?xs] unfolding js n(2)
    by (auto simp only: map_append sorted_append) (auto simp: sched_inv_def subset_iff)
qed

lemma sched_by_priority_step:
  "sched_step s s' \<Longrightarrow>
   \<forall>p. nullish (s_by_priority s p) 0 = length (filter (\<lambda>j. job_priority j = p) (start_log s)) \<Longrightarrow>
   \<forall>p. nullish (s_by_priority s' p) 0 = length (filter (\<lambda>j. job_priority j = p) (start_log s'))"
proof -
  let ?P = "\<lambda>s. \<forall>p. nullish (s_by_priority s p) 0 = length (filter (\<lambda>j. job_priority j = p) (start_log s))"
  have loop: "?P s \<Longrightarrow> ?P (sched_loop t s)" for t and s :: "'a sched"
    by (rule sched_loop_preserves [where P = ?P]) (auto simp: sched_start_def)
  assume "sched_step s s'" and "?P s"
  then show "?P s'"
    by (induction rule: sched_step.induct)
      (auto simp: sched_microtask_def sched_timer_fire_def sched_settle_def Let_def
        sched_schedule_def sched_pump_def intro!: loop [rule_format])
qed


section \<open>Properties\<close>

lemma sched_new_wakeup: "sched_new rpm burst m t = Inr s \<Longrightarrow> wakeup_armed s"
  by (auto simp: sched_new_def wakeup_armed_def pq_size_def pq_empty_def split: sum.splits)

text \<open>
  whatever is scheduled and however jobs settle, a scheduler never has more
  requests in flight than \<open>maxInFlight\<close>, its counters account for every job
  (each enqueued job is queued, in flight, completed or failed), and the number
  in flight is the number of closures still running.
\<close>

theorem sched_accounting:
  assumes "sched_new rpm burst m t0 = Inr s0" and "sched_reach s0 s"
  shows "s_in_flight s \<le> nat \<lceil>s_max_in_flight s\<rceil> \<and>
    s_enqueued s = pq_size (s_queue s) + s_in_flight s + s_completed s + s_failed s \<and>
    length (running s) = s_in_flight s"
  using sched_reach_inv [OF assms(2) sched_new_inv [OF assms(1)]]
  by (simp add: sched_inv_def)


lemma sched_reach_trans_rate:
  assumes "sched_reach s0 s" and "sched_inv s0"
  shows "bucket_ok (s_bucket s)"
  using sched_reach_inv [OF assms] by (simp add: sched_inv_def)


text \<open>
  a run of the admission loop starts jobs in priority order: the jobs it
  starts come out sorted by priority, and every one of them is at least as
  urgent as every job it leaves queued.
\<close>

theorem sched_priority_order:
  assumes "sched_new rpm burst m t0 = Inr s0" and "sched_reach s0 s"
    and "start_log (sched_loop t s) = start_log s @ js"
  shows "sorted (map job_priority js) \<and>
    (\<forall>j \<in> set js. \<forall>e \<in> set (items (s_queue (sched_loop t s))). job_priority j \<le> priority e)"
  using sched_loop_order [OF _ assms(3)] sched_reach_inv [OF assms(2) sched_new_inv [OF assms(1)]]
  by blast


subsection \<open>Witnesses\<close>

definition demo_new :: "string sched" where
  "demo_new = \<lparr>s_bucket = \<lparr>capacity = 1, refill_per_sec = 1, tokens = 1, last_refill = 0\<rparr>,
     s_queue = pq_empty, s_max_in_flight = 12, s_in_flight = 0, s_timer = None, s_pumping = False,
     s_enqueued = 0, s_started = 0, s_completed = 0, s_failed = 0, s_by_priority = Map.empty,
     running = [], start_log = []\<rparr>"

definition demo_two :: "string sched" where
  "demo_two = sched_schedule 0 ''head'' (sched_schedule 4 ''history'' demo_new)"

definition demo_run :: "string sched" where
  "demo_run = sched_microtask 0 demo_two"

lemma demo_new: "sched_new 60 (Some 1) None 0 = Inr demo_new"
  by (simp add: sched_new_def bucket_new_def demo_new_def)

lemma demo_two: "sched_reach demo_new demo_two"
  unfolding demo_two_def
  by (rule sched_reach.step, rule sched_reach.step, rule sched_reach.start)
    (rule sched_step.schedule)+

lemma demo_run: "sched_reach demo_new demo_run"
  unfolding demo_run_def
  by (rule sched_reach.step [OF demo_two], rule sched_step.microtask)
    (simp add: demo_two_def sched_schedule_def sched_pump_def)

lemma demo_run_state:
  "pq_size (s_queue demo_run) = 1 \<and> s_started demo_run = 1 \<and> s_timer demo_run = Some 1000 \<and>
   map job_run (start_log demo_run) = [''head''] \<and> s_in_flight demo_run = 1"
  by (simp add: demo_run_def demo_two_def demo_new_def sched_microtask_def sched_schedule_def
      sched_pump_def sched_loop_granted sched_loop_denied sched_start_def sched_wait_def pq_push_def pq_empty_def
      splice_def pq_size_def pq_shift_def try_take_def refill_def ms_until_available_def Let_def)

theorem sched_accounting_witness:
  "s_in_flight demo_run = 1 \<and> s_in_flight demo_run \<le> nat \<lceil>s_max_in_flight demo_run\<rceil> \<and>
   s_enqueued demo_run = pq_size (s_queue demo_run) + s_in_flight demo_run +
     s_completed demo_run + s_failed demo_run"
  using sched_accounting [OF demo_new demo_run] demo_run_state by simp



lemma demo_two_start: "start_log (sched_loop 0 demo_two) = start_log demo_two @ [\<lparr>job_priority = 0, job_run = ''head''\<rparr>]"
  by (simp add: demo_two_def demo_new_def sched_schedule_def
      sched_pump_def sched_loop_granted sched_loop_denied sched_start_def sched_wait_def pq_push_def pq_empty_def
      splice_def pq_size_def pq_shift_def try_take_def refill_def ms_until_available_def Let_def)

theorem sched_priority_order_witness:
  "list_all (\<lambda>e. 0 \<le> priority e) (items (s_queue (sched_loop 0 demo_two)))"
  using sched_priority_order [OF demo_new demo_two demo_two_start] by (simp add: list_all_iff)
end
