(* ===== verification/RpcCache.thy ===== *)
theory RpcCache
  imports Prelude
begin

text \<open>
  \<open>packages/rpc-budget/src/cache.ts\<close>: which JSON-RPC reads may be cached
  forever, the key two callers asking the same question share, and the bounded
  FIFO response cache.  JSON values carry their object entries in the order
  \<open>Object.keys\<close> gives them; characters are 8-bit code units and numbers are
  integers (what JSON-RPC parameters hold).  Integer-like object keys, which
  JavaScript orders on its own, do not occur in JSON-RPC parameters.
\<close>


section \<open>JSON values and their text\<close>

datatype json =
    JNull
  | JUndef
  | JBool bool
  | JInt int
  | JStr string
  | JArr "json list"
  | JObj "(string \<times> json) list"

fun digits :: "nat \<Rightarrow> string" where
  "digits n = (if n < 10 then [char_of (48 + n)] else digits (n div 10) @ [char_of (48 + n mod 10)])"

declare digits.simps [simp del]

definition show_int :: "int \<Rightarrow> string" where
  "show_int i = (if i < 0 then CHR ''-'' # digits (nat (- i)) else digits (nat i))"

definition hex_digit :: "nat \<Rightarrow> char" where
  "hex_digit n = char_of (if n < 10 then 48 + n else 87 + n)"

text \<open>The escapes of \<open>JSON.stringify\<close>.\<close>

definition escape_char :: "char \<Rightarrow> string" where
  "escape_char c =
     (let n = of_char c :: nat in
      if n = 34 then [CHR 0x5C, CHR 0x22]
      else if n = 92 then [CHR 0x5C, CHR 0x5C]
      else if n = 8 then [CHR 0x5C, CHR ''b'']
      else if n = 9 then [CHR 0x5C, CHR ''t'']
      else if n = 10 then [CHR 0x5C, CHR ''n'']
      else if n = 12 then [CHR 0x5C, CHR ''f'']
      else if n = 13 then [CHR 0x5C, CHR ''r'']
      else if n < 32 then CHR 0x5C # ''u00'' @ [hex_digit (n div 16), hex_digit (n mod 16)]
      else [c])"

definition quote :: "string \<Rightarrow> string" where
  "quote s = [CHR 0x22] @ concat (map escape_char s) @ [CHR 0x22]"

fun join :: "string \<Rightarrow> string list \<Rightarrow> string" where
  "join sep [] = []"
| "join sep [x] = x"
| "join sep (x # y # xs) = x @ sep @ join sep (y # xs)"

text \<open>
  \<open>JSON.stringify\<close>: an \<open>undefined\<close> entry of an object is left out, one of an
  array prints as \<open>null\<close>.
\<close>

fun stringify :: "json \<Rightarrow> string" where
  "stringify JNull = ''null''"
| "stringify JUndef = ''null''"
| "stringify (JBool b) = (if b then ''true'' else ''false'')"
| "stringify (JInt i) = show_int i"
| "stringify (JStr s) = quote s"
| "stringify (JArr xs) = ''['' @ join '','' (map stringify xs) @ '']''"
| "stringify (JObj kvs) = CHR 0x7B # join '',''
     (map (\<lambda>(k, v). quote k @ '':'' @ stringify v) (filter (\<lambda>(k, v). v \<noteq> JUndef) kvs)) @ [CHR 0x7D]"

primrec sort_keys :: "json \<Rightarrow> json" where
  "sort_keys JNull = JNull"
| "sort_keys JUndef = JUndef"
| "sort_keys (JBool b) = JBool b"
| "sort_keys (JInt i) = JInt i"
| "sort_keys (JStr s) = JStr s"
| "sort_keys (JArr xs) = JArr (map sort_keys xs)"
| "sort_keys (JObj kvs) = JObj (sort_key fst (map (map_prod id sort_keys) kvs))"

definition stable_stringify :: "json \<Rightarrow> string" where
  "stable_stringify j = stringify (sort_keys j)"


section \<open>Cacheability\<close>

definition immutable_methods :: "string list" where
  "immutable_methods = [''eth_chainId'', ''eth_getTransactionByHash'', ''eth_getTransactionReceipt'',
     ''eth_getBlockByHash'', ''eth_getBlockByNumber'', ''eth_getCode'', ''eth_getBalance'',
     ''eth_getTransactionCount'', ''eth_getStorageAt'', ''eth_call'', ''eth_getLogs'']"

definition moving_tags :: "string list" where
  "moving_tags = [''latest'', ''pending'', ''safe'', ''finalized'', ''earliest'']"

definition moving_tag_test :: "string \<Rightarrow> bool" where
  "moving_tag_test s \<longleftrightarrow> list_ex (\<lambda>tag. contains ([CHR 0x22] @ tag @ [CHR 0x22]) s) moving_tags"

definition block_arg_methods :: "string list" where
  "block_arg_methods = [''eth_getCode'', ''eth_getBalance'', ''eth_getTransactionCount'',
     ''eth_call'', ''eth_getStorageAt'', ''eth_getBlockByNumber'']"

definition is_hex_string :: "json \<Rightarrow> bool" where
  "is_hex_string j = (case j of JStr s \<Rightarrow> starts_with ''0x'' s | _ \<Rightarrow> False)"

text \<open>\<open>params[0]?.['toBlock']\<close> and \<open>arr[arr.length - 1]\<close>; a missing one is \<open>undefined\<close>.\<close>

definition get_prop :: "string \<Rightarrow> json \<Rightarrow> json" where
  "get_prop k j = (case j of JObj kvs \<Rightarrow> nullish (map_of kvs k) JUndef | _ \<Rightarrow> JUndef)"

definition first_param :: "json \<Rightarrow> json" where
  "first_param j = (case j of JArr (x # xs) \<Rightarrow> x | _ \<Rightarrow> JUndef)"

definition last_param :: "json \<Rightarrow> json" where
  "last_param j = (case j of JArr xs \<Rightarrow> (if xs = [] then JUndef else last xs) | _ \<Rightarrow> JUndef)"

definition is_cacheable :: "string \<Rightarrow> json \<Rightarrow> bool" where
  "is_cacheable method params =
     (if method \<notin> set immutable_methods then False
      else if moving_tag_test (stable_stringify params) then False
      else if method = ''eth_getLogs'' then is_hex_string (get_prop ''toBlock'' (first_param params))
      else if method \<in> set block_arg_methods then is_hex_string (last_param params)
      else True)"

definition cache_key :: "nat \<Rightarrow> string \<Rightarrow> json \<Rightarrow> string option" where
  "cache_key chain_id method params =
     (if is_cacheable method params
      then Some (digits chain_id @ ''|'' @ method @ ''|'' @ stable_stringify params)
      else None)"


section \<open>Response cache\<close>

text \<open>A JavaScript \<open>Map\<close> iterates in insertion order: the oldest entry is the head.\<close>

record 'v cache =
  cmap :: "(string \<times> 'v) list"
  max_entries :: int
  hits :: nat
  misses :: nat

definition cache_new :: "int \<Rightarrow> 'v cache" where
  "cache_new m = \<lparr>cmap = [], max_entries = m, hits = 0, misses = 0\<rparr>"

definition cache_has :: "string \<Rightarrow> 'v cache \<Rightarrow> bool" where
  "cache_has k c = (k \<in> fst ` set (cmap c))"

definition cache_get :: "string \<Rightarrow> 'v cache \<Rightarrow> 'v option \<times> 'v cache" where
  "cache_get k c =
     (let hit = cache_has k c;
          c' = (if hit then c\<lparr>hits := Suc (hits c)\<rparr> else c\<lparr>misses := Suc (misses c)\<rparr>)
      in (map_of (cmap c) k, c'))"

definition cache_set :: "string \<Rightarrow> 'v \<Rightarrow> 'v cache \<Rightarrow> 'v cache" where
  "cache_set k v c =
     (if cache_has k c then c
      else if int (length (cmap c)) \<ge> max_entries c then c\<lparr>cmap := tl (cmap c) @ [(k, v)]\<rparr>
      else c\<lparr>cmap := cmap c @ [(k, v)]\<rparr>)"

definition cache_size :: "'v cache \<Rightarrow> nat" where
  "cache_size c = length (cmap c)"


section \<open>Moving reads are never cached\<close>

text \<open>The string \<open>s\<close> occurs as a value somewhere inside \<open>j\<close>.\<close>

inductive occurs :: "string \<Rightarrow> json \<Rightarrow> bool" for s where
  occurs_str: "occurs s (JStr s)"
| occurs_arr: "x \<in> set xs \<Longrightarrow> occurs s x \<Longrightarrow> occurs s (JArr xs)"
| occurs_obj: "(k, v) \<in> set kvs \<Longrightarrow> occurs s v \<Longrightarrow> occurs s (JObj kvs)"

inductive_simps occurs_simps [simp]:
  "occurs s JNull" "occurs s JUndef" "occurs s (JBool b)" "occurs s (JInt i)"
  "occurs s (JStr r)" "occurs s (JArr xs)" "occurs s (JObj kvs)"

lemma sublist_append_left: "sublist x a \<Longrightarrow> sublist x (a @ b)"
  by (simp add: sublist_append)

lemma sublist_append_right: "sublist x b \<Longrightarrow> sublist x (a @ b)"
  by (simp add: sublist_append)

lemma sublist_join: "x \<in> set xs \<Longrightarrow> sublist x (join sep xs)"
proof (induction sep xs rule: join.induct)
  case (3 sep y z xs)
  show ?case
  proof (cases "x = y")
    case True
    then show ?thesis by (simp add: sublist_append_left)
  next
    case False
    then show ?thesis using 3 by (auto intro!: sublist_append_right)
  qed
qed auto

lemma occurs_sort_keys: "occurs s j \<Longrightarrow> occurs s (sort_keys j)"
proof (induction rule: occurs.induct)
  case (occurs_obj k v kvs)
  then have "(k, sort_keys v) \<in> set (sort_key fst (map (map_prod id sort_keys) kvs))"
    by (force simp: image_iff)
  with occurs_obj show ?case by auto
qed auto

lemma occurs_stringify: "occurs s j \<Longrightarrow> sublist (quote s) (stringify j)"
proof (induction rule: occurs.induct)
  case (occurs_arr x xs)
  have "sublist (stringify x) (join '','' (map stringify xs))"
    using occurs_arr by (intro sublist_join) auto
  then have "sublist (quote s) (join '','' (map stringify xs))"
    using occurs_arr sublist_order.order.trans by blast
  then show ?case by (simp add: sublist_Cons_right sublist_append_left)
next
  case (occurs_obj k v kvs)
  let ?shown = "map (\<lambda>(k, v). quote k @ '':'' @ stringify v) (filter (\<lambda>(k, v). v \<noteq> JUndef) kvs)"
  have "v \<noteq> JUndef" using occurs_obj by auto
  then have "quote k @ '':'' @ stringify v \<in> set ?shown" using occurs_obj by force
  then have "sublist (quote k @ '':'' @ stringify v) (join '','' ?shown)" by (rule sublist_join)
  moreover have "sublist (quote s) (quote k @ '':'' @ stringify v)"
    using occurs_obj by (simp add: sublist_append_right sublist_Cons_right)
  ultimately have "sublist (quote s) (join '','' ?shown)" using sublist_order.order.trans by blast
  then show ?case by (simp add: sublist_Cons_right sublist_append_left)
qed simp

lemma quote_moving_tags: "\<forall>tag \<in> set moving_tags. quote tag = [CHR 0x22] @ tag @ [CHR 0x22]"
  by code_simp

lemma occurs_moving_test:
  assumes "tag \<in> set moving_tags" and "occurs tag params"
  shows "moving_tag_test (stable_stringify params)"
proof -
  have "sublist (quote tag) (stable_stringify params)"
    unfolding stable_stringify_def by (intro occurs_stringify occurs_sort_keys assms)
  then have "contains ([CHR 0x22] @ tag @ [CHR 0x22]) (stable_stringify params)"
    using assms(1) quote_moving_tags by (simp add: contains_sublist)
  with assms(1) show ?thesis by (auto simp: moving_tag_test_def list_ex_iff)
qed


section \<open>Key order does not matter\<close>

text \<open>Equal up to the order of object entries, at every depth.\<close>

inductive same_json :: "json \<Rightarrow> json \<Rightarrow> bool" where
  same_refl: "same_json j j"
| same_arr: "list_all2 same_json xs ys \<Longrightarrow> same_json (JArr xs) (JArr ys)"
| same_obj: "list_all2 (rel_prod (=) same_json) kvs kvs' \<Longrightarrow> mset kvs' = mset kvs'' \<Longrightarrow>
     distinct (map fst kvs) \<Longrightarrow> same_json (JObj kvs) (JObj kvs'')"
monos list.rel_mono prod.rel_mono

lemma sort_keys_same: "same_json a b \<Longrightarrow> sort_keys a = sort_keys b"
proof (induction rule: same_json.induct)
  case (same_arr xs ys)
  then have "map sort_keys xs = map sort_keys ys"
    by (induction xs ys rule: list_all2_induct) auto
  then show ?case by simp
next
  case (same_obj kvs kvs' kvs'')
  let ?f = "map_prod id sort_keys"
  have eq: "map ?f kvs = map ?f kvs'" using same_obj(1)
    by (induction kvs kvs' rule: list_all2_induct) auto
  have keys: "map fst kvs = map fst (map ?f kvs)" by simp
  have inj: "inj_on fst (set (map ?f kvs))"
    using same_obj(3) unfolding keys by (simp only: distinct_map)
  have "mset (map ?f kvs) = mset (map ?f kvs'')"
    unfolding eq using same_obj(2) by (simp only: mset_map)
  then have "sort_key fst (map ?f kvs) = sort_key fst (map ?f kvs'')"
    using inj by (intro sort_key_inj_key_eq) (simp_all)
  then show ?case by simp
qed simp


lemma sort_keys_hex [simp]: "is_hex_string (sort_keys j) = is_hex_string j"
  by (cases j) (simp_all add: is_hex_string_def)

lemma sort_keys_params [simp]:
  "first_param (sort_keys j) = sort_keys (first_param j)"
  "last_param (sort_keys j) = sort_keys (last_param j)"
  by (cases j; simp add: first_param_def last_param_def last_map split: list.splits)+

lemma get_prop_sort_keys:
  assumes "distinct (map fst kvs)"
  shows "get_prop k (sort_keys (JObj kvs)) = sort_keys (get_prop k (JObj kvs))"
proof -
  let ?g = "map (map_prod id sort_keys) kvs"
  have "distinct (map fst ?g)" using assms by (simp add: comp_def)
  moreover have "distinct (map fst (sort_key fst ?g))"
    by (metis calculation distinct_map distinct_sort set_sort)
  ultimately have "map_of (sort_key fst ?g) = map_of ?g"
    by (simp add: map_of_inject_set)
  moreover have "map_of ?g k = map_option sort_keys (map_of kvs k)"
    by (induction kvs) auto
  ultimately show ?thesis
    by (cases "map_of kvs k") (simp_all add: get_prop_def)
qed

lemma same_json_distinct:
  "same_json (JObj kvs) b \<Longrightarrow> b = JObj kvs \<or>
   (\<exists>kvs'. b = JObj kvs' \<and> distinct (map fst kvs) \<and> distinct (map fst kvs'))"
proof (erule same_json.cases)
  fix as as' bs
  assume eqs: "JObj kvs = JObj as" "b = JObj bs" and "list_all2 (rel_prod (=) same_json) as as'"
    and perm: "mset as' = mset bs" and d: "distinct (map fst as)"
  have "map fst as = map fst as'" using \<open>list_all2 (rel_prod (=) same_json) as as'\<close>
    by (induction as as' rule: list_all2_induct) auto
  then have "distinct (map fst as')" using d by simp
  moreover have "mset (map fst as') = mset (map fst bs)" using perm by (simp only: mset_map)
  ultimately have "distinct (map fst bs)" using mset_eq_imp_distinct_iff by blast
  then show ?thesis using eqs d by auto
qed auto

lemma same_json_get_prop:
  assumes "same_json a b"
  shows "is_hex_string (get_prop k a) = is_hex_string (get_prop k b)"
proof (cases "\<exists>kvs. a = JObj kvs")
  case True
  then obtain kvs where a: "a = JObj kvs" by blast
  with assms same_json_distinct consider "b = a" |
    kvs' where "b = JObj kvs'" "distinct (map fst kvs)" "distinct (map fst kvs')" by metis
  then show ?thesis
  proof cases
    case 2
    then have "sort_keys (get_prop k a) = sort_keys (get_prop k b)"
      using sort_keys_same [OF assms] a by (simp only: get_prop_sort_keys flip: get_prop_sort_keys)
    then show ?thesis by (metis sort_keys_hex)
  qed simp
next
  case False
  with assms show ?thesis by cases (auto simp: get_prop_def)
qed

lemma same_json_first:
  "same_json a b \<Longrightarrow> same_json (first_param a) (first_param b)"
  by (erule same_json.cases)
    (auto simp: first_param_def intro: same_refl split: list.splits)

lemma same_json_cacheable:
  assumes "same_json a b"
  shows "is_cacheable method a = is_cacheable method b"
proof -
  have "stable_stringify a = stable_stringify b"
    by (simp add: stable_stringify_def sort_keys_same [OF assms])
  moreover have "is_hex_string (last_param a) = is_hex_string (last_param b)"
    using sort_keys_same [OF assms] by (metis sort_keys_hex sort_keys_params(2))
  moreover have "is_hex_string (get_prop k (first_param a)) = is_hex_string (get_prop k (first_param b))" for k
    by (intro same_json_get_prop same_json_first assms)
  ultimately show ?thesis by (simp add: is_cacheable_def)
qed


section \<open>The contract of a memo store\<close>

text \<open>
  What the transport needs of its cache: reading changes nothing but counters,
  writing never overwrites an answer and may only forget others.
\<close>

locale memo_store =
  fixes lookup :: "'s \<Rightarrow> 'k \<Rightarrow> 'v option"
    and get :: "'k \<Rightarrow> 's \<Rightarrow> 'v option \<times> 's"
    and put :: "'k \<Rightarrow> 'v \<Rightarrow> 's \<Rightarrow> 's"
    and ok :: "'s \<Rightarrow> bool"
  assumes get_value: "ok s \<Longrightarrow> fst (get k s) = lookup s k"
    and get_lookup: "ok s \<Longrightarrow> lookup (snd (get k s)) = lookup s"
    and get_ok: "ok s \<Longrightarrow> ok (snd (get k s))"
    and put_ok: "ok s \<Longrightarrow> ok (put k v s)"
    and put_same: "ok s \<Longrightarrow> lookup (put k v s) k = Some (nullish (lookup s k) v)"
    and put_other: "ok s \<Longrightarrow> k' \<noteq> k \<Longrightarrow> lookup (put k v s) k' = Some w \<Longrightarrow> lookup s k' = Some w"
begin

definition coherent :: "('k \<Rightarrow> 'v) \<Rightarrow> 's \<Rightarrow> bool" where
  "coherent answer s \<longleftrightarrow> ok s \<and> (\<forall>k v. lookup s k = Some v \<longrightarrow> v = answer k)"

lemma coherent_get: "coherent answer s \<Longrightarrow> coherent answer (snd (get k s))"
  by (simp add: coherent_def get_lookup get_ok)

lemma coherent_put:
  assumes "coherent answer s" and "v = answer k"
  shows "coherent answer (put k v s)"
  unfolding coherent_def
proof (intro conjI allI impI)
  show "ok (put k v s)" using assms by (simp add: coherent_def put_ok)
  fix k' w assume "lookup (put k v s) k' = Some w"
  then show "w = answer k'"
    using assms put_same [of s k v] put_other [of s k' k v w]
    by (cases "k' = k"; cases "lookup s k") (auto simp: coherent_def)
qed

lemma coherent_value: "coherent answer s \<Longrightarrow> lookup s k \<noteq> None \<Longrightarrow> fst (get k s) = Some (answer k)"
  by (auto simp: coherent_def get_value)

end

definition cache_lookup :: "'v cache \<Rightarrow> string \<Rightarrow> 'v option" where
  "cache_lookup c k = map_of (cmap c) k"

definition cache_ok :: "'v cache \<Rightarrow> bool" where
  "cache_ok c \<longleftrightarrow> distinct (map fst (cmap c)) \<and> 1 \<le> max_entries c \<and> int (length (cmap c)) \<le> max_entries c"

lemma cache_has_lookup: "cache_has k c \<longleftrightarrow> cache_lookup c k \<noteq> None"
  by (simp add: cache_has_def cache_lookup_def map_of_eq_None_iff image_iff)

lemma cache_get_simps [simp]:
  "fst (cache_get k c) = cache_lookup c k"
  "cmap (snd (cache_get k c)) = cmap c" "max_entries (snd (cache_get k c)) = max_entries c"
  by (simp_all add: cache_get_def cache_lookup_def Let_def)

lemma cache_set_ok: "cache_ok c \<Longrightarrow> cache_ok (cache_set k v c)"
  by (cases "cmap c") (auto simp: cache_ok_def cache_set_def cache_has_def)

lemma cache_set_same:
  assumes "cache_ok c"
  shows "cache_lookup (cache_set k v c) k = Some (nullish (cache_lookup c k) v)"
proof (cases "cache_has k c")
  case True
  then show ?thesis by (auto simp: cache_set_def cache_has_lookup)
next
  case False
  then have fresh: "k \<notin> fst ` set (cmap c)" by (simp add: cache_has_def)
  then have "k \<notin> fst ` set (tl (cmap c))" by (cases "cmap c") auto
  with fresh False show ?thesis
    by (simp add: cache_set_def cache_lookup_def map_of_append map_add_def
        map_of_eq_None_iff [THEN iffD2] split: option.splits)
qed

lemma cache_set_other:
  assumes "cache_ok c" and "k' \<noteq> k" and "cache_lookup (cache_set k v c) k' = Some w"
  shows "cache_lookup c k' = Some w"
proof (cases "cmap c")
  case Nil
  then show ?thesis using assms
    by (auto simp: cache_set_def cache_lookup_def split: if_splits)
next
  case (Cons e es)
  then have "k' = fst e \<Longrightarrow> map_of es k' = None"
    using assms(1) by (simp add: cache_ok_def map_of_eq_None_iff)
  then show ?thesis using assms Cons
    by (cases e) (auto simp: cache_set_def cache_lookup_def map_add_def split: if_splits option.splits)
qed

lemma cache_set_max [simp]: "max_entries (cache_set k v c) = max_entries c"
  by (simp add: cache_set_def)

interpretation rc: memo_store cache_lookup cache_get cache_set cache_ok
proof unfold_locales
  fix c :: "'v cache" and k assume "cache_ok c"
  then show "cache_ok (snd (cache_get k c))" by (simp add: cache_ok_def)
  show "cache_lookup (snd (cache_get k c)) = cache_lookup c"
    by (rule ext) (simp add: cache_lookup_def)
qed (auto simp: cache_set_ok cache_set_same intro: cache_set_other)

text \<open>Eviction is first in, first out.\<close>

lemma cache_set_entries:
  "\<not> cache_has k c \<Longrightarrow> cmap (cache_set k v c) =
     (if int (length (cmap c)) \<ge> max_entries c then tl (cmap c) else cmap c) @ [(k, v)]"
  by (simp add: cache_set_def)

lemma cache_fold_recent:
  assumes "distinct (map fst kvs)" and "1 \<le> m"
  shows "cmap (fold (\<lambda>(k, v). cache_set k v) kvs (cache_new m)) =
    drop (length kvs - nat m) kvs \<and>
    max_entries (fold (\<lambda>(k, v). cache_set k v) kvs (cache_new m)) = m"
  using assms(1)
proof (induction kvs rule: rev_induct)
  case (snoc kv kvs)
  obtain k v where kv: "kv = (k, v)" by (cases kv)
  let ?c = "fold (\<lambda>(k, v). cache_set k v) kvs (cache_new m)"
  have ih: "cmap ?c = drop (length kvs - nat m) kvs" "max_entries ?c = m" using snoc by auto
  have "k \<notin> fst ` set kvs" using snoc.prems kv by simp
  then have "\<not> cache_has k ?c"
    using ih by (auto simp: cache_has_def dest: in_set_dropD)
  then have set: "cmap (cache_set k v ?c) =
      (if int (length (cmap ?c)) \<ge> m then tl (cmap ?c) else cmap ?c) @ [(k, v)]"
    using cache_set_entries ih(2) by metis
  have step: "fold (\<lambda>(k, v). cache_set k v) (kvs @ [kv]) (cache_new m) = cache_set k v ?c"
    by (simp add: kv)
  have "cmap (cache_set k v ?c) = drop (length (kvs @ [kv]) - nat m) (kvs @ [kv])"
  proof (cases "nat m \<le> length kvs")
    case True
    then have "tl (drop (length kvs - nat m) kvs) = drop (Suc (length kvs) - nat m) kvs"
      by (simp add: Suc_diff_le drop_Suc tl_drop)
    then show ?thesis using set ih(1) True assms(2) by (simp add: kv)
  next
    case False
    then show ?thesis using set ih(1) assms(2) by (simp add: kv nat_le_iff)
  qed
  then show ?case using ih(2) by (simp only: step cache_set_max)
qed (simp add: cache_new_def)


section \<open>Properties\<close>

text \<open>
  a read that names a moving block tag anywhere in its parameters, at any
  depth, is never cached, whatever the method.
\<close>

theorem cache_moving_reads_refused:
  assumes "tag \<in> set moving_tags" and "occurs tag params"
  shows "cache_key chain_id method params = None"
  using occurs_moving_test [OF assms] by (simp add: cache_key_def is_cacheable_def)

theorem cache_moving_reads_refused_witness:
  "cache_key 4663 ''eth_call''
     (JArr [JObj [(''to'', JStr ''0xab'')], JStr ''latest'']) = None"
  by (rule cache_moving_reads_refused [of "''latest''"]) (auto simp: moving_tags_def)

text \<open>
  two callers asking the same question share one cache entry: parameters
  that differ only in the order of object keys, at any depth, get the same
  cacheability decision and the same key.
\<close>

theorem cache_key_order_independent:
  assumes "same_json a b"
  shows "cache_key chain_id method a = cache_key chain_id method b"
  using same_json_cacheable [OF assms] sort_keys_same [OF assms]
  by (simp add: cache_key_def stable_stringify_def)

theorem cache_key_order_independent_witness:
  "cache_key 4663 ''eth_getLogs'' (JArr [JObj [(''toBlock'', JStr ''0x2''), (''fromBlock'', JStr ''0x1'')]]) =
   cache_key 4663 ''eth_getLogs'' (JArr [JObj [(''fromBlock'', JStr ''0x1''), (''toBlock'', JStr ''0x2'')]])"
  by (rule cache_key_order_independent, rule same_arr)
    (auto intro!: same_obj [of _ "[(''toBlock'', JStr ''0x2''), (''fromBlock'', JStr ''0x1'')]"]
      simp: same_refl)

text \<open>
  \<open>eth_getBlockByNumber\<close> takes the block first and a boolean last, so the
  test of the last parameter refuses every such call: a block pinned by
  number is never served from the cache although the method is listed as
  immutable.
\<close>

theorem block_by_number_never_cached:
  "cache_key chain_id ''eth_getBlockByNumber'' (JArr [block, JBool full]) = None"
  by (simp add: cache_key_def is_cacheable_def block_arg_methods_def last_param_def is_hex_string_def)

text \<open>
  the cache holds the most recent entries only: after storing answers under
  distinct keys it contains exactly the last \<open>maxEntries\<close> of them, in order.
\<close>

theorem cache_keeps_most_recent:
  assumes "distinct (map fst kvs)" and "1 \<le> m"
  shows "cmap (fold (\<lambda>(k, v). cache_set k v) kvs (cache_new m)) = drop (length kvs - nat m) kvs"
  using cache_fold_recent [OF assms] by simp

theorem cache_keeps_most_recent_witness:
  "cmap (fold (\<lambda>(k, v). cache_set k v) [(''a'', 1), (''b'', 2), (''c'', 3 :: nat)] (cache_new 2)) =
   [(''b'', 2), (''c'', 3)]"
  using cache_keeps_most_recent [of "[(''a'', 1), (''b'', 2), (''c'', 3 :: nat)]" 2] by simp
end
