(* ===== verification/RpcTransport.thy ===== *)
theory RpcTransport
  imports RpcScheduler RpcCache
begin

text \<open>
  \<open>packages/rpc-budget/src/transport.ts\<close>, \<open>client.ts\<close> and \<open>probe.ts\<close>: the
  budgeted request (cache, then scheduler slot, then the bounded retry on
  rate-limit errors), the per-URL registry of schedulers and caches, and the
  probe for the widest \<open>eth_getLogs\<close> span.  The upstream node is a parameter:
  \<open>inner a\<close> is what its \<open>a\<close>-th attempt answers, an error message or a JSON
  value.  Random jitter on the back-off is left out of the recorded delays.
\<close>


section \<open>Rate-limit errors\<close>

text \<open>\<open>/rate.?limit/\<close> at the head of the string; \<open>.\<close> does not match a newline.\<close>

definition rate_limit_here :: "string \<Rightarrow> bool" where
  "rate_limit_here s \<longleftrightarrow> starts_with ''rate'' s \<and>
     (let r = drop 4 s in starts_with ''limit'' r \<or>
        (r \<noteq> [] \<and> hd r \<noteq> CHR 0x0A \<and> starts_with ''limit'' (tl r)))"

fun anywhere :: "(string \<Rightarrow> bool) \<Rightarrow> string \<Rightarrow> bool" where
  "anywhere P [] = P []"
| "anywhere P (c # cs) = (P (c # cs) \<or> anywhere P cs)"

definition rate_limited :: "string \<Rightarrow> bool" where
  "rate_limited msg = (let s = lower msg in
     anywhere rate_limit_here s \<or>
     list_ex (\<lambda>p. contains p s) [''too many requests'', ''429'', ''network is busy'',
       ''try again in a moment'', ''exceeds defined limit'', ''-32005'', ''capacity'', ''throttl''])"


section \<open>The retry loop inside one scheduler slot\<close>

record 'v attempt_run =
  outcome :: "string + 'v"
  calls :: nat
  delays :: "nat list"

text \<open>\<open>for (attempt = 0; attempt <= rlRetries; attempt++)\<close>, from attempt \<open>a\<close> on.\<close>

function rl_attempts :: "nat \<Rightarrow> (nat \<Rightarrow> string + 'v) \<Rightarrow> nat \<Rightarrow> string \<Rightarrow> 'v attempt_run" where
  "rl_attempts rl inner a last_err =
     (if a > rl then \<lparr>outcome = Inl last_err, calls = 0, delays = []\<rparr>
      else case inner a of
        Inr v \<Rightarrow> \<lparr>outcome = Inr v, calls = 1, delays = []\<rparr>
      | Inl msg \<Rightarrow>
          if a = rl \<or> \<not> rate_limited msg then \<lparr>outcome = Inl msg, calls = 1, delays = []\<rparr>
          else (let r = rl_attempts rl inner (Suc a) msg
                in r\<lparr>calls := Suc (calls r), delays := 500 * 2 ^ a # delays r\<rparr>))"
  by pat_completeness auto
termination by (relation "measure (\<lambda>(rl, inner, a, e). Suc rl - a)") auto

declare rl_attempts.simps [simp del]

definition rl_run :: "nat \<Rightarrow> (nat \<Rightarrow> string + 'v) \<Rightarrow> 'v attempt_run" where
  "rl_run rl inner = rl_attempts rl inner 0 ''''"

definition default_rl_retries :: nat where
  "default_rl_retries = 4"


section \<open>The budgeted request\<close>

record request_result =
  answer :: "string + json"
  sent :: nat                 \<comment> \<open>calls that reached the node; 0 for a cache hit\<close>

definition is_nullish :: "json \<Rightarrow> bool" where
  "is_nullish j \<longleftrightarrow> j = JNull \<or> j = JUndef"

definition request_key :: "nat \<Rightarrow> string \<Rightarrow> json option \<Rightarrow> json cache option \<Rightarrow> string option" where
  "request_key chain_id method params copt =
     (case copt of None \<Rightarrow> None
      | Some _ \<Rightarrow> cache_key chain_id method (nullish params (JArr [])))"

text \<open>Before the slot: \<open>Some\<close> answer when the cache holds one (a miss counts nothing here).\<close>

definition request_check :: "string option \<Rightarrow> json cache \<Rightarrow> json option \<times> json cache" where
  "request_check key c =
     (case key of None \<Rightarrow> (None, c)
      | Some k \<Rightarrow> if cache_has k c
                  then (case cache_get k c of (v, c') \<Rightarrow> (Some (nullish v JUndef), c'))
                  else (None, c))"

text \<open>After the slot: a \<open>null\<close> answer is not kept.\<close>

definition request_store :: "string option \<Rightarrow> json \<Rightarrow> json cache \<Rightarrow> json cache" where
  "request_store key v c =
     (case key of None \<Rightarrow> c | Some k \<Rightarrow> if is_nullish v then c else cache_set k v c)"

definition budgeted_request ::
    "nat \<Rightarrow> nat \<Rightarrow> string \<Rightarrow> json option \<Rightarrow> (nat \<Rightarrow> string + json) \<Rightarrow>
     json cache option \<Rightarrow> request_result \<times> json cache option" where
  "budgeted_request rl chain_id method params inner copt =
     (let key = request_key chain_id method params copt in
      case (case copt of None \<Rightarrow> (None, None)
            | Some c \<Rightarrow> (case request_check key c of (hit, c') \<Rightarrow> (hit, Some c'))) of
        (Some v, copt') \<Rightarrow> (\<lparr>answer = Inr v, sent = 0\<rparr>, copt')
      | (None, copt') \<Rightarrow>
          (let r = rl_run rl inner in
           (\<lparr>answer = outcome r, sent = calls r\<rparr>,
            case outcome r of Inl _ \<Rightarrow> copt'
            | Inr v \<Rightarrow> map_option (request_store key v) copt')))"


section \<open>The per-URL registry\<close>

record registry =
  schedulers :: "string \<rightharpoonup> json sched"
  caches :: "string \<rightharpoonup> json cache"

definition scheduler_for ::
    "budget_config \<Rightarrow> real \<Rightarrow> string \<Rightarrow> registry \<Rightarrow> string + json sched \<times> registry" where
  "scheduler_for cfg t url reg =
     (case schedulers reg url of
        Some s \<Rightarrow> Inr (s, reg)
      | None \<Rightarrow> (case sched_new (cfg_rpm cfg) (cfg_burst cfg) (Some (cfg_max_in_flight cfg)) t of
            Inl e \<Rightarrow> Inl e
          | Inr s \<Rightarrow> Inr (s, reg\<lparr>schedulers := (schedulers reg)(url \<mapsto> s)\<rparr>)))"

definition cache_for :: "string \<Rightarrow> registry \<Rightarrow> json cache \<times> registry" where
  "cache_for url reg =
     (case caches reg url of
        Some c \<Rightarrow> (c, reg)
      | None \<Rightarrow> (let c = cache_new 20000 in (c, reg\<lparr>caches := (caches reg)(url \<mapsto> c)\<rparr>)))"

definition rh_chain_id :: nat where "rh_chain_id = 4663"

record budgeted_client =
  bc_priority :: int
  bc_chain_id :: nat
  bc_cached :: bool

definition get_budgeted_client ::
    "budget_config \<Rightarrow> real \<Rightarrow> string \<Rightarrow> int \<Rightarrow> nat option \<Rightarrow> bool option \<Rightarrow> registry \<Rightarrow>
     string + budgeted_client \<times> registry" where
  "get_budgeted_client cfg t url prio chain_id use_cache reg =
     (if url = [] then Inl ''getBudgetedClient: rpcUrl is empty (set RH_RPC_URL)''
      else case scheduler_for cfg t url reg of
        Inl e \<Rightarrow> Inl e
      | Inr (_, reg1) \<Rightarrow>
          Inr (\<lparr>bc_priority = prio, bc_chain_id = nullish chain_id rh_chain_id,
                bc_cached = (use_cache \<noteq> Some False)\<rparr>,
               if use_cache = Some False then reg1 else snd (cache_for url reg1)))"

record budget_snapshot = sched_stats +
  cache_hits :: nat
  cache_misses :: nat
  cache_entries :: nat

definition budget_stats :: "budget_config \<Rightarrow> real \<Rightarrow> string \<Rightarrow> registry \<Rightarrow> string + budget_snapshot \<times> registry" where
  "budget_stats cfg t url reg =
     (case scheduler_for cfg t url reg of
        Inl e \<Rightarrow> Inl e
      | Inr (s, reg1) \<Rightarrow> (case cache_for url reg1 of (c, reg2) \<Rightarrow>
          let st = sched_stats_of s in
          Inr (\<lparr>st_enqueued = st_enqueued st, st_started = st_started st,
                st_completed = st_completed st, st_failed = st_failed st,
                st_in_flight = st_in_flight st, st_queued = st_queued st,
                st_by_priority = st_by_priority st,
                cache_hits = hits c, cache_misses = misses c, cache_entries = cache_size c\<rparr>, reg2)))"

definition reset_rpc_budget :: "registry \<Rightarrow> registry" where
  "reset_rpc_budget reg = \<lparr>schedulers = Map.empty, caches = Map.empty\<rparr>"


section \<open>Probing the widest log span\<close>

definition transient_error :: "string \<Rightarrow> bool" where
  "transient_error msg = (let s = lower msg in
     list_ex (\<lambda>p. contains p s) [''busy'', ''try again'', ''timeout'', ''etimedout'', ''econnreset'',
       ''econnrefused'', ''429'', ''socket hang up''])"

text \<open>\<open>ask width attempt\<close> is the node's answer; \<open>None\<close> accepts, \<open>Some\<close> an error message.\<close>

definition probe_span :: "(int \<Rightarrow> nat \<Rightarrow> string option) \<Rightarrow> int \<Rightarrow> bool" where
  "probe_span ask width =
     (case ask width 0 of
        None \<Rightarrow> True
      | Some msg \<Rightarrow> if transient_error msg then ask width 1 = None else False)"

fun probe_loop :: "(int \<Rightarrow> nat \<Rightarrow> string option) \<Rightarrow> int \<Rightarrow> int list \<Rightarrow> int" where
  "probe_loop ask safest [] = safest"
| "probe_loop ask safest (width # rest) =
     (if probe_span ask width then width else probe_loop ask safest rest)"

definition probe_get_logs_range ::
    "int list option \<Rightarrow> (int \<Rightarrow> nat \<Rightarrow> string option) \<Rightarrow> int" where
  "probe_get_logs_range cands ask =
     (let cs = rev (sort (nullish cands [20000, 10000, 5000, 2000, 1000]));
          safest = (if cs = [] then 2000 else last cs)
      in probe_loop ask safest cs)"

definition probe_window :: "int \<Rightarrow> int \<Rightarrow> int \<times> int" where
  "probe_window anchor width = (let from = anchor - width + 1 in ((if from < 0 then 0 else from), anchor))"


section \<open>Lemmas\<close>

lemma rl_attempts_bound: "a \<le> Suc rl \<Longrightarrow> calls (rl_attempts rl inner a e) \<le> Suc rl - a"
proof (induction rl inner a e rule: rl_attempts.induct)
  case (1 rl inner a e)
  show ?case
  proof (cases "a > rl")
    case False
    then show ?thesis using 1
      by (subst rl_attempts.simps) (auto simp: Let_def split: sum.splits)
  qed (simp add: rl_attempts.simps)
qed

text \<open>The answer is that of the first attempt that is final.\<close>

definition final_attempt :: "nat \<Rightarrow> (nat \<Rightarrow> string + 'v) \<Rightarrow> nat \<Rightarrow> bool" where
  "final_attempt rl inner a \<longleftrightarrow> a = rl \<or> (case inner a of Inr _ \<Rightarrow> True | Inl msg \<Rightarrow> \<not> rate_limited msg)"

lemma rl_attempts_stop:
  "a \<le> rl \<Longrightarrow> final_attempt rl inner a \<Longrightarrow>
   rl_attempts rl inner a e = \<lparr>outcome = inner a, calls = 1, delays = []\<rparr>"
  by (subst rl_attempts.simps) (auto simp: final_attempt_def split: sum.splits)

lemma rl_attempts_retry:
  "a \<le> rl \<Longrightarrow> \<not> final_attempt rl inner a \<Longrightarrow>
   \<exists>msg. rl_attempts rl inner a e =
     (let r = rl_attempts rl inner (Suc a) msg
      in r\<lparr>calls := Suc (calls r), delays := 500 * 2 ^ a # delays r\<rparr>)"
  by (subst rl_attempts.simps) (auto simp: final_attempt_def split: sum.splits)

lemma rl_attempts_final:
  assumes "n \<le> rl" and "final_attempt rl inner n"
  shows "a \<le> n \<Longrightarrow> \<forall>i. a \<le> i \<longrightarrow> i < n \<longrightarrow> \<not> final_attempt rl inner i \<Longrightarrow>
   outcome (rl_attempts rl inner a e) = inner n \<and> calls (rl_attempts rl inner a e) = Suc (n - a) \<and>
   delays (rl_attempts rl inner a e) = map (\<lambda>i. 500 * 2 ^ i) [a..<n]"
proof (induction "n - a" arbitrary: a e)
  case 0
  then have "a = n" by simp
  then show ?case using assms by (simp add: rl_attempts_stop)
next
  case (Suc d)
  then have lt: "a < n" by simp
  obtain msg where "rl_attempts rl inner a e =
     (let r = rl_attempts rl inner (Suc a) msg
      in r\<lparr>calls := Suc (calls r), delays := 500 * 2 ^ a # delays r\<rparr>)"
    using rl_attempts_retry [of a rl inner e] Suc.prems lt assms(1) by auto
  moreover have "d = n - Suc a" using Suc.hyps(2) by simp
  ultimately show ?case
    using Suc.hyps(1) [of "Suc a" msg] Suc.prems lt
    by (simp add: Let_def upt_conv_Cons Suc_diff_Suc)
qed

text \<open>
  What the clients of one URL do to their shared cache: any interleaving of
  lookups and stores, the stored pairs restricted by \<open>honest\<close>.
\<close>

inductive cache_traffic ::
    "(string \<Rightarrow> json \<Rightarrow> bool) \<Rightarrow> json cache \<Rightarrow> json cache \<Rightarrow> bool" for honest c0 where
  traffic_start: "cache_traffic honest c0 c0"
| traffic_check: "cache_traffic honest c0 c \<Longrightarrow> cache_traffic honest c0 (snd (request_check key c))"
| traffic_store: "cache_traffic honest c0 c \<Longrightarrow> (\<And>k. key = Some k \<Longrightarrow> honest k v) \<Longrightarrow>
     cache_traffic honest c0 (request_store key v c)"

lemma request_check_misses: "misses (snd (request_check key c)) = misses c"
  by (auto simp: request_check_def cache_get_def Let_def split: option.splits)

lemma request_store_misses: "misses (request_store key v c) = misses c"
  by (auto simp: request_store_def cache_set_def split: option.splits)

lemma cache_traffic_misses: "cache_traffic honest c0 c \<Longrightarrow> misses c = misses c0"
  by (induction rule: cache_traffic.induct) (simp_all add: request_check_misses request_store_misses)

lemma request_check_eqs [simp]:
  "request_check None c = (None, c)"
  "request_check (Some k) c =
     (if cache_has k c then (Some (nullish (cache_lookup c k) JUndef), snd (cache_get k c)) else (None, c))"
  by (simp_all add: request_check_def case_prod_beta)

lemma request_check_snd: "snd (request_check key c) = c \<or> (\<exists>k. snd (request_check key c) = snd (cache_get k c))"
  by (cases key) auto

lemma cache_traffic_coherent:
  "cache_traffic (\<lambda>k v. v = node k) c0 c \<Longrightarrow> rc.coherent node c0 \<Longrightarrow> rc.coherent node c"
proof (induction rule: cache_traffic.induct)
  case (traffic_check c key)
  then show ?case using request_check_snd [of key c] rc.coherent_get by metis
next
  case (traffic_store c key v)
  then show ?case by (auto simp: request_store_def intro: rc.coherent_put split: option.splits)
qed

lemma cache_set_values: "(k', v') \<in> set (cmap (cache_set k v c)) \<Longrightarrow> (k', v') \<in> set (cmap c) \<or> v' = v"
  by (cases "cmap c") (auto simp: cache_set_def split: if_splits)

lemma cache_traffic_non_null:
  "cache_traffic honest c0 c \<Longrightarrow> cmap c0 = [] \<Longrightarrow> \<forall>(k, v) \<in> set (cmap c). \<not> is_nullish v"
proof (induction rule: cache_traffic.induct)
  case (traffic_check c key)
  then show ?case using request_check_snd [of key c] by fastforce
next
  case (traffic_store c key v)
  then have old: "\<forall>(k, v) \<in> set (cmap c). \<not> is_nullish v" by simp
  show ?case
  proof (cases "key = None \<or> is_nullish v")
    case True
    then show ?thesis using old by (auto simp: request_store_def split: option.splits)
  next
    case False
    then obtain k where "request_store key v c = cache_set k v c" "\<not> is_nullish v"
      by (auto simp: request_store_def)
    then show ?thesis using old cache_set_values [of _ _ k v c] by fastforce
  qed
qed simp

lemma cache_new_coherent: "1 \<le> m \<Longrightarrow> rc.coherent node (cache_new m)"
  by (simp add: rc.coherent_def cache_ok_def cache_new_def cache_lookup_def)

lemma probe_loop_sorted:
  "sorted_wrt (\<ge>) cs \<Longrightarrow>
   (probe_span ask (probe_loop ask safest cs) \<and> probe_loop ask safest cs \<in> set cs \<and>
     (\<forall>w \<in> set cs. probe_span ask w \<longrightarrow> w \<le> probe_loop ask safest cs)) \<or>
   ((\<forall>w \<in> set cs. \<not> probe_span ask w) \<and> probe_loop ask safest cs = safest)"
  by (induction cs) auto


lemma hd_sort_Min: "cs \<noteq> [] \<Longrightarrow> hd (sort cs) = Min (set (cs :: int list))"
proof -
  assume "cs \<noteq> []"
  then have ne: "sort cs \<noteq> []" by (metis length_0_conv length_sort)
  then obtain x xs where x: "sort cs = x # xs" by (cases "sort cs") auto
  have "sorted (x # xs)" using x by (metis sorted_sort)
  then have "Min (set (x # xs)) = x" by (intro Min_eqI) auto
  then show ?thesis using x by (metis list.sel(1) set_sort)
qed

section \<open>Properties\<close>

text \<open>
  the retry loop sends at most \<open>rlRetries + 1\<close> requests: it answers with the
  first attempt that is final (a success, an error that is not a rate limit,
  or the last allowed attempt), having backed off 0.5s, 1s, 2s, ... before.
\<close>

theorem transport_retry_first_final:
  "\<exists>n \<le> rl. final_attempt rl inner n \<and> list_all (\<lambda>i. \<not> final_attempt rl inner i) [0..<n] \<and>
     outcome (rl_run rl inner) = inner n \<and> calls (rl_run rl inner) = Suc n \<and>
     delays (rl_run rl inner) = map (\<lambda>i. 500 * 2 ^ i) [0..<n]"
proof -
  define n where "n = (LEAST i. final_attempt rl inner i)"
  have rl: "final_attempt rl inner rl" by (simp add: final_attempt_def)
  have fin: "final_attempt rl inner n" unfolding n_def using rl by (rule LeastI)
  have le: "n \<le> rl" unfolding n_def using rl by (rule Least_le)
  have before: "\<not> final_attempt rl inner i" if "i < n" for i
    using that not_less_Least unfolding n_def by blast
  show ?thesis
    using rl_attempts_final [OF le fin, of 0 "''''"] fin le before
    by (auto simp: rl_run_def list_all_iff intro!: exI [of _ n])
qed


definition demo_cache :: "json cache" where
  "demo_cache = request_store (Some ''k'') (JInt 7) (cache_new 2)"

lemma demo_cache_traffic: "cache_traffic (\<lambda>k v. v = JInt 7) (cache_new 2) demo_cache"
  unfolding demo_cache_def by (rule traffic_store [OF traffic_start]) simp

lemma demo_cache_hit:
  "request_check (Some ''k'') demo_cache = (Some (JInt 7), demo_cache\<lparr>hits := 1\<rparr>)"
  by (simp add: demo_cache_def request_store_def is_nullish_def cache_set_def cache_has_def
      cache_new_def request_check_def cache_get_def)


text \<open>
  the miss counter is dead. The transport asks \<open>has\<close> before it asks \<open>get\<close>, so
  whatever the clients do, the statistics report zero misses forever.
\<close>

theorem transport_misses_never_counted:
  assumes "cache_traffic honest (cache_new m) c"
  shows "misses c = 0"
  using cache_traffic_misses [OF assms] by (simp add: cache_new_def)

theorem transport_misses_never_counted_witness:
  "misses (snd (request_check (Some ''absent'') demo_cache)) = 0"
  by (rule transport_misses_never_counted [OF traffic_check [OF demo_cache_traffic]])

text \<open>
  the log-range probe answers with the largest candidate span the node
  accepts (after at most one retry each, for transient errors), and with the
  smallest candidate when it accepts none: never an optimistic guess.
\<close>

theorem probe_largest_accepted:
  assumes "cs \<noteq> []" and "probe_get_logs_range (Some cs) ask = r"
  shows "(probe_span ask r \<and> r \<in> set cs \<and> (\<forall>w \<in> set cs. probe_span ask w \<longrightarrow> w \<le> r)) \<or>
    ((\<forall>w \<in> set cs. \<not> probe_span ask w) \<and> r = Min (set cs))"
proof -
  have "sorted_wrt (\<ge>) (rev (sort cs))" by (simp add: sorted_wrt_rev)
  moreover have "last (rev (sort cs)) = Min (set cs)"
    using assms(1) by (simp add: last_rev hd_sort_Min)
  moreover have "sort cs \<noteq> []" using assms(1) by (metis length_0_conv length_sort)
  ultimately show ?thesis
    using probe_loop_sorted [of "rev (sort cs)" ask "last (rev (sort cs))"] assms
    by (simp add: probe_get_logs_range_def Let_def)
qed

theorem probe_largest_accepted_witness:
  "probe_get_logs_range (Some [1000, 5000, 2000])
     (\<lambda>w a. if w \<le> 2000 then None else Some ''block range too large'') = 2000"
  using probe_largest_accepted [of "[1000, 5000, 2000]"
      "\<lambda>w a. if w \<le> 2000 then None else Some ''block range too large''", OF _ refl]
  by (auto simp: probe_get_logs_range_def probe_span_def transient_error_def lower_def lower_char_def
      starts_with_def Let_def)
end
