(* ===== verification/Merkle.thy ===== *)
theory Merkle
  imports Prelude
begin

text \<open>
  \<open>apps/worker/src/commit/merkle.ts\<close> (and its read-only copies in
  \<open>apps/api/src/merkle.ts\<close>, \<open>verify-receipt.ts\<close>): the sorted-pair Merkle tree over
  report hashes.  \<open>keccak256(concatHex([a, b]))\<close> is a parameter \<open>H\<close>; what the code
  relies on is that it answers in lower case (viem's hex encoding), stated as
  \<open>lower_hash H\<close>.  The parallel arrays \<open>level\<close> and \<open>groups\<close> are one list of pairs.
\<close>

type_synonym hex = string
type_synonym hasher = "hex \<Rightarrow> hex \<Rightarrow> hex"

definition lower_hash :: "hasher \<Rightarrow> bool" where
  "lower_hash H \<longleftrightarrow> (\<forall>a b. lower (H a b) = H a b)"

definition hash_pair :: "hasher \<Rightarrow> hasher" where
  "hash_pair H a b = (if lower a \<le> lower b then H a b else H b a)"

record merkle_tree =
  root :: hex
  leaf_count :: nat
  leaves :: "hex list"
  proofs :: "hex \<Rightarrow> hex list"

text \<open>\<open>for (const leaf of group) proofs.get(leaf)!.push(sibling)\<close>.\<close>

definition push_sibling :: "hex \<Rightarrow> hex list \<Rightarrow> (hex \<Rightarrow> hex list) \<Rightarrow> hex \<Rightarrow> hex list" where
  "push_sibling sibling members pf = fold (\<lambda>leaf p. p(leaf := p leaf @ [sibling])) members pf"

text \<open>One pass of the \<open>while\<close> body: the next level with its groups, and the proofs.\<close>

fun merkle_pass ::
    "hasher \<Rightarrow> (hex \<times> hex list) list \<Rightarrow> (hex \<Rightarrow> hex list) \<Rightarrow>
     (hex \<times> hex list) list \<times> (hex \<Rightarrow> hex list)" where
  "merkle_pass H ((left, lg) # (right, rg) # rest) pf =
     (case merkle_pass H rest (push_sibling left rg (push_sibling right lg pf)) of
        (next, pf') \<Rightarrow> ((hash_pair H left right, lg @ rg) # next, pf'))"
| "merkle_pass H level pf = (level, pf)"

lemma length_merkle_pass: "length (fst (merkle_pass H level pf)) = (length level + 1) div 2"
  by (induction H level pf rule: merkle_pass.induct) (auto split: prod.splits)

lemma merkle_pass_shrinks:
  "merkle_pass H level pf = (level', pf') \<Longrightarrow> 1 < length level \<Longrightarrow> length level' < length level"
  using length_merkle_pass [of H level pf] by simp

function merkle_loop ::
    "hasher \<Rightarrow> (hex \<times> hex list) list \<Rightarrow> (hex \<Rightarrow> hex list) \<Rightarrow>
     (hex \<times> hex list) list \<times> (hex \<Rightarrow> hex list)" where
  "merkle_loop H level pf =
     (if length level > 1 then (case merkle_pass H level pf of (level', pf') \<Rightarrow> merkle_loop H level' pf')
      else (level, pf))"
  by pat_completeness auto
termination
  by (relation "measure (\<lambda>(H, level, pf). length level)")
    (auto simp: case_prod_beta length_merkle_pass)

declare merkle_loop.simps [simp del]

lemma merkle_loop_done: "\<not> 1 < length level \<Longrightarrow> merkle_loop H level pf = (level, pf)"
  by (subst merkle_loop.simps) simp

lemma merkle_loop_step:
  "1 < length level \<Longrightarrow> merkle_pass H level pf = (level', pf') \<Longrightarrow>
   merkle_loop H level pf = merkle_loop H level' pf'"
  by (subst merkle_loop.simps) simp

definition ordered_leaves :: "hex list \<Rightarrow> hex list" where
  "ordered_leaves ls = sort (uniq (map lower ls))"

definition build_merkle_tree :: "hasher \<Rightarrow> hex list \<Rightarrow> string + merkle_tree" where
  "build_merkle_tree H ls =
     (if ls = [] then Inl ''buildMerkleTree: no leaves''
      else let ordered = ordered_leaves ls in
        case merkle_loop H (map (\<lambda>l. (l, [l])) ordered) (\<lambda>_. []) of
          (level, pf) \<Rightarrow> Inr \<lparr>root = fst (hd level), leaf_count = length ordered,
                              leaves = ordered, proofs = pf\<rparr>)"

definition fold_proof :: "hasher \<Rightarrow> hex \<Rightarrow> hex list \<Rightarrow> hex" where
  "fold_proof H leaf pf = foldl (hash_pair H) leaf pf"

definition verify_proof :: "hasher \<Rightarrow> hex \<Rightarrow> hex list \<Rightarrow> hex \<Rightarrow> bool" where
  "verify_proof H leaf pf r \<longleftrightarrow> lower (fold_proof H (lower leaf) pf) = lower r"


section \<open>The contract of a pair hash\<close>

text \<open>
  All the tree needs of its node function is that the order of the two children
  does not matter whenever their normal forms tell them apart.
\<close>

locale pair_hash =
  fixes node :: "'a \<Rightarrow> 'a \<Rightarrow> 'a" and norm :: "'a \<Rightarrow> 'a"
  assumes node_commute: "(norm a = norm b \<Longrightarrow> a = b) \<Longrightarrow> node a b = node b a"
begin

definition normal :: "'a \<Rightarrow> bool" where
  "normal a \<longleftrightarrow> norm a = a"

lemma node_commute_normal: "normal a \<Longrightarrow> normal b \<Longrightarrow> node a b = node b a"
  by (rule node_commute) (simp add: normal_def)

text \<open>Appending the sibling extends a proof of a child to one of the parent.\<close>

lemma extend_left: "foldl node l pf = a \<Longrightarrow> foldl node l (pf @ [b]) = node a b"
  by simp

lemma extend_right:
  "normal a \<Longrightarrow> normal b \<Longrightarrow> foldl node l pf = b \<Longrightarrow> foldl node l (pf @ [a]) = node a b"
  by (simp add: node_commute_normal [of a b])

end

interpretation ph: pair_hash "hash_pair H" lower for H
proof unfold_locales
  fix a b :: hex assume "lower a = lower b \<Longrightarrow> a = b"
  then show "hash_pair H a b = hash_pair H b a"
    by (cases "lower a = lower b") (auto simp: hash_pair_def)
qed


section \<open>Every proof folds to the root\<close>

definition proof_inv :: "hasher \<Rightarrow> (hex \<times> hex list) list \<Rightarrow> (hex \<Rightarrow> hex list) \<Rightarrow> bool" where
  "proof_inv H level pf \<longleftrightarrow>
     (\<forall>(n, g) \<in> set level. ph.normal n \<and> (\<forall>l \<in> set g. fold_proof H l (pf l) = n))"

definition level_leaves :: "(hex \<times> hex list) list \<Rightarrow> hex list" where
  "level_leaves level = concat (map snd level)"

lemma push_sibling_simps [simp]:
  "push_sibling s [] pf = pf"
  "push_sibling s (a # g) pf = push_sibling s g (pf(a := pf a @ [s]))"
  by (simp_all add: push_sibling_def)

lemma push_sibling_other: "l \<notin> set g \<Longrightarrow> push_sibling s g pf l = pf l"
  by (induction g arbitrary: pf) auto

lemma push_sibling_in: "distinct g \<Longrightarrow> l \<in> set g \<Longrightarrow> push_sibling s g pf l = pf l @ [s]"
  by (induction g arbitrary: pf) (auto simp: push_sibling_other)

lemma merkle_pass_other:
  "l \<notin> set (level_leaves level) \<Longrightarrow> snd (merkle_pass H level pf) l = pf l"
  by (induction H level pf rule: merkle_pass.induct)
    (auto simp: level_leaves_def push_sibling_other split: prod.splits)

lemma merkle_pass_leaves: "level_leaves (fst (merkle_pass H level pf)) = level_leaves level"
  by (induction H level pf rule: merkle_pass.induct)
    (auto simp: level_leaves_def split: prod.splits)

lemma hash_pair_normal: "lower_hash H \<Longrightarrow> ph.normal (hash_pair H a b)"
  by (simp add: ph.normal_def hash_pair_def lower_hash_def)

lemma proof_inv_cong:
  "proof_inv H level pf \<Longrightarrow> (\<And>l. l \<in> set (level_leaves level) \<Longrightarrow> pf' l = pf l) \<Longrightarrow> proof_inv H level pf'"
  by (fastforce simp: proof_inv_def level_leaves_def)

lemma merkle_pass_inv:
  "lower_hash H \<Longrightarrow> distinct (level_leaves level) \<Longrightarrow> proof_inv H level pf \<Longrightarrow>
   proof_inv H (fst (merkle_pass H level pf)) (snd (merkle_pass H level pf))"
proof (induction H level pf rule: merkle_pass.induct)
  case (1 H left lg right rg rest pf)
  let ?pf1 = "push_sibling left rg (push_sibling right lg pf)"
  let ?r = "merkle_pass H rest ?pf1"
  have d: "distinct lg" "distinct rg" "set lg \<inter> set rg = {}" "distinct (level_leaves rest)"
    "set (level_leaves rest) \<inter> (set lg \<union> set rg) = {}"
    using 1(3) by (auto simp: level_leaves_def)
  have "proof_inv H rest ?pf1"
  proof (rule proof_inv_cong)
    show "proof_inv H rest pf" using 1(4) by (auto simp: proof_inv_def)
    fix l assume "l \<in> set (level_leaves rest)"
    then have "l \<notin> set lg" "l \<notin> set rg" using d(5) by auto
    then show "?pf1 l = pf l" by (simp add: push_sibling_other)
  qed
  then have ih: "proof_inv H (fst ?r) (snd ?r)" using 1(1,2) d by simp
  have keep: "snd ?r l = ?pf1 l" if "l \<in> set lg \<union> set rg" for l
    using merkle_pass_other [of l rest H ?pf1] d that by auto
  have norm: "ph.normal left" "ph.normal right" using 1(4) by (auto simp: proof_inv_def)
  have "fold_proof H l (snd ?r l) = hash_pair H left right" if "l \<in> set lg \<union> set rg" for l
  proof (cases "l \<in> set lg")
    case True
    then have "l \<notin> set rg" using d(3) by blast
    then have "snd ?r l = pf l @ [right]"
      using keep [of l] d(1) True by (simp add: push_sibling_in push_sibling_other)
    moreover have "fold_proof H l (pf l) = left" using 1(4) True by (auto simp: proof_inv_def)
    ultimately show ?thesis by (simp add: fold_proof_def)
  next
    case False
    then have "l \<in> set rg" using that by blast
    then have "snd ?r l = pf l @ [left]"
      using keep [of l] d(2) False by (simp add: push_sibling_in push_sibling_other)
    moreover have "fold_proof H l (pf l) = right"
      using 1(4) False that by (auto simp: proof_inv_def)
    ultimately show ?thesis
      using ph.extend_right [OF norm] by (simp add: fold_proof_def)
  qed
  with ih hash_pair_normal [OF 1(2)] show ?case
    by (auto simp: proof_inv_def case_prod_beta)
qed auto

lemma merkle_loop_inv:
  "lower_hash H \<Longrightarrow> distinct (level_leaves level) \<Longrightarrow> proof_inv H level pf \<Longrightarrow>
   merkle_loop H level pf = (level', pf') \<Longrightarrow>
   proof_inv H level' pf' \<and> level_leaves level' = level_leaves level \<and> length level' \<le> 1"
proof (induction H level pf arbitrary: level' pf' rule: merkle_loop.induct)
  case (1 H level pf)
  show ?case
  proof (cases "1 < length level")
    case False
    then show ?thesis using 1(4,5) by (simp add: merkle_loop_done)
  next
    case True
    obtain l1 p1 where pass: "merkle_pass H level pf = (l1, p1)" by (cases "merkle_pass H level pf")
    have leaves: "level_leaves l1 = level_leaves level"
      using merkle_pass_leaves [of H level pf] pass by simp
    have inv: "proof_inv H l1 p1" using merkle_pass_inv [OF 1(2-4)] pass by simp
    have loop: "merkle_loop H l1 p1 = (level', pf')"
      using 1(5) merkle_loop_step [OF True pass] by simp
    have "distinct (level_leaves l1)" using 1(3) by (simp only: leaves)
    from 1(1) [OF True pass [symmetric] 1(2) this inv loop] show ?thesis by (simp only: leaves simp_thms)
  qed
qed

lemma merkle_loop_nonempty:
  "level \<noteq> [] \<Longrightarrow> merkle_loop H level pf = (level', pf') \<Longrightarrow> level' \<noteq> []"
proof (induction H level pf arbitrary: level' pf' rule: merkle_loop.induct)
  case (1 H level pf)
  show ?case
  proof (cases "1 < length level")
    case False
    then show ?thesis using 1(2,3) by (simp add: merkle_loop_done)
  next
    case True
    obtain l1 p1 where pass: "merkle_pass H level pf = (l1, p1)" by (cases "merkle_pass H level pf")
    have "l1 \<noteq> []" using length_merkle_pass [of H level pf] pass True by auto
    moreover have "merkle_loop H l1 p1 = (level', pf')"
      using 1(3) merkle_loop_step [OF True pass] by simp
    ultimately show ?thesis using 1(1) [OF True pass [symmetric]] by blast
  qed
qed

text \<open>A pass lengthens a proof by at most one, and halves the level.\<close>

lemma merkle_pass_proof_length:
  "distinct (level_leaves level) \<Longrightarrow> \<forall>l. length (pf l) \<le> k \<Longrightarrow>
   length (snd (merkle_pass H level pf) l) \<le> Suc k"
proof (cases "l \<in> set (level_leaves level)")
  case False
  then show "\<forall>l. length (pf l) \<le> k \<Longrightarrow> length (snd (merkle_pass H level pf) l) \<le> Suc k"
    by (simp add: merkle_pass_other le_SucI)
next
  case True
  assume "distinct (level_leaves level)" and "\<forall>l. length (pf l) \<le> k"
  then have "length (pf l) \<le> k" by simp
  with \<open>distinct (level_leaves level)\<close> show ?thesis
  proof (induction H level pf rule: merkle_pass.induct)
    case (1 H left lg right rg rest pf)
    let ?pf1 = "push_sibling left rg (push_sibling right lg pf)"
    have d: "distinct lg" "distinct rg" "set lg \<inter> set rg = {}" "distinct (level_leaves rest)"
      "set (level_leaves rest) \<inter> (set lg \<union> set rg) = {}"
      using 1(2) by (auto simp: level_leaves_def)
    show ?case
    proof (cases "l \<in> set lg \<union> set rg")
      case True
      then have "l \<notin> set (level_leaves rest)" using d(5) by blast
      then have "snd (merkle_pass H rest ?pf1) l = ?pf1 l" by (rule merkle_pass_other)
      moreover have "length (?pf1 l) = Suc (length (pf l))"
        using True d by (cases "l \<in> set lg") (auto simp: push_sibling_in push_sibling_other disjoint_iff)
      ultimately show ?thesis using 1(3) by (simp add: case_prod_beta)
    next
      case False
      then have "?pf1 l = pf l" by (simp add: push_sibling_other)
      then show ?thesis using 1(1) d 1(3) by (simp add: case_prod_beta)
    qed
  qed auto
qed

lemma merkle_loop_proof_length:
  "distinct (level_leaves level) \<Longrightarrow> \<forall>l. length (pf l) \<le> k \<Longrightarrow> length level \<le> 2 ^ d \<Longrightarrow>
   length (snd (merkle_loop H level pf) l) \<le> k + d"
proof (induction d arbitrary: level pf k)
  case 0
  then show ?case by (simp add: merkle_loop_done)
next
  case (Suc d)
  show ?case
  proof (cases "1 < length level")
    case False
    moreover have "length (pf l) \<le> k" using Suc.prems(2) by simp
    ultimately show ?thesis by (simp add: merkle_loop_done)
  next
    case True
    obtain l1 p1 where pass: "merkle_pass H level pf = (l1, p1)" by (cases "merkle_pass H level pf")
    have "\<forall>l. length (p1 l) \<le> Suc k"
      using merkle_pass_proof_length [OF Suc.prems(1,2), of H] pass by simp
    moreover have "distinct (level_leaves l1)"
      using merkle_pass_leaves [of H level pf] pass Suc.prems(1) by simp
    moreover have "length l1 \<le> 2 ^ d"
      using length_merkle_pass [of H level pf] pass Suc.prems(3) by simp
    ultimately have "length (snd (merkle_loop H l1 p1) l) \<le> Suc k + d" by (intro Suc.IH) simp_all
    moreover have "merkle_loop H level pf = merkle_loop H l1 p1"
      by (rule merkle_loop_step [OF True pass])
    ultimately show ?thesis by simp
  qed
qed


lemma ordered_leaves_facts:
  "set (ordered_leaves ls) = lower ` set ls" "distinct (ordered_leaves ls)" "sorted (ordered_leaves ls)"
  by (simp_all add: ordered_leaves_def)

lemma ordered_leaves_eq_iff:
  "ordered_leaves xs = ordered_leaves ys \<longleftrightarrow> lower ` set xs = lower ` set ys"
  by (metis ordered_leaves_facts sorted_distinct_set_unique)

lemma build_start:
  "distinct ls \<Longrightarrow> level_leaves (map (\<lambda>l. (l, [l])) ls) = ls"
  by (induction ls) (auto simp: level_leaves_def)

lemma build_tree_facts:
  assumes "build_merkle_tree H ls = Inr t"
  obtains level where "merkle_loop H (map (\<lambda>l. (l, [l])) (ordered_leaves ls)) (\<lambda>_. []) = (level, proofs t)"
    "root t = fst (hd level)" "leaves t = ordered_leaves ls" "leaf_count t = length (ordered_leaves ls)" "ls \<noteq> []"
  using assms by (auto simp: build_merkle_tree_def Let_def split: if_splits prod.splits)

lemma build_merkle_total: "ls \<noteq> [] \<Longrightarrow> \<exists>t. build_merkle_tree H ls = Inr t"
  by (simp add: build_merkle_tree_def Let_def split: prod.splits)

lemma tree_proof_folds:
  assumes H: "lower_hash H" and build: "build_merkle_tree H ls = Inr t" and l: "l \<in> lower ` set ls"
  shows "fold_proof H l (proofs t l) = root t \<and> lower (root t) = root t"
proof -
  let ?os = "ordered_leaves ls"
  let ?start = "map (\<lambda>l. (l, [l])) ?os"
  obtain level where loop: "merkle_loop H ?start (\<lambda>_. []) = (level, proofs t)"
      "root t = fst (hd level)" "ls \<noteq> []"
    using build by (rule build_tree_facts)
  have leaves: "level_leaves ?start = ?os" by (simp add: build_start ordered_leaves_facts)
  have "proof_inv H ?start (\<lambda>_. [])"
    by (auto simp: proof_inv_def fold_proof_def ordered_leaves_facts ph.normal_def)
  then have inv: "proof_inv H level (proofs t)" "level_leaves level = ?os" "length level \<le> 1"
    using merkle_loop_inv [OF H _ _ loop(1)] leaves ordered_leaves_facts by auto
  have "?os \<noteq> []" using ordered_leaves_facts(1) [of ls] loop(3) by auto
  then have "level \<noteq> []" using merkle_loop_nonempty [OF _ loop(1)] by simp
  then obtain n g where level: "level = [(n, g)]" using inv(3) by (cases level) auto
  have "l \<in> set g" using inv(2) l level by (simp add: level_leaves_def ordered_leaves_facts)
  then show ?thesis using inv(1) loop(2) level by (simp add: proof_inv_def ph.normal_def)
qed

lemma tree_proof_length:
  assumes "build_merkle_tree H ls = Inr t" and "leaf_count t \<le> 2 ^ d"
  shows "length (proofs t l) \<le> d"
proof -
  let ?start = "map (\<lambda>l. (l, [l])) (ordered_leaves ls)"
  obtain level where loop: "merkle_loop H ?start (\<lambda>_. []) = (level, proofs t)"
      "leaf_count t = length (ordered_leaves ls)"
    using assms(1) by (rule build_tree_facts)
  have "length (snd (merkle_loop H ?start (\<lambda>_. [])) l) \<le> 0 + d"
    using assms(2) loop(2)
    by (intro merkle_loop_proof_length) (simp_all add: build_start ordered_leaves_facts)
  then show ?thesis using loop(1) by simp
qed


section \<open>Only the leaves have a proof\<close>

text \<open>
  What the hash has to promise for a proof to mean membership: no collisions (up to the
  letter case of its arguments, which are bytes to it), and no report hash that is also
  the hash of a pair.
\<close>

definition collision_free :: "hasher \<Rightarrow> bool" where
  "collision_free H \<longleftrightarrow> (\<forall>a b c d. H a b = H c d \<longrightarrow> lower a = lower c \<and> lower b = lower d)"

definition not_a_node :: "hasher \<Rightarrow> hex \<Rightarrow> bool" where
  "not_a_node H l \<longleftrightarrow> (\<forall>a b. H a b \<noteq> lower l)"

inductive node_of :: "hasher \<Rightarrow> hex set \<Rightarrow> hex \<Rightarrow> bool" for H L where
  leaf: "l \<in> L \<Longrightarrow> node_of H L l"
| pair: "node_of H L a \<Longrightarrow> node_of H L b \<Longrightarrow> node_of H L (hash_pair H a b)"

lemma merkle_pass_nodes:
  "\<forall>(n, g) \<in> set level. node_of H L n \<Longrightarrow> \<forall>(n, g) \<in> set (fst (merkle_pass H level pf)). node_of H L n"
  by (induction H level pf rule: merkle_pass.induct) (auto split: prod.splits intro: node_of.pair)

lemma merkle_loop_nodes:
  "\<forall>(n, g) \<in> set level. node_of H L n \<Longrightarrow> merkle_loop H level pf = (level', pf') \<Longrightarrow>
   \<forall>(n, g) \<in> set level'. node_of H L n"
proof (induction H level pf arbitrary: level' pf' rule: merkle_loop.induct)
  case (1 H level pf)
  show ?case
  proof (cases "1 < length level")
    case False
    then show ?thesis using 1(2,3) by (simp add: merkle_loop_done)
  next
    case True
    obtain l1 p1 where pass: "merkle_pass H level pf = (l1, p1)" by (cases "merkle_pass H level pf")
    have "\<forall>(n, g) \<in> set l1. node_of H L n" using merkle_pass_nodes [OF 1(2), of pf] pass by simp
    moreover have "merkle_loop H l1 p1 = (level', pf')" using 1(3) merkle_loop_step [OF True pass] by simp
    ultimately show ?thesis using 1(1) [OF True pass [symmetric]] by blast
  qed
qed

lemma root_is_node:
  assumes "build_merkle_tree H ls = Inr t"
  shows "node_of H (set (ordered_leaves ls)) (root t)"
proof -
  let ?start = "map (\<lambda>l. (l, [l])) (ordered_leaves ls)"
  obtain level where loop: "merkle_loop H ?start (\<lambda>_. []) = (level, proofs t)" "root t = fst (hd level)" "ls \<noteq> []"
    using assms by (rule build_tree_facts)
  have "ordered_leaves ls \<noteq> []" using ordered_leaves_facts(1) [of ls] loop(3) by auto
  then have "level \<noteq> []" using merkle_loop_nonempty [OF _ loop(1)] by simp
  moreover have "\<forall>(n, g) \<in> set level. node_of H (set (ordered_leaves ls)) n"
    by (rule merkle_loop_nodes [OF _ loop(1)]) (auto intro: node_of.leaf)
  ultimately show ?thesis using loop(2) by (cases level) auto
qed

lemma fold_proof_normal: "lower_hash H \<Longrightarrow> ph.normal l \<Longrightarrow> ph.normal (fold_proof H l pf)"
  by (induction pf rule: rev_induct) (simp_all add: fold_proof_def hash_pair_normal)

lemma node_of_normal: "node_of H L n \<Longrightarrow> lower_hash H \<Longrightarrow> \<forall>l \<in> L. ph.normal l \<Longrightarrow> ph.normal n"
  by (induction rule: node_of.induct) (simp_all add: hash_pair_normal)

lemma hash_pair_cases: "hash_pair H a b = H a b \<or> hash_pair H a b = H b a"
  by (simp add: hash_pair_def)

lemma hash_pair_inj:
  assumes "collision_free H" "hash_pair H a b = hash_pair H m s" "ph.normal a" "ph.normal b" "ph.normal m"
  shows "m = a \<or> m = b"
proof -
  have "H a b = H m s \<or> H a b = H s m \<or> H b a = H m s \<or> H b a = H s m"
    using assms(2) hash_pair_cases [of H a b] hash_pair_cases [of H m s] by auto
  then have "lower a = lower m \<or> lower b = lower m"
    using assms(1) unfolding collision_free_def by blast
  then show ?thesis using assms(3-5) by (auto simp: ph.normal_def)
qed

lemma not_a_node_pair: "not_a_node H l \<Longrightarrow> lower l \<noteq> hash_pair H a b"
  unfolding not_a_node_def by (metis hash_pair_cases)

lemma fold_proof_sound:
  assumes H: "lower_hash H" "collision_free H" and L: "\<forall>l \<in> L. ph.normal l \<and> not_a_node H l"
    and not_node: "not_a_node H leaf"
  shows "node_of H L (fold_proof H (lower leaf) pf) \<Longrightarrow> lower leaf \<in> L"
proof (induction pf rule: rev_induct)
  case Nil
  then show ?case
  proof cases
    case leaf
    then show ?thesis by (simp add: fold_proof_def)
  next
    case (pair a b)
    then show ?thesis using not_a_node_pair [OF not_node, of a b] by (simp add: fold_proof_def)
  qed
next
  case (snoc s pf)
  let ?m = "fold_proof H (lower leaf) pf"
  have m: "ph.normal ?m" using fold_proof_normal [OF H(1)] by (simp add: ph.normal_def)
  have eq: "fold_proof H (lower leaf) (pf @ [s]) = hash_pair H ?m s" by (simp add: fold_proof_def)
  from snoc.prems show ?case
  proof cases
    case leaf
    then have "not_a_node H (hash_pair H ?m s)" "ph.normal (hash_pair H ?m s)" using L eq by auto
    then show ?thesis using not_a_node_pair [of H "hash_pair H ?m s" ?m s] by (simp add: ph.normal_def)
  next
    case (pair a b)
    then have "?m = a \<or> ?m = b"
      using hash_pair_inj [OF H(2), of a b ?m s] eq m node_of_normal [OF _ H(1)] L by auto
    then show ?thesis using pair snoc.IH by auto
  qed
qed


lemma tree_proof_sound:
  assumes "lower_hash H" "collision_free H" and "build_merkle_tree H ls = Inr t"
    and "\<forall>l \<in> set ls. not_a_node H l" "not_a_node H leaf" and "verify_proof H leaf pf (root t)"
  shows "lower leaf \<in> lower ` set ls"
proof -
  let ?L = "set (ordered_leaves ls)"
  have L: "\<forall>l \<in> ?L. ph.normal l \<and> not_a_node H l"
    using assms(4) by (auto simp: ordered_leaves_facts ph.normal_def not_a_node_def)
  have root: "node_of H ?L (root t)" by (rule root_is_node [OF assms(3)])
  have "ph.normal (root t)" using node_of_normal [OF root assms(1)] L by blast
  moreover have "ph.normal (fold_proof H (lower leaf) pf)"
    using fold_proof_normal [OF assms(1)] by (simp add: ph.normal_def)
  ultimately have "fold_proof H (lower leaf) pf = root t" using assms(6) by (simp add: verify_proof_def ph.normal_def)
  then have "lower leaf \<in> ?L" using fold_proof_sound [OF assms(1,2) L assms(5), of pf] root by simp
  then show ?thesis by (simp add: ordered_leaves_facts)
qed


section \<open>Properties\<close>

text \<open>
  every leaf of a batch verifies. Whatever the letter case, duplicates and
  order of the report hashes handed to \<open>buildMerkleTree\<close>, the proof stored for
  each of them folds to the root: \<open>verifyProof\<close> accepts it.
\<close>

theorem merkle_proofs_verify:
  assumes "lower_hash H" and "build_merkle_tree H ls = Inr t" and "leaf \<in> set ls"
  shows "verify_proof H leaf (proofs t (lower leaf)) (root t)"
  using tree_proof_folds [OF assms(1,2), of "lower leaf"] assms(3)
  by (simp add: verify_proof_def)

definition demo_hash :: hasher where
  "demo_hash a b = lower (''0x'' @ a @ b)"

lemma demo_hash_lower: "lower_hash demo_hash"
  by (simp add: lower_hash_def demo_hash_def)

lemma demo_build: "build_merkle_tree demo_hash ls = Inr (projr (build_merkle_tree demo_hash ls))"
  if "ls \<noteq> []"
  using that by (simp add: build_merkle_tree_def Let_def split: prod.splits)

theorem merkle_proofs_verify_witness:
  "verify_proof demo_hash ''0xB''
     (proofs (projr (build_merkle_tree demo_hash [''0xc'', ''0xB'', ''0xa''])) (lower ''0xB''))
     (root (projr (build_merkle_tree demo_hash [''0xc'', ''0xB'', ''0xa''])))"
  by (rule merkle_proofs_verify [OF demo_hash_lower demo_build]) simp_all

text \<open>
  the root commits to the set of reports: two batches with the same hashes up
  to order, repetition and letter case build the same tree, with one leaf per
  distinct hash.
\<close>

theorem merkle_root_canonical:
  assumes "lower ` set xs = lower ` set ys"
  shows "build_merkle_tree H xs = build_merkle_tree H ys"
proof -
  have "ordered_leaves xs = ordered_leaves ys" using assms by (simp add: ordered_leaves_eq_iff)
  moreover have "xs = [] \<longleftrightarrow> ys = []" using assms by auto
  ultimately show ?thesis by (simp add: build_merkle_tree_def)
qed

theorem merkle_root_canonical_witness:
  "build_merkle_tree demo_hash [''0xB'', ''0xa''] = build_merkle_tree demo_hash [''0xa'', ''0xb'', ''0xA'']"
  by (rule merkle_root_canonical) code_simp

text \<open>
  a proof is logarithmic: a batch of at most \<open>2 ^ d\<close> leaves has proofs of at
  most \<open>d\<close> siblings.
\<close>

theorem merkle_proof_length:
  assumes "build_merkle_tree H ls = Inr t" and "leaf_count t \<le> 2 ^ d"
  shows "length (proofs t l) \<le> d"
  by (rule tree_proof_length [OF assms])

theorem merkle_proof_length_witness:
  "length (proofs (projr (build_merkle_tree demo_hash [''0xc'', ''0xb'', ''0xa''])) ''0xc'') \<le> 2"
  by (rule merkle_proof_length [OF demo_build])
    (simp_all add: build_merkle_tree_def ordered_leaves_def lower_def lower_char_def split: prod.splits)


lemma lower_x [simp]: "lower_char CHR ''x'' = CHR ''x''" "lower_char CHR '':'' = CHR '':''"
  by (simp_all add: lower_char_def)

definition injective_hash :: hasher where
  "injective_hash a b = replicate (length a) CHR ''x'' @ CHR '':'' # lower a @ lower b"

lemma injective_hash_lower: "lower_hash injective_hash"
  by (simp add: lower_hash_def injective_hash_def lower_def comp_def)

lemma injective_hash_collision_free: "collision_free injective_hash"
proof -
  have "takeWhile (\<lambda>ch. ch = CHR ''x'') (replicate n CHR ''x'' @ CHR '':'' # zs) = replicate n CHR ''x''" for n zs
    by (induction n) simp_all
  then have marks: "takeWhile (\<lambda>ch. ch = CHR ''x'') (injective_hash p q) = replicate (length p) CHR ''x''" for p q
    unfolding injective_hash_def .
  have "lower a = lower c \<and> lower b = lower d" if eq: "injective_hash a b = injective_hash c d" for a b c d
  proof -
    have "replicate (length a) CHR ''x'' = replicate (length c) CHR ''x''"
      using marks [of a b] marks [of c d] by (simp only: eq)
    then have len: "length a = length c" by (simp only: replicate_eq_replicate)
    then have "lower a @ lower b = lower c @ lower d"
      using eq by (simp only: injective_hash_def same_append_eq list.inject)
    then show ?thesis using len by (subst (asm) append_eq_append_conv) (simp_all only: lower_length simp_thms)
  qed
  then show ?thesis unfolding collision_free_def by blast
qed

lemma injective_hash_not_node: "not_a_node injective_hash (CHR ''0'' # h)"
proof -
  have "injective_hash a b \<noteq> lower (CHR ''0'' # h)" for a b
  proof
    assume "injective_hash a b = lower (CHR ''0'' # h)"
    then have "hd (injective_hash a b) = hd (lower (CHR ''0'' # h))" by (rule arg_cong)
    then show False by (cases a) (simp_all add: injective_hash_def lower_def lower_char_def)
  qed
  then show ?thesis unfolding not_a_node_def by blast
qed


end
