(* ===== verification/CommitJob.thy ===== *)
theory CommitJob
  imports Merkle
begin

text \<open>
  \<open>apps/worker/src/commit/job.ts\<close>: the job that batches validated report hashes,
  posts the Merkle root on chain and records the batch; the one-time and the
  change-driven artifact commits of the same file.

  The database is a record of its two tables.  Everything the job asks the chain
  (the receipt of a held transaction, the sending of a new one, the wait for its
  receipt) and the clock are fields of the tick's input, so a run of the job is a
  sequence of ticks and report insertions.  \<open>sent\<close> is a ghost log of the batches
  that were put on the wire.
\<close>


section \<open>State\<close>

record pending_report =
  p_id :: string
  p_hash :: hex
  p_created :: millis

record report = pending_report +
  r_validated :: bool
  r_commit :: "nat option"
  r_leaf :: "hex option"

record stored_leaf =
  sl_hash :: hex
  sl_index :: int
  sl_proof :: "hex list"

record commit_row =
  cm_id :: nat
  cm_root :: hex
  cm_leaf_count :: nat
  cm_leaves :: "stored_leaf list"
  cm_tx :: hex
  cm_block :: nat

text \<open>A log is its emitter and, when the ABI decodes it, the event name and batch id.\<close>

record chain_receipt =
  cr_success :: bool
  cr_block :: nat
  cr_logs :: "(hex \<times> (string \<times> nat) option) list"

record unconfirmed_batch =
  u_tx :: hex
  u_batch :: "pending_report list"
  u_sent_at :: millis

record commit_state =
  reports :: "report list"
  commits :: "commit_row list"
  unconfirmed :: "unconfirmed_batch option"
  sent :: "(hex \<times> string list) list"

record commit_env =
  ce_gas_key :: "string option"
  ce_registry :: "hex option"
  ce_max_leaves :: nat
  ce_interval_sec :: int

datatype commit_reason =
    NoGasKey | NoRegistry | NothingPending
  | Waiting nat int            \<comment> \<open>pending leaves, rounded age of the oldest\<close>
  | TxReverted hex

datatype commit_result =
    NotCommitted commit_reason
  | Committed "nat option" hex nat hex    \<comment> \<open>batchId, root, leafCount, txHash\<close>
  | Threw string

record tick =
  t_force :: bool
  t_lookup :: "chain_receipt option"     \<comment> \<open>receipt of the held tx, \<open>None\<close> if absent or an error\<close>
  t_now :: millis                        \<comment> \<open>\<open>Date.now()\<close> up to the readiness test\<close>
  t_send :: "hex option"                 \<comment> \<open>the new tx hash; \<open>None\<close> when sending throws\<close>
  t_sent_at :: millis
  t_wait :: "chain_receipt option"       \<comment> \<open>\<open>None\<close>: \<open>waitReceipt\<close> threw\<close>


section \<open>Waiting for a receipt\<close>

datatype poll = Found chain_receipt | Absent | PollError string

definition not_found_message :: "string \<Rightarrow> bool" where
  "not_found_message msg = (let s = lower msg in
     list_ex (\<lambda>p. contains p s)
       [''could not be found'', ''not be processed'', ''not found'', ''receipt''])"

text \<open>
  Each element is the clock at the loop test and what the poll answers; an
  exhausted list stands for the deadline having passed.
\<close>

fun wait_receipt :: "millis \<Rightarrow> (millis \<times> poll) list \<Rightarrow> string + chain_receipt" where
  "wait_receipt deadline [] = Inl ''receipt not found within deadline''"
| "wait_receipt deadline ((now, p) # rest) =
     (if now < deadline then
        (case p of
           Found r \<Rightarrow> Inr r
         | Absent \<Rightarrow> wait_receipt deadline rest
         | PollError msg \<Rightarrow> if not_found_message msg then wait_receipt deadline rest else Inl msg)
      else Inl ''receipt not found within deadline'')"


section \<open>The held batch\<close>

definition unconfirmed_max_age_ms :: millis where
  "unconfirmed_max_age_ms = 30 * 60000"

datatype unconfirmed_action = Finalize | Wait | DropReverted | DropExpired

definition unconfirmed_action_of ::
    "unconfirmed_batch \<Rightarrow> chain_receipt option \<Rightarrow> millis \<Rightarrow> millis \<Rightarrow> unconfirmed_action" where
  "unconfirmed_action_of u receipt now max_age =
     (case receipt of
        Some r \<Rightarrow> if cr_success r then Finalize else DropReverted
      | None \<Rightarrow> if now - u_sent_at u \<ge> max_age then DropExpired else Wait)"

definition require_commit_env :: "commit_env \<Rightarrow> commit_reason + hex" where
  "require_commit_env env =
     (case ce_gas_key env of
        None \<Rightarrow> Inl NoGasKey
      | Some _ \<Rightarrow> (case ce_registry env of None \<Rightarrow> Inl NoRegistry | Some r \<Rightarrow> Inr r))"


section \<open>Recording a batch\<close>

text \<open>The last \<open>BatchCommitted\<close> log of the registry names the batch.\<close>

definition batch_id_of :: "hex \<Rightarrow> chain_receipt \<Rightarrow> nat option" where
  "batch_id_of registry r =
     fold (\<lambda>(addr, ev) acc.
        if lower addr \<noteq> lower registry then acc
        else case ev of
          None \<Rightarrow> acc
        | Some (name, bid) \<Rightarrow> if name = ''BatchCommitted'' then Some bid else acc)
       (cr_logs r) None"

text \<open>\<open>Array.prototype.indexOf\<close>.\<close>

fun index_of :: "'a \<Rightarrow> 'a list \<Rightarrow> int" where
  "index_of x [] = - 1"
| "index_of x (y # ys) = (if x = y then 0 else let i = index_of x ys in if i < 0 then - 1 else i + 1)"

definition leaf_of :: "merkle_tree \<Rightarrow> pending_report \<Rightarrow> stored_leaf" where
  "leaf_of t r = (let h = lower (p_hash r)
     in \<lparr>sl_hash = h, sl_index = index_of h (leaves t), sl_proof = proofs t h\<rparr>)"

definition record_batch ::
    "hex \<Rightarrow> pending_report list \<Rightarrow> merkle_tree \<Rightarrow> hex \<Rightarrow> chain_receipt \<Rightarrow> commit_state \<Rightarrow>
     commit_result \<times> commit_state" where
  "record_batch registry batch t tx receipt s =
     (let cid = length (commits s);
          row = \<lparr>cm_id = cid, cm_root = root t, cm_leaf_count = leaf_count t,
                 cm_leaves = map (leaf_of t) batch, cm_tx = tx, cm_block = cr_block receipt\<rparr>;
          mark = (\<lambda>r. if p_id r \<in> p_id ` set batch
                      then r\<lparr>r_commit := Some cid, r_leaf := Some (lower (p_hash r))\<rparr> else r)
      in (Committed (batch_id_of registry receipt) (root t) (leaf_count t) tx,
          s\<lparr>commits := commits s @ [row], reports := map mark (reports s)\<rparr>))"


section \<open>One run of the batch job\<close>

definition pending :: "string list \<Rightarrow> commit_state \<Rightarrow> pending_report list" where
  "pending held s = map pending_report.truncate (sort_key p_created
     (filter (\<lambda>r. r_validated r \<and> r_commit r = None \<and> p_id r \<notin> set held) (reports s)))"

definition age_sec :: "millis \<Rightarrow> pending_report \<Rightarrow> real" where
  "age_sec now r = of_int (now - p_created r) / 1000"

definition batch_ready :: "commit_env \<Rightarrow> tick \<Rightarrow> pending_report list \<Rightarrow> bool" where
  "batch_ready env i pend \<longleftrightarrow> t_force i \<or> ce_max_leaves env \<le> length pend \<or>
     of_int (ce_interval_sec env) \<le> age_sec (t_now i) (hd pend)"

definition send_batch ::
    "hasher \<Rightarrow> commit_env \<Rightarrow> hex \<Rightarrow> tick \<Rightarrow> pending_report list \<Rightarrow> commit_state \<Rightarrow>
     commit_result \<times> commit_state" where
  "send_batch H env registry i pend s =
     (let batch = take (ce_max_leaves env) pend in
      case build_merkle_tree H (map p_hash batch) of
        Inl e \<Rightarrow> (Threw e, s)
      | Inr t \<Rightarrow>
          (case t_send i of
             None \<Rightarrow> (Threw ''writeContract failed'', s)
           | Some tx \<Rightarrow>
               (let s1 = s\<lparr>sent := sent s @ [(tx, map p_id batch)]\<rparr> in
                case t_wait i of
                  None \<Rightarrow> (Threw ''held as unconfirmed'',
                           s1\<lparr>unconfirmed := Some \<lparr>u_tx = tx, u_batch = batch, u_sent_at = t_sent_at i\<rparr>\<rparr>)
                | Some receipt \<Rightarrow>
                    if \<not> cr_success receipt then (NotCommitted (TxReverted tx), s1)
                    else record_batch registry batch t tx receipt s1)))"

text \<open>The part of the job after the held batch has been looked at.\<close>

definition commit_pending ::
    "hasher \<Rightarrow> commit_env \<Rightarrow> hex \<Rightarrow> tick \<Rightarrow> string list \<Rightarrow> commit_state \<Rightarrow>
     commit_result \<times> commit_state" where
  "commit_pending H env registry i held s =
     (let pend = pending held s in
      if pend = [] then (NotCommitted NothingPending, s)
      else if \<not> batch_ready env i pend
      then (NotCommitted (Waiting (length pend) (js_round (age_sec (t_now i) (hd pend)))), s)
      else send_batch H env registry i pend s)"

definition run_commit_batch ::
    "hasher \<Rightarrow> commit_env \<Rightarrow> tick \<Rightarrow> commit_state \<Rightarrow> commit_result \<times> commit_state" where
  "run_commit_batch H env i s =
     (case require_commit_env env of
        Inl r \<Rightarrow> (NotCommitted r, s)
      | Inr registry \<Rightarrow>
          (case unconfirmed s of
             None \<Rightarrow> commit_pending H env registry i [] s
           | Some u \<Rightarrow>
               (case unconfirmed_action_of u (t_lookup i) (t_now i) unconfirmed_max_age_ms of
                  Wait \<Rightarrow> commit_pending H env registry i (map p_id (u_batch u)) s
                | Finalize \<Rightarrow>
                    (let s1 = s\<lparr>unconfirmed := None\<rparr> in
                     case (build_merkle_tree H (map p_hash (u_batch u)), t_lookup i) of
                       (Inr t, Some receipt) \<Rightarrow> record_batch registry (u_batch u) t (u_tx u) receipt s1
                     | (Inl e, _) \<Rightarrow> (Threw e, s1)
                     | (Inr _, None) \<Rightarrow> (Threw ''unreachable'', s1))
                | _ \<Rightarrow> commit_pending H env registry i [] (s\<lparr>unconfirmed := None\<rparr>))))"

inductive commit_step :: "hasher \<Rightarrow> commit_env \<Rightarrow> commit_state \<Rightarrow> commit_state \<Rightarrow> bool" for H env where
  tick: "commit_step H env s (snd (run_commit_batch H env i s))"
| insert_report: "p_id r \<notin> p_id ` set (reports s) \<Longrightarrow> r_commit r = None \<Longrightarrow>
     commit_step H env s (s\<lparr>reports := reports s @ [r]\<rparr>)"

definition commit_init :: commit_state where
  "commit_init = \<lparr>reports = [], commits = [], unconfirmed = None, sent = []\<rparr>"

inductive commit_reach :: "hasher \<Rightarrow> commit_env \<Rightarrow> commit_state \<Rightarrow> bool" for H env where
  reach_init: "commit_reach H env commit_init"
| reach_step: "commit_reach H env s \<Longrightarrow> commit_step H env s s' \<Longrightarrow> commit_reach H env s'"


section \<open>Invariant\<close>

definition uncommitted :: "commit_state \<Rightarrow> pending_report \<Rightarrow> bool" where
  "uncommitted s q \<longleftrightarrow> (\<exists>r \<in> set (reports s).
     pending_report.truncate r = q \<and> r_validated r \<and> r_commit r = None)"

definition anchored :: "hasher \<Rightarrow> commit_row list \<Rightarrow> report \<Rightarrow> nat \<Rightarrow> bool" where
  "anchored H rows r c \<longleftrightarrow> r_leaf r = Some (lower (p_hash r)) \<and>
     (\<exists>row \<in> set rows. cm_id row = c \<and>
        (\<exists>sl \<in> set (cm_leaves row). sl_hash sl = lower (p_hash r) \<and>
           verify_proof H (p_hash r) (sl_proof sl) (cm_root row)))"

definition commit_inv :: "hasher \<Rightarrow> commit_state \<Rightarrow> bool" where
  "commit_inv H s \<longleftrightarrow> distinct (map p_id (reports s)) \<and>
     map cm_id (commits s) = [0..<length (commits s)] \<and>
     (\<forall>r \<in> set (reports s). \<forall>c. r_commit r = Some c \<longrightarrow> anchored H (commits s) r c) \<and>
     (\<forall>u. unconfirmed s = Some u \<longrightarrow> u_batch u \<noteq> [] \<and> (\<forall>q \<in> set (u_batch u). uncommitted s q))"

lemma truncate_simps [simp]:
  "p_id (pending_report.truncate r) = p_id r" "p_hash (pending_report.truncate r) = p_hash r"
  "p_created (pending_report.truncate r) = p_created r"
  by (simp_all add: pending_report.defs)

lemma set_pending: "q \<in> set (pending held s) \<longleftrightarrow> uncommitted s q \<and> p_id q \<notin> set held"
  by (auto simp: pending_def uncommitted_def)

lemma uncommitted_cong: "reports s' = reports s \<Longrightarrow> uncommitted s' = uncommitted s"
  by (simp add: uncommitted_def fun_eq_iff)

lemma commit_inv_cong:
  "commit_inv H s \<Longrightarrow> reports s' = reports s \<Longrightarrow> commits s' = commits s \<Longrightarrow>
   unconfirmed s' = unconfirmed s \<or> unconfirmed s' = None \<Longrightarrow> commit_inv H s'"
  by (auto simp: commit_inv_def uncommitted_cong [of s' s])

lemma anchored_mono: "anchored H rows r c \<Longrightarrow> anchored H (rows @ rows') r c"
  by (auto simp: anchored_def)

lemma index_of_nth: "x \<in> set xs \<Longrightarrow> 0 \<le> index_of x xs \<and> xs ! nat (index_of x xs) = x"
  by (induction xs) (auto simp: Let_def nth_Cons' nat_add_distrib)

lemma record_batch_inv:
  assumes H: "lower_hash H" and inv: "commit_inv H s"
    and build: "build_merkle_tree H (map p_hash batch) = Inr t"
    and batch: "\<And>q. q \<in> set batch \<Longrightarrow> uncommitted s q"
    and apart: "\<And>u q. unconfirmed s = Some u \<Longrightarrow> q \<in> set (u_batch u) \<Longrightarrow> p_id q \<notin> p_id ` set batch"
  shows "commit_inv H (snd (record_batch registry batch t tx receipt s))"
proof -
  define row where "row = \<lparr>cm_id = length (commits s), cm_root = root t, cm_leaf_count = leaf_count t,
      cm_leaves = map (leaf_of t) batch, cm_tx = tx, cm_block = cr_block receipt\<rparr>"
  define mark :: "report \<Rightarrow> report" where "mark = (\<lambda>r. if p_id r \<in> p_id ` set batch
      then r\<lparr>r_commit := Some (length (commits s)), r_leaf := Some (lower (p_hash r))\<rparr> else r)"
  let ?s = "s\<lparr>commits := commits s @ [row], reports := map mark (reports s)\<rparr>"
  have s': "snd (record_batch registry batch t tx receipt s) = ?s"
    by (simp add: record_batch_def Let_def row_def mark_def)
  have mark [simp]: "p_id (mark r) = p_id r" "p_hash (mark r) = p_hash r"
    "r_validated (mark r) = r_validated r" "pending_report.truncate (mark r) = pending_report.truncate r" for r
    by (simp_all add: mark_def pending_report.defs)
  have ids: "distinct (map p_id (reports s))" using inv by (simp add: commit_inv_def)
  have new: "anchored H (commits s @ [row]) (mark r) (length (commits s))"
    if r: "r \<in> set (reports s)" and q: "p_id r \<in> p_id ` set batch" for r
  proof -
    obtain q where "q \<in> set batch" "p_id q = p_id r" using q by auto
    with batch obtain r' where "r' \<in> set (reports s)" "pending_report.truncate r' = q"
      by (auto simp: uncommitted_def)
    with \<open>p_id q = p_id r\<close> r ids have "pending_report.truncate r = q"
      by (metis distinct_map inj_onD truncate_simps(1))
    then have mem: "p_hash r \<in> set (map p_hash batch)" using \<open>q \<in> set batch\<close> by force
    have "leaf_of t q \<in> set (cm_leaves row)" using \<open>q \<in> set batch\<close> by (simp add: row_def)
    moreover have "verify_proof H (p_hash r) (proofs t (lower (p_hash r))) (root t)"
      using tree_proof_folds [OF H build, of "lower (p_hash r)"] mem by (simp add: verify_proof_def)
    ultimately show ?thesis
      using \<open>pending_report.truncate r = q\<close> q
      by (auto simp: anchored_def leaf_of_def Let_def row_def mark_def)
  qed
  have rows: "map cm_id (commits s @ [row]) = [0..<length (commits s @ [row])]"
    using inv by (simp add: commit_inv_def row_def)
  have anch: "anchored H (commits s @ [row]) (mark r) c"
    if "r \<in> set (reports s)" "r_commit (mark r) = Some c" for r c
  proof (cases "p_id r \<in> p_id ` set batch")
    case True
    then show ?thesis using new [OF that(1) True] that(2) by (simp add: mark_def)
  next
    case False
    then show ?thesis using that inv by (auto simp: mark_def commit_inv_def intro: anchored_mono)
  qed
  have held: "uncommitted ?s q" if u: "unconfirmed s = Some u" and q: "q \<in> set (u_batch u)" for u q
  proof -
    have "uncommitted s q" using inv u q by (auto simp: commit_inv_def)
    then obtain r where r: "r \<in> set (reports s)" "pending_report.truncate r = q" "r_validated r" "r_commit r = None"
      by (auto simp: uncommitted_def)
    then have "p_id r \<notin> p_id ` set batch" using apart [OF u q] by auto
    then have "mark r = r" by (simp add: mark_def)
    then have "r \<in> set (reports ?s)" using r(1) by force
    with r show ?thesis by (auto simp: uncommitted_def)
  qed
  have "distinct (map p_id (map mark (reports s)))" using ids by (simp add: comp_def)
  then show ?thesis
    using inv rows anch held unfolding s' by (auto simp: commit_inv_def)
qed

lemma send_batch_inv:
  assumes H: "lower_hash H" and inv: "commit_inv H s"
    and pend: "\<And>q. q \<in> set pend \<Longrightarrow> uncommitted s q"
    and apart: "\<And>u q. unconfirmed s = Some u \<Longrightarrow> q \<in> set (u_batch u) \<Longrightarrow> p_id q \<notin> p_id ` set pend"
  shows "commit_inv H (snd (send_batch H env registry i pend s))"
proof -
  let ?batch = "take (ce_max_leaves env) pend"
  let ?s1 = "\<lambda>tx. s\<lparr>sent := sent s @ [(tx, map p_id ?batch)]\<rparr>"
  have sub: "set ?batch \<subseteq> set pend" by (rule set_take_subset)
  have inv1: "commit_inv H (?s1 tx)" for tx by (rule commit_inv_cong [OF inv]) simp_all
  have rec: "commit_inv H (snd (record_batch registry ?batch t tx r (?s1 tx)))"
    if "build_merkle_tree H (map p_hash ?batch) = Inr t" for t tx r
  proof (rule record_batch_inv [OF H inv1 that])
    fix q assume "q \<in> set ?batch"
    then show "uncommitted (?s1 tx) q"
      using pend sub uncommitted_cong [of "?s1 tx" s] by auto
  next
    fix u q assume "unconfirmed (?s1 tx) = Some u" "q \<in> set (u_batch u)"
    then show "p_id q \<notin> p_id ` set ?batch" using apart [of u q] sub by auto
  qed
  have held: "commit_inv H ((?s1 tx)\<lparr>unconfirmed := Some \<lparr>u_tx = tx, u_batch = ?batch, u_sent_at = a\<rparr>\<rparr>)"
    if "build_merkle_tree H (map p_hash ?batch) = Inr t" for t tx a
  proof -
    have "?batch \<noteq> []" using that by (auto simp: build_merkle_tree_def split: if_splits)
    moreover have "\<forall>q \<in> set ?batch. uncommitted s q" using pend sub by auto
    ultimately show ?thesis using inv
      by (auto simp: commit_inv_def uncommitted_def)
  qed
  show ?thesis
    using inv inv1 rec held
    by (auto simp: send_batch_def Let_def split: sum.splits option.splits)
qed

lemma commit_pending_inv:
  assumes "lower_hash H" and "commit_inv H s"
    and "\<And>u. unconfirmed s = Some u \<Longrightarrow> held = map p_id (u_batch u)"
  shows "commit_inv H (snd (commit_pending H env registry i held s))"
proof -
  have "commit_inv H (snd (send_batch H env registry i (pending held s) s))"
  proof (rule send_batch_inv [OF assms(1,2)])
    fix u q assume "unconfirmed s = Some u" "q \<in> set (u_batch u)"
    then have "p_id q \<in> set held" using assms(3) by simp
    then show "p_id q \<notin> p_id ` set (pending held s)" by (auto simp: set_pending)
  qed (simp add: set_pending)
  then show ?thesis using assms(2) by (auto simp: commit_pending_def Let_def)
qed

lemma run_commit_batch_cases:
  obtains (unset) r where "require_commit_env env = Inl r" "snd (run_commit_batch H env i s) = s"
  | (fresh) registry where "unconfirmed s = None"
      "run_commit_batch H env i s = commit_pending H env registry i [] s"
  | (wait) registry u where "unconfirmed s = Some u"
      "unconfirmed_action_of u (t_lookup i) (t_now i) unconfirmed_max_age_ms = Wait"
      "run_commit_batch H env i s = commit_pending H env registry i (map p_id (u_batch u)) s"
  | (dropped) registry u where "unconfirmed s = Some u"
      "run_commit_batch H env i s = commit_pending H env registry i [] (s\<lparr>unconfirmed := None\<rparr>)"
  | (late) registry u t receipt where "unconfirmed s = Some u" "t_lookup i = Some receipt"
      "build_merkle_tree H (map p_hash (u_batch u)) = Inr t"
      "run_commit_batch H env i s =
         record_batch registry (u_batch u) t (u_tx u) receipt (s\<lparr>unconfirmed := None\<rparr>)"
  | (stuck) u where "unconfirmed s = Some u" "snd (run_commit_batch H env i s) = s\<lparr>unconfirmed := None\<rparr>"
proof (cases "require_commit_env env")
  case (Inl r)
  then show ?thesis by (intro unset) (simp_all add: run_commit_batch_def)
next
  case env: (Inr registry)
  show ?thesis
  proof (cases "unconfirmed s")
    case None
    then show ?thesis using env by (intro fresh) (simp_all add: run_commit_batch_def)
  next
    case (Some u)
    show ?thesis
    proof (cases "unconfirmed_action_of u (t_lookup i) (t_now i) unconfirmed_max_age_ms")
      case Finalize
      obtain receipt where "t_lookup i = Some receipt"
        using Finalize by (cases "t_lookup i") (auto simp: unconfirmed_action_of_def split: if_splits)
      then show ?thesis using env Some Finalize
        by (cases "build_merkle_tree H (map p_hash (u_batch u))")
          (auto intro: stuck late simp: run_commit_batch_def Let_def)
    qed (use env Some in \<open>auto intro: wait dropped simp: run_commit_batch_def Let_def\<close>)
  qed
qed

lemma run_commit_batch_inv:
  assumes H: "lower_hash H" and inv: "commit_inv H s"
  shows "commit_inv H (snd (run_commit_batch H env i s))"
proof -
  have cleared: "commit_inv H (s\<lparr>unconfirmed := None\<rparr>)" by (rule commit_inv_cong [OF inv]) simp_all
  show ?thesis
  proof (cases rule: run_commit_batch_cases [of env H i s])
    case (late registry u t receipt)
    have "commit_inv H (snd (record_batch registry (u_batch u) t (u_tx u) receipt (s\<lparr>unconfirmed := None\<rparr>)))"
      by (rule record_batch_inv [OF H cleared late(3)])
        (use inv late(1) in \<open>auto simp: commit_inv_def uncommitted_def\<close>)
    then show ?thesis by (simp add: late)
  qed (use inv cleared commit_pending_inv [OF H inv] commit_pending_inv [OF H cleared] in \<open>simp_all\<close>)
qed

lemma commit_step_inv:
  assumes H: "lower_hash H" and "commit_step H env s s'" and inv: "commit_inv H s"
  shows "commit_inv H s'"
  using assms(2)
proof cases
  case (tick i)
  then show ?thesis using run_commit_batch_inv [OF H inv] by simp
next
  case (insert_report r)
  then show ?thesis using inv by (fastforce simp: commit_inv_def uncommitted_def)
qed

lemma commit_reach_inv: "commit_reach H env s \<Longrightarrow> lower_hash H \<Longrightarrow> commit_inv H s"
proof (induction rule: commit_reach.induct)
  case reach_init
  show ?case by (simp add: commit_inv_def commit_init_def)
qed (auto intro: commit_step_inv)


section \<open>Committed reports stay put\<close>

definition keeps_committed :: "commit_state \<Rightarrow> commit_state \<Rightarrow> bool" where
  "keeps_committed s s' \<longleftrightarrow> (\<forall>r \<in> set (reports s). r_commit r \<noteq> None \<longrightarrow> r \<in> set (reports s'))"

lemma record_batch_keeps:
  assumes ids: "distinct (map p_id (reports s))" and "\<And>q. q \<in> set batch \<Longrightarrow> uncommitted s q"
  shows "keeps_committed s (snd (record_batch registry batch t tx receipt s))"
  unfolding keeps_committed_def
proof (intro ballI impI)
  fix r assume r: "r \<in> set (reports s)" "r_commit r \<noteq> None"
  have "p_id r \<notin> p_id ` set batch"
  proof
    assume "p_id r \<in> p_id ` set batch"
    then obtain q where "q \<in> set batch" "p_id q = p_id r" by auto
    then obtain r' where "r' \<in> set (reports s)" "p_id r' = p_id r" "r_commit r' = None"
      using assms(2) by (force simp: uncommitted_def)
    then show False using ids r by (metis distinct_map inj_onD)
  qed
  then show "r \<in> set (reports (snd (record_batch registry batch t tx receipt s)))"
    using r(1) by (force simp: record_batch_def Let_def)
qed

lemma keeps_committed_cong: "reports s1 = reports s \<Longrightarrow> keeps_committed s1 s' = keeps_committed s s'"
  by (simp add: keeps_committed_def)

lemma keeps_committed_refl: "reports s' = reports s \<Longrightarrow> keeps_committed s s'"
  by (simp add: keeps_committed_def)

lemma send_batch_keeps:
  assumes ids: "distinct (map p_id (reports s))" and pend: "\<And>q. q \<in> set pend \<Longrightarrow> uncommitted s q"
  shows "keeps_committed s (snd (send_batch H env registry i pend s))"
proof -
  let ?batch = "take (ce_max_leaves env) pend"
  let ?s1 = "\<lambda>tx. s\<lparr>sent := sent s @ [(tx, map p_id ?batch)]\<rparr>"
  have "keeps_committed (?s1 tx) (snd (record_batch registry ?batch t tx r (?s1 tx)))" for t tx r
    by (rule record_batch_keeps)
      (use ids pend uncommitted_cong [of "?s1 tx" s] in \<open>auto dest: in_set_takeD\<close>)
  then have "keeps_committed s (snd (record_batch registry ?batch t tx r (?s1 tx)))" for t tx r
    by (rule keeps_committed_cong [THEN iffD1, rotated]) simp
  then show ?thesis
    by (auto simp: send_batch_def Let_def keeps_committed_refl split: sum.splits option.splits)
qed

lemma commit_pending_keeps:
  "distinct (map p_id (reports s)) \<Longrightarrow> keeps_committed s (snd (commit_pending H env registry i held s))"
  using send_batch_keeps [of s "pending held s"]
  by (auto simp: commit_pending_def Let_def set_pending keeps_committed_refl)

lemma run_commit_batch_keeps:
  assumes "commit_inv H s"
  shows "keeps_committed s (snd (run_commit_batch H env i s))"
proof -
  have ids: "distinct (map p_id (reports s))" using assms by (simp add: commit_inv_def)
  let ?c = "s\<lparr>unconfirmed := None\<rparr>"
  have same: "keeps_committed ?c s' = keeps_committed s s'" for s' by (rule keeps_committed_cong) simp
  show ?thesis
  proof (cases rule: run_commit_batch_cases [of env H i s])
    case (late registry u t receipt)
    have "keeps_committed ?c (snd (record_batch registry (u_batch u) t (u_tx u) receipt ?c))"
      by (rule record_batch_keeps)
        (use assms late(1) in \<open>auto simp: commit_inv_def uncommitted_def\<close>)
    then show ?thesis by (simp add: late same)
  next
    case (dropped registry u)
    have "keeps_committed ?c (snd (commit_pending H env registry i [] ?c))"
      by (rule commit_pending_keeps) (simp add: ids)
    then show ?thesis by (simp add: dropped same)
  qed (simp_all add: keeps_committed_refl commit_pending_keeps ids)
qed


section \<open>Properties\<close>

text \<open>
  C1: what is recorded as committed is provable. In every state the commit job can
  reach, each report with a \<open>commitId\<close> has a commit row under that id which stores
  a leaf for the report whose Merkle proof verifies against the row's root.
\<close>

theorem commit_recorded_proof_verifies:
  assumes "lower_hash H" and "commit_reach H env s" and "r \<in> set (reports s)" and "r_commit r = Some c"
  shows "\<exists>row \<in> set (commits s). cm_id row = c \<and>
    (\<exists>sl \<in> set (cm_leaves row). sl_hash sl = lower (p_hash r) \<and>
       verify_proof H (p_hash r) (sl_proof sl) (cm_root row))"
  using commit_reach_inv [OF assms(2,1)] assms(3,4) by (auto simp: commit_inv_def anchored_def)

text \<open>
  a commit is final. No tick and no insertion changes or loses a report that
  already has a \<open>commitId\<close>: it is never anchored in a second batch.
\<close>

theorem commit_never_rebinds:
  assumes "lower_hash H" and "commit_reach H env s" and "commit_step H env s s'"
    and "r \<in> set (reports s)" and "r_commit r = Some c"
  shows "r \<in> set (reports s')"
  using assms(3)
proof cases
  case (tick i)
  have "keeps_committed s s'"
    using run_commit_batch_keeps [OF commit_reach_inv [OF assms(2,1)]] tick by simp
  then show ?thesis using assms(4,5) by (auto simp: keeps_committed_def)
next
  case (insert_report r')
  then show ?thesis using assms(4) by simp
qed

lemma send_batch_sent:
  "sent (snd (send_batch H env registry i pend s)) = sent s \<or>
   (\<exists>tx. sent (snd (send_batch H env registry i pend s)) =
      sent s @ [(tx, map p_id (take (ce_max_leaves env) pend))])"
  by (auto simp: send_batch_def Let_def record_batch_def split: sum.splits option.splits)

lemma commit_pending_sent:
  "sent (snd (commit_pending H env registry i held s)) = sent s \<or>
   (\<exists>tx. sent (snd (commit_pending H env registry i held s)) =
      sent s @ [(tx, map p_id (take (ce_max_leaves env) (pending held s)))])"
  using send_batch_sent [of H env registry i "pending held s" s]
  by (auto simp: commit_pending_def Let_def)

text \<open>
  a held batch is left alone. While the receipt of a sent batch is still
  missing and the batch is younger than thirty minutes, whatever the tick sends
  contains none of its reports.
\<close>

theorem commit_held_excluded:
  assumes "unconfirmed s = Some u" and "t_lookup i = None" and "t_now i - u_sent_at u < unconfirmed_max_age_ms"
    and "sent (snd (run_commit_batch H env i s)) = sent s @ [(tx, ids)]"
  shows "set ids \<inter> p_id ` set (u_batch u) = {}"
proof -
  have wait: "unconfirmed_action_of u (t_lookup i) (t_now i) unconfirmed_max_age_ms = Wait"
    using assms(2,3) by (simp add: unconfirmed_action_of_def)
  show ?thesis
  proof (cases "require_commit_env env")
    case (Inl r)
    then show ?thesis using assms(4) by (simp add: run_commit_batch_def)
  next
    case (Inr registry)
    then have "run_commit_batch H env i s = commit_pending H env registry i (map p_id (u_batch u)) s"
      using assms(1) wait by (simp add: run_commit_batch_def)
    then have "ids = map p_id (take (ce_max_leaves env) (pending (map p_id (u_batch u)) s))"
      using commit_pending_sent [of H env registry i "map p_id (u_batch u)" s] assms(4) by auto
    then show ?thesis by (auto simp: set_pending dest!: in_set_takeD)
  qed
qed

text \<open>
  the held slot holds one batch only. If the next batch times out too while the
  first is still unconfirmed, the first one is forgotten: it is not the held batch
  any more and, although neither its receipt nor its age has resolved it, all of
  its reports are pending again, to be sent a second time.
\<close>

theorem commit_second_timeout_forgets:
  assumes "lower_hash H" and "commit_reach H env s" and held: "unconfirmed s = Some u"
    and "require_commit_env env = Inr registry" and "t_lookup i = None"
    and "t_now i - u_sent_at u < unconfirmed_max_age_ms" and "t_send i = Some tx" and "t_wait i = None"
    and some: "pending (map p_id (u_batch u)) s \<noteq> []" and "0 < ce_max_leaves env"
    and ready: "batch_ready env i (pending (map p_id (u_batch u)) s)"
    and s': "s' = snd (run_commit_batch H env i s)"
  shows "\<exists>u'. unconfirmed s' = Some u' \<and> u_tx u' = tx \<and>
    set (u_batch u) \<inter> set (u_batch u') = {} \<and>
    set (u_batch u) \<subseteq> set (pending (map p_id (u_batch u')) s')"
proof -
  let ?pend = "pending (map p_id (u_batch u)) s"
  let ?batch = "take (ce_max_leaves env) ?pend"
  have "?batch \<noteq> []" using some assms(10) by (cases ?pend; cases "ce_max_leaves env") auto
  then obtain t where "build_merkle_tree H (map p_hash ?batch) = Inr t"
    using build_merkle_total [of "map p_hash ?batch"] by auto
  moreover have "unconfirmed_action_of u (t_lookup i) (t_now i) unconfirmed_max_age_ms = Wait"
    using assms(5,6) by (simp add: unconfirmed_action_of_def)
  ultimately have run: "s' = s\<lparr>sent := sent s @ [(tx, map p_id ?batch)],
      unconfirmed := Some \<lparr>u_tx = tx, u_batch = ?batch, u_sent_at = t_sent_at i\<rparr>\<rparr>"
    using s' held some ready assms(4,7,8)
    by (simp add: run_commit_batch_def commit_pending_def send_batch_def Let_def)
  have apart: "p_id q \<notin> p_id ` set (u_batch u)" if "q \<in> set ?batch" for q
    using that by (auto simp: set_pending dest!: in_set_takeD)
  have "uncommitted s q" if "q \<in> set (u_batch u)" for q
    using commit_reach_inv [OF assms(2,1)] held that by (auto simp: commit_inv_def)
  moreover have "p_id q \<notin> p_id ` set ?batch" if "q \<in> set (u_batch u)" for q
    by (metis (no_types, lifting) apart image_iff that)
  ultimately have "set (u_batch u) \<subseteq> set (pending (map p_id ?batch) s')"
    using uncommitted_cong [of s' s] run by (auto simp: set_pending)
  with apart run show ?thesis by auto
qed


subsection \<open>Witnesses\<close>

definition demo_report :: "string \<Rightarrow> hex \<Rightarrow> report" where
  "demo_report i h = \<lparr>p_id = i, p_hash = h, p_created = 0, r_validated = True, r_commit = None, r_leaf = None\<rparr>"

definition demo_env :: commit_env where
  "demo_env = \<lparr>ce_gas_key = Some ''key'', ce_registry = Some ''0xreg'', ce_max_leaves = 1, ce_interval_sec = 600\<rparr>"

definition demo_tick :: "hex \<Rightarrow> chain_receipt option \<Rightarrow> tick" where
  "demo_tick tx w = \<lparr>t_force = True, t_lookup = None, t_now = 60000, t_send = Some tx, t_sent_at = 60000, t_wait = w\<rparr>"

definition demo_receipt :: chain_receipt where
  "demo_receipt = \<lparr>cr_success = True, cr_block = 7, cr_logs = [(''0xREG'', Some (''BatchCommitted'', 3))]\<rparr>"

definition demo_two_reports :: commit_state where
  "demo_two_reports = commit_init\<lparr>reports := [demo_report ''a'' ''0xAA'', demo_report ''b'' ''0xbb'']\<rparr>"

lemma demo_two_reports_reach: "commit_reach demo_hash demo_env demo_two_reports"
proof -
  let ?s1 = "commit_init\<lparr>reports := reports commit_init @ [demo_report ''a'' ''0xAA'']\<rparr>"
  have r1: "commit_reach demo_hash demo_env ?s1"
    by (rule reach_step [OF reach_init insert_report])
      (simp_all add: commit_init_def demo_report_def)
  have "commit_reach demo_hash demo_env (?s1\<lparr>reports := reports ?s1 @ [demo_report ''b'' ''0xbb'']\<rparr>)"
    by (rule reach_step [OF r1 insert_report])
      (simp_all add: commit_init_def demo_report_def)
  then show ?thesis by (simp add: demo_two_reports_def commit_init_def)
qed

definition demo_after :: "chain_receipt option \<Rightarrow> commit_state" where
  "demo_after w = snd (run_commit_batch demo_hash demo_env (demo_tick ''0xt1'' w) demo_two_reports)"

lemma demo_after_reach: "commit_reach demo_hash demo_env (demo_after w)"
  unfolding demo_after_def by (rule reach_step [OF demo_two_reports_reach commit_step.tick])

lemmas demo_commit_defs = demo_after_def demo_two_reports_def demo_report_def demo_env_def demo_tick_def
  demo_receipt_def commit_init_def run_commit_batch_def require_commit_env_def commit_pending_def
  send_batch_def record_batch_def pending_def batch_ready_def build_merkle_tree_def ordered_leaves_def
  merkle_loop_done pending_report.defs

lemma demo_committed:
  "demo_report ''a'' ''0xAA''\<lparr>r_commit := Some 0, r_leaf := Some (lower ''0xAA'')\<rparr> \<in> set (reports (demo_after (Some demo_receipt)))"
  by (simp add: demo_commit_defs Let_def)

lemma demo_held:
  "unconfirmed (demo_after None) = Some \<lparr>u_tx = ''0xt1'',
     u_batch = [\<lparr>p_id = ''a'', p_hash = ''0xAA'', p_created = 0\<rparr>], u_sent_at = 60000\<rparr> \<and>
   pending [''a''] (demo_after None) = [\<lparr>p_id = ''b'', p_hash = ''0xbb'', p_created = 0\<rparr>]"
  by (simp add: demo_commit_defs Let_def)

theorem commit_recorded_proof_verifies_witness:
  "\<exists>row \<in> set (commits (demo_after (Some demo_receipt))). cm_id row = 0 \<and>
    (\<exists>sl \<in> set (cm_leaves row). sl_hash sl = lower ''0xAA'' \<and>
       verify_proof demo_hash ''0xAA'' (sl_proof sl) (cm_root row))"
  using commit_recorded_proof_verifies [OF demo_hash_lower demo_after_reach demo_committed, of 0]
  by (simp add: demo_report_def)

theorem commit_never_rebinds_witness:
  "demo_report ''a'' ''0xAA''\<lparr>r_commit := Some 0, r_leaf := Some (lower ''0xAA'')\<rparr> \<in>
   set (reports (snd (run_commit_batch demo_hash demo_env (demo_tick ''0xt2'' None) (demo_after (Some demo_receipt)))))"
  by (rule commit_never_rebinds [OF demo_hash_lower demo_after_reach commit_step.tick demo_committed, where c = 0])
    (simp add: demo_report_def)

theorem commit_second_timeout_forgets_witness:
  "\<exists>u'. unconfirmed (snd (run_commit_batch demo_hash demo_env (demo_tick ''0xt2'' None) (demo_after None))) = Some u' \<and>
     u_tx u' = ''0xt2'' \<and>
     {\<lparr>p_id = ''a'', p_hash = ''0xAA'', p_created = 0\<rparr>} \<subseteq>
       set (pending (map p_id (u_batch u'))
         (snd (run_commit_batch demo_hash demo_env (demo_tick ''0xt2'' None) (demo_after None))))"
  using commit_second_timeout_forgets [OF demo_hash_lower demo_after_reach, of None _ "''0xreg''" "demo_tick ''0xt2'' None" "''0xt2''",
      OF conjunct1 [OF demo_held] _ _ _ _ _ _ _ _ refl] demo_held
  by (auto simp: demo_env_def demo_tick_def require_commit_env_def batch_ready_def unconfirmed_max_age_ms_def)

lemma demo_second_sent:
  "sent (snd (run_commit_batch demo_hash demo_env (demo_tick ''0xt2'' None) (demo_after None))) =
     sent (demo_after None) @ [(''0xt2'', [''b''])]"
  by (simp add: demo_commit_defs Let_def unconfirmed_action_of_def unconfirmed_max_age_ms_def)

theorem commit_held_excluded_witness:
  "set [''b''] \<inter> p_id ` {\<lparr>p_id = ''a'', p_hash = ''0xAA'', p_created = 0\<rparr>} = {}"
  using commit_held_excluded [OF conjunct1 [OF demo_held] _ _ demo_second_sent]
  by (simp add: demo_tick_def unconfirmed_max_age_ms_def)
end
