(* ===== verification/Artifacts.thy ===== *)
theory Artifacts
  imports CommitJob
begin

text \<open>
  The artifact half of \<open>apps/worker/src/commit\<close>: the frozen-artifact hashes of
  \<open>artifacts.ts\<close> and the two jobs of \<open>job.ts\<close> that post them,
  \<open>ensureArtifactsCommitted\<close> (once) and \<open>recommitArtifacts\<close> (whatever changed
  since).  Reading a file and keccak256 are parameters.  Posting one artifact is
  \<open>post label\<close>: the transaction hash and its receipt, or \<open>None\<close> when sending or
  waiting throws.
\<close>


section \<open>Hashes\<close>

datatype artifact = Weights | WeightsV01 | FeatureCode | OutcomeRule | ForecasterMappings | ScorerCode

definition scorer_code_files :: "string list" where
  "scorer_code_files = [''packages/scoring/src/metrics.ts'', ''packages/scoring/src/delong.ts'',
     ''packages/scoring/src/scorer.ts'', ''packages/scoring/src/base-rate.ts'',
     ''packages/scoring/src/mappings.ts'', ''packages/scoring/src/types.ts'']"

definition feature_code_files :: "string list" where
  "feature_code_files = [''apps/worker/src/watcher/features.ts'', ''apps/worker/src/watcher/cluster.ts'',
     ''apps/worker/src/watcher/creator.ts'', ''apps/worker/src/watcher/holders.ts'',
     ''apps/worker/src/watcher/feature9.ts'', ''apps/worker/src/watcher/sellimpact.ts'',
     ''apps/worker/src/watcher/classify.ts'', ''apps/worker/src/watcher/freshness.ts'',
     ''apps/worker/src/watcher/hooks.ts'', ''apps/worker/src/watcher/primary-pool.ts'',
     ''apps/worker/src/watcher/erc20.ts'', ''packages/chain/src/v4-hooks.ts'',
     ''apps/worker/src/scanners/goplus.ts'', ''apps/worker/src/scanners/scanhood.ts'',
     ''packages/chain/src/uniswap.ts'', ''packages/scoring/src/inputs.ts'',
     ''packages/scoring/src/det.ts'', ''packages/scoring/src/heuristic.ts'']"

definition hash_file :: "(string \<Rightarrow> hex) \<Rightarrow> (string \<Rightarrow> string) \<Rightarrow> string \<Rightarrow> hex" where
  "hash_file keccak read rel = keccak (read rel)"

fun join_lines :: "string list \<Rightarrow> string" where
  "join_lines [] = []"
| "join_lines [x] = x"
| "join_lines (x # xs) = x @ [CHR 0x0A] @ join_lines xs"

definition hash_file_set :: "(string \<Rightarrow> hex) \<Rightarrow> (string \<Rightarrow> string) \<Rightarrow> string list \<Rightarrow> hex" where
  "hash_file_set keccak read files =
     keccak (join_lines (map (\<lambda>f. hash_file keccak read f @ ''  '' @ f) (sort files)))"

text \<open>The object literal of \<open>computeArtifactHashes\<close>, as the entries \<open>Object.entries\<close> gives.\<close>

definition compute_artifact_hashes ::
    "(string \<Rightarrow> hex) \<Rightarrow> (string \<Rightarrow> string) \<Rightarrow> (artifact \<times> hex) list" where
  "compute_artifact_hashes keccak read =
     [(Weights, hash_file keccak read ''packages/scoring/weights/det_v0.json''),
      (WeightsV01, hash_file keccak read ''packages/scoring/weights/det_v0_1.json''),
      (FeatureCode, hash_file_set keccak read feature_code_files),
      (OutcomeRule, hash_file keccak read ''packages/scoring/OUTCOME_RULES_v1.md''),
      (ForecasterMappings, hash_file keccak read ''packages/scoring/weights/forecaster_mappings_v0.json''),
      (ScorerCode, hash_file_set keccak read scorer_code_files)]"


section \<open>Posting\<close>

text \<open>An ARTIFACT row of the commit table; rows of the one-time job carry no label.\<close>

record artifact_row =
  ar_label :: "artifact option"
  ar_hash :: "hex option"
  ar_root :: hex
  ar_tx :: hex
  ar_weight :: "hex option"
  ar_feature :: "hex option"
  ar_outcome :: "hex option"
  ar_scorer :: "hex option"

type_synonym poster = "artifact \<Rightarrow> (hex \<times> chain_receipt) option"

definition first_run_row :: "artifact \<Rightarrow> hex \<Rightarrow> hex \<Rightarrow> artifact_row" where
  "first_run_row label hash tx =
     \<lparr>ar_label = None, ar_hash = None, ar_root = hash, ar_tx = tx,
      ar_weight = (if label = Weights then Some hash else None),
      ar_feature = (if label = FeatureCode then Some hash else None),
      ar_outcome = (if label \<noteq> Weights \<and> label \<noteq> FeatureCode then Some hash else None),
      ar_scorer = None\<rparr>"

text \<open>The loop of \<open>ensureArtifactsCommitted\<close>: a throw leaves the rows written before it.\<close>

fun ensure_loop :: "poster \<Rightarrow> (artifact \<times> hex) list \<Rightarrow> artifact_row list \<Rightarrow> (string + nat) \<times> artifact_row list" where
  "ensure_loop post [] rows = (Inr 0, rows)"
| "ensure_loop post ((label, hash) # items) rows =
     (case post label of
        None \<Rightarrow> (Inl ''commitArtifact failed'', rows)
      | Some (tx, receipt) \<Rightarrow>
          (case ensure_loop post items (rows @ [first_run_row label hash tx]) of
             (Inl e, rows') \<Rightarrow> (Inl e, rows')
           | (Inr n, rows') \<Rightarrow> (Inr (Suc n), rows')))"

definition ensure_artifacts_committed ::
    "commit_env \<Rightarrow> poster \<Rightarrow> (artifact \<times> hex) list \<Rightarrow> artifact_row list \<Rightarrow>
     (string + nat) \<times> artifact_row list" where
  "ensure_artifacts_committed env post hashes rows =
     (case require_commit_env env of
        Inl _ \<Rightarrow> (Inr 0, rows)
      | Inr _ \<Rightarrow>
          if rows \<noteq> [] then (Inr 0, rows)
          else ensure_loop post
                 (map (\<lambda>l. (l, the (map_of hashes l))) [Weights, FeatureCode, OutcomeRule]) rows)"

text \<open>What was last committed under each label.\<close>

definition note_row :: "artifact_row \<Rightarrow> (artifact \<rightharpoonup> hex) \<Rightarrow> (artifact \<rightharpoonup> hex)" where
  "note_row r prev =
     (case ar_label r of
        Some l \<Rightarrow> prev(l \<mapsto> lower (nullish (ar_hash r) (ar_root r)))
      | None \<Rightarrow>
          (let set_if = (\<lambda>l h m. case h of None \<Rightarrow> m | Some v \<Rightarrow> m(l \<mapsto> lower v))
           in set_if ScorerCode (ar_scorer r) (set_if OutcomeRule (ar_outcome r)
                (set_if FeatureCode (ar_feature r) (set_if Weights (ar_weight r) prev)))))"

definition last_committed :: "artifact_row list \<Rightarrow> (artifact \<rightharpoonup> hex)" where
  "last_committed rows = fold note_row rows Map.empty"

definition recommit_row :: "artifact \<Rightarrow> hex \<Rightarrow> hex \<Rightarrow> artifact_row" where
  "recommit_row label hash tx =
     \<lparr>ar_label = Some label, ar_hash = Some hash, ar_root = hash, ar_tx = tx,
      ar_weight = (if label = Weights then Some hash else None),
      ar_feature = (if label = FeatureCode then Some hash else None),
      ar_outcome = (if label = OutcomeRule then Some hash else None),
      ar_scorer = (if label = ScorerCode then Some hash else None)\<rparr>"

record recommit_run =
  rr_committed :: "artifact list"
  rr_skipped :: "artifact list"
  rr_error :: "string option"
  rr_rows :: "artifact_row list"

fun recommit_loop ::
    "bool \<Rightarrow> poster \<Rightarrow> (artifact \<rightharpoonup> hex) \<Rightarrow> (artifact \<times> hex) list \<Rightarrow> recommit_run \<Rightarrow> recommit_run" where
  "recommit_loop force post prev [] run = run"
| "recommit_loop force post prev ((label, hash) # items) run =
     (if \<not> force \<and> prev label = Some (lower hash)
      then recommit_loop force post prev items (run\<lparr>rr_skipped := rr_skipped run @ [label]\<rparr>)
      else case post label of
        None \<Rightarrow> run\<lparr>rr_error := Some ''commitArtifact failed''\<rparr>
      | Some (tx, receipt) \<Rightarrow>
          recommit_loop force post prev items
            (run\<lparr>rr_committed := rr_committed run @ [label],
                 rr_rows := rr_rows run @ [recommit_row label hash tx]\<rparr>))"

definition recommit_artifacts ::
    "commit_env \<Rightarrow> bool \<Rightarrow> poster \<Rightarrow> (artifact \<times> hex) list \<Rightarrow> artifact_row list \<Rightarrow> recommit_run" where
  "recommit_artifacts env force post hashes rows =
     (let start = \<lparr>rr_committed = [], rr_skipped = [], rr_error = None, rr_rows = rows\<rparr> in
      case require_commit_env env of
        Inl _ \<Rightarrow> start
      | Inr _ \<Rightarrow> recommit_loop force post (last_committed rows) hashes start)"


section \<open>Lemmas\<close>

lemma mset_eq_perm_sort: "mset fs = mset gs \<Longrightarrow> sort fs = sort (gs :: string list)"
  by (rule properties_for_sort) (simp_all)

lemma hash_file_set_order:
  "mset fs = mset gs \<Longrightarrow> hash_file_set k read fs = hash_file_set k read gs"
  using mset_eq_perm_sort [of fs gs] by (simp only: hash_file_set_def)

lemma last_committed_snoc [simp]: "last_committed (rows @ [r]) = note_row r (last_committed rows)"
  by (simp add: last_committed_def)

lemma note_recommit_row [simp]: "note_row (recommit_row l h tx) m = m(l \<mapsto> lower h)"
  by (simp add: note_row_def recommit_row_def)

text \<open>After a loop without error every label's last hash is the current one.\<close>

lemma recommit_loop_settles:
  "distinct (map fst items) \<Longrightarrow> rr_error (recommit_loop force post prev items run) = None \<Longrightarrow>
   \<forall>l \<in> fst ` set items. last_committed (rr_rows run) l = prev l \<Longrightarrow>
   (\<forall>(l, h) \<in> set items. last_committed (rr_rows (recommit_loop force post prev items run)) l = Some (lower h)) \<and>
   (\<forall>l. l \<notin> fst ` set items \<longrightarrow>
      last_committed (rr_rows (recommit_loop force post prev items run)) l = last_committed (rr_rows run) l)"
proof (induction force post prev items run rule: recommit_loop.induct)
  case (2 force post prev label hash items run)
  show ?case
  proof (cases "\<not> force \<and> prev label = Some (lower hash)")
    case True
    have "label \<notin> fst ` set items" using 2(3) by (auto simp: image_iff)
    then show ?thesis using 2(1) [OF True] 2(3-5) True by (auto simp: image_iff)
  next
    case False
    then obtain tx receipt where post: "post label = Some (tx, receipt)"
      using 2(4) by (auto split: option.splits)
    have "label \<notin> fst ` set items" using 2(3) by (auto simp: image_iff)
    then show ?thesis using 2(2) [OF False post refl] 2(3-5) False post by (fastforce simp: image_iff)
  qed
qed simp

lemma recommit_loop_all_skipped:
  "\<forall>(l, h) \<in> set items. prev l = Some (lower h) \<Longrightarrow>
   recommit_loop False post prev items run = run\<lparr>rr_skipped := rr_skipped run @ map fst items\<rparr>"
  by (induction items arbitrary: run) auto


section \<open>Properties\<close>

text \<open>
  re-committing is idempotent. After a run of \<open>recommitArtifacts\<close> that did not
  throw, a second run over the same files posts nothing and skips every label,
  whatever rows were in the table before.
\<close>

theorem recommit_idempotent:
  assumes "require_commit_env env = Inr registry" and "distinct (map fst hashes)"
    and "rr_error (recommit_artifacts env force post hashes rows) = None"
  shows "recommit_artifacts env False post' hashes (rr_rows (recommit_artifacts env force post hashes rows)) =
    \<lparr>rr_committed = [], rr_skipped = map fst hashes, rr_error = None,
     rr_rows = rr_rows (recommit_artifacts env force post hashes rows)\<rparr>"
proof -
  let ?start = "\<lparr>rr_committed = [], rr_skipped = [], rr_error = None, rr_rows = rows\<rparr>"
  let ?r1 = "recommit_loop force post (last_committed rows) hashes ?start"
  have run1: "recommit_artifacts env force post hashes rows = ?r1"
    using assms(1) by (simp add: recommit_artifacts_def)
  have "\<forall>(l, h) \<in> set hashes. last_committed (rr_rows ?r1) l = Some (lower h)"
    using recommit_loop_settles [OF assms(2), of force post "last_committed rows" ?start] assms(3)
    by (simp add: run1)
  then show ?thesis
    unfolding run1 using assms(1) by (simp add: recommit_artifacts_def recommit_loop_all_skipped)
qed

definition demo_post :: poster where
  "demo_post l = Some (''0xt'', demo_receipt)"

theorem recommit_idempotent_witness:
  "rr_committed (recommit_artifacts demo_env False demo_post [(Weights, ''0xAB''), (ScorerCode, ''0xcd'')]
     (rr_rows (recommit_artifacts demo_env False demo_post [(Weights, ''0xAB''), (ScorerCode, ''0xcd'')] []))) = []"
  using recommit_idempotent [of demo_env "''0xreg''" "[(Weights, ''0xAB''), (ScorerCode, ''0xcd'')]" False demo_post "[]" demo_post]
  by (simp add: demo_env_def require_commit_env_def recommit_artifacts_def demo_post_def last_committed_def)

text \<open>
  a reverted transaction still counts as a commit. The artifact jobs wait for
  the receipt but never read its status: a posting whose receipt says the
  transaction failed is recorded like any other, and the next run skips the label.
\<close>

theorem recommit_records_reverted:
  assumes "require_commit_env env = Inr registry" and "post label = Some (tx, receipt)"
    and "\<not> cr_success receipt"
  shows "rr_rows (recommit_artifacts env True post [(label, hash)] rows) = rows @ [recommit_row label hash tx] \<and>
    rr_skipped (recommit_artifacts env False post [(label, hash)] (rows @ [recommit_row label hash tx])) = [label]"
  using assms(1,2) by (simp add: recommit_artifacts_def)

theorem recommit_records_reverted_witness:
  "rr_rows (recommit_artifacts demo_env True (\<lambda>_. Some (''0xt'', demo_receipt\<lparr>cr_success := False\<rparr>)) [(Weights, ''0xab'')] []) =
     [recommit_row Weights ''0xab'' ''0xt'']"
  using recommit_records_reverted [of demo_env "''0xreg''" "\<lambda>_. Some (''0xt'', demo_receipt\<lparr>cr_success := False\<rparr>)" Weights
      "''0xt''" "demo_receipt\<lparr>cr_success := False\<rparr>" "''0xab''" "[]"]
  by (simp add: demo_env_def require_commit_env_def)

text \<open>
  the one-time job does not resume. If posting the second artifact throws on the
  first run, one row exists, and every later run of \<open>ensureArtifactsCommitted\<close> sees
  it and posts nothing: the remaining artifacts are never committed by it.
\<close>

theorem ensure_never_resumes:
  assumes "require_commit_env env = Inr registry" and "post Weights = Some (tx, receipt)"
    and "post FeatureCode = None" and "map_of hashes Weights = Some h"
  shows "ensure_artifacts_committed env post hashes [] =
      (Inl ''commitArtifact failed'', [first_run_row Weights h tx]) \<and>
    ensure_artifacts_committed env post' hashes [first_run_row Weights h tx] = (Inr 0, [first_run_row Weights h tx])"
  using assms by (simp add: ensure_artifacts_committed_def)

theorem ensure_never_resumes_witness:
  "snd (ensure_artifacts_committed demo_env demo_post [(Weights, ''0xab''), (FeatureCode, ''0xcd''), (OutcomeRule, ''0xef'')]
     [first_run_row Weights ''0xab'' ''0xt'']) = [first_run_row Weights ''0xab'' ''0xt'']"
  using ensure_never_resumes [of demo_env "''0xreg''" "\<lambda>l. if l = Weights then Some (''0xt'', demo_receipt) else None" "''0xt''"
      demo_receipt "[(Weights, ''0xab''), (FeatureCode, ''0xcd''), (OutcomeRule, ''0xef'')]" "''0xab''" demo_post]
  by (simp add: demo_env_def require_commit_env_def)

end
