(* ===== verification/ChainLib.thy ===== *)
theory ChainLib
  imports Prelude "HOL-Library.Word"
begin

unbundle bit_operations_syntax

text \<open>
  \<open>packages/chain/src\<close>: chunked log scans (\<open>logs.ts\<close>), launchpad attribution and the
  per-chain configuration (\<open>launchpads.ts\<close>, \<open>chain-config.ts\<close>), the permission bits
  of a Uniswap v4 hook address (\<open>v4-hooks.ts\<close>) and the pool-event decoders and
  prices (\<open>uniswap.ts\<close>, \<open>uniswap-events.ts\<close>).  The RPC node and viem's ABI decoder
  are parameters.
\<close>


section \<open>Chunked log scans\<close>

record rpc_log =
  l_address :: address
  l_topics :: "string list"
  l_data :: string
  l_block :: "int option"
  l_index :: "int option"
  l_tx :: "string option"

type_synonym log_request = "int \<Rightarrow> int \<Rightarrow> string + rpc_log list"

text \<open>The windows the \<open>for\<close> loop asks for; \<open>step >= 1\<close> is checked before the loop.\<close>

function chunk_windows :: "int \<Rightarrow> int \<Rightarrow> int \<Rightarrow> (int \<times> int) list" where
  "chunk_windows step start to_block =
     (if start \<le> to_block \<and> 1 \<le> step
      then (start, if start + step - 1 < to_block then start + step - 1 else to_block)
           # chunk_windows step (start + step) to_block
      else [])"
  by pat_completeness auto
termination by (relation "measure (\<lambda>(step, start, to_block). nat (to_block - start + 1))") auto

declare chunk_windows.simps [simp del]

fun request_all :: "log_request \<Rightarrow> (int \<times> int) list \<Rightarrow> string + rpc_log list" where
  "request_all req [] = Inr []"
| "request_all req ((a, b) # ws) =
     (case req a b of
        Inl e \<Rightarrow> Inl e
      | Inr batch \<Rightarrow> (case request_all req ws of Inl e \<Rightarrow> Inl e | Inr rest \<Rightarrow> Inr (batch @ rest)))"

definition get_logs_chunked :: "log_request \<Rightarrow> int \<Rightarrow> int \<Rightarrow> int \<Rightarrow> string + rpc_log list" where
  "get_logs_chunked req from_block to_block max_range =
     (if max_range < 1 then Inl ''maxRange must be >= 1''
      else request_all req (chunk_windows max_range from_block to_block))"

text \<open>\<open>values.slice(i, i + cap)\<close> batches; a cap below one never advances and is excluded.\<close>

function slices :: "nat \<Rightarrow> 'a list \<Rightarrow> 'a list list" where
  "slices cap xs = (if xs = [] \<or> cap = 0 then [] else take cap xs # slices cap (drop cap xs))"
  by pat_completeness auto
termination by (relation "measure (\<lambda>(cap, xs). length xs)") auto

declare slices.simps [simp del]

datatype log_key = ByIndex int int | ByTx int string nat

text \<open>The de-duplication key; \<open>n\<close> is how many logs have been kept so far.\<close>

definition log_key_of :: "nat \<Rightarrow> rpc_log \<Rightarrow> log_key" where
  "log_key_of n l =
     (let bn = nullish (l_block l) 0; li = nullish (l_index l) (- 1)
      in if li \<ge> 0 then ByIndex bn li else ByTx bn (nullish (l_tx l) '''') n)"

fun dedup_logs :: "rpc_log list \<Rightarrow> log_key list \<Rightarrow> rpc_log list \<Rightarrow> log_key list \<times> rpc_log list" where
  "dedup_logs [] seen out = (seen, out)"
| "dedup_logs (l # ls) seen out =
     (let k = log_key_of (length out) l
      in if k \<in> set seen then dedup_logs ls seen out
         else dedup_logs ls (k # seen) (out @ [l]))"

definition log_order :: "rpc_log \<Rightarrow> int \<times> int" where
  "log_order l = (nullish (l_block l) 0, nullish (l_index l) 0)"

definition log_le :: "rpc_log \<Rightarrow> rpc_log \<Rightarrow> bool" where
  "log_le a b \<longleftrightarrow> fst (log_order a) < fst (log_order b) \<or>
     (fst (log_order a) = fst (log_order b) \<and> snd (log_order a) \<le> snd (log_order b))"

text \<open>\<open>Array.prototype.sort\<close> is stable: insertion from the right.\<close>

definition sort_logs :: "rpc_log list \<Rightarrow> rpc_log list" where
  "sort_logs ls = sort_key (\<lambda>l. fst (log_order l)) (sort_key (\<lambda>l. snd (log_order l)) ls)"

fun scan_batches ::
    "('v list \<Rightarrow> log_request) \<Rightarrow> int \<Rightarrow> int \<Rightarrow> int \<Rightarrow> 'v list list \<Rightarrow> log_key list \<Rightarrow> rpc_log list \<Rightarrow>
     string + rpc_log list" where
  "scan_batches req f t m [] seen out = Inr out"
| "scan_batches req f t m (b # bs) seen out =
     (case get_logs_chunked (req b) f t m of
        Inl e \<Rightarrow> Inl e
      | Inr logs \<Rightarrow> (case dedup_logs logs seen out of (seen', out') \<Rightarrow> scan_batches req f t m bs seen' out'))"

definition get_logs_by_topic_values ::
    "('v list \<Rightarrow> log_request) \<Rightarrow> 'v list \<Rightarrow> int \<Rightarrow> int \<Rightarrow> int \<Rightarrow> nat option \<Rightarrow> string + rpc_log list" where
  "get_logs_by_topic_values req vals f t m cap =
     (case scan_batches req f t m (slices (nullish cap 4) vals) [] [] of
        Inl e \<Rightarrow> Inl e | Inr out \<Rightarrow> Inr (sort_logs out))"


section \<open>Chain configuration\<close>

record launchpad =
  lp_key :: string
  lp_locked :: bool
  lp_factories :: "address list"
  lp_candidates :: "address list"
  lp_verified :: bool

record chain_config =
  cc_get_logs_max_range :: int
  cc_v2_factory :: address
  cc_v3_factory :: address
  cc_v3_alternates :: "address list"
  cc_v4_pool_manager :: address
  cc_launchpads :: "launchpad list"

type_synonym chain_configs = "nat \<rightharpoonup> chain_config"

definition get_chain_config :: "chain_configs \<Rightarrow> nat \<Rightarrow> string + chain_config" where
  "get_chain_config cfgs chain_id =
     (case cfgs chain_id of None \<Rightarrow> Inl ''no chain config for chainId'' | Some c \<Rightarrow> Inr c)"

text \<open>\<open>None\<close> stands for a value that is not finite.\<close>

definition set_get_logs_max_range :: "real option \<Rightarrow> int option \<Rightarrow> int option" where
  "set_get_logs_max_range blocks override =
     (case blocks of Some b \<Rightarrow> if b \<ge> 1 then Some \<lfloor>b\<rfloor> else override | None \<Rightarrow> override)"

definition get_get_logs_max_range :: "chain_configs \<Rightarrow> nat \<Rightarrow> int option \<Rightarrow> string + int" where
  "get_get_logs_max_range cfgs chain_id override =
     (case override of Some n \<Rightarrow> Inr n
      | None \<Rightarrow> map_sum id cc_get_logs_max_range (get_chain_config cfgs chain_id))"

record pool_sources =
  ps_v2 :: address
  ps_v3 :: "address list"
  ps_v4 :: address

definition pool_creation_sources :: "chain_config \<Rightarrow> pool_sources" where
  "pool_creation_sources c =
     \<lparr>ps_v2 = lower (cc_v2_factory c),
      ps_v3 = map lower (cc_v3_factory c # cc_v3_alternates c),
      ps_v4 = lower (cc_v4_pool_manager c)\<rparr>"


section \<open>Launchpad attribution\<close>

type_synonym lp_index = "address \<rightharpoonup> launchpad \<times> bool"

definition index_launchpad :: "launchpad \<Rightarrow> lp_index \<Rightarrow> lp_index" where
  "index_launchpad lp idx0 =
     (let idx1 = fold (\<lambda>f m. m(lower f \<mapsto> (lp, False))) (lp_factories lp) idx0
      in fold (\<lambda>f m. if m (lower f) = None then m(lower f \<mapsto> (lp, True)) else m) (lp_candidates lp) idx1)"

definition build_launchpad_index :: "launchpad list \<Rightarrow> lp_index" where
  "build_launchpad_index lps = fold index_launchpad lps Map.empty"

record attribution =
  at_source :: string
  at_confidence :: real
  at_lp_locked :: bool
  at_matched :: "address option"
  at_via_candidate :: bool

definition raw_attribution :: attribution where
  "raw_attribution = \<lparr>at_source = ''raw'', at_confidence = 1 / 2, at_lp_locked = False,
     at_matched = None, at_via_candidate = False\<rparr>"

definition confirmed_attribution :: "launchpad \<Rightarrow> address \<Rightarrow> attribution" where
  "confirmed_attribution lp a = \<lparr>at_source = lp_key lp,
     at_confidence = (if lp_verified lp then 95 / 100 else 80 / 100),
     at_lp_locked = lp_locked lp, at_matched = Some (lower a), at_via_candidate = False\<rparr>"

definition candidate_attribution :: "launchpad \<Rightarrow> address \<Rightarrow> attribution" where
  "candidate_attribution lp a = \<lparr>at_source = lp_key lp, at_confidence = 1 / 2,
     at_lp_locked = lp_locked lp, at_matched = Some (lower a), at_via_candidate = True\<rparr>"

fun attribute_loop :: "lp_index \<Rightarrow> address list \<Rightarrow> attribution option \<Rightarrow> attribution" where
  "attribute_loop idx [] cand = nullish cand raw_attribution"
| "attribute_loop idx (a # as) cand =
     (case idx (lower a) of
        None \<Rightarrow> attribute_loop idx as cand
      | Some (lp, False) \<Rightarrow> confirmed_attribution lp a
      | Some (lp, True) \<Rightarrow>
          attribute_loop idx as (case cand of None \<Rightarrow> Some (candidate_attribution lp a) | Some c \<Rightarrow> Some c))"

definition attribute_source :: "launchpad list \<Rightarrow> address list \<Rightarrow> attribution" where
  "attribute_source lps touched = attribute_loop (build_launchpad_index lps) touched None"


section \<open>Hook permissions\<close>

datatype hook_flag =
    BeforeInitialize | AfterInitialize | BeforeAddLiquidity | AfterAddLiquidity
  | BeforeRemoveLiquidity | AfterRemoveLiquidity | BeforeSwap | AfterSwap
  | BeforeDonate | AfterDonate | BeforeSwapReturnsDelta | AfterSwapReturnsDelta
  | AfterAddLiquidityReturnsDelta | AfterRemoveLiquidityReturnsDelta

fun flag_bit :: "hook_flag \<Rightarrow> nat" where
  "flag_bit BeforeInitialize = 13"
| "flag_bit AfterInitialize = 12"
| "flag_bit BeforeAddLiquidity = 11"
| "flag_bit AfterAddLiquidity = 10"
| "flag_bit BeforeRemoveLiquidity = 9"
| "flag_bit AfterRemoveLiquidity = 8"
| "flag_bit BeforeSwap = 7"
| "flag_bit AfterSwap = 6"
| "flag_bit BeforeDonate = 5"
| "flag_bit AfterDonate = 4"
| "flag_bit BeforeSwapReturnsDelta = 3"
| "flag_bit AfterSwapReturnsDelta = 2"
| "flag_bit AfterAddLiquidityReturnsDelta = 1"
| "flag_bit AfterRemoveLiquidityReturnsDelta = 0"

definition hook_mask :: int where "hook_mask = 0x3fff"

definition zero_address :: address where
  "zero_address = ''0x'' @ replicate 40 CHR ''0''"

definition is_zero_address :: "address option \<Rightarrow> bool" where
  "is_zero_address a = (case a of None \<Rightarrow> True | Some s \<Rightarrow> s = [] \<or> lower s = zero_address)"

text \<open>\<open>BigInt(h)\<close> of a well-formed hex string.\<close>

definition hex_val :: "char \<Rightarrow> int" where
  "hex_val c = (let n = of_char (lower_char c) :: int in if n \<ge> 97 then n - 87 else n - 48)"

definition parse_hex :: "string \<Rightarrow> int" where
  "parse_hex s = foldl (\<lambda>acc c. acc * 16 + hex_val c) 0 (drop 2 s)"

record hook_permissions =
  hp_has_hook :: bool
  hp_flags :: int
  hp_enabled :: "hook_flag \<Rightarrow> bool"

definition decode_hook_permissions :: "address option \<Rightarrow> hook_permissions" where
  "decode_hook_permissions a =
     (if is_zero_address a then \<lparr>hp_has_hook = False, hp_flags = 0, hp_enabled = (\<lambda>_. False)\<rparr>
      else let flags = parse_hex (the a) AND hook_mask
           in \<lparr>hp_has_hook = True, hp_flags = flags,
               hp_enabled = (\<lambda>f. flags AND push_bit (flag_bit f) 1 \<noteq> 0)\<rparr>)"

record hook_risk =
  hr_can_block_swap :: bool
  hr_can_tax_swap :: bool
  hr_gates_lp_removal :: bool

definition hook_risk_of :: "hook_permissions \<Rightarrow> hook_risk" where
  "hook_risk_of p =
     \<lparr>hr_can_block_swap = hp_enabled p BeforeSwap,
      hr_can_tax_swap = (hp_enabled p BeforeSwapReturnsDelta \<or> hp_enabled p AfterSwapReturnsDelta),
      hr_gates_lp_removal = hp_enabled p BeforeRemoveLiquidity\<rparr>"


section \<open>Pool events and prices\<close>

text \<open>
  The ABI decoder is a parameter: it gives the named event's arguments for a log,
  \<open>None\<close> when it throws; the three \<open>topic0\<close> selectors are parameters too.
\<close>

datatype pool_kind = V2 | V3 | V4

record pool_args =
  pa_token0 :: address
  pa_token1 :: address
  pa_pool :: address          \<comment> \<open>\<open>pair\<close> or \<open>pool\<close>\<close>
  pa_id :: string
  pa_fee :: int
  pa_tick_spacing :: int
  pa_hooks :: address

record pool_creation =
  pc_kind :: pool_kind
  pc_token0 :: address
  pc_token1 :: address
  pc_pool_address :: "address option"
  pc_pool_id :: "string option"
  pc_fee :: "int option"
  pc_tick_spacing :: "int option"
  pc_hooks :: "address option"

definition pool_of_args :: "pool_kind \<Rightarrow> pool_args \<Rightarrow> pool_creation" where
  "pool_of_args k a =
     \<lparr>pc_kind = k, pc_token0 = pa_token0 a, pc_token1 = pa_token1 a,
      pc_pool_address = (if k = V4 then None else Some (pa_pool a)),
      pc_pool_id = (if k = V4 then Some (pa_id a) else None),
      pc_fee = (if k = V2 then None else Some (pa_fee a)),
      pc_tick_spacing = (if k = V2 then None else Some (pa_tick_spacing a)),
      pc_hooks = (if k = V4 then Some (pa_hooks a) else None)\<rparr>"

text \<open>\<open>Inl\<close>: the decoder threw; \<open>Inr None\<close>: not a pool-creation event.\<close>

definition decode_pool_creation ::
    "(pool_kind \<Rightarrow> string) \<Rightarrow> (pool_kind \<Rightarrow> rpc_log \<Rightarrow> pool_args option) \<Rightarrow> rpc_log \<Rightarrow>
     string + pool_creation option" where
  "decode_pool_creation topic0 dec l =
     (case l_topics l of
        [] \<Rightarrow> Inr None
      | t # _ \<Rightarrow>
          (let try_kind = (\<lambda>k. case dec k l of None \<Rightarrow> Inl ''decodeEventLog'' | Some a \<Rightarrow> Inr (Some (pool_of_args k a)))
           in if t = [] then Inr None
              else if lower t = lower (topic0 V4) then try_kind V4
              else if lower t = lower (topic0 V3) then try_kind V3
              else if lower t = lower (topic0 V2) then try_kind V2
              else Inr None))"

definition log_block :: "rpc_log \<Rightarrow> int" where
  "log_block l = nullish (l_block l) 0"

record swap_args =
  sa_sqrt :: int
  sa_liquidity :: int
  sa_amount0 :: int
  sa_amount1 :: int

record swap_observation =
  so_block :: int
  so_tx :: "string option"
  so_sqrt :: "int option"
  so_liquidity :: "int option"
  so_amount0 :: int
  so_amount1 :: int

text \<open>\<open>decodeV4Swap\<close> and \<open>decodeV3Swap\<close> differ in the selector and the ABI item only.\<close>

definition decode_swap ::
    "string \<Rightarrow> (rpc_log \<Rightarrow> swap_args option) \<Rightarrow> rpc_log \<Rightarrow> string + swap_observation option" where
  "decode_swap topic dec l =
     (if l_topics l = [] \<or> lower (hd (l_topics l)) \<noteq> lower topic then Inr None
      else case dec l of None \<Rightarrow> Inl ''decodeEventLog''
         | Some a \<Rightarrow> Inr (Some \<lparr>so_block = log_block l, so_tx = l_tx l, so_sqrt = Some (sa_sqrt a),
              so_liquidity = Some (sa_liquidity a), so_amount0 = sa_amount0 a, so_amount1 = sa_amount1 a\<rparr>))"

record liquidity_delta =
  ld_block :: int
  ld_tx :: "string option"
  ld_delta :: int

definition decode_v4_modify_liquidity ::
    "string \<Rightarrow> (rpc_log \<Rightarrow> int option) \<Rightarrow> rpc_log \<Rightarrow> string + liquidity_delta option" where
  "decode_v4_modify_liquidity topic dec l =
     (if l_topics l = [] \<or> lower (hd (l_topics l)) \<noteq> lower topic then Inr None
      else case dec l of None \<Rightarrow> Inl ''decodeEventLog''
         | Some d \<Rightarrow> Inr (Some \<lparr>ld_block = log_block l, ld_tx = l_tx l, ld_delta = d\<rparr>))"

record sync_observation =
  sy_block :: int
  sy_tx :: "string option"
  sy_reserve0 :: int
  sy_reserve1 :: int

definition decode_v2_sync ::
    "string \<Rightarrow> (rpc_log \<Rightarrow> (int \<times> int) option) \<Rightarrow> rpc_log \<Rightarrow> string + sync_observation option" where
  "decode_v2_sync topic dec l =
     (if l_topics l = [] \<or> lower (hd (l_topics l)) \<noteq> lower topic then Inr None
      else case dec l of None \<Rightarrow> Inl ''decodeEventLog''
         | Some (r0, r1) \<Rightarrow> Inr (Some \<lparr>sy_block = log_block l, sy_tx = l_tx l,
              sy_reserve0 = r0, sy_reserve1 = r1\<rparr>))"

definition q96 :: int where "q96 = 2 ^ 96"

definition sqrt_price_to_price0in1 :: "int \<Rightarrow> real" where
  "sqrt_price_to_price0in1 p =
     (if p \<le> 0 then 0 else of_int (p * p * 10 ^ 18 div (q96 * q96)) / 10 ^ 18)"

definition token_price_in_quote :: "int \<Rightarrow> bool \<Rightarrow> real" where
  "token_price_in_quote p token_is_currency0 =
     (let p0 = sqrt_price_to_price0in1 p
      in if token_is_currency0 then p0 else if p0 > 0 then 1 / p0 else 0)"


section \<open>Lemmas\<close>

lemma chunk_windows_step:
  "start \<le> t \<Longrightarrow> 1 \<le> step \<Longrightarrow>
   chunk_windows step start t = (start, min (start + step - 1) t) # chunk_windows step (start + step) t"
  by (subst chunk_windows.simps) (auto simp: min_def)

lemma chunk_windows_stop: "\<not> (start \<le> t \<and> 1 \<le> step) \<Longrightarrow> chunk_windows step start t = []"
  by (subst chunk_windows.simps) auto

lemma chunk_windows_bounds:
  "1 \<le> step \<Longrightarrow> (a, b) \<in> set (chunk_windows step start t) \<Longrightarrow>
   start \<le> a \<and> a \<le> b \<and> b \<le> t \<and> b - a + 1 \<le> step"
proof (induction step start t rule: chunk_windows.induct)
  case (1 step start t)
  show ?case
  proof (cases "start \<le> t")
    case True
    then show ?thesis using 1 by (auto simp: chunk_windows_step)
  qed (use 1 in \<open>simp add: chunk_windows_stop\<close>)
qed

text \<open>An honest node answers a range with the part of the chain's log that lies in it.\<close>

definition in_range :: "int \<Rightarrow> int \<Rightarrow> rpc_log \<Rightarrow> bool" where
  "in_range a b l \<longleftrightarrow> a \<le> log_block l \<and> log_block l \<le> b"

definition honest_node :: "rpc_log list \<Rightarrow> log_request \<Rightarrow> bool" where
  "honest_node chain req \<longleftrightarrow> (\<forall>a b. req a b = Inr (filter (in_range a b) chain))"

lemma filter_range_split:
  "sorted (map log_block chain) \<Longrightarrow> a \<le> m + 1 \<Longrightarrow> m \<le> b \<Longrightarrow>
   filter (in_range a m) chain @ filter (in_range (m + 1) b) chain = filter (in_range a b) chain"
proof (induction chain)
  case (Cons l ls)
  show ?case
  proof (cases "log_block l \<le> m")
    case True
    then show ?thesis using Cons by (auto simp: in_range_def)
  next
    case False
    then have "filter (in_range a m) (l # ls) = []"
      using Cons.prems by (auto simp: in_range_def filter_empty_conv)
    moreover have "filter (in_range (m + 1) b) (l # ls) = filter (in_range a b) (l # ls)"
      using Cons.prems False by (intro filter_cong) (auto simp: in_range_def)
    ultimately show ?thesis by simp
  qed
qed simp

lemma request_all_windows:
  assumes node: "honest_node chain req" and chain: "sorted (map log_block chain)" and step: "1 \<le> step"
  shows "request_all req (chunk_windows step start t) = Inr (filter (in_range start t) chain)"
proof (induction "nat (t - start + 1)" arbitrary: start rule: less_induct)
  case less
  show ?case
  proof (cases "start \<le> t")
    case False
    then show ?thesis by (auto simp: chunk_windows_stop in_range_def filter_empty_conv)
  next
    case True
    let ?m = "min (start + step - 1) t"
    have ih: "request_all req (chunk_windows step (start + step) t) =
        Inr (filter (in_range (start + step) t) chain)"
      using less step True by simp
    have "filter (in_range (start + step) t) chain = filter (in_range (?m + 1) t) chain"
      by (intro filter_cong) (auto simp: in_range_def min_def)
    then have "filter (in_range start ?m) chain @ filter (in_range (start + step) t) chain =
        filter (in_range start t) chain"
      using filter_range_split [OF chain, of start ?m t] True step by (simp add: min_def)
    then show ?thesis
      using node ih True step by (simp add: chunk_windows_step honest_node_def)
  qed
qed

lemma attribute_loop_confirmed:
  "attribute_loop idx touched cand = r \<Longrightarrow> \<not> at_via_candidate r \<Longrightarrow> r \<noteq> raw_attribution \<Longrightarrow>
   (\<forall>c. cand = Some c \<longrightarrow> at_via_candidate c) \<Longrightarrow>
   \<exists>a \<in> set touched. \<exists>lp. idx (lower a) = Some (lp, False) \<and> r = confirmed_attribution lp a"
proof (induction idx touched cand rule: attribute_loop.induct)
  case (1 idx cand)
  then show ?case by (cases cand) auto
next
  case (2 idx a as cand)
  show ?case
  proof (cases "idx (lower a)")
    case None
    then show ?thesis using 2(1) 2(3-6) by auto
  next
    case (Some x)
    then obtain lp c where x: "idx (lower a) = Some (lp, c)" by (cases x) auto
    show ?thesis
    proof (cases c)
      case True
      then show ?thesis using 2(2) [OF x [unfolded True]] 2(3-6) x
        by (auto simp: candidate_attribution_def split: option.splits)
    next
      case False
      then show ?thesis using x 2(3) by auto
    qed
  qed
qed

definition confirmed_at :: "lp_index \<Rightarrow> address \<Rightarrow> bool" where
  "confirmed_at idx a \<longleftrightarrow> (\<exists>lp. idx a = Some (lp, False))"

lemma index_candidates_keep:
  "confirmed_at idx a \<Longrightarrow>
   confirmed_at (fold (\<lambda>f m. if m (lower f) = None then m(lower f \<mapsto> (lp, True)) else m) cs idx) a"
proof (induction cs arbitrary: idx)
  case (Cons c cs)
  have "confirmed_at (if idx (lower c) = None then idx(lower c \<mapsto> (lp, True)) else idx) a"
    using Cons.prems by (auto simp: confirmed_at_def)
  from Cons.IH [OF this] show ?case by simp
qed simp

lemma index_factories_keep:
  "confirmed_at idx a \<or> a \<in> lower ` set fs \<Longrightarrow>
   confirmed_at (fold (\<lambda>f m. m(lower f \<mapsto> (lp, False))) fs idx) a"
  by (induction fs arbitrary: idx) (auto simp: confirmed_at_def)

lemma index_launchpad_keep: "confirmed_at idx a \<Longrightarrow> confirmed_at (index_launchpad lp idx) a"
  by (simp add: index_launchpad_def index_candidates_keep index_factories_keep)

lemma index_launchpad_new: "f \<in> set (lp_factories lp) \<Longrightarrow> confirmed_at (index_launchpad lp idx) (lower f)"
  by (simp add: index_launchpad_def index_candidates_keep index_factories_keep)

lemma build_index_confirmed:
  "lp \<in> set lps \<Longrightarrow> f \<in> set (lp_factories lp) \<Longrightarrow> confirmed_at (build_launchpad_index lps) (lower f)"
proof -
  have keep: "confirmed_at idx a \<Longrightarrow> confirmed_at (fold index_launchpad ls idx) a" for ls idx a
    by (induction ls arbitrary: idx) (auto intro: index_launchpad_keep)
  have "lp \<in> set ls \<Longrightarrow> f \<in> set (lp_factories lp) \<Longrightarrow> confirmed_at (fold index_launchpad ls idx) (lower f)" for ls idx
    by (induction ls arbitrary: idx) (auto intro: keep index_launchpad_new)
  then show "lp \<in> set lps \<Longrightarrow> f \<in> set (lp_factories lp) \<Longrightarrow> confirmed_at (build_launchpad_index lps) (lower f)"
    by (simp add: build_launchpad_index_def)
qed

lemma attribute_loop_first_confirmed:
  "a \<in> set touched \<Longrightarrow> confirmed_at idx (lower a) \<Longrightarrow>
   \<exists>b \<in> set touched. \<exists>lp. idx (lower b) = Some (lp, False) \<and>
     attribute_loop idx touched cand = confirmed_attribution lp b"
  by (induction idx touched cand rule: attribute_loop.induct)
    (fastforce simp: confirmed_at_def split: option.splits bool.splits)+

lemma price_scaled_bounds:
  assumes "0 < p"
  defines "v \<equiv> (of_int p / 2 ^ 96)\<^sup>2 :: real"
  shows "sqrt_price_to_price0in1 p \<le> v \<and> v < sqrt_price_to_price0in1 p + 1 / 10 ^ 18"
proof -
  define n where "n = p * p * 10 ^ 18 div (q96 * q96)"
  have v: "v * 10 ^ 18 = of_int (p * p * 10 ^ 18) / of_int (q96 * q96)"
    by (simp add: v_def q96_def power2_eq_square)
  have n: "n = \<lfloor>v * 10 ^ 18\<rfloor>" unfolding v n_def by (simp only: floor_divide_of_int_eq)
  have "of_int n \<le> v * 10 ^ 18" "v * 10 ^ 18 < of_int n + 1" unfolding n by linarith+
  moreover have "sqrt_price_to_price0in1 p = of_int n / 10 ^ 18"
    using assms(1) by (simp add: sqrt_price_to_price0in1_def n_def)
  ultimately show ?thesis by (simp add: field_simps)
qed


section \<open>Properties\<close>

text \<open>
  a chunked scan misses nothing and repeats nothing. Against a node that
  answers every range with the matching part of a block-ordered log,
  \<open>getLogsChunked\<close> returns exactly the logs of the whole range, in order, and no
  request spans more than \<open>maxRange\<close> blocks.
\<close>

theorem chunked_scan_complete:
  assumes "honest_node chain req" and "sorted (map log_block chain)" and "1 \<le> max_range"
  shows "get_logs_chunked req from_block to_block max_range = Inr (filter (in_range from_block to_block) chain) \<and>
    list_all (\<lambda>(a, b). from_block \<le> a \<and> a \<le> b \<and> b \<le> to_block \<and> b - a + 1 \<le> max_range)
      (chunk_windows max_range from_block to_block)"
  using request_all_windows [OF assms] chunk_windows_bounds [OF assms(3)] assms(3)
  by (fastforce simp: get_logs_chunked_def list_all_iff)

definition demo_log :: "int \<Rightarrow> int \<Rightarrow> rpc_log" where
  "demo_log b i = \<lparr>l_address = ''0xaa'', l_topics = [], l_data = '''', l_block = Some b, l_index = Some i, l_tx = None\<rparr>"

definition demo_chain :: "rpc_log list" where
  "demo_chain = [demo_log 1 0, demo_log 5 0, demo_log 5 1, demo_log 9 0]"

theorem chunked_scan_complete_witness:
  "get_logs_chunked (\<lambda>a b. Inr (filter (in_range a b) demo_chain)) 2 9 3 =
   Inr [demo_log 5 0, demo_log 5 1, demo_log 9 0]"
  using chunked_scan_complete [of demo_chain "\<lambda>a b. Inr (filter (in_range a b) demo_chain)" 3 2 9]
  by (simp add: honest_node_def demo_chain_def demo_log_def log_block_def in_range_def)

text \<open>
  a confirmed factory wins. When any address touched by the launch
  transaction is a confirmed factory of any launchpad (in whatever letter
  case), the launch is attributed through a confirmed factory, never through a
  candidate one and never as raw, wherever the candidates stand in the lists.
\<close>

theorem attribute_confirmed_wins:
  assumes "lp \<in> set lps" and "f \<in> set (lp_factories lp)" and "a \<in> set touched" and "lower a = lower f"
  shows "\<exists>b lp'. b \<in> set touched \<and> attribute_source lps touched = confirmed_attribution lp' b \<and>
    \<not> at_via_candidate (attribute_source lps touched)"
proof -
  have "confirmed_at (build_launchpad_index lps) (lower a)"
    using build_index_confirmed [OF assms(1,2)] assms(4) by simp
  from attribute_loop_first_confirmed [OF assms(3) this, of None]
  obtain b lp' where "b \<in> set touched" "attribute_source lps touched = confirmed_attribution lp' b"
    by (auto simp: attribute_source_def)
  then show ?thesis by (auto simp: confirmed_attribution_def)
qed

lemma demo_lower: "lower ''0xAB'' = lower ''0xab''"
  by code_simp

theorem attribute_confirmed_wins_witness:
  "\<exists>b lp'. b \<in> {''0xCC'', ''0xAB''} \<and> attribute_source
     [\<lparr>lp_key = ''one'', lp_locked = False, lp_factories = [], lp_candidates = [''0xab'', ''0xcc''], lp_verified = False\<rparr>,
      \<lparr>lp_key = ''two'', lp_locked = True, lp_factories = [''0xab''], lp_candidates = [], lp_verified = True\<rparr>]
     [''0xCC'', ''0xAB''] = confirmed_attribution lp' b"
  using attribute_confirmed_wins [of
      "\<lparr>lp_key = ''two'', lp_locked = True, lp_factories = [''0xab''], lp_candidates = [], lp_verified = True\<rparr>"
      "[\<lparr>lp_key = ''one'', lp_locked = False, lp_factories = [], lp_candidates = [''0xab'', ''0xcc''], lp_verified = False\<rparr>,
        \<lparr>lp_key = ''two'', lp_locked = True, lp_factories = [''0xab''], lp_candidates = [], lp_verified = True\<rparr>]"
      "''0xab''" "''0xAB''" "[''0xCC'', ''0xAB'']"]
  by (auto simp: demo_lower)

text \<open>
  the price is exact to 18 decimals and no further: the computed price of
  currency 0 is at most the exact ratio and less than 1e-18 below it. In
  particular every price below 1e-18 comes out as exactly 0, and its inverse
  (the price of a token in slot 1) as 0 too.
\<close>

theorem price_resolution:
  assumes "0 < p"
  shows "sqrt_price_to_price0in1 p \<le> (of_int p / 2 ^ 96)\<^sup>2 \<and>
    (of_int p / 2 ^ 96)\<^sup>2 < sqrt_price_to_price0in1 p + 1 / 10 ^ 18 \<and>
    ((of_int p / 2 ^ 96 :: real)\<^sup>2 < 1 / 10 ^ 18 \<longrightarrow>
       token_price_in_quote p True = 0 \<and> token_price_in_quote p False = 0)"
proof -
  let ?v = "(of_int p / 2 ^ 96 :: real)\<^sup>2"
  define n where "n = p * p * 10 ^ 18 div (q96 * q96)"
  have price: "sqrt_price_to_price0in1 p = of_int n / 10 ^ 18"
    using assms by (simp add: sqrt_price_to_price0in1_def n_def)
  have n0: "0 \<le> n" using assms by (simp add: n_def q96_def pos_imp_zdiv_nonneg_iff)
  have "sqrt_price_to_price0in1 p = 0" if "?v < 1 / 10 ^ 18"
  proof -
    have "of_int n / 10 ^ 18 < (1 :: real) / 10 ^ 18"
      using price_scaled_bounds [OF assms] that price by linarith
    then have "n < 1" by (simp add: divide_less_cancel)
    then show ?thesis using n0 price by simp
  qed
  then show ?thesis
    using price_scaled_bounds [OF assms] by (auto simp: token_price_in_quote_def)
qed

theorem price_resolution_witness:
  "token_price_in_quote (2 ^ 66) True = 0 \<and> token_price_in_quote (2 ^ 66) False = 0"
  using price_resolution [of "2 ^ 66"] by (simp add: power2_eq_square)
end
