(* ===== verification/Budget.thy ===== *)
theory Budget
  imports ChainLib
begin

text \<open>
  The money side of the metabolism: the deep-dive budget and the run gate
  (\<open>packages/db/src/deepdive-budget.ts\<close>, re-exported by
  \<open>apps/worker/src/metabolism/budget.ts\<close>), the epoch reconciliation
  (\<open>reconcile.ts\<close>), the per-key discrepancy signal (\<open>ids-reconcile.ts\<close>), the spend
  ledger (\<open>spend-ledger.ts\<close>) and the CREDIT activation rule (\<open>credit-wallet.ts\<close>).
  Amounts are exact reals; message texts are left out.
\<close>


section \<open>Daily budget and run gate\<close>

datatype binding_constraint = DailyCap | CreditShare | KeyReserve | ZeroBudget

record budget_inputs =
  bi_daily_cap :: real
  bi_trailing_credits :: real
  bi_key_remaining :: real
  bi_reserve :: real

record budget_breakdown =
  bb_budget :: real
  bb_binding :: binding_constraint
  bb_credit_share :: real
  bb_spendable_key :: real

text \<open>\<open>for (const c of candidates) if (c[1] < binding[1]) binding = c\<close>.\<close>

definition tightest :: "(binding_constraint \<times> real) list \<Rightarrow> binding_constraint \<times> real" where
  "tightest cs = fold (\<lambda>c b. if snd c < snd b then c else b) cs (hd cs)"

definition budget_candidates :: "budget_inputs \<Rightarrow> (binding_constraint \<times> real) list" where
  "budget_candidates i =
     [(DailyCap, max 0 (bi_daily_cap i)),
      (CreditShare, max 0 (1 / 2 * bi_trailing_credits i)),
      (KeyReserve, max 0 (bi_key_remaining i - bi_reserve i))]"

definition daily_deepdive_budget :: "budget_inputs \<Rightarrow> budget_breakdown" where
  "daily_deepdive_budget i =
     (let b = tightest (budget_candidates i); budget = max 0 (snd b)
      in \<lparr>bb_budget = round2 budget,
          bb_binding = (if budget = 0 then ZeroBudget else fst b),
          bb_credit_share = round2 (max 0 (1 / 2 * bi_trailing_credits i)),
          bb_spendable_key = round2 (max 0 (bi_key_remaining i - bi_reserve i))\<rparr>)"

datatype billing_status = Exact | AggregateOnly | Unavailable | Anomaly | PhantomSpend | Stale

record gate_inputs =
  gi_cap_per_run :: real
  gi_daily_cap :: real
  gi_today_spend :: real
  gi_provider_today :: "real option"
  gi_spendable :: real
  gi_billing :: "billing_status option"

datatype gate_reason = BillingPaused | AtReserve | DailyCapReached | NothingAffordable | GateOk

record run_gate =
  rg_allowed :: bool
  rg_reason :: gate_reason
  rg_remaining_today :: real
  rg_max_run_cost :: real
  rg_balance_stale :: bool

definition spent_today :: "gate_inputs \<Rightarrow> real" where
  "spent_today i = max (gi_today_spend i) (nullish (gi_provider_today i) 0)"

definition remaining_today :: "gate_inputs \<Rightarrow> real" where
  "remaining_today i = round2 (max 0 (gi_daily_cap i - spent_today i))"

definition max_run_cost :: "gate_inputs \<Rightarrow> real" where
  "max_run_cost i = round2 (max 0 (min (gi_cap_per_run i) (min (remaining_today i) (gi_spendable i))))"

definition gate_verdict :: "gate_inputs \<Rightarrow> bool \<Rightarrow> gate_reason \<Rightarrow> real \<Rightarrow> run_gate" where
  "gate_verdict i ok reason cost =
     \<lparr>rg_allowed = ok, rg_reason = reason, rg_remaining_today = remaining_today i,
      rg_max_run_cost = cost, rg_balance_stale = (gi_billing i = Some Stale)\<rparr>"

definition deepdive_run_gate :: "gate_inputs \<Rightarrow> run_gate" where
  "deepdive_run_gate i =
     (if gi_billing i = Some PhantomSpend \<or> gi_billing i = Some Anomaly then gate_verdict i False BillingPaused 0
      else if gi_spendable i \<le> 0 then gate_verdict i False AtReserve (max_run_cost i)
      else if remaining_today i \<le> 0 then gate_verdict i False DailyCapReached (max_run_cost i)
      else if max_run_cost i \<le> 0 then gate_verdict i False NothingAffordable (max_run_cost i)
      else gate_verdict i True GateOk (max_run_cost i))"

definition reserve_usd :: "real \<Rightarrow> real \<Rightarrow> real" where
  "reserve_usd reserve_r claim_size = max 0 reserve_r * max 0 claim_size"

definition runs_affordable :: "real \<Rightarrow> real \<Rightarrow> int" where
  "runs_affordable budget cap_per_run = (if cap_per_run \<le> 0 then 0 else \<lfloor>budget / cap_per_run\<rfloor>)"

definition days_unattended :: "millis option \<Rightarrow> millis \<Rightarrow> real" where
  "days_unattended last_manual now =
     (case last_manual of None \<Rightarrow> 0 | Some t \<Rightarrow> max 0 (of_int (now - t) / 86400000))"


section \<open>Epoch reconciliation\<close>

abbreviation round6 :: "real \<Rightarrow> real" where "round6 \<equiv> round_dp 6"

record epoch_input =
  ei_spend_now :: real
  ei_spend_prev :: real
  ei_local_estimate :: real
  ei_request_count :: nat
  ei_anomaly_pct :: real
  ei_phantom_tolerance :: real
  ei_lag_request_count :: "nat option"
  ei_min_grade :: "real option"

record epoch_result =
  er_provider_delta :: real
  er_local_estimate :: real
  er_request_count :: nat
  er_factor :: "real option"
  er_discrepancy_pct :: "real option"
  er_phantom :: bool
  er_anomaly :: bool
  er_billing :: billing_status

definition epoch_delta :: "epoch_input \<Rightarrow> real" where
  "epoch_delta i = round6 (max 0 (ei_spend_now i - ei_spend_prev i))"

definition epoch_estimate :: "epoch_input \<Rightarrow> real" where
  "epoch_estimate i = round6 (max 0 (ei_local_estimate i))"

text \<open>The result without a grade, which four of the five branches return.\<close>

definition ungraded :: "epoch_input \<Rightarrow> bool \<Rightarrow> billing_status \<Rightarrow> epoch_result" where
  "ungraded i ph st =
     \<lparr>er_provider_delta = epoch_delta i, er_local_estimate = epoch_estimate i,
      er_request_count = ei_request_count i, er_factor = None, er_discrepancy_pct = None,
      er_phantom = ph, er_anomaly = False, er_billing = st\<rparr>"

definition discrepancy_pct :: "real \<Rightarrow> real \<Rightarrow> real" where
  "discrepancy_pct delta est = round6 ((delta - est) / est * 100)"

definition graded :: "epoch_input \<Rightarrow> epoch_result" where
  "graded i =
     (let delta = epoch_delta i; est = epoch_estimate i; disc = discrepancy_pct delta est;
          anomaly = (\<bar>disc\<bar> > ei_anomaly_pct i)
      in \<lparr>er_provider_delta = delta, er_local_estimate = est, er_request_count = ei_request_count i,
          er_factor = (if delta > 0 then Some (round6 (delta / est)) else None),
          er_discrepancy_pct = Some disc, er_phantom = False, er_anomaly = anomaly,
          er_billing = (if anomaly then Anomaly else AggregateOnly)\<rparr>)"

definition reconcile_epoch :: "epoch_input \<Rightarrow> epoch_result" where
  "reconcile_epoch i =
     (let min_grade = nullish (ei_min_grade i) (2 / 100) in
      if ei_request_count i = 0 \<and> nullish (ei_lag_request_count i) 0 = 0 \<and>
         epoch_delta i > ei_phantom_tolerance i then ungraded i True PhantomSpend
      else if ei_request_count i = 0 then ungraded i False AggregateOnly
      else if epoch_estimate i \<le> 0 then ungraded i False Unavailable
      else if epoch_estimate i < min_grade \<and> epoch_delta i < min_grade then ungraded i False AggregateOnly
      else graded i)"

definition billing_blocks_inference :: "billing_status option \<Rightarrow> bool" where
  "billing_blocks_inference st \<longleftrightarrow> st = Some Anomaly \<or> st = Some PhantomSpend"

text \<open>
  The runner's use of it (\<open>lifecycle-runner.ts\<close>): the run of consecutive anomalous
  epochs, and the status that is published and acted on.
\<close>

definition count_anomaly :: "epoch_result \<Rightarrow> nat \<Rightarrow> nat" where
  "count_anomaly ep consecutive = (if er_anomaly ep then consecutive + 1 else 0)"

definition effective_billing :: "nat \<Rightarrow> nat \<Rightarrow> epoch_result \<Rightarrow> billing_status" where
  "effective_billing anomaly_epochs consecutive ep =
     (if er_phantom ep then PhantomSpend
      else if consecutive \<ge> anomaly_epochs then Anomaly
      else if er_billing ep = Anomaly then AggregateOnly
      else er_billing ep)"


section \<open>The per-key discrepancy signal\<close>

record spend_baseline =
  sb_key_prefix :: string
  sb_provider :: real
  sb_ledger :: real
  sb_at :: millis

datatype ids_direction = IdsOk | ProviderAhead | LedgerAhead | NoBaseline

record ids_reconcile =
  ids_mismatch :: bool
  ids_direction_of :: ids_direction
  ids_provider_delta :: real
  ids_ledger_delta :: real
  ids_excess :: real

definition no_baseline :: ids_reconcile where
  "no_baseline = \<lparr>ids_mismatch = False, ids_direction_of = NoBaseline, ids_provider_delta = 0,
                  ids_ledger_delta = 0, ids_excess = 0\<rparr>"

definition compare_spend :: "real \<Rightarrow> real \<Rightarrow> real \<Rightarrow> ids_reconcile" where
  "compare_spend pd ld band =
     (let excess = round6 (pd - ld) in
      if excess > band then
        \<lparr>ids_mismatch = True, ids_direction_of = ProviderAhead, ids_provider_delta = pd, ids_ledger_delta = ld, ids_excess = excess\<rparr>
      else if - excess > band then
        \<lparr>ids_mismatch = False, ids_direction_of = LedgerAhead, ids_provider_delta = pd, ids_ledger_delta = ld, ids_excess = excess\<rparr>
      else
        \<lparr>ids_mismatch = False, ids_direction_of = IdsOk, ids_provider_delta = pd, ids_ledger_delta = ld, ids_excess = excess\<rparr>)"

definition reconcile_ids ::
    "string option \<Rightarrow> real \<Rightarrow> real \<Rightarrow> spend_baseline option \<Rightarrow> real \<Rightarrow> real \<Rightarrow> ids_reconcile" where
  "reconcile_ids key_prefix provider ledger baseline tol grace =
     (case (key_prefix, baseline) of
        (Some k, Some b) \<Rightarrow>
          if k = [] \<or> sb_key_prefix b \<noteq> k then no_baseline
          else compare_spend (round6 (provider - sb_provider b)) (round6 (ledger - sb_ledger b)) (max tol grace)
      | _ \<Rightarrow> no_baseline)"


section \<open>The spend ledger\<close>

datatype cost_basis =
  TokenEstimate | ProviderReconciledEstimate | ProviderReported | ProviderGeneration | BasisUnavailable

record spend_entry =
  se_cost :: "real option"          \<comment> \<open>\<open>None\<close>: not finite\<close>
  se_model :: string
  se_key_hash :: "string option"
  se_report :: "string option"
  se_generation :: "string option"
  se_prompt_tokens :: "real option"
  se_completion_tokens :: "real option"
  se_estimate :: "real option"
  se_pricing :: "string option"
  se_basis :: "cost_basis option"

record spend_row =
  sr_id :: nat
  sr_at :: millis
  sr_cost :: real
  sr_model :: string
  sr_key_hash :: "string option"
  sr_report :: "string option"
  sr_generation :: "string option"
  sr_prompt_tokens :: "real option"
  sr_completion_tokens :: "real option"
  sr_estimate :: "real option"
  sr_pricing :: "string option"
  sr_basis :: cost_basis
  sr_epoch :: "nat option"
  sr_reconciled :: "real option"

text \<open>The table: a row's id is the count of rows before it, since rows are never deleted.\<close>

type_synonym ledger = "spend_row list"

definition find_by_generation :: "string \<Rightarrow> ledger \<Rightarrow> nat option" where
  "find_by_generation g rows = map_option sr_id (List.find (\<lambda>r. sr_generation r = Some g) rows)"

definition record_spend :: "millis \<Rightarrow> spend_entry \<Rightarrow> ledger \<Rightarrow> (string + nat \<times> bool) \<times> ledger" where
  "record_spend now e rows =
     (case se_cost e of
        None \<Rightarrow> (Inl ''recordSpend: costUsd must be a finite, non-negative number'', rows)
      | Some cost \<Rightarrow>
          if cost < 0 then (Inl ''recordSpend: costUsd must be a finite, non-negative number'', rows)
          else if se_model e = [] then (Inl ''recordSpend: model is required'', rows)
          else
            (let existing = (case se_generation e of None \<Rightarrow> None
                             | Some g \<Rightarrow> if g = [] then None else find_by_generation g rows)
             in case existing of
               Some rid \<Rightarrow> (Inr (rid, True), rows)
             | None \<Rightarrow>
                 (let rid = length rows in
                  (Inr (rid, False), rows @ [\<lparr>sr_id = rid, sr_at = now, sr_cost = cost, sr_model = se_model e,
                     sr_key_hash = se_key_hash e, sr_report = se_report e, sr_generation = se_generation e,
                     sr_prompt_tokens = se_prompt_tokens e, sr_completion_tokens = se_completion_tokens e,
                     sr_estimate = se_estimate e, sr_pricing = se_pricing e, sr_basis = nullish (se_basis e) BasisUnavailable,
                     sr_epoch = None, sr_reconciled = None\<rparr>]))))"

definition total_spend :: "millis option \<Rightarrow> string option \<Rightarrow> ledger \<Rightarrow> real" where
  "total_spend since key rows = sum_list (map sr_cost (filter (\<lambda>r.
     (case since of None \<Rightarrow> True | Some t \<Rightarrow> t \<le> sr_at r) \<and>
     (case key of None \<Rightarrow> True | Some k \<Rightarrow> k = [] \<or> sr_key_hash r = Some k)) rows))"

definition spend_by_key :: "ledger \<Rightarrow> (string option \<times> real) list" where
  "spend_by_key rows = map (\<lambda>k. (k, sum_list (map sr_cost (filter (\<lambda>r. sr_key_hash r = k) rows))))
     (uniq (map sr_key_hash rows))"

text \<open>The rows an epoch grades: no epoch yet, and \<open>since < at <= until\<close>.\<close>

definition in_window :: "millis option \<Rightarrow> millis \<Rightarrow> spend_row \<Rightarrow> bool" where
  "in_window since until r \<longleftrightarrow> sr_epoch r = None \<and>
     (case since of None \<Rightarrow> True | Some t \<Rightarrow> t < sr_at r) \<and> sr_at r \<le> until"

definition window_estimate :: "millis option \<Rightarrow> millis \<Rightarrow> ledger \<Rightarrow> real \<times> nat" where
  "window_estimate since until rows =
     (let w = filter (in_window since until) rows
      in (sum_list (map (\<lambda>r. nullish (sr_estimate r) 0) w), length w))"

definition reconcile_row :: "nat \<Rightarrow> real option \<Rightarrow> spend_row \<Rightarrow> spend_row" where
  "reconcile_row epoch factor r =
     (case (factor, sr_estimate r) of
        (Some f, Some e) \<Rightarrow> (let c = round6 (e * f) in
           r\<lparr>sr_epoch := Some epoch, sr_reconciled := Some c, sr_cost := c, sr_basis := ProviderReconciledEstimate\<rparr>)
      | _ \<Rightarrow> r\<lparr>sr_epoch := Some epoch\<rparr>)"

definition apply_reconciliation ::
    "millis option \<Rightarrow> millis \<Rightarrow> nat \<Rightarrow> real option \<Rightarrow> ledger \<Rightarrow> nat \<times> ledger" where
  "apply_reconciliation since until epoch factor rows =
     (length (filter (in_window since until) rows),
      map (\<lambda>r. if in_window since until r then reconcile_row epoch factor r else r) rows)"

section \<open>CREDIT activation\<close>

record protocol_addresses =
  pa_credit :: address
  pa_staking :: "address option"

text \<open>The only two protocol calls the agent wallet may make.\<close>

definition assert_allowed_call :: "address \<Rightarrow> string \<Rightarrow> protocol_addresses \<Rightarrow> string + unit" where
  "assert_allowed_call dest fn addr =
     (let t = lower dest in
      if (t = lower (pa_credit addr) \<and> fn = ''activate'') \<or>
         (case pa_staking addr of None \<Rightarrow> False | Some s \<Rightarrow> t = lower s \<and> fn = ''claim'')
      then Inr () else Inl ''the agent wallet may only call CREDIT.activate and Staking.claim'')"

record activation_inputs =
  ac_api_balance :: real
  ac_credit_held :: real
  ac_low_water :: real
  ac_chunk :: real
  ac_activated_today :: real
  ac_daily_cap :: real
  ac_pending :: bool
  ac_since_last :: "millis option"
  ac_keep_warm :: "millis option"

definition floor_units :: "real \<Rightarrow> real" where
  "floor_units x = of_int \<lfloor>x * 10 ^ 6\<rfloor> / 10 ^ 6"

definition activation_stale :: "activation_inputs \<Rightarrow> bool" where
  "activation_stale i =
     (case ac_since_last i of None \<Rightarrow> True | Some ms \<Rightarrow> nullish (ac_keep_warm i) 72000000 \<le> ms)"

text \<open>\<open>None\<close>: do not activate; \<open>Some a\<close>: activate \<open>a\<close> dollars.\<close>

definition activation_decision :: "activation_inputs \<Rightarrow> real option" where
  "activation_decision i =
     (if ac_pending i then None
      else if ac_api_balance i \<ge> ac_low_water i \<and> \<not> activation_stale i then None
      else if ac_credit_held i \<le> 0 then None
      else
        (let cap_left = ac_daily_cap i - ac_activated_today i in
         if cap_left \<le> 0 then None
         else
           (let amount = floor_units (min (ac_chunk i) (min (ac_credit_held i) cap_left)) in
            if amount < 1 / 100 then None else Some amount)))"

record block_ref =
  br_number :: int
  br_timestamp :: int

definition estimate_block_at :: "int \<Rightarrow> block_ref \<Rightarrow> block_ref \<Rightarrow> int" where
  "estimate_block_at target head ref =
     (let secs = br_timestamp head - br_timestamp ref in
      if secs \<le> 0 \<or> target \<ge> br_timestamp head then br_number head
      else
        (let per_sec = of_int (br_number head - br_number ref) / of_int secs :: real;
             behind = \<lceil>of_int (br_timestamp head - target) * per_sec * (102 / 100)\<rceil>
         in if br_number head > behind then br_number head - behind else 0))"

text \<open>
  The chunked \<open>while\<close> loop of \<open>sumActivatedSince\<close>.  A \<open>maxRange\<close> below one never
  advances, which is the value \<open>None\<close>.
\<close>

partial_function (option) sum_activated_loop ::
    "(int \<Rightarrow> int \<Rightarrow> nat list) \<Rightarrow> int \<Rightarrow> int \<Rightarrow> int \<Rightarrow> nat \<Rightarrow> nat option" where
  "sum_activated_loop events max_range head start acc =
     (if start \<le> head
      then (let stop = (if start + max_range - 1 > head then head else start + max_range - 1)
            in sum_activated_loop events max_range head (stop + 1) (acc + sum_list (events start stop)))
      else Some acc)"

text \<open>The reference block: 10,000 blocks behind, or genesis.\<close>

definition ref_block_number :: "int \<Rightarrow> int" where
  "ref_block_number head = (if head > 10000 then head - 10000 else 0)"

definition sum_activated_since ::
    "(int \<Rightarrow> block_ref) \<Rightarrow> block_ref \<Rightarrow> (int \<Rightarrow> int \<Rightarrow> nat list) \<Rightarrow> int \<Rightarrow> int \<Rightarrow> real option" where
  "sum_activated_since get_block head events since max_range =
     map_option (\<lambda>t. of_nat t / 10 ^ 6)
       (sum_activated_loop events max_range (br_number head)
          (estimate_block_at since head (get_block (ref_block_number (br_number head)))) 0)"

definition utc_midnight :: "int \<Rightarrow> int" where
  "utc_midnight now_sec = now_sec div 86400 * 86400"

record receipt_log =
  rl_address :: address
  rl_activated :: "int option"   \<comment> \<open>the decoded activation id, when it is an \<open>Activated\<close> event\<close>

record activation_receipt =
  ar_ok :: bool
  ar_logs :: "receipt_log list"
  ar_block :: int

record activation_result =
  res_tx :: string
  res_activation_id :: "int option"
  res_amount :: real
  res_block :: int

text \<open>The last \<open>Activated\<close> event of the CREDIT contract in the receipt.\<close>

definition activation_id_of :: "address \<Rightarrow> receipt_log list \<Rightarrow> int option" where
  "activation_id_of credit logs =
     fold (\<lambda>l acc. if lower (rl_address l) \<noteq> lower credit then acc
                   else case rl_activated l of None \<Rightarrow> acc | Some n \<Rightarrow> Some n) logs None"

text \<open>One poll per list element: the clock after it and what the node answered.  \<open>None\<close>: still waiting.\<close>

fun await_activation ::
    "string \<Rightarrow> address \<Rightarrow> real \<Rightarrow> millis \<Rightarrow> (millis \<times> activation_receipt option) list \<Rightarrow>
     (string + activation_result) option" where
  "await_activation tx credit amount deadline [] = None"
| "await_activation tx credit amount deadline ((now, answer) # polls) =
     (case answer of
        Some r \<Rightarrow> Some (if \<not> ar_ok r then Inl ''CREDIT.activate reverted''
                        else Inr \<lparr>res_tx = tx, res_activation_id = activation_id_of credit (ar_logs r),
                                   res_amount = amount, res_block = ar_block r\<rparr>)
      | None \<Rightarrow> if now > deadline then Some (Inl ''CREDIT.activate: no receipt'')
                else await_activation tx credit amount deadline polls)"

definition activate_units :: "real \<Rightarrow> int" where
  "activate_units amount = js_round (amount * 10 ^ 6)"

definition activate_credit ::
    "(int \<Rightarrow> string) \<Rightarrow> protocol_addresses \<Rightarrow> real \<Rightarrow> millis \<Rightarrow> millis option \<Rightarrow>
     (millis \<times> activation_receipt option) list \<Rightarrow> (string + activation_result) option" where
  "activate_credit write_contract addr amount now timeout polls =
     (case assert_allowed_call (pa_credit addr) ''activate'' addr of
        Inl e \<Rightarrow> Some (Inl e)
      | Inr _ \<Rightarrow> await_activation (write_contract (activate_units amount)) (pa_credit addr) amount
                   (now + nullish timeout 120000) polls)"

section \<open>Facts about the gate\<close>

lemma round2_pos_error: "round2 x \<le> x + 1 / 200"
proof -
  have "\<bar>round2 x - x\<bar> \<le> 1 / 200" using round_dp_error [of 2 x] by simp
  then show ?thesis by linarith
qed

lemma round2_max0_pos: "0 < round2 (max 0 x) \<Longrightarrow> 0 < x \<and> round2 (max 0 x) \<le> x + 1 / 200"
proof -
  assume r: "0 < round2 (max 0 x)"
  have "0 < x"
  proof (rule ccontr)
    assume "\<not> 0 < x"
    then have "max 0 x = 0" by simp
    with r show False by simp
  qed
  moreover from this have "max 0 x = x" by simp
  ultimately show ?thesis using round2_pos_error [of x] by simp
qed

lemma tightest_snd: "cs \<noteq> [] \<Longrightarrow> snd (tightest cs) = Min (snd ` set cs) \<and> tightest cs \<in> set cs"
proof (induction cs rule: rev_induct)
  case (snoc c cs)
  show ?case
  proof (cases "cs = []")
    case False
    then have hd: "tightest (cs @ [c]) = (if snd c < snd (tightest cs) then c else tightest cs)"
      by (simp add: tightest_def)
    have m: "Min (snd ` set (cs @ [c])) = min (snd c) (Min (snd ` set cs))"
      using False by (simp add: Min_insert)
    show ?thesis using snoc.IH [OF False] hd m by (auto simp: min_def)
  qed (simp add: tightest_def)
qed simp

lemma daily_budget_is_min:
  "bb_budget (daily_deepdive_budget i) =
     round2 (min (max 0 (bi_daily_cap i)) (min (max 0 (1 / 2 * bi_trailing_credits i))
       (max 0 (bi_key_remaining i - bi_reserve i))))"
proof -
  have "snd (tightest (budget_candidates i)) =
      min (max 0 (bi_daily_cap i)) (min (max 0 (1 / 2 * bi_trailing_credits i)) (max 0 (bi_key_remaining i - bi_reserve i)))"
    using tightest_snd [of "budget_candidates i"] by (simp add: budget_candidates_def min.commute min.left_commute)
  then show ?thesis by (simp add: daily_deepdive_budget_def Let_def)
qed

lemma gate_fields [simp]:
  "rg_remaining_today (deepdive_run_gate i) = remaining_today i"
  "rg_balance_stale (deepdive_run_gate i) = (gi_billing i = Some Stale)"
  by (simp_all add: deepdive_run_gate_def gate_verdict_def)

lemma gate_allowed_iff:
  "rg_allowed (deepdive_run_gate i) \<longleftrightarrow> gi_billing i \<noteq> Some PhantomSpend \<and> gi_billing i \<noteq> Some Anomaly \<and>
     0 < gi_spendable i \<and> 0 < remaining_today i \<and> 0 < max_run_cost i"
  by (auto simp: deepdive_run_gate_def gate_verdict_def)

lemma max_run_cost_le:
  "0 < max_run_cost i \<Longrightarrow> max_run_cost i \<le> min (gi_cap_per_run i) (min (remaining_today i) (gi_spendable i)) + 1 / 200"
  unfolding max_run_cost_def by (rule round2_max0_pos [THEN conjunct2])

lemma remaining_today_le: "0 < remaining_today i \<Longrightarrow> remaining_today i \<le> gi_daily_cap i - spent_today i + 1 / 200"
  unfolding remaining_today_def by (rule round2_max0_pos [THEN conjunct2])

text \<open>
  the run gate opens exactly when billing shows no compromise signal and the
  three amounts are positive, and then the run's cost cap is positive and within half
  a cent of the per-run cap and of the spendable balance, and the day's spend with the
  run is within a cent of the daily cap by either measure of it.
\<close>

theorem gate_allows_only_affordable:
  assumes "rg_allowed (deepdive_run_gate i)"
  shows "gi_billing i \<noteq> Some PhantomSpend \<and> gi_billing i \<noteq> Some Anomaly \<and>
    0 < rg_max_run_cost (deepdive_run_gate i) \<and>
    rg_max_run_cost (deepdive_run_gate i) \<le> gi_cap_per_run i + 1 / 200 \<and>
    rg_max_run_cost (deepdive_run_gate i) \<le> gi_spendable i + 1 / 200 \<and>
    gi_today_spend i + rg_max_run_cost (deepdive_run_gate i) \<le> gi_daily_cap i + 1 / 100 \<and>
    nullish (gi_provider_today i) 0 + rg_max_run_cost (deepdive_run_gate i) \<le> gi_daily_cap i + 1 / 100"
proof -
  have a: "gi_billing i \<noteq> Some PhantomSpend" "gi_billing i \<noteq> Some Anomaly" "0 < gi_spendable i"
    "0 < remaining_today i" "0 < max_run_cost i"
    using assms by (simp_all add: gate_allowed_iff)
  have c: "rg_max_run_cost (deepdive_run_gate i) = max_run_cost i"
    using a by (simp add: deepdive_run_gate_def gate_verdict_def)
  have s: "gi_today_spend i \<le> spent_today i" "nullish (gi_provider_today i) 0 \<le> spent_today i"
    by (simp_all add: spent_today_def)
  show ?thesis
    using a c s max_run_cost_le [OF a(5)] remaining_today_le [OF a(4)] by auto
qed

definition demo_gate :: gate_inputs where
  "demo_gate = \<lparr>gi_cap_per_run = 1 / 10, gi_daily_cap = 1, gi_today_spend = 0, gi_provider_today = None,
     gi_spendable = 1 / 200, gi_billing = None\<rparr>"

lemma demo_gate_values: "remaining_today demo_gate = 1" "max_run_cost demo_gate = 1 / 100"
  by (simp_all add: demo_gate_def remaining_today_def max_run_cost_def spent_today_def round_dp_def js_round_def)

lemma demo_gate_allowed: "rg_allowed (deepdive_run_gate demo_gate)"
  unfolding gate_allowed_iff demo_gate_values by (simp add: demo_gate_def)

theorem gate_allows_only_affordable_witness:
  "gi_today_spend demo_gate + rg_max_run_cost (deepdive_run_gate demo_gate) \<le> gi_daily_cap demo_gate + 1 / 100"
  using gate_allows_only_affordable [OF demo_gate_allowed] by simp

text \<open>
  the gate rounds the run's cost cap to the nearest cent, upwards included: with
  half a cent of spendable balance it allows a run of a whole cent, twice what may be
  spent without touching the reserve.
\<close>

theorem gate_rounds_above_spendable:
  "\<exists>i. rg_allowed (deepdive_run_gate i) \<and> rg_max_run_cost (deepdive_run_gate i) = 2 * gi_spendable i \<and>
       0 < gi_spendable i"
proof (intro exI conjI)
  show "rg_allowed (deepdive_run_gate demo_gate)" by (rule demo_gate_allowed)
  show "rg_max_run_cost (deepdive_run_gate demo_gate) = 2 * gi_spendable demo_gate"
    unfolding deepdive_run_gate_def demo_gate_values
    by (simp add: gate_verdict_def demo_gate_values) (simp add: demo_gate_def)
qed (simp add: demo_gate_def)


section \<open>Facts about epochs\<close>

lemma epoch_phantom_iff:
  "er_phantom (reconcile_epoch i) \<longleftrightarrow> ei_request_count i = 0 \<and> nullish (ei_lag_request_count i) 0 = 0 \<and>
     ei_phantom_tolerance i < epoch_delta i"
  by (auto simp: reconcile_epoch_def ungraded_def graded_def Let_def)

lemma epoch_billing_cases:
  "er_billing (reconcile_epoch i) = PhantomSpend \<longleftrightarrow> er_phantom (reconcile_epoch i)"
  "er_billing (reconcile_epoch i) = Anomaly \<longleftrightarrow> er_anomaly (reconcile_epoch i)"
  by (auto simp: reconcile_epoch_def ungraded_def graded_def Let_def)

lemma epoch_phantom_not_anomaly: "er_phantom (reconcile_epoch i) \<Longrightarrow> \<not> er_anomaly (reconcile_epoch i)"
  by (auto simp: reconcile_epoch_def ungraded_def graded_def Let_def split: if_splits)

lemma epoch_fields [simp]:
  "er_provider_delta (reconcile_epoch i) = epoch_delta i"
  "er_local_estimate (reconcile_epoch i) = epoch_estimate i"
  by (simp_all add: reconcile_epoch_def ungraded_def graded_def Let_def)

lemma epoch_factorD:
  "er_factor (reconcile_epoch i) = Some f \<Longrightarrow>
     0 < epoch_estimate i \<and> 0 < epoch_delta i \<and> f = round6 (epoch_delta i / epoch_estimate i)"
  by (auto simp: reconcile_epoch_def ungraded_def graded_def Let_def split: if_splits)

text \<open>The counter the runner carries over its ticks.\<close>

definition streak :: "epoch_result list \<Rightarrow> nat" where
  "streak eps = fold count_anomaly eps 0"

lemma streak_snoc [simp]: "streak (eps @ [ep]) = count_anomaly ep (streak eps)"
  by (simp add: streak_def)

lemma streak_is_suffix_length: "streak eps = length (takeWhile er_anomaly (rev eps))"
  by (induction eps rule: rev_induct) (simp_all add: count_anomaly_def, simp add: streak_def)

lemma takeWhile_length_ge: "n \<le> length (takeWhile P xs) \<longleftrightarrow> n \<le> length xs \<and> list_all P (take n xs)"
proof (induction n arbitrary: xs)
  case (Suc n)
  then show ?case by (cases xs) auto
qed simp

text \<open>
  a reconciliation status closes the run gate exactly when the last epoch is phantom
  spend (provider charge above tolerance with no request in the window or the one before)
  or the last \<open>anomalyEpochs\<close> epochs were all anomalous; a single bad estimate does not.
\<close>

theorem billing_closes_gate_iff:
  assumes "ep = reconcile_epoch i" and "n > 0"
  shows "billing_blocks_inference (Some (effective_billing n (streak (eps @ [ep])) ep)) \<longleftrightarrow>
    (ei_request_count i = 0 \<and> nullish (ei_lag_request_count i) 0 = 0 \<and> ei_phantom_tolerance i < epoch_delta i) \<or>
    (n \<le> Suc (length eps) \<and> list_all er_anomaly (take n (rev (eps @ [ep]))))"
proof -
  have "streak (eps @ [ep]) \<ge> n \<longleftrightarrow> n \<le> Suc (length eps) \<and> list_all er_anomaly (take n (rev (eps @ [ep])))"
    unfolding streak_is_suffix_length using takeWhile_length_ge [of n er_anomaly "rev (eps @ [ep])"] by simp
  moreover have "er_billing ep \<noteq> PhantomSpend \<or> er_phantom ep" using assms(1) epoch_billing_cases(1) by auto
  ultimately show ?thesis
    using assms epoch_phantom_iff [of i]
    by (auto simp: billing_blocks_inference_def effective_billing_def split: if_splits)
qed

lemma demo_epoch_delta: "epoch_delta \<lparr>ei_spend_now = 2, ei_spend_prev = 1, ei_local_estimate = 0,
    ei_request_count = 0, ei_anomaly_pct = 100, ei_phantom_tolerance = 0, ei_lag_request_count = None,
    ei_min_grade = None\<rparr> = 1"
  by (simp add: epoch_delta_def)

theorem billing_closes_gate_iff_witness:
  "billing_blocks_inference (Some (effective_billing 3
     (streak ([] @ [reconcile_epoch \<lparr>ei_spend_now = 2, ei_spend_prev = 1, ei_local_estimate = 0,
        ei_request_count = 0, ei_anomaly_pct = 100, ei_phantom_tolerance = 0, ei_lag_request_count = None,
        ei_min_grade = None\<rparr>]))
     (reconcile_epoch \<lparr>ei_spend_now = 2, ei_spend_prev = 1, ei_local_estimate = 0,
        ei_request_count = 0, ei_anomaly_pct = 100, ei_phantom_tolerance = 0, ei_lag_request_count = None,
        ei_min_grade = None\<rparr>)))"
  using billing_closes_gate_iff [OF refl, of 3 "[]" "\<lparr>ei_spend_now = 2, ei_spend_prev = 1, ei_local_estimate = 0,
        ei_request_count = 0, ei_anomaly_pct = 100, ei_phantom_tolerance = 0, ei_lag_request_count = None,
        ei_min_grade = None\<rparr>"] demo_epoch_delta
  by simp


section \<open>Facts about the ledger\<close>

lemma find_by_generation_append:
  "find_by_generation g (rows @ [r]) =
     (case find_by_generation g rows of Some rid \<Rightarrow> Some rid
      | None \<Rightarrow> if sr_generation r = Some g then Some (sr_id r) else None)"
  by (induction rows) (auto simp: find_by_generation_def)

text \<open>Recording the same generation again answers with the same row and changes nothing.\<close>

lemma record_spend_idempotent:
  assumes "record_spend now e rows = (Inr (rid, d), rows')" "se_generation e = Some g" "g \<noteq> []"
    "se_generation e' = Some g" "se_cost e' = Some c" "0 \<le> c" "se_model e' \<noteq> []"
  shows "record_spend now' e' rows' = (Inr (rid, True), rows')"
proof -
  have "find_by_generation g rows' = Some rid"
    using assms(1-3) by (auto simp: record_spend_def Let_def find_by_generation_append split: option.splits if_splits)
  with assms(3-) show ?thesis by (simp add: record_spend_def)
qed

lemma record_spend_append:
  "record_spend now e rows = (res, rows') \<Longrightarrow> rows' = rows \<or>
     (\<exists>r. rows' = rows @ [r] \<and> sr_epoch r = None \<and> sr_reconciled r = None \<and> sr_cost r \<ge> 0)"
  by (auto simp: record_spend_def Let_def split: option.splits if_splits)

lemma in_window_epochD: "in_window a b r \<Longrightarrow> sr_epoch r = None"
  by (simp add: in_window_def)

lemma reconcile_row_epoch [simp]: "sr_epoch (reconcile_row n f r) = Some n"
  by (simp add: reconcile_row_def Let_def split: option.splits)

text \<open>A graded row is never graded again.\<close>

lemma graded_row_fixed:
  assumes "r \<in> set rows" "sr_epoch r \<noteq> None"
  shows "r \<in> set (snd (apply_reconciliation a b n f rows))"
  using assms by (auto simp: apply_reconciliation_def in_window_def image_iff)

lemma window_empty_after:
  "filter (in_window a b) (snd (apply_reconciliation a b n f rows)) = []"
  by (auto simp: apply_reconciliation_def filter_empty_conv in_window_def split: if_splits)

lemma filter_after_apply:
  assumes "list_all (\<lambda>r. sr_epoch r \<noteq> Some n) rows"
  shows "filter (\<lambda>r. sr_epoch r = Some n) (snd (apply_reconciliation a b n f rows)) =
    map (reconcile_row n f) (filter (in_window a b) rows)"
  using assms by (induction rows) (auto simp: apply_reconciliation_def)

lemma reconciled_value:
  "sr_reconciled r = None \<Longrightarrow>
   nullish (sr_reconciled (reconcile_row n (Some f) r)) 0 = round6 (nullish (sr_estimate r) 0 * f)"
  by (auto simp: reconcile_row_def Let_def split: option.splits)

lemma round6_sum_error:
  "\<bar>sum_list (map (\<lambda>x. round6 (h x * f)) xs) - sum_list (map h xs) * f\<bar> \<le> real (length xs) / 2000000"
proof (induction xs)
  case (Cons x xs)
  have "\<bar>round6 (h x * f) - h x * f\<bar> \<le> 1 / 2000000"
    using round_dp_error [of 6 "h x * f"] by simp
  moreover have "(h x + sum_list (map h xs)) * f = h x * f + sum_list (map h xs) * f"
    by (rule distrib_right)
  moreover have "real (length (x # xs)) / 2000000 = 1 / 2000000 + real (length xs) / 2000000"
    by simp
  ultimately show ?case using Cons.IH unfolding list.map sum_list.Cons by linarith
qed simp

lemma factor_error:
  fixes E d :: real
  assumes "0 < E" "0 < d"
    and "est = round6 E" "0 < est" "f = round6 (d / est)"
  shows "\<bar>E * f - d\<bar> \<le> (E + d / est) / 2000000"
proof -
  have a: "\<bar>f - d / est\<bar> \<le> 1 / 2000000" using round_dp_error [of 6 "d / est"] assms(5) by simp
  have b: "\<bar>E - est\<bar> \<le> 1 / 2000000" using round_dp_error [of 6 E] assms(3) by (simp add: abs_minus_commute)
  have "E * f - d = E * (f - d / est) + d / est * (E - est)"
    using assms(4) by (simp add: field_simps)
  also have "\<bar>\<dots>\<bar> \<le> E * \<bar>f - d / est\<bar> + d / est * \<bar>E - est\<bar>"
    using assms by (intro order_trans [OF abs_triangle_ineq]) (simp add: abs_mult)
  also have "\<dots> \<le> E * (1 / 2000000) + d / est * (1 / 2000000)"
    using a b assms by (intro add_mono mult_left_mono) auto
  finally show ?thesis by (simp add: field_simps)
qed

lemma error_chain:
  fixes x y z :: real
  shows "\<bar>x - y\<bar> \<le> a / k \<Longrightarrow> \<bar>y - z\<bar> \<le> (b + c) / k \<Longrightarrow> \<bar>x - z\<bar> \<le> (a + b + c) / k"
  unfolding add_divide_distrib by linarith

text \<open>
  C37: when an epoch has a reconciliation factor and it is applied to the rows of the
  window whose estimates were summed for it, the reconciled costs of those rows add up
  to the provider's charge, up to six-decimal rounding of the rows, the factor and the sum.
\<close>

theorem reconciled_rows_sum_to_provider_delta:
  assumes "er_factor (reconcile_epoch i) = Some f"
    and "ei_local_estimate i = fst (window_estimate since until rows)"
    and "list_all (\<lambda>r. sr_epoch r \<noteq> Some n) rows"
    and "list_all (\<lambda>r. sr_epoch r = None \<longrightarrow> sr_reconciled r = None) rows"
  shows "\<bar>sum_list (map (\<lambda>r. nullish (sr_reconciled r) 0)
             (filter (\<lambda>r. sr_epoch r = Some n) (snd (apply_reconciliation since until n (Some f) rows))))
           - er_provider_delta (reconcile_epoch i)\<bar>
    \<le> (real (fst (apply_reconciliation since until n (Some f) rows)) + ei_local_estimate i
        + epoch_delta i / epoch_estimate i) / 2000000"
proof -
  let ?w = "filter (in_window since until) rows" and ?h = "\<lambda>r. nullish (sr_estimate r) 0"
  let ?E = "sum_list (map ?h ?w)"
  have f: "0 < epoch_estimate i" "0 < epoch_delta i" "f = round6 (epoch_delta i / epoch_estimate i)"
    using epoch_factorD [OF assms(1)] by auto
  have E: "ei_local_estimate i = ?E" using assms(2) by (simp add: window_estimate_def Let_def)
  have pos: "0 < ?E"
    using f(1) E by (rule_tac ccontr) (simp add: epoch_estimate_def max_def split: if_splits)
  then have est: "epoch_estimate i = round6 ?E" by (simp add: epoch_estimate_def E)
  have "sr_reconciled r = None" if "r \<in> set ?w" for r
    using assms(4) that by (auto simp: list_all_iff in_window_def)
  then have "map (\<lambda>r. nullish (sr_reconciled (reconcile_row n (Some f) r)) 0) ?w = map (\<lambda>r. round6 (?h r * f)) ?w"
    by (intro map_cong refl reconciled_value) blast
  then have "map (\<lambda>r. nullish (sr_reconciled r) 0)
      (filter (\<lambda>r. sr_epoch r = Some n) (snd (apply_reconciliation since until n (Some f) rows)))
      = map (\<lambda>r. round6 (?h r * f)) ?w"
    using filter_after_apply [OF assms(3)] by (simp add: comp_def)
  moreover have "fst (apply_reconciliation since until n (Some f) rows) = length ?w"
    by (simp add: apply_reconciliation_def)
  ultimately show ?thesis
    using error_chain [OF round6_sum_error [of ?h f ?w] factor_error [OF pos f(2) est f(1) f(3)]] E
    by simp
qed

definition demo_row :: spend_row where
  "demo_row = \<lparr>sr_id = 0, sr_at = 5, sr_cost = 1, sr_model = ''m'', sr_key_hash = None, sr_report = None,
     sr_generation = None, sr_prompt_tokens = None, sr_completion_tokens = None, sr_estimate = Some 1,
     sr_pricing = None, sr_basis = TokenEstimate, sr_epoch = None, sr_reconciled = None\<rparr>"

definition demo_epoch :: epoch_input where
  "demo_epoch = \<lparr>ei_spend_now = 3, ei_spend_prev = 1, ei_local_estimate = 1, ei_request_count = 1,
     ei_anomaly_pct = 150, ei_phantom_tolerance = 0, ei_lag_request_count = None, ei_min_grade = None\<rparr>"

lemma demo_epoch_values: "epoch_delta demo_epoch = 2" "epoch_estimate demo_epoch = 1"
  using round_dp_int [of 6 2] by (simp_all add: demo_epoch_def epoch_delta_def epoch_estimate_def)

lemma demo_epoch_factor: "er_factor (reconcile_epoch demo_epoch) = Some 2"
  using round_dp_int [of 6 2] unfolding reconcile_epoch_def graded_def demo_epoch_values
  by (simp add: demo_epoch_values Let_def) (simp add: demo_epoch_def)

theorem reconciled_rows_sum_to_provider_delta_witness:
  "\<bar>sum_list (map (\<lambda>r. nullish (sr_reconciled r) 0)
             (filter (\<lambda>r. sr_epoch r = Some 7) (snd (apply_reconciliation None 10 7 (Some 2) [demo_row]))))
           - er_provider_delta (reconcile_epoch demo_epoch)\<bar>
    \<le> (real (fst (apply_reconciliation None 10 7 (Some 2) [demo_row])) + ei_local_estimate demo_epoch
        + epoch_delta demo_epoch / epoch_estimate demo_epoch) / 2000000"
proof (rule reconciled_rows_sum_to_provider_delta [OF demo_epoch_factor])
  show "ei_local_estimate demo_epoch = fst (window_estimate None 10 [demo_row])"
    by (simp add: demo_epoch_def demo_row_def window_estimate_def in_window_def)
qed (simp_all add: demo_row_def)


section \<open>Facts about activation\<close>

lemma floor_units_le: "floor_units x \<le> x"
proof -
  have "of_int \<lfloor>x * 10 ^ 6\<rfloor> \<le> x * 10 ^ 6" by (rule of_int_floor_le)
  then show ?thesis by (simp add: floor_units_def field_simps)
qed

lemma activation_amount_bounds:
  assumes "activation_decision i = Some a"
  shows "1 / 100 \<le> a \<and> a \<le> ac_chunk i \<and> a \<le> ac_credit_held i \<and> ac_activated_today i + a \<le> ac_daily_cap i"
  using assms floor_units_le [of "min (ac_chunk i) (min (ac_credit_held i) (ac_daily_cap i - ac_activated_today i))"]
  by (auto simp: activation_decision_def Let_def split: if_splits)

text \<open>The day's activations: each tick's decision sees what was activated before it.\<close>

definition activation_tick :: "activation_inputs \<Rightarrow> real \<Rightarrow> real" where
  "activation_tick i today = today + nullish (activation_decision (i\<lparr>ac_activated_today := today\<rparr>)) 0"

lemma activation_tick_cap:
  "today \<le> ac_daily_cap i \<Longrightarrow> activation_tick i today \<le> ac_daily_cap i"
  using activation_amount_bounds [of "i\<lparr>ac_activated_today := today\<rparr>"]
  by (cases "activation_decision (i\<lparr>ac_activated_today := today\<rparr>)") (auto simp: activation_tick_def)

lemma sum_loop_step:
  "start \<le> head \<Longrightarrow> sum_activated_loop ev m head start acc =
     sum_activated_loop ev m head ((if start + m - 1 > head then head else start + m - 1) + 1)
       (acc + sum_list (ev start (if start + m - 1 > head then head else start + m - 1)))"
  by (subst sum_activated_loop.simps) (simp add: Let_def)

lemma sum_loop_done: "\<not> start \<le> head \<Longrightarrow> sum_activated_loop ev m head start acc = Some acc"
  by (subst sum_activated_loop.simps) simp

definition amounts_between :: "(int \<times> nat) list \<Rightarrow> int \<Rightarrow> int \<Rightarrow> nat list" where
  "amounts_between chain a b = map snd (filter (\<lambda>e. a \<le> fst e \<and> fst e \<le> b) chain)"

lemma amounts_between_split:
  "a \<le> m + 1 \<Longrightarrow> m \<le> b \<Longrightarrow>
   sum_list (amounts_between chain a b) = sum_list (amounts_between chain a m) + sum_list (amounts_between chain (m + 1) b)"
  by (induction chain) (auto simp: amounts_between_def)

lemma amounts_between_empty: "b < a \<Longrightarrow> amounts_between chain a b = []"
  by (auto simp: amounts_between_def filter_empty_conv)

text \<open>
  against a node that answers each event query with the amounts in its block range,
  the chunked sum of activations terminates for every chunk size of at least one and
  counts every event from the start block to the head once.
\<close>

theorem activated_sum_exact:
  assumes "1 \<le> m" and "ev = amounts_between chain"
  shows "sum_activated_loop ev m head start acc = Some (acc + sum_list (amounts_between chain start head))"
proof (induction "nat (head - start + 1)" arbitrary: start acc rule: less_induct)
  case less
  show ?case
  proof (cases "start \<le> head")
    case True
    let ?stop = "if start + m - 1 > head then head else start + m - 1"
    have "nat (head - (?stop + 1) + 1) < nat (head - start + 1)" using True assms(1) by auto
    from less [OF this, of "acc + sum_list (ev start ?stop)"] sum_loop_step [OF True, of ev m acc]
    show ?thesis
      using amounts_between_split [of start ?stop head chain] True assms by (simp split: if_splits)
  next
    case False
    then show ?thesis by (simp add: sum_loop_done amounts_between_empty)
  qed
qed

theorem activated_sum_exact_witness:
  "sum_activated_loop (amounts_between [(3, 10), (5, 20), (9, 40)]) 2 8 3 0 = Some 30"
  using activated_sum_exact [of 2 "amounts_between [(3, 10), (5, 20), (9, 40)]" "[(3, 10), (5, 20), (9, 40)]" 8 3 0]
  by (simp add: amounts_between_def)

lemma widen: "0 \<le> (x :: real) \<Longrightarrow> x \<le> x * (102 / 100)"
  by linarith

lemma cancel_ratio: "n \<noteq> 0 \<Longrightarrow> s \<noteq> 0 \<Longrightarrow> (t :: real) * (n / s) * (s / n) = t"
  by simp

text \<open>On evenly spaced blocks the estimated start is never after the target time.\<close>

lemma estimate_before_target:
  assumes "br_timestamp ref < br_timestamp head" "target < br_timestamp head" "br_number ref < br_number head"
    and "estimate_block_at target head ref = b" "0 < b"
  shows "of_int (br_timestamp head) -
      of_int (br_number head - b) * (of_int (br_timestamp head - br_timestamp ref) / of_int (br_number head - br_number ref))
    \<le> (of_int target :: real)"
proof -
  let ?S = "of_int (br_timestamp head - br_timestamp ref) :: real"
  let ?N = "of_int (br_number head - br_number ref) :: real"
  let ?T = "of_int (br_timestamp head - target) :: real"
  let ?behind = "\<lceil>?T * (?N / ?S) * (102 / 100)\<rceil>"
  have pos: "0 < ?S" "0 < ?N" "0 < ?T" using assms(1-3) by (simp_all del: of_int_diff)
  have b: "br_number head - b = ?behind"
    using assms by (auto simp: estimate_block_at_def Let_def split: if_splits)
  have "?T * (?N / ?S) \<le> ?T * (?N / ?S) * (102 / 100)"
    by (rule widen) (intro mult_nonneg_nonneg divide_nonneg_nonneg less_imp_le pos)
  also have "\<dots> \<le> of_int ?behind" by (rule le_of_int_ceiling)
  finally have "?T * (?N / ?S) * (?S / ?N) \<le> of_int ?behind * (?S / ?N)"
    using pos by (intro mult_right_mono) auto
  moreover have "?T * (?N / ?S) * (?S / ?N) = ?T" using pos by (intro cancel_ratio) auto
  ultimately have "?T \<le> of_int ?behind * (?S / ?N)" by simp
  then show ?thesis unfolding b by (simp only: of_int_diff)
qed

lemma allowed_calls_only:
  "assert_allowed_call dest fn addr = Inr () \<longleftrightarrow>
     (lower dest = lower (pa_credit addr) \<and> fn = ''activate'') \<or>
     (\<exists>s. pa_staking addr = Some s \<and> lower dest = lower s \<and> fn = ''claim'')"
  by (auto simp: assert_allowed_call_def Let_def split: option.splits)

lemma await_gives_first_answer:
  assumes "await_activation tx c a dl polls = Some (Inr r)"
  shows "\<exists>k < length polls. list_all (\<lambda>p. snd p = None \<and> fst p \<le> dl) (take k polls) \<and>
    (\<exists>rc. snd (polls ! k) = Some rc \<and> ar_ok rc \<and> res_block r = ar_block rc \<and> res_tx r = tx \<and> res_amount r = a)"
  using assms
proof (induction polls)
  case (Cons p polls)
  obtain now ans where p: "p = (now, ans)" by force
  show ?case
  proof (cases ans)
    case None
    then have "\<not> now > dl" "await_activation tx c a dl polls = Some (Inr r)"
      using Cons.prems p by (auto split: if_splits)
    with Cons.IH obtain k where k: "k < length polls" "list_all (\<lambda>p. snd p = None \<and> fst p \<le> dl) (take k polls)"
      "\<exists>rc. snd (polls ! k) = Some rc \<and> ar_ok rc \<and> res_block r = ar_block rc \<and> res_tx r = tx \<and> res_amount r = a"
      by blast
    then show ?thesis using None \<open>\<not> now > dl\<close> p by (intro exI [of _ "Suc k"]) auto
  next
    case (Some rc)
    then show ?thesis using Cons.prems p by (intro exI [of _ 0]) (auto split: if_splits)
  qed
qed simp

end
