(* ===== verification/Lifecycle.thy ===== *)
theory Lifecycle
  imports Budget
begin

text \<open>
  The key lifecycle of the metabolism (\<open>apps/worker/src/metabolism\<close>): the reference
  state machine (\<open>state.ts\<close>), the per-tick decision and its observe-mode restriction,
  and the tick of the 60 s loop (\<open>lifecycle-runner.ts\<close>) over the spend ledger, the
  epochs, the encrypted store's key fields and the rows it appends to the lifecycle log.
  The provider's answers (balance, key status, create and revoke) are inputs of a tick;
  row texts are constructors.  The hash chain of the rows is the theory
  \<open>LifecycleChain\<close>.
\<close>


section \<open>The state machine\<close>

datatype life_state = NoKey | Active | Draining | Rotating | Revoking | Starved

datatype life_event =
    KeyClaimed | StatusOk | LowBalance | HygieneDue | Drained | Rotated
  | IdsMismatch | PhantomSpendEvent | Revoked | NoCredits | CreditsReturned

fun from_state :: "life_state \<Rightarrow> life_event \<Rightarrow> life_state option" where
  "from_state NoKey KeyClaimed = Some Active"
| "from_state NoKey NoCredits = Some Starved"
| "from_state Active LowBalance = Some Draining"
| "from_state Active Drained = Some Rotating"
| "from_state Active HygieneDue = Some Rotating"
| "from_state Active NoCredits = Some Starved"
| "from_state Active StatusOk = Some Active"
| "from_state Draining Drained = Some Rotating"
| "from_state Draining HygieneDue = Some Rotating"
| "from_state Draining NoCredits = Some Starved"
| "from_state Draining StatusOk = Some Active"
| "from_state Rotating Rotated = Some Active"
| "from_state Rotating KeyClaimed = Some Active"
| "from_state Rotating NoCredits = Some Starved"
| "from_state Starved CreditsReturned = Some Rotating"
| "from_state Starved KeyClaimed = Some Active"
| "from_state _ _ = None"

definition next_state :: "life_state \<Rightarrow> life_event \<Rightarrow> life_state option" where
  "next_state s e =
     (if e = PhantomSpendEvent \<or> e = IdsMismatch then (if s = NoKey then None else Some Revoking)
      else if e = Revoked then (if s = Revoking then Some NoKey else None)
      else from_state s e)"

definition is_manual_reason :: "string \<Rightarrow> bool" where
  "is_manual_reason r = starts_with ''manual:'' r"

text \<open>\<open>None\<close> in the second component: the timestamp does not parse.\<close>

definition latest_manual :: "(string \<times> millis option) list \<Rightarrow> millis option" where
  "latest_manual entries = fold (\<lambda>(reason, stamp) acc.
     if is_manual_reason reason then
       (case stamp of None \<Rightarrow> acc
        | Some t \<Rightarrow> (case acc of None \<Rightarrow> Some t | Some a \<Rightarrow> if t > a then Some t else acc))
     else acc) entries None"

definition days_since_last_manual :: "(string \<times> millis option) list \<Rightarrow> millis \<Rightarrow> real option" where
  "days_since_last_manual entries now =
     map_option (\<lambda>t. max 0 (of_int (now - t) / 86400000)) (latest_manual entries)"


section \<open>The decision of a tick\<close>

record life_config =
  lc_reserve :: real
  lc_low_water :: real
  lc_hygiene_days :: real
  lc_ids_tolerance :: real
  lc_ids_grace :: real
  lc_anomaly_pct :: real
  lc_anomaly_epochs :: nat
  lc_phantom_tolerance :: real
  lc_interval_ms :: millis
  lc_gateway :: bool      \<comment> \<open>\<open>metabolismSource\<close>: the gateway key, or the MCP session\<close>
  lc_managed :: bool      \<comment> \<open>\<open>keyManagementMode() = managed\<close>\<close>

record reading =
  rd_state :: life_state
  rd_halted :: bool
  rd_balance :: real
  rd_has_key :: bool
  rd_hold_secret :: bool
  rd_key_age_days :: "real option"
  rd_phantom :: bool

datatype reason =
    PhantomReason | CompletingRevoke | HaltedAwaiting | NothingToServe | MintedKey
  | CompletingRotation | RecoveredKeyValid | RecoveredMinting | WaitingAccrual
  | LostKey | SecretMissing | HygieneReason | NoRotate | BelowLowWater | StillDraining
  | RecoveredAboveLow | StatusFine | AdoptedKey | WouldMint reason | WouldRotate reason
  | WouldRevoke reason | SnapshotAfter life_state | RotatedTo string | RevokedHalting
  | RevokedRemint | SnapshotHalted | ActivatedCredit real

datatype decision =
    Steady life_state reason
  | Transition life_state life_state life_event reason bool  \<comment> \<open>from, to, event, reason, mint\<close>
  | Rotate life_state reason
  | Revoke life_state reason

definition decide_serving :: "reading \<Rightarrow> life_config \<Rightarrow> decision" where
  "decide_serving r cfg =
     (let s = rd_state r; spendable = rd_balance r - lc_reserve cfg in
      if \<not> rd_has_key r then Transition s NoKey Revoked LostKey False
      else if \<not> rd_hold_secret r then Revoke s SecretMissing
      else if (case rd_key_age_days r of None \<Rightarrow> False | Some d \<Rightarrow> d \<ge> lc_hygiene_days cfg)
        then Rotate s HygieneReason
      else if spendable \<le> 0 then Transition s Starved NoCredits NoRotate False
      else if rd_balance r < lc_low_water cfg then
        (if s = Active then Transition s Draining LowBalance BelowLowWater False
         else Steady Draining StillDraining)
      else if s = Draining then Transition s Active StatusOk RecoveredAboveLow False
      else Steady Active StatusFine)"

definition decide_lifecycle :: "reading \<Rightarrow> life_config \<Rightarrow> decision" where
  "decide_lifecycle r cfg =
     (let spendable = rd_balance r - lc_reserve cfg; s = rd_state r in
      if rd_phantom r \<and> s \<noteq> NoKey \<and> s \<noteq> Revoking then Revoke s PhantomReason
      else case s of
        Revoking \<Rightarrow> Transition s NoKey Revoked CompletingRevoke False
      | NoKey \<Rightarrow>
          if rd_halted r then Steady NoKey HaltedAwaiting
          else if spendable \<le> 0 then Transition s Starved NoCredits NothingToServe False
          else Transition s Active KeyClaimed MintedKey True
      | Rotating \<Rightarrow> Transition s Active KeyClaimed CompletingRotation True
      | Starved \<Rightarrow>
          if spendable > 0 then
            (if rd_has_key r \<and> rd_hold_secret r
             then Transition s Active KeyClaimed RecoveredKeyValid False
             else Transition s Active KeyClaimed RecoveredMinting True)
          else Steady Starved WaitingAccrual
      | Active \<Rightarrow> decide_serving r cfg
      | Draining \<Rightarrow> decide_serving r cfg)"

definition check_against_state_machine :: "life_state \<Rightarrow> life_event \<Rightarrow> life_state \<Rightarrow> bool" where
  "check_against_state_machine s e t \<longleftrightarrow> next_state s e = Some t"

fun restrict_to_observe :: "decision \<Rightarrow> reading \<Rightarrow> decision" where
  "restrict_to_observe (Steady s w) r = Steady s w"
| "restrict_to_observe (Transition s t e w mint) r =
     (if \<not> mint then Transition s t e w mint
      else if rd_has_key r \<and> rd_hold_secret r then Transition s t e AdoptedKey False
      else Steady (rd_state r) (WouldMint w))"
| "restrict_to_observe (Rotate s w) r = Steady (rd_state r) (WouldRotate w)"
| "restrict_to_observe (Revoke s w) r = Steady (rd_state r) (WouldRevoke w)"


section \<open>The runner\<close>

record oauth_keys =
  ok_key :: "string option"
  ok_prefix :: "string option"
  ok_baseline :: "spend_baseline option"

record log_row =
  lr_snapshot :: bool
  lr_prev :: life_state
  lr_new :: life_state
  lr_reason :: reason
  lr_ids_mismatch :: bool
  lr_billing :: "billing_status option"
  lr_key_prefix :: "string option"
  lr_balance :: real
  lr_ledger :: real
  lr_provider :: real

datatype api_call = CreateKey | RevokeKey

text \<open>An epoch row: its time, the provider's cumulative spend and the effective status.\<close>

record epoch_row =
  ep_at :: millis
  ep_spend :: real
  ep_result :: epoch_result
  ep_billing :: billing_status

text \<open>Newest first: log rows, epochs, provider calls.\<close>

record runner =
  rn_state :: life_state
  rn_halted :: bool
  rn_anomalies :: nat
  rn_store :: oauth_keys
  rn_ledger :: ledger
  rn_epochs :: "epoch_row list"
  rn_log :: "log_row list"
  rn_calls :: "api_call list"

text \<open>What the provider answers during one tick; \<open>None\<close> for \<open>ti_create\<close>: the call throws.\<close>

record tick_input =
  ti_now :: millis
  ti_balance :: real
  ti_spend :: real
  ti_has_key :: bool
  ti_prefix :: "string option"
  ti_created :: "millis option"
  ti_env_key :: "string option"
  ti_create :: "(string \<times> string) option"

definition observing :: "life_config \<Rightarrow> bool" where
  "observing cfg \<longleftrightarrow> lc_gateway cfg \<or> \<not> lc_managed cfg"

definition starting_state :: "log_row list \<Rightarrow> life_state" where
  "starting_state rows = (case rows of [] \<Rightarrow> NoKey | r # _ \<Rightarrow> lr_new r)"

definition starting_halted :: "log_row list \<Rightarrow> bool" where
  "starting_halted rows = (case rows of [] \<Rightarrow> False
     | r # _ \<Rightarrow> lr_new r = NoKey \<and> (lr_ids_mismatch r \<or> lr_billing r = Some PhantomSpend))"

text \<open>A restarted process: the store, the ledger, the epochs and the log survive.\<close>

definition restart :: "runner \<Rightarrow> runner" where
  "restart rn = rn\<lparr>rn_state := starting_state (rn_log rn), rn_halted := starting_halted (rn_log rn), rn_anomalies := 0\<rparr>"

definition same_prefix :: "string option \<Rightarrow> string option \<Rightarrow> bool" where
  "same_prefix a b = (case (a, b) of (Some x, Some y) \<Rightarrow> x \<noteq> [] \<and> y \<noteq> [] \<and> take 14 x = take 14 y | _ \<Rightarrow> False)"

text \<open>\<open>status.hasKey && status.kp && baseline missing or of another key\<close>: set the baseline.\<close>

definition establish_baseline :: "tick_input \<Rightarrow> real \<Rightarrow> oauth_keys \<Rightarrow> oauth_keys" where
  "establish_baseline ti ledger_total st =
     (case ti_prefix ti of
        None \<Rightarrow> st
      | Some p \<Rightarrow>
          if ti_has_key ti \<and> p \<noteq> [] \<and>
             (case ok_baseline st of None \<Rightarrow> True | Some b \<Rightarrow> sb_key_prefix b \<noteq> p)
          then st\<lparr>ok_baseline := Some \<lparr>sb_key_prefix = p, sb_provider = ti_spend ti,
                   sb_ledger = ledger_total, sb_at = ti_now ti\<rparr>\<rparr>
          else st)"

definition spend_prev :: "epoch_row list \<Rightarrow> oauth_keys \<Rightarrow> tick_input \<Rightarrow> real" where
  "spend_prev eps st ti =
     (case eps of e # _ \<Rightarrow> ep_spend e
      | [] \<Rightarrow> (case ok_baseline st of Some b \<Rightarrow> sb_provider b | None \<Rightarrow> ti_spend ti))"

definition window_start :: "epoch_row list \<Rightarrow> oauth_keys \<Rightarrow> tick_input \<Rightarrow> millis" where
  "window_start eps st ti =
     (case eps of e # _ \<Rightarrow> ep_at e
      | [] \<Rightarrow> (case ok_baseline st of Some b \<Rightarrow> sb_at b | None \<Rightarrow> ti_now ti))"

definition lag_count :: "life_config \<Rightarrow> epoch_row list \<Rightarrow> ledger \<Rightarrow> nat" where
  "lag_count cfg eps rows =
     (case eps of
        [] \<Rightarrow> 0
      | e # rest \<Rightarrow>
          snd (window_estimate
            (Some (case rest of e' # _ \<Rightarrow> ep_at e' | [] \<Rightarrow> ep_at e - lc_interval_ms cfg)) (ep_at e) rows))"

definition tick_epoch_input :: "life_config \<Rightarrow> tick_input \<Rightarrow> oauth_keys \<Rightarrow> runner \<Rightarrow> epoch_input" where
  "tick_epoch_input cfg ti st rn =
     (let win = window_estimate (Some (window_start (rn_epochs rn) st ti)) (ti_now ti) (rn_ledger rn)
      in \<lparr>ei_spend_now = ti_spend ti, ei_spend_prev = spend_prev (rn_epochs rn) st ti,
          ei_local_estimate = fst win, ei_request_count = snd win,
          ei_anomaly_pct = lc_anomaly_pct cfg, ei_phantom_tolerance = lc_phantom_tolerance cfg,
          ei_lag_request_count = Some (lag_count cfg (rn_epochs rn) (rn_ledger rn)),
          ei_min_grade = None\<rparr>)"

text \<open>The epoch of a tick: its row is created and its factor applied to the ledger.\<close>

definition close_epoch :: "life_config \<Rightarrow> tick_input \<Rightarrow> oauth_keys \<Rightarrow> runner \<Rightarrow> runner" where
  "close_epoch cfg ti st rn =
     (let ep = reconcile_epoch (tick_epoch_input cfg ti st rn);
          n = count_anomaly ep (rn_anomalies rn);
          row = \<lparr>ep_at = ti_now ti, ep_spend = ti_spend ti, ep_result = ep,
                 ep_billing = effective_billing (lc_anomaly_epochs cfg) n ep\<rparr>
      in rn\<lparr>rn_anomalies := n, rn_epochs := row # rn_epochs rn,
            rn_ledger := snd (apply_reconciliation (Some (window_start (rn_epochs rn) st ti)) (ti_now ti)
                                (length (rn_epochs rn)) (er_factor ep) (rn_ledger rn))\<rparr>)"

definition held_key :: "life_config \<Rightarrow> tick_input \<Rightarrow> oauth_keys \<Rightarrow> string option" where
  "held_key cfg ti st = (if observing cfg then ti_env_key ti else ok_key st)"

definition holds_secret :: "life_config \<Rightarrow> tick_input \<Rightarrow> oauth_keys \<Rightarrow> bool" where
  "holds_secret cfg ti st =
     (if lc_gateway cfg then ti_has_key ti
      else (case held_key cfg ti st of None \<Rightarrow> False | Some k \<Rightarrow> k \<noteq> []) \<and>
           (nullish (ti_prefix ti) [] = [] \<or>
            same_prefix (ti_prefix ti) (if observing cfg then held_key cfg ti st else ok_prefix st)))"

definition tick_reading :: "life_config \<Rightarrow> tick_input \<Rightarrow> oauth_keys \<Rightarrow> runner \<Rightarrow> bool \<Rightarrow> reading" where
  "tick_reading cfg ti st rn ph =
     \<lparr>rd_state = rn_state rn, rd_halted = rn_halted rn, rd_balance = ti_balance ti,
      rd_has_key = ti_has_key ti, rd_hold_secret = holds_secret cfg ti st,
      rd_key_age_days = (if ti_has_key ti
        then map_option (\<lambda>c. of_int (ti_now ti - c) / 86400000) (ti_created ti) else None),
      rd_phantom = ph\<rparr>"


subsection \<open>Acting on a decision\<close>

text \<open>The columns every row of a tick shares.\<close>

record row_common =
  rc_billing :: billing_status
  rc_key_prefix :: "string option"
  rc_balance :: real
  rc_ledger :: real
  rc_provider :: real

definition life_row ::
    "bool \<Rightarrow> life_state \<Rightarrow> life_state \<Rightarrow> reason \<Rightarrow> bool \<Rightarrow> string option \<Rightarrow> row_common \<Rightarrow> log_row" where
  "life_row snap s t w mismatch kp c =
     \<lparr>lr_snapshot = snap, lr_prev = s, lr_new = t, lr_reason = w, lr_ids_mismatch = mismatch,
      lr_billing = Some (rc_billing c), lr_key_prefix = kp, lr_balance = rc_balance c,
      lr_ledger = rc_ledger c, lr_provider = rc_provider c\<rparr>"

definition append_row :: "log_row \<Rightarrow> runner \<Rightarrow> runner" where
  "append_row row rn = rn\<lparr>rn_log := row # rn_log rn\<rparr>"

text \<open>
  \<open>mint\<close>: without the MCP session it throws before any call; otherwise the call is made,
  and on an answer the new key, its prefix and its baseline are stored.
\<close>

definition mint_key :: "life_config \<Rightarrow> tick_input \<Rightarrow> real \<Rightarrow> runner \<Rightarrow> string option \<times> runner" where
  "mint_key cfg ti ledger_total rn =
     (if lc_gateway cfg then (None, rn)
      else (case ti_create ti of
          None \<Rightarrow> (None, rn\<lparr>rn_calls := CreateKey # rn_calls rn\<rparr>)
        | Some (key, kp) \<Rightarrow>
            (Some kp, rn\<lparr>rn_calls := CreateKey # rn_calls rn,
               rn_store := \<lparr>ok_key = Some key, ok_prefix = Some kp,
                 ok_baseline = Some \<lparr>sb_key_prefix = kp, sb_provider = ti_spend ti,
                   sb_ledger = ledger_total, sb_at = ti_now ti\<rparr>\<rparr>\<rparr>)))"

definition do_transition ::
    "life_state \<Rightarrow> life_state \<Rightarrow> reason \<Rightarrow> bool \<Rightarrow> string option \<Rightarrow> row_common \<Rightarrow> runner \<Rightarrow> runner" where
  "do_transition s t w mismatch kp c rn =
     append_row (life_row True t t (SnapshotAfter t) mismatch kp c)
       ((append_row (life_row False s t w mismatch kp c) rn)\<lparr>rn_state := t\<rparr>)"

definition do_rotate ::
    "life_config \<Rightarrow> tick_input \<Rightarrow> real \<Rightarrow> life_state \<Rightarrow> reason \<Rightarrow> bool \<Rightarrow> row_common \<Rightarrow> runner \<Rightarrow> runner" where
  "do_rotate cfg ti ledger_total s w mismatch c rn =
     (case mint_key cfg ti ledger_total (append_row (life_row False s Rotating w mismatch (rc_key_prefix c) c) rn) of
        (None, rn') \<Rightarrow> rn'
      | (Some p, rn') \<Rightarrow> do_transition Rotating Active (RotatedTo p) mismatch (Some p) c rn')"

definition do_revoke :: "life_config \<Rightarrow> life_state \<Rightarrow> reason \<Rightarrow> bool \<Rightarrow> row_common \<Rightarrow> runner \<Rightarrow> runner" where
  "do_revoke cfg s w compromise c rn =
     (let rn1 = append_row (life_row False s Revoking w compromise (rc_key_prefix c) c) rn;
          rn2 = (if lc_gateway cfg then rn1 else rn1\<lparr>rn_calls := RevokeKey # rn_calls rn1\<rparr>);
          rn3 = rn2\<lparr>rn_store := \<lparr>ok_key = None, ok_prefix = None, ok_baseline = None\<rparr>\<rparr>;
          rn4 = append_row (life_row False Revoking NoKey
                  (if compromise then RevokedHalting else RevokedRemint) compromise None c) rn3
      in append_row (life_row True NoKey NoKey SnapshotHalted True None c)
           (rn4\<lparr>rn_state := NoKey, rn_halted := True\<rparr>))"

definition act ::
    "life_config \<Rightarrow> tick_input \<Rightarrow> real \<Rightarrow> bool \<Rightarrow> bool \<Rightarrow> row_common \<Rightarrow> decision \<Rightarrow> runner \<Rightarrow> runner" where
  "act cfg ti ledger_total mismatch ph c d rn =
     (case d of
        Steady s w \<Rightarrow> append_row (life_row True (rn_state rn) (rn_state rn) w mismatch (rc_key_prefix c) c) rn
      | Transition s t e w mint \<Rightarrow>
          if \<not> mint then do_transition s t w mismatch (rc_key_prefix c) c rn
          else (case mint_key cfg ti ledger_total rn of
              (None, rn') \<Rightarrow> rn'
            | (Some p, rn') \<Rightarrow> do_transition s t w mismatch (Some p) c rn')
      | Rotate s w \<Rightarrow> do_rotate cfg ti ledger_total s w mismatch c rn
      | Revoke s w \<Rightarrow> do_revoke cfg s w ph c rn)"

definition decide :: "life_config \<Rightarrow> reading \<Rightarrow> decision" where
  "decide cfg r = (let d = decide_lifecycle r cfg in if observing cfg then restrict_to_observe d r else d)"

text \<open>One tick after the provider was read.\<close>

definition life_tick :: "life_config \<Rightarrow> tick_input \<Rightarrow> runner \<Rightarrow> runner" where
  "life_tick cfg ti rn =
     (let ledger_total = total_spend None None (rn_ledger rn);
          st = establish_baseline ti ledger_total (rn_store rn);
          ids = reconcile_ids (ti_prefix ti) (ti_spend ti) ledger_total (ok_baseline st)
                  (lc_ids_tolerance cfg) (lc_ids_grace cfg);
          rn1 = close_epoch cfg ti st (rn\<lparr>rn_store := st\<rparr>);
          row = hd (rn_epochs rn1);
          ph = er_phantom (ep_result row);
          c = \<lparr>rc_billing = ep_billing row,
               rc_key_prefix = (case ok_prefix st of Some p \<Rightarrow> Some p
                                | None \<Rightarrow> if lc_gateway cfg then ti_prefix ti else None),
               rc_balance = ti_balance ti, rc_ledger = ledger_total, rc_provider = ti_spend ti\<rparr>
      in act cfg ti ledger_total (ids_mismatch ids) ph c
           (decide cfg (tick_reading cfg ti st rn1 ph)) rn1)"


subsection \<open>CREDIT activation before the epoch\<close>

record activation_memo =
  am_at :: millis
  am_balance_before :: real
  am_amount :: real

definition activation_pending :: "millis \<Rightarrow> real \<Rightarrow> activation_memo option \<Rightarrow> bool" where
  "activation_pending now balance memo =
     (case memo of None \<Rightarrow> False
      | Some m \<Rightarrow> now - am_at m < 600000 \<and> balance < am_balance_before m + am_amount m * (1 / 2))"

text \<open>
  The inputs the loop hands to \<open>activationDecision\<close>: \<open>since_last\<close> is \<open>None\<close> when it is not
  looked up; a wallet that never activated is infinitely old, here \<open>Some\<close> of the whole age.
\<close>

definition activation_query ::
    "bool \<Rightarrow> real \<Rightarrow> millis \<Rightarrow> millis option \<Rightarrow> millis option" where
  "activation_query pending held now last_self =
     (if \<not> pending \<and> held > 0 then (case last_self of Some t \<Rightarrow> Some (now - t) | None \<Rightarrow> Some now) else None)"

section \<open>Reachable runners\<close>

text \<open>
  A step of a running worker: a run's spend is recorded, or the loop ticks.  Both
  happen after the last epoch closed.
\<close>

definition after_last_epoch :: "millis \<Rightarrow> runner \<Rightarrow> bool" where
  "after_last_epoch t rn = (case rn_epochs rn of [] \<Rightarrow> True | e # _ \<Rightarrow> ep_at e < t)"

inductive life_step :: "life_config \<Rightarrow> runner \<Rightarrow> runner \<Rightarrow> bool" for cfg where
  spend: "after_last_epoch now rn \<Longrightarrow>
    life_step cfg rn (rn\<lparr>rn_ledger := snd (record_spend now e (rn_ledger rn))\<rparr>)"
| tick: "after_last_epoch (ti_now ti) rn \<Longrightarrow> life_step cfg rn (life_tick cfg ti rn)"

definition fresh_runner :: "oauth_keys \<Rightarrow> runner" where
  "fresh_runner st = \<lparr>rn_state = NoKey, rn_halted = False, rn_anomalies = 0, rn_store = st, rn_ledger = [],
     rn_epochs = [], rn_log = [], rn_calls = []\<rparr>"

inductive life_reach :: "life_config \<Rightarrow> runner \<Rightarrow> bool" for cfg where
  init: "life_reach cfg (fresh_runner st)"
| step: "life_reach cfg rn \<Longrightarrow> life_step cfg rn rn' \<Longrightarrow> life_reach cfg rn'"
| boot: "life_reach cfg rn \<Longrightarrow> life_reach cfg (restart rn)"

inductive_cases life_stepE: "life_step cfg rn rn'"

inductive life_run :: "life_config \<Rightarrow> runner \<Rightarrow> runner \<Rightarrow> bool" for cfg where
  stay: "life_run cfg rn rn"
| more: "life_run cfg rn rn' \<Longrightarrow> life_step cfg rn' rn'' \<Longrightarrow> life_run cfg rn rn''"

lemmas act_defs = append_row_def do_transition_def do_rotate_def do_revoke_def mint_key_def

lemma act_ledger [simp]: "rn_ledger (act cfg ti l m p c d rn) = rn_ledger rn"
  by (auto simp: act_def act_defs Let_def split: decision.splits option.splits prod.splits if_splits)

lemma act_epochs [simp]: "rn_epochs (act cfg ti l m p c d rn) = rn_epochs rn"
  by (auto simp: act_def act_defs Let_def split: decision.splits option.splits prod.splits if_splits)

lemma close_epoch_keeps [simp]:
  "rn_state (close_epoch cfg ti st rn) = rn_state rn" "rn_halted (close_epoch cfg ti st rn) = rn_halted rn"
  "rn_store (close_epoch cfg ti st rn) = rn_store rn" "rn_log (close_epoch cfg ti st rn) = rn_log rn"
  "rn_calls (close_epoch cfg ti st rn) = rn_calls rn"
  by (simp_all add: close_epoch_def Let_def)

subsection \<open>Decisions against the state machine\<close>

lemmas decision_defs = decide_lifecycle_def decide_serving_def next_state_def

lemma decide_transition_conforms:
  assumes "decide_lifecycle r cfg = Transition s t e w mint"
  shows "s = rd_state r \<and> (check_against_state_machine s e t \<or>
    ((s = Active \<or> s = Draining) \<and> \<not> rd_has_key r \<and> t = NoKey \<and> e = Revoked \<and> \<not> mint))"
  using assms
  by (auto simp: decision_defs check_against_state_machine_def Let_def
      split: life_state.splits if_splits option.splits)

lemma decide_rotate_conforms:
  "decide_lifecycle r cfg = Rotate s w \<Longrightarrow> s = rd_state r \<and> check_against_state_machine s HygieneDue Rotating"
  by (auto simp: decision_defs check_against_state_machine_def Let_def
      split: life_state.splits if_splits option.splits)

lemma decide_revoke_conforms:
  "decide_lifecycle r cfg = Revoke s w \<Longrightarrow>
     s = rd_state r \<and> check_against_state_machine s PhantomSpendEvent Revoking \<and>
     check_against_state_machine s IdsMismatch Revoking \<and> (rd_phantom r \<or> \<not> rd_hold_secret r)"
  by (auto simp: decision_defs check_against_state_machine_def Let_def
      split: life_state.splits if_splits option.splits)

lemma observe_conforms:
  assumes "restrict_to_observe d r = Transition s t e w mint"
  shows "\<not> mint" and "\<exists>w' mint'. d = Transition s t e w' mint'"
  using assms by (cases d; auto split: if_splits)+

lemma decide_transitionD:
  assumes "decide cfg r = Transition s t e w mint"
  shows "observing cfg \<Longrightarrow> \<not> mint" and "\<exists>w' mint'. decide_lifecycle r cfg = Transition s t e w' mint'"
  using assms observe_conforms [of "decide_lifecycle r cfg" r s t e w mint]
  by (auto simp: decide_def Let_def split: if_splits)

lemma observe_never_acts:
  "restrict_to_observe d r \<noteq> Rotate s w" "restrict_to_observe d r \<noteq> Revoke s w"
  by (cases d; simp)+

text \<open>
  every move of the runner agrees with the reference state machine, in both key
  management modes, with one exception: a key the provider no longer reports moves an
  active or draining runner to NO_KEY under the event REVOKED, which the machine only
  allows from REVOKING.
\<close>

theorem decisions_follow_state_machine:
  "(case decide cfg r of
      Steady s w \<Rightarrow> True
    | Transition s t e w mint \<Rightarrow> s = rd_state r \<and> (check_against_state_machine s e t \<or>
        (s \<in> {Active, Draining} \<and> \<not> rd_has_key r \<and> e = Revoked \<and> t = NoKey))
    | Rotate s w \<Rightarrow> s = rd_state r \<and> check_against_state_machine s HygieneDue Rotating
        \<and> check_against_state_machine Rotating KeyClaimed Active
    | Revoke s w \<Rightarrow> s = rd_state r \<and> check_against_state_machine s PhantomSpendEvent Revoking
        \<and> check_against_state_machine Revoking Revoked NoKey)"
proof (cases "decide cfg r")
  case (Transition s t e w mint)
  then obtain w' mint' where "decide_lifecycle r cfg = Transition s t e w' mint'"
    using decide_transitionD(2) by blast
  from decide_transition_conforms [OF this] show ?thesis using Transition by auto
next
  case (Rotate s w)
  then have "decide_lifecycle r cfg = Rotate s w"
    using observe_never_acts by (auto simp: decide_def Let_def split: if_splits)
  from decide_rotate_conforms [OF this] show ?thesis
    using Rotate by (auto simp: check_against_state_machine_def next_state_def)
next
  case (Revoke s w)
  then have "decide_lifecycle r cfg = Revoke s w"
    using observe_never_acts by (auto simp: decide_def Let_def split: if_splits)
  from decide_revoke_conforms [OF this] show ?thesis
    using Revoke by (auto simp: check_against_state_machine_def next_state_def)
qed simp


subsection \<open>Observe mode\<close>

lemma observe_act_no_calls:
  "observing cfg \<Longrightarrow> rn_calls (act cfg ti l m p c (decide cfg r) rn) = rn_calls rn"
proof (cases "decide cfg r")
  case (Transition s t e w mint)
  assume "observing cfg"
  with Transition have "\<not> mint" using decide_transitionD(1) by blast
  with Transition show ?thesis by (simp add: act_def act_defs)
next
  case (Rotate s w)
  assume "observing cfg"
  with Rotate show ?thesis using observe_never_acts(1) by (auto simp: decide_def Let_def)
next
  case (Revoke s w)
  assume "observing cfg"
  with Revoke show ?thesis using observe_never_acts(2) by (auto simp: decide_def Let_def)
qed (simp add: act_def act_defs)

lemma life_tick_calls_observe: "observing cfg \<Longrightarrow> rn_calls (life_tick cfg ti rn) = rn_calls rn"
  by (simp add: life_tick_def Let_def observe_act_no_calls)

lemma observe_no_calls: "life_reach cfg rn \<Longrightarrow> observing cfg \<Longrightarrow> rn_calls rn = []"
proof (induction rule: life_reach.induct)
  case (step rn rn')
  have "rn_calls rn = []" by (rule step.IH [OF step.prems])
  with step.hyps(2) step.prems show ?case
    by (elim life_stepE) (simp_all add: life_tick_calls_observe)
qed (simp_all add: fresh_runner_def restart_def)

text \<open>
  C36: in observe mode, and always with the gateway source, no reachable runner has called
  the provider's key creation or revocation, whatever it read and however often it restarted.
\<close>

theorem observe_never_manages_keys:
  assumes "life_reach cfg rn" and "lc_gateway cfg \<or> \<not> lc_managed cfg"
  shows "rn_calls rn = []"
  using observe_no_calls [OF assms(1)] assms(2) by (simp add: observing_def)


theorem observe_never_manages_keys_witness:
  "rn_calls (restart (fresh_runner \<lparr>ok_key = None, ok_prefix = None, ok_baseline = None\<rparr>)) = []"
  using observe_never_manages_keys [OF life_reach.boot [OF life_reach.init],
      of "\<lparr>lc_reserve = 1, lc_low_water = 2, lc_hygiene_days = 30, lc_ids_tolerance = 1, lc_ids_grace = 1,
        lc_anomaly_pct = 50, lc_anomaly_epochs = 3, lc_phantom_tolerance = 0, lc_interval_ms = 60000,
        lc_gateway = True, lc_managed = False\<rparr>"]
  by simp

subsection \<open>Halting\<close>

lemma tick_epochs:
  "\<exists>e. rn_epochs (life_tick cfg ti rn) = e # rn_epochs rn \<and> ep_at e = ti_now ti \<and> ep_spend e = ti_spend ti"
  by (simp add: life_tick_def Let_def close_epoch_def)

lemma halted_decide:
  "rd_state r = NoKey \<Longrightarrow> rd_halted r \<Longrightarrow> decide cfg r = Steady NoKey HaltedAwaiting"
  by (simp add: decide_def decide_lifecycle_def Let_def)

lemma reading_state [simp]:
  "rd_state (tick_reading cfg ti st rn p) = rn_state rn" "rd_halted (tick_reading cfg ti st rn p) = rn_halted rn"
  "rd_balance (tick_reading cfg ti st rn p) = ti_balance ti" "rd_phantom (tick_reading cfg ti st rn p) = p"
  by (simp_all add: tick_reading_def)

lemma halted_tick:
  assumes "rn_state rn = NoKey" "rn_halted rn"
  shows "rn_state (life_tick cfg ti rn) = NoKey \<and> rn_halted (life_tick cfg ti rn) \<and>
    rn_calls (life_tick cfg ti rn) = rn_calls rn"
  using assms by (simp add: life_tick_def Let_def halted_decide act_def append_row_def)

text \<open>
  a halted runner without a key stays halted and never mints or revokes again, as
  long as its process lives.
\<close>

theorem halted_until_restart:
  assumes "life_run cfg rn rn'" and "rn_state rn = NoKey" and "rn_halted rn"
  shows "rn_state rn' = NoKey \<and> rn_halted rn' \<and> rn_calls rn' = rn_calls rn"
  using assms
proof (induction rule: life_run.induct)
  case (more rn rn' rn'')
  then have "rn_state rn' = NoKey" "rn_halted rn'" "rn_calls rn' = rn_calls rn" by auto
  with more.hyps(2) show ?case by (elim life_stepE) (simp_all add: halted_tick)
qed simp

definition halted_runner :: runner where
  "halted_runner = (fresh_runner \<lparr>ok_key = None, ok_prefix = None, ok_baseline = None\<rparr>)\<lparr>rn_halted := True\<rparr>"

definition quiet_input :: tick_input where
  "quiet_input = \<lparr>ti_now = 1000, ti_balance = 10, ti_spend = 3, ti_has_key = False, ti_prefix = None,
     ti_created = None, ti_env_key = None, ti_create = Some (''k'', ''p'')\<rparr>"

definition managed_config :: life_config where
  "managed_config = \<lparr>lc_reserve = 1, lc_low_water = 2, lc_hygiene_days = 30, lc_ids_tolerance = 1,
     lc_ids_grace = 1, lc_anomaly_pct = 50, lc_anomaly_epochs = 3, lc_phantom_tolerance = 1 / 100,
     lc_interval_ms = 60000, lc_gateway = False, lc_managed = True\<rparr>"

theorem halted_until_restart_witness:
  "rn_calls (life_tick managed_config quiet_input halted_runner) = []"
proof -
  have "life_run managed_config halted_runner (life_tick managed_config quiet_input halted_runner)"
    by (rule life_run.more [OF life_run.stay life_step.tick]) (simp add: after_last_epoch_def halted_runner_def fresh_runner_def)
  from halted_until_restart [OF this] show ?thesis by (simp add: halted_runner_def fresh_runner_def)
qed

text \<open>
  the halt does not survive a restart after a quiet tick: the steady row a halted runner
  appends without a mismatch and without phantom billing unmarks the log's last row, so the
  restarted runner is not halted and its next tick with balance above the reserve calls the
  provider to create a key.
\<close>

theorem halt_lost_on_restart:
  assumes "rn_state rn = NoKey" "rn_halted rn"
    and "ti_prefix ti = None" and "ep_billing (hd (rn_epochs (life_tick cfg ti rn))) \<noteq> PhantomSpend"
    and "\<not> lc_gateway cfg" "lc_managed cfg" and "lc_reserve cfg < ti_balance ti'"
  shows "\<not> rn_halted (restart (life_tick cfg ti rn)) \<and>
    rn_calls (life_tick cfg ti' (restart (life_tick cfg ti rn))) = CreateKey # rn_calls rn"
proof -
  let ?rn = "restart (life_tick cfg ti rn)"
  have log: "\<exists>row rest. rn_log (life_tick cfg ti rn) = row # rest \<and> lr_new row = NoKey \<and>
      \<not> lr_ids_mismatch row \<and> lr_billing row = Some (ep_billing (hd (rn_epochs (life_tick cfg ti rn))))"
    using assms(1-3)
    by (simp add: life_tick_def Let_def halted_decide act_def append_row_def life_row_def reconcile_ids_def no_baseline_def)
  then have s: "rn_state ?rn = NoKey" "\<not> rn_halted ?rn"
    using assms(4) by (auto simp: restart_def starting_state_def starting_halted_def)
  have calls: "rn_calls ?rn = rn_calls rn" using halted_tick [OF assms(1,2)] by (simp add: restart_def)
  have "decide cfg (tick_reading cfg ti' st rn1 p) = Transition NoKey Active KeyClaimed MintedKey True"
    if "rn_state rn1 = NoKey" "\<not> rn_halted rn1" for st rn1 p
    using that assms(5-7) by (simp add: decide_def decide_lifecycle_def observing_def)
  then have "rn_calls (life_tick cfg ti' ?rn) = CreateKey # rn_calls ?rn"
    using s assms(5) by (auto simp: life_tick_def Let_def act_def mint_key_def do_transition_def append_row_def split: option.split)
  with s calls show ?thesis by simp
qed

lemma quiet_billing: "ep_billing (hd (rn_epochs (life_tick managed_config quiet_input halted_runner))) = AggregateOnly"
  by (simp add: life_tick_def close_epoch_def Let_def halted_runner_def fresh_runner_def quiet_input_def
      managed_config_def establish_baseline_def tick_epoch_input_def window_estimate_def spend_prev_def
      reconcile_epoch_def ungraded_def epoch_delta_def effective_billing_def count_anomaly_def lag_count_def)

theorem halt_lost_on_restart_witness:
  "rn_calls (life_tick managed_config quiet_input (restart (life_tick managed_config quiet_input halted_runner))) = [CreateKey]"
  using halt_lost_on_restart [of halted_runner quiet_input managed_config quiet_input] quiet_billing
  by (simp add: halted_runner_def fresh_runner_def quiet_input_def managed_config_def)


subsection \<open>The lag window\<close>

definition lag_inv :: "runner \<Rightarrow> bool" where
  "lag_inv rn = (case rn_epochs rn of
     e # e' # _ \<Rightarrow> list_all (\<lambda>r. ep_at e' < sr_at r \<and> sr_at r \<le> ep_at e \<longrightarrow> sr_epoch r \<noteq> None) (rn_ledger rn)
   | _ \<Rightarrow> True)"

lemma apply_stamps:
  "list_all (\<lambda>r. a < sr_at r \<and> sr_at r \<le> b \<longrightarrow> sr_epoch r \<noteq> None) (snd (apply_reconciliation (Some a) b n f rows))"
proof -
  have "sr_at (reconcile_row n f r) = sr_at r" for r
    by (simp add: reconcile_row_def Let_def split: option.splits)
  then show ?thesis by (auto simp: apply_reconciliation_def list_all_iff in_window_def)
qed

lemma tick_ledger:
  "rn_ledger (life_tick cfg ti rn) =
     snd (apply_reconciliation
       (Some (window_start (rn_epochs rn) (establish_baseline ti (total_spend None None (rn_ledger rn)) (rn_store rn)) ti))
       (ti_now ti) (length (rn_epochs rn)) (er_factor (ep_result (hd (rn_epochs (life_tick cfg ti rn))))) (rn_ledger rn))"
  by (simp add: life_tick_def Let_def close_epoch_def)

lemma lag_inv_tick: "lag_inv (life_tick cfg ti rn)"
proof (cases "rn_epochs rn")
  case (Cons e' es)
  obtain e where e: "rn_epochs (life_tick cfg ti rn) = e # rn_epochs rn" "ep_at e = ti_now ti"
    using tick_epochs by blast
  show ?thesis
    using apply_stamps [of "ep_at e'"] by (subst lag_inv_def) (simp add: e Cons tick_ledger window_start_def)
next
  case Nil
  then show ?thesis using tick_epochs [of cfg ti rn] by (auto simp: lag_inv_def)
qed

lemma lag_inv_spend:
  assumes "lag_inv rn" "after_last_epoch now rn"
  shows "lag_inv (rn\<lparr>rn_ledger := snd (record_spend now e (rn_ledger rn))\<rparr>)"
  using assms
  by (auto simp: lag_inv_def after_last_epoch_def record_spend_def Let_def
      split: list.splits option.splits if_splits)

lemma lag_inv_reach: "life_reach cfg rn \<Longrightarrow> lag_inv rn"
proof (induction rule: life_reach.induct)
  case (init st)
  show ?case by (simp add: lag_inv_def fresh_runner_def)
next
  case (step rn rn')
  from step.hyps(2) step.IH show ?case by (elim life_stepE) (auto intro: lag_inv_tick lag_inv_spend)
next
  case (boot rn)
  then show ?case by (auto simp: lag_inv_def restart_def split: list.splits)
qed

lemma lag_count_zero:
  assumes "lag_inv rn" "2 \<le> length (rn_epochs rn)"
  shows "lag_count cfg (rn_epochs rn) (rn_ledger rn) = 0"
proof -
  obtain e e' es where "rn_epochs rn = e # e' # es"
    using assms(2) by (cases "rn_epochs rn" rule: remdups_adj.cases) auto
  with assms(1) show ?thesis
    by (auto simp: lag_inv_def lag_count_def window_estimate_def Let_def filter_empty_conv in_window_def list_all_iff)
qed

text \<open>
  C16: the grace for late charges never applies: from the third epoch on, the count of
  requests in the previous window is always 0, because that window's rows were stamped with
  their epoch when it closed and the count only sees rows without one.  A charge above the
  tolerance that lands in an idle window therefore reads as phantom spend however busy
  the window before it was.
\<close>

theorem late_charge_reads_as_phantom:
  assumes "life_reach cfg rn" and "2 \<le> length (rn_epochs rn)"
    and "list_all (\<lambda>r. sr_at r \<le> ep_at (hd (rn_epochs rn))) (rn_ledger rn)"
    and "lc_phantom_tolerance cfg < round6 (max 0 (ti_spend ti - ep_spend (hd (rn_epochs rn))))"
  shows "lag_count cfg (rn_epochs rn) (rn_ledger rn) = 0 \<and>
    ep_billing (hd (rn_epochs (life_tick cfg ti rn))) = PhantomSpend"
proof -
  have lag: "lag_count cfg (rn_epochs rn) (rn_ledger rn) = 0"
    by (rule lag_count_zero [OF lag_inv_reach [OF assms(1)] assms(2)])
  obtain e es where e: "rn_epochs rn = e # es" using assms(2) by (cases "rn_epochs rn") auto
  have "filter (in_window (Some (ep_at e)) (ti_now ti)) (rn_ledger rn) = []"
    using assms(3) e by (auto simp: filter_empty_conv in_window_def list_all_iff)
  then have "er_phantom (reconcile_epoch (tick_epoch_input cfg ti st (rn\<lparr>rn_store := st\<rparr>)))" for st
    using assms(4) lag e
    by (simp add: epoch_phantom_iff tick_epoch_input_def window_start_def window_estimate_def epoch_delta_def spend_prev_def)
  then show ?thesis using lag by (simp add: life_tick_def Let_def close_epoch_def effective_billing_def)
qed

definition demo_spend :: spend_entry where
  "demo_spend = \<lparr>se_cost = Some (1 / 10), se_model = ''m'', se_key_hash = None, se_report = None,
     se_generation = None, se_prompt_tokens = None, se_completion_tokens = None,
     se_estimate = Some (1 / 10), se_pricing = None, se_basis = Some TokenEstimate\<rparr>"

text \<open>An idle epoch, a request, the epoch that grades it: the state before the late charge.\<close>

definition after_busy :: runner where
  "after_busy =
     (let rn1 = life_tick managed_config quiet_input
                  (fresh_runner \<lparr>ok_key = None, ok_prefix = None, ok_baseline = None\<rparr>);
          rn2 = rn1\<lparr>rn_ledger := snd (record_spend 1500 demo_spend (rn_ledger rn1))\<rparr>
      in life_tick managed_config (quiet_input\<lparr>ti_now := 2000\<rparr>) rn2)"

lemma after_busy_reach: "life_reach managed_config after_busy"
proof -
  let ?st = "\<lparr>ok_key = None, ok_prefix = None, ok_baseline = None\<rparr>"
  let ?rn1 = "life_tick managed_config quiet_input (fresh_runner ?st)"
  let ?rn2 = "?rn1\<lparr>rn_ledger := snd (record_spend 1500 demo_spend (rn_ledger ?rn1))\<rparr>"
  have 1: "life_reach managed_config ?rn1"
    by (rule life_reach.step [OF life_reach.init life_step.tick]) (simp add: after_last_epoch_def fresh_runner_def)
  have e1: "after_last_epoch t ?rn1 = (1000 < t)" for t
    using tick_epochs [of managed_config quiet_input "fresh_runner ?st"]
    by (auto simp: after_last_epoch_def quiet_input_def)
  have 2: "life_reach managed_config ?rn2"
    by (rule life_reach.step [OF 1 life_step.spend]) (simp add: e1)
  have e2: "after_last_epoch t ?rn2 = (1000 < t)" for t using e1 [of t] by (simp add: after_last_epoch_def)
  have "life_reach managed_config (life_tick managed_config (quiet_input\<lparr>ti_now := 2000\<rparr>) ?rn2)"
    by (rule life_reach.step [OF 2 life_step.tick]) (simp only: e2, simp)
  then show ?thesis by (simp add: after_busy_def Let_def)
qed

lemma after_busy_shape:
  "2 \<le> length (rn_epochs after_busy)" "ep_at (hd (rn_epochs after_busy)) = 2000"
  "ep_spend (hd (rn_epochs after_busy)) = 3" "list_all (\<lambda>r. sr_at r \<le> 2000) (rn_ledger after_busy)"
proof -
  let ?st = "\<lparr>ok_key = None, ok_prefix = None, ok_baseline = None\<rparr>"
  let ?rn1 = "life_tick managed_config quiet_input (fresh_runner ?st)"
  let ?rn2 = "?rn1\<lparr>rn_ledger := snd (record_spend 1500 demo_spend (rn_ledger ?rn1))\<rparr>"
  have b: "after_busy = life_tick managed_config (quiet_input\<lparr>ti_now := 2000\<rparr>) ?rn2" by (simp add: after_busy_def Let_def)
  obtain e where e: "rn_epochs after_busy = e # rn_epochs ?rn2" "ep_at e = 2000" "ep_spend e = 3"
    using tick_epochs [of managed_config "quiet_input\<lparr>ti_now := 2000\<rparr>" ?rn2] b by (auto simp: quiet_input_def)
  show "2 \<le> length (rn_epochs after_busy)"
    using e tick_epochs [of managed_config quiet_input "fresh_runner ?st"] by auto
  show "ep_at (hd (rn_epochs after_busy)) = 2000" "ep_spend (hd (rn_epochs after_busy)) = 3"
    using e by simp_all
  have at: "sr_at (reconcile_row n f r) = sr_at r" for n f r
    by (simp add: reconcile_row_def Let_def split: option.splits)
  have "rn_ledger ?rn1 = []" by (simp add: tick_ledger fresh_runner_def apply_reconciliation_def)
  then have "list_all (\<lambda>r. sr_at r = 1500) (rn_ledger ?rn2)" by (simp add: record_spend_def demo_spend_def)
  then show "list_all (\<lambda>r. sr_at r \<le> 2000) (rn_ledger after_busy)"
    unfolding b tick_ledger by (auto simp: apply_reconciliation_def list_all_iff at)
qed

theorem late_charge_reads_as_phantom_witness:
  "ep_billing (hd (rn_epochs (life_tick managed_config (quiet_input\<lparr>ti_now := 3000, ti_spend := 4\<rparr>) after_busy))) = PhantomSpend"
  using late_charge_reads_as_phantom [OF after_busy_reach, of "quiet_input\<lparr>ti_now := 3000, ti_spend := 4\<rparr>"]
    after_busy_shape round_dp_int [of 6 1]
  by (simp add: managed_config_def)

subsection \<open>The housekeeping revoke\<close>

lemma baseline_keeps_key [simp]: "ok_key (establish_baseline ti l st) = ok_key st"
  by (simp add: establish_baseline_def split: option.split)

text \<open>
  a key whose secret is missing is revoked to be minted again, and the log row says so,
  but the runner is halted as if compromised, so the next tick makes no provider call.
\<close>

theorem unusable_key_revoke_halts:
  assumes "rn_state rn = Active" "\<not> lc_gateway cfg" "lc_managed cfg"
    and "ti_has_key ti" "ok_key (rn_store rn) = None"
    and "\<not> er_phantom (ep_result (hd (rn_epochs (life_tick cfg ti rn))))"
  shows "lr_reason (rn_log (life_tick cfg ti rn) ! 1) = RevokedRemint \<and>
    rn_halted (life_tick cfg ti rn) \<and>
    rn_calls (life_tick cfg ti' (life_tick cfg ti rn)) = RevokeKey # rn_calls rn"
proof -
  have d: "decide cfg (tick_reading cfg ti (establish_baseline ti l (rn_store rn)) rn1 False) = Revoke Active SecretMissing"
    if "rn_state rn1 = Active" for rn1 l
    using that assms(2-5)
    by (simp add: decide_def decide_lifecycle_def decide_serving_def observing_def tick_reading_def
        holds_secret_def held_key_def)
  have p: "\<not> er_phantom (ep_result (hd (rn_epochs (close_epoch cfg ti st (rn\<lparr>rn_store := st\<rparr>)))))"
    if "st = establish_baseline ti (total_spend None None (rn_ledger rn)) (rn_store rn)" for st
    using assms(6) that by (simp add: life_tick_def Let_def)
  have t: "lr_reason (rn_log (life_tick cfg ti rn) ! 1) = RevokedRemint" "rn_halted (life_tick cfg ti rn)"
    "rn_state (life_tick cfg ti rn) = NoKey" "rn_calls (life_tick cfg ti rn) = RevokeKey # rn_calls rn"
    using p [OF refl] assms(1,2)
    by (simp_all add: life_tick_def Let_def d act_def do_revoke_def append_row_def life_row_def)
  with halted_tick [OF t(3,2)] show ?thesis by simp
qed

definition lost_secret_runner :: runner where
  "lost_secret_runner = (fresh_runner \<lparr>ok_key = None, ok_prefix = None, ok_baseline = None\<rparr>)\<lparr>rn_state := Active\<rparr>"

lemma lost_secret_billing:
  "\<not> er_phantom (ep_result (hd (rn_epochs (life_tick managed_config (quiet_input\<lparr>ti_has_key := True\<rparr>) lost_secret_runner))))"
  by (simp add: life_tick_def close_epoch_def Let_def lost_secret_runner_def fresh_runner_def quiet_input_def
      managed_config_def establish_baseline_def tick_epoch_input_def window_estimate_def spend_prev_def
      reconcile_epoch_def ungraded_def epoch_delta_def)

theorem unusable_key_revoke_halts_witness:
  "rn_calls (life_tick managed_config quiet_input
     (life_tick managed_config (quiet_input\<lparr>ti_has_key := True\<rparr>) lost_secret_runner)) = [RevokeKey]"
  using unusable_key_revoke_halts [of lost_secret_runner managed_config "quiet_input\<lparr>ti_has_key := True\<rparr>" quiet_input]
    lost_secret_billing
  by (simp add: managed_config_def quiet_input_def lost_secret_runner_def fresh_runner_def)

end
