(* ===== verification/LifecycleChain.thy ===== *)
theory LifecycleChain
  imports Prelude
begin

text \<open>
  The hash chain of the lifecycle log: the signed body and its verifier
  (\<open>packages/db/src/lifecycle-chain.ts\<close>), the entry builder and the older chain check
  (\<open>apps/worker/src/metabolism/lifecycle.ts\<close>), the log writer with its compare-and-append
  under the advisory lock (\<open>lifecycle-runner.ts\<close>) and the API's reader
  (\<open>apps/api/src/server.ts\<close>).  The hash of a body (keccak256 of its canonical JSON) is a
  parameter; what is relied on is that different bodies have different hashes.
\<close>

type_synonym hash = string


section \<open>Bodies and rows\<close>

record body_data =
  b_at :: millis
  b_prev_state :: "string option"
  b_new_state :: string
  b_reason :: string
  b_snapshot :: bool
  b_key_prefix :: "string option"
  b_balance :: "real option"
  b_key_remaining :: "real option"
  b_reserve :: "real option"
  b_ledger :: "real option"
  b_provider :: "real option"
  b_ids_mismatch :: bool

type_synonym body_hasher = "body_data \<Rightarrow> hash \<Rightarrow> hash"

text \<open>A stored row: the body's fields, and the two hash columns, which may be null.\<close>

record chain_row =
  ch_data :: body_data
  ch_prev :: "hash option"
  ch_body :: "hash option"

record chain_check =
  ck_linked :: bool
  ck_intact :: bool
  ck_forks :: "nat list"
  ck_genesis :: bool
  ck_length :: nat
  ck_broken_at :: "nat option"

text \<open>The two row tests of the verifier's loop.\<close>

definition body_ok :: "body_hasher \<Rightarrow> hash \<Rightarrow> chain_row \<Rightarrow> bool" where
  "body_ok H genesis r \<longleftrightarrow> Some (H (ch_data r) (nullish (ch_prev r) genesis)) = ch_body r"

definition link_ok :: "chain_row list \<Rightarrow> chain_row \<Rightarrow> bool" where
  "link_ok before r \<longleftrightarrow> before = [] \<or> ch_prev r = ch_body (last before)"

definition known_parent :: "chain_row list \<Rightarrow> chain_row \<Rightarrow> bool" where
  "known_parent before r \<longleftrightarrow> (case ch_prev r of None \<Rightarrow> False
     | Some p \<Rightarrow> p \<noteq> [] \<and> (\<exists>q \<in> set before. ch_body q = Some p))"

record verify_state =
  vs_linked :: bool
  vs_broken :: "nat option"
  vs_forks :: "nat list"

definition verify_row ::
    "body_hasher \<Rightarrow> hash \<Rightarrow> chain_row list \<Rightarrow> chain_row \<Rightarrow> verify_state \<Rightarrow> verify_state" where
  "verify_row H genesis before r v =
     (let i = length before;
          break = (case vs_broken v of None \<Rightarrow> Some i | Some k \<Rightarrow> Some k)
      in if \<not> body_ok H genesis r then v\<lparr>vs_linked := False, vs_broken := break\<rparr>
         else if \<not> link_ok before r then
           (if known_parent before r then v\<lparr>vs_linked := False, vs_forks := vs_forks v @ [i]\<rparr>
            else v\<lparr>vs_linked := False, vs_broken := break\<rparr>)
         else v)"

fun verify_loop ::
    "body_hasher \<Rightarrow> hash \<Rightarrow> chain_row list \<Rightarrow> chain_row list \<Rightarrow> verify_state \<Rightarrow> verify_state" where
  "verify_loop H genesis before [] v = v"
| "verify_loop H genesis before (r # rs) v =
     verify_loop H genesis (before @ [r]) rs (verify_row H genesis before r v)"

definition verify_lifecycle_rows :: "body_hasher \<Rightarrow> hash \<Rightarrow> chain_row list \<Rightarrow> chain_check" where
  "verify_lifecycle_rows H genesis rows =
     (let v = verify_loop H genesis [] rows \<lparr>vs_linked = True, vs_broken = None, vs_forks = []\<rparr>
      in \<lparr>ck_linked = vs_linked v, ck_intact = (vs_broken v = None), ck_forks = vs_forks v,
          ck_genesis = (rows = [] \<or> nullish (ch_prev (hd rows)) genesis = genesis),
          ck_length = length rows, ck_broken_at = vs_broken v\<rparr>)"

text \<open>The worker's older check: a single chain from the genesis hash.\<close>

fun verify_chain_from :: "body_hasher \<Rightarrow> hash \<Rightarrow> (body_data \<times> hash \<times> hash) list \<Rightarrow> bool" where
  "verify_chain_from H prev [] = True"
| "verify_chain_from H prev ((d, p, b) # es) =
     (if p \<noteq> prev then False else if H d p \<noteq> b then False else verify_chain_from H b es)"

definition verify_lifecycle_chain :: "body_hasher \<Rightarrow> hash \<Rightarrow> (body_data \<times> hash \<times> hash) list \<Rightarrow> bool" where
  "verify_lifecycle_chain H genesis es = verify_chain_from H genesis es"


section \<open>The writer\<close>

text \<open>
  The table in insertion order.  The head is the body hash of the row with the latest
  \<open>createdAt\<close>; \<open>newer\<close> says whether the database returns the later inserted of two rows
  with the same time.
\<close>

definition latest_row :: "bool \<Rightarrow> chain_row list \<Rightarrow> chain_row option" where
  "latest_row newer rows = fold (\<lambda>r acc. case acc of None \<Rightarrow> Some r
     | Some a \<Rightarrow> if b_at (ch_data a) < b_at (ch_data r) \<or> (newer \<and> b_at (ch_data a) = b_at (ch_data r))
                 then Some r else Some a) rows None"

definition chain_head :: "hash \<Rightarrow> bool \<Rightarrow> chain_row list \<Rightarrow> hash" where
  "chain_head genesis newer rows =
     (case latest_row newer rows of None \<Rightarrow> genesis | Some r \<Rightarrow> nullish (ch_body r) genesis)"

text \<open>One entry: \<open>createdAt\<close> is the time in the body.\<close>

definition build_entry :: "body_hasher \<Rightarrow> body_data \<Rightarrow> hash \<Rightarrow> chain_row" where
  "build_entry H d prev = \<lparr>ch_data = d, ch_prev = Some prev, ch_body = Some (H d prev)\<rparr>"

text \<open>\<open>Inl head\<close>: \<open>HeadMovedError\<close>.\<close>

definition persist_row :: "hash \<Rightarrow> bool \<Rightarrow> chain_row \<Rightarrow> chain_row list \<Rightarrow> hash + chain_row list" where
  "persist_row genesis newer row rows =
     (let head = chain_head genesis newer rows in
      if Some head \<noteq> ch_prev row then Inl head else Inr (rows @ [row]))"

definition append_once ::
    "body_hasher \<Rightarrow> hash \<Rightarrow> bool \<Rightarrow> body_data \<Rightarrow> hash \<Rightarrow> chain_row list \<Rightarrow> hash + hash \<times> chain_row list" where
  "append_once H genesis newer d prev rows =
     (case persist_row genesis newer (build_entry H d prev) rows of
        Inl head \<Rightarrow> Inl head
      | Inr rows' \<Rightarrow> Inr (H d prev, rows'))"

text \<open>
  \<open>append\<close>: one retry onto the new head with a fresh time.  The result is whether it was
  stored, the writer's head afterwards and the table.
\<close>

definition append_entry ::
    "body_hasher \<Rightarrow> hash \<Rightarrow> bool \<Rightarrow> body_data \<Rightarrow> millis \<Rightarrow> hash \<Rightarrow> chain_row list \<Rightarrow>
     bool \<times> hash \<times> chain_row list" where
  "append_entry H genesis newer d retry_at prev rows =
     (case append_once H genesis newer d prev rows of
        Inr (h, rows') \<Rightarrow> (True, h, rows')
      | Inl head \<Rightarrow>
          (case append_once H genesis newer (d\<lparr>b_at := retry_at\<rparr>) head rows of
             Inr (h, rows') \<Rightarrow> (True, h, rows')
           | Inl _ \<Rightarrow> (False, head, rows)))"

text \<open>The API's window: the most recent rows by \<open>createdAt\<close>, oldest first.\<close>

definition api_window :: "nat \<Rightarrow> chain_row list \<Rightarrow> chain_row list" where
  "api_window limit rows =
     (let sorted_rows = sort_key (\<lambda>r. b_at (ch_data r)) rows
      in drop (length sorted_rows - limit) sorted_rows)"


section \<open>What the verifier decides\<close>

lemma verify_row_forks:
  "vs_forks (verify_row H g before r v) =
     vs_forks v @ (if body_ok H g r \<and> \<not> link_ok before r \<and> known_parent before r then [length before] else [])"
  by (simp add: verify_row_def Let_def)

lemma verify_row_linked: "vs_linked (verify_row H g before r v) \<longleftrightarrow> vs_linked v \<and> body_ok H g r \<and> link_ok before r"
  by (simp add: verify_row_def Let_def)

lemma verify_row_broken:
  "vs_broken (verify_row H g before r v) =
     (case vs_broken v of Some k \<Rightarrow> Some k
      | None \<Rightarrow> if body_ok H g r \<and> (link_ok before r \<or> known_parent before r) then None else Some (length before))"
  by (simp add: verify_row_def Let_def split: option.split)

lemmas verify_row_facts = verify_row_forks verify_row_linked verify_row_broken

text \<open>The tests at position \<open>i\<close> of a run of rows.\<close>

definition row_linked :: "body_hasher \<Rightarrow> hash \<Rightarrow> chain_row list \<Rightarrow> nat \<Rightarrow> bool" where
  "row_linked H g rows i \<longleftrightarrow> body_ok H g (rows ! i) \<and> link_ok (take i rows) (rows ! i)"

definition row_sound :: "body_hasher \<Rightarrow> hash \<Rightarrow> chain_row list \<Rightarrow> nat \<Rightarrow> bool" where
  "row_sound H g rows i \<longleftrightarrow> body_ok H g (rows ! i) \<and>
     (link_ok (take i rows) (rows ! i) \<or> known_parent (take i rows) (rows ! i))"

definition row_fork :: "body_hasher \<Rightarrow> hash \<Rightarrow> chain_row list \<Rightarrow> nat \<Rightarrow> bool" where
  "row_fork H g rows i \<longleftrightarrow> body_ok H g (rows ! i) \<and> \<not> link_ok (take i rows) (rows ! i) \<and>
     known_parent (take i rows) (rows ! i)"

lemma verify_loop_all:
  "(vs_linked (verify_loop H g before rs v) \<longleftrightarrow>
     vs_linked v \<and> (\<forall>i \<in> {length before ..< length before + length rs}. row_linked H g (before @ rs) i)) \<and>
   (vs_forks (verify_loop H g before rs v) =
     vs_forks v @ filter (row_fork H g (before @ rs)) [length before ..< length before + length rs]) \<and>
   (vs_broken (verify_loop H g before rs v) =
     (case vs_broken v of Some k \<Rightarrow> Some k
      | None \<Rightarrow> List.find (\<lambda>i. \<not> row_sound H g (before @ rs) i) [length before ..< length before + length rs]))"
proof (induction rs arbitrary: before v)
  case (Cons r rs)
  let ?n = "length before" and ?all = "before @ r # rs"
  have up: "[?n ..< ?n + length (r # rs)] = ?n # [Suc ?n ..< Suc ?n + length rs]"
    by (simp add: upt_rec)
  have at: "row_linked H g ?all ?n \<longleftrightarrow> body_ok H g r \<and> link_ok before r"
    "row_fork H g ?all ?n \<longleftrightarrow> body_ok H g r \<and> \<not> link_ok before r \<and> known_parent before r"
    "row_sound H g ?all ?n \<longleftrightarrow> body_ok H g r \<and> (link_ok before r \<or> known_parent before r)"
    by (simp_all add: row_linked_def row_fork_def row_sound_def)
  have set: "{?n ..< ?n + length (r # rs)} = insert ?n {Suc ?n ..< Suc ?n + length rs}" by auto
  note IH = Cons.IH [of "before @ [r]" "verify_row H g before r v"]
  have "vs_linked (verify_loop H g before (r # rs) v) \<longleftrightarrow>
     vs_linked v \<and> (\<forall>i \<in> {?n ..< ?n + length (r # rs)}. row_linked H g ?all i)"
    unfolding set using IH at(1) by (auto simp: verify_row_linked)
  moreover have "vs_forks (verify_loop H g before (r # rs) v) =
     vs_forks v @ filter (row_fork H g ?all) [?n ..< ?n + length (r # rs)]"
    unfolding up using IH at(2) by (simp add: verify_row_forks)
  moreover have "vs_broken (verify_loop H g before (r # rs) v) =
     (case vs_broken v of Some k \<Rightarrow> Some k
      | None \<Rightarrow> List.find (\<lambda>i. \<not> row_sound H g ?all i) [?n ..< ?n + length (r # rs)])"
    unfolding up using IH at(3) by (auto simp: verify_row_broken split: option.split)
  ultimately show ?case by blast
qed (auto split: option.split)

lemmas verify_loop_general = verify_loop_all [THEN conjunct1] verify_loop_all [THEN conjunct2, THEN conjunct1]
  verify_loop_all [THEN conjunct2, THEN conjunct2]

lemma verify_linked_iff:
  "ck_linked (verify_lifecycle_rows H g rows) \<longleftrightarrow> list_all (row_linked H g rows) [0 ..< length rows]"
  using verify_loop_general(1) [of H g "[]" rows]
  by (simp add: verify_lifecycle_rows_def Let_def list_all_iff)

lemma verify_intact_iff:
  "ck_intact (verify_lifecycle_rows H g rows) \<longleftrightarrow> list_all (row_sound H g rows) [0 ..< length rows]"
  using verify_loop_general(3) [of H g "[]" rows]
  by (auto simp: verify_lifecycle_rows_def Let_def list_all_iff find_None_iff)

lemma verify_forks_eq:
  "ck_forks (verify_lifecycle_rows H g rows) = filter (row_fork H g rows) [0 ..< length rows]"
  using verify_loop_general(2) [of H g "[]" rows] by (simp add: verify_lifecycle_rows_def Let_def)

section \<open>Tamper evidence\<close>

definition hashed :: "hash \<Rightarrow> chain_row list \<Rightarrow> (body_data \<times> hash) set" where
  "hashed g rows = set (map (\<lambda>r. (ch_data r, nullish (ch_prev r) g)) rows)"

lemma row_linked_prefix: "i < length rows \<Longrightarrow> row_linked H g (rows @ ys) i = row_linked H g rows i"
  by (simp add: row_linked_def nth_append)

lemma linked_snoc:
  "ck_linked (verify_lifecycle_rows H g (rows @ [r])) \<longleftrightarrow>
     ck_linked (verify_lifecycle_rows H g rows) \<and> body_ok H g r \<and> link_ok rows r"
proof -
  have "row_linked H g (rows @ [r]) (length rows) \<longleftrightarrow> body_ok H g r \<and> link_ok rows r"
    by (simp add: row_linked_def)
  then show ?thesis by (auto simp: verify_linked_iff list_all_iff row_linked_prefix)
qed

lemma linked_same_end:
  assumes "length rows = length rows'" "rows \<noteq> []"
    and "ck_linked (verify_lifecycle_rows H g rows)" "ck_linked (verify_lifecycle_rows H g rows')"
    and "ch_body (last rows) = ch_body (last rows')"
    and "inj_on (\<lambda>(d, p). H d p) (hashed g rows \<union> hashed g rows')"
  shows "map ch_data rows = map ch_data rows' \<and> map ch_body rows = map ch_body rows' \<and>
    nullish (ch_prev (hd rows)) g = nullish (ch_prev (hd rows')) g"
  using assms
proof (induction rows arbitrary: rows' rule: rev_induct)
  case (snoc r rows)
  obtain rows0 r' where r': "rows' = rows0 @ [r']" using snoc.prems(1) by (cases rows' rule: rev_cases) auto
  have ok: "body_ok H g r" "link_ok rows r" "ck_linked (verify_lifecycle_rows H g rows)"
    "body_ok H g r'" "link_ok rows0 r'" "ck_linked (verify_lifecycle_rows H g rows0)"
    using snoc.prems(3,4) r' by (simp_all add: linked_snoc)
  have "H (ch_data r) (nullish (ch_prev r) g) = H (ch_data r') (nullish (ch_prev r') g)"
    using snoc.prems(5) r' ok(1,4) by (simp add: body_ok_def) (metis option.inject)
  then have same: "ch_data r = ch_data r'" "nullish (ch_prev r) g = nullish (ch_prev r') g"
    using inj_onD [OF snoc.prems(6), of "(ch_data r, nullish (ch_prev r) g)" "(ch_data r', nullish (ch_prev r') g)"] r'
    by (auto simp: hashed_def)
  have b: "ch_body r = ch_body r'" using snoc.prems(5) r' by simp
  show ?case
  proof (cases "rows = []")
    case True
    then show ?thesis using same b r' snoc.prems(1) by simp
  next
    case False
    have ne: "rows0 \<noteq> []" using False snoc.prems(1) r' by auto
    have l: "ch_body (last rows) \<noteq> None" "ch_body (last rows0) \<noteq> None"
    proof -
      have "body_ok H g (last xs)" if "xs \<noteq> []" "ck_linked (verify_lifecycle_rows H g xs)" for xs
        using that by (cases xs rule: rev_cases) (auto simp: linked_snoc)
      then show "ch_body (last rows) \<noteq> None" "ch_body (last rows0) \<noteq> None"
        using False ne ok(3,6) unfolding body_ok_def by (metis option.distinct(1))+
    qed
    have "ch_body (last rows) = ch_body (last rows0)"
      using ok(2,5) False ne same(2) l by (auto simp: link_ok_def)
    moreover have "inj_on (\<lambda>(d, p). H d p) (hashed g rows \<union> hashed g rows0)"
      using snoc.prems(6) r' by (elim inj_on_subset) (auto simp: hashed_def)
    ultimately have "map ch_data rows = map ch_data rows0 \<and> map ch_body rows = map ch_body rows0 \<and>
        nullish (ch_prev (hd rows)) g = nullish (ch_prev (hd rows0)) g"
      using snoc.IH [of rows0] ok(3,6) False snoc.prems(1) r' by simp
    then show ?thesis using same b r' False ne by simp
  qed
qed simp

text \<open>
  tamper evidence: when the verifier accepts two equally long runs of rows as linked and
  they end in the same body hash, every row's signed body is the same, provided the
  hash has no collision among the bodies of the two runs.
\<close>

theorem linked_rows_tamper_evident:
  assumes "length rows = length rows'" "rows \<noteq> []"
    and "ck_linked (verify_lifecycle_rows H g rows)" "ck_linked (verify_lifecycle_rows H g rows')"
    and "ch_body (last rows) = ch_body (last rows')"
    and "inj_on (\<lambda>(d, p). H d p) (hashed g rows \<union> hashed g rows')"
  shows "map ch_data rows = map ch_data rows' \<and> map ch_body rows = map ch_body rows'"
  using linked_same_end [OF assms] by blast

definition demo_body :: "millis \<Rightarrow> string \<Rightarrow> body_data" where
  "demo_body t why = \<lparr>b_at = t, b_prev_state = None, b_new_state = ''ACTIVE'', b_reason = why, b_snapshot = False,
     b_key_prefix = None, b_balance = None, b_key_remaining = None, b_reserve = None, b_ledger = None,
     b_provider = None, b_ids_mismatch = False\<rparr>"

definition demo_hasher :: body_hasher where
  "demo_hasher d p = b_reason d @ ''|'' @ p"

definition demo_rows :: "chain_row list" where
  "demo_rows = [build_entry demo_hasher (demo_body 1 ''a'') ''0'',
                build_entry demo_hasher (demo_body 2 ''b'') (demo_hasher (demo_body 1 ''a'') ''0'')]"

lemmas chain_eval = verify_linked_iff row_linked_def body_ok_def link_ok_def build_entry_def
  demo_rows_def demo_body_def demo_hasher_def hashed_def

theorem linked_rows_tamper_evident_witness:
  "map ch_data demo_rows = map ch_data demo_rows \<and> ck_linked (verify_lifecycle_rows demo_hasher ''0'' demo_rows)"
proof -
  have ok: "ck_linked (verify_lifecycle_rows demo_hasher ''0'' demo_rows)"
    by (simp add: chain_eval upt_rec)
  have "inj_on (\<lambda>(d, p). demo_hasher d p) (hashed ''0'' demo_rows \<union> hashed ''0'' demo_rows)"
    by (simp add: inj_on_def chain_eval)
  from linked_rows_tamper_evident [OF refl _ ok ok refl this] ok show ?thesis by (simp add: demo_rows_def)
qed


section \<open>Many writers, one table\<close>

text \<open>
  A table grown by any interleaving of writers, each with any idea of the head: what
  enters is what \<open>persist_row\<close> lets in.  \<open>in_order\<close> is the assumption on the clocks: the
  row's time is later than that of the latest row (or equal, if the database breaks ties
  by insertion).
\<close>

definition in_order :: "bool \<Rightarrow> body_data \<Rightarrow> chain_row list \<Rightarrow> bool" where
  "in_order newer d rows = (case latest_row newer rows of None \<Rightarrow> True
     | Some a \<Rightarrow> b_at (ch_data a) < b_at d \<or> (newer \<and> b_at (ch_data a) = b_at d))"

inductive appended :: "body_hasher \<Rightarrow> hash \<Rightarrow> bool \<Rightarrow> (body_data \<Rightarrow> chain_row list \<Rightarrow> bool) \<Rightarrow> chain_row list \<Rightarrow> bool"
  for H g newer ok where
  none: "appended H g newer ok []"
| one: "appended H g newer ok rows \<Longrightarrow> persist_row g newer (build_entry H d prev) rows = Inr rows' \<Longrightarrow>
    ok d rows \<Longrightarrow> appended H g newer ok rows'"

lemma persist_row_Inr:
  "persist_row g newer row rows = Inr rows' \<longleftrightarrow> ch_prev row = Some (chain_head g newer rows) \<and> rows' = rows @ [row]"
  by (auto simp: persist_row_def Let_def)

lemma latest_row_snoc:
  "latest_row newer (rows @ [r]) = (case latest_row newer rows of None \<Rightarrow> Some r
     | Some a \<Rightarrow> if b_at (ch_data a) < b_at (ch_data r) \<or> (newer \<and> b_at (ch_data a) = b_at (ch_data r))
                 then Some r else Some a)"
  by (simp add: latest_row_def)

lemma appended_chain:
  assumes "appended H g newer (in_order newer) rows"
  shows "ck_linked (verify_lifecycle_rows H g rows) \<and>
    (rows \<noteq> [] \<longrightarrow> latest_row newer rows = Some (last rows) \<and> ch_body (last rows) \<noteq> None
       \<and> ch_prev (hd rows) = Some g)"
  using assms
proof (induction rule: appended.induct)
  case none
  show ?case by (simp add: verify_linked_iff)
next
  case (one rows d prev rows')
  let ?r = "build_entry H d prev"
  have p: "prev = chain_head g newer rows" "rows' = rows @ [?r]"
    using one.hyps(2) by (simp_all add: persist_row_Inr build_entry_def)
  have body: "body_ok H g ?r" by (simp add: body_ok_def build_entry_def)
  have link: "link_ok rows ?r"
    using one.IH p(1) by (auto simp: link_ok_def chain_head_def build_entry_def)
  have "latest_row newer rows' = Some ?r"
    using one.hyps(3) unfolding p(2) latest_row_snoc
    by (auto simp: in_order_def build_entry_def split: option.splits)
  moreover have "ch_prev (hd rows') = Some g"
    using one.IH p by (cases "rows = []") (simp_all add: chain_head_def latest_row_def build_entry_def)
  ultimately show ?case using one.IH body link p(2) by (simp add: linked_snoc build_entry_def)
qed

lemma linked_no_forks: "ck_linked (verify_lifecycle_rows H g rows) \<Longrightarrow> ck_forks (verify_lifecycle_rows H g rows) = []"
  by (auto simp: verify_linked_iff verify_forks_eq filter_empty_conv list_all_iff row_linked_def row_fork_def)

text \<open>
  C21: whatever writers append, with whatever stale heads and in whatever interleaving, as
  long as their clocks do not run backwards the log is one chain: linked, without
  forks, from the genesis hash.
\<close>

theorem concurrent_writers_keep_one_chain:
  assumes "appended H g newer (in_order newer) rows"
  shows "ck_linked (verify_lifecycle_rows H g rows) \<and> ck_forks (verify_lifecycle_rows H g rows) = [] \<and>
    ck_genesis (verify_lifecycle_rows H g rows)"
  using appended_chain [OF assms] linked_no_forks [of H g rows]
  by (auto simp: verify_lifecycle_rows_def Let_def)

lemma demo_appended: "appended demo_hasher ''0'' False (in_order False) demo_rows"
proof -
  let ?e = "build_entry demo_hasher (demo_body 1 ''a'') ''0''"
  have 1: "appended demo_hasher ''0'' False (in_order False) [?e]"
    by (rule appended.one [OF appended.none, where d = "demo_body 1 ''a''" and prev = "''0''"])
       (simp_all add: persist_row_Inr chain_head_def latest_row_def in_order_def build_entry_def)
  show ?thesis unfolding demo_rows_def
    by (rule appended.one [OF 1, where d = "demo_body 2 ''b''" and prev = "demo_hasher (demo_body 1 ''a'') ''0''"])
       (simp_all add: persist_row_Inr chain_head_def latest_row_def in_order_def build_entry_def demo_body_def)
qed

theorem concurrent_writers_keep_one_chain_witness:
  "ck_linked (verify_lifecycle_rows demo_hasher ''0'' demo_rows) \<and>
   ck_forks (verify_lifecycle_rows demo_hasher ''0'' demo_rows) = []"
  using concurrent_writers_keep_one_chain [OF demo_appended] by blast

text \<open>The writer's single retry stores the row when no other writer comes between.\<close>

lemma append_entry_stores:
  "\<exists>d' prev'. append_entry H g newer d retry_at prev rows = (True, H d' prev', rows @ [build_entry H d' prev']) \<and>
     prev' = chain_head g newer rows \<and> d' \<in> {d, d\<lparr>b_at := retry_at\<rparr>}"
  by (auto simp: append_entry_def append_once_def persist_row_def build_entry_def Let_def)

text \<open>
  with a writer whose clock is behind the latest row's time, the lock does not prevent a
  fork: its second row is chained onto the row with the latest time instead of its own,
  and the API, which reads the rows by time, reports the untampered log as broken.
\<close>

theorem skewed_clock_forks_chain:
  assumes "b_at d2 < b_at d3" "b_at d3 < b_at d1"
    and "H d1 g \<noteq> H d2 (H d1 g)" and "H d1 g \<noteq> []"
  shows "\<exists>rows. appended H g newer (\<lambda>d rows. True) rows \<and> map ch_data rows = [d1, d2, d3] \<and>
    ck_forks (verify_lifecycle_rows H g rows) = [2] \<and>
    \<not> ck_intact (verify_lifecycle_rows H g (api_window 3 rows))"
proof -
  let ?r1 = "build_entry H d1 g" and ?r2 = "build_entry H d2 (H d1 g)" and ?r3 = "build_entry H d3 (H d1 g)"
  have 1: "appended H g newer (\<lambda>d rows. True) [?r1]"
    by (rule appended.one [OF appended.none, where d = d1 and prev = g])
       (simp_all add: persist_row_Inr chain_head_def latest_row_def build_entry_def)
  have 2: "appended H g newer (\<lambda>d rows. True) [?r1, ?r2]"
    by (rule appended.one [OF 1, where d = d2 and prev = "H d1 g"])
       (simp_all add: persist_row_Inr chain_head_def latest_row_def build_entry_def)
  have 3: "appended H g newer (\<lambda>d rows. True) [?r1, ?r2, ?r3]"
    by (rule appended.one [OF 2, where d = d3 and prev = "H d1 g"])
       (use assms(1,2) in \<open>auto simp: persist_row_Inr chain_head_def latest_row_def build_entry_def\<close>)
  have forks: "ck_forks (verify_lifecycle_rows H g [?r1, ?r2, ?r3]) = [2]"
    using assms(3,4)
    by (simp add: verify_forks_eq upt_rec row_fork_def body_ok_def link_ok_def known_parent_def build_entry_def)
  have sorted: "api_window 3 [?r1, ?r2, ?r3] = [?r2, ?r3, ?r1]"
    using assms(1,2) by (simp add: api_window_def build_entry_def)
  have "\<not> row_sound H g [?r2, ?r3, ?r1] 1"
    using assms(3) by (simp add: row_sound_def link_ok_def known_parent_def build_entry_def)
  then have "\<not> ck_intact (verify_lifecycle_rows H g [?r2, ?r3, ?r1])"
    by (auto simp: verify_intact_iff list_all_iff)
  with 3 forks sorted show ?thesis by (intro exI [of _ "[?r1, ?r2, ?r3]"]) (simp add: build_entry_def)
qed

theorem skewed_clock_forks_chain_witness:
  "\<exists>rows. map ch_data rows = [demo_body 9 ''a'', demo_body 2 ''b'', demo_body 3 ''c''] \<and>
    ck_forks (verify_lifecycle_rows demo_hasher ''0'' rows) = [2]"
proof -
  have "b_at (demo_body 2 ''b'') < b_at (demo_body 3 ''c'')" "b_at (demo_body 3 ''c'') < b_at (demo_body 9 ''a'')"
    "demo_hasher (demo_body 9 ''a'') ''0'' \<noteq> demo_hasher (demo_body 2 ''b'') (demo_hasher (demo_body 9 ''a'') ''0'')"
    "demo_hasher (demo_body 9 ''a'') ''0'' \<noteq> []"
    by (simp_all add: demo_body_def demo_hasher_def)
  from skewed_clock_forks_chain [OF this, of False] show ?thesis by (elim exE conjE) (intro exI conjI)
qed

end
