(* ===== verification/Metrics.thy ===== *)
theory Metrics
  imports Prelude
begin

text \<open>
  The scoring metrics of \<open>packages/scoring/src\<close>: midranks, AUROC, average precision, log
  loss, Brier score, calibration error and precision/recall (\<open>metrics.ts\<close>), base rate and
  Brier skill (\<open>base-rate.ts\<close>), and the DeLong comparison (\<open>delong.ts\<close>).  The lemmas show
  that the rank-sum computation is the pairwise win rate, and that the AUCs of the DeLong
  test are the same numbers.
\<close>


section \<open>Ranks\<close>

type_synonym ordered = "(real \<times> nat) list"

text \<open>The inner \<open>while\<close>: the last position with the value at \<open>i\<close>.\<close>

function group_end :: "ordered \<Rightarrow> nat \<Rightarrow> nat \<Rightarrow> nat" where
  "group_end os i j =
     (if j + 1 < length os \<and> fst (os ! (j + 1)) = fst (os ! i) then group_end os i (j + 1) else j)"
  by pat_completeness auto
termination by (relation "measure (\<lambda>(os, i, j). length os - j)") auto

declare group_end.simps [simp del]

lemma group_end_ge: "j \<le> group_end os i j"
  by (induction os i j rule: group_end.induct) (subst group_end.simps, auto)

function midrank_loop :: "ordered \<Rightarrow> nat \<Rightarrow> real list \<Rightarrow> real list" where
  "midrank_loop os i ranks =
     (if i < length os then
        (let j = group_end os i i; avg = (real i + real j) / 2 + 1
         in midrank_loop os (j + 1) (fold (\<lambda>k r. r[snd (os ! k) := avg]) [i..<j + 1] ranks))
      else ranks)"
  by pat_completeness auto
termination
  by (relation "measure (\<lambda>(os, i, ranks). length os - i)") (use group_end_ge in \<open>auto simp: le_imp_less_Suc intro!: diff_less_mono2\<close>)

declare midrank_loop.simps [simp del]

definition value_order :: "real list \<Rightarrow> ordered" where
  "value_order vs = sort_key fst (zip vs [0..<length vs])"

definition midranks :: "real list \<Rightarrow> real list" where
  "midranks vs = midrank_loop (value_order vs) 0 (replicate (length vs) 0)"


section \<open>Metrics of a cell\<close>

text \<open>\<open>split\<close>: the scores of the positives and of the negatives.\<close>

definition pos_scores :: "real list \<Rightarrow> bool list \<Rightarrow> real list" where
  "pos_scores scores labels = map fst (filter snd (zip scores labels))"

definition neg_scores :: "real list \<Rightarrow> bool list \<Rightarrow> real list" where
  "neg_scores scores labels = map fst (filter (\<lambda>x. \<not> snd x) (zip scores labels))"

definition aligned :: "real list \<Rightarrow> bool list \<Rightarrow> bool" where
  "aligned scores labels \<longleftrightarrow> length scores = length labels \<and> scores \<noteq> []"

definition auroc :: "real list \<Rightarrow> bool list \<Rightarrow> real option" where
  "auroc scores labels =
     (if \<not> aligned scores labels then None
      else
        (let p = length (pos_scores scores labels); n = length (neg_scores scores labels) in
         if p = 0 \<or> n = 0 then None
         else
           (let rank_sum = sum_list (map fst (filter snd (zip (midranks scores) labels)))
            in Some ((rank_sum - real p * (real p + 1) / 2) / (real p * real n)))))"

record pr_state =
  ap_tp :: nat
  ap_fp :: nat
  ap_prev_recall :: real
  ap_sum :: real

definition count_true :: "bool list \<Rightarrow> nat" where
  "count_true ys = length (filter id ys)"

definition auprc_step :: "ordered \<Rightarrow> bool list \<Rightarrow> nat \<Rightarrow> nat \<Rightarrow> pr_state \<Rightarrow> pr_state" where
  "auprc_step order labels total_pos k st =
     (let st1 = (if labels ! snd (order ! k) then st\<lparr>ap_tp := ap_tp st + 1\<rparr> else st\<lparr>ap_fp := ap_fp st + 1\<rparr>) in
      if k + 1 < length order \<and> fst (order ! (k + 1)) = fst (order ! k) then st1
      else
        (let recall = real (ap_tp st1) / real total_pos;
             precision = real (ap_tp st1) / (real (ap_tp st1) + real (ap_fp st1))
         in st1\<lparr>ap_sum := ap_sum st1 + (recall - ap_prev_recall st1) * precision, ap_prev_recall := recall\<rparr>))"

definition auprc :: "real list \<Rightarrow> bool list \<Rightarrow> real option" where
  "auprc scores labels =
     (if \<not> aligned scores labels then None
      else if count_true labels = 0 then None
      else
        (let order = sort_key (\<lambda>x. - fst x) (zip scores [0..<length scores])
         in Some (ap_sum (fold (auprc_step order labels (count_true labels)) [0..<length order]
              \<lparr>ap_tp = 0, ap_fp = 0, ap_prev_recall = 0, ap_sum = 0\<rparr>))))"

definition bit_of :: "bool \<Rightarrow> real" where
  "bit_of y = (if y then 1 else 0)"

definition mean_over :: "(real \<Rightarrow> bool \<Rightarrow> real) \<Rightarrow> real list \<Rightarrow> bool list \<Rightarrow> real option" where
  "mean_over f scores labels =
     (if \<not> aligned scores labels then None
      else Some (sum_list (map (\<lambda>(s, y). f s y) (zip scores labels)) / real (length scores)))"

definition log_loss_term :: "real \<Rightarrow> bool \<Rightarrow> real" where
  "log_loss_term s y = (let p = min (1 - 1 / 10 ^ 12) (max (1 / 10 ^ 12) s) in if y then - ln p else - ln (1 - p))"

definition log_loss :: "real list \<Rightarrow> bool list \<Rightarrow> real option" where
  "log_loss = mean_over log_loss_term"

definition brier_score :: "real list \<Rightarrow> bool list \<Rightarrow> real option" where
  "brier_score = mean_over (\<lambda>s y. (s - bit_of y)\<^sup>2)"

definition ece_clip :: "real \<Rightarrow> real" where
  "ece_clip s = min (999999 / 10 ^ 6) (max 0 s)"

definition ece_bin :: "nat \<Rightarrow> real \<Rightarrow> nat" where
  "ece_bin bins s = min (bins - 1) (nat \<lfloor>ece_clip s * real bins\<rfloor>)"

definition bin_rows :: "nat \<Rightarrow> real list \<Rightarrow> bool list \<Rightarrow> nat \<Rightarrow> (real \<times> bool) list" where
  "bin_rows bins scores labels b = filter (\<lambda>(s, y). ece_bin bins s = b) (zip scores labels)"

definition ece_term :: "nat \<Rightarrow> real list \<Rightarrow> bool list \<Rightarrow> nat \<Rightarrow> real" where
  "ece_term bins scores labels b =
     (let rows = bin_rows bins scores labels b; tot = real (length rows) in
      if rows = [] then 0
      else tot / real (length scores) *
        \<bar>real (length (filter snd rows)) / tot - sum_list (map (\<lambda>(s, y). ece_clip s) rows) / tot\<bar>)"

definition ece :: "real list \<Rightarrow> bool list \<Rightarrow> nat \<Rightarrow> real option" where
  "ece scores labels bins =
     (if \<not> aligned scores labels then None
      else Some (sum_list (map (ece_term bins scores labels) [0..<bins])))"

record pr_recall =
  pr_threshold :: real
  pr_precision :: "real option"
  pr_recall_of :: "real option"
  pr_tp :: nat
  pr_fp :: nat
  pr_fn :: nat

definition precision_recall_at :: "real list \<Rightarrow> bool list \<Rightarrow> real \<Rightarrow> pr_recall" where
  "precision_recall_at scores labels t =
     (let rows = zip scores labels;
          tp = length (filter (\<lambda>(s, y). s \<ge> t \<and> y) rows);
          fp = length (filter (\<lambda>(s, y). s \<ge> t \<and> \<not> y) rows);
          fn = length (filter (\<lambda>(s, y). \<not> s \<ge> t \<and> y) rows)
      in \<lparr>pr_threshold = t,
          pr_precision = (if tp + fp > 0 then Some (real tp / real (tp + fp)) else None),
          pr_recall_of = (if tp + fn > 0 then Some (real tp / real (tp + fn)) else None),
          pr_tp = tp, pr_fp = fp, pr_fn = fn\<rparr>)"

definition brier_skill :: "real \<Rightarrow> real \<Rightarrow> real option" where
  "brier_skill model reference = (if reference \<le> 0 then None else Some (1 - model / reference))"

definition base_rate :: "bool list \<Rightarrow> real" where
  "base_rate labels = (if labels = [] then 0 else real (count_true labels) / real (length labels))"

text \<open>\<open>base-rate.ts\<close>: the same mean, with errors instead of null.\<close>

definition brier_or_throw :: "real list \<Rightarrow> bool list \<Rightarrow> string + real" where
  "brier_or_throw ps ys =
     (if length ps \<noteq> length ys then Inl ''brier: length mismatch''
      else if ps = [] then Inl ''brier: empty input''
      else Inr (sum_list (map (\<lambda>(p, y). (p - bit_of y)\<^sup>2) (zip ps ys)) / real (length ps)))"


section \<open>The DeLong test\<close>

definition mean_of :: "real list \<Rightarrow> real" where
  "mean_of xs = sum_list xs / real (if xs = [] then 1 else length xs)"

text \<open>One entry of \<open>covMatrix\<close>; rows have the length of the first.\<close>

definition cov_entry :: "real list \<Rightarrow> real list \<Rightarrow> real" where
  "cov_entry xs ys =
     sum_list (map (\<lambda>(x, y). (x - mean_of xs) * (y - mean_of ys)) (zip xs ys))
       / (if length xs > 1 then real (length xs) - 1 else 1)"

definition normal_cdf :: "real \<Rightarrow> real" where
  "normal_cdf x =
     (let z = \<bar>x\<bar> / sqrt 2; t = 1 / (1 + 3275911 / 10 ^ 7 * z);
          y = 1 - ((((1061405429 / 10 ^ 9 * t - 1453152027 / 10 ^ 9) * t + 1421413741 / 10 ^ 9) * t
                - 284496736 / 10 ^ 9) * t + 254829592 / 10 ^ 9) * t * exp (- z * z)
      in 1 / 2 * (1 + (if x \<ge> 0 then y else - y)))"

record delong_result =
  dl_auc_a :: real
  dl_auc_b :: real
  dl_diff :: real
  dl_se :: real
  dl_z :: real
  dl_p :: real
  dl_n :: nat

text \<open>For one predictor: its AUC and its two rows of structural components.\<close>

definition delong_auc :: "real list \<Rightarrow> real list \<Rightarrow> real" where
  "delong_auc tx ty =
     (let m = real (length tx); n = real (length ty)
      in sum_list (take (length tx) (midranks (tx @ ty))) / (m * n) - (m + 1) / (2 * n))"

definition delong_v01 :: "real list \<Rightarrow> real list \<Rightarrow> real list" where
  "delong_v01 tx ty =
     map2 (\<lambda>r t. (r - t) / real (length ty)) (take (length tx) (midranks (tx @ ty))) (midranks tx)"

definition delong_v10 :: "real list \<Rightarrow> real list \<Rightarrow> real list" where
  "delong_v10 tx ty =
     map2 (\<lambda>r t. 1 - (r - t) / real (length tx)) (drop (length tx) (midranks (tx @ ty))) (midranks ty)"

definition delong_cov :: "(real list \<times> real list) \<Rightarrow> (real list \<times> real list) \<Rightarrow> nat \<Rightarrow> nat \<Rightarrow> real" where
  "delong_cov a b m n = cov_entry (fst a) (fst b) / real m + cov_entry (snd a) (snd b) / real n"

definition fast_delong :: "real list \<Rightarrow> real list \<Rightarrow> bool list \<Rightarrow> delong_result option" where
  "fast_delong sa sb labels =
     (if length sa \<noteq> length labels \<or> length sb \<noteq> length labels then None
      else
        (let m = count_true labels; n = length labels - count_true labels in
         if m < 2 \<or> n < 2 then None
         else
           (let xa = pos_scores sa labels; ya = neg_scores sa labels;
                xb = pos_scores sb labels; yb = neg_scores sb labels;
                va = (delong_v01 xa ya, delong_v10 xa ya); vb = (delong_v01 xb yb, delong_v10 xb yb);
                var_diff = delong_cov va va m n + delong_cov vb vb m n - 2 * delong_cov va vb m n;
                se = sqrt (max var_diff 0);
                diff = delong_auc xa ya - delong_auc xb yb;
                z = (if se > 0 then diff / se else 0)
            in Some \<lparr>dl_auc_a = delong_auc xa ya, dl_auc_b = delong_auc xb yb, dl_diff = diff,
                     dl_se = se, dl_z = z,
                     dl_p = (if se > 0 then 2 * (1 - normal_cdf \<bar>z\<bar>) else 1), dl_n = m + n\<rparr>)))"

section \<open>Ranks are win counts\<close>

text \<open>A win counts 1, a tie one half.\<close>

definition win :: "real \<Rightarrow> real \<Rightarrow> real" where
  "win x y = (if y < x then 1 else if y = x then 1 / 2 else 0)"

definition wins :: "real \<Rightarrow> real list \<Rightarrow> real" where
  "wins x ys = sum_list (map (win x) ys)"

definition pair_wins :: "real list \<Rightarrow> real list \<Rightarrow> real" where
  "pair_wins xs ys = sum_list (map (\<lambda>x. wins x ys) xs)"

lemma wins_simps [simp]: "wins x [] = 0" "wins x (y # ys) = win x y + wins x ys" "wins x (ys @ zs) = wins x ys + wins x zs"
  by (simp_all add: wins_def)

lemma wins_bounds [bounds]: "0 \<le> wins x ys" "wins x ys \<le> real (length ys)"
  by (induction ys) (auto simp: win_def)

lemma pair_wins_simps [simp]: "pair_wins [] ys = 0" "pair_wins (x # xs) ys = wins x ys + pair_wins xs ys"
  by (simp_all add: pair_wins_def)

lemma pair_wins_Nil [simp]: "pair_wins xs [] = 0"
  by (induction xs) auto

lemma pair_wins_Cons2: "pair_wins xs (y # ys) = sum_list (map (\<lambda>x. win x y) xs) + pair_wins xs ys"
  by (induction xs) auto

lemma pair_wins_append2: "pair_wins xs (ys @ zs) = pair_wins xs ys + pair_wins xs zs"
  by (induction xs) auto

lemma win_total: "win x y + win y x = 1"
  by (auto simp: win_def)

lemma wins_dual: "wins x ys + sum_list (map (\<lambda>y. win y x) ys) = real (length ys)"
proof (induction ys)
  case (Cons y ys)
  then show ?case using win_total [of x y] by simp
qed simp

lemma pair_wins_dual: "pair_wins xs ys + pair_wins ys xs = real (length xs) * real (length ys)"
proof (induction xs)
  case (Cons x xs)
  then show ?case using wins_dual [of x ys] by (simp add: pair_wins_Cons2 algebra_simps)
qed simp

lemma pair_wins_self: "pair_wins xs xs = (real (length xs))\<^sup>2 / 2"
  using pair_wins_dual [of xs xs] by (simp add: power2_eq_square)

lemma pair_wins_bounds: "0 \<le> pair_wins xs ys" "pair_wins xs ys \<le> real (length xs) * real (length ys)"
proof -
  show "0 \<le> pair_wins xs ys" by (induction xs) (auto intro: add_nonneg_nonneg wins_bounds)
  show "pair_wins xs ys \<le> real (length xs) * real (length ys)"
  proof (induction xs)
    case (Cons x xs)
    then show ?case using wins_bounds(2) [of x ys] by (simp add: distrib_right)
  qed simp
qed

lemma wins_perm: "mset ys = mset zs \<Longrightarrow> wins x ys = wins x zs"
proof -
  assume "mset ys = mset zs"
  then have "mset (map (win x) ys) = mset (map (win x) zs)" by simp
  then show ?thesis unfolding wins_def by (metis sum_mset_sum_list)
qed

lemma wins_at: "wins x ys = (\<Sum>k < length ys. win x (ys ! k))"
  unfolding wins_def by (simp add: sum_list_sum_nth atLeast0LessThan)

lemma wins_block:
  assumes "i \<le> j" "j < length ys"
    and "\<And>k. k < i \<Longrightarrow> ys ! k < x" and "\<And>k. i \<le> k \<Longrightarrow> k \<le> j \<Longrightarrow> ys ! k = x"
    and "\<And>k. j < k \<Longrightarrow> k < length ys \<Longrightarrow> x < ys ! k"
  shows "wins x ys = real i + (real j - real i + 1) / 2"
proof -
  have split: "{..<length ys} = {..<i} \<union> {i..j} \<union> {Suc j..<length ys}" using assms(1,2) by auto
  have "wins x ys = (\<Sum>k \<in> {..<i} \<union> {i..j} \<union> {Suc j..<length ys}. win x (ys ! k))"
    unfolding wins_at by (rule sum.cong [OF split refl])
  also have "\<dots> = (\<Sum>k \<in> {..<i} \<union> {i..j}. win x (ys ! k)) + (\<Sum>k \<in> {Suc j..<length ys}. win x (ys ! k))"
    by (rule sum.union_disjoint) (use assms(1) in auto)
  also have "(\<Sum>k \<in> {..<i} \<union> {i..j}. win x (ys ! k)) = (\<Sum>k \<in> {..<i}. win x (ys ! k)) + (\<Sum>k \<in> {i..j}. win x (ys ! k))"
    by (rule sum.union_disjoint) auto
  also have "(\<Sum>k \<in> {..<i}. win x (ys ! k)) = (\<Sum>k \<in> {..<i}. 1)"
    by (rule sum.cong) (auto simp: win_def assms(3))
  also have "(\<Sum>k \<in> {i..j}. win x (ys ! k)) = (\<Sum>k \<in> {i..j}. 1 / 2)"
    by (rule sum.cong) (auto simp: win_def assms(4))
  also have "(\<Sum>k \<in> {Suc j..<length ys}. win x (ys ! k)) = (\<Sum>k \<in> {Suc j..<length ys}. 0)"
  proof (rule sum.cong)
    fix k assume "k \<in> {Suc j..<length ys}"
    then have "x < ys ! k" using assms(5) by simp
    then show "win x (ys ! k) = 0" by (simp add: win_def)
  qed simp
  finally show ?thesis using assms(1) by (simp add: of_nat_diff)
qed

lemma group_end_less: "i \<le> j \<Longrightarrow> j < length os \<Longrightarrow> group_end os i j < length os"
  by (induction os i j rule: group_end.induct) (subst group_end.simps, auto)

lemma group_end_same:
  "(\<And>k. i \<le> k \<Longrightarrow> k \<le> j \<Longrightarrow> fst (os ! k) = fst (os ! i)) \<Longrightarrow> i \<le> j \<Longrightarrow>
   i \<le> k \<Longrightarrow> k \<le> group_end os i j \<Longrightarrow> fst (os ! k) = fst (os ! i)"
proof (induction os i j rule: group_end.induct)
  case (1 os i j)
  show ?case
  proof (cases "j + 1 < length os \<and> fst (os ! (j + 1)) = fst (os ! i)")
    case True
    have ext: "fst (os ! k') = fst (os ! i)" if "i \<le> k'" "k' \<le> j + 1" for k'
    proof (cases "k' = j + 1")
      case eq: True
      show ?thesis unfolding eq using True by blast
    next
      case False
      then show ?thesis using 1(2) [of k'] that by simp
    qed
    have "group_end os i j = group_end os i (j + 1)"
      using True by (subst group_end.simps) (simp only: if_True simp_thms)
    then have kle: "k \<le> group_end os i (j + 1)" using 1(5) by (simp only:)
    have "i \<le> j + 1" using 1(3) by simp
    show ?thesis by (rule 1(1) [OF True ext \<open>i \<le> j + 1\<close> 1(4) kle])
  next
    case False
    then have "group_end os i j = j" by (subst group_end.simps) (simp only: if_False)
    then show ?thesis using 1(2) [OF 1(4)] 1(5) by (simp only:)
  qed
qed

lemma group_end_stop:
  "j < length os \<Longrightarrow> group_end os i j + 1 < length os \<Longrightarrow> fst (os ! (group_end os i j + 1)) \<noteq> fst (os ! i)"
proof (induction os i j rule: group_end.induct)
  case (1 os i j)
  show ?case
  proof (cases "j + 1 < length os \<and> fst (os ! (j + 1)) = fst (os ! i)")
    case True
    then have e: "group_end os i j = group_end os i (j + 1)" by (subst group_end.simps) simp
    show ?thesis unfolding e using 1(1) [OF True] True 1(3) e by simp
  next
    case False
    then have "group_end os i j = j" by (subst group_end.simps) (simp only: if_False)
    then show ?thesis using False 1(3) by auto
  qed
qed

lemma fold_update_length [simp]: "length (fold (\<lambda>k r. r[g k := v]) ks r) = length r"
  by (induction ks arbitrary: r) auto

lemma fold_update:
  "distinct (map snd os) \<Longrightarrow> b \<le> length os \<Longrightarrow> (\<And>k. k < length os \<Longrightarrow> snd (os ! k) < length r) \<Longrightarrow>
   k < length os \<Longrightarrow>
   fold (\<lambda>k r. r[snd (os ! k) := v]) [a..<b] r ! snd (os ! k) = (if a \<le> k \<and> k < b then v else r ! snd (os ! k))"
proof (induction b)
  case (Suc b)
  have ne: "snd (os ! k) = snd (os ! b) \<longleftrightarrow> k = b"
    using Suc.prems(1,2,4) nth_eq_iff_index_eq [of "map snd os" k b] by simp
  show ?case
  proof (cases "a \<le> b")
    case True
    then have "fold (\<lambda>k r. r[snd (os ! k) := v]) [a..<Suc b] r =
        (fold (\<lambda>k r. r[snd (os ! k) := v]) [a..<b] r)[snd (os ! b) := v]" by simp
    then show ?thesis using Suc ne True by (auto simp: nth_list_update)
  qed (use Suc in auto)
qed simp

lemma midrank_loop_spec:
  assumes "sorted (map fst os)" "distinct (map snd os)"
  shows "(\<And>k. k < length os \<Longrightarrow> snd (os ! k) < length ranks) \<Longrightarrow>
    (i < length os \<Longrightarrow> (\<And>k. k < i \<Longrightarrow> fst (os ! k) < fst (os ! i))) \<Longrightarrow>
    length (midrank_loop os i ranks) = length ranks \<and>
    (\<forall>k < length os. midrank_loop os i ranks ! snd (os ! k) =
       (if i \<le> k then wins (fst (os ! k)) (map fst os) + 1 / 2 else ranks ! snd (os ! k)))"
proof (induction "length os - i" arbitrary: i ranks rule: less_induct)
  case less
  show ?case
  proof (cases "i < length os")
    case False
    then have "midrank_loop os i ranks = ranks" by (subst midrank_loop.simps) (simp only: if_False)
    then show ?thesis using False by auto
  next
    case True
    let ?j = "group_end os i i"
    let ?avg = "(real i + real ?j) / 2 + 1"
    let ?ranks = "fold (\<lambda>k r. r[snd (os ! k) := ?avg]) [i..<?j + 1] ranks"
    have j: "i \<le> ?j" "?j < length os" using group_end_ge group_end_less [of i i os] True by auto
    have loop: "midrank_loop os i ranks = midrank_loop os (?j + 1) ?ranks"
      using True by (subst midrank_loop.simps) (simp only: if_True Let_def)
    have len: "length ?ranks = length ranks" by (rule fold_update_length)
    have same: "fst (os ! k) = fst (os ! i)" if "i \<le> k" "k \<le> ?j" for k
      by (rule group_end_same [of i i os, OF _ _ that]) auto
    have above: "fst (os ! i) < fst (os ! k)" if "?j < k" "k < length os" for k
    proof -
      have "fst (os ! (?j + 1)) \<noteq> fst (os ! i)" using group_end_stop [of i os i] True that by simp
      moreover have "fst (os ! i) \<le> fst (os ! (?j + 1))"
        using sorted_nth_mono [OF assms(1), of i "?j + 1"] j that by simp
      moreover have "fst (os ! (?j + 1)) \<le> fst (os ! k)"
        using sorted_nth_mono [OF assms(1), of "?j + 1" k] that by simp
      ultimately show ?thesis by simp
    qed
    have rank: "wins (fst (os ! k)) (map fst os) + 1 / 2 = ?avg" if "i \<le> k" "k \<le> ?j" for k
    proof -
      have "wins (fst (os ! i)) (map fst os) = real i + (real ?j - real i + 1) / 2"
      proof (rule wins_block)
        show "map fst os ! k' < fst (os ! i)" if "k' < i" for k'
          using less.prems(2) [OF True that] that True by simp
        show "map fst os ! k' = fst (os ! i)" if "i \<le> k'" "k' \<le> ?j" for k'
          using same [OF that] that j(2) by simp
        show "fst (os ! i) < map fst os ! k'" if "?j < k'" "k' < length (map fst os)" for k'
          using above [of k'] that by simp
      qed (use j in simp_all)
      then show ?thesis using same [OF that] by (simp add: field_simps)
    qed
    have start: "fst (os ! k) < fst (os ! (?j + 1))" if "?j + 1 < length os" "k < ?j + 1" for k
    proof (cases "k < i")
      case True
      then show ?thesis using less.prems(2) [OF \<open>i < length os\<close> True] above [of "?j + 1"] that by simp
    next
      case False
      then show ?thesis using same [of k] above [of "?j + 1"] that by simp
    qed
    have "length os - (?j + 1) < length os - i" using j by simp
    from less.hyps [OF this, of ?ranks] less.prems(1) len start
    have ih: "length (midrank_loop os (?j + 1) ?ranks) = length ranks"
      "\<And>k. k < length os \<Longrightarrow> midrank_loop os (?j + 1) ?ranks ! snd (os ! k) =
       (if ?j + 1 \<le> k then wins (fst (os ! k)) (map fst os) + 1 / 2 else ?ranks ! snd (os ! k))" by auto
    have upd: "?ranks ! snd (os ! k) = (if i \<le> k \<and> k < ?j + 1 then ?avg else ranks ! snd (os ! k))" if "k < length os" for k
      by (rule fold_update [OF assms(2) _ less.prems(1) that]) (use j in simp)
    show ?thesis
    proof (intro conjI allI impI)
      show "length (midrank_loop os i ranks) = length ranks" using loop ih(1) by simp
    next
      fix k assume k: "k < length os"
      show "midrank_loop os i ranks ! snd (os ! k) =
         (if i \<le> k then wins (fst (os ! k)) (map fst os) + 1 / 2 else ranks ! snd (os ! k))"
        unfolding loop ih(2) [OF k] upd [OF k] using rank [of k] j(1) by auto
    qed
  qed
qed

lemma value_order_facts:
  "sorted (map fst (value_order vs))" "distinct (map snd (value_order vs))"
  "mset (map fst (value_order vs)) = mset vs" "set (value_order vs) = {(vs ! i, i) | i. i < length vs}"
proof -
  show "sorted (map fst (value_order vs))" by (simp add: value_order_def)
  have "mset (map snd (value_order vs)) = mset (map snd (zip vs [0..<length vs]))"
    unfolding value_order_def mset_map mset_sort ..
  also have "map snd (zip vs [0..<length vs]) = [0..<length vs]" by (rule map_snd_zip) simp
  finally show "distinct (map snd (value_order vs))" by (metis distinct_upt mset_eq_imp_distinct_iff)
  have "mset (map fst (value_order vs)) = mset (map fst (zip vs [0..<length vs]))"
    unfolding value_order_def mset_map mset_sort ..
  also have "map fst (zip vs [0..<length vs]) = vs" by (rule map_fst_zip) simp
  finally show "mset (map fst (value_order vs)) = mset vs" .
  show "set (value_order vs) = {(vs ! i, i) | i. i < length vs}"
    by (auto simp: value_order_def set_zip)
qed

lemma midranks_spec:
  "length (midranks vs) = length vs \<and> (\<forall>i < length vs. midranks vs ! i = wins (vs ! i) vs + 1 / 2)"
proof -
  let ?os = "value_order vs"
  have idx: "snd (?os ! k) < length (replicate (length vs) (0 :: real))" if "k < length ?os" for k
    using nth_mem [OF that] value_order_facts(4) [of vs] by auto
  have spec: "length (midranks vs) = length vs"
    "\<And>k. k < length ?os \<Longrightarrow> midranks vs ! snd (?os ! k) = wins (fst (?os ! k)) (map fst ?os) + 1 / 2"
    using midrank_loop_spec [OF value_order_facts(1,2) idx, of 0] unfolding midranks_def by auto
  have "midranks vs ! i = wins (vs ! i) vs + 1 / 2" if "i < length vs" for i
  proof -
    have "(vs ! i, i) \<in> set ?os" using that value_order_facts(4) by auto
    then obtain k where "k < length ?os" "?os ! k = (vs ! i, i)" by (metis in_set_conv_nth)
    then show ?thesis using spec(2) [of k] wins_perm [OF value_order_facts(3)] by simp
  qed
  with spec(1) show ?thesis by simp
qed

lemma midranks_map: "midranks vs = map (\<lambda>v. wins v vs + 1 / 2) vs"
  using midranks_spec by (intro nth_equalityI) auto


section \<open>AUROC and DeLong\<close>

lemma pos_neg_mset: "length scores = length labels \<Longrightarrow>
    mset scores = mset (pos_scores scores labels @ neg_scores scores labels)"
proof (induction scores labels rule: list_induct2)
  case (Cons x xs y ys)
  then show ?case by (cases y) (simp_all add: pos_scores_def neg_scores_def)
qed (simp add: pos_scores_def neg_scores_def)

lemma rank_sum_pos:
  "length vs = length labels \<Longrightarrow>
   sum_list (map fst (filter snd (zip (map f vs) labels))) = sum_list (map f (pos_scores vs labels))"
proof (induction vs labels rule: list_induct2)
  case (Cons x xs y ys)
  then show ?case by (cases y) (simp_all add: pos_scores_def)
qed (simp add: pos_scores_def)

lemma sum_half: "sum_list (map (\<lambda>v. wins v ys + 1 / 2) xs) = pair_wins xs ys + real (length xs) / 2"
  by (induction xs) (auto simp: field_simps)

lemma auroc_pairs:
  "auroc scores labels =
     (if aligned scores labels \<and> pos_scores scores labels \<noteq> [] \<and> neg_scores scores labels \<noteq> []
      then Some (pair_wins (pos_scores scores labels) (neg_scores scores labels) /
                 (real (length (pos_scores scores labels)) * real (length (neg_scores scores labels))))
      else None)"
proof (cases "aligned scores labels")
  case True
  let ?p = "pos_scores scores labels" and ?n = "neg_scores scores labels"
  have "sum_list (map fst (filter snd (zip (midranks scores) labels))) =
      pair_wins ?p scores + real (length ?p) / 2"
    using True rank_sum_pos [of scores labels "\<lambda>v. wins v scores + 1 / 2"]
    by (simp add: midranks_map aligned_def sum_half)
  also have "pair_wins ?p scores = pair_wins ?p ?p + pair_wins ?p ?n"
    using True wins_perm [OF pos_neg_mset [of scores labels]]
    by (simp add: pair_wins_def aligned_def sum_list_addf)
  finally show ?thesis
    using True by (simp add: auroc_def Let_def pair_wins_self power2_eq_square algebra_simps add_divide_distrib)
qed (simp add: auroc_def)

text \<open>
  the rank-sum AUROC is the fraction of positive-negative pairs the positive wins, a tie
  counting one half; it exists exactly when both classes are present, and it is in [0, 1].
\<close>

theorem auroc_is_pair_win_rate:
  "(auroc scores labels = None \<longleftrightarrow> \<not> aligned scores labels \<or> pos_scores scores labels = [] \<or> neg_scores scores labels = []) \<and>
   (\<forall>a. auroc scores labels = Some a \<longrightarrow> 0 \<le> a \<and> a \<le> 1 \<and>
      a = sum_list (map (\<lambda>x. sum_list (map (\<lambda>y. if y < x then 1 else if y = x then 1 / 2 else 0)
                 (neg_scores scores labels))) (pos_scores scores labels)) /
          (real (length (pos_scores scores labels)) * real (length (neg_scores scores labels))))"
proof -
  let ?p = "pos_scores scores labels" and ?n = "neg_scores scores labels"
  have "pair_wins ?p ?n / (real (length ?p) * real (length ?n)) \<le> 1" if "?p \<noteq> []" "?n \<noteq> []"
    using that pair_wins_bounds(2) [of ?p ?n] by (simp add: divide_le_eq)
  moreover have "0 \<le> pair_wins ?p ?n / (real (length ?p) * real (length ?n))"
    using pair_wins_bounds(1) [of ?p ?n] by simp
  moreover have "pair_wins ?p ?n = sum_list (map (\<lambda>x. sum_list (map (\<lambda>y. if y < x then 1 else if y = x then 1 / 2 else 0) ?n)) ?p)"
    by (simp add: pair_wins_def wins_def win_def [abs_def])
  ultimately show ?thesis unfolding auroc_pairs by (auto split: if_splits)
qed

lemma auroc_is_pair_win_rate_demo: "auroc [9 / 10, 1 / 2, 1 / 2, 1 / 10] [True, True, False, False] = Some (7 / 8)"
  by (simp add: auroc_pairs aligned_def pos_scores_def neg_scores_def win_def)

theorem auroc_is_pair_win_rate_witness:
  "auroc [9 / 10, 1 / 2, 1 / 2, 1 / 10] [True, True, False, False] = Some (7 / 8) \<and> 0 \<le> (7 / 8 :: real)"
  using auroc_is_pair_win_rate [of "[9 / 10, 1 / 2, 1 / 2, 1 / 10]" "[True, True, False, False]"] auroc_is_pair_win_rate_demo
  by blast

lemma delong_auc_pairs:
  "tx \<noteq> [] \<Longrightarrow> ty \<noteq> [] \<Longrightarrow> delong_auc tx ty = pair_wins tx ty / (real (length tx) * real (length ty))"
proof -
  assume ne: "tx \<noteq> []" "ty \<noteq> []"
  have "sum_list (take (length tx) (midranks (tx @ ty))) = pair_wins tx tx + pair_wins tx ty + real (length tx) / 2"
    by (simp add: midranks_map sum_half pair_wins_append2 del: wins_simps)
  then show ?thesis
    using ne by (simp add: delong_auc_def Let_def pair_wins_self power2_eq_square field_simps)
qed

lemma map2_maps: "map2 h (map f xs) (map g xs) = map (\<lambda>x. h (f x) (g x)) xs"
  by (induction xs) auto

lemma delong_v01_wins: "delong_v01 tx ty = map (\<lambda>x. wins x ty / real (length ty)) tx"
  by (simp add: delong_v01_def midranks_map map2_maps)

lemma delong_v10_wins: "delong_v10 tx ty = map (\<lambda>y. 1 - wins y tx / real (length tx)) ty"
  by (simp add: delong_v10_def midranks_map map2_maps)

lemma length_pos: "length scores = length labels \<Longrightarrow> length (pos_scores scores labels) = count_true labels"
proof (induction scores labels rule: list_induct2)
  case (Cons x xs y ys)
  then show ?case by (cases y) (simp_all add: pos_scores_def count_true_def)
qed (simp add: pos_scores_def count_true_def)

lemma length_neg: "length scores = length labels \<Longrightarrow> length (neg_scores scores labels) = length labels - count_true labels"
  using arg_cong [OF pos_neg_mset, of scores labels size] length_pos [of scores labels] by simp

text \<open>
  the two AUCs the DeLong test compares are the AUROCs of the two score lists, and their
  reported difference is the difference of those.
\<close>

theorem delong_compares_aurocs:
  assumes "fast_delong sa sb labels = Some d"
  shows "auroc sa labels = Some (dl_auc_a d) \<and> auroc sb labels = Some (dl_auc_b d) \<and>
    dl_diff d = dl_auc_a d - dl_auc_b d \<and> dl_n d = length labels"
proof -
  have len: "length sa = length labels" "length sb = length labels"
    and big: "2 \<le> count_true labels" "2 \<le> length labels - count_true labels"
    using assms by (auto simp: fast_delong_def Let_def split: if_splits)
  have d: "dl_auc_a d = delong_auc (pos_scores sa labels) (neg_scores sa labels)"
    "dl_auc_b d = delong_auc (pos_scores sb labels) (neg_scores sb labels)"
    "dl_diff d = dl_auc_a d - dl_auc_b d" "dl_n d = count_true labels + (length labels - count_true labels)"
    using assms len big by (auto simp: fast_delong_def Let_def)
  have one: "auroc s labels = Some (delong_auc (pos_scores s labels) (neg_scores s labels))"
    if "length s = length labels" for s
  proof -
    have "pos_scores s labels \<noteq> []" "neg_scores s labels \<noteq> []" "s \<noteq> []"
      using big length_pos [OF that] length_neg [OF that] that by auto
    then show ?thesis using that by (simp add: auroc_pairs aligned_def delong_auc_pairs)
  qed
  show ?thesis using d one [OF len(1)] one [OF len(2)] big by simp
qed

lemma mean_const: "xs \<noteq> [] \<Longrightarrow> \<forall>x \<in> set xs. x = c \<Longrightarrow> mean_of xs = c"
proof -
  assume "xs \<noteq> []" "\<forall>x \<in> set xs. x = c"
  then have "xs = replicate (length xs) c" by (simp add: replicate_eqI)
  then have "sum_list xs = real (length xs) * c" by (metis sum_list_replicate)
  then show ?thesis using \<open>xs \<noteq> []\<close> by (simp add: mean_of_def)
qed

lemma sum_zeros: "\<forall>z \<in> set zs. (f z :: real) = 0 \<Longrightarrow> sum_list (map f zs) = 0"
  by (induction zs) auto

lemma cov_const: "xs \<noteq> [] \<Longrightarrow> \<forall>x \<in> set xs. x = c \<Longrightarrow> cov_entry xs ys = 0"
proof -
  assume xs: "xs \<noteq> []" "\<forall>x \<in> set xs. x = c"
  have "\<forall>z \<in> set (zip xs ys). (case z of (x, y) \<Rightarrow> (x - mean_of xs) * (y - mean_of ys)) = 0"
    using mean_const [OF xs] xs(2) by (auto dest: set_zip_leftD)
  then have "sum_list (map (\<lambda>(x, y). (x - mean_of xs) * (y - mean_of ys)) (zip xs ys)) = 0"
    by (intro sum_zeros)
  then show ?thesis by (simp add: cov_entry_def)
qed

lemma wins_all: "\<forall>y \<in> set ys. y < x \<Longrightarrow> wins x ys = real (length ys)"
  by (induction ys) (auto simp: win_def)

lemma wins_none: "\<forall>y \<in> set ys. x < y \<Longrightarrow> wins x ys = 0"
  by (induction ys) (auto simp: win_def)

lemma wins_ties: "\<forall>y \<in> set ys. y = x \<Longrightarrow> wins x ys = real (length ys) / 2"
  by (induction ys) (auto simp: win_def field_simps)

lemma pair_wins_uniform: "\<forall>x \<in> set xs. wins x ys = c \<Longrightarrow> pair_wins xs ys = real (length xs) * c"
  by (induction xs) (auto simp: algebra_simps)

text \<open>
  a forecaster that ranks every positive above every negative, compared with a constant
  baseline, has an AUROC gap of one half but a DeLong p-value of 1, since the estimated
  variance is 0: the test never calls the largest gap over a constant baseline significant.
\<close>

theorem perfect_ranking_not_significant:
  assumes "length sa = length labels" "length sb = length labels"
    and "2 \<le> count_true labels" "2 \<le> length labels - count_true labels"
    and "list_all (\<lambda>x. list_all (\<lambda>y. y < x) (neg_scores sa labels)) (pos_scores sa labels)"
    and "list_all (\<lambda>s. s = c) sb"
  shows "\<exists>d. fast_delong sa sb labels = Some d \<and> dl_diff d = 1 / 2 \<and> dl_se d = 0 \<and> dl_p d = 1"
proof -
  let ?xa = "pos_scores sa labels" and ?ya = "neg_scores sa labels"
  let ?xb = "pos_scores sb labels" and ?yb = "neg_scores sb labels"
  have ne: "?xa \<noteq> []" "?ya \<noteq> []" "?xb \<noteq> []" "?yb \<noteq> []"
    using assms(3,4) length_pos [OF assms(1)] length_neg [OF assms(1)]
      length_pos [OF assms(2)] length_neg [OF assms(2)] by auto
  have cb: "\<forall>x \<in> set ?xb. x = c" "\<forall>y \<in> set ?yb. y = c"
    using assms(6) by (auto simp: pos_scores_def neg_scores_def list_all_iff dest: set_zip_leftD)
  have wa: "\<forall>x \<in> set ?xa. wins x ?ya = real (length ?ya)" "\<forall>y \<in> set ?ya. wins y ?xa = 0"
    using assms(5) by (auto simp: list_all_iff intro!: wins_all wins_none)
  have wb: "\<forall>x \<in> set ?xb. wins x ?yb = real (length ?yb) / 2" "\<forall>y \<in> set ?yb. wins y ?xb = real (length ?xb) / 2"
    using cb wins_ties [of ?yb c] wins_ties [of ?xb c] by (metis (no_types, lifting))+
  have va: "\<forall>v \<in> set (delong_v01 ?xa ?ya). v = 1" "\<forall>v \<in> set (delong_v10 ?xa ?ya). v = 1"
    using wa ne by (auto simp: delong_v01_wins delong_v10_wins)
  have vb: "\<forall>v \<in> set (delong_v01 ?xb ?yb). v = 1 / 2" "\<forall>v \<in> set (delong_v10 ?xb ?yb). v = 1 / 2"
    using wb ne by (auto simp: delong_v01_wins delong_v10_wins)
  have nz: "delong_v01 ?xa ?ya \<noteq> []" "delong_v10 ?xa ?ya \<noteq> []" "delong_v01 ?xb ?yb \<noteq> []" "delong_v10 ?xb ?yb \<noteq> []"
    using ne by (simp_all add: delong_v01_wins delong_v10_wins)
  have "delong_auc ?xa ?ya = 1" using ne pair_wins_uniform [OF wa(1)] by (simp add: delong_auc_pairs)
  moreover have "delong_auc ?xb ?yb = 1 / 2" using ne pair_wins_uniform [OF wb(1)] by (simp add: delong_auc_pairs)
  ultimately show ?thesis
    using assms(1-4) cov_const [OF nz(1) va(1)] cov_const [OF nz(2) va(2)] cov_const [OF nz(3) vb(1)] cov_const [OF nz(4) vb(2)]
    by (simp add: fast_delong_def Let_def delong_cov_def)
qed

theorem perfect_ranking_not_significant_witness:
  "\<exists>d. fast_delong [9 / 10, 8 / 10, 1 / 10, 2 / 10] [1 / 2, 1 / 2, 1 / 2, 1 / 2] [True, True, False, False] = Some d \<and>
     dl_p d = 1"
  using perfect_ranking_not_significant [of "[9 / 10, 8 / 10, 1 / 10, 2 / 10]" "[True, True, False, False]"
      "[1 / 2, 1 / 2, 1 / 2, 1 / 2]" "1 / 2"]
  by (auto simp: count_true_def pos_scores_def neg_scores_def)

lemma delong_demo: "\<exists>d. fast_delong [9 / 10, 3 / 10, 1 / 10, 5 / 10] [1 / 2, 1 / 4, 1 / 2, 1 / 3] [True, True, False, False] = Some d"
  by (simp add: fast_delong_def Let_def count_true_def)

theorem delong_compares_aurocs_witness:
  "\<exists>d. fast_delong [9 / 10, 3 / 10, 1 / 10, 5 / 10] [1 / 2, 1 / 4, 1 / 2, 1 / 3] [True, True, False, False] = Some d \<and>
     auroc [9 / 10, 3 / 10, 1 / 10, 5 / 10] [True, True, False, False] = Some (dl_auc_a d)"
  using delong_demo delong_compares_aurocs by (elim exE) blast


section \<open>Bounds of the other metrics\<close>

lemma mean_over_bounds:
  assumes "mean_over f scores labels = Some v" "\<And>s y. s \<in> set scores \<Longrightarrow> lo \<le> f s y \<and> f s y \<le> hi"
  shows "lo \<le> v \<and> v \<le> hi"
proof -
  let ?z = "zip scores labels"
  have a: "aligned scores labels" "v = sum_list (map (\<lambda>(s, y). f s y) ?z) / real (length scores)"
    using assms(1) by (auto simp: mean_over_def split: if_splits)
  have b: "\<And>x. x \<in> set ?z \<Longrightarrow> lo \<le> (case x of (s, y) \<Rightarrow> f s y) \<and> (case x of (s, y) \<Rightarrow> f s y) \<le> hi"
    using assms(2) by (auto dest: set_zip_leftD)
  have all: "lo * real (length zs) \<le> sum_list (map g zs) \<and> sum_list (map g zs) \<le> hi * real (length zs)"
    if "\<And>x. x \<in> set zs \<Longrightarrow> lo \<le> g x \<and> g x \<le> hi" for g :: "real \<times> bool \<Rightarrow> real" and zs
    using that by (induction zs) (auto simp: algebra_simps intro: add_mono)
  have n: "length ?z = length scores" "0 < length scores" using a(1) by (auto simp: aligned_def)
  show ?thesis unfolding a(2)
    using all [of ?z "\<lambda>(s, y). f s y"] b n by (auto simp: divide_le_eq le_divide_eq mult.commute)
qed

lemma brier_bounds:
  "brier_score scores labels = Some v \<Longrightarrow> list_all (\<lambda>s. 0 \<le> s \<and> s \<le> 1) scores \<Longrightarrow> 0 \<le> v \<and> v \<le> 1"
  unfolding brier_score_def
proof (erule mean_over_bounds)
  fix s y assume "list_all (\<lambda>s. 0 \<le> s \<and> s \<le> 1) scores" "s \<in> set scores"
  then have "\<bar>s - bit_of y\<bar> \<le> 1" by (auto simp: list_all_iff bit_of_def)
  then have "(s - bit_of y)\<^sup>2 \<le> 1" by (simp add: abs_square_le_1)
  then show "0 \<le> (s - bit_of y)\<^sup>2 \<and> (s - bit_of y)\<^sup>2 \<le> 1" by simp
qed

lemma log_loss_nonneg: "log_loss scores labels = Some v \<Longrightarrow> 0 \<le> v"
proof -
  assume a: "log_loss scores labels = Some v"
  have "0 \<le> log_loss_term s y" for s y
  proof -
    let ?p = "min (1 - 1 / 10 ^ 12) (max (1 / 10 ^ 12) s) :: real"
    have "0 < ?p" "?p \<le> 1" "0 < 1 - ?p" "1 - ?p \<le> 1" by (auto simp: min_def max_def)
    then show ?thesis by (simp add: log_loss_term_def Let_def)
  qed
  then have "0 \<le> sum_list (map (\<lambda>(s, y). log_loss_term s y) (zip scores labels))"
    by (intro sum_list_nonneg_real) auto
  then show ?thesis using a by (auto simp: log_loss_def mean_over_def split: if_splits)
qed

text \<open>The confusion counts at a threshold: every row falls in one class.\<close>

lemma confusion_counts:
  assumes "length scores = length labels"
  shows "pr_tp (precision_recall_at scores labels t) + pr_fn (precision_recall_at scores labels t) = count_true labels"
  using assms
proof (induction scores labels rule: list_induct2)
  case (Cons x xs y ys)
  then show ?case by (cases y) (auto simp: precision_recall_at_def Let_def count_true_def)
qed (simp add: precision_recall_at_def Let_def count_true_def)

end
