(* ===== verification/Forecasters.thy ===== *)
theory Forecasters
  imports Prelude
begin

text \<open>
  \<open>packages/scoring/src\<close>: outcome cells (\<open>types.ts\<close>), claim eligibility (\<open>eligibility.ts\<close>),
  the feature inputs and their standardisation (\<open>inputs.ts\<close>), the forecasters
  \<open>heuristic_v1\<close>, \<open>det_v0\<close> and \<open>det_v0.1\<close> (\<open>heuristic.ts\<close>, \<open>det.ts\<close>) and the fixed maps from
  the two external scanners (\<open>mappings.ts\<close> with \<open>weights/forecaster_mappings_v0.json\<close>).
  The logistic weights are an argument, as in the code.
\<close>


section \<open>Outcome cells\<close>

datatype horizon = H1 | H6 | H24 | H72 | D7

datatype outcome_label = InsiderExit | SellImpaired | LiqImpaired | Drawdown80 | TradingAlive

type_synonym outcome_key = "outcome_label \<times> horizon"

definition all_outcome_keys :: "outcome_key list" where
  "all_outcome_keys =
     [(InsiderExit, H6), (InsiderExit, H24), (InsiderExit, H72), (SellImpaired, H1), (SellImpaired, H24),
      (LiqImpaired, H24), (LiqImpaired, D7), (Drawdown80, H24), (Drawdown80, D7),
      (TradingAlive, H24), (TradingAlive, D7)]"

definition outcome_applies :: "outcome_key \<Rightarrow> bool \<Rightarrow> bool" where
  "outcome_applies k lp_locked =
     (if \<not> lp_locked then True else fst k \<noteq> SellImpaired \<and> fst k \<noteq> LiqImpaired)"

definition outcome_is_positive :: "outcome_key \<Rightarrow> bool" where
  "outcome_is_positive k \<longleftrightarrow> fst k = TradingAlive"

type_synonym grid = "(outcome_key \<times> real) list"


section \<open>Eligibility\<close>

datatype eligibility = Eligible | Replay | Late | Uncommitted | MissingTime

definition replay_after_ms :: millis where
  "replay_after_ms = 30 * 60000"

fun horizon_to_ms :: "horizon \<Rightarrow> millis" where
  "horizon_to_ms H1 = 3600000"
| "horizon_to_ms H6 = 6 * 3600000"
| "horizon_to_ms H24 = 24 * 3600000"
| "horizon_to_ms H72 = 72 * 3600000"
| "horizon_to_ms D7 = 7 * 24 * 3600000"

record eligibility_input =
  el_report_time :: millis
  el_committed :: bool
  el_commit_block_time :: "millis option"
  el_horizon_end :: millis

definition classify_eligibility :: "eligibility_input \<Rightarrow> eligibility" where
  "classify_eligibility i =
     (if \<not> el_committed i then Uncommitted
      else case el_commit_block_time i of
        None \<Rightarrow> MissingTime
      | Some t \<Rightarrow>
          if t \<ge> el_horizon_end i then Late
          else if t - el_report_time i > replay_after_ms then Replay
          else Eligible)"

definition scanner_fetch_is_timely :: "millis \<Rightarrow> millis option \<Rightarrow> bool" where
  "scanner_fetch_is_timely report_time fetched =
     (case fetched of None \<Rightarrow> False | Some t \<Rightarrow> t - report_time \<le> replay_after_ms)"


section \<open>Feature inputs\<close>

record feature_inputs =
  fi_source :: string
  fi_lp_locked :: bool
  fi_creator_devbuy_pct :: "real option"
  fi_creator_age_days :: "real option"
  fi_creator_prior_launches :: "real option"
  fi_creator_prior_exit_rate :: "real option"
  fi_cluster_size :: "real option"
  fi_launch_block_cluster :: "real option"
  fi_cluster_supply_pct :: "real option"
  fi_top10_noncreator_pct :: "real option"
  fi_unique_buyers :: "real option"
  fi_buys_per_buyer :: "real option"
  fi_microbuy_share :: "real option"
  fi_liquidity_usd :: "real option"
  fi_sell_impact_bps :: "real option"
  fi_has_x :: "bool option"
  fi_has_site :: "bool option"
  fi_verified :: "bool option"
  fi_owner_renounced :: "bool option"
  fi_mintable :: "bool option"
  fi_sell_sim_ok :: "bool option"
  fi_sell_tax_bps :: "real option"
  fi_hook_block :: "bool option"
  fi_hook_tax :: "bool option"
  fi_hook_lp :: "bool option"
  fi_side_pools :: "real option"
  fi_approvals :: "real option"

datatype feature =
    CreatorDevbuyPct | CreatorAgeDays | CreatorPriorLaunches | CreatorPriorInsiderExitRate
  | ClusterSize | LaunchBlockClusterSize | ClusterSupplyPct | Top10NoncreatorPct
  | UniqueBuyers10m | BuysPerBuyer10m | MicrobuyShare10m | LiquidityUsd10m | SellImpactBps
  | HasX | HasSite | VerifiedFeature | OwnerRenounced | Mintable | SellSimOk | SellTaxBps
  | LpLockedByConstruction | HookCanBlockSwap | HookCanTaxSwap | HookGatesLpRemoval
  | SidePoolCount | CreatorApprovalsOutsideRouters

definition log1p :: "real \<Rightarrow> real" where
  "log1p x = ln (1 + max 0 x)"

definition tri :: "bool option \<Rightarrow> real" where
  "tri b = (case b of None \<Rightarrow> 0 | Some v \<Rightarrow> if v then 1 else - 1)"

definition zscore :: "real option \<Rightarrow> real \<Rightarrow> real \<Rightarrow> real" where
  "zscore x center scale = (case x of None \<Rightarrow> 0 | Some v \<Rightarrow> (v - center) / scale)"

fun standardize :: "feature_inputs \<Rightarrow> feature \<Rightarrow> real" where
  "standardize i CreatorDevbuyPct = zscore (fi_creator_devbuy_pct i) 3 8"
| "standardize i CreatorAgeDays = zscore (map_option log1p (fi_creator_age_days i)) (log1p 30) (3 / 2)"
| "standardize i CreatorPriorLaunches = zscore (map_option log1p (fi_creator_prior_launches i)) (log1p 1) 1"
| "standardize i CreatorPriorInsiderExitRate = zscore (fi_creator_prior_exit_rate i) (3 / 10) (3 / 10)"
| "standardize i ClusterSize = zscore (map_option log1p (fi_cluster_size i)) (log1p 1) 1"
| "standardize i LaunchBlockClusterSize = zscore (fi_launch_block_cluster i) 1 2"
| "standardize i ClusterSupplyPct = zscore (fi_cluster_supply_pct i) 5 12"
| "standardize i Top10NoncreatorPct = zscore (fi_top10_noncreator_pct i) 25 20"
| "standardize i UniqueBuyers10m = zscore (map_option log1p (fi_unique_buyers i)) (log1p 30) (3 / 2)"
| "standardize i BuysPerBuyer10m = zscore (fi_buys_per_buyer i) 2 3"
| "standardize i MicrobuyShare10m = zscore (fi_microbuy_share i) (3 / 10) (3 / 10)"
| "standardize i LiquidityUsd10m = zscore (map_option log1p (fi_liquidity_usd i)) (log1p 5000) 2"
| "standardize i SellImpactBps = zscore (map_option log1p (fi_sell_impact_bps i)) (log1p 100) (3 / 2)"
| "standardize i HasX = tri (fi_has_x i)"
| "standardize i HasSite = tri (fi_has_site i)"
| "standardize i VerifiedFeature = tri (fi_verified i)"
| "standardize i OwnerRenounced = tri (fi_owner_renounced i)"
| "standardize i Mintable = tri (fi_mintable i)"
| "standardize i SellSimOk = tri (fi_sell_sim_ok i)"
| "standardize i SellTaxBps = zscore (fi_sell_tax_bps i) 0 300"
| "standardize i LpLockedByConstruction = (if fi_lp_locked i then 1 else - 1)"
| "standardize i HookCanBlockSwap = tri (fi_hook_block i)"
| "standardize i HookCanTaxSwap = tri (fi_hook_tax i)"
| "standardize i HookGatesLpRemoval = tri (fi_hook_lp i)"
| "standardize i SidePoolCount = zscore (fi_side_pools i) 1 3"
| "standardize i CreatorApprovalsOutsideRouters = zscore (fi_approvals i) 0 2"

definition sigmoid :: "real \<Rightarrow> real" where
  "sigmoid x = 1 / (1 + exp (- x))"


section \<open>The heuristic\<close>

datatype heuristic_reason = DevbuyHigh | LaunchBlockCluster | Top10High

definition heuristic_reasons :: "feature_inputs \<Rightarrow> heuristic_reason list" where
  "heuristic_reasons i =
     (if nullish (fi_creator_devbuy_pct i) 0 \<ge> 5 then [DevbuyHigh] else []) @
     (if nullish (fi_launch_block_cluster i) 0 \<ge> 3 then [LaunchBlockCluster] else []) @
     (if nullish (fi_top10_noncreator_pct i) 0 \<ge> 40 then [Top10High] else [])"

record heuristic_result =
  he_fired :: bool
  he_reasons :: "heuristic_reason list"
  he_probabilities :: grid

definition heuristic_v1 :: "feature_inputs \<Rightarrow> heuristic_result" where
  "heuristic_v1 i =
     (let reasons = heuristic_reasons i; fired = (reasons \<noteq> []);
          p = (if fired then 8 / 10 else 12 / 100)
      in \<lparr>he_fired = fired, he_reasons = reasons,
          he_probabilities = map (\<lambda>k. (k, if outcome_is_positive k then 1 - p else p))
            (filter (\<lambda>k. outcome_applies k (fi_lp_locked i)) all_outcome_keys)\<rparr>)"


section \<open>The logistic forecasters\<close>

record outcome_weights =
  ow_bias :: real
  ow_weights :: "(feature \<times> real) list"

record det_weights =
  dw_version :: string
  dw_outcomes :: "outcome_key \<rightharpoonup> outcome_weights"

definition logit_of :: "feature_inputs \<Rightarrow> outcome_weights \<Rightarrow> real" where
  "logit_of i w = fold (\<lambda>(f, coef) acc. acc + coef * standardize i f) (ow_weights w) (ow_bias w)"

definition det_v0 :: "feature_inputs \<Rightarrow> det_weights \<Rightarrow> string \<times> grid" where
  "det_v0 i weights =
     (dw_version weights,
      List.map_filter (\<lambda>k. if \<not> outcome_applies k (fi_lp_locked i) then None
        else map_option (\<lambda>w. (k, round4 (sigmoid (logit_of i w)))) (dw_outcomes weights k)) all_outcome_keys)"

definition logit :: "real \<Rightarrow> real" where
  "logit p = (let c = min (1 - 1 / 10 ^ 6) (max (1 / 10 ^ 6) p) in ln (c / (1 - c)))"

definition merge_det_v01 :: "det_weights \<Rightarrow> string \<Rightarrow> (outcome_key \<rightharpoonup> real) \<Rightarrow> det_weights" where
  "merge_det_v01 base version bias_override =
     \<lparr>dw_version = version,
      dw_outcomes = (\<lambda>k. case dw_outcomes base k of
          None \<Rightarrow> None
        | Some w \<Rightarrow> (case bias_override k of None \<Rightarrow> Some w
            | Some b \<Rightarrow> Some \<lparr>ow_bias = b, ow_weights = ow_weights w\<rparr>))\<rparr>"

definition det_v0_1 :: "feature_inputs \<Rightarrow> det_weights \<Rightarrow> string \<Rightarrow> (outcome_key \<rightharpoonup> real) \<Rightarrow> string \<times> grid" where
  "det_v0_1 i base version bias_override = det_v0 i (merge_det_v01 base version bias_override)"


section \<open>Scanner maps\<close>

text \<open>A parsed JSON value of a scanner's answer; a missing field is \<open>None\<close>.\<close>

datatype scan_value = VNull | VBool bool | VNum real | VStr string | VObj "(string \<times> scan_value) list"

type_synonym scan = "(string \<times> scan_value) list"

text \<open>\<open>scan[a] ?? scan[b] ?? ...\<close>: the first field that is neither missing nor null.\<close>

fun first_field :: "string list \<Rightarrow> scan \<Rightarrow> scan_value option" where
  "first_field [] s = None"
| "first_field (k # ks) s =
     (case map_of s k of None \<Rightarrow> first_field ks s | Some VNull \<Rightarrow> first_field ks s | Some v \<Rightarrow> Some v)"

definition object_field :: "string \<Rightarrow> scan \<Rightarrow> scan" where
  "object_field k s = (case first_field [k] s of Some (VObj fs) \<Rightarrow> fs | _ \<Rightarrow> [])"

fun as_bool :: "scan_value \<Rightarrow> bool" where
  "as_bool (VBool b) = b"
| "as_bool (VNum n) = (n = 1)"
| "as_bool (VStr s) = (s = ''1'' \<or> s = ''true'')"
| "as_bool _ = False"

definition clamp01 :: "real \<Rightarrow> real" where
  "clamp01 x = (if x < 0 then 0 else if x > 1 then 1 else x)"

text \<open>
  \<open>Number(s)\<close> on decimal literals with an optional sign and fraction; other texts count
  as not finite here (exponents, hexadecimal and \<open>Infinity\<close> are left out).
\<close>

definition is_space :: "char \<Rightarrow> bool" where
  "is_space c \<longleftrightarrow> c \<in> set [CHR '' '', CHR 0x09, CHR 0x0A, CHR 0x0B, CHR 0x0C, CHR 0x0D]"

definition trim :: "string \<Rightarrow> string" where
  "trim s = rev (dropWhile is_space (rev (dropWhile is_space s)))"

definition is_digit :: "char \<Rightarrow> bool" where
  "is_digit c \<longleftrightarrow> (let n = of_char c :: nat in 48 \<le> n \<and> n \<le> 57)"

definition digits_value :: "string \<Rightarrow> real" where
  "digits_value s = fold (\<lambda>c acc. acc * 10 + (of_nat (of_char c) - 48)) s 0"

definition decimal_value :: "string \<Rightarrow> real option" where
  "decimal_value s =
     (let whole = takeWhile is_digit s; rest = dropWhile is_digit s in
      if rest = [] then (if whole = [] then None else Some (digits_value whole))
      else if hd rest = CHR ''.'' \<and> list_all is_digit (tl rest) \<and> (whole \<noteq> [] \<or> tl rest \<noteq> []) then
        Some (digits_value whole + digits_value (tl rest) / 10 ^ length (tl rest))
      else None)"

definition js_number :: "string \<Rightarrow> real option" where
  "js_number s =
     (let t = trim s in
      if t = [] then Some 0
      else if hd t = CHR ''-'' then map_option uminus (decimal_value (tl t))
      else if hd t = CHR ''+'' then decimal_value (tl t)
      else decimal_value t)"

definition num :: "scan_value option \<Rightarrow> real" where
  "num v = (case v of Some (VStr s) \<Rightarrow> nullish (js_number s) 0 | Some (VNum n) \<Rightarrow> n | _ \<Rightarrow> 0)"

text \<open>\<open>.replace(/\s+/g, '_')\<close>.\<close>

fun underscore_spaces :: "string \<Rightarrow> string" where
  "underscore_spaces [] = []"
| "underscore_spaces [c] = (if is_space c then ''_'' else [c])"
| "underscore_spaces (c # d # cs) =
     (if is_space c then (if is_space d then underscore_spaces (d # cs) else CHR ''_'' # underscore_spaces (d # cs))
      else c # underscore_spaces (d # cs))"

definition verdict_scores :: "(string \<times> real) list" where
  "verdict_scores =
     [(''safe'', 4 / 100), (''ok'', 6 / 100), (''low'', 12 / 100), (''low_risk'', 12 / 100),
      (''caution'', 3 / 10), (''warning'', 35 / 100), (''medium'', 45 / 100), (''medium_risk'', 45 / 100),
      (''high'', 7 / 10), (''high_risk'', 7 / 10), (''danger'', 85 / 100), (''critical'', 9 / 10),
      (''honeypot'', 95 / 100), (''scam'', 95 / 100), (''unknown'', 5 / 10)]"

text \<open>A verdict that is not a string has no entry in the table.\<close>

definition verdict_score :: "scan \<Rightarrow> real" where
  "verdict_score s =
     (case first_field [''verdict'', ''risk'', ''rating''] s of
        Some (VStr v) \<Rightarrow> nullish (map_of verdict_scores (underscore_spaces (lower v))) (5 / 10)
      | _ \<Rightarrow> 5 / 10)"

fun scanhood_factor :: "outcome_key \<Rightarrow> real" where
  "scanhood_factor (InsiderExit, h) = (if h = H6 then 85 / 100 else 9 / 10)"
| "scanhood_factor (SellImpaired, h) = 1"
| "scanhood_factor (LiqImpaired, h) = (if h = H24 then 8 / 10 else 85 / 100)"
| "scanhood_factor (Drawdown80, h) = 1"
| "scanhood_factor (TradingAlive, h) = (if h = H24 then 9 / 10 else 1)"

definition scan_sellable :: "scan \<Rightarrow> scan_value" where
  "scan_sellable s =
     (case first_field [''sellable'', ''can_sell'', ''canSell''] s of
        Some v \<Rightarrow> v
      | None \<Rightarrow> nullish (first_field [''sellable''] (object_field ''market'' s)) (VBool True))"

definition scanhood_raw :: "scan \<Rightarrow> real" where
  "scanhood_raw s =
     (let verified = nullish (first_field [''verified'', ''is_verified''] s) (VBool True);
          rwa = nullish (first_field [''rwa'', ''is_rwa'', ''impersonation''] s) (VBool False);
          lp = first_field [''lp_locked'', ''lpLocked''] s;
          lp' = (case lp of Some v \<Rightarrow> Some v | None \<Rightarrow> map_of s ''locked'');
          launches = num (first_field [''launches'', ''count'', ''deploys''] (object_field ''deployer'' s))
      in clamp01 (verdict_score s
           + (if \<not> as_bool (scan_sellable s) then 4 / 10 else 0)
           + (if \<not> as_bool verified then 6 / 100 else 0)
           + (if as_bool rwa then 15 / 100 else 0)
           + (case lp' of None \<Rightarrow> 0 | Some v \<Rightarrow> if \<not> as_bool v then 1 / 10 else 0)
           + (if launches = 0 then 5 / 100 else 0)))"

definition scan_cap :: real where "scan_cap = 97 / 100"

definition scanhood_cell :: "scan \<Rightarrow> outcome_key \<Rightarrow> real" where
  "scanhood_cell s k =
     (let p = scanhood_raw s * scanhood_factor k;
          p' = (if fst k = SellImpaired \<and> \<not> as_bool (scan_sellable s) then max p (85 / 100) else p);
          q = min scan_cap (clamp01 p')
      in round4 (if outcome_is_positive k then 1 - q else q))"

definition scanhood_to_probabilities :: "scan option \<Rightarrow> grid" where
  "scanhood_to_probabilities scan =
     (case scan of None \<Rightarrow> [] | Some s \<Rightarrow> map (\<lambda>k. (k, scanhood_cell s k)) all_outcome_keys)"

definition goplus_flags :: "(string \<times> real) list" where
  "goplus_flags =
     [(''is_honeypot'', 5 / 10), (''cannot_sell_all'', 4 / 10), (''cannot_buy'', 15 / 100),
      (''transfer_pausable'', 25 / 100), (''trading_cooldown'', 15 / 100), (''is_mintable'', 15 / 100),
      (''owner_change_balance'', 4 / 10), (''hidden_owner'', 3 / 10), (''is_blacklisted'', 2 / 10),
      (''slippage_modifiable'', 25 / 100), (''personal_slippage_modifiable'', 25 / 100),
      (''selfdestruct'', 4 / 10), (''external_call'', 1 / 10), (''is_proxy'', 5 / 100)]"

fun goplus_factor :: "outcome_key \<Rightarrow> real" where
  "goplus_factor (InsiderExit, h) = (if h = H6 then 7 / 10 else 75 / 100)"
| "goplus_factor (SellImpaired, h) = 1"
| "goplus_factor (LiqImpaired, h) = (if h = H24 then 6 / 10 else 65 / 100)"
| "goplus_factor (Drawdown80, h) = 85 / 100"
| "goplus_factor (TradingAlive, h) = (if h = H24 then 8 / 10 else 9 / 10)"

definition goplus_flag_sum :: "scan \<Rightarrow> real" where
  "goplus_flag_sum s = fold (\<lambda>(flag, w) acc.
     (case map_of s flag of None \<Rightarrow> acc | Some v \<Rightarrow> if as_bool v then acc + w else acc)) goplus_flags (5 / 100)"

definition sell_tax_pct :: "scan \<Rightarrow> real" where
  "sell_tax_pct s = (let t = num (map_of s ''sell_tax'') in t * (if t \<le> 1 then 100 else 1))"

definition goplus_raw :: "scan \<Rightarrow> real" where
  "goplus_raw s = clamp01 (goplus_flag_sum s + min (5 / 10) (sell_tax_pct s * (2 / 100)))"

definition goplus_cell :: "scan \<Rightarrow> outcome_key \<Rightarrow> real" where
  "goplus_cell s k =
     (let p = min scan_cap (clamp01 (goplus_raw s * goplus_factor k))
      in round4 (if outcome_is_positive k then 1 - p else p))"

definition goplus_to_probabilities :: "scan option \<Rightarrow> grid" where
  "goplus_to_probabilities scan =
     (case scan of None \<Rightarrow> [] | Some s \<Rightarrow> map (\<lambda>k. (k, goplus_cell s k)) all_outcome_keys)"

section \<open>Facts\<close>

lemma one_plus_exp_pos: "0 < 1 + exp (x :: real)"
  by (rule add_pos_pos [OF zero_less_one exp_gt_zero])

lemma sigmoid_bounds [bounds]: "0 < sigmoid x \<and> sigmoid x < 1"
  unfolding sigmoid_def
proof
  show "0 < 1 / (1 + exp (- x))" by (rule divide_pos_pos [OF zero_less_one one_plus_exp_pos])
  show "1 / (1 + exp (- x)) < 1"
    unfolding divide_less_eq_1_pos [OF one_plus_exp_pos] using exp_gt_zero [of "- x"] by linarith
qed

lemma sigmoid_mono: "x \<le> y \<Longrightarrow> sigmoid x \<le> sigmoid y"
proof -
  assume "x \<le> y"
  then have "1 + exp (- y) \<le> 1 + exp (- x)" by simp
  then show ?thesis unfolding sigmoid_def
    by (intro divide_left_mono mult_pos_pos one_plus_exp_pos) auto
qed

lemma clamp01_bounds [bounds]: "0 \<le> clamp01 x \<and> clamp01 x \<le> 1"
  by (simp add: clamp01_def)

lemma round4_bounds [bounds]: "0 \<le> x \<Longrightarrow> x \<le> 1 \<Longrightarrow> 0 \<le> round4 x \<and> round4 x \<le> 1"
  by (simp add: round_dp_nonneg round_dp_le1)

lemma round4_fixed: "round4 (97 / 100) = 97 / 100" "round4 (3 / 100) = 3 / 100" "round4 (85 / 100) = 85 / 100"
proof -
  have "js_round (9700 :: real) = 9700" "js_round (300 :: real) = 300" "js_round (8500 :: real) = 8500"
    using js_round_of_int [of 9700] js_round_of_int [of 300] js_round_of_int [of 8500] by simp_all
  then show "round4 (97 / 100) = 97 / 100" "round4 (3 / 100) = 3 / 100" "round4 (85 / 100) = 85 / 100"
    by (simp_all add: round_dp_def)
qed

lemma distinct_outcome_keys: "distinct all_outcome_keys"
  by (simp add: all_outcome_keys_def)

text \<open>A grid of probabilities over some of the cells, each at most once.\<close>

definition valid_grid :: "grid \<Rightarrow> bool" where
  "valid_grid g \<longleftrightarrow> distinct (map fst g) \<and> list_all (\<lambda>(k, p). k \<in> set all_outcome_keys \<and> 0 \<le> p \<and> p \<le> 1) g"

lemma valid_grid_map:
  "distinct ks \<Longrightarrow> set ks \<subseteq> set all_outcome_keys \<Longrightarrow> (\<And>k. k \<in> set ks \<Longrightarrow> 0 \<le> f k \<and> f k \<le> 1) \<Longrightarrow>
   valid_grid (map (\<lambda>k. (k, f k)) ks)"
  by (auto simp: valid_grid_def list_all_iff comp_def)

lemma map_filter_grid:
  "List.map_filter (\<lambda>k. map_option (\<lambda>w. (k, h k w)) (t k)) ks =
   map (\<lambda>k. (k, h k (the (t k)))) (filter (\<lambda>k. t k \<noteq> None) ks)"
  by (induction ks) (auto simp: List.map_filter_def)

lemma det_v0_grid:
  "snd (det_v0 i w) = map (\<lambda>k. (k, round4 (sigmoid (logit_of i (the (dw_outcomes w k))))))
     (filter (\<lambda>k. outcome_applies k (fi_lp_locked i) \<and> dw_outcomes w k \<noteq> None) all_outcome_keys)"
proof -
  let ?t = "\<lambda>k. if outcome_applies k (fi_lp_locked i) then dw_outcomes w k else None"
  have "snd (det_v0 i w) = List.map_filter (\<lambda>k. map_option (\<lambda>ow. (k, round4 (sigmoid (logit_of i ow)))) (?t k)) all_outcome_keys"
    unfolding det_v0_def snd_conv by (rule arg_cong [where f = "\<lambda>f. List.map_filter f all_outcome_keys"]) auto
  also have "\<dots> = map (\<lambda>k. (k, round4 (sigmoid (logit_of i (the (?t k)))))) (filter (\<lambda>k. ?t k \<noteq> None) all_outcome_keys)"
    by (rule map_filter_grid)
  also have "filter (\<lambda>k. ?t k \<noteq> None) all_outcome_keys =
      filter (\<lambda>k. outcome_applies k (fi_lp_locked i) \<and> dw_outcomes w k \<noteq> None) all_outcome_keys"
    by (rule filter_cong) auto
  finally show ?thesis by (auto intro!: map_cong)
qed

lemma det_v0_valid: "valid_grid (snd (det_v0 i w))"
  unfolding det_v0_grid
  by (rule valid_grid_map)
     (auto simp: distinct_outcome_keys round4_bounds less_imp_le sigmoid_bounds)

lemma heuristic_valid: "valid_grid (he_probabilities (heuristic_v1 i))"
  unfolding heuristic_v1_def Let_def heuristic_result.simps
  by (rule valid_grid_map) (auto simp: distinct_outcome_keys)

lemma capped_cell:
  assumes "0 \<le> q" "q \<le> 97 / 100"
  shows "0 \<le> round4 (if b then 1 - q else q) \<and> round4 (if b then 1 - q else q) \<le> 1 \<and>
    (b \<longrightarrow> 3 / 100 \<le> round4 (if b then 1 - q else q)) \<and> (\<not> b \<longrightarrow> round4 (if b then 1 - q else q) \<le> 97 / 100)"
proof -
  have "round4 (if b then 1 - q else q) \<ge> 0" "round4 (if b then 1 - q else q) \<le> 1"
    using assms by (auto intro: round_dp_nonneg round_dp_le1)
  moreover have "b \<Longrightarrow> 3 / 100 \<le> round4 (1 - q)"
    using round_dp_mono [of "3 / 100" "1 - q" 4] assms(2) round4_fixed(2) by simp
  moreover have "\<not> b \<Longrightarrow> round4 q \<le> 97 / 100"
    using round_dp_mono [of q "97 / 100" 4] assms(2) round4_fixed(1) by simp
  ultimately show ?thesis by auto
qed

lemma cap_bounds: "0 \<le> min scan_cap (clamp01 x) \<and> min scan_cap (clamp01 x) \<le> 97 / 100"
  using clamp01_bounds [of x] by (simp add: scan_cap_def)

lemma scanhood_cell_bounds:
  "0 \<le> scanhood_cell s k \<and> scanhood_cell s k \<le> 1 \<and> (outcome_is_positive k \<longrightarrow> 3 / 100 \<le> scanhood_cell s k) \<and>
   (\<not> outcome_is_positive k \<longrightarrow> scanhood_cell s k \<le> 97 / 100)"
  unfolding scanhood_cell_def Let_def
  by (rule capped_cell [OF cap_bounds [THEN conjunct1] cap_bounds [THEN conjunct2]])

lemma goplus_cell_bounds:
  "0 \<le> goplus_cell s k \<and> goplus_cell s k \<le> 1 \<and> (outcome_is_positive k \<longrightarrow> 3 / 100 \<le> goplus_cell s k) \<and>
   (\<not> outcome_is_positive k \<longrightarrow> goplus_cell s k \<le> 97 / 100)"
  unfolding goplus_cell_def Let_def
  by (rule capped_cell [OF cap_bounds [THEN conjunct1] cap_bounds [THEN conjunct2]])

text \<open>
  every forecaster, on every input, answers probabilities in [0, 1], at most one for each
  of the eleven cells, and neither scanner map is ever more certain of harm than 0.97.
\<close>

theorem forecasts_are_probabilities:
  "valid_grid (he_probabilities (heuristic_v1 i)) \<and> valid_grid (snd (det_v0 i w)) \<and>
   valid_grid (snd (det_v0_1 i w v ov)) \<and> valid_grid (scanhood_to_probabilities sh) \<and>
   valid_grid (goplus_to_probabilities gp) \<and>
   list_all (\<lambda>(k, p). outcome_is_positive k \<or> p \<le> 97 / 100) (scanhood_to_probabilities sh @ goplus_to_probabilities gp)"
proof -
  have "valid_grid (scanhood_to_probabilities sh)"
    by (cases sh) (auto simp: scanhood_to_probabilities_def valid_grid_def list_all_iff comp_def
        distinct_outcome_keys scanhood_cell_bounds)
  moreover have "valid_grid (goplus_to_probabilities gp)"
    by (cases gp) (auto simp: goplus_to_probabilities_def valid_grid_def list_all_iff comp_def
        distinct_outcome_keys goplus_cell_bounds)
  moreover have "list_all (\<lambda>(k, p). outcome_is_positive k \<or> p \<le> 97 / 100) (scanhood_to_probabilities sh)"
    using scanhood_cell_bounds by (cases sh) (auto simp: scanhood_to_probabilities_def list_all_iff)
  moreover have "list_all (\<lambda>(k, p). outcome_is_positive k \<or> p \<le> 97 / 100) (goplus_to_probabilities gp)"
    using goplus_cell_bounds by (cases gp) (auto simp: goplus_to_probabilities_def list_all_iff)
  ultimately show ?thesis
    by (simp add: heuristic_valid det_v0_valid det_v0_1_def)
qed

text \<open>A token that cannot be sold scores at least 0.85 on SELL_IMPAIRED.\<close>

lemma unsellable_sell_impaired:
  "\<not> as_bool (scan_sellable s) \<Longrightarrow> 85 / 100 \<le> scanhood_cell s (SellImpaired, h)"
proof -
  assume "\<not> as_bool (scan_sellable s)"
  then have "85 / 100 \<le> min scan_cap (clamp01 (max (scanhood_raw s) (85 / 100)))"
    by (auto simp: scan_cap_def clamp01_def max_def)
  from round_dp_mono [OF this, of 4] show ?thesis
    using \<open>\<not> as_bool (scan_sellable s)\<close> round4_fixed(3)
    by (simp add: scanhood_cell_def Let_def outcome_is_positive_def)
qed

text \<open>
  A missing feature contributes nothing, and the locked launchpad rule: the two impairment
  cells are left out exactly for launches with locked liquidity.
\<close>

lemma missing_feature_zero: "zscore None c s = 0" "tri None = 0"
  by (simp_all add: zscore_def tri_def)

lemma logit_of_sum: "logit_of i w = ow_bias w + sum_list (map (\<lambda>(f, c). c * standardize i f) (ow_weights w))"
proof -
  have "fold (\<lambda>(f, coef) acc. acc + coef * standardize i f) ws b = b + sum_list (map (\<lambda>(f, c). c * standardize i f) ws)" for ws b
    by (induction ws arbitrary: b) (auto simp: split_def)
  then show ?thesis by (simp add: logit_of_def)
qed

text \<open>
  the det_v0 probability of a cell is monotone: when each weighted feature moves in the
  direction of its weight's sign, or stays, no probability falls.
\<close>

theorem det_v0_monotone:
  assumes "fi_lp_locked i = fi_lp_locked j" and "dw_outcomes w k = Some ow"
    and "list_all (\<lambda>(f, c). c * standardize i f \<le> c * standardize j f) (ow_weights ow)"
    and "map_of (snd (det_v0 i w)) k = Some p"
  shows "\<exists>q. map_of (snd (det_v0 j w)) k = Some q \<and> p \<le> q"
proof -
  have "sum_list (map (\<lambda>(f, c). c * standardize i f) ws) \<le> sum_list (map (\<lambda>(f, c). c * standardize j f) ws)"
    if "list_all (\<lambda>(f, c). c * standardize i f \<le> c * standardize j f) ws" for ws
    using that by (induction ws) (auto intro: add_mono)
  then have le: "logit_of i ow \<le> logit_of j ow" using assms(3) by (simp add: logit_of_sum)
  have entry: "map_of (snd (det_v0 x w)) k =
      (if k \<in> set all_outcome_keys \<and> outcome_applies k (fi_lp_locked x) then Some (round4 (sigmoid (logit_of x ow))) else None)" for x
    using assms(2) by (auto simp: det_v0_grid map_of_map_restrict restrict_map_def)
  show ?thesis using assms(1,4) round_dp_mono [OF sigmoid_mono [OF le], of 4] by (auto simp: entry split: if_splits)
qed

definition demo_inputs :: feature_inputs where
  "demo_inputs = \<lparr>fi_source = ''raw'', fi_lp_locked = False, fi_creator_devbuy_pct = Some 3,
     fi_creator_age_days = None, fi_creator_prior_launches = None, fi_creator_prior_exit_rate = None,
     fi_cluster_size = None, fi_launch_block_cluster = None, fi_cluster_supply_pct = None,
     fi_top10_noncreator_pct = None, fi_unique_buyers = None, fi_buys_per_buyer = None,
     fi_microbuy_share = None, fi_liquidity_usd = None, fi_sell_impact_bps = None, fi_has_x = None,
     fi_has_site = None, fi_verified = None, fi_owner_renounced = None, fi_mintable = None,
     fi_sell_sim_ok = None, fi_sell_tax_bps = None, fi_hook_block = None, fi_hook_tax = None,
     fi_hook_lp = None, fi_side_pools = None, fi_approvals = None\<rparr>"

definition demo_weights :: det_weights where
  "demo_weights = \<lparr>dw_version = ''det_v0'',
     dw_outcomes = [(InsiderExit, H6) \<mapsto> \<lparr>ow_bias = 0, ow_weights = [(CreatorDevbuyPct, 6 / 10)]\<rparr>]\<rparr>"

lemma demo_det: "map_of (snd (det_v0 demo_inputs demo_weights)) (InsiderExit, H6) = Some (1 / 2)"
proof -
  have "round4 (1 / 2) = 1 / 2" using js_round_of_int [of 5000] by (simp add: round_dp_def)
  then show ?thesis
    by (simp add: det_v0_grid all_outcome_keys_def outcome_applies_def demo_weights_def demo_inputs_def
        logit_of_def zscore_def sigmoid_def)
qed

theorem det_v0_monotone_witness:
  "\<exists>q. map_of (snd (det_v0 (demo_inputs\<lparr>fi_creator_devbuy_pct := Some 11\<rparr>) demo_weights)) (InsiderExit, H6) = Some q \<and> 1 / 2 \<le> q"
proof (rule det_v0_monotone [OF _ _ _ demo_det])
  show "dw_outcomes demo_weights (InsiderExit, H6) = Some \<lparr>ow_bias = 0, ow_weights = [(CreatorDevbuyPct, 6 / 10)]\<rparr>"
    by (simp add: demo_weights_def)
qed (simp_all add: demo_inputs_def zscore_def)

text \<open>
  a report-outcome pair counts towards a claim exactly when the report was committed in a
  block whose time is known, before the outcome's horizon ended and at most 30 minutes
  after the report's anchor; and a pair that counts for a horizon counts for every later end.
\<close>

theorem eligible_exactly_when_committed_in_time:
  "(classify_eligibility i = Eligible \<longleftrightarrow> el_committed i \<and> (\<exists>t. el_commit_block_time i = Some t \<and>
      t < el_horizon_end i \<and> t \<le> el_report_time i + 1800000)) \<and>
   (classify_eligibility i = Eligible \<and> d \<ge> 0 \<longrightarrow>
      classify_eligibility (i\<lparr>el_horizon_end := el_horizon_end i + d\<rparr>) = Eligible)"
  by (auto simp: classify_eligibility_def replay_after_ms_def split: option.splits)

theorem eligible_exactly_when_committed_in_time_witness:
  "classify_eligibility \<lparr>el_report_time = 0, el_committed = True, el_commit_block_time = Some 600000,
      el_horizon_end = 3600000 + 5\<rparr> = Eligible"
  using eligible_exactly_when_committed_in_time [of "\<lparr>el_report_time = 0, el_committed = True,
      el_commit_block_time = Some 600000, el_horizon_end = 3600000\<rparr>" 5]
  by simp

end
