(* ===== verification/Scorer.thy ===== *)
theory Scorer
  imports Metrics Forecasters
begin

text \<open>
  The benchmark table of \<open>packages/scoring/src/scorer.ts\<close>: cells per forecaster and
  outcome, the claim gate of a comparison with a baseline, the inverted-ranking flag,
  and the sections by trigger and by source.
\<close>

definition min_for_metrics :: nat where "min_for_metrics = 100"
definition min_for_claims :: nat where "min_for_claims = 200"
definition min_positives_for_claims :: nat where "min_positives_for_claims = 30"

record score_row =
  sw_obs :: string
  sw_forecaster :: string
  sw_outcome :: outcome_key
  sw_trigger :: string
  sw_source :: string
  sw_prob :: real
  sw_label :: bool

datatype comparison_note =
    InsufficientOverlap | InsufficientSample | InsufficientPositives | OwnAucNotAboveChance
  | SignificantGain | NoGain | NotSignificant

record comparison =
  co_vs :: string
  co_n :: nat
  co_positives :: nat
  co_auc_diff :: "real option"
  co_z :: "real option"
  co_p :: "real option"
  co_claim :: bool
  co_note :: comparison_note

record pr_point =
  pp_threshold :: real
  pp_precision :: "real option"
  pp_recall :: "real option"

record forecaster_cell =
  ce_forecaster :: string
  ce_n :: nat
  ce_positives :: nat
  ce_base_rate :: real
  ce_auroc :: "real option"
  ce_auprc :: "real option"
  ce_log_loss :: "real option"
  ce_brier :: "real option"
  ce_brier_skill :: "real option"
  ce_ece :: "real option"
  ce_pr :: "pr_point list"
  ce_insufficient :: bool
  ce_inverted :: bool
  ce_comparisons :: "comparison list"

datatype split_by = SplitAll | SplitTrigger | SplitSource

record section_row =
  se_split :: split_by
  se_value :: string
  se_outcomes :: "(outcome_key \<times> forecaster_cell list) list"

text \<open>\<open>alignByObs\<close>: the last row of an observation wins in the baseline's map.\<close>

definition obs_map :: "score_row list \<Rightarrow> string \<rightharpoonup> score_row" where
  "obs_map b = map_of (rev (map (\<lambda>r. (sw_obs r, r)) b))"

definition align_by_obs :: "score_row list \<Rightarrow> score_row list \<Rightarrow> (real \<times> real \<times> bool) list" where
  "align_by_obs a b = List.map_filter (\<lambda>r. map_option (\<lambda>m. (sw_prob r, sw_prob m, sw_label r)) (obs_map b (sw_obs r))) a"

definition auroc_standard_error :: "real \<Rightarrow> nat \<Rightarrow> nat \<Rightarrow> real option" where
  "auroc_standard_error auc positives negatives =
     (if positives < 2 \<or> negatives < 2 then None
      else
        (let q1 = auc / (2 - auc); q2 = (2 * auc * auc) / (1 + auc);
             v = (auc * (1 - auc) + (real positives - 1) * (q1 - auc * auc) + (real negatives - 1) * (q2 - auc * auc))
                 / (real positives * real negatives)
         in if v \<ge> 0 then Some (sqrt v) else None))"

definition is_inverted_ranking :: "real option \<Rightarrow> nat \<Rightarrow> nat \<Rightarrow> bool" where
  "is_inverted_ranking auc n positives =
     (case auc of None \<Rightarrow> False
      | Some a \<Rightarrow>
          if n < min_for_claims \<or> positives < min_positives_for_claims then False
          else (case auroc_standard_error a positives (n - positives) of
              None \<Rightarrow> False
            | Some se \<Rightarrow> if se = 0 then a < 1 / 2 else (1 / 2 - a) / se > 196 / 100))"

definition paired_scores :: "(real \<times> real \<times> bool) list \<Rightarrow> real list \<times> real list \<times> bool list" where
  "paired_scores rows = (map fst rows, map (fst \<circ> snd) rows, map (snd \<circ> snd) rows)"

definition claim_allowed :: "nat \<Rightarrow> nat \<Rightarrow> real option \<Rightarrow> delong_result \<Rightarrow> bool" where
  "claim_allowed n positives auc dl \<longleftrightarrow>
     n \<ge> min_for_claims \<and> positives \<ge> min_positives_for_claims \<and>
     (case auc of None \<Rightarrow> False | Some a \<Rightarrow> a > 1 / 2) \<and> dl_p dl < 5 / 100 \<and> dl_diff dl > 0"

definition claim_note :: "nat \<Rightarrow> nat \<Rightarrow> real option \<Rightarrow> delong_result \<Rightarrow> comparison_note" where
  "claim_note n positives auc dl =
     (if n < min_for_claims then InsufficientSample
      else if \<not> positives \<ge> min_positives_for_claims then InsufficientPositives
      else if \<not> (case auc of None \<Rightarrow> False | Some a \<Rightarrow> a > 1 / 2) then OwnAucNotAboveChance
      else if claim_allowed n positives auc dl then SignificantGain
      else if dl_diff dl \<le> 0 then NoGain else NotSignificant)"

definition compare_with :: "real option \<Rightarrow> score_row list \<Rightarrow> string \<Rightarrow> score_row list \<Rightarrow> comparison" where
  "compare_with auc rows base base_rows =
     (case paired_scores (align_by_obs rows base_rows) of (pa, pb, y) \<Rightarrow>
        (case fast_delong pa pb y of
           None \<Rightarrow> \<lparr>co_vs = base, co_n = length y, co_positives = count_true y, co_auc_diff = None,
                   co_z = None, co_p = None, co_claim = False, co_note = InsufficientOverlap\<rparr>
         | Some dl \<Rightarrow>
             \<lparr>co_vs = base, co_n = length y, co_positives = count_true y,
              co_auc_diff = Some (round4 (dl_diff dl)), co_z = Some (round4 (dl_z dl)), co_p = Some (round4 (dl_p dl)),
              co_claim = claim_allowed (length y) (count_true y) auc dl,
              co_note = claim_note (length y) (count_true y) auc dl\<rparr>))"

text \<open>\<open>peers\<close>: the rows of each forecaster, in order of first appearance.\<close>

definition peer_rows :: "score_row list \<Rightarrow> string \<Rightarrow> score_row list" where
  "peer_rows rows f = filter (\<lambda>r. sw_forecaster r = f) rows"

definition forecasters_of :: "score_row list \<Rightarrow> string list" where
  "forecasters_of rows = uniq (map sw_forecaster rows)"

definition comparisons_of :: "real option \<Rightarrow> string \<Rightarrow> score_row list \<Rightarrow> string list \<Rightarrow> comparison list" where
  "comparisons_of auc forecaster ok_rows baselines =
     map (\<lambda>b. compare_with auc (peer_rows ok_rows forecaster) b (peer_rows ok_rows b))
       (filter (\<lambda>b. b \<noteq> forecaster \<and> b \<in> set (forecasters_of ok_rows)) baselines)"

definition withheld_cell :: "string \<Rightarrow> score_row list \<Rightarrow> forecaster_cell" where
  "withheld_cell forecaster rows =
     \<lparr>ce_forecaster = forecaster, ce_n = length rows, ce_positives = count_true (map sw_label rows),
      ce_base_rate = round4 (base_rate (map sw_label rows)), ce_auroc = None, ce_auprc = None,
      ce_log_loss = None, ce_brier = None, ce_brier_skill = None, ce_ece = None, ce_pr = [],
      ce_insufficient = True, ce_inverted = False, ce_comparisons = []\<rparr>"

definition pr_point_at :: "real list \<Rightarrow> bool list \<Rightarrow> real \<Rightarrow> pr_point" where
  "pr_point_at probs labels t =
     (let r = precision_recall_at probs labels t
      in \<lparr>pp_threshold = t, pp_precision = map_option round4 (pr_precision r), pp_recall = map_option round4 (pr_recall_of r)\<rparr>)"

definition brier_skill_of :: "real list \<Rightarrow> bool list \<Rightarrow> real option" where
  "brier_skill_of probs labels =
     (case (brier_score probs labels, brier_score (map (\<lambda>_. base_rate labels) labels) labels) of
        (Some b, Some ref) \<Rightarrow> brier_skill b ref
      | _ \<Rightarrow> None)"

definition cell_of :: "string \<Rightarrow> score_row list \<Rightarrow> string list \<Rightarrow> real list \<Rightarrow> forecaster_cell" where
  "cell_of forecaster ok_rows baselines thresholds =
     (let rows = peer_rows ok_rows forecaster; probs = map sw_prob rows; labels = map sw_label rows;
          positives = count_true labels; auc = auroc probs labels
      in if length rows < min_for_metrics then withheld_cell forecaster rows
         else \<lparr>ce_forecaster = forecaster, ce_n = length rows, ce_positives = positives,
               ce_base_rate = round4 (base_rate labels), ce_auroc = map_option round4 auc,
               ce_auprc = map_option round4 (auprc probs labels),
               ce_log_loss = map_option round4 (log_loss probs labels),
               ce_brier = map_option round4 (brier_score probs labels),
               ce_brier_skill = map_option round4 (brier_skill_of probs labels),
               ce_ece = map_option round4 (ece probs labels 10),
               ce_pr = map (pr_point_at probs labels) thresholds, ce_insufficient = False,
               ce_inverted = is_inverted_ranking auc (length rows) positives,
               ce_comparisons = comparisons_of auc forecaster ok_rows baselines\<rparr>)"

text \<open>Cells by descending AUROC, a missing one counting 0; the sort is stable.\<close>

definition outcome_cells :: "score_row list \<Rightarrow> string list \<Rightarrow> real list \<Rightarrow> outcome_key \<Rightarrow> forecaster_cell list" where
  "outcome_cells rows baselines thresholds k =
     (let ok_rows = filter (\<lambda>r. sw_outcome r = k) rows
      in sort_key (\<lambda>c. - nullish (ce_auroc c) 0)
           (map (\<lambda>f. cell_of f ok_rows baselines thresholds) (forecasters_of ok_rows)))"

definition section_for :: "split_by \<Rightarrow> string \<Rightarrow> score_row list \<Rightarrow> string list \<Rightarrow> real list \<Rightarrow> section_row" where
  "section_for by_what value rows baselines thresholds =
     \<lparr>se_split = by_what, se_value = value,
      se_outcomes = map (\<lambda>k. (k, outcome_cells rows baselines thresholds k)) (uniq (map sw_outcome rows))\<rparr>"

definition default_baselines :: "string list" where
  "default_baselines = [''base_rate'', ''base_rate_fixed'', ''heuristic_v1'']"

definition score_benchmark :: "score_row list \<Rightarrow> string list \<Rightarrow> real list \<Rightarrow> section_row list" where
  "score_benchmark rows baselines thresholds =
     section_for SplitAll ''all'' rows baselines thresholds #
     map (\<lambda>t. section_for SplitTrigger t (filter (\<lambda>r. sw_trigger r = t) rows) baselines thresholds)
       (sort (uniq (map sw_trigger rows))) @
     map (\<lambda>s. section_for SplitSource s (filter (\<lambda>r. sw_source r = s) rows) baselines thresholds)
       (sort (uniq (map sw_source rows)))"


section \<open>Facts\<close>

lemma cell_n [simp]: "ce_n (cell_of f ok_rows bs ts) = length (peer_rows ok_rows f)"
  by (simp add: cell_of_def withheld_cell_def Let_def)

lemma partition_sum:
  "finite K \<Longrightarrow> g ` set rows \<subseteq> K \<Longrightarrow> (\<Sum>k \<in> K. length (filter (\<lambda>r. g r = k) rows)) = length rows"
proof (induction rows)
  case (Cons r rows)
  have "(\<Sum>k \<in> K. length (filter (\<lambda>x. g x = k) (r # rows))) =
      (\<Sum>k \<in> K. (if g r = k then 1 else 0) + length (filter (\<lambda>x. g x = k) rows))"
    by (rule sum.cong) auto
  also have "\<dots> = 1 + length rows" using Cons by (simp add: sum.distrib)
  finally show ?case by simp
qed simp

lemma partition_count:
  "sum_list (map (\<lambda>k. length (filter (\<lambda>r. g r = k) rows)) (uniq (map g rows))) = length rows"
  using partition_sum [of "g ` set rows" g rows] by (simp add: sum_list_distinct_conv_sum_set)

lemma outcome_cells_total:
  "sum_list (map ce_n (outcome_cells rows bs ts k)) = length (filter (\<lambda>r. sw_outcome r = k) rows)"
proof -
  let ?ok = "filter (\<lambda>r. sw_outcome r = k) rows"
  have "mset (map ce_n (outcome_cells rows bs ts k)) =
      mset (map ce_n (map (\<lambda>f. cell_of f ?ok bs ts) (forecasters_of ?ok)))"
    unfolding outcome_cells_def Let_def mset_map mset_sort ..
  then have "sum_list (map ce_n (outcome_cells rows bs ts k)) =
      sum_list (map (\<lambda>f. length (peer_rows ?ok f)) (forecasters_of ?ok))"
    by (metis (no_types, lifting) cell_n list.map_cong0 map_map comp_apply sum_mset_sum_list)
  then show ?thesis unfolding peer_rows_def forecasters_of_def partition_count .
qed

definition section_total :: "section_row \<Rightarrow> nat" where
  "section_total s = sum_list (map (\<lambda>(k, cells). sum_list (map ce_n cells)) (se_outcomes s))"

lemma section_total_for: "section_total (section_for b v rows bs ts) = length rows"
  by (simp add: section_total_def section_for_def comp_def outcome_cells_total partition_count)

lemma sum_sorted_uniq: "sum_list (map h (sort xs)) = sum_list (map (h :: 'a :: linorder \<Rightarrow> nat) xs)"
proof -
  have "mset (map h (sort xs)) = mset (map h xs)" by simp
  then show ?thesis by (metis sum_mset_sum_list)
qed

text \<open>
  no observation is lost or counted twice: the cells of the overall section, the cells of
  the trigger sections and the cells of the source sections each count every row once.
\<close>

theorem benchmark_counts_every_row:
  "section_total (hd (score_benchmark rows bs ts)) = length rows \<and>
   sum_list (map section_total (filter (\<lambda>s. se_split s = SplitTrigger) (score_benchmark rows bs ts))) = length rows \<and>
   sum_list (map section_total (filter (\<lambda>s. se_split s = SplitSource) (score_benchmark rows bs ts))) = length rows"
proof -
  have split: "se_split (section_for b v r bs ts) = b" for b v r by (simp add: section_for_def)
  have keep: "filter (\<lambda>s. se_split s = b) (map (\<lambda>t. section_for b' t (g t) bs ts) xs) =
      (if b = b' then map (\<lambda>t. section_for b' t (g t) bs ts) xs else [])" for b b' g xs
    by (induction xs) (auto simp: split)
  have "sum_list (map (\<lambda>t. length (filter (\<lambda>r. g r = t) rows)) (sort (uniq (map g rows)))) = length rows"
    for g :: "score_row \<Rightarrow> string"
    using partition_count [of g rows] by (simp add: sum_sorted_uniq)
  then show ?thesis
    by (simp add: score_benchmark_def section_total_for keep split comp_def)
qed

lemma map_filter_members: "x \<in> set (List.map_filter f xs) \<longleftrightarrow> (\<exists>y \<in> set xs. f y = Some x)"
  by (induction xs) (auto simp: List.map_filter_def)

lemma claim_backed:
  assumes "c \<in> set (comparisons_of auc f ok_rows bs)" "co_claim c"
  shows "co_vs c \<noteq> f \<and> co_vs c \<in> set bs \<and> 200 \<le> co_n c \<and> 30 \<le> co_positives c \<and> (\<exists>a. auc = Some a \<and> a > 1 / 2) \<and>
    (\<exists>pa pb y d. (pa, pb, y) = paired_scores (align_by_obs (peer_rows ok_rows f) (peer_rows ok_rows (co_vs c))) \<and>
       co_n c = length y \<and> co_positives c = count_true y \<and> fast_delong pa pb y = Some d \<and> dl_p d < 5 / 100 \<and> dl_diff d > 0)"
proof -
  obtain b where b: "b \<in> set bs" "b \<noteq> f" "c = compare_with auc (peer_rows ok_rows f) b (peer_rows ok_rows b)"
    using assms(1) by (auto simp: comparisons_of_def)
  obtain pa pb y where p: "paired_scores (align_by_obs (peer_rows ok_rows f) (peer_rows ok_rows b)) = (pa, pb, y)"
    by (rule prod_cases3)
  obtain d where d: "fast_delong pa pb y = Some d"
    using assms(2) b(3) p by (auto simp: compare_with_def split: option.splits)
  have c: "co_vs c = b" "co_n c = length y" "co_positives c = count_true y"
    "claim_allowed (length y) (count_true y) auc d"
    using assms(2) b(3) p d by (simp_all add: compare_with_def)
  then show ?thesis using b p d
    by (auto simp: claim_allowed_def min_for_claims_def min_positives_for_claims_def split: option.splits)
qed

lemma claim_in_benchmark:
  assumes "s \<in> set (score_benchmark rows bs ts)" and "(k, cells) \<in> set (se_outcomes s)"
    and "cell \<in> set cells" and "c \<in> set (ce_comparisons cell)" and "co_claim c"
  shows "100 \<le> ce_n cell \<and> co_vs c \<noteq> ce_forecaster cell \<and> co_vs c \<in> set bs \<and> 200 \<le> co_n c \<and> 30 \<le> co_positives c \<and>
    (\<exists>pa pb y a b. fast_delong pa pb y \<noteq> None \<and> length y = co_n c \<and> count_true y = co_positives c \<and>
       auroc pa y = Some a \<and> auroc pb y = Some b \<and> b < a)"
proof -
  obtain ok_rows f where cell: "cell = cell_of f ok_rows bs ts"
    using assms(1-3) by (auto simp: score_benchmark_def section_for_def outcome_cells_def Let_def)
  let ?rows = "peer_rows ok_rows f"
  let ?auc = "auroc (map sw_prob ?rows) (map sw_label ?rows)"
  have big: "\<not> length ?rows < min_for_metrics"
    using assms(4) cell by (auto simp: cell_of_def withheld_cell_def Let_def split: if_splits)
  then have c: "c \<in> set (comparisons_of ?auc f ok_rows bs)" "ce_forecaster cell = f"
    using assms(4) cell by (simp_all add: cell_of_def Let_def)
  obtain pa pb y d where d: "co_n c = length y" "co_positives c = count_true y" "fast_delong pa pb y = Some d" "dl_diff d > 0"
    using claim_backed [OF c(1) assms(5)] by blast
  have len: "length pa = length y" "length pb = length y" and big2: "2 \<le> count_true y" "2 \<le> length y - count_true y"
    using d(3) by (auto simp: fast_delong_def Let_def split: if_splits)
  have one: "auroc s y = Some (delong_auc (pos_scores s y) (neg_scores s y))" if "length s = length y" for s
  proof -
    have "pos_scores s y \<noteq> []" "neg_scores s y \<noteq> []" "s \<noteq> []"
      using big2 length_pos [OF that] length_neg [OF that] that by auto
    then show ?thesis using that by (simp add: auroc_pairs aligned_def delong_auc_pairs)
  qed
  have "dl_diff d = delong_auc (pos_scores pa y) (neg_scores pa y) - delong_auc (pos_scores pb y) (neg_scores pb y)"
    using d(3) len big2 by (auto simp: fast_delong_def Let_def)
  then have "\<exists>pa pb y a b. fast_delong pa pb y \<noteq> None \<and> length y = co_n c \<and> count_true y = co_positives c \<and>
      auroc pa y = Some a \<and> auroc pb y = Some b \<and> b < a"
    using d one [OF len(1)] one [OF len(2)]
    by (intro exI [of _ pa] exI [of _ pb] exI [of _ y]
        exI [of _ "delong_auc (pos_scores pa y) (neg_scores pa y)"] exI [of _ "delong_auc (pos_scores pb y) (neg_scores pb y)"]) simp
  then show ?thesis
    using claim_backed [OF c(1) assms(5)] c(2) big cell by (simp add: min_for_metrics_def)
qed

text \<open>What backs a comparison's claim, and a whole section all of whose claims are backed.\<close>

definition comparison_backed :: "string list \<Rightarrow> forecaster_cell \<Rightarrow> comparison \<Rightarrow> bool" where
  "comparison_backed bs cell c \<longleftrightarrow> (co_claim c \<longrightarrow>
     100 \<le> ce_n cell \<and> co_vs c \<noteq> ce_forecaster cell \<and> co_vs c \<in> set bs \<and> 200 \<le> co_n c \<and> 30 \<le> co_positives c \<and>
     (\<exists>pa pb y a b. fast_delong pa pb y \<noteq> None \<and> length y = co_n c \<and> count_true y = co_positives c \<and>
       auroc pa y = Some a \<and> auroc pb y = Some b \<and> b < a))"

definition section_backed :: "string list \<Rightarrow> section_row \<Rightarrow> bool" where
  "section_backed bs s = list_all (\<lambda>(k, cells).
     list_all (\<lambda>cell. list_all (comparison_backed bs cell) (ce_comparisons cell)) cells) (se_outcomes s)"


end
