(* ===== verification/BlockTime.thy ===== *)
theory BlockTime
  imports Prelude
begin

text \<open>
  Two helpers of the worker: the retry on transient RPC errors
  (\<open>apps/worker/src/watcher/retry.ts\<close>) and the memoised binary search for the last block
  at or before a wall-clock time (\<open>apps/worker/src/outcomes/block-time.ts\<close>).  A call of
  the RPC node is a parameter that answers an error text or a value.
\<close>


section \<open>Retries\<close>

text \<open>\<open>p1.*p2.*p3\<close> in a JavaScript regular expression: the gaps hold no newline.\<close>

fun gap_match :: "string list \<Rightarrow> string \<Rightarrow> bool" where
  "gap_match [] s = True"
| "gap_match (p # ps) s = (starts_with p s \<and> gap_match ps (drop (length p) s) \<or>
     (case s of [] \<Rightarrow> False | c # cs \<Rightarrow> c \<noteq> CHR 0x0A \<and> gap_match (p # ps) cs))"

fun gap_search :: "string list \<Rightarrow> string \<Rightarrow> bool" where
  "gap_search [] s = True"
| "gap_search (p # ps) s = (starts_with p s \<and> gap_match ps (drop (length p) s) \<or>
     (case s of [] \<Rightarrow> False | c # cs \<Rightarrow> gap_search (p # ps) cs))"

text \<open>\<open>rate.?limit\<close> anywhere in the text.\<close>

fun rate_limit_word :: "string \<Rightarrow> bool" where
  "rate_limit_word [] = False"
| "rate_limit_word (c # cs) =
     (starts_with ''ratelimit'' (c # cs) \<or>
      starts_with ''rate'' (c # cs) \<and> starts_with ''limit'' (drop 5 (c # cs)) \<and>
        \<not> starts_with [CHR 0x0A] (drop 4 (c # cs)) \<or>
      rate_limit_word cs)"

definition mentions :: "string list \<Rightarrow> string \<Rightarrow> bool" where
  "mentions ws s = list_ex (\<lambda>w. contains w s) ws"

text \<open>The name and the message of an error, both tested without regard to case.\<close>

definition is_transient_rpc_error :: "string \<Rightarrow> string \<Rightarrow> bool" where
  "is_transient_rpc_error name msg =
     (mentions [''notfounderror'', ''timeouterror'', ''httprequesterror'', ''rpcrequesterror'',
        ''limitexceedederror''] (lower name) \<or>
      (let m = lower msg in rate_limit_word m \<or>
         mentions [''could not be found'', ''not be processed on a block yet'', ''not found'',
           ''too many requests'', ''429'', ''timeout'', ''etimedout'', ''econnreset'', ''econnrefused'',
           ''socket hang up'', ''network is busy'', ''exceeds defined limit'', ''try again in a moment'',
           ''-32005'', ''-32000''] m))"

text \<open>
  \<open>withRetry\<close> from attempt \<open>a\<close> on: \<open>f a\<close> is what the \<open>a\<close>-th call settles to; the sleeps
  between the attempts are left out.  With \<open>tries <= 0\<close> the code throws \<open>undefined\<close>.
\<close>

function retry_from :: "(string \<Rightarrow> bool) \<Rightarrow> nat \<Rightarrow> (nat \<Rightarrow> string + 'a) \<Rightarrow> nat \<Rightarrow> string + 'a" where
  "retry_from transient tries f a =
     (if a \<ge> tries then Inl ''undefined''
      else case f a of
        Inr v \<Rightarrow> Inr v
      | Inl e \<Rightarrow> if \<not> transient e \<or> Suc a = tries then Inl e else retry_from transient tries f (Suc a))"
  by pat_completeness auto
termination by (relation "measure (\<lambda>(t, tries, f, a). tries - a)") auto

declare retry_from.simps [simp del]

definition with_retry :: "(string \<Rightarrow> bool) \<Rightarrow> nat \<Rightarrow> (nat \<Rightarrow> string + 'a) \<Rightarrow> string + 'a" where
  "with_retry transient tries f = retry_from transient tries f 0"


section \<open>The block at a wall-clock time\<close>

record block_node =
  bn_head :: "string + int"                \<comment> \<open>\<open>getBlockNumber\<close>\<close>
  bn_time :: "int \<Rightarrow> string + int"   \<comment> \<open>the timestamp of a block, in seconds\<close>

type_synonym block_cache = "nat \<times> int \<Rightarrow> int option"

text \<open>The bounded binary search: \<open>n\<close> iterations left, \<open>ans\<close> the best block so far.\<close>

fun block_search :: "(int \<Rightarrow> string + int) \<Rightarrow> int \<Rightarrow> nat \<Rightarrow> int \<Rightarrow> int \<Rightarrow> int \<Rightarrow> string + int" where
  "block_search ts target 0 lo hi ans = Inr ans"
| "block_search ts target (Suc n) lo hi ans =
     (if lo > hi then Inr ans
      else let mid = lo + (hi - lo) div 2
        in case ts mid of
             Inl e \<Rightarrow> Inl e
           | Inr t \<Rightarrow>
               if t \<le> target then block_search ts target n (mid + 1) hi mid
               else block_search ts target n lo (mid - 1) ans)"

definition default_max_iters :: nat where
  "default_max_iters = 18"

text \<open>The answer and the memo afterwards; \<open>when_ms\<close> is the wall-clock time in milliseconds.\<close>

definition block_at_time ::
    "block_node \<Rightarrow> nat \<Rightarrow> nat \<Rightarrow> int \<Rightarrow> millis \<Rightarrow> block_cache \<Rightarrow> (string + int) \<times> block_cache" where
  "block_at_time node chain iters min_block when_ms memo =
     (let target = when_ms div 1000; key = (chain, target)
      in case memo key of
           Some b \<Rightarrow> (Inr b, memo)
         | None \<Rightarrow>
             (let keep = (\<lambda>b. (Inr b, memo(key \<mapsto> b)))
              in case bn_head node of
                   Inl e \<Rightarrow> (Inl e, memo)
                 | Inr hi \<Rightarrow>
                     (case bn_time node hi of
                        Inl e \<Rightarrow> (Inl e, memo)
                      | Inr head_ts \<Rightarrow>
                          if target \<ge> head_ts then keep hi
                          else case bn_time node min_block of
                                 Inl e \<Rightarrow> (Inl e, memo)
                               | Inr lo_ts \<Rightarrow>
                                   if target \<le> lo_ts then keep min_block
                                   else case block_search (bn_time node) target iters min_block hi min_block of
                                          Inl e \<Rightarrow> (Inl e, memo)
                                        | Inr b \<Rightarrow> keep b)))"

section \<open>Retry facts\<close>

text \<open>The retry settles to the first final attempt: every attempt before it failed transiently.\<close>

lemma retry_from_final:
  "a < tries \<Longrightarrow> \<exists>k. a \<le> k \<and> k < tries \<and> retry_from transient tries f a = f k \<and>
     (\<forall>j. a \<le> j \<and> j < k \<longrightarrow> (\<exists>e. f j = Inl e \<and> transient e)) \<and>
     (\<forall>e. f k = Inl e \<longrightarrow> \<not> transient e \<or> Suc k = tries)"
proof (induction transient tries f a rule: retry_from.induct)
  case (1 transient tries f a)
  show ?case
  proof (cases "f a")
    case (Inr v)
    then show ?thesis using 1(2) by (intro exI [of _ a]) (auto simp: retry_from.simps)
  next
    case (Inl e)
    show ?thesis
    proof (cases "\<not> transient e \<or> Suc a = tries")
      case True
      then show ?thesis using 1(2) Inl by (intro exI [of _ a]) (auto simp: retry_from.simps)
    next
      case False
      then obtain k where "Suc a \<le> k" "k < tries" "retry_from transient tries f (Suc a) = f k"
          and tr: "\<forall>j. Suc a \<le> j \<and> j < k \<longrightarrow> (\<exists>e. f j = Inl e \<and> transient e)"
          and fin: "\<forall>e. f k = Inl e \<longrightarrow> \<not> transient e \<or> Suc k = tries"
        using 1 Inl by auto
      moreover have "\<exists>e. f j = Inl e \<and> transient e" if "a \<le> j" "j < k" for j
        using that tr Inl False by (cases "j = a") auto
      ultimately show ?thesis
        using 1(2) Inl False by (intro exI [of _ k]) (simp add: retry_from.simps)
    qed
  qed
qed

lemma with_retry_Inr: "f 0 = Inr v \<Longrightarrow> 0 < tries \<Longrightarrow> with_retry transient tries f = Inr v"
  by (simp add: with_retry_def retry_from.simps)

lemma with_retry_const [simp]: "0 < tries \<Longrightarrow> with_retry transient tries (\<lambda>_. r) = r"
  using retry_from_final [of 0 tries transient "\<lambda>_. r"] by (auto simp: with_retry_def)


section \<open>Search facts\<close>

text \<open>
  \<open>last_before t target lo hi b\<close>: in a chain whose blocks \<open>lo..hi\<close> have the timestamps
  \<open>t\<close>, block \<open>b\<close> is the last one mined at or before the target.
\<close>

definition last_before :: "(int \<Rightarrow> int) \<Rightarrow> int \<Rightarrow> int \<Rightarrow> int \<Rightarrow> int \<Rightarrow> bool" where
  "last_before t target lo hi b \<longleftrightarrow>
     lo \<le> b \<and> b \<le> hi \<and> t b \<le> target \<and> (\<forall>c. b < c \<and> c \<le> hi \<longrightarrow> target < t c)"

lemma half_sizes:
  fixes lo hi :: int
  assumes "lo \<le> hi"
  shows "hi - (lo + (hi - lo) div 2) \<le> (hi - lo + 1) div 2" "(hi - lo) div 2 \<le> (hi - lo + 1) div 2"
  using assms by presburger+

lemma div_pow_step: "(s::int) div 2 div 2 ^ n = s div 2 ^ Suc n"
  by (simp add: zdiv_zmult2_eq)

lemma block_search_within:
  assumes "\<And>b. lo \<le> b \<Longrightarrow> b \<le> hi \<Longrightarrow> ts b = Inr (t b)"
    and "lo - 1 \<le> ans" "ans \<le> lo" "ans \<le> B" "lo \<le> B + 1" "B \<le> hi"
    and "\<And>b. lo \<le> b \<Longrightarrow> b \<le> B \<Longrightarrow> t b \<le> target" "\<And>b. B < b \<Longrightarrow> b \<le> hi \<Longrightarrow> target < t b"
  shows "\<exists>r. block_search ts target n lo hi ans = Inr r \<and> ans \<le> r \<and> r \<le> B \<and> B - r \<le> (hi - lo + 1) div 2 ^ n"
  using assms
proof (induction n arbitrary: lo hi ans)
  case 0
  then show ?case by auto
next
  case (Suc n)
  show ?case
  proof (cases "lo > hi")
    case True
    then have "lo = hi + 1" "ans = B" using Suc.prems(2,4,5,6) by auto
    then show ?thesis by simp
  next
    case False
    let ?mid = "lo + (hi - lo) div 2"
    have mid: "lo \<le> ?mid" "?mid \<le> hi" using False by presburger+
    show ?thesis
    proof (cases "?mid \<le> B")
      case True
      then have le: "t ?mid \<le> target" using Suc.prems(7) mid by blast
      obtain r where r: "block_search ts target n (?mid + 1) hi ?mid = Inr r" "?mid \<le> r" "r \<le> B"
          "B - r \<le> (hi - (?mid + 1) + 1) div 2 ^ n"
        using Suc.IH [of "?mid + 1" hi ?mid] Suc.prems True mid by auto
      have "(hi - (?mid + 1) + 1) div 2 ^ n \<le> (hi - lo + 1) div 2 div 2 ^ n"
        using half_sizes [of lo hi] False by (intro zdiv_mono1) auto
      then show ?thesis
        using r le mid Suc.prems(1,3) False by (intro exI [of _ r]) (auto simp: div_pow_step simp del: power_Suc)
    next
      case gt: False
      then have lt: "target < t ?mid" using Suc.prems(8) mid by force
      obtain r where r: "block_search ts target n lo (?mid - 1) ans = Inr r" "ans \<le> r" "r \<le> B"
          "B - r \<le> (?mid - 1 - lo + 1) div 2 ^ n"
        using Suc.IH [of lo "?mid - 1" ans] Suc.prems gt mid by auto
      have "(?mid - 1 - lo + 1) div 2 ^ n \<le> (hi - lo + 1) div 2 div 2 ^ n"
        using half_sizes [of lo hi] False by (intro zdiv_mono1) auto
      then show ?thesis
        using r lt mid Suc.prems(1) False by (intro exI [of _ r]) (auto simp: div_pow_step simp del: power_Suc)
    qed
  qed
qed

text \<open>A memoised answer is final, whatever the node says later.\<close>

lemma block_at_time_memo:
  assumes "block_at_time node chain iters min_block w memo = (Inr b, memo')" "w div 1000 = w' div 1000"
  shows "block_at_time node' chain iters' min_block' w' memo' = (Inr b, memo')"
proof -
  have "memo' (chain, w div 1000) = Some b"
    using assms(1) by (auto simp: block_at_time_def Let_def split: option.splits sum.splits if_splits)
  then show ?thesis by (simp add: block_at_time_def assms(2))
qed


section \<open>Properties\<close>

text \<open>
  The block found for a wall-clock time inside the chain is never later than the last
  block mined at or before that time, and at most \<open>range / 2 ^ iterations\<close> blocks earlier:
  it is that block whenever the iterations cover the range.
\<close>

theorem block_at_time_close:
  assumes "memo (chain, when_ms div 1000) = None" "bn_head node = Inr hi"
    and "\<And>b. lo \<le> b \<Longrightarrow> b \<le> hi \<Longrightarrow> bn_time node b = Inr (t b)" "mono_on {lo..hi} t" "lo \<le> hi"
    and "t lo < when_ms div 1000" "when_ms div 1000 < t hi" "last_before t (when_ms div 1000) lo hi best"
  shows "\<exists>r. fst (block_at_time node chain iters lo when_ms memo) = Inr r \<and>
    lo \<le> r \<and> r \<le> best \<and> best - r \<le> (hi - lo + 1) div 2 ^ iters \<and>
    (hi - lo + 1 < 2 ^ iters \<longrightarrow> r = best)"
proof -
  let ?target = "when_ms div 1000"
  have best: "lo \<le> best" "best \<le> hi" "t best \<le> ?target" "\<And>c. best < c \<Longrightarrow> c \<le> hi \<Longrightarrow> ?target < t c"
    using assms(8) by (auto simp: last_before_def)
  have below: "t b \<le> ?target" if "lo \<le> b" "b \<le> best" for b
    using monotone_onD [OF assms(4), of b best] that best by auto
  obtain r where r: "block_search (bn_time node) ?target iters lo hi lo = Inr r" "lo \<le> r" "r \<le> best"
      "best - r \<le> (hi - lo + 1) div 2 ^ iters"
    using block_search_within [of lo hi "bn_time node" t lo best ?target iters] assms(3,4) best below by auto
  moreover have "r = best" if "hi - lo + 1 < 2 ^ iters"
    using r(3,4) assms(5) that by simp
  ultimately show ?thesis
    using assms by (intro exI [of _ r]) (simp add: block_at_time_def Let_def)
qed

definition second_per_block :: "int \<Rightarrow> block_node" where
  "second_per_block head = \<lparr>bn_head = Inr head, bn_time = \<lambda>b. Inr b\<rparr>"

theorem block_at_time_close_witness:
  "\<exists>r. fst (block_at_time (second_per_block 100) 4663 default_max_iters 1 (70 * 1000) Map.empty) = Inr r \<and>
     1 \<le> r \<and> r \<le> 70 \<and> 70 - r \<le> (100 - 1 + 1) div 2 ^ default_max_iters \<and>
     (100 - 1 + (1::int) < 2 ^ default_max_iters \<longrightarrow> r = 70)"
  using block_at_time_close [of Map.empty 4663 "70 * 1000" "second_per_block 100" 100 1 id 70 default_max_iters]
  by (simp add: second_per_block_def last_before_def monotone_on_def)

text \<open>
  On a chain longer than \<open>2 ^ 18\<close> blocks the default search stops before it has found the
  block: here the answer is two blocks early although the next block is in time as well.
\<close>

theorem default_search_stops_early:
  "fst (block_at_time (second_per_block (2 ^ 20)) 4663 default_max_iters 1 ((2 ^ 20 - 2) * 1000) Map.empty)
     = Inr (2 ^ 20 - 4)"
  by (simp add: block_at_time_def second_per_block_def default_max_iters_def eval_nat_numeral)

end
