(* ===== verification/OutcomeResolve.thy ===== *)
theory OutcomeResolve
  imports ChainLib Forecasters BlockTime
begin

text \<open>
  How one outcome row is measured (\<open>apps/worker/src/outcomes\<close>): scan coverage
  (\<open>coverage.ts\<close>), quoter calls (\<open>quote.ts\<close>), price and liquidity series (\<open>series.ts\<close>),
  the five resolvers (\<open>resolve-*.ts\<close>) and the dispatcher (\<open>resolve.ts\<close>).  The RPC node,
  the quoter contract and viem's ABI decoder are parameters; a promise that rejects is
  an \<open>Inl\<close>.  Prices and ratios are exact reals.  The theorems are in \<open>OutcomeFacts\<close>.
\<close>


section \<open>Coverage\<close>

record coverage =
  cv_from :: int
  cv_to :: int
  cv_scanned :: int
  cv_chunk :: int
  cv_calls :: int
  cv_gaps :: "string list"
  cv_notes :: "string list"

text \<open>\<open>Math.ceil(span / chunk)\<close> for a positive chunk, 0 otherwise.\<close>

definition count_calls :: "int \<Rightarrow> int \<Rightarrow> int \<Rightarrow> int" where
  "count_calls f t chunk =
     (let span = (if t \<ge> f then t - f + 1 else 0)
      in if chunk > 0 then (span + chunk - 1) div chunk else 0)"

definition new_coverage :: "int \<Rightarrow> int \<Rightarrow> int \<Rightarrow> coverage" where
  "new_coverage f t chunk =
     \<lparr>cv_from = f, cv_to = t, cv_scanned = (if t \<ge> f then t - f + 1 else 0), cv_chunk = chunk,
      cv_calls = (let span = (if t \<ge> f then t - f + 1 else 0)
                  in if chunk > 0 then (span + chunk - 1) div chunk else 0),
      cv_gaps = [], cv_notes = []\<rparr>"

definition merge_coverage :: "coverage \<Rightarrow> coverage \<Rightarrow> coverage" where
  "merge_coverage a b =
     \<lparr>cv_from = min (cv_from a) (cv_from b), cv_to = max (cv_to a) (cv_to b),
      cv_scanned = cv_scanned a + cv_scanned b, cv_chunk = max (cv_chunk a) (cv_chunk b),
      cv_calls = cv_calls a + cv_calls b,
      cv_gaps = cv_gaps a @ cv_gaps b, cv_notes = cv_notes a @ cv_notes b\<rparr>"

definition add_gap :: "string \<Rightarrow> coverage \<Rightarrow> coverage" where
  "add_gap g c = c\<lparr>cv_gaps := cv_gaps c @ [g]\<rparr>"

definition add_note :: "string \<Rightarrow> coverage \<Rightarrow> coverage" where
  "add_note g c = c\<lparr>cv_notes := cv_notes c @ [g]\<rparr>"

definition add_call :: "coverage \<Rightarrow> coverage" where
  "add_call c = c\<lparr>cv_calls := cv_calls c + 1\<rparr>"


section \<open>Verdicts\<close>

text \<open>A value of the evidence record; \<open>EvDec n\<close> is the decimal text of a \<open>bigint\<close>.\<close>

datatype ev = EvInt int | EvDec int | EvReal real | EvText string | EvNull | EvList "ev list"

type_synonym evidence = "(string \<times> ev) list"

datatype resolution_status = VResolved | VNotApplicable | VUnresolvable

record resolution =
  rs_status :: resolution_status
  rs_value :: "bool option"
  rs_evidence :: evidence
  rs_coverage :: "coverage option"
  rs_reason :: "string option"

definition resolved :: "bool \<Rightarrow> evidence \<Rightarrow> coverage \<Rightarrow> resolution" where
  "resolved v e c = \<lparr>rs_status = VResolved, rs_value = Some v, rs_evidence = e, rs_coverage = Some c, rs_reason = None\<rparr>"

definition unresolvable :: "string \<Rightarrow> coverage option \<Rightarrow> evidence \<Rightarrow> resolution" where
  "unresolvable r c e = \<lparr>rs_status = VUnresolvable, rs_value = None, rs_evidence = e, rs_coverage = c, rs_reason = Some r\<rparr>"

definition not_applicable :: "string \<Rightarrow> resolution" where
  "not_applicable r = \<lparr>rs_status = VNotApplicable, rs_value = None, rs_evidence = [], rs_coverage = None, rs_reason = Some r\<rparr>"

definition ev_opt :: "string option \<Rightarrow> ev" where
  "ev_opt t = (case t of None \<Rightarrow> EvNull | Some s \<Rightarrow> EvText s)"

text \<open>\<open>msg.split('\n')[0].slice(0, 200)\<close>.\<close>

definition first_line :: "string \<Rightarrow> string" where
  "first_line m = takeWhile (\<lambda>c. c \<noteq> CHR 0x0A) m"

definition rpc_error_text :: "string \<Rightarrow> ev" where
  "rpc_error_text m = EvText (take 200 (first_line m))"


section \<open>Quoter calls\<close>

record pool_key =
  pk_currency0 :: address
  pk_currency1 :: address
  pk_fee :: int
  pk_tick_spacing :: int
  pk_hooks :: address

datatype quote_error = QRevert | QArchive | QNetwork

datatype quote_outcome = QuoteOk int | QuoteFailed quote_error string

fun quote_error_name :: "quote_error \<Rightarrow> string" where
  "quote_error_name QRevert = ''revert''"
| "quote_error_name QArchive = ''archive''"
| "quote_error_name QNetwork = ''network''"

definition is_hex_digit :: "char \<Rightarrow> bool" where
  "is_hex_digit c \<longleftrightarrow> c \<in> set ''0123456789abcdef''"

text \<open>\<open>0x[0-9a-f]*$\<close>: the text ends in a hex literal.\<close>

fun ends_in_hex :: "string \<Rightarrow> bool" where
  "ends_in_hex [] = False"
| "ends_in_hex (c # cs) =
     (starts_with ''0x'' (c # cs) \<and> list_all is_hex_digit (drop 2 (c # cs)) \<or> ends_in_hex cs)"

definition classify_quote_error :: "string \<Rightarrow> quote_error" where
  "classify_quote_error msg =
     (let m = lower msg
      in if mentions [''missing trie node'', ''header not found'', ''no historical'', ''not available'', ''pruned'',
              ''could not be found'', ''getdeletestateobject'', ''required historical state''] m
           \<or> gap_search [''missing'', ''state''] m \<or> gap_search [''missing'', ''archive''] m
           \<or> gap_search [''state'', ''not'', ''available''] m \<or> gap_search [''block '', '' not found''] m
         then QArchive
         else if mentions [''timeout'', ''etimedout'', ''econnreset'', ''econnrefused'', ''socket hang up'',
              ''network'', ''fetch failed'', ''429''] m
         then QNetwork
         else if mentions [''revert'', ''vm exception'', ''invalid opcode'', ''out of gas''] m \<or> ends_in_hex m
         then QRevert
         else QNetwork)"

text \<open>
  \<open>call key zeroForOne amount block\<close> is the decoded \<open>amountOut\<close> of the \<open>eth_call\<close>, or the
  message it or the decoder threw.
\<close>

type_synonym quoter = "pool_key \<Rightarrow> bool \<Rightarrow> int \<Rightarrow> int \<Rightarrow> string + int"

definition quote_exact_in_single :: "quoter \<Rightarrow> pool_key \<Rightarrow> bool \<Rightarrow> int \<Rightarrow> int \<Rightarrow> quote_outcome" where
  "quote_exact_in_single call key zfo amount block =
     (case call key zfo amount block of
        Inr out \<Rightarrow> QuoteOk out
      | Inl msg \<Rightarrow> QuoteFailed (classify_quote_error msg) msg)"

definition sell_direction :: "address \<Rightarrow> address \<Rightarrow> bool" where
  "sell_direction token quote = (lower token < lower quote)"


section \<open>Price and liquidity series\<close>

record pool_ref =
  pl_kind :: pool_kind
  pl_manager :: address
  pl_address :: "address option"
  pl_id :: "string option"
  pl_token0 :: bool             \<comment> \<open>\<open>tokenIsCurrency0\<close>\<close>

text \<open>The selectors and the ABI decoders of the four events (viem's).\<close>

record trade_abi =
  ta_v4_swap :: string
  ta_v3_swap :: string
  ta_v2_sync :: string
  ta_v4_modify :: string
  ta_dec_v4 :: "rpc_log \<Rightarrow> swap_args option"
  ta_dec_v3 :: "rpc_log \<Rightarrow> swap_args option"
  ta_dec_sync :: "rpc_log \<Rightarrow> (int \<times> int) option"
  ta_dec_modify :: "rpc_log \<Rightarrow> int option"

text \<open>
  What \<open>eth_getLogs\<close> answers on the \<open>a\<close>-th try of a scan, for an address, an \<open>OR\<close> list of
  topics per slot (empty: any) and a block range; and the name of a thrown error.
\<close>

record log_client =
  lc_logs :: "nat \<Rightarrow> address \<Rightarrow> string list list \<Rightarrow> log_request"
  lc_error_name :: "string \<Rightarrow> string"

definition transient_for :: "log_client \<Rightarrow> string \<Rightarrow> bool" where
  "transient_for c msg = is_transient_rpc_error (lc_error_name c msg) msg"

definition chunked_logs :: "log_client \<Rightarrow> address \<Rightarrow> string list list \<Rightarrow> int \<Rightarrow> int \<Rightarrow> int \<Rightarrow> string + rpc_log list" where
  "chunked_logs c addr topics f t max_range =
     with_retry (transient_for c) 2 (\<lambda>a. get_logs_chunked (lc_logs c a addr topics) f t max_range)"

record price_point =
  pp_block :: int
  pp_price :: real
  pp_tx :: "string option"

definition max_series_logs :: nat where
  "max_series_logs = 40000"

definition pool_kind_name :: "pool_kind \<Rightarrow> string" where
  "pool_kind_name k = (case k of V2 \<Rightarrow> ''v2'' | V3 \<Rightarrow> ''v3'' | V4 \<Rightarrow> ''v4'')"

text \<open>One turn of the loop over the logs: the point it pushes, if any.\<close>

definition swap_point :: "bool \<Rightarrow> swap_observation option \<Rightarrow> price_point option" where
  "swap_point token0 s =
     (case s of
        None \<Rightarrow> None
      | Some o1 \<Rightarrow>
          (case so_sqrt o1 of
             None \<Rightarrow> None
           | Some p \<Rightarrow> if p = 0 then None
               else Some \<lparr>pp_block = so_block o1, pp_price = token_price_in_quote p token0, pp_tx = so_tx o1\<rparr>))"

definition sync_point :: "bool \<Rightarrow> sync_observation option \<Rightarrow> price_point option" where
  "sync_point token0 s =
     (case s of
        None \<Rightarrow> None
      | Some y \<Rightarrow>
          (let r0 = real_of_int (sy_reserve0 y); r1 = real_of_int (sy_reserve1 y)
           in if r0 \<le> 0 \<or> r1 \<le> 0 then None
              else Some \<lparr>pp_block = sy_block y, pp_price = (if token0 then r1 / r0 else r0 / r1), pp_tx = sy_tx y\<rparr>))"

definition point_of_log :: "trade_abi \<Rightarrow> pool_ref \<Rightarrow> rpc_log \<Rightarrow> string + price_point option" where
  "point_of_log abi pool l =
     (case pl_kind pool of
        V4 \<Rightarrow> (case decode_swap (ta_v4_swap abi) (ta_dec_v4 abi) l of
                 Inl e \<Rightarrow> Inl e | Inr s \<Rightarrow> Inr (swap_point (pl_token0 pool) s))
      | V3 \<Rightarrow> (case decode_swap (ta_v3_swap abi) (ta_dec_v3 abi) l of
                 Inl e \<Rightarrow> Inl e | Inr s \<Rightarrow> Inr (swap_point (pl_token0 pool) s))
      | V2 \<Rightarrow> (case decode_v2_sync (ta_v2_sync abi) (ta_dec_sync abi) l of
                 Inl e \<Rightarrow> Inl e | Inr s \<Rightarrow> Inr (sync_point (pl_token0 pool) s)))"

fun collect_points :: "('a \<Rightarrow> string + 'b option) \<Rightarrow> 'a list \<Rightarrow> string + 'b list" where
  "collect_points f [] = Inr []"
| "collect_points f (l # ls) =
     (case f l of
        Inl e \<Rightarrow> Inl e
      | Inr p \<Rightarrow> (case collect_points f ls of
                    Inl e \<Rightarrow> Inl e
                  | Inr ps \<Rightarrow> Inr (case p of None \<Rightarrow> ps | Some x \<Rightarrow> x # ps)))"

text \<open>The \<open>log cap hit\<close> gap; the two numbers of its text are left out.\<close>

definition cap_gap :: "nat \<Rightarrow> coverage \<Rightarrow> coverage" where
  "cap_gap n cv = (if n \<ge> max_series_logs then add_gap ''log cap hit; series truncated'' cv else cv)"

definition price_scan_target :: "trade_abi \<Rightarrow> pool_ref \<Rightarrow> string + address \<times> string list list" where
  "price_scan_target abi pool =
     (if pl_kind pool = V4
      then (case pl_id pool of
              None \<Rightarrow> Inl ''v4 pool has no poolId''
            | Some i \<Rightarrow> if i = [] then Inl ''v4 pool has no poolId''
                         else Inr (pl_manager pool, [[ta_v4_swap abi], [i]]))
      else (case pl_address pool of
              None \<Rightarrow> Inl (pool_kind_name (pl_kind pool) @ '' pool has no poolAddress'')
            | Some a \<Rightarrow> if a = [] then Inl (pool_kind_name (pl_kind pool) @ '' pool has no poolAddress'')
                         else Inr (a, [[if pl_kind pool = V3 then ta_v3_swap abi else ta_v2_sync abi]])))"

definition build_price_series ::
    "log_client \<Rightarrow> trade_abi \<Rightarrow> pool_ref \<Rightarrow> int \<Rightarrow> int \<Rightarrow> int \<Rightarrow> string + price_point list \<times> coverage" where
  "build_price_series c abi pool f t max_range =
     (let cv = (new_coverage f t max_range)\<lparr>cv_calls := count_calls f t max_range\<rparr>
      in if t < f then Inr ([], add_gap ''empty window (toBlock < fromBlock)'' cv)
         else case price_scan_target abi pool of
                Inl gap \<Rightarrow> Inr ([], add_gap gap cv)
              | Inr (addr, topics) \<Rightarrow>
                  (case chunked_logs c addr topics f t max_range of
                     Inl e \<Rightarrow> Inl e
                   | Inr logs \<Rightarrow>
                       (case collect_points (point_of_log abi pool) logs of
                          Inl e \<Rightarrow> Inl e
                        | Inr ps \<Rightarrow> Inr (sort_key pp_block ps, cap_gap (length logs) cv))))"

record liquidity_point =
  lq_block :: int
  lq_liquidity :: real
  lq_tx :: "string option"
  lq_delta :: real

text \<open>\<open>cum += d.delta\<close> over the sorted deltas; the reserve differences of a v2 pool.\<close>

fun cumulative_points :: "int \<Rightarrow> liquidity_delta list \<Rightarrow> liquidity_point list" where
  "cumulative_points cum [] = []"
| "cumulative_points cum (d # ds) =
     \<lparr>lq_block = ld_block d, lq_liquidity = of_int (cum + ld_delta d), lq_tx = ld_tx d,
      lq_delta = of_int (ld_delta d)\<rparr> # cumulative_points (cum + ld_delta d) ds"

fun reserve_points :: "bool \<Rightarrow> int \<Rightarrow> sync_observation list \<Rightarrow> liquidity_point list" where
  "reserve_points token0 prev [] = []"
| "reserve_points token0 prev (y # ys) =
     (let q = (if token0 then sy_reserve1 y else sy_reserve0 y)
      in \<lparr>lq_block = sy_block y, lq_liquidity = of_int q, lq_tx = sy_tx y, lq_delta = of_int (q - prev)\<rparr>
         # reserve_points token0 q ys)"

definition build_liquidity_series ::
    "log_client \<Rightarrow> trade_abi \<Rightarrow> pool_ref \<Rightarrow> int \<Rightarrow> int \<Rightarrow> int \<Rightarrow> string + liquidity_point list \<times> coverage" where
  "build_liquidity_series c abi pool f t max_range =
     (let cv = (new_coverage f t max_range)\<lparr>cv_calls := count_calls f t max_range\<rparr>
      in if t < f then Inr ([], add_gap ''empty window (toBlock < fromBlock)'' cv)
         else if pl_kind pool = V4 then
           (if nullish (pl_id pool) [] = [] then Inr ([], add_gap ''v4 pool has no poolId'' cv)
            else case chunked_logs c (pl_manager pool) [[ta_v4_modify abi], [the (pl_id pool)]] f t max_range of
                   Inl e \<Rightarrow> Inl e
                 | Inr logs \<Rightarrow>
                     (case collect_points (decode_v4_modify_liquidity (ta_v4_modify abi) (ta_dec_modify abi)) logs of
                        Inl e \<Rightarrow> Inl e
                      | Inr ds \<Rightarrow>
                          (let ps = cumulative_points 0 (sort_key ld_block ds)
                           in Inr (ps, if ps = [] then add_gap ''no ModifyLiquidity events for poolId'' cv else cv))))
         else if pl_kind pool = V2 then
           (if nullish (pl_address pool) [] = [] then Inr ([], add_gap ''v2 pool has no poolAddress'' cv)
            else case chunked_logs c (the (pl_address pool)) [[ta_v2_sync abi]] f t max_range of
                   Inl e \<Rightarrow> Inl e
                 | Inr logs \<Rightarrow>
                     (case collect_points (decode_v2_sync (ta_v2_sync abi) (ta_dec_sync abi)) logs of
                        Inl e \<Rightarrow> Inl e
                      | Inr ys \<Rightarrow>
                          (let ps = reserve_points (pl_token0 pool) 0 (sort_key sy_block ys)
                           in Inr (ps, if ps = [] then add_gap ''no Sync events for pool'' cv else cv))))
         else Inr ([], add_gap ''v3 liquidity series not implemented'' cv))"

section \<open>The five resolvers\<close>

record resolver_ctx =
  cx_client :: log_client
  cx_abi :: trade_abi
  cx_quoter :: quoter
  cx_max_range :: int
  cx_pool :: pool_ref
  cx_token :: address
  cx_quote :: address
  cx_pool_key :: "pool_key option"
  cx_decimals :: nat
  cx_launch_block :: int
  cx_lp_locked :: bool
  cx_cluster :: "address list"
  cx_anchor_block :: int
  cx_horizon_block :: int
  cx_ref_start :: int
  cx_ref_end :: int

text \<open>\<open>points.reduce((m, p) => p.price > m ? p.price : m, 0)\<close>.\<close>

definition max_from_zero :: "real list \<Rightarrow> real" where
  "max_from_zero xs = foldl (\<lambda>m x. if x > m then x else m) 0 xs"

definition last_opt :: "'a list \<Rightarrow> 'a option" where
  "last_opt xs = (if xs = [] then None else Some (last xs))"

subsection \<open>\<open>DRAWDOWN_80\<close>\<close>

definition horizon_tail_blocks :: int where
  "horizon_tail_blocks = 50000"

definition drawdown_verdict ::
    "resolver_ctx \<Rightarrow> price_point list \<Rightarrow> real \<Rightarrow> real \<Rightarrow> string \<Rightarrow> string option \<Rightarrow> coverage \<Rightarrow> resolution" where
  "drawdown_verdict ctx ref_points ref_max price source tx cv =
     resolved (price / ref_max \<le> 2 / 10)
       [(''refMaxPrice'', EvReal ref_max),
        (''refWindowBlocks'', EvList [EvInt (cx_ref_start ctx), EvInt (cx_ref_end ctx)]),
        (''horizonBlock'', EvInt (cx_horizon_block ctx)), (''horizonPrice'', EvReal price),
        (''horizonSource'', EvText source), (''ratio'', EvReal (price / ref_max)),
        (''refSwapPoints'', EvInt (int (length ref_points))), (''lastSwapTx'', ev_opt tx)] cv"

text \<open>The quoter fallback of a token that went silent.\<close>

definition drawdown_by_quote :: "resolver_ctx \<Rightarrow> price_point list \<Rightarrow> real \<Rightarrow> coverage \<Rightarrow> resolution" where
  "drawdown_by_quote ctx ref_points ref_max cv =
     (case cx_pool_key ctx of
        None \<Rightarrow> unresolvable ''no swap after the reference window and no v4 quoter available'' (Some cv)
                  [(''refMaxPrice'', EvReal ref_max)]
      | Some key \<Rightarrow>
          (let amount = 10 ^ 15; cv' = add_call cv
           in case quote_exact_in_single (cx_quoter ctx) key (sell_direction (cx_token ctx) (cx_quote ctx))
                     amount (cx_horizon_block ctx) of
                QuoteFailed e msg \<Rightarrow>
                  if e = QRevert then drawdown_verdict ctx ref_points ref_max 0 ''quote'' None cv'
                  else unresolvable (''quoter '' @ quote_error_name e @ '' at horizon block'') (Some cv')
                         [(''refMaxPrice'', EvReal ref_max), (''rpcError'', rpc_error_text msg)]
              | QuoteOk out \<Rightarrow>
                  drawdown_verdict ctx ref_points ref_max (real_of_int out / real_of_int amount) ''quote'' None cv'))"

definition drawdown_tail_start :: "resolver_ctx \<Rightarrow> int" where
  "drawdown_tail_start ctx =
     (let tail_start = (if cx_horizon_block ctx > horizon_tail_blocks
                        then cx_horizon_block ctx - horizon_tail_blocks else 0)
      in if cx_ref_end ctx + 1 > tail_start then cx_ref_end ctx + 1 else tail_start)"

definition resolve_drawdown :: "resolver_ctx \<Rightarrow> string + resolution" where
  "resolve_drawdown ctx =
     (let series = build_price_series (cx_client ctx) (cx_abi ctx) (cx_pool ctx)
      in case series (cx_ref_start ctx) (cx_ref_end ctx) (cx_max_range ctx) of
        Inl e \<Rightarrow> Inl e
      | Inr (ref_points, cv) \<Rightarrow>
          (let ref_max = max_from_zero (map pp_price ref_points); post = drawdown_tail_start ctx;
               finish = (\<lambda>pt cv. case pt of
                   Some p \<Rightarrow> Inr (drawdown_verdict ctx ref_points ref_max (pp_price p) ''swap'' (pp_tx p) cv)
                 | None \<Rightarrow> Inr (drawdown_by_quote ctx ref_points ref_max cv))
           in if ref_max \<le> 0 then
                Inr (unresolvable ''no positive price in the reference window'' (Some cv)
                  [(''refWindowBlocks'', EvList [EvInt (cx_ref_start ctx), EvInt (cx_ref_end ctx)])])
              else if post \<le> cx_horizon_block ctx then
                (let cv1 = (if post > cx_ref_end ctx + 1
                            then add_note ''horizon-price scan capped to the last 50000 blocks; earlier trades fall back to the quoter spot'' cv
                            else cv)
                 in case series post (cx_horizon_block ctx) (cx_max_range ctx) of
                      Inl e \<Rightarrow> Inl e
                    | Inr (post_points, cv2) \<Rightarrow> finish (last_opt post_points) (merge_coverage cv1 cv2))
              else finish (last_opt ref_points) cv))"

subsection \<open>\<open>SELL_IMPAIRED\<close>\<close>

definition resolve_sell_impaired :: "resolver_ctx \<Rightarrow> resolution" where
  "resolve_sell_impaired ctx =
     (if cx_lp_locked ctx then not_applicable ''launchpad token: LP locked by construction''
      else let h = cx_horizon_block ctx; cv = new_coverage h h 0
        in case cx_pool_key ctx of
             None \<Rightarrow> unresolvable ''sell-impact quote only implemented for v4 pools''
                       (Some (add_gap ''non-v4 pool; sell-impact quote not wired'' cv)) []
           | Some key \<Rightarrow>
               (let quote = (\<lambda>amount. quote_exact_in_single (cx_quoter ctx) key
                               (sell_direction (cx_token ctx) (cx_quote ctx)) amount h);
                    spot_in = (10::int) ^ 12; cv1 = add_call cv
                in case quote spot_in of
                     QuoteFailed e msg \<Rightarrow>
                       unresolvable (''spot sell quote '' @ quote_error_name e @ '' at horizon block'') (Some cv1)
                         [(''horizonBlock'', EvInt h), (''rpcError'', rpc_error_text msg)]
                   | QuoteOk spot \<Rightarrow>
                       if spot = 0 then
                         unresolvable ''spot sell quote returns 0 (degenerate quote)'' (Some cv1) [(''horizonBlock'', EvInt h)]
                       else
                         (let sell_size = 100 * 10 ^ cx_decimals ctx * spot_in div spot; cv2 = add_call cv1
                          in if sell_size \<le> 0 then
                               unresolvable ''sell size underflow''
                                 (Some (add_note ''computed sell size rounded to 0; token likely very high unit price'' cv1)) []
                             else case quote sell_size of
                               QuoteFailed e msg \<Rightarrow>
                                 unresolvable (''100-unit sell quote '' @ quote_error_name e @ '' at horizon block'') (Some cv2)
                                   [(''sellSizeTokens'', EvDec sell_size), (''rpcError'', rpc_error_text msg)]
                             | QuoteOk bulk \<Rightarrow>
                                 if bulk = 0 then
                                   resolved True [(''reason'', EvText ''100-unit sell quote returns 0''),
                                     (''sellSizeTokens'', EvDec sell_size)] cv2
                                 else
                                   (let spot_per = real_of_int spot / real_of_int spot_in;
                                        bulk_per = real_of_int bulk / real_of_int sell_size;
                                        tax = max 0 (1 - bulk_per / spot_per)
                                    in resolved (tax \<ge> 3 / 10)
                                         [(''notionalQuoteUnits'', EvInt 100), (''quoteAsset'', EvText (cx_quote ctx)),
                                          (''quoteDecimals'', EvInt (int (cx_decimals ctx))),
                                          (''sellSizeTokens'', EvDec sell_size), (''spotPer'', EvReal spot_per),
                                          (''bulkPer'', EvReal bulk_per), (''taxBps'', EvInt (js_round (tax * 10000))),
                                          (''horizonBlock'', EvInt h)] cv2))))"

subsection \<open>\<open>LIQ_IMPAIRED\<close>\<close>

definition resolve_liq_impaired :: "resolver_ctx \<Rightarrow> string + resolution" where
  "resolve_liq_impaired ctx =
     (if cx_lp_locked ctx then Inr (not_applicable ''launchpad token: LP locked by construction'')
      else case build_liquidity_series (cx_client ctx) (cx_abi ctx) (cx_pool ctx) (cx_launch_block ctx)
                  (cx_horizon_block ctx) (cx_max_range ctx) of
        Inl e \<Rightarrow> Inl e
      | Inr (points, cv) \<Rightarrow> Inr
          (if points = [] then unresolvable ''no liquidity events observed for this pool'' (Some cv) []
           else
             (let up_to = filter (\<lambda>p. lq_block p \<le> cx_horizon_block ctx) points
              in if up_to = [] then unresolvable ''no liquidity events at/before the horizon'' (Some cv) []
                 else
                   (let peak = max_from_zero (map lq_liquidity points); current = lq_liquidity (last up_to)
                    in if peak \<le> 0 then unresolvable ''no positive liquidity observed'' (Some cv) []
                       else
                         (let removals = filter (\<lambda>p. lq_delta p < 0) points; ratio = current / peak
                          in resolved (ratio \<le> 2 / 10 \<and> (pl_kind (cx_pool ctx) = V2 \<or> removals \<noteq> []))
                               [(''method'', EvText (if pl_kind (cx_pool ctx) = V4 then ''v4:ModifyLiquidity cumulative''
                                                     else ''v2:Sync quote-side reserve'')),
                                (''peakLiquidity'', EvReal peak), (''currentLiquidity'', EvReal current),
                                (''ratio'', EvReal ratio), (''removalCount'', EvInt (int (length removals))),
                                (''removalTxs'', EvList (map EvText (List.map_filter
                                    (\<lambda>t. if t = Some [] then None else t) (map lq_tx (take 20 removals))))),
                                (''points'', EvInt (int (length points)))] cv)))))"

subsection \<open>\<open>INSIDER_EXIT\<close>\<close>

text \<open>\<open>watcher/erc20.ts\<close>.  \<open>transfer_value\<close> is \<open>None\<close> where \<open>BigInt\<close> throws.\<close>

definition transfer_topic0 :: string where
  "transfer_topic0 = ''0xddf252ad1be2c89b69c2b068fc378daa952ba7f163c4a11628f55a4df523b3ef''"

definition address_to_topic :: "address \<Rightarrow> string" where
  "address_to_topic a = ''0x'' @ replicate 24 (CHR ''0'') @ lower (drop 2 a)"

definition topic_to_address :: "string \<Rightarrow> address" where
  "topic_to_address t = lower (''0x'' @ drop (length t - 40) t)"

definition transfer_value :: "string \<Rightarrow> int option" where
  "transfer_value d =
     (if d = [] \<or> d = ''0x'' then Some 0
      else if starts_with ''0x'' d \<and> list_all is_hex_digit (lower (drop 2 d)) then Some (parse_hex d)
      else None)"

record transfer =
  tf_block :: int
  tf_index :: int
  tf_from :: address
  tf_to :: address
  tf_value :: int

definition max_insider_logs :: nat where
  "max_insider_logs = 30000"

definition topic_address :: "nat \<Rightarrow> rpc_log \<Rightarrow> address option" where
  "topic_address n l =
     (if n < length (l_topics l) \<and> l_topics l ! n \<noteq> [] then Some (topic_to_address (l_topics l ! n)) else None)"

text \<open>
  The de-duplicated transfers of the two scans, in the order the logs come.  A log
  without a block number makes \<open>BigInt\<close> throw; a mined log always has an index.
\<close>

fun transfer_events :: "rpc_log list \<Rightarrow> (int \<times> int) list \<Rightarrow> string + transfer list" where
  "transfer_events [] seen = Inr []"
| "transfer_events (l # ls) seen =
     (case l_block l of
        None \<Rightarrow> Inl ''Cannot convert null to a BigInt''
      | Some b \<Rightarrow>
          (let i = nullish (l_index l) 0
           in if (b, i) \<in> set seen then transfer_events ls seen
              else case (topic_address 1 l, topic_address 2 l) of
                (Some src, Some dst) \<Rightarrow>
                  (case transfer_value (l_data l) of
                     None \<Rightarrow> Inl ''Cannot convert to a BigInt''
                   | Some v \<Rightarrow>
                       (case transfer_events ls ((b, i) # seen) of
                          Inl e \<Rightarrow> Inl e
                        | Inr ts \<Rightarrow> Inr (\<lparr>tf_block = b, tf_index = i, tf_from = src, tf_to = dst, tf_value = v\<rparr> # ts)))
              | _ \<Rightarrow> transfer_events ls ((b, i) # seen)))"

definition sort_transfers :: "transfer list \<Rightarrow> transfer list" where
  "sort_transfers ts = sort_key tf_block (sort_key tf_index ts)"

record replay =
  rp_agg :: int
  rp_peak :: int
  rp_sold :: int
  rp_bought :: int
  rp_sells :: "(int \<times> int) list"

definition replay_transfer :: "address list \<Rightarrow> address list \<Rightarrow> replay \<Rightarrow> transfer \<Rightarrow> replay" where
  "replay_transfer cluster sinks r e =
     (let src = tf_from e \<in> set cluster; dst = tf_to e \<in> set cluster;
          agg1 = (if src then rp_agg r - tf_value e else rp_agg r);
          agg2 = (if dst then agg1 + tf_value e else agg1);
          sell = src \<and> tf_to e \<in> set sinks; buy = dst \<and> tf_from e \<in> set sinks
      in \<lparr>rp_agg = agg2, rp_peak = (if agg2 > rp_peak r then agg2 else rp_peak r),
          rp_sold = (if sell then rp_sold r + tf_value e else rp_sold r),
          rp_bought = (if buy then rp_bought r + tf_value e else rp_bought r),
          rp_sells = (if sell \<and> length (rp_sells r) < 20 then rp_sells r @ [(tf_block e, tf_index e)] else rp_sells r)\<rparr>)"

definition replay_transfers :: "address list \<Rightarrow> address list \<Rightarrow> transfer list \<Rightarrow> replay" where
  "replay_transfers cluster sinks ts =
     foldl (replay_transfer cluster sinks) \<lparr>rp_agg = 0, rp_peak = 0, rp_sold = 0, rp_bought = 0, rp_sells = []\<rparr> ts"

text \<open>The OR list of addresses goes into topic slot 1 (sender) or 2 (recipient).\<close>

definition transfer_logs :: "resolver_ctx \<Rightarrow> nat \<Rightarrow> string list \<Rightarrow> string + rpc_log list" where
  "transfer_logs ctx slot vals =
     with_retry (transient_for (cx_client ctx)) 4
       (\<lambda>a. get_logs_by_topic_values
              (\<lambda>batch. lc_logs (cx_client ctx) a (cx_token ctx)
                 (if slot = 1 then [[transfer_topic0], batch] else [[transfer_topic0], [], batch]))
              vals (cx_launch_block ctx) (cx_horizon_block ctx) (cx_max_range ctx) None)"

definition pool_sinks :: "pool_ref \<Rightarrow> address list" where
  "pool_sinks p = map lower (filter (\<lambda>a. a \<noteq> []) [pl_manager p, nullish (pl_address p) []])"

text \<open>\<open>bigint\<close> division truncates towards zero.\<close>

definition big_div :: "int \<Rightarrow> int \<Rightarrow> int" where
  "big_div a b = (if (a < 0) = (b < 0) then \<bar>a\<bar> div \<bar>b\<bar> else - (\<bar>a\<bar> div \<bar>b\<bar>))"

definition insider_verdict :: "resolver_ctx \<Rightarrow> nat \<Rightarrow> transfer list \<Rightarrow> coverage \<Rightarrow> resolution" where
  "insider_verdict ctx n_cluster events cv =
     (let r = replay_transfers (uniq (map lower (cx_cluster ctx))) (pool_sinks (cx_pool ctx)) events;
          net_sold = rp_sold r - rp_bought r
      in if rp_peak r = 0 then
           resolved False [(''clusterSize'', EvInt (int n_cluster)), (''peakHoldings'', EvDec 0),
             (''note'', EvText ''cluster never held tokens in the window'')] cv
         else
           resolved (net_sold * 2 \<ge> rp_peak r)
             [(''clusterSize'', EvInt (int n_cluster)), (''peakHoldings'', EvDec (rp_peak r)),
              (''soldToPool'', EvDec (rp_sold r)), (''boughtFromPool'', EvDec (rp_bought r)),
              (''netSoldToPool'', EvDec net_sold),
              (''ratioOfPeak'', EvReal (real_of_int (big_div (net_sold * 10000) (rp_peak r)) / 10000)),
              (''sells'', EvList (map (\<lambda>(b, i). EvList [EvInt b, EvInt i]) (rp_sells r))),
              (''transfersReplayed'', EvInt (int (length events)))] cv)"

definition resolve_insider_exit :: "resolver_ctx \<Rightarrow> string + resolution" where
  "resolve_insider_exit ctx =
     (let cluster = uniq (map lower (cx_cluster ctx))
      in if cluster = [] then Inr (unresolvable ''no cluster wallets recorded for this launch'' None [])
         else
           (let cv0 = new_coverage (cx_launch_block ctx) (cx_horizon_block ctx) (cx_max_range ctx);
                topics = map address_to_topic cluster;
                cv1 = cv0\<lparr>cv_calls := 2 * cv_calls cv0 * ((int (length topics) + 3) div 4)\<rparr>
            in case transfer_logs ctx 1 topics of
                 Inl e \<Rightarrow> Inl e
               | Inr out_logs \<Rightarrow>
                   (case transfer_logs ctx 2 topics of
                      Inl e \<Rightarrow> Inl e
                    | Inr in_logs \<Rightarrow>
                        if length out_logs \<ge> max_insider_logs \<or> length in_logs \<ge> max_insider_logs then
                          Inr (unresolvable ''too many cluster transfers to replay reliably''
                            (Some (add_gap ''transfer log cap hit; cannot trust a partial balance replay'' cv1)) [])
                        else
                          (case transfer_events (out_logs @ in_logs) [] of
                             Inl e \<Rightarrow> Inl e
                           | Inr events \<Rightarrow>
                               Inr (insider_verdict ctx (length cluster) (sort_transfers events)
                                 (add_note ''sells counted only when the recipient is the pool address'' cv1))))))"

subsection \<open>\<open>TRADING_ALIVE\<close>\<close>

definition alive_window_blocks :: int where
  "alive_window_blocks = 216000"

fun join_semi :: "string list \<Rightarrow> string" where
  "join_semi [] = []"
| "join_semi [x] = x"
| "join_semi (x # y # ys) = x @ ''; '' @ join_semi (y # ys)"

definition resolve_survival :: "resolver_ctx \<Rightarrow> resolution" where
  "resolve_survival ctx =
     (let h = cx_horizon_block ctx; from_block = (if h > alive_window_blocks then h - alive_window_blocks else 0)
      in case build_price_series (cx_client ctx) (cx_abi ctx) (cx_pool ctx) from_block h (cx_max_range ctx) of
           Inl e \<Rightarrow> unresolvable (''could not scan the survival window: '' @ first_line e) None []
         | Inr (points, cv) \<Rightarrow>
             (let g = join_semi (cv_gaps cv)
              in if points = [] \<and> cv_gaps cv \<noteq> [] \<and> mentions [''network'', ''busy'', ''timeout'', ''log cap''] (lower g)
                 then unresolvable (''could not scan the survival window: '' @ g) (Some cv) []
                 else resolved (points \<noteq> [])
                   [(''windowBlocks'', EvList [EvInt from_block, EvInt h]),
                    (''tradesInWindow'', EvInt (int (length points))),
                    (''lastTradeBlock'', case last_opt points of None \<Rightarrow> EvNull | Some p \<Rightarrow> EvInt (pp_block p)),
                    (''lastTradeTx'', case last_opt points of None \<Rightarrow> EvNull | Some p \<Rightarrow> ev_opt (pp_tx p))] cv))"


section \<open>The dispatcher\<close>

record launch_row =
  la_token :: address
  la_quote :: "address option"
  la_pool_kind :: "pool_kind option"
  la_pool_address :: "address option"
  la_pool_id :: "string option"
  la_pool_fee :: "int option"
  la_tick_spacing :: "int option"
  la_hooks :: "address option"
  la_block :: int
  la_lp_locked :: bool

datatype report_trigger = TrigLaunch | TrigQualified | TrigOther string

record outcome_ref =
  of_chain :: nat
  of_anchor :: millis
  of_trigger :: report_trigger
  of_launch :: "string option"
  of_label :: outcome_label
  of_horizon :: horizon
  of_horizon_at :: "millis option"

text \<open>Everything the dispatcher reads outside the row; \<open>rw_blocks n\<close> serves its \<open>n\<close>-th block search.\<close>

record resolver_world =
  rw_launches :: "string \<rightharpoonup> launch_row"
  rw_members :: "string \<Rightarrow> address list"
  rw_manager :: "nat \<Rightarrow> string + address"
  rw_quoter :: "nat \<Rightarrow> quoter"
  rw_max_range :: "nat \<Rightarrow> string + int"
  rw_decimals :: "address \<Rightarrow> string + nat"
  rw_blocks :: "nat \<Rightarrow> block_node"
  rw_client :: log_client
  rw_abi :: trade_abi

record resolver_memo =
  rm_blocks :: block_cache
  rm_decimals :: "address \<rightharpoonup> nat"

text \<open>\<open>quoteDecimals\<close>: a failed read is remembered as 18 as well.\<close>

definition quote_decimals :: "(address \<Rightarrow> string + nat) \<Rightarrow> address \<Rightarrow> (address \<rightharpoonup> nat) \<Rightarrow> nat \<times> (address \<rightharpoonup> nat)" where
  "quote_decimals read quote memo =
     (if quote = zero_address then (18, memo)
      else case memo (lower quote) of
        Some n \<Rightarrow> (n, memo)
      | None \<Rightarrow> (let n = (case read quote of Inr d \<Rightarrow> d | Inl _ \<Rightarrow> 18) in (n, memo(lower quote \<mapsto> n))))"

definition pool_of_launch :: "launch_row \<Rightarrow> address \<Rightarrow> pool_ref" where
  "pool_of_launch la manager =
     (let token = lower (la_token la); quote = lower (nullish (la_quote la) zero_address)
      in \<lparr>pl_kind = nullish (la_pool_kind la) V4, pl_manager = lower manager,
          pl_address = map_option lower (la_pool_address la), pl_id = la_pool_id la,
          pl_token0 = (if quote = zero_address then False else token < quote)\<rparr>)"

definition pool_key_of_launch :: "launch_row \<Rightarrow> pool_key option" where
  "pool_key_of_launch la =
     (let token = lower (la_token la); quote = lower (nullish (la_quote la) zero_address)
      in case (la_pool_fee la, la_tick_spacing la) of
           (Some fee, Some spacing) \<Rightarrow>
             if nullish (la_pool_kind la) V4 = V4 then
               Some \<lparr>pk_currency0 = (if quote = zero_address then zero_address else if token < quote then token else quote),
                     pk_currency1 = (if quote = zero_address then token else if token < quote then quote else token),
                     pk_fee = fee, pk_tick_spacing = spacing, pk_hooks = nullish (la_hooks la) zero_address\<rparr>
             else None
         | _ \<Rightarrow> None)"

definition h24_ms :: millis where
  "h24_ms = 24 * 3600 * 1000"

text \<open>The reference window of \<open>DRAWDOWN_80\<close>; both ends are the anchor block for every other label.\<close>

definition reference_window ::
    "(nat \<Rightarrow> block_node) \<Rightarrow> outcome_ref \<Rightarrow> int \<Rightarrow> block_cache \<Rightarrow> (string + int \<times> int) \<times> block_cache" where
  "reference_window nodes row anchor memo =
     (if of_label row \<noteq> Drawdown80 then (Inr (anchor, anchor), memo)
      else if of_trigger row = TrigLaunch \<or> of_trigger row = TrigQualified then
        (case block_at_time (nodes 2) (of_chain row) default_max_iters 1 (of_anchor row + h24_ms) memo of
           (Inl e, memo') \<Rightarrow> (Inl e, memo')
         | (Inr b, memo') \<Rightarrow> (Inr (anchor, b), memo'))
      else
        (case block_at_time (nodes 2) (of_chain row) default_max_iters 1 (of_anchor row - h24_ms) memo of
           (Inl e, memo') \<Rightarrow> (Inl e, memo')
         | (Inr b, memo') \<Rightarrow> (Inr (b, anchor), memo')))"

definition resolve_by_label :: "outcome_label \<Rightarrow> resolver_ctx \<Rightarrow> string + resolution" where
  "resolve_by_label l ctx =
     (case l of
        Drawdown80 \<Rightarrow> resolve_drawdown ctx
      | SellImpaired \<Rightarrow> Inr (resolve_sell_impaired ctx)
      | LiqImpaired \<Rightarrow> resolve_liq_impaired ctx
      | InsiderExit \<Rightarrow> resolve_insider_exit ctx
      | TradingAlive \<Rightarrow> Inr (resolve_survival ctx))"

definition resolve_one_outcome ::
    "resolver_world \<Rightarrow> outcome_ref \<Rightarrow> resolver_memo \<Rightarrow> (string + resolution) \<times> resolver_memo" where
  "resolve_one_outcome w row memo =
     (case of_launch row of
        None \<Rightarrow> (Inr (unresolvable ''no linked launch (non-launch trigger not supported yet)'' None []), memo)
      | Some lid \<Rightarrow>
     (case of_horizon_at row of
        None \<Rightarrow> (Inr (unresolvable ''outcome row has no horizonAt'' None []), memo)
      | Some horizon_at \<Rightarrow>
     (case rw_launches w lid of
        None \<Rightarrow> (Inr (unresolvable ''linked launch not found'' None []), memo)
      | Some la \<Rightarrow>
     if \<not> outcome_applies (of_label row, of_horizon row) (la_lp_locked la) then
       (Inr (not_applicable ''does not apply to this token type''), memo)
     else
     (case rw_manager w (of_chain row) of
        Inl e \<Rightarrow> (Inl e, memo)
      | Inr manager \<Rightarrow>
     (case block_at_time (rw_blocks w 0) (of_chain row) default_max_iters 1 (of_anchor row) (rm_blocks memo) of
        (Inl e, m1) \<Rightarrow> (Inl e, memo\<lparr>rm_blocks := m1\<rparr>)
      | (Inr anchor, m1) \<Rightarrow>
     (case block_at_time (rw_blocks w 1) (of_chain row) default_max_iters 1 horizon_at m1 of
        (Inl e, m2) \<Rightarrow> (Inl e, memo\<lparr>rm_blocks := m2\<rparr>)
      | (Inr horizon_block, m2) \<Rightarrow>
     (case reference_window (rw_blocks w) row anchor m2 of
        (Inl e, m3) \<Rightarrow> (Inl e, memo\<lparr>rm_blocks := m3\<rparr>)
      | (Inr (ref_start, ref_end), m3) \<Rightarrow>
     (case rw_max_range w (of_chain row) of
        Inl e \<Rightarrow> (Inl e, memo\<lparr>rm_blocks := m3\<rparr>)
      | Inr max_range \<Rightarrow>
     (let quote = lower (nullish (la_quote la) zero_address)
      in case quote_decimals (rw_decimals w) quote (rm_decimals memo) of
        (dec, m4) \<Rightarrow>
          (resolve_by_label (of_label row)
             \<lparr>cx_client = rw_client w, cx_abi = rw_abi w, cx_quoter = rw_quoter w (of_chain row),
              cx_max_range = max_range, cx_pool = pool_of_launch la manager,
              cx_token = lower (la_token la), cx_quote = quote, cx_pool_key = pool_key_of_launch la,
              cx_decimals = dec, cx_launch_block = la_block la, cx_lp_locked = la_lp_locked la,
              cx_cluster = (if of_label row = InsiderExit then map lower (rw_members w lid) else []),
              cx_anchor_block = anchor, cx_horizon_block = horizon_block,
              cx_ref_start = ref_start, cx_ref_end = ref_end\<rparr>,
           \<lparr>rm_blocks = m3, rm_decimals = m4\<rparr>))))))))))"

end
