(* ===== verification/LogScan.thy ===== *)
theory LogScan
  imports ChainLib "HOL-Library.Product_Lexorder"
begin

text \<open>
  What \<open>getLogsByTopicValues\<close> of \<open>packages/chain/src/logs.ts\<close> returns from an honest node:
  every log of the chain that carries one of the values, once, in chain order, however
  the values are batched and the block range is cut.
\<close>


section \<open>Chains of indexed logs\<close>

definition indexed :: "rpc_log \<Rightarrow> bool" where
  "indexed l \<longleftrightarrow> (\<exists>b i. l_block l = Some b \<and> l_index l = Some i \<and> 0 \<le> i)"

text \<open>A chain in block and index order: no two logs share a position.\<close>

definition ordered_chain :: "rpc_log list \<Rightarrow> bool" where
  "ordered_chain chain \<longleftrightarrow> (\<forall>l \<in> set chain. indexed l) \<and> sorted (map log_order chain) \<and> distinct (map log_order chain)"

lemma ordered_chain_filter [intro]: "ordered_chain chain \<Longrightarrow> ordered_chain (filter P chain)"
  by (simp add: ordered_chain_def sorted_filter distinct_map_filter)

lemma ordered_chain_inj: "ordered_chain chain \<Longrightarrow> inj_on log_order (set chain)"
  by (simp add: ordered_chain_def distinct_map)

lemma ordered_chain_blocks: "ordered_chain chain \<Longrightarrow> sorted (map log_block chain)"
  unfolding ordered_chain_def log_order_def log_block_def sorted_map
  by (auto elim!: sorted_wrt_mono_rel [rotated] simp: less_eq_prod_def)

lemma log_key_indexed: "indexed l \<Longrightarrow> log_key_of n l = ByIndex (fst (log_order l)) (snd (log_order l))"
  by (auto simp: indexed_def log_key_of_def log_order_def)

lemma lex_sorted:
  assumes "sorted (map f xs)" "\<And>k. sorted (map g (filter (\<lambda>x. f x = k) xs))"
  shows "sorted (map (\<lambda>x. (f x, g x)) xs)"
  using assms
proof (induction xs)
  case (Cons x xs)
  have "sorted (map g (filter (\<lambda>y. f y = k) xs))" for k
    using Cons.prems(2) [of k] by (auto split: if_splits)
  moreover have "(f x, g x) \<le> (f y, g y)" if y: "y \<in> set xs" for y
  proof (cases "f x = f y")
    case True
    then show ?thesis using Cons.prems(2) [of "f y"] y by auto
  next
    case False
    then show ?thesis using Cons.prems(1) y by (fastforce simp: less_eq_prod_def)
  qed
  ultimately show ?case using Cons by auto
qed simp

lemma sort_logs_sorted: "sorted (map log_order (sort_logs ls))"
proof -
  let ?f = "\<lambda>l. fst (log_order l)" and ?g = "\<lambda>l. snd (log_order l)"
  have "sorted (map ?g (filter (\<lambda>l. ?f l = k) (sort_logs ls)))" for k
    by (simp add: sort_logs_def sort_key_stable sorted_filter)
  then have "sorted (map (\<lambda>l. (?f l, ?g l)) (sort_logs ls))"
    by (intro lex_sorted) (simp_all add: sort_logs_def)
  then show ?thesis by simp
qed

lemma set_sort_logs [simp]: "set (sort_logs ls) = set ls"
  by (simp add: sort_logs_def)

text \<open>Two ordered lists of logs with the same members are equal.\<close>

lemma ordered_logs_unique:
  assumes "sorted (map log_order xs)" "distinct (map log_order xs)" "ordered_chain ys" "set xs = set ys"
  shows "xs = ys"
proof -
  have "map log_order xs = map log_order ys"
    using assms by (intro sorted_distinct_set_unique) (auto simp: ordered_chain_def)
  then show ?thesis
    using assms(3,4) by (intro map_inj_on [of log_order]) (auto simp: ordered_chain_inj)
qed

lemma dedup_logs_members:
  assumes "\<forall>l \<in> S. indexed l" "inj_on log_order S" "set ls \<subseteq> S" "set out \<subseteq> S"
    and "set seen = (\<lambda>l. ByIndex (fst (log_order l)) (snd (log_order l))) ` set out"
    and "distinct (map log_order out)"
    and "dedup_logs ls seen out = (seen', out')"
  shows "set seen' = (\<lambda>l. ByIndex (fst (log_order l)) (snd (log_order l))) ` set out'
    \<and> distinct (map log_order out') \<and> set out' = set out \<union> set ls"
  using assms(3-)
proof (induction ls arbitrary: seen out)
  case (Cons l ls)
  let ?k = "\<lambda>l. ByIndex (fst (log_order l)) (snd (log_order l))"
  have key: "log_key_of (length out) l = ?k l"
    using assms(1) Cons.prems(1) by (simp add: log_key_indexed)
  have mem: "?k l \<in> set seen \<longleftrightarrow> l \<in> set out"
    using assms(2) Cons.prems(1-3) by (auto simp: inj_on_def prod_eq_iff)
  show ?case
  proof (cases "l \<in> set out")
    case True
    then show ?thesis
      using Cons.IH [of out seen] Cons.prems key mem by (auto simp: Let_def insert_absorb)
  next
    case False
    then have "log_order l \<notin> log_order ` set out"
      using assms(2) Cons.prems(1,2) by (auto simp: inj_on_def)
    then show ?thesis
      using Cons.IH [of "out @ [l]" "?k l # seen"] Cons.prems key mem False by (auto simp: Let_def)
  qed
qed auto


section \<open>Batches\<close>

lemma slices_concat: "0 < cap \<Longrightarrow> concat (slices cap xs) = xs"
proof (induction cap xs rule: slices.induct)
  case (1 cap xs)
  then show ?case by (subst slices.simps) auto
qed

text \<open>\<open>carries vals l\<close>: the slot of log \<open>l\<close> the values go in holds one of them.\<close>

lemma scan_batches_members:
  assumes chain: "ordered_chain chain" and m: "1 \<le> m"
    and node: "\<And>vals. honest_node (filter (\<lambda>l. slot l \<in> set vals) chain) (req vals)"
    and "set out \<subseteq> set chain" "distinct (map log_order out)"
    and "set seen = (\<lambda>l. ByIndex (fst (log_order l)) (snd (log_order l))) ` set out"
  shows "\<exists>out'. scan_batches req f t m bs seen out = Inr out' \<and> distinct (map log_order out') \<and>
    set out' = set out \<union> {l \<in> set chain. in_range f t l \<and> slot l \<in> set (concat bs)}"
  using assms(4-)
proof (induction bs arbitrary: seen out)
  case (Cons b bs)
  let ?logs = "filter (in_range f t) (filter (\<lambda>l. slot l \<in> set b) chain)"
  have logs: "get_logs_chunked (req b) f t m = Inr ?logs"
    using m chain request_all_windows [OF node [of b] ordered_chain_blocks [OF ordered_chain_filter [OF chain]] m]
    by (simp add: get_logs_chunked_def)
  obtain seen' out' where d: "dedup_logs ?logs seen out = (seen', out')"
    by (cases "dedup_logs ?logs seen out")
  have "set seen' = (\<lambda>l. ByIndex (fst (log_order l)) (snd (log_order l))) ` set out'
      \<and> distinct (map log_order out') \<and> set out' = set out \<union> set ?logs"
    using chain Cons.prems d
    by (intro dedup_logs_members [of "set chain"]) (auto simp: ordered_chain_def ordered_chain_inj)
  moreover from this have "set out' \<subseteq> set chain" using Cons.prems(1) by auto
  ultimately show ?case
    using Cons.IH [of out' seen'] logs d by (auto simp: in_range_def)
qed simp


section \<open>Property\<close>

text \<open>
  A scan by topic values returns exactly the logs of the range that carry one of the
  values, each once and in chain order: the batches of values lose, repeat and reorder
  nothing.
\<close>

theorem topic_scan_complete:
  assumes "ordered_chain chain" "1 \<le> m" "0 < nullish cap 4"
    and "\<And>batch. honest_node (filter (\<lambda>l. slot l \<in> set batch) chain) (req batch)"
  shows "get_logs_by_topic_values req vals f t m cap =
    Inr (filter (\<lambda>l. in_range f t l \<and> slot l \<in> set vals) chain)"
proof -
  obtain out where out: "scan_batches req f t m (slices (nullish cap 4) vals) [] [] = Inr out"
      "distinct (map log_order out)" "set out = {l \<in> set chain. in_range f t l \<and> slot l \<in> set vals}"
    using scan_batches_members [OF assms(1,2), of slot req "[]" "[]" f t "slices (nullish cap 4) vals"] assms(3,4)
    by (auto simp: slices_concat simp del: set_concat)
  have "distinct (map log_order (sort_logs out))"
    using out(2) by (auto simp: distinct_map sort_logs_def)
  then have "sort_logs out = filter (\<lambda>l. in_range f t l \<and> slot l \<in> set vals) chain"
    using out(3) assms(1) by (intro ordered_logs_unique) (auto simp: sort_logs_sorted)
  then show ?thesis by (simp add: get_logs_by_topic_values_def out(1))
qed

definition topic1 :: "rpc_log \<Rightarrow> string" where
  "topic1 l = (if 1 < length (l_topics l) then l_topics l ! 1 else [])"

definition demo_topic_log :: "int \<Rightarrow> int \<Rightarrow> string \<Rightarrow> rpc_log" where
  "demo_topic_log b i a = \<lparr>l_address = ''0xa'', l_topics = [''0xt'', a], l_data = ''0x'', l_block = Some b,
     l_index = Some i, l_tx = None\<rparr>"

theorem topic_scan_complete_witness:
  "get_logs_by_topic_values
     (\<lambda>batch f t. Inr (filter (in_range f t) (filter (\<lambda>l. topic1 l \<in> set batch)
        [demo_topic_log 1 0 ''a'', demo_topic_log 1 1 ''b'', demo_topic_log 2 0 ''a''])))
     [''b'', ''a''] 1 2 1 (Some 1)
   = Inr (filter (\<lambda>l. in_range 1 2 l \<and> topic1 l \<in> set [''b'', ''a''])
       [demo_topic_log 1 0 ''a'', demo_topic_log 1 1 ''b'', demo_topic_log 2 0 ''a''])"
  by (rule topic_scan_complete)
     (auto simp: ordered_chain_def indexed_def demo_topic_log_def log_order_def honest_node_def)

end
