(* ===== verification/OutcomeFacts.thy ===== *)
theory OutcomeFacts
  imports OutcomeResolve LogScan
begin

text \<open>
  What the resolvers of \<open>OutcomeResolve\<close> promise: the verdicts an honest node leads to
  are the ones the rules name, over the transfers and trades of the chain itself; a
  failed quote never resolves \<open>SELL_IMPAIRED\<close>; and the places where the code departs
  from its rules.
\<close>


section \<open>Topics and addresses\<close>

text \<open>A lower-case address text: \<open>0x\<close> and 40 characters.\<close>

definition plain_address :: "address \<Rightarrow> bool" where
  "plain_address a \<longleftrightarrow> length a = 42 \<and> take 2 a = ''0x'' \<and> lower a = a"

lemma lower_append [simp]: "lower (a @ b) = lower a @ lower b"
  by (simp add: lower_def)

lemma lower_drop: "lower (drop n a) = drop n (lower a)"
  by (simp add: lower_def drop_map)

lemma lower_0x [simp]: "lower ''0x'' = ''0x''"
  by (simp add: lower_def lower_char_def)

text \<open>
  The topic of an address reads back as the address in lower case.
\<close>

theorem topic_address_roundtrip:
  assumes "length a = 42" "lower (take 2 a) = ''0x''"
  shows "topic_to_address (address_to_topic a) = lower a"
proof -
  have "drop (length (address_to_topic a) - 40) (address_to_topic a) = lower (drop 2 a)"
    using assms(1) by (simp add: address_to_topic_def)
  then have "topic_to_address (address_to_topic a) = lower ''0x'' @ lower (lower (drop 2 a))"
    by (simp only: topic_to_address_def lower_append lower_0x lower_idem)
  also have "\<dots> = lower (take 2 a) @ lower (drop 2 a)" by (simp add: assms(2))
  also have "\<dots> = lower a" by (metis append_take_drop_id lower_append)
  finally show ?thesis .
qed

theorem topic_address_roundtrip_witness:
  "topic_to_address (address_to_topic (''0x'' @ replicate 40 CHR ''A'')) = lower (''0x'' @ replicate 40 CHR ''A'')"
  by (rule topic_address_roundtrip) (simp_all add: lower_def lower_char_def)

lemma topic_plain: "plain_address a \<Longrightarrow> topic_to_address (address_to_topic a) = a"
  by (subst topic_address_roundtrip) (auto simp: plain_address_def)

lemma topic_inj: "plain_address a \<Longrightarrow> plain_address b \<Longrightarrow> address_to_topic a = address_to_topic b \<Longrightarrow> a = b"
  by (metis topic_plain)


section \<open>The insider replay\<close>

text \<open>\<open>encodes l e\<close>: log \<open>l\<close> is the ERC-20 \<open>Transfer\<close> event of transfer \<open>e\<close>.\<close>

definition encodes :: "rpc_log \<Rightarrow> transfer \<Rightarrow> bool" where
  "encodes l e \<longleftrightarrow> l_block l = Some (tf_block e) \<and> l_index l = Some (tf_index e) \<and>
     l_topics l = [transfer_topic0, address_to_topic (tf_from e), address_to_topic (tf_to e)] \<and>
     transfer_value (l_data l) = Some (tf_value e) \<and> plain_address (tf_from e) \<and> plain_address (tf_to e)"

text \<open>The node answers the two scans of a token from its transfer logs, on every try.\<close>

definition serves_transfers :: "log_client \<Rightarrow> address \<Rightarrow> rpc_log list \<Rightarrow> bool" where
  "serves_transfers c token logs \<longleftrightarrow> (\<forall>a batch.
     honest_node (filter (\<lambda>l. l_topics l ! 1 \<in> set batch) logs) (lc_logs c a token [[transfer_topic0], batch]) \<and>
     honest_node (filter (\<lambda>l. l_topics l ! 2 \<in> set batch) logs) (lc_logs c a token [[transfer_topic0], [], batch]))"

text \<open>The rule, over the transfers of the chain: balance of the cluster, its peak, its net sales.\<close>

definition net_flow :: "address list \<Rightarrow> transfer \<Rightarrow> int" where
  "net_flow cluster e =
     (if tf_to e \<in> set cluster then tf_value e else 0) - (if tf_from e \<in> set cluster then tf_value e else 0)"

definition peak_holdings :: "address list \<Rightarrow> transfer list \<Rightarrow> int" where
  "peak_holdings cluster ts = Max ((\<lambda>n. sum_list (map (net_flow cluster) (take n ts))) ` {0..length ts})"

definition net_sold :: "address list \<Rightarrow> address list \<Rightarrow> transfer list \<Rightarrow> int" where
  "net_sold cluster sinks ts =
     sum_list (map tf_value (filter (\<lambda>e. tf_from e \<in> set cluster \<and> tf_to e \<in> set sinks) ts)) -
     sum_list (map tf_value (filter (\<lambda>e. tf_to e \<in> set cluster \<and> tf_from e \<in> set sinks) ts))"

definition cluster_window :: "address list \<Rightarrow> int \<Rightarrow> int \<Rightarrow> transfer list \<Rightarrow> transfer list" where
  "cluster_window cluster f t ts =
     filter (\<lambda>e. f \<le> tf_block e \<and> tf_block e \<le> t \<and> (tf_from e \<in> set cluster \<or> tf_to e \<in> set cluster)) ts"

lemma peak_snoc:
  "peak_holdings c (ts @ [e]) = max (peak_holdings c ts) (sum_list (map (net_flow c) (ts @ [e])))"
proof -
  have eq: "{0..length (ts @ [e])} = insert (Suc (length ts)) {0..length ts}" by auto
  have "(\<lambda>n. sum_list (map (net_flow c) (take n (ts @ [e])))) ` {0..length ts} =
      (\<lambda>n. sum_list (map (net_flow c) (take n ts))) ` {0..length ts}"
    by (intro image_cong) auto
  then show ?thesis
    unfolding peak_holdings_def eq image_insert by (subst Max_insert) (auto simp: max.commute)
qed

lemma replay_transfer_simps:
  "rp_agg (replay_transfer c sinks r e) = rp_agg r + net_flow c e"
  "rp_peak (replay_transfer c sinks r e) = max (rp_peak r) (rp_agg r + net_flow c e)"
  "rp_sold (replay_transfer c sinks r e) =
     rp_sold r + (if tf_from e \<in> set c \<and> tf_to e \<in> set sinks then tf_value e else 0)"
  "rp_bought (replay_transfer c sinks r e) =
     rp_bought r + (if tf_to e \<in> set c \<and> tf_from e \<in> set sinks then tf_value e else 0)"
  by (simp_all add: replay_transfer_def Let_def net_flow_def max_def)

lemma replay_correct:
  "replay_transfers c sinks ts = r \<Longrightarrow>
     rp_agg r = sum_list (map (net_flow c) ts) \<and> rp_peak r = peak_holdings c ts \<and>
     rp_sold r = sum_list (map tf_value (filter (\<lambda>e. tf_from e \<in> set c \<and> tf_to e \<in> set sinks) ts)) \<and>
     rp_bought r = sum_list (map tf_value (filter (\<lambda>e. tf_to e \<in> set c \<and> tf_from e \<in> set sinks) ts))"
proof (induction ts arbitrary: r rule: rev_induct)
  case Nil
  then show ?case by (auto simp: replay_transfers_def peak_holdings_def)
next
  case (snoc e ts)
  obtain r0 where r0: "replay_transfers c sinks ts = r0" by blast
  then have "r = replay_transfer c sinks r0 e"
    using snoc.prems by (simp add: replay_transfers_def)
  then show ?case
    using snoc.IH [OF r0] by (simp add: replay_transfer_simps peak_snoc)
qed

lemma peak_nonneg: "0 \<le> peak_holdings c ts"
  unfolding peak_holdings_def by (rule Max_ge) (auto intro!: image_eqI [of _ _ 0])

definition transfer_of :: "rpc_log \<Rightarrow> transfer" where
  "transfer_of l = \<lparr>tf_block = nullish (l_block l) 0, tf_index = nullish (l_index l) 0,
     tf_from = topic_to_address (l_topics l ! 1), tf_to = topic_to_address (l_topics l ! 2),
     tf_value = nullish (transfer_value (l_data l)) 0\<rparr>"

lemma transfer_of_encodes: "encodes l e \<Longrightarrow> transfer_of l = e"
  by (simp add: encodes_def transfer_of_def topic_plain)

lemma log_order_transfer: "log_order l = (tf_block (transfer_of l), tf_index (transfer_of l))"
  by (simp add: log_order_def transfer_of_def)

lemma insort_key_map: "insort_key f (g x) (map g ys) = map g (insort_key (\<lambda>x. f (g x)) x ys)"
  by (induction ys) auto

lemma sort_key_map: "sort_key f (map g xs) = map g (sort_key (\<lambda>x. f (g x)) xs)"
  by (induction xs) (auto simp: insort_key_map)

lemma sort_transfers_map: "sort_transfers (map transfer_of ks) = map transfer_of (sort_logs ks)"
  by (simp add: sort_transfers_def sort_logs_def sort_key_map log_order_transfer)

lemma topic_to_address_nonempty [simp]: "topic_to_address t \<noteq> []"
  by (simp add: topic_to_address_def lower_def)

lemma address_to_topic_nonempty [simp]: "address_to_topic a \<noteq> []"
  by (simp add: address_to_topic_def)

lemma transfer_events_encoded:
  assumes "\<forall>l \<in> set ls. \<exists>e. encodes l e"
  shows "\<exists>ks. transfer_events ls seen = Inr (map transfer_of ks) \<and> distinct (map log_order ks) \<and>
    log_order ` set ks = log_order ` set ls - set seen \<and> set ks \<subseteq> set ls"
  using assms
proof (induction ls arbitrary: seen)
  case (Cons l ls)
  obtain e where e: "encodes l e" using Cons.prems by auto
  have lo: "log_order l = (tf_block e, tf_index e)"
    using transfer_of_encodes [OF e] by (simp add: log_order_transfer)
  have ls: "\<forall>l \<in> set ls. \<exists>e. encodes l e" using Cons.prems by simp
  show ?case
  proof (cases "log_order l \<in> set seen")
    case True
    obtain ks where "transfer_events ls seen = Inr (map transfer_of ks)" "distinct (map log_order ks)"
        "log_order ` set ks = log_order ` set ls - set seen" "set ks \<subseteq> set ls"
      using Cons.IH [OF ls, of seen] by blast
    then show ?thesis
      using e True lo by (intro exI [of _ ks]) (auto simp: encodes_def Let_def)
  next
    case False
    obtain ks where ks: "transfer_events ls (log_order l # seen) = Inr (map transfer_of ks)" "distinct (map log_order ks)"
        "log_order ` set ks = log_order ` set ls - set (log_order l # seen)" "set ks \<subseteq> set ls"
      using Cons.IH [OF ls, of "log_order l # seen"] by blast
    have "transfer_events (l # ls) seen = Inr (map transfer_of (l # ks))"
      using e False lo ks(1) transfer_of_encodes [OF e]
      by (simp add: encodes_def Let_def topic_address_def topic_plain)
    moreover have "log_order l \<notin> log_order ` set ks" using ks(3) by auto
    moreover have "log_order ` set (l # ks) = log_order ` set (l # ls) - set seen"
      using ks(3) False by auto
    ultimately show ?thesis
      using ks by (intro exI [of _ "l # ks"]) auto
  qed
qed auto

lemma map_transfer_of_filter:
  "list_all2 encodes logs ts \<Longrightarrow> map transfer_of (filter (\<lambda>l. P (transfer_of l)) logs) = filter P ts"
  by (induction rule: list_all2_induct) (auto simp: transfer_of_encodes)

lemma list_all2_encodes_ex: "list_all2 encodes logs ts \<Longrightarrow> l \<in> set logs \<Longrightarrow> \<exists>e \<in> set ts. encodes l e"
  by (induction rule: list_all2_induct) auto

lemma topic_in_cluster:
  assumes "encodes l e" "\<forall>a \<in> set cluster. plain_address a"
  shows "l_topics l ! 1 \<in> set (map address_to_topic cluster) \<longleftrightarrow> tf_from e \<in> set cluster"
    and "l_topics l ! 2 \<in> set (map address_to_topic cluster) \<longleftrightarrow> tf_to e \<in> set cluster"
  using assms by (auto simp: encodes_def image_iff dest: topic_inj)

lemma transfer_logs_served:
  assumes "serves_transfers (cx_client ctx) (cx_token ctx) logs" "ordered_chain logs" "1 \<le> cx_max_range ctx"
  shows "transfer_logs ctx 1 vals =
      Inr (filter (\<lambda>l. in_range (cx_launch_block ctx) (cx_horizon_block ctx) l \<and> l_topics l ! 1 \<in> set vals) logs)"
    and "transfer_logs ctx 2 vals =
      Inr (filter (\<lambda>l. in_range (cx_launch_block ctx) (cx_horizon_block ctx) l \<and> l_topics l ! 2 \<in> set vals) logs)"
  using assms
  by (auto simp: transfer_logs_def serves_transfers_def intro!: with_retry_Inr topic_scan_complete)

lemma sort_logs_window:
  assumes logs: "ordered_chain logs" and ks: "distinct (map log_order ks)" "set ks \<subseteq> set logs"
    and same: "log_order ` set ks = log_order ` {l \<in> set logs. P l}"
  shows "sort_logs ks = filter P logs"
proof -
  have "set ks = {l \<in> set logs. P l}"
    using inj_on_image_eq_iff [OF ordered_chain_inj [OF logs] ks(2), of "{l \<in> set logs. P l}"] same by auto
  moreover have "distinct (map log_order (sort_logs ks))"
    using ks(1) by (auto simp: distinct_map sort_logs_def)
  ultimately show ?thesis
    using logs by (intro ordered_logs_unique) (auto simp: sort_logs_sorted)
qed

definition insider_logs :: "address list \<Rightarrow> int \<Rightarrow> int \<Rightarrow> rpc_log list \<Rightarrow> rpc_log list" where
  "insider_logs cluster f t logs =
     filter (\<lambda>l. in_range f t l \<and> (tf_from (transfer_of l) \<in> set cluster \<or> tf_to (transfer_of l) \<in> set cluster)) logs"

lemma insider_logs_transfers:
  assumes "list_all2 encodes logs ts"
  shows "map transfer_of (insider_logs cluster f t logs) = cluster_window cluster f t ts"
proof -
  have "insider_logs cluster f t logs = filter (\<lambda>l. (\<lambda>e. f \<le> tf_block e \<and> tf_block e \<le> t \<and>
      (tf_from e \<in> set cluster \<or> tf_to e \<in> set cluster)) (transfer_of l)) logs"
    unfolding insider_logs_def
    by (intro filter_cong) (auto simp: in_range_def log_block_def transfer_of_def)
  then show ?thesis
    using map_transfer_of_filter [OF assms] unfolding cluster_window_def by simp
qed

lemma insider_events:
  assumes logs: "ordered_chain logs" "list_all2 encodes logs ts"
    and cluster: "\<forall>a \<in> set cluster. plain_address a"
    and vals: "vals = map address_to_topic cluster"
    and ls: "ls = filter (\<lambda>l. in_range f t l \<and> l_topics l ! 1 \<in> set vals) logs @
                  filter (\<lambda>l. in_range f t l \<and> l_topics l ! 2 \<in> set vals) logs"
  shows "\<exists>es. transfer_events ls [] = Inr es \<and> sort_transfers es = cluster_window cluster f t ts"
proof -
  have enc: "\<exists>e. encodes l e" if "l \<in> set logs" for l
    using list_all2_encodes_ex [OF logs(2) that] by blast
  have mem: "set ls = {l \<in> set logs. in_range f t l \<and>
      (tf_from (transfer_of l) \<in> set cluster \<or> tf_to (transfer_of l) \<in> set cluster)}"
  proof (intro set_eqI iffI)
    fix l assume "l \<in> set ls"
    then have l: "l \<in> set logs" by (auto simp: ls)
    with enc obtain e where e: "encodes l e" by blast
    show "l \<in> {l \<in> set logs. in_range f t l \<and>
        (tf_from (transfer_of l) \<in> set cluster \<or> tf_to (transfer_of l) \<in> set cluster)}"
      using \<open>l \<in> set ls\<close> topic_in_cluster [OF e cluster] transfer_of_encodes [OF e]
      by (auto simp: ls vals)
  next
    fix l assume l: "l \<in> {l \<in> set logs. in_range f t l \<and>
        (tf_from (transfer_of l) \<in> set cluster \<or> tf_to (transfer_of l) \<in> set cluster)}"
    with enc obtain e where e: "encodes l e" by blast
    show "l \<in> set ls"
      using l topic_in_cluster [OF e cluster] transfer_of_encodes [OF e] by (auto simp: ls vals)
  qed
  then have enc_ls: "\<forall>l \<in> set ls. \<exists>e. encodes l e" using enc by auto
  obtain ks where ks: "transfer_events ls [] = Inr (map transfer_of ks)" "distinct (map log_order ks)"
      "log_order ` set ks = log_order ` set ls" "set ks \<subseteq> set ls"
    using transfer_events_encoded [OF enc_ls, of "[]"] by auto
  have "sort_logs ks = insider_logs cluster f t logs"
    unfolding insider_logs_def
    by (rule sort_logs_window [OF logs(1) ks(2)]) (use ks(3,4) mem in auto)
  then have "sort_transfers (map transfer_of ks) = cluster_window cluster f t ts"
    by (simp add: sort_transfers_map insider_logs_transfers [OF logs(2)])
  with ks(1) show ?thesis by blast
qed

text \<open>
  C17: With the chain's transfers served in full, \<open>INSIDER_EXIT\<close> is resolved, and to exactly
  the rule: true when the cluster held tokens and its net sales to the pool are at least
  half of its peak holdings over the window, counting every transfer once and in chain
  order although the two scans overlap on transfers inside the cluster.
\<close>

theorem insider_exit_exact:
  assumes "serves_transfers (cx_client ctx) (cx_token ctx) logs" "ordered_chain logs"
    and "list_all2 encodes logs ts" "1 \<le> cx_max_range ctx"
    and "cluster = uniq (map lower (cx_cluster ctx))" "cluster \<noteq> []" "\<forall>a \<in> set cluster. plain_address a"
    and "window = cluster_window cluster (cx_launch_block ctx) (cx_horizon_block ctx) ts"
    and "length logs < max_insider_logs"
  shows "\<exists>r. resolve_insider_exit ctx = Inr r \<and> rs_status r = VResolved \<and>
    rs_value r = Some (0 < peak_holdings cluster window \<and>
      peak_holdings cluster window \<le> 2 * net_sold cluster (pool_sinks (cx_pool ctx)) window)"
proof -
  let ?vals = "map address_to_topic cluster"
  let ?f = "cx_launch_block ctx" and ?t = "cx_horizon_block ctx"
  let ?out = "filter (\<lambda>l. in_range ?f ?t l \<and> l_topics l ! 1 \<in> set ?vals) logs"
  let ?in = "filter (\<lambda>l. in_range ?f ?t l \<and> l_topics l ! 2 \<in> set ?vals) logs"
  obtain es where es: "transfer_events (?out @ ?in) [] = Inr es" "sort_transfers es = window"
    using insider_events [OF assms(2,3,7) refl refl] assms(8) by blast
  have few: "length ?out < max_insider_logs" "length ?in < max_insider_logs"
    using assms(9) le_less_trans [OF length_filter_le] by blast+
  obtain cv where run: "resolve_insider_exit ctx = Inr (insider_verdict ctx (length cluster) window cv)"
    using es few assms(5,6) transfer_logs_served [OF assms(1,2,4), of ?vals]
    by (simp add: resolve_insider_exit_def Let_def)
  let ?r = "replay_transfers cluster (pool_sinks (cx_pool ctx)) window"
  have "rp_peak ?r = peak_holdings cluster window"
    "rp_sold ?r - rp_bought ?r = net_sold cluster (pool_sinks (cx_pool ctx)) window"
    using replay_correct [OF refl, of cluster "pool_sinks (cx_pool ctx)" window] by (auto simp: net_sold_def)
  moreover have "0 \<le> peak_holdings cluster window" by (rule peak_nonneg)
  ultimately have "rs_status (insider_verdict ctx (length cluster) window cv) = VResolved \<and>
      rs_value (insider_verdict ctx (length cluster) window cv) = Some (0 < peak_holdings cluster window \<and>
        peak_holdings cluster window \<le> 2 * net_sold cluster (pool_sinks (cx_pool ctx)) window)"
    using assms(5) by (auto simp: insider_verdict_def Let_def resolved_def)
  with run show ?thesis by blast
qed

text \<open>A chain of three transfers: mint to the insider, a move inside the cluster, a sale to the pool.\<close>

definition demo_addr :: "char \<Rightarrow> address" where
  "demo_addr c = ''0x'' @ replicate 40 c"

definition demo_transfer :: "int \<Rightarrow> char \<Rightarrow> char \<Rightarrow> transfer" where
  "demo_transfer b src dst = \<lparr>tf_block = b, tf_index = 0, tf_from = demo_addr src, tf_to = demo_addr dst, tf_value = 16\<rparr>"

definition log_of_transfer :: "transfer \<Rightarrow> rpc_log" where
  "log_of_transfer e = \<lparr>l_address = demo_addr CHR ''e'', l_topics = [transfer_topic0, address_to_topic (tf_from e),
     address_to_topic (tf_to e)], l_data = ''0x10'', l_block = Some (tf_block e), l_index = Some (tf_index e), l_tx = None\<rparr>"

definition demo_transfers :: "transfer list" where
  "demo_transfers = [demo_transfer 1 CHR ''0'' CHR ''a'', demo_transfer 2 CHR ''a'' CHR ''b'', demo_transfer 3 CHR ''b'' CHR ''d'']"

definition transfer_node :: "rpc_log list \<Rightarrow> nat \<Rightarrow> address \<Rightarrow> string list list \<Rightarrow> log_request" where
  "transfer_node logs a addr topics f t =
     (case topics of
        [_, batch] \<Rightarrow> Inr (filter (in_range f t) (filter (\<lambda>l. l_topics l ! 1 \<in> set batch) logs))
      | [_, _, batch] \<Rightarrow> Inr (filter (in_range f t) (filter (\<lambda>l. l_topics l ! 2 \<in> set batch) logs))
      | _ \<Rightarrow> Inl ''bad filter'')"

definition demo_ctx :: resolver_ctx where
  "demo_ctx =
     \<lparr>cx_client = \<lparr>lc_logs = transfer_node (map log_of_transfer demo_transfers), lc_error_name = \<lambda>_. ''''\<rparr>,
      cx_abi = \<lparr>ta_v4_swap = ''s4'', ta_v3_swap = ''s3'', ta_v2_sync = ''y2'', ta_v4_modify = ''m4'',
        ta_dec_v4 = \<lambda>_. None, ta_dec_v3 = \<lambda>_. None, ta_dec_sync = \<lambda>_. None, ta_dec_modify = \<lambda>_. None\<rparr>,
      cx_quoter = \<lambda>_ _ _ _. Inl ''execution reverted'', cx_max_range = 2,
      cx_pool = \<lparr>pl_kind = V4, pl_manager = demo_addr CHR ''d'', pl_address = None, pl_id = None, pl_token0 = False\<rparr>,
      cx_token = demo_addr CHR ''e'', cx_quote = zero_address, cx_pool_key = None, cx_decimals = 18,
      cx_launch_block = 1, cx_lp_locked = False, cx_cluster = [demo_addr CHR ''a'', demo_addr CHR ''b''],
      cx_anchor_block = 1, cx_horizon_block = 9, cx_ref_start = 1, cx_ref_end = 1\<rparr>"

lemma demo_addr_plain: "lower_char c = c \<Longrightarrow> plain_address (demo_addr c)"
  by (simp add: plain_address_def demo_addr_def lower_def map_replicate_const) (simp add: lower_char_def)

lemma demo_addr_eq [simp]: "demo_addr c = demo_addr d \<longleftrightarrow> c = d"
  by (simp add: demo_addr_def replicate_eq_replicate)

definition demo_cluster :: "address list" where
  "demo_cluster = [demo_addr CHR ''a'', demo_addr CHR ''b'']"

lemma demo_encodes: "e \<in> set demo_transfers \<Longrightarrow> encodes (log_of_transfer e) e"
  by (auto simp: demo_transfers_def encodes_def log_of_transfer_def demo_transfer_def demo_addr_plain
      lower_char_def transfer_value_def starts_with_def is_hex_digit_def lower_def parse_hex_def hex_val_def)

lemma demo_encodes_all: "list_all2 encodes (map log_of_transfer demo_transfers) demo_transfers"
  unfolding list_all2_conv_all_nth using demo_encodes by auto

lemma demo_served: "serves_transfers (cx_client demo_ctx) (cx_token demo_ctx) (map log_of_transfer demo_transfers)"
  by (simp add: serves_transfers_def demo_ctx_def transfer_node_def honest_node_def)

lemma demo_ordered: "ordered_chain (map log_of_transfer demo_transfers)"
  by (simp add: ordered_chain_def indexed_def log_order_def demo_transfers_def log_of_transfer_def demo_transfer_def)

lemma lower_demo_addr [simp]: "lower_char c = c \<Longrightarrow> lower (demo_addr c) = demo_addr c"
  using demo_addr_plain by (simp add: plain_address_def)

lemma demo_ctx_cluster: "uniq (map lower (cx_cluster demo_ctx)) = demo_cluster"
  by (simp add: demo_ctx_def demo_cluster_def lower_char_def)

theorem insider_exit_exact_witness:
  "\<exists>r. resolve_insider_exit demo_ctx = Inr r \<and> rs_status r = VResolved \<and>
     rs_value r = Some (0 < peak_holdings demo_cluster (cluster_window demo_cluster 1 9 demo_transfers) \<and>
       peak_holdings demo_cluster (cluster_window demo_cluster 1 9 demo_transfers)
         \<le> 2 * net_sold demo_cluster (pool_sinks (cx_pool demo_ctx)) (cluster_window demo_cluster 1 9 demo_transfers))"
  by (rule insider_exit_exact [OF demo_served demo_ordered demo_encodes_all])
     (simp_all add: demo_ctx_cluster, simp_all add: demo_ctx_def demo_cluster_def demo_addr_plain lower_char_def
       max_insider_logs_def demo_transfers_def)

section \<open>Price series\<close>

definition serves_logs :: "log_client \<Rightarrow> address \<Rightarrow> string list list \<Rightarrow> rpc_log list \<Rightarrow> bool" where
  "serves_logs c addr topics logs \<longleftrightarrow> (\<forall>a. honest_node logs (lc_logs c a addr topics)) \<and> sorted (map log_block logs)"

lemma chunked_logs_served:
  "serves_logs c addr topics logs \<Longrightarrow> 1 \<le> m \<Longrightarrow>
   chunked_logs c addr topics f t m = Inr (filter (in_range f t) logs)"
  by (auto simp: chunked_logs_def serves_logs_def get_logs_chunked_def request_all_windows intro!: with_retry_Inr)

lemma swap_point_block: "swap_point b s = Some p \<Longrightarrow> \<exists>o1. s = Some o1 \<and> pp_block p = so_block o1"
  by (auto simp: swap_point_def split: option.splits if_splits)

lemma sync_point_block: "sync_point b s = Some p \<Longrightarrow> \<exists>o1. s = Some o1 \<and> pp_block p = sy_block o1"
  by (auto simp: sync_point_def Let_def split: option.splits if_splits)

lemma point_of_log_block: "point_of_log abi pool l = Inr (Some p) \<Longrightarrow> pp_block p = log_block l"
  by (auto simp: point_of_log_def decode_swap_def decode_v2_sync_def
      dest!: swap_point_block sync_point_block split: pool_kind.splits sum.splits if_splits option.splits)

lemma collect_points_filter:
  assumes "\<And>l p. f l = Inr (Some p) \<Longrightarrow> pos p = P l"
  shows "collect_points f ls = Inr ps \<Longrightarrow> collect_points f (filter (\<lambda>l. Q (P l)) ls) = Inr (filter (\<lambda>p. Q (pos p)) ps)"
proof (induction ls arbitrary: ps)
  case (Cons l ls)
  then show ?case
    using assms [of l] by (auto split: sum.splits option.splits)
qed simp

lemma collect_points_sorted:
  assumes "\<And>l p. f l = Inr (Some p) \<Longrightarrow> pos p = P l"
  shows "collect_points f ls = Inr ps \<Longrightarrow> pos ` set ps \<subseteq> P ` set ls \<and> (sorted (map P ls) \<longrightarrow> sorted (map pos ps))"
proof (induction ls arbitrary: ps)
  case (Cons l ls)
  then obtain x qs where x: "f l = Inr x" "collect_points f ls = Inr qs"
      "ps = (case x of None \<Rightarrow> qs | Some p \<Rightarrow> p # qs)"
    by (auto split: sum.splits)
  with Cons.IH [of qs] assms [of l] show ?case by (auto split: option.splits)
qed simp

definition window_of :: "int \<Rightarrow> int \<Rightarrow> price_point list \<Rightarrow> price_point list" where
  "window_of f t ps = filter (\<lambda>p. f \<le> pp_block p \<and> pp_block p \<le> t) ps"

text \<open>\<open>trades\<close>: the trades of the pool, in chain order, as the decoders read them from its logs.\<close>

definition pool_trades :: "log_client \<Rightarrow> trade_abi \<Rightarrow> pool_ref \<Rightarrow> price_point list \<Rightarrow> bool" where
  "pool_trades c abi pool trades \<longleftrightarrow> (\<exists>addr topics logs. price_scan_target abi pool = Inr (addr, topics) \<and>
     serves_logs c addr topics logs \<and> length logs < max_series_logs \<and>
     collect_points (point_of_log abi pool) logs = Inr trades)"

lemma build_price_series_window:
  assumes "pool_trades c abi pool trades" "1 \<le> m"
  shows "\<exists>cv. build_price_series c abi pool f t m = Inr (window_of f t trades, cv) \<and> (f \<le> t \<longrightarrow> cv_gaps cv = [])"
proof -
  from assms(1) obtain addr topics logs where p: "price_scan_target abi pool = Inr (addr, topics)"
      "serves_logs c addr topics logs" "length logs < max_series_logs"
      "collect_points (point_of_log abi pool) logs = Inr trades"
    by (auto simp: pool_trades_def)
  let ?in = "filter (in_range f t) logs"
  have "in_range f t = (\<lambda>l. (\<lambda>b. f \<le> b \<and> b \<le> t) (log_block l))" by (auto simp: in_range_def fun_eq_iff)
  then have pts: "collect_points (point_of_log abi pool) ?in = Inr (window_of f t trades)"
    using collect_points_filter [of "point_of_log abi pool" pp_block log_block logs trades "\<lambda>b. f \<le> b \<and> b \<le> t"]
      p(4) point_of_log_block by (simp add: window_of_def)
  have "sorted (map pp_block trades)"
    using collect_points_sorted [of "point_of_log abi pool" pp_block log_block logs trades] p(2,4) point_of_log_block
    by (auto simp: serves_logs_def)
  then have sorted: "sort_key pp_block (window_of f t trades) = window_of f t trades"
    by (simp add: window_of_def sorted_filter sort_key_id_if_sorted)
  have few: "length ?in < max_series_logs"
    using p(3) le_less_trans [OF length_filter_le] by blast
  show ?thesis
  proof (cases "t < f")
    case True
    then have "window_of f t trades = []" by (auto simp: window_of_def filter_empty_conv)
    then show ?thesis using True by (simp add: build_price_series_def Let_def)
  next
    case False
    then show ?thesis
      using p(1) chunked_logs_served [OF p(2) assms(2)] pts sorted few
      by (simp add: build_price_series_def Let_def cap_gap_def new_coverage_def)
  qed
qed

lemma build_price_series_gap:
  "price_scan_target abi pool = Inl gap \<Longrightarrow> f \<le> t \<Longrightarrow>
   \<exists>cv. build_price_series c abi pool f t m = Inr ([], cv) \<and> cv_gaps cv = [gap]"
  by (simp add: build_price_series_def Let_def add_gap_def new_coverage_def)

lemma max_from_zero_fold: "foldl (\<lambda>m x. if x > m then x else m) (a::real) xs = Max (insert a (set xs))"
proof (induction xs arbitrary: a)
  case (Cons x xs)
  have "Max (insert a (set (x # xs))) = max a (Max (insert x (set xs)))" by simp
  moreover have "Max (insert (max a x) (set xs)) = max a (Max (insert x (set xs)))"
    by (cases xs) (auto simp: max.assoc)
  moreover have "(if x > a then x else a) = max a x" by (auto simp: max_def)
  ultimately show ?case using Cons.IH [of "max a x"] by simp
qed simp

lemma max_from_zero_Max: "max_from_zero xs = Max (insert 0 (set xs))"
  unfolding max_from_zero_def by (rule max_from_zero_fold)


section \<open>Drawdown, survival, sell impairment\<close>

text \<open>
  What the rule reads at the horizon: the last trade between the end of the reference
  window (or 50000 blocks before the horizon, if later) and the horizon, or the last trade
  of the reference window when that range is empty.
\<close>

definition horizon_trades :: "resolver_ctx \<Rightarrow> price_point list \<Rightarrow> price_point list" where
  "horizon_trades ctx trades =
     (let post = max (cx_ref_end ctx + 1) (max 0 (cx_horizon_block ctx - horizon_tail_blocks))
      in if post \<le> cx_horizon_block ctx then window_of post (cx_horizon_block ctx) trades
         else window_of (cx_ref_start ctx) (cx_ref_end ctx) trades)"

lemma tail_start_max:
  "drawdown_tail_start ctx = max (cx_ref_end ctx + 1) (max 0 (cx_horizon_block ctx - horizon_tail_blocks))"
  by (auto simp: drawdown_tail_start_def Let_def max_def)

definition verdict_of :: "resolution \<Rightarrow> bool option" where
  "verdict_of r = (if rs_status r = VResolved then rs_value r else None)"

lemma verdict_simps [simp]:
  "verdict_of (resolved v e c) = Some v" "verdict_of (unresolvable m cv e) = None"
  "verdict_of (not_applicable m) = None" "verdict_of (drawdown_verdict ctx ps mx px s tx cw) = Some (px / mx \<le> 2 / 10)"
  by (simp_all add: verdict_of_def resolved_def unresolvable_def not_applicable_def drawdown_verdict_def)

lemma last_opt_simps [simp]: "last_opt [] = None" "xs \<noteq> [] \<Longrightarrow> last_opt xs = Some (last xs)"
  by (simp_all add: last_opt_def)

lemma drawdown_by_quote_verdict:
  "0 < m \<Longrightarrow> verdict_of (drawdown_by_quote ctx ps m cv) =
     (case cx_pool_key ctx of
        None \<Rightarrow> None
      | Some key \<Rightarrow>
          (case cx_quoter ctx key (sell_direction (cx_token ctx) (cx_quote ctx)) (10 ^ 15) (cx_horizon_block ctx) of
             Inr out \<Rightarrow> Some (real_of_int out / 10 ^ 15 / m \<le> 2 / 10)
           | Inl msg \<Rightarrow> if classify_quote_error msg = QRevert then Some True else None))"
  by (auto simp: drawdown_by_quote_def Let_def quote_exact_in_single_def split: option.splits sum.splits)

lemma drawdown_cases:
  assumes "pool_trades (cx_client ctx) (cx_abi ctx) (cx_pool ctx) trades" "1 \<le> cx_max_range ctx"
    and "refs = window_of (cx_ref_start ctx) (cx_ref_end ctx) trades"
    and "highest = Max (insert 0 (pp_price ` set refs))" and "late = horizon_trades ctx trades"
  shows "\<exists>r. resolve_drawdown ctx = Inr r \<and> verdict_of r =
    (if highest \<le> 0 then None
     else if late \<noteq> [] then Some (pp_price (last late) / highest \<le> 2 / 10)
     else case cx_pool_key ctx of
        None \<Rightarrow> None
      | Some key \<Rightarrow>
          (case cx_quoter ctx key (sell_direction (cx_token ctx) (cx_quote ctx)) (10 ^ 15) (cx_horizon_block ctx) of
             Inr out \<Rightarrow> Some (real_of_int out / 10 ^ 15 / highest \<le> 2 / 10)
           | Inl msg \<Rightarrow> if classify_quote_error msg = QRevert then Some True else None))"
proof -
  have h: "max_from_zero (map pp_price refs) = highest"
    by (simp add: max_from_zero_Max assms(4))
  have series: "\<exists>cv. build_price_series (cx_client ctx) (cx_abi ctx) (cx_pool ctx) f t (cx_max_range ctx)
      = Inr (window_of f t trades, cv)" for f t
    using build_price_series_window [OF assms(1,2)] by blast
  obtain cv where ref: "build_price_series (cx_client ctx) (cx_abi ctx) (cx_pool ctx)
      (cx_ref_start ctx) (cx_ref_end ctx) (cx_max_range ctx) = Inr (refs, cv)"
    using series assms(3) by blast
  obtain cv2 where post: "build_price_series (cx_client ctx) (cx_abi ctx) (cx_pool ctx)
      (drawdown_tail_start ctx) (cx_horizon_block ctx) (cx_max_range ctx)
      = Inr (window_of (drawdown_tail_start ctx) (cx_horizon_block ctx) trades, cv2)"
    using series by blast
  have late: "late = (if drawdown_tail_start ctx \<le> cx_horizon_block ctx
      then window_of (drawdown_tail_start ctx) (cx_horizon_block ctx) trades else refs)"
    by (simp add: assms(3,5) horizon_trades_def tail_start_max Let_def)
  show ?thesis
  proof (cases "highest \<le> 0")
    case True
    then show ?thesis using ref h by (simp add: resolve_drawdown_def Let_def)
  next
    case pos: False
    show ?thesis
    proof (cases "late = []")
      case True
      then show ?thesis
        using ref h post late pos
        by (auto simp: resolve_drawdown_def Let_def drawdown_by_quote_verdict split: if_splits)
    next
      case False
      then show ?thesis
        using ref h post late pos by (auto simp: resolve_drawdown_def Let_def split: if_splits)
    qed
  qed
qed

text \<open>
  C18: With the pool's trades served in full, \<open>DRAWDOWN_80\<close> follows its rule on every branch:
  no positive price in the reference window resolves nothing; otherwise the last trade of
  \<open>horizon_trades\<close> against the window's highest price decides; a silent token is quoted
  at the horizon, a revert there counts as a price of 0, any other failure, or no v4
  pool to quote, resolves nothing.
\<close>

theorem drawdown_exact:
  assumes "pool_trades (cx_client ctx) (cx_abi ctx) (cx_pool ctx) trades" "1 \<le> cx_max_range ctx"
    and "refs = window_of (cx_ref_start ctx) (cx_ref_end ctx) trades"
    and "highest = Max (insert 0 (pp_price ` set refs))" and "late = horizon_trades ctx trades"
  shows "\<exists>r. resolve_drawdown ctx = Inr r \<and> verdict_of r =
    (if highest \<le> 0 then None
     else if late \<noteq> [] then Some (pp_price (last late) / highest \<le> 2 / 10)
     else case cx_pool_key ctx of
        None \<Rightarrow> None
      | Some key \<Rightarrow>
          (case cx_quoter ctx key (sell_direction (cx_token ctx) (cx_quote ctx)) (10 ^ 15) (cx_horizon_block ctx) of
             Inr out \<Rightarrow> Some (real_of_int out / 10 ^ 15 / highest \<le> 2 / 10)
           | Inl msg \<Rightarrow> if classify_quote_error msg = QRevert then Some True else None))"
  using assms by (rule drawdown_cases)

text \<open>
  With the pool's trades served in full, \<open>TRADING_ALIVE\<close> is resolved, and true exactly
  when some trade lies in the 216000 blocks up to the horizon.
\<close>

theorem survival_exact:
  assumes "pool_trades (cx_client ctx) (cx_abi ctx) (cx_pool ctx) trades" "1 \<le> cx_max_range ctx" "0 \<le> cx_horizon_block ctx"
  shows "verdict_of (resolve_survival ctx) =
    Some (\<exists>p \<in> set trades. cx_horizon_block ctx - alive_window_blocks \<le> pp_block p \<and> 0 \<le> pp_block p \<and>
      pp_block p \<le> cx_horizon_block ctx)"
proof -
  let ?from = "if cx_horizon_block ctx > alive_window_blocks then cx_horizon_block ctx - alive_window_blocks else 0"
  have le: "?from \<le> cx_horizon_block ctx" using assms(3) by (simp add: alive_window_blocks_def)
  obtain cv where "build_price_series (cx_client ctx) (cx_abi ctx) (cx_pool ctx) ?from (cx_horizon_block ctx)
      (cx_max_range ctx) = Inr (window_of ?from (cx_horizon_block ctx) trades, cv)" "cv_gaps cv = []"
    using build_price_series_window [OF assms(1,2), of ?from "cx_horizon_block ctx"] le by blast
  then have "verdict_of (resolve_survival ctx) = Some (window_of ?from (cx_horizon_block ctx) trades \<noteq> [])"
    by (simp add: resolve_survival_def Let_def)
  moreover have "?from \<le> b \<longleftrightarrow> cx_horizon_block ctx - alive_window_blocks \<le> b \<and> 0 \<le> b" for b
    by (auto simp: alive_window_blocks_def)
  ultimately show ?thesis
    by (simp add: window_of_def filter_empty_conv) blast
qed

lemma survival_unscannable:
  assumes "pl_id (cx_pool ctx) = None" "pl_address (cx_pool ctx) = None" "0 \<le> cx_horizon_block ctx"
  shows "verdict_of (resolve_survival ctx) = Some False"
proof -
  let ?from = "if cx_horizon_block ctx > alive_window_blocks then cx_horizon_block ctx - alive_window_blocks else 0"
  have le: "?from \<le> cx_horizon_block ctx" using assms(3) by (simp add: alive_window_blocks_def)
  obtain gap where target: "price_scan_target (cx_abi ctx) (cx_pool ctx) = Inl gap"
      and gap: "gap = ''v4 pool has no poolId'' \<or> (\<exists>k. gap = pool_kind_name k @ '' pool has no poolAddress'')"
    using assms(1,2) by (cases "pl_kind (cx_pool ctx) = V4") (auto simp: price_scan_target_def)
  obtain cv where s: "build_price_series (cx_client ctx) (cx_abi ctx) (cx_pool ctx) ?from (cx_horizon_block ctx)
      (cx_max_range ctx) = Inr ([], cv)" "cv_gaps cv = [gap]"
    using build_price_series_gap [OF target le] by blast
  have "\<not> mentions [''network'', ''busy'', ''timeout'', ''log cap''] (lower (pool_kind_name k @ '' pool has no poolAddress''))" for k
    by (cases k) (simp_all add: mentions_def lower_def lower_char_def starts_with_def pool_kind_name_def)
  moreover have "\<not> mentions [''network'', ''busy'', ''timeout'', ''log cap''] (lower ''v4 pool has no poolId'')"
    by (simp add: mentions_def lower_def lower_char_def starts_with_def)
  ultimately have "\<not> mentions [''network'', ''busy'', ''timeout'', ''log cap''] (lower gap)"
    using gap by blast
  then show ?thesis
    using s by (simp add: resolve_survival_def Let_def)
qed

text \<open>
  A pool that cannot be scanned at all, a v4 pool without an id or a v2 or v3 pool without
  an address, is resolved as dead: the gap's text passes the check that keeps failed scans
  from being outcomes.
\<close>

theorem survival_reads_unscannable_as_dead:
  assumes "pl_id (cx_pool ctx) = None" "pl_address (cx_pool ctx) = None" "0 \<le> cx_horizon_block ctx"
  shows "verdict_of (resolve_survival ctx) = Some False"
  using assms by (rule survival_unscannable)

text \<open>
  \<open>SELL_IMPAIRED\<close> is resolved only on two successful quotes, the spot quote positive or
  negative but not 0, and then true exactly when the bulk price is at most 70 percent of
  the spot price; a failed quote never becomes an outcome.
\<close>

theorem sell_impaired_needs_quotes:
  assumes "verdict_of (resolve_sell_impaired ctx) = Some v"
    and "\<And>key dir amount b out. cx_quoter ctx key dir amount b = Inr out \<Longrightarrow> 0 \<le> out"
  shows "\<exists>key spot bulk size. \<not> cx_lp_locked ctx \<and> cx_pool_key ctx = Some key \<and>
    cx_quoter ctx key (sell_direction (cx_token ctx) (cx_quote ctx)) (10 ^ 12) (cx_horizon_block ctx) = Inr spot \<and> 0 < spot \<and>
    size = 100 * 10 ^ cx_decimals ctx * 10 ^ 12 div spot \<and> 0 < size \<and>
    cx_quoter ctx key (sell_direction (cx_token ctx) (cx_quote ctx)) size (cx_horizon_block ctx) = Inr bulk \<and>
    v = (real_of_int bulk / real_of_int size \<le> 7 / 10 * (real_of_int spot / 10 ^ 12))"
proof -
  let ?q = "\<lambda>key amount. cx_quoter ctx key (sell_direction (cx_token ctx) (cx_quote ctx)) amount (cx_horizon_block ctx)"
  from assms(1) obtain key spot where k: "\<not> cx_lp_locked ctx" "cx_pool_key ctx = Some key" "?q key (10 ^ 12) = Inr spot" "spot \<noteq> 0"
    by (auto simp: resolve_sell_impaired_def Let_def quote_exact_in_single_def split: if_splits option.splits sum.splits)
  define size where "size = 100 * 10 ^ cx_decimals ctx * 10 ^ 12 div spot"
  have spot: "0 < spot" using assms(2) [OF k(3)] k(4) by simp
  from assms(1) k obtain bulk where b: "0 < size" "?q key size = Inr bulk"
    by (auto simp: resolve_sell_impaired_def Let_def quote_exact_in_single_def size_def split: if_splits sum.splits)
  let ?s = "real_of_int spot / 10 ^ 12" and ?b = "real_of_int bulk / real_of_int size"
  have pos: "0 < ?s" using spot by simp
  have "v = (?b \<le> 7 / 10 * ?s)"
  proof (cases "bulk = 0")
    case True
    then show ?thesis
      using assms(1) k b pos by (auto simp: resolve_sell_impaired_def Let_def quote_exact_in_single_def size_def)
  next
    case False
    have "(max 0 (1 - ?b / ?s) \<ge> 3 / 10) = (?b / ?s \<le> 7 / 10)" by (simp add: max_def)
    also have "\<dots> = (?b \<le> 7 / 10 * ?s)" by (rule pos_divide_le_eq [OF pos])
    finally have "(max 0 (1 - ?b / ?s) \<ge> 3 / 10) = (?b \<le> 7 / 10 * ?s)" .
    then show ?thesis
      using assms(1) k b False by (auto simp: resolve_sell_impaired_def Let_def quote_exact_in_single_def size_def)
  qed
  then show ?thesis using k spot b size_def by blast
qed

section \<open>Concrete pools\<close>

text \<open>A v4 pool with a trade in block 3 and one in block 20; the reference window is blocks 1 to 10.\<close>

definition pool_log :: "int \<Rightarrow> rpc_log" where
  "pool_log b = \<lparr>l_address = ''0xm'', l_topics = [''s4'', ''0xp''], l_data = ''0x'', l_block = Some b, l_index = Some 0,
     l_tx = None\<rparr>"

definition demo_sqrt :: "int \<Rightarrow> int" where
  "demo_sqrt b = (if b \<le> 10 then 178046000000000000000 else 109900000000000000000)"

definition pool_ctx :: resolver_ctx where
  "pool_ctx = demo_ctx
     \<lparr>cx_client := \<lparr>lc_logs = \<lambda>_ _ _ f t. Inr (filter (in_range f t) [pool_log 3, pool_log 20]), lc_error_name = \<lambda>_. ''''\<rparr>,
      cx_abi := (cx_abi demo_ctx)\<lparr>ta_dec_v4 := \<lambda>l. Some \<lparr>sa_sqrt = demo_sqrt (log_block l), sa_liquidity = 0,
        sa_amount0 = 0, sa_amount1 = 0\<rparr>\<rparr>,
      cx_pool := \<lparr>pl_kind = V4, pl_manager = ''0xm'', pl_address = None, pl_id = Some ''0xp'', pl_token0 = True\<rparr>,
      cx_ref_end := 10, cx_horizon_block := 30\<rparr>"

definition pool_point :: "int \<Rightarrow> price_point" where
  "pool_point b = \<lparr>pp_block = b, pp_price = token_price_in_quote (demo_sqrt b) True, pp_tx = None\<rparr>"

lemma pool_ctx_trades: "pool_trades (cx_client pool_ctx) (cx_abi pool_ctx) (cx_pool pool_ctx) [pool_point 3, pool_point 20]"
  unfolding pool_trades_def
  by (rule exI [of _ "''0xm''"], rule exI [of _ "[[''s4''], [''0xp'']]"], rule exI [of _ "[pool_log 3, pool_log 20]"])
     (simp add: pool_ctx_def demo_ctx_def price_scan_target_def serves_logs_def honest_node_def pool_log_def log_block_def
       max_series_logs_def point_of_log_def decode_swap_def swap_point_def pool_point_def demo_sqrt_def lower_def)

lemma pool_prices: "pp_price (pool_point 3) = 5 / 10 ^ 18" "pp_price (pool_point 20) = 1 / 10 ^ 18"
  by (simp_all add: pool_point_def demo_sqrt_def token_price_in_quote_def sqrt_price_to_price0in1_def q96_def)

lemma pool_windows:
  "window_of (cx_ref_start pool_ctx) (cx_ref_end pool_ctx) [pool_point 3, pool_point 20] = [pool_point 3]"
  "horizon_trades pool_ctx [pool_point 3, pool_point 20] = [pool_point 20]"
  by (simp_all add: pool_ctx_def demo_ctx_def window_of_def horizon_trades_def horizon_tail_blocks_def pool_point_def)

theorem drawdown_exact_witness:
  "\<exists>r. resolve_drawdown pool_ctx = Inr r \<and> verdict_of r =
    (if Max (insert 0 {5 / 10 ^ 18 :: real}) \<le> 0 then None
     else Some (1 / 10 ^ 18 / Max (insert 0 {5 / 10 ^ 18 :: real}) \<le> 2 / 10))"
  using drawdown_exact [OF pool_ctx_trades _ refl refl refl]
  by (simp add: pool_windows pool_prices) (simp add: pool_ctx_def demo_ctx_def)

text \<open>
  Prices are floored to multiples of 1e-18 before they are compared: this token lost 62
  percent of its price, but the floored prices are 5 and 1 units, so \<open>DRAWDOWN_80\<close> is
  resolved as true.
\<close>

theorem drawdown_quantised_false_positive:
  "(\<exists>r. resolve_drawdown pool_ctx = Inr r \<and> verdict_of r = Some True) \<and>
   (real_of_int (demo_sqrt 20) / real_of_int (demo_sqrt 3))\<^sup>2 > 38 / 100"
proof
  show "\<exists>r. resolve_drawdown pool_ctx = Inr r \<and> verdict_of r = Some True"
    using drawdown_cases [OF pool_ctx_trades _ refl refl refl]
    by (simp add: pool_windows pool_prices) (simp add: pool_ctx_def demo_ctx_def)
qed (simp add: demo_sqrt_def power_divide)

theorem survival_exact_witness:
  "verdict_of (resolve_survival pool_ctx) =
    Some (\<exists>p \<in> set [pool_point 3, pool_point 20]. 30 - alive_window_blocks \<le> pp_block p \<and> 0 \<le> pp_block p \<and> pp_block p \<le> 30)"
  using survival_exact [OF pool_ctx_trades] by (simp add: pool_ctx_def demo_ctx_def)

theorem survival_reads_unscannable_as_dead_witness: "verdict_of (resolve_survival demo_ctx) = Some False"
  by (rule survival_reads_unscannable_as_dead) (simp_all add: demo_ctx_def)

text \<open>A quoter that pays half of the amount on a bulk sale and all of it on the spot quote.\<close>

definition quote_ctx :: resolver_ctx where
  "quote_ctx = demo_ctx\<lparr>cx_pool_key := Some \<lparr>pk_currency0 = zero_address, pk_currency1 = demo_addr CHR ''e'', pk_fee = 1,
      pk_tick_spacing = 1, pk_hooks = zero_address\<rparr>,
    cx_quoter := \<lambda>_ _ amount _. Inr (if amount \<le> 10 ^ 12 then max 0 amount else amount div 2)\<rparr>"

theorem sell_impaired_needs_quotes_witness:
  "\<exists>key spot bulk size. \<not> cx_lp_locked quote_ctx \<and> cx_pool_key quote_ctx = Some key \<and>
    cx_quoter quote_ctx key (sell_direction (cx_token quote_ctx) (cx_quote quote_ctx)) (10 ^ 12) (cx_horizon_block quote_ctx)
      = Inr spot \<and> 0 < spot \<and>
    size = 100 * 10 ^ cx_decimals quote_ctx * 10 ^ 12 div spot \<and> 0 < size \<and>
    cx_quoter quote_ctx key (sell_direction (cx_token quote_ctx) (cx_quote quote_ctx)) size (cx_horizon_block quote_ctx)
      = Inr bulk \<and>
    True = (real_of_int bulk / real_of_int size \<le> 7 / 10 * (real_of_int spot / 10 ^ 12))"
proof (rule sell_impaired_needs_quotes)
  show "verdict_of (resolve_sell_impaired quote_ctx) = Some True"
    by (simp add: quote_ctx_def demo_ctx_def resolve_sell_impaired_def Let_def quote_exact_in_single_def)
qed (auto simp: quote_ctx_def split: if_splits)

section \<open>The dispatcher\<close>

definition hex_address :: "address \<Rightarrow> bool" where
  "hex_address a \<longleftrightarrow> plain_address a \<and> list_all is_hex_digit (drop 2 a)"

lemma hex_digit_ge: "is_hex_digit c \<Longrightarrow> CHR ''0'' \<le> c"
  by (auto simp: is_hex_digit_def less_eq_char_def)

lemma zeros_least: "list_all is_hex_digit xs \<Longrightarrow> replicate (length xs) (CHR ''0'') \<le> xs"
proof (induction xs)
  case (Cons c cs)
  then show ?case using hex_digit_ge [of c] by (auto simp: order_le_less)
qed simp

lemma zero_address_least:
  assumes "hex_address a" "a \<noteq> zero_address" shows "zero_address < a"
proof -
  from assms have a: "take 2 a = ''0x''" "length a = 42" "list_all is_hex_digit (drop 2 a)"
    by (auto simp: hex_address_def plain_address_def)
  have eq: "a = ''0x'' @ drop 2 a" using a(1) append_take_drop_id [of 2 a] by simp
  have "replicate 40 (CHR ''0'') \<le> drop 2 a"
    using zeros_least [OF a(3)] a(2) by simp
  then have "replicate 40 (CHR ''0'') < drop 2 a"
    using eq assms(2) by (auto simp: order_le_less zero_address_def)
  then have "''0x'' @ replicate 40 (CHR ''0'') < ''0x'' @ drop 2 a" by simp
  then show ?thesis using eq by (metis zero_address_def)
qed

text \<open>
  The pool key the dispatcher builds holds the token and the paired asset in Uniswap's
  currency order, and the price direction of the series and the swap direction of the
  sell quotes both agree with the slot the token is in.
\<close>

theorem pool_key_agrees:
  assumes "pool_key_of_launch la = Some key" "token = lower (la_token la)"
    and "quote = lower (nullish (la_quote la) zero_address)"
    and "hex_address token" "token \<noteq> quote" "token \<noteq> zero_address"
  shows "{pk_currency0 key, pk_currency1 key} = {token, quote} \<and> pk_currency0 key < pk_currency1 key \<and>
    (sell_direction token quote \<longleftrightarrow> pk_currency0 key = token) \<and>
    (pl_token0 (pool_of_launch la manager) \<longleftrightarrow> pk_currency0 key = token)"
proof -
  have low: "lower token = token" "lower quote = quote" by (simp_all add: assms(2,3))
  have "pk_currency0 key = (if quote = zero_address then zero_address else if token < quote then token else quote)"
    "pk_currency1 key = (if quote = zero_address then token else if token < quote then quote else token)"
    using assms(1) by (auto simp: pool_key_of_launch_def Let_def assms(2,3) split: option.splits if_splits)
  moreover have "zero_address < token" using zero_address_least assms(4,6) by blast
  moreover have "pl_token0 (pool_of_launch la manager) = (if quote = zero_address then False else token < quote)"
    by (simp add: pool_of_launch_def Let_def assms(2,3))
  ultimately show ?thesis
    using assms(5,6) low by (auto simp: sell_direction_def not_less_iff_gr_or_eq)
qed

definition demo_launch :: launch_row where
  "demo_launch = \<lparr>la_token = demo_addr CHR ''e'', la_quote = None, la_pool_kind = None, la_pool_address = None,
     la_pool_id = Some ''0xp'', la_pool_fee = Some 3000, la_tick_spacing = Some 60, la_hooks = None, la_block = 1,
     la_lp_locked = False\<rparr>"

lemma lower_zero_address [simp]: "lower zero_address = zero_address"
  by (simp add: zero_address_def lower_def map_replicate_const lower_char_def)

theorem pool_key_agrees_witness:
  "{zero_address, demo_addr CHR ''e''} = {demo_addr CHR ''e'', zero_address} \<and> zero_address < demo_addr CHR ''e'' \<and>
   (sell_direction (demo_addr CHR ''e'') zero_address \<longleftrightarrow> zero_address = demo_addr CHR ''e'') \<and>
   (pl_token0 (pool_of_launch demo_launch ''0xm'') \<longleftrightarrow> zero_address = demo_addr CHR ''e'')"
proof -
  have key: "pool_key_of_launch demo_launch = Some \<lparr>pk_currency0 = zero_address, pk_currency1 = demo_addr CHR ''e'',
      pk_fee = 3000, pk_tick_spacing = 60, pk_hooks = zero_address\<rparr>"
    by (simp add: pool_key_of_launch_def demo_launch_def Let_def lower_char_def)
  have ne: "demo_addr CHR ''e'' \<noteq> zero_address" by (simp add: demo_addr_def zero_address_def)
  have hex: "hex_address (demo_addr CHR ''e'')"
    by (simp add: hex_address_def demo_addr_plain lower_char_def) (simp add: demo_addr_def is_hex_digit_def list_all_length)
  show ?thesis
    using pool_key_agrees [OF key, of "demo_addr CHR ''e''" zero_address "''0xm''"] hex ne
    by (simp add: demo_launch_def lower_char_def)
qed

lemma reference_window_memo:
  "\<exists>t. snd (reference_window nodes row a m) = m \<or>
     snd (reference_window nodes row a m) = snd (block_at_time (nodes 2) (of_chain row) default_max_iters 1 t m)"
proof (cases "of_trigger row = TrigLaunch \<or> of_trigger row = TrigQualified")
  case True
  then show ?thesis
    by (intro exI [of _ "of_anchor row + h24_ms"]) (simp add: reference_window_def split: prod.split sum.split)
next
  case False
  then show ?thesis
    by (intro exI [of _ "of_anchor row - h24_ms"]) (simp add: reference_window_def split: prod.split sum.split)
qed

text \<open>
  A row becomes an outcome only when its launch is on file, its horizon is set, its cell
  applies to the token and both blocks were found; everything else is not applicable,
  unresolvable or an error.
\<close>

theorem resolved_rows_are_measurable:
  assumes "resolve_one_outcome w row memo = (Inr r, memo')" "verdict_of r = Some v"
  shows "\<exists>lid la h anchor horizon_block. of_launch row = Some lid \<and> rw_launches w lid = Some la \<and> of_horizon_at row = Some h \<and>
    outcome_applies (of_label row, of_horizon row) (la_lp_locked la) \<and>
    rm_blocks memo' (of_chain row, of_anchor row div 1000) = Some anchor \<and>
    rm_blocks memo' (of_chain row, h div 1000) = Some horizon_block"
proof -
  have keeps: "snd (block_at_time n c i m t memo) k = Some b" if "memo k = Some b" for n c i m t memo k b
    using that by (auto simp: block_at_time_def Let_def split: option.splits sum.splits)
  have stored: "memo' (c, t div 1000) = Some b" if "block_at_time n c i m t memo = (Inr b, memo')" for n c i m t memo memo' b
    using that by (auto simp: block_at_time_def Let_def split: option.splits sum.splits if_splits)
  from assms obtain lid la h where r: "of_launch row = Some lid" "rw_launches w lid = Some la" "of_horizon_at row = Some h"
      "outcome_applies (of_label row, of_horizon row) (la_lp_locked la)"
    by (auto simp: resolve_one_outcome_def split: option.splits if_splits)
  with assms obtain manager where m: "rw_manager w (of_chain row) = Inr manager"
    by (auto simp: resolve_one_outcome_def split: sum.splits)
  obtain a1 m1 where b1: "block_at_time (rw_blocks w 0) (of_chain row) default_max_iters 1 (of_anchor row) (rm_blocks memo) = (a1, m1)"
    by fastforce
  from assms r m b1 obtain anchor where a1: "a1 = Inr anchor"
    by (auto simp: resolve_one_outcome_def split: sum.splits)
  obtain a2 m2 where b2: "block_at_time (rw_blocks w 1) (of_chain row) default_max_iters 1 h m1 = (a2, m2)"
    by fastforce
  from assms r m b1 a1 b2 obtain hb where a2: "a2 = Inr hb"
    by (auto simp: resolve_one_outcome_def split: sum.splits)
  obtain a3 m3 where b3: "reference_window (rw_blocks w) row anchor m2 = (a3, m3)" by fastforce
  have m3: "rm_blocks memo' = m3"
    using assms r m b1 a1 b2 a2 b3 by (auto simp: resolve_one_outcome_def Let_def split: sum.splits prod.splits)
  have ref_keeps: "m3 k = Some b" if "m2 k = Some b" for k b
    using b3 reference_window_memo [of "rw_blocks w" row anchor m2] keeps [of m2 k b, OF that] that by auto
  have "m1 (of_chain row, of_anchor row div 1000) = Some anchor" using stored b1 a1 by simp
  then have "m2 (of_chain row, of_anchor row div 1000) = Some anchor" using keeps b2 by (metis snd_conv)
  moreover have "m2 (of_chain row, h div 1000) = Some hb" using stored b2 a2 by simp
  ultimately show ?thesis using r ref_keeps m3 by blast
qed

definition demo_world :: resolver_world where
  "demo_world =
     \<lparr>rw_launches = [''L'' \<mapsto> demo_launch\<lparr>la_pool_id := None\<rparr>], rw_members = \<lambda>_. [], rw_manager = \<lambda>_. Inr ''0xm'',
      rw_quoter = \<lambda>_. cx_quoter demo_ctx, rw_max_range = \<lambda>_. Inr 2, rw_decimals = \<lambda>_. Inr 18,
      rw_blocks = \<lambda>_. second_per_block 4, rw_client = cx_client demo_ctx, rw_abi = cx_abi demo_ctx\<rparr>"

definition demo_row :: outcome_ref where
  "demo_row = \<lparr>of_chain = 4663, of_anchor = 5000, of_trigger = TrigLaunch, of_launch = Some ''L'', of_label = TradingAlive,
     of_horizon = H24, of_horizon_at = Some 9000\<rparr>"

theorem resolved_rows_are_measurable_witness:
  "\<exists>memo' :: resolver_memo. \<exists>lid la h anchor horizon_block. of_launch demo_row = Some lid \<and> rw_launches demo_world lid = Some la \<and>
    of_horizon_at demo_row = Some h \<and> outcome_applies (of_label demo_row, of_horizon demo_row) (la_lp_locked la) \<and>
    rm_blocks memo' (of_chain demo_row, of_anchor demo_row div 1000) = Some anchor \<and>
    rm_blocks memo' (of_chain demo_row, h div 1000) = Some horizon_block"
proof -
  have "\<exists>ctx memo'. resolve_one_outcome demo_world demo_row \<lparr>rm_blocks = Map.empty, rm_decimals = Map.empty\<rparr> =
      (Inr (resolve_survival ctx), memo') \<and> pl_id (cx_pool ctx) = None \<and> pl_address (cx_pool ctx) = None \<and>
      cx_horizon_block ctx = 4"
    by (simp add: resolve_one_outcome_def demo_world_def demo_row_def demo_launch_def outcome_applies_def block_at_time_def
        second_per_block_def Let_def reference_window_def quote_decimals_def resolve_by_label_def pool_of_launch_def)
      (rule exI, rule conjI, rule refl, simp)
  then obtain ctx memo' where run: "resolve_one_outcome demo_world demo_row \<lparr>rm_blocks = Map.empty, rm_decimals = Map.empty\<rparr> =
      (Inr (resolve_survival ctx), memo')" "pl_id (cx_pool ctx) = None" "pl_address (cx_pool ctx) = None" "cx_horizon_block ctx = 4"
    by blast
  then have "verdict_of (resolve_survival ctx) = Some False"
    by (intro survival_unscannable) simp_all
  from resolved_rows_are_measurable [OF run(1) this] show ?thesis by blast
qed

section \<open>The shape of a resolution\<close>

definition resolution_ok :: "resolution \<Rightarrow> bool" where
  "resolution_ok r =
     (case rs_status r of
        VResolved \<Rightarrow> rs_value r \<noteq> None \<and> rs_coverage r \<noteq> None \<and> rs_reason r = None
      | VNotApplicable \<Rightarrow> rs_value r = None \<and> rs_coverage r = None \<and> rs_reason r \<notin> {None, Some []}
      | VUnresolvable \<Rightarrow> rs_value r = None \<and> rs_reason r \<notin> {None, Some []})"

lemma resolution_ok_simps [simp]:
  "resolution_ok (resolved v e c)" "resolution_ok (unresolvable m cv e) \<longleftrightarrow> m \<noteq> []"
  "resolution_ok (not_applicable m) \<longleftrightarrow> m \<noteq> []" "resolution_ok (drawdown_verdict ctx ps mx px s tx cw)"
  by (simp_all add: resolution_ok_def resolved_def unresolvable_def not_applicable_def drawdown_verdict_def)

lemma resolution_ok_quote [simp]: "resolution_ok (drawdown_by_quote ctx ps mx cv)"
  by (simp add: drawdown_by_quote_def Let_def split: option.split quote_outcome.split)

lemma resolvers_ok:
  "resolve_drawdown ctx = Inr r \<Longrightarrow> resolution_ok r"
  "resolution_ok (resolve_sell_impaired ctx)"
  "resolve_liq_impaired ctx = Inr r \<Longrightarrow> resolution_ok r"
  "resolve_insider_exit ctx = Inr r \<Longrightarrow> resolution_ok r"
  "resolution_ok (resolve_survival ctx)"
proof -
  show "resolve_drawdown ctx = Inr r \<Longrightarrow> resolution_ok r"
    by (auto simp: resolve_drawdown_def Let_def split: sum.splits prod.splits if_splits option.splits)
  show "resolution_ok (resolve_sell_impaired ctx)"
    by (simp add: resolve_sell_impaired_def Let_def split: option.split quote_outcome.split)
  show "resolve_liq_impaired ctx = Inr r \<Longrightarrow> resolution_ok r"
    by (auto simp: resolve_liq_impaired_def Let_def split: sum.splits prod.splits if_splits)
  show "resolve_insider_exit ctx = Inr r \<Longrightarrow> resolution_ok r"
    by (auto simp: resolve_insider_exit_def insider_verdict_def Let_def split: sum.splits if_splits)
  show "resolution_ok (resolve_survival ctx)"
    by (simp add: resolve_survival_def Let_def split: sum.split prod.split)
qed

lemma resolve_by_label_ok: "resolve_by_label l ctx = Inr r \<Longrightarrow> resolution_ok r"
  by (cases l) (auto simp: resolve_by_label_def intro: resolvers_ok)



end
