(* ===== verification/OutcomeSweep.thy ===== *)
theory OutcomeSweep
  imports OutcomeResolve
begin

text \<open>
  The sweep over the outcome table (\<open>apps/worker/src/outcomes/loop.ts\<close>) and the rows it
  works on (\<open>enumerate.ts\<close>): which pending rows a sweep picks, how it spreads over the
  labels, what it writes for a measured, a deferred, a given-up and a failed row, and the
  workers that settle the picked rows concurrently.  The table is a map from row ids;
  what a measurement settles to is a parameter, with \<open>resolve_one_outcome\<close> as its model.
  Log lines, failures of the database itself and \<open>recordFailure\<close> are left out.
\<close>


section \<open>Rows\<close>

datatype outcome_status = OPending | OResolved | ONotApplicable | OUnresolvable

text \<open>
  The \<open>evidence\<close> column: empty, the deferral record, the record of giving up, or the
  measurements of a verdict.  \<open>firstDeferredAt\<close> is the time its ISO text names.
\<close>

datatype row_evidence =
    NoEvidence
  | DeferredEvidence millis nat string
  | GaveUpEvidence string millis nat
  | MeasuredEvidence "string option" evidence

record outcome_row =
  or_chain :: nat
  or_token :: address
  or_anchor :: millis
  or_label :: outcome_label
  or_horizon :: horizon
  or_horizon_at :: "millis option"
  or_status :: outcome_status
  or_value :: "bool option"
  or_evidence :: row_evidence
  or_coverage :: "coverage option"
  or_measured :: "millis option"
  or_qualified :: bool             \<comment> \<open>the launch's lane is \<open>qualified\<close>\<close>
  or_retrospective :: bool

text \<open>\<open>row.evidence.firstDeferredAt\<close> and \<open>row.evidence.deferrals\<close>.\<close>

definition first_deferred :: "row_evidence \<Rightarrow> millis option" where
  "first_deferred e =
     (case e of DeferredEvidence t _ _ \<Rightarrow> Some t | GaveUpEvidence _ t _ \<Rightarrow> Some t | _ \<Rightarrow> None)"

definition deferral_count :: "row_evidence \<Rightarrow> nat" where
  "deferral_count e = (case e of DeferredEvidence _ n _ \<Rightarrow> n | GaveUpEvidence _ _ n \<Rightarrow> n | _ \<Rightarrow> 0)"


section \<open>Creating the grid of a report\<close>

text \<open>\<open>ensureOutcomeRows\<close>: the rows of one report, and the insert that skips duplicates of the unique key.\<close>

type_synonym row_key = "nat \<times> address \<times> millis \<times> outcome_label \<times> horizon"

definition row_key :: "outcome_row \<Rightarrow> row_key" where
  "row_key r = (or_chain r, or_token r, or_anchor r, or_label r, or_horizon r)"

definition grid_row :: "nat \<Rightarrow> address \<Rightarrow> millis \<Rightarrow> bool \<Rightarrow> bool \<Rightarrow> bool \<Rightarrow> outcome_key \<Rightarrow> outcome_row" where
  "grid_row chain token anchor locked qualified retro key =
     \<lparr>or_chain = chain, or_token = lower token, or_anchor = anchor, or_label = fst key, or_horizon = snd key,
      or_horizon_at = Some (anchor + horizon_to_ms (snd key)),
      or_status = (if outcome_applies key locked then OPending else ONotApplicable), or_value = None,
      or_evidence = NoEvidence, or_coverage = None, or_measured = None, or_qualified = qualified,
      or_retrospective = retro\<rparr>"

fun insert_rows :: "outcome_row list \<Rightarrow> outcome_row list \<Rightarrow> outcome_row list \<times> nat" where
  "insert_rows [] table = (table, 0)"
| "insert_rows (r # rs) table =
     (if row_key r \<in> row_key ` set table then insert_rows rs table
      else case insert_rows rs (table @ [r]) of (t, n) \<Rightarrow> (t, Suc n))"

definition ensure_outcome_rows ::
    "nat \<Rightarrow> address \<Rightarrow> millis \<Rightarrow> bool \<Rightarrow> bool \<Rightarrow> bool \<Rightarrow> outcome_row list \<Rightarrow> outcome_row list \<times> nat" where
  "ensure_outcome_rows chain token anchor locked qualified retro table =
     insert_rows (map (grid_row chain token anchor locked qualified retro) all_outcome_keys) table"


section \<open>Which rows a sweep picks\<close>

datatype sweep_order = ByHorizon | BySpread | ByFair

record sweep_filter =
  sf_qualified_only :: bool
  sf_concurrency :: nat
  sf_only :: "outcome_label list"
  sf_exclude :: "outcome_label list"
  sf_order :: sweep_order
  sf_backoff :: millis
  sf_give_up :: millis
  sf_lane_qualified :: bool

definition default_backoff_ms :: millis where "default_backoff_ms = 30 * 60000"
definition default_give_up_ms :: millis where "default_give_up_ms = 24 * 3600000"

definition default_filter :: sweep_filter where
  "default_filter = \<lparr>sf_qualified_only = False, sf_concurrency = 1, sf_only = [], sf_exclude = [], sf_order = ByHorizon,
     sf_backoff = default_backoff_ms, sf_give_up = default_give_up_ms, sf_lane_qualified = False\<rparr>"

definition all_outcome_labels :: "outcome_label list" where
  "all_outcome_labels = [InsiderExit, SellImpaired, LiqImpaired, Drawdown80, TradingAlive]"

text \<open>The \<open>where\<close> clause but for its label key.\<close>

definition row_due :: "millis \<Rightarrow> sweep_filter \<Rightarrow> outcome_row \<Rightarrow> bool" where
  "row_due now f r \<longleftrightarrow>
     or_status r = OPending \<and>
     (case or_horizon_at r of None \<Rightarrow> False | Some h \<Rightarrow> h \<le> now) \<and>
     (case or_measured r of None \<Rightarrow> True | Some m \<Rightarrow> m < now - sf_backoff f) \<and>
     (if sf_lane_qualified f then or_qualified r
      else if sf_qualified_only f then or_label r = Drawdown80 \<or> or_label r = TradingAlive \<or> or_qualified r
      else True)"

text \<open>
  The label key: both spreads write the same key \<open>label\<close>, so the exclusions replace the
  restriction when both are given.
\<close>

definition label_due :: "sweep_filter \<Rightarrow> outcome_label \<Rightarrow> bool" where
  "label_due f l = (if sf_exclude f \<noteq> [] then l \<notin> set (sf_exclude f)
                    else if sf_only f \<noteq> [] then l \<in> set (sf_only f) else True)"

type_synonym outcome_table = "(string \<times> outcome_row) list"   \<comment> \<open>rows by id\<close>

definition horizon_order :: "string \<times> outcome_row \<Rightarrow> millis" where
  "horizon_order p = nullish (or_horizon_at (snd p)) 0"

text \<open>
  \<open>interleave\<close>: round \<open>i\<close> takes the \<open>i\<close>-th element of every group that has one, until the
  limit is reached or a round takes nothing.
\<close>

fun take_round :: "nat \<Rightarrow> nat \<Rightarrow> 'a list list \<Rightarrow> 'a list \<Rightarrow> bool \<Rightarrow> 'a list \<times> bool" where
  "take_round i limit [] out took = (out, took)"
| "take_round i limit (g # gs) out took =
     (if i < length g then
        (let out' = out @ [g ! i]
         in if length out' \<ge> limit then (out', True) else take_round i limit gs out' True)
      else take_round i limit gs out took)"

lemma take_round_grows:
  "take_round i limit gs out took = (out', t) \<Longrightarrow> t \<Longrightarrow> \<not> took \<Longrightarrow> length out < length out'"
proof (induction gs arbitrary: out took)
  case (Cons g gs)
  have mono: "take_round i limit gs o1 t1 = (o2, t2) \<Longrightarrow> length o1 \<le> length o2" for o1 t1 o2 t2
    by (induction gs arbitrary: o1 t1) (auto simp: Let_def split: if_splits, fastforce)
  show ?case
    using Cons by (auto simp: Let_def split: if_splits dest!: mono)
qed simp

function interleave_from :: "nat \<Rightarrow> nat \<Rightarrow> 'a list list \<Rightarrow> 'a list \<Rightarrow> 'a list" where
  "interleave_from i limit groups out =
     (if length out < limit then
        (let r = take_round i limit groups out False
         in if snd r then interleave_from (Suc i) limit groups (fst r) else fst r)
      else out)"
  by pat_completeness auto
termination
  by (relation "measure (\<lambda>(i, limit, groups, out). limit - length out)")
     (auto dest: take_round_grows [OF prod.collapse [symmetric]] intro!: diff_less_mono2)

declare interleave_from.simps [simp del]

definition interleave :: "'a list list \<Rightarrow> nat \<Rightarrow> 'a list" where
  "interleave groups limit = interleave_from 0 limit groups []"

text \<open>The picked rows; the database may order rows with equal keys in any way, here by table order.\<close>

definition due_labels :: "sweep_filter \<Rightarrow> outcome_label list" where
  "due_labels f = filter (\<lambda>l. l \<notin> set (sf_exclude f)) (if sf_only f \<noteq> [] then sf_only f else all_outcome_labels)"

definition due_group :: "millis \<Rightarrow> sweep_filter \<Rightarrow> nat \<Rightarrow> outcome_table \<Rightarrow> outcome_label \<Rightarrow> outcome_table" where
  "due_group now f limit table l =
     take limit (sort_key horizon_order (filter (\<lambda>p. row_due now f (snd p) \<and> or_label (snd p) = l) table))"

definition sweep_due :: "millis \<Rightarrow> sweep_filter \<Rightarrow> nat \<Rightarrow> outcome_table \<Rightarrow> outcome_table" where
  "sweep_due now f limit table =
     (case sf_order f of
        ByFair \<Rightarrow> interleave (map (due_group now f limit table) (due_labels f)) limit
      | BySpread \<Rightarrow> take limit (sort_key fst
          (filter (\<lambda>p. row_due now f (snd p) \<and> label_due f (or_label (snd p))) table))
      | ByHorizon \<Rightarrow> take limit (sort_key horizon_order
          (filter (\<lambda>p. row_due now f (snd p) \<and> label_due f (or_label (snd p))) table)))"

section \<open>Settling one row\<close>

text \<open>\<open>RETRYABLE\<close>, tested without regard to case.\<close>

definition retryable :: "string \<Rightarrow> bool" where
  "retryable msg = (let m = lower msg in rate_limit_word m \<or>
     mentions [''network'', ''timeout'', ''etimedout'', ''econnreset'', ''econnrefused'', ''socket hang up'', ''fetch failed'',
       ''429'', ''too many requests'', ''request limit'', ''network is busy'', ''-32005'', ''-32097'', ''capacity'',
       ''throttl'', ''sweep error''] m)"

datatype defer_action = Defer | GiveUp

definition defer_or_give_up :: "millis option \<Rightarrow> millis \<Rightarrow> millis \<Rightarrow> defer_action \<times> millis" where
  "defer_or_give_up first_at now give_up_after =
     (let t = nullish first_at now in (if now - t \<ge> give_up_after then GiveUp else Defer, t))"

text \<open>What \<open>withDeadline(resolveOneOutcome)\<close> settles to.\<close>

datatype attempt = Returned resolution | Threw string | DeadlineHit string

datatype tally = TResolved | TNotApplicable | TUnresolvable | TRetryLater | TFailed

text \<open>\<open>gave up after n transient failures since t: msg\<close>; the two numbers are the other fields of the record.\<close>

definition defer_row :: "millis \<Rightarrow> millis \<Rightarrow> outcome_row \<Rightarrow> string \<Rightarrow> outcome_row \<times> tally" where
  "defer_row now give_up_after row msg =
     (let n = Suc (deferral_count (or_evidence row))
      in case defer_or_give_up (first_deferred (or_evidence row)) now give_up_after of
           (GiveUp, t) \<Rightarrow>
             (row\<lparr>or_status := OUnresolvable, or_value := None, or_evidence := GaveUpEvidence msg t n,
                  or_measured := Some now\<rparr>, TUnresolvable)
         | (Defer, t) \<Rightarrow>
             (row\<lparr>or_measured := Some now, or_evidence := DeferredEvidence t n (take 300 msg)\<rparr>, TRetryLater))"

fun status_of :: "resolution_status \<Rightarrow> outcome_status" where
  "status_of VResolved = OResolved"
| "status_of VNotApplicable = ONotApplicable"
| "status_of VUnresolvable = OUnresolvable"

fun tally_of :: "resolution_status \<Rightarrow> tally" where
  "tally_of VResolved = TResolved"
| "tally_of VNotApplicable = TNotApplicable"
| "tally_of VUnresolvable = TUnresolvable"

text \<open>\<open>res.evidence.rpcError\<close>, and the text a retryable verdict is deferred with (the dash of the code is ASCII here).\<close>

definition rpc_error_of :: "evidence \<Rightarrow> string option" where
  "rpc_error_of e = (case map_of e ''rpcError'' of Some (EvText t) \<Rightarrow> if t = [] then None else Some t | _ \<Rightarrow> None)"

definition defer_text :: "string \<Rightarrow> evidence \<Rightarrow> string" where
  "defer_text reason e = (case rpc_error_of e of None \<Rightarrow> reason | Some raw \<Rightarrow> reason @ '' - '' @ raw)"

definition record_verdict :: "millis \<Rightarrow> outcome_row \<Rightarrow> resolution \<Rightarrow> outcome_row \<times> tally" where
  "record_verdict now row res =
     (row\<lparr>or_status := status_of (rs_status res), or_value := rs_value res,
          or_evidence := MeasuredEvidence (case rs_reason res of Some [] \<Rightarrow> None | r \<Rightarrow> r) (rs_evidence res),
          or_coverage := rs_coverage res, or_measured := Some now\<rparr>, tally_of (rs_status res))"

definition settle_row :: "millis \<Rightarrow> millis \<Rightarrow> attempt \<Rightarrow> outcome_row \<Rightarrow> outcome_row \<times> tally" where
  "settle_row now give_up_after att row =
     (case att of
        Returned res \<Rightarrow>
          (case rs_reason res of
             Some reason \<Rightarrow>
               if rs_status res = VUnresolvable \<and> reason \<noteq> [] \<and> retryable reason
               then defer_row now give_up_after row (defer_text reason (rs_evidence res))
               else record_verdict now row res
           | None \<Rightarrow> record_verdict now row res)
      | DeadlineHit msg \<Rightarrow> defer_row now give_up_after row msg
      | Threw msg \<Rightarrow>
          if retryable msg then defer_row now give_up_after row msg
          else (row\<lparr>or_measured := Some now\<rparr>, TFailed))"


section \<open>A sweep\<close>

text \<open>
  The workers take the picked rows one after the other from a shared cursor and settle
  them concurrently: the writes land in some order of the rows, each at its own time.
  \<open>clock\<close> gives the time a row is settled, \<open>attempts\<close> what its measurement settles to.
\<close>

definition write_row :: "string \<Rightarrow> outcome_row \<Rightarrow> outcome_table \<Rightarrow> outcome_table" where
  "write_row i r table = map (\<lambda>(j, q). (j, if j = i then r else q)) table"

definition settle_step ::
    "(string \<Rightarrow> millis) \<Rightarrow> millis \<Rightarrow> (string \<Rightarrow> attempt) \<Rightarrow> outcome_table \<times> (tally \<Rightarrow> nat) \<Rightarrow>
     string \<times> outcome_row \<Rightarrow> outcome_table \<times> (tally \<Rightarrow> nat)" where
  "settle_step clock give_up attempts st p =
     (case settle_row (clock (fst p)) give_up (attempts (fst p)) (snd p) of
        (r, t) \<Rightarrow> (write_row (fst p) r (fst st), (snd st)(t := Suc (snd st t))))"

definition settle_all ::
    "(string \<Rightarrow> millis) \<Rightarrow> millis \<Rightarrow> (string \<Rightarrow> attempt) \<Rightarrow> outcome_table \<Rightarrow> outcome_table \<Rightarrow>
     outcome_table \<times> (tally \<Rightarrow> nat)" where
  "settle_all clock give_up attempts picked table =
     foldl (settle_step clock give_up attempts) (table, \<lambda>_. 0) picked"

definition sweep_due_outcomes ::
    "(string \<Rightarrow> millis) \<Rightarrow> (string \<Rightarrow> attempt) \<Rightarrow> millis \<Rightarrow> nat \<Rightarrow> sweep_filter \<Rightarrow> outcome_table \<Rightarrow>
     outcome_table \<times> nat \<times> (tally \<Rightarrow> nat)" where
  "sweep_due_outcomes clock attempts now limit f table =
     (let due = sweep_due now f limit table
      in case settle_all clock (sf_give_up f) attempts due table of
           (table', counts) \<Rightarrow> (table', length due, counts))"

text \<open>The filter of the worker's own loop; the two numbers are read from the environment.\<close>

definition loop_filter :: "nat \<Rightarrow> bool \<Rightarrow> sweep_filter" where
  "loop_filter concurrency qualified_only =
     default_filter\<lparr>sf_order := ByFair, sf_concurrency := concurrency, sf_qualified_only := qualified_only\<rparr>"


section \<open>Interleaving\<close>

lemma take_round_spec:
  "length out < limit \<Longrightarrow> take_round i limit gs out took =
     (take limit (out @ map (\<lambda>g. g ! i) (filter (\<lambda>g. i < length g) gs)), took \<or> (\<exists>g \<in> set gs. i < length g))"
proof (induction gs arbitrary: out took)
  case (Cons g gs)
  show ?case
  proof (cases "i < length g")
    case True
    then show ?thesis
      using Cons.IH [of "out @ [g ! i]" True] Cons.prems
      by (auto simp: Let_def take_Cons' not_less)
  next
    case False
    then show ?thesis using Cons.IH [of out took] Cons.prems by auto
  qed
qed simp

lemma length_transpose_le: "(\<exists>g \<in> set gs. i < length g) \<longleftrightarrow> i < length (transpose gs)"
proof -
  have "i < foldr (\<lambda>xs. max (length xs)) gs 0 \<longleftrightarrow> (\<exists>g \<in> set gs. i < length g)" by (induction gs) auto
  then show ?thesis by (simp add: length_transpose)
qed

lemma interleave_from_spec:
  "length out \<le> limit \<Longrightarrow> interleave_from i limit gs out = take limit (out @ concat (drop i (transpose gs)))"
proof (induction i limit gs out rule: interleave_from.induct)
  case (1 i limit gs out)
  show ?case
  proof (cases "length out < limit")
    case False
    then show ?thesis using 1(2) by (simp add: interleave_from.simps)
  next
    case lt: True
    let ?col = "map (\<lambda>g. g ! i) (filter (\<lambda>g. i < length g) gs)"
    have r: "take_round i limit gs out False = (take limit (out @ ?col), \<exists>g \<in> set gs. i < length g)"
      using take_round_spec [OF lt, of i gs False] by simp
    show ?thesis
    proof (cases "\<exists>g \<in> set gs. i < length g")
      case True
      then have i: "i < length (transpose gs)" by (simp add: length_transpose_le)
      then have "drop i (transpose gs) = ?col # drop (Suc i) (transpose gs)"
        by (simp add: Cons_nth_drop_Suc [symmetric] nth_transpose)
      moreover have "interleave_from (Suc i) limit gs (take limit (out @ ?col)) =
          take limit (take limit (out @ ?col) @ concat (drop (Suc i) (transpose gs)))"
        using 1(1) [OF lt refl] by (simp only: r fst_conv snd_conv True) simp
      moreover have "interleave_from i limit gs out = interleave_from (Suc i) limit gs (take limit (out @ ?col))"
        by (subst interleave_from.simps) (simp only: lt r Let_def fst_conv snd_conv True if_True)
      moreover have "take limit (take limit xs @ ys) = take limit (xs @ ys)" for xs ys :: "'a list"
        by (simp add: min_def)
      ultimately show ?thesis by (simp only: concat.simps append_assoc)
    next
      case False
      then have "drop i (transpose gs) = []" using length_transpose_le [of gs i] by simp
      moreover have "?col = []" using False by (simp add: filter_empty_conv)
      ultimately show ?thesis
        using r False lt by (subst interleave_from.simps) simp
    qed
  qed
qed

section \<open>Independent steps\<close>

text \<open>
  The contract the workers rely on: steps for different keys do not interfere, so the
  order in which they land is immaterial.
\<close>

locale independent_steps =
  fixes step :: "'s \<Rightarrow> 'a \<Rightarrow> 's" and key :: "'a \<Rightarrow> 'k"
  assumes commute: "key a \<noteq> key b \<Longrightarrow> step (step s a) b = step (step s b) a"
begin

lemma any_order:
  assumes "distinct (map key xs)" "mset ys = mset xs"
  shows "foldl step s xs = foldl step s ys"
proof -
  have "(\<lambda>s. step s y) \<circ> (\<lambda>s. step s x) = (\<lambda>s. step s x) \<circ> (\<lambda>s. step s y)" if "x \<in> set xs" "y \<in> set xs" for x y
  proof (cases "x = y")
    case False
    then have "key x \<noteq> key y" using that assms(1) by (auto simp: distinct_map inj_on_def)
    then show ?thesis using commute by (auto simp: fun_eq_iff)
  qed simp
  then have "fold (\<lambda>a s. step s a) xs = fold (\<lambda>a s. step s a) ys"
    using assms(2) by (intro fold_multiset_equiv) (auto simp: fun_eq_iff)
  then show ?thesis by (simp add: foldl_conv_fold)
qed

end

lemma write_row_commute: "i \<noteq> j \<Longrightarrow> write_row i r (write_row j q t) = write_row j q (write_row i r t)"
  by (auto simp: write_row_def)

lemma map_fst_write_row [simp]: "map fst (write_row i r t) = map fst t"
  by (auto simp: write_row_def)

interpretation ws: independent_steps "settle_step clock give_up attempts" fst for clock give_up attempts
proof
  fix a b :: "string \<times> outcome_row" and s :: "outcome_table \<times> (tally \<Rightarrow> nat)"
  assume ne: "fst a \<noteq> fst b"
  obtain r t where a: "settle_row (clock (fst a)) give_up (attempts (fst a)) (snd a) = (r, t)" by fastforce
  obtain q u where b: "settle_row (clock (fst b)) give_up (attempts (fst b)) (snd b) = (q, u)" by fastforce
  show "settle_step clock give_up attempts (settle_step clock give_up attempts s a) b =
      settle_step clock give_up attempts (settle_step clock give_up attempts s b) a"
    using ne a b by (auto simp: settle_step_def write_row_commute fun_eq_iff)
qed


section \<open>What a sweep does to the table\<close>

lemma write_row_other: "j \<noteq> i \<Longrightarrow> (j, q) \<in> set (write_row i r t) \<longleftrightarrow> (j, q) \<in> set t"
  by (force simp: write_row_def)

lemma write_row_same: "(i, q) \<in> set (write_row i r t) \<longleftrightarrow> i \<in> fst ` set t \<and> q = r"
  by (force simp: write_row_def)

lemma fst_settle_step:
  "fst (settle_step clock g att st p) =
     write_row (fst p) (fst (settle_row (clock (fst p)) g (att (fst p)) (snd p))) (fst st)"
  by (simp add: settle_step_def split: prod.split)

lemma settle_all_fst: "map fst (fst (foldl (settle_step clock g att) st ps)) = map fst (fst st)"
  by (induction ps arbitrary: st) (simp_all add: settle_step_def split: prod.split)

lemma settle_all_other:
  "i \<notin> fst ` set ps \<Longrightarrow> (i, r) \<in> set (fst (foldl (settle_step clock g att) st ps)) \<longleftrightarrow> (i, r) \<in> set (fst st)"
  by (induction ps arbitrary: st) (auto simp: settle_step_def write_row_other split: prod.split)

lemma settle_all_member:
  assumes "distinct (map fst ps)" "(i, r) \<in> set ps" "i \<in> fst ` set (fst st)"
  shows "(i, q) \<in> set (fst (foldl (settle_step clock g att) st ps)) \<longleftrightarrow> q = fst (settle_row (clock i) g (att i) r)"
  using assms
proof (induction ps arbitrary: st)
  case (Cons p ps)
  show ?case
  proof (cases "p = (i, r)")
    case True
    then have "i \<notin> fst ` set ps" using Cons.prems(1) by auto
    then have "(i, q) \<in> set (fst (foldl (settle_step clock g att) st (p # ps))) \<longleftrightarrow>
        (i, q) \<in> set (fst (settle_step clock g att st p))"
      by (simp add: settle_all_other)
    also have "\<dots> \<longleftrightarrow> q = fst (settle_row (clock i) g (att i) r)"
      using True Cons.prems(3) by (simp add: fst_settle_step write_row_same)
    finally show ?thesis .
  next
    case False
    have "fst ` set (fst (settle_step clock g att st p)) = fst ` set (fst st)"
      using arg_cong [OF settle_all_fst [of clock g att st "[p]"], of set] by simp
    then show ?thesis
      using Cons.IH [of "settle_step clock g att st p"] Cons.prems False by auto
  qed
qed simp

lemma set_interleave: "set (interleave gs limit) \<subseteq> \<Union> (set ` set gs)"
proof -
  have "set (take limit (concat (transpose gs))) \<subseteq> set (concat (transpose gs))" by (rule set_take_subset)
  also have "\<dots> \<subseteq> \<Union> (set ` set gs)"
  proof
    fix x assume "x \<in> set (concat (transpose gs))"
    then obtain i where "i < length (transpose gs)" "x \<in> set (transpose gs ! i)"
      unfolding set_concat by (metis UN_iff in_set_conv_nth)
    then show "x \<in> \<Union> (set ` set gs)" by (auto simp: nth_transpose intro: nth_mem)
  qed
  finally show ?thesis by (simp add: interleave_def interleave_from_spec)
qed

text \<open>Every picked row is in the table, pending, past its horizon and out of its back-off.\<close>

lemma sweep_due_rows: "p \<in> set (sweep_due now f limit table) \<Longrightarrow> p \<in> set table \<and> row_due now f (snd p)"
  using set_interleave [of "map (due_group now f limit table) (due_labels f)" limit]
  by (auto simp: sweep_due_def due_group_def split: sweep_order.splits dest!: in_set_takeD)

section \<open>Properties\<close>

lemma interleave_is_columns: "interleave groups limit = take limit (concat (transpose groups))"
  by (simp add: interleave_def interleave_from_spec)

text \<open>
  The loop of \<open>interleave\<close> is the round-robin reading of the groups: the columns of the
  groups one after the other, cut at the limit.
\<close>

theorem interleave_is_round_robin: "interleave groups limit = take limit (concat (transpose groups))"
  by (rule interleave_is_columns)

lemma column_length: "length (transpose gs ! i) \<le> length gs" if "i < length (transpose gs)"
  using that by (simp add: nth_transpose)

lemma concat_columns_length: "length (concat (take q (transpose gs))) \<le> q * length gs"
proof (induction q)
  case (Suc q)
  then show ?case
    using column_length [of q gs] by (cases "q < length (transpose gs)") (auto simp: take_Suc_conv_app_nth)
qed simp

lemma interleave_takes_heads:
  assumes "g \<in> set gs" "q * length gs \<le> limit"
  shows "set (take q g) \<subseteq> set (interleave gs limit)"
proof
  fix x assume "x \<in> set (take q g)"
  then obtain i where i: "i < q" "i < length g" "x = g ! i" by (auto simp: in_set_conv_nth)
  then have col: "i < length (transpose gs)" using assms(1) length_transpose_le by blast
  then have "x \<in> set (transpose gs ! i)" using assms(1) i by (auto simp: nth_transpose)
  then have "x \<in> set (concat (take q (transpose gs)))"
    using i(1) col by (auto simp: in_set_conv_nth [of _ "take q _"] intro!: bexI [of _ "transpose gs ! i"])
      (metis in_set_conv_nth length_take min_less_iff_conj nth_take)
  moreover have "concat (transpose gs) = concat (take q (transpose gs)) @ concat (drop q (transpose gs))"
    by (metis append_take_drop_id concat_append)
  moreover have "length (concat (take q (transpose gs))) \<le> limit"
    using concat_columns_length [of q gs] assms(2) by linarith
  ultimately show "x \<in> set (interleave gs limit)"
    by (simp add: interleave_def interleave_from_spec)
qed


text \<open>
  The workers' interleaving is immaterial: whatever the order in which the picked rows
  are settled, the table and the counts come out the same.
\<close>

theorem workers_order_irrelevant:
  assumes "distinct (map fst picked)" "mset order = mset picked"
  shows "settle_all clock give_up attempts order table = settle_all clock give_up attempts picked table"
  unfolding settle_all_def using assms by (intro ws.any_order [symmetric])

text \<open>
  A sweep turns a row into an outcome only when its measurement returned one: no retry,
  deadline, error or give-up writes a value.
\<close>

theorem failed_measurement_never_outcome:
  assumes "settle_row now give_up att row = (row', t)" "or_status row = OPending" "or_value row = None"
    and "or_value row' \<noteq> None \<or> or_status row' = OResolved"
    and "\<And>res. att = Returned res \<Longrightarrow> rs_value res \<noteq> None \<Longrightarrow> rs_status res = VResolved"
  shows "\<exists>res. att = Returned res \<and> rs_status res = VResolved \<and> or_value row' = rs_value res \<and> t = TResolved"
proof -
  have no_defer: "or_value (fst (defer_row now give_up row msg)) = None \<and> or_status (fst (defer_row now give_up row msg)) \<noteq> OResolved" for msg
    using assms(2,3) by (simp add: defer_row_def Let_def split: prod.split defer_action.split)
  have step: "row' = fst (settle_row now give_up att row)" "t = snd (settle_row now give_up att row)"
    using assms(1) by simp_all
  show ?thesis
  proof (cases att)
    case (Returned res)
    show ?thesis
    proof (cases "\<exists>reason. rs_reason res = Some reason \<and> rs_status res = VUnresolvable \<and> reason \<noteq> [] \<and> retryable reason")
      case True
      then show ?thesis using assms(4) step no_defer Returned by (auto simp: settle_row_def)
    next
      case False
      then have "settle_row now give_up att row = record_verdict now row res"
        using Returned by (auto simp: settle_row_def split: option.split)
      then show ?thesis
        using step assms(4,5) Returned by (cases "rs_status res") (auto simp: record_verdict_def)
    qed
  next
    case (Threw msg)
    then show ?thesis using assms(2,3,4) step no_defer by (auto simp: settle_row_def split: if_splits)
  next
    case (DeadlineHit msg)
    then show ?thesis using assms(4) step no_defer by (auto simp: settle_row_def)
  qed
qed

text \<open>A table as the sweeps of the worker change it, each with its own filter, times and measurements.\<close>

inductive swept :: "outcome_table \<Rightarrow> outcome_table \<Rightarrow> bool" where
  swept_refl: "swept t t"
| swept_step: "swept t u \<Longrightarrow> swept t (fst (sweep_due_outcomes clock attempts now limit f u))"

inductive_cases swept_E: "swept t u"

lemma sweep_keeps_settled:
  assumes "distinct (map fst table)" "(i, r) \<in> set table" "or_status r \<noteq> OPending"
  shows "(i, r) \<in> set (fst (sweep_due_outcomes clock attempts now limit f table))"
proof -
  have "i \<notin> fst ` set (sweep_due now f limit table)"
  proof
    assume "i \<in> fst ` set (sweep_due now f limit table)"
    then obtain q where "(i, q) \<in> set table" "or_status q = OPending"
      using sweep_due_rows by (force simp: row_due_def)
    then show False using assms by (auto dest: eq_key_imp_eq_value)
  qed
  then show ?thesis
    using assms(2) by (simp add: sweep_due_outcomes_def Let_def settle_all_def settle_all_other split: prod.split)
      (metis fst_conv settle_all_other)
qed

lemma sweep_keeps_ids: "map fst (fst (sweep_due_outcomes clock attempts now limit f table)) = map fst table"
  using settle_all_fst by (simp add: sweep_due_outcomes_def Let_def settle_all_def split: prod.split) (metis fst_conv)

text \<open>
  An outcome is final: once a row is resolved, not applicable or unresolvable, no later
  sweep changes it.
\<close>

theorem settled_rows_are_final:
  assumes "swept table table'" "distinct (map fst table)" "(i, r) \<in> set table" "or_status r \<noteq> OPending"
  shows "(i, r) \<in> set table'"
proof -
  from assms(1,2,3) have "(i, r) \<in> set table' \<and> map fst table' = map fst table"
  proof (induction rule: swept.induct)
    case (swept_step t u clock attempts now limit f)
    then show ?case using sweep_keeps_settled assms(4) sweep_keeps_ids by metis
  qed simp
  then show ?thesis ..
qed

text \<open>
  A row that a sweep settled is left alone for the back-off: no sweep started within it
  picks the row again, whether the row was deferred, failed or resolved.
\<close>

theorem picked_rows_wait_out_backoff:
  assumes "distinct (map fst table)" "i \<in> fst ` set (sweep_due now f limit table)" "distinct (map fst (sweep_due now f limit table))"
    and "table' = fst (sweep_due_outcomes clock attempts now limit f table)" "now' - sf_backoff f' \<le> clock i"
  shows "i \<notin> fst ` set (sweep_due now' f' limit' table')"
proof
  assume "i \<in> fst ` set (sweep_due now' f' limit' table')"
  then obtain q where q: "(i, q) \<in> set table'" "row_due now' f' q" using sweep_due_rows by force
  from assms(2) obtain r where r: "(i, r) \<in> set (sweep_due now f limit table)" by auto
  then have "i \<in> fst ` set table" using sweep_due_rows by force
  then have "q = fst (settle_row (clock i) (sf_give_up f) (attempts i) r)"
    using settle_all_member [OF assms(3) r, of "(table, \<lambda>_. 0)" q clock "sf_give_up f" attempts] q(1) assms(4)
    by (simp add: sweep_due_outcomes_def Let_def settle_all_def split: prod.splits)
  moreover have "or_measured (fst (settle_row (clock i) (sf_give_up f) (attempts i) r)) = Some (clock i)"
    by (auto simp: settle_row_def defer_row_def record_verdict_def Let_def
        split: attempt.split option.split prod.split defer_action.split)
  ultimately show False using q(2) assms(5) by (simp add: row_due_def)
qed

text \<open>Settling a row at the given times, each time failing transiently, until it is no longer pending.\<close>

fun keep_failing :: "millis \<Rightarrow> string \<Rightarrow> millis list \<Rightarrow> outcome_row \<Rightarrow> outcome_row" where
  "keep_failing g msg [] row = row"
| "keep_failing g msg (t # ts) row =
     (if or_status row = OPending then keep_failing g msg ts (fst (settle_row t g (Threw msg) row)) else row)"

lemma keep_failing_deferred:
  assumes "retryable msg" "or_status row = OPending" "or_value row = None" "first_deferred (or_evidence row) = Some t0"
  shows "(if \<forall>t \<in> set ts. t - t0 < g
     then or_status (keep_failing g msg ts row) = OPending \<and> first_deferred (or_evidence (keep_failing g msg ts row)) = Some t0 \<and>
       deferral_count (or_evidence (keep_failing g msg ts row)) = deferral_count (or_evidence row) + length ts
     else or_status (keep_failing g msg ts row) = OUnresolvable) \<and> or_value (keep_failing g msg ts row) = None"
  using assms
proof (induction ts arbitrary: row)
  case (Cons t ts)
  show ?case
  proof (cases "t - t0 < g")
    case True
    let ?row = "fst (settle_row t g (Threw msg) row)"
    have "or_status ?row = OPending" "or_value ?row = None" "first_deferred (or_evidence ?row) = Some t0"
        "deferral_count (or_evidence ?row) = Suc (deferral_count (or_evidence row))"
      using Cons.prems True
      by (simp_all add: settle_row_def defer_row_def defer_or_give_up_def Let_def first_deferred_def deferral_count_def)
    then show ?thesis using Cons.IH [of ?row] Cons.prems True by auto
  next
    case False
    then have "or_status (fst (settle_row t g (Threw msg) row)) = OUnresolvable"
        "or_value (fst (settle_row t g (Threw msg) row)) = None"
      using Cons.prems by (simp_all add: settle_row_def defer_row_def defer_or_give_up_def Let_def)
    moreover from this have "keep_failing g msg (t # ts) row = fst (settle_row t g (Threw msg) row)"
      using Cons.prems(2) by (cases ts) simp_all
    ultimately show ?thesis using False by auto
  qed
qed simp

text \<open>
  The clock of giving up starts at the first deferral and is never restarted: a row that
  fails transiently at times \<open>t0\<close>, \<open>t1\<close>, ... stays pending while they lie within the limit
  of \<open>t0\<close>, counting its deferrals, and becomes unresolvable, without a value, as soon as
  one does not.
\<close>

theorem gives_up_from_first_deferral:
  assumes "retryable msg" "or_status row = OPending" "or_value row = None" "or_evidence row = NoEvidence" "0 < g"
    and "final = keep_failing g msg (t0 # ts) row"
  shows "(if \<forall>t \<in> set ts. t - t0 < g
     then or_status final = OPending \<and> first_deferred (or_evidence final) = Some t0 \<and>
       deferral_count (or_evidence final) = Suc (length ts)
     else or_status final = OUnresolvable) \<and> or_value final = None"
proof -
  let ?row = "fst (settle_row t0 g (Threw msg) row)"
  have "or_status ?row = OPending" "or_value ?row = None" "first_deferred (or_evidence ?row) = Some t0"
      "deferral_count (or_evidence ?row) = 1"
    using assms
    by (simp_all add: settle_row_def defer_row_def defer_or_give_up_def Let_def first_deferred_def deferral_count_def)
  then show ?thesis
    using keep_failing_deferred [OF assms(1), of ?row t0 ts g] assms(2,6) by simp
qed

text \<open>
  Restricting and excluding labels at once keeps only the exclusion: outside the fair
  order, a sweep for \<open>LIQ_IMPAIRED\<close> only that also excludes \<open>INSIDER_EXIT\<close> picks a
  \<open>TRADING_ALIVE\<close> row.
\<close>

definition demo_pending :: outcome_row where
  "demo_pending = \<lparr>or_chain = 4663, or_token = ''0xa'', or_anchor = 0, or_label = TradingAlive, or_horizon = H24,
     or_horizon_at = Some 10, or_status = OPending, or_value = None, or_evidence = NoEvidence, or_coverage = None,
     or_measured = None, or_qualified = True, or_retrospective = False\<rparr>"

theorem exclusion_drops_restriction:
  "sweep_due 20 (default_filter\<lparr>sf_only := [LiqImpaired], sf_exclude := [InsiderExit]\<rparr>) 5 [(''r1'', demo_pending)]
     = [(''r1'', demo_pending)]"
  by (simp add: sweep_due_def default_filter_def row_due_def label_due_def demo_pending_def)

text \<open>
  Materialising the grid of a report leaves every cell of the grid with exactly one row
  per key, marks the cells that do not apply to the token, and is idempotent: a second
  call creates nothing.
\<close>

lemma insert_rows_spec:
  "insert_rows rs table = (table', n) \<Longrightarrow> distinct (map row_key table) \<Longrightarrow>
     (\<exists>new. table' = table @ new \<and> set new \<subseteq> set rs \<and> length new = n) \<and>
     distinct (map row_key table') \<and> row_key ` set table' = row_key ` set table \<union> row_key ` set rs"
proof (induction rs arbitrary: table n)
  case (Cons r rs)
  show ?case
  proof (cases "row_key r \<in> row_key ` set table")
    case True
    then show ?thesis using Cons.IH [of table n] Cons.prems by (auto 0 3)
  next
    case False
    then obtain m where m: "insert_rows rs (table @ [r]) = (table', m)" "n = Suc m"
      using Cons.prems(1) by (auto split: prod.splits)
    obtain new where new: "table' = (table @ [r]) @ new" "set new \<subseteq> set rs" "length new = m"
        "distinct (map row_key table')" "row_key ` set table' = row_key ` set (table @ [r]) \<union> row_key ` set rs"
      using Cons.IH [OF m(1)] Cons.prems(2) False by auto
    then show ?thesis using m(2) by (intro conjI exI [of _ "r # new"]) auto
  qed
qed auto

lemma insert_rows_present: "row_key ` set rs \<subseteq> row_key ` set table \<Longrightarrow> insert_rows rs table = (table, 0)"
  by (induction rs) auto

theorem grid_complete_and_idempotent:
  assumes "distinct (map row_key table)"
    and "ensure_outcome_rows chain token anchor locked qualified retro table = (table', n)"
  shows "distinct (map row_key table') \<and> length table' = length table + n \<and>
    (\<forall>key \<in> set all_outcome_keys. \<exists>r \<in> set table'. row_key r = (chain, lower token, anchor, fst key, snd key)) \<and>
    (\<forall>r \<in> set table' - set table. or_value r = None \<and>
       or_status r = (if outcome_applies (or_label r, or_horizon r) locked then OPending else ONotApplicable)) \<and>
    ensure_outcome_rows chain token anchor locked qualified retro table' = (table', 0)"
proof -
  let ?rows = "map (grid_row chain token anchor locked qualified retro) all_outcome_keys"
  obtain new where new: "table' = table @ new" "set new \<subseteq> set ?rows" "length new = n" "distinct (map row_key table')"
      "row_key ` set table' = row_key ` set table \<union> row_key ` set ?rows"
    using insert_rows_spec [of ?rows table table' n] assms by (auto simp: ensure_outcome_rows_def)
  have "ensure_outcome_rows chain token anchor locked qualified retro table' = (table', 0)"
    unfolding ensure_outcome_rows_def by (rule insert_rows_present) (use new(5) in auto)
  moreover have "\<exists>r \<in> set table'. row_key r = (chain, lower token, anchor, fst key, snd key)"
    if "key \<in> set all_outcome_keys" for key
  proof -
    have "row_key (grid_row chain token anchor locked qualified retro key) \<in> row_key ` set table'"
      using new(5) that by auto
    then show ?thesis by (auto simp: row_key_def grid_row_def)
  qed
  moreover have "or_value r = None \<and>
      or_status r = (if outcome_applies (or_label r, or_horizon r) locked then OPending else ONotApplicable)"
    if "r \<in> set table' - set table" for r
    using that new(1,2) by (auto simp: grid_row_def)
  ultimately show ?thesis using new(1,3,4) by auto
qed

section \<open>Witnesses\<close>

definition demo_fair :: sweep_filter where
  "demo_fair = loop_filter 4 False"

definition demo_table :: outcome_table where
  "demo_table = [(''r1'', demo_pending), (''r2'', demo_pending\<lparr>or_label := InsiderExit\<rparr>), (''r3'', demo_pending\<lparr>or_horizon_at := Some 5\<rparr>)]"

lemma demo_due:
  "due_labels demo_fair = all_outcome_labels" "sf_order demo_fair = ByFair"
  "due_group 20 demo_fair 5 demo_table InsiderExit = [(''r2'', demo_pending\<lparr>or_label := InsiderExit\<rparr>)]"
  "due_group 20 demo_fair 5 demo_table TradingAlive =
     [(''r3'', demo_pending\<lparr>or_horizon_at := Some 5\<rparr>), (''r1'', demo_pending)]"
  "l \<notin> {InsiderExit, TradingAlive} \<Longrightarrow> due_group 20 demo_fair 5 demo_table l = []"
  by (auto simp: due_labels_def demo_fair_def loop_filter_def default_filter_def due_group_def demo_table_def row_due_def
      demo_pending_def horizon_order_def)

lemma demo_sweep:
  "sweep_due 20 demo_fair 5 demo_table = [(''r2'', demo_pending\<lparr>or_label := InsiderExit\<rparr>),
     (''r3'', demo_pending\<lparr>or_horizon_at := Some 5\<rparr>), (''r1'', demo_pending)]"
  by (simp add: sweep_due_def demo_due all_outcome_labels_def interleave_is_columns)


theorem workers_order_irrelevant_witness:
  "settle_all (\<lambda>_. 30) 9 (\<lambda>_. Threw ''timeout'') (rev demo_table) demo_table =
   settle_all (\<lambda>_. 30) 9 (\<lambda>_. Threw ''timeout'') demo_table demo_table"
  by (rule workers_order_irrelevant) (simp_all add: demo_table_def)

theorem failed_measurement_never_outcome_witness:
  "\<exists>res. Returned (resolved True [] (new_coverage 1 2 1)) = Returned res \<and> rs_status res = VResolved \<and>
     or_value (fst (settle_row 30 9 (Returned (resolved True [] (new_coverage 1 2 1))) demo_pending)) = rs_value res \<and>
     snd (settle_row 30 9 (Returned (resolved True [] (new_coverage 1 2 1))) demo_pending) = TResolved"
  by (rule failed_measurement_never_outcome [OF prod.collapse [symmetric]])
     (simp_all add: demo_pending_def settle_row_def resolved_def record_verdict_def)

theorem settled_rows_are_final_witness:
  "(''r9'', demo_pending\<lparr>or_status := OResolved\<rparr>)
     \<in> set (fst (sweep_due_outcomes (\<lambda>_. 30) (\<lambda>_. Threw ''boom'') 20 5 demo_fair
          ((''r9'', demo_pending\<lparr>or_status := OResolved\<rparr>) # demo_table)))"
  by (rule settled_rows_are_final [OF swept_step [OF swept_refl]]) (simp_all add: demo_table_def)

theorem picked_rows_wait_out_backoff_witness:
  "''r1'' \<notin> fst ` set (sweep_due 50 demo_fair 5
     (fst (sweep_due_outcomes (\<lambda>_. 30) (\<lambda>_. Threw ''boom'') 20 5 demo_fair demo_table)))"
  by (rule picked_rows_wait_out_backoff [where now = 20 and limit = 5 and f = demo_fair and table = demo_table, OF _ _ _ refl])
     (simp_all add: demo_sweep, simp_all add: demo_table_def demo_fair_def loop_filter_def default_filter_def default_backoff_ms_def)

lemma demo_timeout: "retryable ''timeout''"
  by (simp add: retryable_def mentions_def lower_def lower_char_def starts_with_def)

theorem gives_up_from_first_deferral_witness:
  "(if \<forall>t \<in> set [5, 20]. t - 1 < (10::int)
    then or_status (keep_failing 10 ''timeout'' [1, 5, 20] demo_pending) = OPending \<and>
      first_deferred (or_evidence (keep_failing 10 ''timeout'' [1, 5, 20] demo_pending)) = Some 1 \<and>
      deferral_count (or_evidence (keep_failing 10 ''timeout'' [1, 5, 20] demo_pending)) = Suc (length [5, 20 :: int])
    else or_status (keep_failing 10 ''timeout'' [1, 5, 20] demo_pending) = OUnresolvable) \<and>
   or_value (keep_failing 10 ''timeout'' [1, 5, 20] demo_pending) = None"
  by (rule gives_up_from_first_deferral [OF demo_timeout _ _ _ _ refl, of demo_pending]) (simp_all add: demo_pending_def)

theorem grid_complete_and_idempotent_witness:
  "\<exists>table' n. ensure_outcome_rows 4663 ''0xA'' 0 True False False [] = (table', n) \<and>
     ensure_outcome_rows 4663 ''0xA'' 0 True False False table' = (table', 0)"
proof -
  obtain table' n where run: "ensure_outcome_rows 4663 ''0xA'' 0 True False False [] = (table', n)" by fastforce
  from grid_complete_and_idempotent [OF _ run] show ?thesis using run by simp
qed

end
