(* ===== verification/Reports.thy ===== *)
theory Reports
  imports OutcomeSweep Merkle "HOL-Library.Countable"
begin

text \<open>
  Signed reports (\<open>apps/worker/src/report\<close>): the feature inputs and their coverage list,
  the three drafts of a launch and their signatures (\<open>assemble.ts\<close>, \<open>crypto.ts\<close>), the
  validator (\<open>validate.ts\<close>) and the upsert with the outcome grid it creates
  (\<open>persist.ts\<close>).  \<open>canonicalize\<close>, keccak256 and viem's EIP-712 signing are parameters; a
  timestamp text is modelled by the time \<open>Date.parse\<close> reads from it.
\<close>


section \<open>Content, drafts and crypto\<close>

text \<open>
  \<open>version\<close> is a constant of the content.  A coverage entry names a missing feature, or is a
  text of the deep dive, kept as the values it shows: a tool and the reason its read is
  incomplete, the chain id the node reports and the one expected, a warning of the run.  The
  deep dive alone sets \<open>confidence\<close> and \<open>evidence\<close> (a claim and its transaction or URL).
\<close>

datatype run_warning = ClampedValue string real real | EvidenceTruncated nat nat | RunFailed string

datatype coverage_item =
  MissingFeature feature | ReadLimited string string | RpcChainMismatch nat nat | RunWarning run_warning

record block_pin =
  bp_number :: int
  bp_hash :: hex
  bp_time :: "millis option"     \<comment> \<open>\<open>Date.parse\<close> of the ISO text, \<open>None\<close> for \<open>NaN\<close>\<close>

record report_content =
  ct_chain :: nat
  ct_token :: address
  ct_launch :: "string option"
  ct_time :: "millis option"
  ct_trigger :: string
  ct_pin :: block_pin
  ct_forecaster :: string
  ct_version :: string
  ct_rule :: string
  ct_probabilities :: grid
  ct_coverage :: "coverage_item list"
  ct_confidence :: "real option"
  ct_evidence :: "(string \<times> string option) list option"

record draft =
  dr_content :: report_content
  dr_json :: string
  dr_hash :: hex
  dr_signature :: "string option"
  dr_signer :: "address option"
  dr_passed :: bool
  dr_failures :: nat                \<comment> \<open>how many failure texts the validator gave\<close>

text \<open>The EIP-712 message; the domain is fixed but for the chain id, which the message carries as well.\<close>

record commitment =
  cm_hash :: hex
  cm_chain :: nat
  cm_token :: address
  cm_time :: int                    \<comment> \<open>unix seconds\<close>
  cm_forecaster :: string

text \<open>
  \<open>sc_canonical\<close> is \<open>canonicalize\<close>, \<open>sc_keccak\<close> the hash of a text's bytes, \<open>sc_sign key m\<close>
  the signature, \<open>sc_recover m sig\<close> the address \<open>recoverTypedDataAddress\<close> answers or its
  error, \<open>sc_address key\<close> the account of a private key.
\<close>

record crypto =
  sc_canonical :: "report_content \<Rightarrow> string"
  sc_keccak :: "string \<Rightarrow> hex"
  sc_sign :: "string \<Rightarrow> commitment \<Rightarrow> string"
  sc_recover :: "commitment \<Rightarrow> string \<Rightarrow> string + address"
  sc_address :: "string \<Rightarrow> address"

definition report_hash :: "crypto \<Rightarrow> string \<Rightarrow> hex" where
  "report_hash c canonical = sc_keccak c canonical"

definition sign_report_commitment :: "crypto \<Rightarrow> string \<Rightarrow> commitment \<Rightarrow> string \<times> address" where
  "sign_report_commitment c key m = (sc_sign c key m, sc_address c key)"

text \<open>\<open>OUTCOME_COLUMN\<close> has every cell: the columns of a report are one optional probability per cell.\<close>

type_synonym columns = "(outcome_key \<times> real option) list"

definition probabilities_to_columns :: "grid \<Rightarrow> columns" where
  "probabilities_to_columns p = map (\<lambda>k. (k, map_of p k)) all_outcome_keys"


section \<open>Feature inputs\<close>

text \<open>
  \<open>launch.feature\<close> has the columns of \<open>feature_inputs\<close>, all nullable; its \<open>source\<close>, lock and
  launch-block cluster fields are not read.
\<close>

definition no_features :: feature_inputs where
  "no_features = \<lparr>fi_source = [], fi_lp_locked = False, fi_creator_devbuy_pct = None, fi_creator_age_days = None,
     fi_creator_prior_launches = None, fi_creator_prior_exit_rate = None, fi_cluster_size = None,
     fi_launch_block_cluster = None, fi_cluster_supply_pct = None, fi_top10_noncreator_pct = None,
     fi_unique_buyers = None, fi_buys_per_buyer = None, fi_microbuy_share = None, fi_liquidity_usd = None,
     fi_sell_impact_bps = None, fi_has_x = None, fi_has_site = None, fi_verified = None, fi_owner_renounced = None,
     fi_mintable = None, fi_sell_sim_ok = None, fi_sell_tax_bps = None, fi_hook_block = None, fi_hook_tax = None,
     fi_hook_lp = None, fi_side_pools = None, fi_approvals = None\<rparr>"

text \<open>\<open>COVERAGE_KEYS\<close> with the test \<open>inputs[k] === null\<close>.\<close>

definition coverage_keys :: "(feature \<times> (feature_inputs \<Rightarrow> bool)) list" where
  "coverage_keys =
     [(CreatorDevbuyPct, \<lambda>i. fi_creator_devbuy_pct i = None), (CreatorAgeDays, \<lambda>i. fi_creator_age_days i = None),
      (CreatorPriorLaunches, \<lambda>i. fi_creator_prior_launches i = None),
      (CreatorPriorInsiderExitRate, \<lambda>i. fi_creator_prior_exit_rate i = None),
      (ClusterSize, \<lambda>i. fi_cluster_size i = None), (LaunchBlockClusterSize, \<lambda>i. fi_launch_block_cluster i = None),
      (ClusterSupplyPct, \<lambda>i. fi_cluster_supply_pct i = None), (Top10NoncreatorPct, \<lambda>i. fi_top10_noncreator_pct i = None),
      (UniqueBuyers10m, \<lambda>i. fi_unique_buyers i = None), (BuysPerBuyer10m, \<lambda>i. fi_buys_per_buyer i = None),
      (MicrobuyShare10m, \<lambda>i. fi_microbuy_share i = None), (LiquidityUsd10m, \<lambda>i. fi_liquidity_usd i = None),
      (SellImpactBps, \<lambda>i. fi_sell_impact_bps i = None), (HasX, \<lambda>i. fi_has_x i = None), (HasSite, \<lambda>i. fi_has_site i = None),
      (VerifiedFeature, \<lambda>i. fi_verified i = None), (OwnerRenounced, \<lambda>i. fi_owner_renounced i = None),
      (Mintable, \<lambda>i. fi_mintable i = None), (SellSimOk, \<lambda>i. fi_sell_sim_ok i = None), (SellTaxBps, \<lambda>i. fi_sell_tax_bps i = None)]"

definition to_feature_inputs :: "string \<Rightarrow> bool \<Rightarrow> feature_inputs option \<Rightarrow> nat \<Rightarrow> feature_inputs \<times> feature list" where
  "to_feature_inputs source locked f launch_block_cluster =
     (let i = (nullish f no_features)\<lparr>fi_source := source, fi_lp_locked := locked,
                 fi_launch_block_cluster := Some (real launch_block_cluster)\<rparr>
      in (i, map fst (filter (\<lambda>(k, missing). missing i) coverage_keys)))"


section \<open>The validator\<close>

datatype validation_failure =
    ChainMismatch | TokenMismatch | PinHashMalformed | PinNumberMissing | PinTimeInvalid
  | NoProbabilities | ProbabilityOutOfRange outcome_key | CleanOnUnknown | HashMismatch
  | UnsignedReport | SignerMismatch

definition hex_char :: "char \<Rightarrow> bool" where
  "hex_char c \<longleftrightarrow> c \<in> set ''0123456789abcdefABCDEF''"

definition bytes32 :: "string \<Rightarrow> bool" where
  "bytes32 s \<longleftrightarrow> length s = 66 \<and> take 2 s = ''0x'' \<and> list_all hex_char (drop 2 s)"

definition total_features :: nat where "total_features = 21"
definition high_unknown_ratio :: real where "high_unknown_ratio = 7 / 10"
definition pass_floor :: real where "pass_floor = 5 / 100"

text \<open>\<open>Math.min\<close> of no probabilities is \<open>Infinity\<close>, never below the floor.\<close>

definition clean_on_unknown :: "report_content \<Rightarrow> bool" where
  "clean_on_unknown c \<longleftrightarrow>
     real (length (ct_coverage c)) \<ge> high_unknown_ratio * real total_features \<and>
     ct_probabilities c \<noteq> [] \<and> Min (set (map snd (ct_probabilities c))) < pass_floor"

definition validate_report :: "crypto \<Rightarrow> nat \<Rightarrow> address \<Rightarrow> address \<Rightarrow> draft \<Rightarrow> validation_failure list" where
  "validate_report cr expected_chain expected_token agent d =
     (let c = dr_content d in
        (if ct_chain c \<noteq> expected_chain then [ChainMismatch] else []) @
        (if lower (ct_token c) \<noteq> lower expected_token then [TokenMismatch] else []) @
        (if \<not> bytes32 (bp_hash (ct_pin c)) then [PinHashMalformed] else []) @
        (if bp_number (ct_pin c) \<le> 0 then [PinNumberMissing] else []) @
        (case bp_time (ct_pin c) of None \<Rightarrow> [PinTimeInvalid] | Some t \<Rightarrow> if t \<le> 0 then [PinTimeInvalid] else []) @
        (if ct_probabilities c = [] then [NoProbabilities] else []) @
        map (\<lambda>(k, p). ProbabilityOutOfRange k) (filter (\<lambda>(k, p). p < 0 \<or> p > 1) (ct_probabilities c)) @
        (if clean_on_unknown c then [CleanOnUnknown] else []) @
        (if report_hash cr (dr_json d) \<noteq> dr_hash d then [HashMismatch] else []) @
        (case (dr_signature d, dr_signer d) of
           (Some s, Some a) \<Rightarrow> if s = [] \<or> a = [] then [UnsignedReport]
             else if lower a \<noteq> lower agent then [SignerMismatch] else []
         | _ \<Rightarrow> [UnsignedReport]))"


section \<open>Assembling the drafts of a launch\<close>

record launch_info =
  li_id :: string
  li_chain :: nat
  li_token :: address
  li_source :: string
  li_locked :: bool
  li_block :: int
  li_features :: "feature_inputs option"
  li_cluster_count :: nat
  li_qualified :: bool
  li_retrospective :: bool

record pinned_block =
  pb_number :: int
  pb_hash :: hex
  pb_seconds :: int

definition blocks_in_10m :: "real \<Rightarrow> int" where
  "blocks_in_10m approx_block_seconds = js_round (10 * 60 / approx_block_seconds)"

record forecast =
  fc_name :: string
  fc_version :: string
  fc_probs :: grid

record model_weights =
  mw_det :: det_weights
  mw_version01 :: string
  mw_bias01 :: "outcome_key \<rightharpoonup> real"

definition launch_forecasts :: "model_weights \<Rightarrow> feature_inputs \<Rightarrow> forecast list" where
  "launch_forecasts w i =
     [\<lparr>fc_name = ''heuristic_v1'', fc_version = ''v1'', fc_probs = he_probabilities (heuristic_v1 i)\<rparr>,
      \<lparr>fc_name = ''det_v0'', fc_version = fst (det_v0 i (mw_det w)), fc_probs = snd (det_v0 i (mw_det w))\<rparr>,
      \<lparr>fc_name = ''det_v0_1'', fc_version = fst (det_v0_1 i (mw_det w) (mw_version01 w) (mw_bias01 w)),
       fc_probs = snd (det_v0_1 i (mw_det w) (mw_version01 w) (mw_bias01 w))\<rparr>]"

definition pin_of_block :: "pinned_block \<Rightarrow> block_pin" where
  "pin_of_block b = \<lparr>bp_number = pb_number b, bp_hash = pb_hash b, bp_time = Some (pb_seconds b * 1000)\<rparr>"

definition draft_of :: "crypto \<Rightarrow> string option \<Rightarrow> launch_info \<Rightarrow> string \<Rightarrow> block_pin \<Rightarrow> feature list \<Rightarrow> forecast \<Rightarrow> draft" where
  "draft_of cr key la trig pin coverage fc =
     (let content = \<lparr>ct_chain = li_chain la, ct_token = li_token la, ct_launch = Some (li_id la), ct_time = bp_time pin,
            ct_trigger = trig, ct_pin = pin, ct_forecaster = fc_name fc, ct_version = fc_version fc, ct_rule = ''v1'',
            ct_probabilities = fc_probs fc, ct_coverage = map MissingFeature coverage, ct_confidence = None, ct_evidence = None\<rparr>;
          json = sc_canonical cr content; h = report_hash cr json;
          m = \<lparr>cm_hash = h, cm_chain = li_chain la, cm_token = li_token la, cm_time = nullish (bp_time pin) 0 div 1000,
               cm_forecaster = fc_name fc\<rparr>;
          signed = (case key of None \<Rightarrow> (None, None)
                    | Some k \<Rightarrow> (case sign_report_commitment cr k m of (s, a) \<Rightarrow> (Some s, Some a)));
          agent = (case key of None \<Rightarrow> ''0x'' @ replicate 40 CHR ''0'' | Some k \<Rightarrow> sc_address cr k);
          d = \<lparr>dr_content = content, dr_json = json, dr_hash = h, dr_signature = fst signed, dr_signer = snd signed,
               dr_passed = False, dr_failures = 0\<rparr>;
          fails = validate_report cr (li_chain la) (li_token la) agent d
      in d\<lparr>dr_passed := (fails = []), dr_failures := length fails\<rparr>)"

text \<open>\<open>block_at n\<close> is \<open>getBlock\<close>; an unknown launch gives no drafts, a failed read throws.\<close>

definition build_launch_reports ::
    "crypto \<Rightarrow> model_weights \<Rightarrow> string option \<Rightarrow> real \<Rightarrow> (int \<Rightarrow> string + pinned_block) \<Rightarrow> launch_info option \<Rightarrow> string \<Rightarrow>
     string + draft list" where
  "build_launch_reports cr w key block_seconds block_at launch trig =
     (case launch of
        None \<Rightarrow> Inr []
      | Some la \<Rightarrow>
          (case to_feature_inputs (li_source la) (li_locked la) (li_features la) (li_cluster_count la) of
             (i, coverage) \<Rightarrow>
               (case block_at (li_block la + blocks_in_10m block_seconds) of
                  Inl e \<Rightarrow> Inl e
                | Inr b \<Rightarrow> Inr (map (draft_of cr key la trig (pin_of_block b) coverage) (launch_forecasts w i)))))"


section \<open>Persisting\<close>

record report_row =
  rr_hash :: hex
  rr_content :: report_content
  rr_columns :: columns
  rr_json :: string
  rr_signature :: "string option"
  rr_signer :: "address option"
  rr_passed :: bool
  rr_failures :: nat

definition row_of_draft :: "draft \<Rightarrow> report_row" where
  "row_of_draft d = \<lparr>rr_hash = dr_hash d, rr_content = dr_content d,
     rr_columns = probabilities_to_columns (ct_probabilities (dr_content d)), rr_json = dr_json d,
     rr_signature = dr_signature d, rr_signer = dr_signer d, rr_passed = dr_passed d, rr_failures = dr_failures d\<rparr>"

text \<open>\<open>upsert\<close> by the unique hash: an existing row only takes the signature and the validator's answer.\<close>

fun upsert_report :: "draft \<Rightarrow> report_row list \<Rightarrow> report_row list" where
  "upsert_report d [] = [row_of_draft d]"
| "upsert_report d (r # rs) =
     (if rr_hash r = dr_hash d
      then r\<lparr>rr_signature := dr_signature d, rr_signer := dr_signer d, rr_passed := dr_passed d, rr_failures := dr_failures d\<rparr> # rs
      else r # upsert_report d rs)"

record persist_state =
  ps_reports :: "report_row list"
  ps_outcomes :: "outcome_row list"

definition persist_launch_reports ::
    "(string \<Rightarrow> launch_info option) \<Rightarrow> draft list \<Rightarrow> persist_state \<Rightarrow> persist_state \<times> nat \<times> nat \<times> nat" where
  "persist_launch_reports launch_of drafts s =
     (let reports = fold upsert_report drafts (ps_reports s);
          passed = length (filter dr_passed drafts);
          outcomes =
            (case drafts of
               [] \<Rightarrow> ps_outcomes s
             | d # _ \<Rightarrow>
                 (case (ct_launch (dr_content d), ct_time (dr_content d)) of
                    (Some lid, Some t) \<Rightarrow>
                      (if lid = [] then ps_outcomes s
                       else case launch_of lid of
                         None \<Rightarrow> ps_outcomes s
                       | Some la \<Rightarrow> fst (ensure_outcome_rows (ct_chain (dr_content d)) (ct_token (dr_content d)) t
                           (li_locked la) (li_qualified la) (li_retrospective la) (ps_outcomes s)))
                  | _ \<Rightarrow> ps_outcomes s))
      in (\<lparr>ps_reports = reports, ps_outcomes = outcomes\<rparr>, length drafts, passed, length drafts - passed))"

section \<open>Facts\<close>

definition plausible_block :: "pinned_block \<Rightarrow> bool" where
  "plausible_block b \<longleftrightarrow> bytes32 (pb_hash b) \<and> 0 < pb_number b \<and> 0 < pb_seconds b"

lemma valid_grid_in_range: "valid_grid g \<Longrightarrow> filter (\<lambda>(k, p). p < 0 \<or> p > 1) g = []"
  by (auto simp: valid_grid_def list_all_iff filter_empty_conv)

lemma launch_forecasts_valid: "fc \<in> set (launch_forecasts w i) \<Longrightarrow> valid_grid (fc_probs fc)"
  by (auto simp: launch_forecasts_def heuristic_valid det_v0_valid det_v0_1_def)

text \<open>Some cell that applies to the token has weights.\<close>

definition weights_cover :: "model_weights \<Rightarrow> bool \<Rightarrow> bool" where
  "weights_cover w locked \<longleftrightarrow> (\<exists>k \<in> set all_outcome_keys. outcome_applies k locked \<and> dw_outcomes (mw_det w) k \<noteq> None)"

lemma launch_forecasts_nonempty:
  assumes "fc \<in> set (launch_forecasts w i)" "weights_cover w (fi_lp_locked i)"
  shows "fc_probs fc \<noteq> []"
proof -
  have det: "snd (det_v0 i d) \<noteq> []"
    if "\<exists>k \<in> set all_outcome_keys. outcome_applies k (fi_lp_locked i) \<and> dw_outcomes d k \<noteq> None" for d
    using that by (auto simp: det_v0_grid filter_empty_conv)
  have "\<exists>k \<in> set all_outcome_keys. outcome_applies k (fi_lp_locked i) \<and>
      dw_outcomes (merge_det_v01 (mw_det w) v ov) k \<noteq> None" for v ov
    using assms(2) by (fastforce simp: weights_cover_def merge_det_v01_def split: option.splits)
  then have "snd (det_v0_1 i (mw_det w) v ov) \<noteq> []" for v ov
    using det by (simp add: det_v0_1_def)
  moreover have "snd (det_v0 i (mw_det w)) \<noteq> []" using det assms(2) by (simp add: weights_cover_def)
  moreover have "he_probabilities (heuristic_v1 i) \<noteq> []"
    using assms(2) by (auto simp: heuristic_v1_def Let_def weights_cover_def filter_empty_conv)
  ultimately show ?thesis using assms(1) by (auto simp: launch_forecasts_def)
qed

lemma draft_fields:
  fixes cr key la trig pin coverage fc
  defines "d \<equiv> draft_of cr key la trig pin coverage fc"
  shows "dr_content d = \<lparr>ct_chain = li_chain la, ct_token = li_token la, ct_launch = Some (li_id la), ct_time = bp_time pin,
      ct_trigger = trig, ct_pin = pin, ct_forecaster = fc_name fc, ct_version = fc_version fc, ct_rule = ''v1'',
      ct_probabilities = fc_probs fc, ct_coverage = map MissingFeature coverage, ct_confidence = None, ct_evidence = None\<rparr>"
    and "dr_json d = sc_canonical cr (dr_content d)" and "dr_hash d = sc_keccak cr (dr_json d)"
    and "dr_signature d = map_option (\<lambda>k. sc_sign cr k \<lparr>cm_hash = dr_hash d, cm_chain = li_chain la, cm_token = li_token la,
      cm_time = nullish (bp_time pin) 0 div 1000, cm_forecaster = fc_name fc\<rparr>) key"
    and "dr_signer d = map_option (sc_address cr) key"
  unfolding d_def draft_of_def Let_def report_hash_def sign_report_commitment_def
  by (simp_all split: option.split)

lemma draft_validated:
  assumes "bytes32 (bp_hash pin)" "0 < bp_number pin" "bp_time pin = Some t" "0 < t"
    and "valid_grid (fc_probs fc)" "fc_probs fc \<noteq> []"
    and "\<And>k m. sc_sign cr k m \<noteq> []" "\<And>k. sc_address cr k \<noteq> []"
  shows "dr_passed (draft_of cr key la trig pin coverage fc) \<longleftrightarrow>
    key \<noteq> None \<and> \<not> clean_on_unknown (dr_content (draft_of cr key la trig pin coverage fc))"
proof (cases key)
  case None
  then show ?thesis
    by (simp add: draft_of_def Let_def validate_report_def)
next
  case (Some k)
  then show ?thesis
    using assms valid_grid_in_range [OF assms(5)]
    by (auto simp: draft_of_def Let_def validate_report_def report_hash_def sign_report_commitment_def)
qed

lemma upsert_report_other: "rr_hash r \<noteq> dr_hash d \<Longrightarrow> r \<in> set rs \<Longrightarrow> r \<in> set (upsert_report d rs)"
  by (induction rs) auto

text \<open>What a row keeps for good: its hash, its content, its columns and its canonical bytes.\<close>

definition same_forecast :: "report_row \<Rightarrow> report_row \<Rightarrow> bool" where
  "same_forecast r q \<longleftrightarrow> rr_hash q = rr_hash r \<and> rr_content q = rr_content r \<and> rr_columns q = rr_columns r \<and> rr_json q = rr_json r"

lemma same_forecast_trans: "same_forecast r q \<Longrightarrow> same_forecast q p \<Longrightarrow> same_forecast r p"
  by (simp add: same_forecast_def)

lemma upsert_report_keeps: "r \<in> set rs \<Longrightarrow> \<exists>q \<in> set (upsert_report d rs). same_forecast r q"
  by (induction rs) (auto simp: same_forecast_def)

lemma upsert_report_hashes:
  "rr_hash ` set (upsert_report d rs) = insert (dr_hash d) (rr_hash ` set rs)"
  by (induction rs) (auto simp: row_of_draft_def)

lemma upsert_report_distinct: "distinct (map rr_hash rs) \<Longrightarrow> distinct (map rr_hash (upsert_report d rs))"
  by (induction rs) (auto simp: row_of_draft_def upsert_report_hashes)

lemma fold_upsert_keeps: "r \<in> set rs \<Longrightarrow> \<exists>q \<in> set (fold upsert_report ds rs). same_forecast r q"
proof (induction ds arbitrary: r rs)
  case Nil
  then show ?case by (auto simp: same_forecast_def)
next
  case (Cons d ds)
  obtain q where "q \<in> set (upsert_report d rs)" "same_forecast r q" using upsert_report_keeps [OF Cons.prems] by blast
  then show ?case using Cons.IH [of q "upsert_report d rs"] same_forecast_trans by fastforce
qed

lemma fold_upsert_distinct: "distinct (map rr_hash rs) \<Longrightarrow> distinct (map rr_hash (fold upsert_report ds rs))"
  by (induction ds arbitrary: rs) (auto simp: upsert_report_distinct)

lemma fold_upsert_hashes: "rr_hash ` set (fold upsert_report ds rs) = rr_hash ` set rs \<union> dr_hash ` set ds"
  by (induction ds arbitrary: rs) (auto simp: upsert_report_hashes)


section \<open>Properties\<close>

text \<open>
  Over a plausible block, with weights for some cell that applies, the drafts of a launch
  pass the validator exactly when they are signed and are not a clean call on unknown
  features; all the other checks hold by construction, probabilities in range included.
\<close>

theorem drafts_pass_validator:
  assumes "build_launch_reports cr w key secs block_at (Some la) trig = Inr ds" "d \<in> set ds"
    and "\<And>n b. block_at n = Inr b \<Longrightarrow> plausible_block b" "weights_cover w (li_locked la)"
    and "\<And>k m. sc_sign cr k m \<noteq> []" "\<And>k. sc_address cr k \<noteq> []"
  shows "(dr_passed d \<longleftrightarrow> key \<noteq> None \<and> \<not> clean_on_unknown (dr_content d)) \<and>
    valid_grid (ct_probabilities (dr_content d)) \<and> dr_hash d = sc_keccak cr (dr_json d)"
proof -
  obtain i coverage where i: "to_feature_inputs (li_source la) (li_locked la) (li_features la) (li_cluster_count la) = (i, coverage)"
    by fastforce
  with assms(1) obtain b where b: "block_at (li_block la + blocks_in_10m secs) = Inr b"
      and ds: "ds = map (draft_of cr key la trig (pin_of_block b) coverage) (launch_forecasts w i)"
    by (auto simp: build_launch_reports_def split: sum.splits)
  from ds assms(2) obtain fc where fc: "fc \<in> set (launch_forecasts w i)"
      and d: "d = draft_of cr key la trig (pin_of_block b) coverage fc" by auto
  have "fi_lp_locked i = li_locked la" using i by (auto simp: to_feature_inputs_def Let_def)
  then have "fc_probs fc \<noteq> []" using launch_forecasts_nonempty [OF fc] assms(4) by simp
  moreover have "valid_grid (fc_probs fc)" by (rule launch_forecasts_valid [OF fc])
  moreover have "plausible_block b" by (rule assms(3) [OF b])
  ultimately show ?thesis
    using draft_validated [of "pin_of_block b" _ fc cr key la trig coverage] assms(5,6)
    by (simp add: d plausible_block_def pin_of_block_def draft_fields)
qed

text \<open>
  A stored forecast is write-once: whatever is persisted later, the row of a hash keeps
  its content, its probability columns and its canonical bytes, and hashes stay unique.
\<close>

theorem stored_forecasts_are_write_once:
  assumes "persist_launch_reports launch_of ds s = (s', counts)" "r \<in> set (ps_reports s)" "distinct (map rr_hash (ps_reports s))"
  shows "(\<exists>q \<in> set (ps_reports s'). same_forecast r q) \<and> distinct (map rr_hash (ps_reports s')) \<and>
    rr_hash ` set (ps_reports s') = rr_hash ` set (ps_reports s) \<union> dr_hash ` set ds"
proof -
  have "ps_reports s' = fold upsert_report ds (ps_reports s)"
    using assms(1) by (auto simp: persist_launch_reports_def Let_def)
  then show ?thesis
    using fold_upsert_keeps [OF assms(2), of ds] fold_upsert_distinct [OF assms(3), of ds]
      fold_upsert_hashes [of ds "ps_reports s"] by simp
qed

text \<open>
  Persisting an unsigned draft of the same hash erases the signature of the stored report,
  committed or not: the update writes the draft's signature columns as they are.
\<close>

theorem unsigned_rerun_erases_signature:
  assumes "r \<in> set rs" "distinct (map rr_hash rs)" "dr_hash d = rr_hash r" "dr_signature d = None"
  shows "\<exists>q \<in> set (upsert_report d rs). same_forecast r q \<and> rr_signature q = None"
  using assms by (induction rs) (auto simp: same_forecast_def)

text \<open>
  The probability columns of a report read back as its grid: every cell has its column,
  empty exactly when the cell was not forecast.
\<close>

theorem columns_roundtrip:
  assumes "valid_grid p"
  shows "map_of (List.map_filter (\<lambda>(k, v). map_option (Pair k) v) (probabilities_to_columns p)) = map_of p"
proof
  fix k
  have "map_of (List.map_filter (\<lambda>(k, v). map_option (Pair k) v) (map (\<lambda>k. (k, f k)) ks)) k =
      (if k \<in> set ks then f k else None)" for f :: "outcome_key \<Rightarrow> real option" and ks
    by (induction ks) (auto simp: List.map_filter_def)
  moreover have "map_of p k = None" if "k \<notin> set all_outcome_keys"
    using assms that by (auto simp: valid_grid_def list_all_iff map_of_eq_None_iff)
  ultimately show "map_of (List.map_filter (\<lambda>(k, v). map_option (Pair k) v) (probabilities_to_columns p)) k = map_of p k"
    unfolding probabilities_to_columns_def by (simp add: comp_def)
qed

text \<open>
  The guard against clean calls on unknown features takes the lowest probability of all
  cells, \<open>TRADING_ALIVE\<close> included, whose polarity is reversed: this forecast calls the
  token almost surely dead and a 90 percent insider exit, and is refused as a clean call.
\<close>

definition alarmed_content :: report_content where
  "alarmed_content = \<lparr>ct_chain = 4663, ct_token = ''0xa'', ct_launch = None, ct_time = Some 1000, ct_trigger = ''launch'',
     ct_pin = \<lparr>bp_number = 1, bp_hash = ''0x'', bp_time = Some 1000\<rparr>, ct_forecaster = ''det_v0'', ct_version = ''v'', ct_rule = ''v1'',
     ct_probabilities = [((InsiderExit, H24), 9 / 10), ((TradingAlive, H24), 4 / 100)],
     ct_coverage = replicate 15 (MissingFeature HasX), ct_confidence = None, ct_evidence = None\<rparr>"

theorem alarm_read_as_clean_call:
  "clean_on_unknown alarmed_content \<and>
   map_of (ct_probabilities alarmed_content) (InsiderExit, H24) = Some (9 / 10) \<and>
   \<not> outcome_is_positive (InsiderExit, H24) \<and> outcome_is_positive (TradingAlive, H24)"
  by (simp add: clean_on_unknown_def alarmed_content_def high_unknown_ratio_def total_features_def pass_floor_def
      outcome_is_positive_def)

subsection \<open>Witnesses\<close>

text \<open>A text as a unary number behind a zero: injective, and in lower case already.\<close>

definition demo_keccak :: "string \<Rightarrow> hex" where
  "demo_keccak x = CHR ''0'' # replicate (to_nat x) CHR ''1''"

lemma demo_keccak_lower [simp]: "lower (demo_keccak x) = demo_keccak x"
  by (simp add: demo_keccak_def lower_def lower_char_def map_replicate_const)

lemma demo_keccak_inj: "demo_keccak x = demo_keccak y \<Longrightarrow> x = y"
proof -
  assume "demo_keccak x = demo_keccak y"
  then have "length (demo_keccak x) = length (demo_keccak y)" by (rule arg_cong)
  then show "x = y" by (simp add: demo_keccak_def)
qed

definition demo_crypto :: crypto where
  "demo_crypto = \<lparr>sc_canonical = ct_forecaster, sc_keccak = demo_keccak, sc_sign = (\<lambda>k m. k @ cm_hash m @ ''s''),
     sc_recover = (\<lambda>m s. Inr ''0xA''), sc_address = (\<lambda>k. ''0xA'')\<rparr>"

definition demo_model :: model_weights where
  "demo_model = \<lparr>mw_det = demo_weights, mw_version01 = ''det_v0.1'', mw_bias01 = Map.empty\<rparr>"

definition demo_launch :: launch_info where
  "demo_launch = \<lparr>li_id = ''l'', li_chain = 4663, li_token = ''0xT'', li_source = ''pad'', li_locked = False, li_block = 100,
     li_features = None, li_cluster_count = 2, li_qualified = True, li_retrospective = False\<rparr>"

definition demo_block :: pinned_block where
  "demo_block = \<lparr>pb_number = 700, pb_hash = ''0x'' @ replicate 64 CHR ''0'', pb_seconds = 1700000000\<rparr>"

definition demo_drafts :: "draft list" where
  "demo_drafts = projr (build_launch_reports demo_crypto demo_model (Some ''k'') 1 (\<lambda>_. Inr demo_block) (Some demo_launch) ''launch'')"

lemma demo_drafts_built:
  "build_launch_reports demo_crypto demo_model (Some ''k'') 1 (\<lambda>_. Inr demo_block) (Some demo_launch) ''launch'' = Inr demo_drafts"
  by (simp add: demo_drafts_def build_launch_reports_def split: prod.split)

lemma demo_drafts_nonempty: "demo_drafts \<noteq> []"
  using demo_drafts_built by (auto simp: build_launch_reports_def launch_forecasts_def split: prod.splits)

lemma hd_demo_drafts: "hd demo_drafts \<in> set demo_drafts"
  using demo_drafts_nonempty by (rule hd_in_set)

lemma demo_block_plausible: "plausible_block demo_block"
  by (simp add: plausible_block_def demo_block_def bytes32_def hex_char_def list_all_iff)

theorem drafts_pass_validator_witness:
  "(dr_passed (hd demo_drafts) \<longleftrightarrow> \<not> clean_on_unknown (dr_content (hd demo_drafts))) \<and>
   valid_grid (ct_probabilities (dr_content (hd demo_drafts)))"
proof -
  have "weights_cover demo_model (li_locked demo_launch)"
    by (auto simp: weights_cover_def demo_model_def demo_launch_def demo_weights_def all_outcome_keys_def outcome_applies_def)
  then show ?thesis
    using drafts_pass_validator [OF demo_drafts_built hd_demo_drafts] demo_block_plausible
    by (simp add: demo_crypto_def)
qed

definition demo_row :: report_row where
  "demo_row = \<lparr>rr_hash = ''h'', rr_content = alarmed_content, rr_columns = [], rr_json = ''j'', rr_signature = Some ''s'',
     rr_signer = Some ''0xA'', rr_passed = True, rr_failures = 0\<rparr>"

definition demo_unsigned :: draft where
  "demo_unsigned = \<lparr>dr_content = alarmed_content, dr_json = ''j'', dr_hash = ''h'', dr_signature = None, dr_signer = None,
     dr_passed = False, dr_failures = 1\<rparr>"

theorem stored_forecasts_are_write_once_witness:
  "\<exists>q \<in> set (ps_reports (fst (persist_launch_reports (\<lambda>_. None) [demo_unsigned] \<lparr>ps_reports = [demo_row], ps_outcomes = []\<rparr>))).
     same_forecast demo_row q"
  using stored_forecasts_are_write_once [of "\<lambda>_. None" "[demo_unsigned]" "\<lparr>ps_reports = [demo_row], ps_outcomes = []\<rparr>" _ _ demo_row,
      OF surjective_pairing] by simp

theorem unsigned_rerun_erases_signature_witness:
  "\<exists>q \<in> set (upsert_report demo_unsigned [demo_row]). same_forecast demo_row q \<and> rr_signature q = None \<and> rr_signature demo_row = Some ''s''"
  using unsigned_rerun_erases_signature [of demo_row "[demo_row]" demo_unsigned] by (simp add: demo_row_def demo_unsigned_def)

theorem columns_roundtrip_witness:
  "map_of (List.map_filter (\<lambda>(k, v). map_option (Pair k) v) (probabilities_to_columns [((InsiderExit, H24), 1 / 2)])) =
   map_of [((InsiderExit, H24), 1 / 2)]"
  by (rule columns_roundtrip) (simp add: valid_grid_def all_outcome_keys_def)

end
