(* ===== verification/Receipts.thy ===== *)
theory Receipts
  imports Reports CommitJob
begin

text \<open>
  Receipts (\<open>apps/api/src/receipt.ts\<close>, \<open>verify-receipt.ts\<close> and the script
  \<open>apps/api/scripts/verify-receipt.ts\<close>): the receipt the API builds for a forecast, and its
  verification off line and against the chain by somebody who does not trust the API.
  \<open>JSON.parse\<close>, the hash, the signature recovery and the chain client are parameters; the
  detail texts of the checks are left out.
\<close>


section \<open>The receipt\<close>

text \<open>
  The reading of \<open>content.reportTime\<close>: absent, a text \<open>Date.parse\<close> cannot read (the empty
  text included) or a time.
\<close>

datatype time_text = NoTime | BadTime | TimeAt millis

record content_view =
  cv_chain :: "nat option"
  cv_token :: "string option"
  cv_time :: time_text
  cv_forecaster :: "string option"

record receipt_commit =
  rx_tx :: "hex option"
  rx_block :: "nat option"
  rx_root :: hex
  rx_leaves :: "stored_leaf list option"

record receipt_row =
  rt_hash :: hex
  rt_json :: string
  rt_signature :: "string option"
  rt_signer :: "address option"
  rt_chain :: nat
  rt_token :: address
  rt_time :: millis
  rt_forecaster :: string
  rt_commit :: "receipt_commit option"

record outcome_view =
  ov_key :: outcome_key
  ov_status :: outcome_status
  ov_value :: "bool option"

record receipt_outcome = outcome_view +
  ro_horizon_end :: millis
  ro_eligibility :: eligibility

record receipt =
  re_hash :: hex
  re_json :: string
  re_content :: "content_view option"
  re_signature :: "string option"
  re_signer :: "address option"
  re_message :: commitment
  re_committed :: bool
  re_registry :: "address option"
  re_tx :: "hex option"
  re_block :: "nat option"
  re_block_time :: "millis option"
  re_root :: "hex option"
  re_index :: "int option"
  re_proof :: "hex list option"
  re_lag :: "int option"
  re_outcomes :: "receipt_outcome list"

definition receipt_leaf :: "receipt_row \<Rightarrow> stored_leaf option" where
  "receipt_leaf row =
     (case rt_commit row of
        None \<Rightarrow> None
      | Some c \<Rightarrow> List.find (\<lambda>l. lower (sl_hash l) = lower (rt_hash row)) (nullish (rx_leaves c) []))"

definition receipt_outcome_of :: "millis \<Rightarrow> bool \<Rightarrow> millis option \<Rightarrow> outcome_view \<Rightarrow> receipt_outcome" where
  "receipt_outcome_of anchor committed block_time q =
     (let horizon_end = anchor + horizon_to_ms (snd (ov_key q))
      in \<lparr>ov_key = ov_key q, ov_status = ov_status q, ov_value = ov_value q, ro_horizon_end = horizon_end,
          ro_eligibility = classify_eligibility \<lparr>el_report_time = anchor, el_committed = committed,
            el_commit_block_time = block_time, el_horizon_end = horizon_end\<rparr>\<rparr>)"

definition build_receipt ::
    "(string \<Rightarrow> content_view option) \<Rightarrow> receipt_row \<Rightarrow> outcome_view list \<Rightarrow> millis option \<Rightarrow> address option \<Rightarrow> receipt" where
  "build_receipt parse row outcomes block_time registry =
     (let leaf = receipt_leaf row;
          block = (case rt_commit row of None \<Rightarrow> None | Some c \<Rightarrow> rx_block c);
          committed = block \<noteq> None
      in \<lparr>re_hash = rt_hash row, re_json = rt_json row, re_content = parse (rt_json row),
          re_signature = rt_signature row, re_signer = rt_signer row,
          re_message = \<lparr>cm_hash = rt_hash row, cm_chain = rt_chain row, cm_token = rt_token row,
            cm_time = rt_time row div 1000, cm_forecaster = rt_forecaster row\<rparr>,
          re_committed = committed, re_registry = registry,
          re_tx = (case rt_commit row of None \<Rightarrow> None | Some c \<Rightarrow> rx_tx c), re_block = block,
          re_block_time = block_time, re_root = map_option rx_root (rt_commit row),
          re_index = map_option sl_index leaf, re_proof = map_option sl_proof leaf,
          re_lag = map_option (\<lambda>t. js_round (of_int (t - rt_time row) / 1000)) block_time,
          re_outcomes = map (receipt_outcome_of (rt_time row) committed block_time) outcomes\<rparr>)"

text \<open>
  The reader's cache of block times: a hit, no client, or the client's answer; a failed read
  is an unknown time and is not cached.
\<close>

definition block_time_of ::
    "(nat \<Rightarrow> string + int) option \<Rightarrow> nat \<Rightarrow> (nat \<rightharpoonup> millis) \<Rightarrow> millis option \<times> (nat \<rightharpoonup> millis)" where
  "block_time_of client n cache =
     (case cache n of
        Some t \<Rightarrow> (Some t, cache)
      | None \<Rightarrow>
          (case client of
             None \<Rightarrow> (None, cache)
           | Some get_block \<Rightarrow>
               (case get_block n of
                  Inl e \<Rightarrow> (None, cache)
                | Inr secs \<Rightarrow> (Some (secs * 1000), cache(n \<mapsto> secs * 1000)))))"

text \<open>
  \<open>prismaReceiptReader\<close>: the row by its hash with its commit, the outcomes of the same
  anchor as the query returns them.
\<close>

definition receipt_reader ::
    "(string \<Rightarrow> content_view option) \<Rightarrow> (nat \<Rightarrow> string + int) option \<Rightarrow> address option \<Rightarrow> receipt_row list \<Rightarrow>
     (nat \<Rightarrow> address \<Rightarrow> millis \<Rightarrow> outcome_view list) \<Rightarrow> hex \<Rightarrow> (nat \<rightharpoonup> millis) \<Rightarrow> receipt option \<times> (nat \<rightharpoonup> millis)" where
  "receipt_reader parse client registry rows outcomes_of h cache =
     (case List.find (\<lambda>r. rt_hash r = h) rows of
        None \<Rightarrow> (None, cache)
      | Some r \<Rightarrow>
          (case (case rt_commit r of None \<Rightarrow> None | Some c \<Rightarrow> rx_block c) of
             None \<Rightarrow> (Some (build_receipt parse r (outcomes_of (rt_chain r) (rt_token r) (rt_time r)) None registry), cache)
           | Some n \<Rightarrow>
               (case block_time_of client n cache of
                  (bt, cache') \<Rightarrow>
                    (Some (build_receipt parse r (outcomes_of (rt_chain r) (rt_token r) (rt_time r)) bt registry), cache'))))"


section \<open>Verification off line\<close>

datatype check_name = HashCheck | SignatureCheck | MerkleCheck | RootCheck | BlockCheck | BlockTimeCheck

type_synonym check = "check_name \<times> bool"

definition signature_check :: "crypto \<Rightarrow> content_view \<Rightarrow> receipt \<Rightarrow> hex \<Rightarrow> address \<Rightarrow> check" where
  "signature_check cr content r recomputed expected_signer =
     (case (re_signature r, cv_chain content, cv_token content, cv_time content, cv_forecaster content) of
        (Some sg, Some ch, Some tok, TimeAt t, Some fc) \<Rightarrow>
          if sg = [] \<or> tok = [] \<or> fc = [] then (SignatureCheck, False)
          else
            (let recovered =
                (case sc_recover cr \<lparr>cm_hash = recomputed, cm_chain = ch, cm_token = tok, cm_time = t div 1000,
                    cm_forecaster = fc\<rparr> sg of Inr a \<Rightarrow> a | Inl e \<Rightarrow> ''error: '' @ e)
             in (SignatureCheck, lower recovered = lower expected_signer))
      | _ \<Rightarrow> (SignatureCheck, False))"

definition merkle_check :: "hasher \<Rightarrow> receipt \<Rightarrow> hex \<Rightarrow> check" where
  "merkle_check H r recomputed =
     (case (re_proof r, re_root r) of
        (Some pf, Some rootv) \<Rightarrow>
          if rootv = [] then (MerkleCheck, False)
          else (MerkleCheck, lower (fold_proof H (lower recomputed) pf) = lower rootv)
      | _ \<Rightarrow> (MerkleCheck, False))"

definition verify_receipt_offline ::
    "crypto \<Rightarrow> hasher \<Rightarrow> (string \<Rightarrow> content_view option) \<Rightarrow> receipt \<Rightarrow> hex \<Rightarrow> address \<Rightarrow> check list" where
  "verify_receipt_offline cr H parse r expected_hash expected_signer =
     (let recomputed = sc_keccak cr (re_json r);
          hash_check = (HashCheck, lower recomputed = lower expected_hash)
      in case parse (re_json r) of
           None \<Rightarrow> [hash_check, (SignatureCheck, False)]
         | Some content \<Rightarrow>
             [hash_check, signature_check cr content r recomputed expected_signer, merkle_check H r recomputed])"


section \<open>Verification against the chain\<close>

text \<open>\<open>retry\<close> of the verifier: every error is retried, ten attempts, the last error thrown.\<close>

definition verifier_retry :: "(nat \<Rightarrow> string + 'a) \<Rightarrow> string + 'a" where
  "verifier_retry f = with_retry (\<lambda>_. True) 10 f"

text \<open>A log is its emitter and the root \<open>decodeEventLog\<close> reads from it, if it is a \<open>BatchCommitted\<close>.\<close>

type_synonym root_log = "address \<times> hex option"

fun root_in_tx_logs :: "root_log list \<Rightarrow> address \<Rightarrow> hex \<Rightarrow> bool" where
  "root_in_tx_logs [] registry rootv = False"
| "root_in_tx_logs ((addr, decoded) # ls) registry rootv =
     (if lower addr \<noteq> lower registry then root_in_tx_logs ls registry rootv
      else case decoded of
        None \<Rightarrow> root_in_tx_logs ls registry rootv
      | Some m \<Rightarrow> if lower m = lower rootv then True else root_in_tx_logs ls registry rootv)"

record tx_view =
  tv_success :: bool
  tv_block :: nat
  tv_logs :: "root_log list"

text \<open>The client's answers by attempt: the receipt of a transaction, the seconds of a block.\<close>

record chain_client =
  cc_tx :: "hex \<Rightarrow> nat \<Rightarrow> string + tx_view"
  cc_block :: "nat \<Rightarrow> nat \<Rightarrow> string + int"

definition verify_receipt_on_chain :: "chain_client \<Rightarrow> receipt \<Rightarrow> address \<Rightarrow> string + check list \<times> millis option" where
  "verify_receipt_on_chain client r registry =
     (case (re_block r, re_root r, re_tx r) of
        (Some block, Some rootv, Some tx_hash) \<Rightarrow>
          if rootv = [] \<or> tx_hash = [] then Inr ([(RootCheck, False)], None)
          else
            (case verifier_retry (cc_tx client tx_hash) of
               Inl e \<Rightarrow> Inl e
             | Inr tx \<Rightarrow>
                 (case verifier_retry (cc_block client (tv_block tx)) of
                    Inl e \<Rightarrow> Inl e
                  | Inr secs \<Rightarrow>
                      Inr ([(RootCheck, tv_success tx \<and> root_in_tx_logs (tv_logs tx) registry rootv),
                            (BlockCheck, tv_block tx = block), (BlockTimeCheck, True)], Some (secs * 1000))))
      | _ \<Rightarrow> Inr ([(RootCheck, False)], None))"

text \<open>
  With an invalid anchor date every comparison of \<open>classifyEligibility\<close> is one with \<open>NaN\<close>,
  hence false.
\<close>

definition classify_at :: "millis option \<Rightarrow> bool \<Rightarrow> millis option \<Rightarrow> horizon \<Rightarrow> eligibility" where
  "classify_at anchor committed block_time h =
     (case anchor of
        Some a \<Rightarrow> classify_eligibility \<lparr>el_report_time = a, el_committed = committed,
                    el_commit_block_time = block_time, el_horizon_end = a + horizon_to_ms h\<rparr>
      | None \<Rightarrow> if \<not> committed then Uncommitted else if block_time = None then MissingTime else Eligible)"

fun anchor_of :: "time_text \<Rightarrow> millis option" where
  "anchor_of NoTime = Some 0"
| "anchor_of BadTime = None"
| "anchor_of (TimeAt t) = Some t"

definition eligibility_from_chain ::
    "(string \<Rightarrow> content_view option) \<Rightarrow> receipt \<Rightarrow> millis option \<Rightarrow> string + (outcome_key \<times> eligibility) list" where
  "eligibility_from_chain parse r block_time =
     (case parse (re_json r) of
        None \<Rightarrow> Inl ''JSON''
      | Some content \<Rightarrow>
          Inr (map (\<lambda>q. (ov_key q, classify_at (anchor_of (cv_time content)) (re_committed r) block_time (snd (ov_key q))))
                (re_outcomes r)))"

text \<open>
  The script: its exit code (1 also when something throws) and the table it prints.  The
  hash argument has already matched its pattern.
\<close>

definition verify_receipt_main ::
    "crypto \<Rightarrow> hasher \<Rightarrow> (string \<Rightarrow> content_view option) \<Rightarrow> chain_client \<Rightarrow> address \<Rightarrow> address \<Rightarrow> hex \<Rightarrow> receipt \<Rightarrow>
     nat \<times> (outcome_key \<times> eligibility) list" where
  "verify_receipt_main cr H parse client signer registry h r =
     (case verify_receipt_on_chain client r registry of
        Inl e \<Rightarrow> (1, [])
      | Inr (on_chain, block_time) \<Rightarrow>
          (let checks = verify_receipt_offline cr H parse r h signer @ on_chain
           in case eligibility_from_chain parse r block_time of
                Inl e \<Rightarrow> (1, [])
              | Inr table \<Rightarrow> (if filter (\<lambda>(n, ok). \<not> ok) checks \<noteq> [] then 1 else 0, table)))"

section \<open>Facts\<close>

text \<open>Every row the commit job records comes from the tree of its batch.\<close>

definition row_from_tree :: "hasher \<Rightarrow> commit_row \<Rightarrow> bool" where
  "row_from_tree H row \<longleftrightarrow> (\<exists>batch t. build_merkle_tree H (map p_hash batch) = Inr t \<and>
     cm_root row = root t \<and> cm_leaves row = map (leaf_of t) batch)"

definition rows_from_trees :: "hasher \<Rightarrow> commit_state \<Rightarrow> bool" where
  "rows_from_trees H s \<longleftrightarrow> (\<forall>row \<in> set (commits s). row_from_tree H row)"

lemma record_batch_rows:
  "rows_from_trees H s \<Longrightarrow> build_merkle_tree H (map p_hash batch) = Inr t \<Longrightarrow>
   rows_from_trees H (snd (record_batch registry batch t tx receipt s))"
  by (auto simp: rows_from_trees_def record_batch_def Let_def row_from_tree_def)

lemma send_batch_rows:
  assumes "rows_from_trees H s"
  shows "rows_from_trees H (snd (send_batch H env registry i pend s))"
proof -
  have "rows_from_trees H (s\<lparr>sent := x\<rparr>)" "rows_from_trees H (s\<lparr>sent := x, unconfirmed := u\<rparr>)" for x u
    using assms by (simp_all add: rows_from_trees_def)
  with assms show ?thesis
    by (auto simp: send_batch_def Let_def record_batch_rows split: sum.splits option.splits)
qed

lemma commit_pending_rows: "rows_from_trees H s \<Longrightarrow> rows_from_trees H (snd (commit_pending H env registry i held s))"
  by (auto simp: commit_pending_def Let_def send_batch_rows)

lemma run_commit_batch_rows:
  assumes "rows_from_trees H s"
  shows "rows_from_trees H (snd (run_commit_batch H env i s))"
proof -
  have c: "rows_from_trees H (s\<lparr>unconfirmed := None\<rparr>)" using assms by (simp add: rows_from_trees_def)
  show ?thesis
    by (cases rule: run_commit_batch_cases [of env H i s])
      (simp_all add: assms c commit_pending_rows record_batch_rows)
qed

lemma commit_reach_rows: "commit_reach H env s \<Longrightarrow> rows_from_trees H s"
proof (induction rule: commit_reach.induct)
  case reach_init
  show ?case by (simp add: rows_from_trees_def commit_init_def)
next
  case (reach_step s s')
  from reach_step(2) show ?case
  proof cases
    case (tick i)
    then show ?thesis using run_commit_batch_rows [OF reach_step(3)] by simp
  next
    case (insert_report r)
    then show ?thesis using reach_step(3) by (simp add: rows_from_trees_def)
  qed
qed

lemma found_leaf_verifies:
  assumes "lower_hash H" "row_from_tree H row" "List.find (\<lambda>l. lower (sl_hash l) = lower h) (cm_leaves row) = Some l"
  shows "verify_proof H h (sl_proof l) (cm_root row)"
proof -
  obtain batch t where t: "build_merkle_tree H (map p_hash batch) = Inr t" "cm_root row = root t"
      "cm_leaves row = map (leaf_of t) batch"
    using assms(2) by (auto simp: row_from_tree_def)
  obtain q where q: "q \<in> set batch" "l = leaf_of t q" "lower (p_hash q) = lower h"
    using assms(3) t(3) by (force simp: find_Some_iff leaf_of_def Let_def)
  have "lower h \<in> lower ` set (map p_hash batch)" using q by (auto simp flip: q(3))
  then show ?thesis
    using tree_proof_folds [OF assms(1) t(1)] q t(2)
    by (auto simp: verify_proof_def leaf_of_def Let_def)
qed

lemma fold_proof_nonempty: "(\<And>a b. H a b \<noteq> []) \<Longrightarrow> l \<noteq> [] \<Longrightarrow> fold_proof H l pf \<noteq> []"
  by (induction pf rule: rev_induct) (auto simp: fold_proof_def hash_pair_def)

text \<open>The row of a report joined with the row of its commit, as the reader's query selects it.\<close>

definition join_commit :: "report_row \<Rightarrow> commit_row option \<Rightarrow> receipt_row" where
  "join_commit r c = \<lparr>rt_hash = rr_hash r, rt_json = rr_json r, rt_signature = rr_signature r, rt_signer = rr_signer r,
     rt_chain = ct_chain (rr_content r), rt_token = ct_token (rr_content r),
     rt_time = nullish (ct_time (rr_content r)) 0, rt_forecaster = ct_forecaster (rr_content r),
     rt_commit = map_option (\<lambda>c. \<lparr>rx_tx = Some (cm_tx c), rx_block = Some (cm_block c), rx_root = cm_root c,
       rx_leaves = Some (cm_leaves c)\<rparr>) c\<rparr>"

text \<open>What \<open>JSON.parse\<close> has to give back of the canonical text.\<close>

definition view_of :: "report_content \<Rightarrow> content_view" where
  "view_of x = \<lparr>cv_chain = Some (ct_chain x), cv_token = Some (ct_token x),
     cv_time = (case ct_time x of None \<Rightarrow> BadTime | Some t \<Rightarrow> TimeAt t), cv_forecaster = Some (ct_forecaster x)\<rparr>"

lemma launch_forecasts_named: "fc \<in> set (launch_forecasts w i) \<Longrightarrow> fc_name fc \<noteq> []"
  by (auto simp: launch_forecasts_def)

lemma build_launch_reports_draft:
  assumes "build_launch_reports cr w key secs block_at (Some la) trig = Inr ds" "d \<in> set ds"
  obtains i coverage b fc where "fc \<in> set (launch_forecasts w i)" "fi_lp_locked i = li_locked la"
    "block_at (li_block la + blocks_in_10m secs) = Inr b"
    "d = draft_of cr key la trig (pin_of_block b) coverage fc"
proof -
  obtain i coverage where i: "to_feature_inputs (li_source la) (li_locked la) (li_features la) (li_cluster_count la) = (i, coverage)"
    by fastforce
  then have "fi_lp_locked i = li_locked la" by (auto simp: to_feature_inputs_def Let_def)
  with that i assms show ?thesis by (auto simp: build_launch_reports_def split: sum.splits)
qed

lemma offline_checks:
  assumes "parse (re_json r) = Some content"
  shows "verify_receipt_offline cr H parse r h signer =
    [(HashCheck, lower (sc_keccak cr (re_json r)) = lower h),
     signature_check cr content r (sc_keccak cr (re_json r)) signer, merkle_check H r (sc_keccak cr (re_json r))]"
  using assms by (simp add: verify_receipt_offline_def Let_def)

lemma signature_check_passes:
  "snd (signature_check cr content r h signer) \<Longrightarrow>
   \<exists>sg ch tok t fc a. re_signature r = Some sg \<and> content = \<lparr>cv_chain = Some ch, cv_token = Some tok, cv_time = TimeAt t, cv_forecaster = Some fc\<rparr> \<and>
     lower a = lower signer \<and> (sc_recover cr \<lparr>cm_hash = h, cm_chain = ch, cm_token = tok, cm_time = t div 1000,
       cm_forecaster = fc\<rparr> sg = Inr a \<or> (\<exists>e. a = ''error: '' @ e))"
  by (cases content) (auto simp: signature_check_def Let_def split: option.splits time_text.splits if_splits sum.splits)

lemma merkle_check_passes:
  "snd (merkle_check H r h) \<Longrightarrow> \<exists>pf rootv. re_proof r = Some pf \<and> re_root r = Some rootv \<and> verify_proof H h pf rootv"
  by (auto simp: merkle_check_def verify_proof_def split: option.splits if_splits)

lemma on_chain_passes:
  assumes "verify_receipt_on_chain client r registry = Inr (cs, bt)" "\<forall>c \<in> set cs. snd c"
  shows "\<exists>block rootv tx_hash tx secs. re_block r = Some block \<and> re_root r = Some rootv \<and> re_tx r = Some tx_hash \<and>
    verifier_retry (cc_tx client tx_hash) = Inr tx \<and> tv_success tx \<and> root_in_tx_logs (tv_logs tx) registry rootv \<and>
    tv_block tx = block \<and> verifier_retry (cc_block client block) = Inr secs \<and> bt = Some (secs * 1000)"
  using assms by (auto simp: verify_receipt_on_chain_def split: option.splits if_splits sum.splits)

lemma root_in_tx_logs_iff:
  "root_in_tx_logs ls registry rootv \<longleftrightarrow>
   (\<exists>(addr, decoded) \<in> set ls. lower addr = lower registry \<and> (\<exists>m. decoded = Some m \<and> lower m = lower rootv))"
  by (induction ls registry rootv rule: root_in_tx_logs.induct) (auto split: option.splits)

lemma main_passes:
  assumes "fst (verify_receipt_main cr H parse client signer registry h r) = 0"
  obtains content cs bt where "parse (re_json r) = Some content"
    "verify_receipt_on_chain client r registry = Inr (cs, bt)" "\<forall>c \<in> set cs. snd c"
    "lower (sc_keccak cr (re_json r)) = lower h" "snd (signature_check cr content r (sc_keccak cr (re_json r)) signer)"
    "snd (merkle_check H r (sc_keccak cr (re_json r)))"
proof -
  obtain cs bt where chain: "verify_receipt_on_chain client r registry = Inr (cs, bt)"
    using assms by (auto simp: verify_receipt_main_def split: sum.splits)
  obtain content where content: "parse (re_json r) = Some content"
    using assms chain by (auto simp: verify_receipt_main_def eligibility_from_chain_def split: option.splits)
  have "filter (\<lambda>(n, ok). \<not> ok) (verify_receipt_offline cr H parse r h signer @ cs) = []"
    using assms chain content by (auto simp: verify_receipt_main_def eligibility_from_chain_def Let_def split: if_splits)
  then have "\<forall>c \<in> set (verify_receipt_offline cr H parse r h signer @ cs). snd c"
    by (auto simp: filter_empty_conv)
  then show ?thesis using that [OF content chain] by (simp add: offline_checks [of parse r content] content)
qed


section \<open>Properties\<close>

text \<open>
  C2: A genuine forecast verifies, end to end: for every draft of a signed launch whose report the
  commit job has committed, the receipt the API builds from the stored rows passes the three
  checks of the off-line verifier, against the hash of the draft and the address of the key.
\<close>

theorem committed_receipt_verifies:
  assumes "build_launch_reports cr w (Some key) secs block_at (Some la) trig = Inr ds" "d \<in> set ds" "li_token la \<noteq> []"
    and "lower_hash H" "commit_reach H env s" "r \<in> set (reports s)" "p_hash r = dr_hash d" "r_commit r = Some c"
    and recover: "\<And>m. sc_recover cr m (sc_sign cr key m) = Inr (sc_address cr key)" and "\<And>m. sc_sign cr key m \<noteq> []"
    and parse: "parse (dr_json d) = Some (view_of (dr_content d))" and "\<And>x. sc_keccak cr x \<noteq> []" "\<And>a b. H a b \<noteq> []"
  shows "\<exists>row \<in> set (commits s). cm_id row = c \<and>
    verify_receipt_offline cr H parse (build_receipt parse (join_commit (row_of_draft d) (Some row)) outs bt registry)
      (dr_hash d) (sc_address cr key) = [(HashCheck, True), (SignatureCheck, True), (MerkleCheck, True)]"
proof -
  obtain i coverage b fc where fc: "fc \<in> set (launch_forecasts w i)"
      and d: "d = draft_of cr (Some key) la trig (pin_of_block b) coverage fc"
    using build_launch_reports_draft [OF assms(1,2)] by metis
  note fields = draft_fields [of cr "Some key" la trig "pin_of_block b" coverage fc, folded d]
  obtain row sl where row: "row \<in> set (commits s)" "cm_id row = c"
      and sl: "sl \<in> set (cm_leaves row)" "sl_hash sl = lower (dr_hash d)"
    using commit_reach_inv [OF assms(5,4)] assms(6-8) unfolding commit_inv_def anchored_def by metis
  let ?row = "join_commit (row_of_draft d) (Some row)"
  have "List.find (\<lambda>l. lower (sl_hash l) = lower (dr_hash d)) (cm_leaves row) \<noteq> None"
    using sl by (auto simp: find_None_iff)
  then obtain leaf where leaf: "List.find (\<lambda>l. lower (sl_hash l) = lower (dr_hash d)) (cm_leaves row) = Some leaf" by auto
  have vp: "verify_proof H (dr_hash d) (sl_proof leaf) (cm_root row)"
    by (rule found_leaf_verifies [OF assms(4) _ leaf])
      (use commit_reach_rows [OF assms(5)] row(1) in \<open>simp add: rows_from_trees_def\<close>)
  have "dr_hash d \<noteq> []" using fields(3) assms(12) by simp
  then have "lower (dr_hash d) \<noteq> []" by (simp add: lower_def)
  then have "fold_proof H (lower (dr_hash d)) (sl_proof leaf) \<noteq> []" by (rule fold_proof_nonempty [OF assms(13)])
  then have "cm_root row \<noteq> []" using vp by (auto simp: verify_proof_def lower_def)
  then show ?thesis
    using row vp leaf fields recover assms(3,10) parse launch_forecasts_named [OF fc]
    by (intro bexI [of _ row] conjI)
      (simp_all add: offline_checks build_receipt_def receipt_leaf_def join_commit_def row_of_draft_def Let_def
        signature_check_def merkle_check_def view_of_def verify_proof_def pin_of_block_def)
qed


text \<open>
  Server and verifier agree on eligibility: over the same block time, and when the canonical
  text carries the anchor of the row, the verifier's table is the one the API displays.
\<close>

theorem verifier_agrees_on_eligibility:
  assumes "parse (rt_json row) = Some content" "cv_time content = TimeAt (rt_time row)"
  shows "eligibility_from_chain parse (build_receipt parse row outs bt registry) bt =
    Inr (map (\<lambda>q. (ov_key q, ro_eligibility q)) (re_outcomes (build_receipt parse row outs bt registry)))"
  using assms
  by (simp add: eligibility_from_chain_def build_receipt_def Let_def receipt_outcome_of_def classify_at_def comp_def)

text \<open>
  The API shows no outcome as eligible on its own word: the reader's receipt marks an outcome
  eligible only over the time of the commit's block as the chain client reports it, directly or
  from the cache, before the horizon and at most 30 minutes after the anchor.  The cache keeps
  holding nothing but block times of the chain.
\<close>

definition times_from_chain :: "(nat \<Rightarrow> string + int) option \<Rightarrow> (nat \<rightharpoonup> millis) \<Rightarrow> bool" where
  "times_from_chain client cache \<longleftrightarrow>
     (\<forall>n t. cache n = Some t \<longrightarrow> (\<exists>get secs. client = Some get \<and> get n = Inr secs \<and> t = secs * 1000))"

lemma block_time_of_chain:
  assumes "times_from_chain client cache" "block_time_of client n cache = (bt, cache')"
  shows "times_from_chain client cache' \<and>
    (\<forall>t. bt = Some t \<longrightarrow> (\<exists>get secs. client = Some get \<and> get n = Inr secs \<and> t = secs * 1000))"
  using assms by (auto simp: block_time_of_def times_from_chain_def split: option.splits sum.splits if_splits)

lemma receipt_outcome_eligible:
  "ro_eligibility (receipt_outcome_of anchor committed bt q) = Eligible \<Longrightarrow>
   \<exists>t. bt = Some t \<and> t < ro_horizon_end (receipt_outcome_of anchor committed bt q) \<and> t \<le> anchor + replay_after_ms"
  by (auto simp: receipt_outcome_of_def Let_def classify_eligibility_def split: option.splits if_splits)

theorem eligible_needs_chain_time:
  assumes "receipt_reader parse client registry rows outcomes_of h cache = (Some rc, cache')" "times_from_chain client cache"
    and "q \<in> set (re_outcomes rc)" "ro_eligibility q = Eligible"
  shows "times_from_chain client cache' \<and>
    (\<exists>row \<in> set rows. rt_hash row = h \<and> (\<exists>c n get secs. rt_commit row = Some c \<and> rx_block c = Some n \<and> client = Some get \<and>
       get n = Inr secs \<and> secs * 1000 < ro_horizon_end q \<and> secs * 1000 \<le> rt_time row + replay_after_ms))"
proof -
  obtain row where row: "List.find (\<lambda>r. rt_hash r = h) rows = Some row"
    using assms(1) by (auto simp: receipt_reader_def split: option.splits)
  then have mem: "row \<in> set rows" "rt_hash row = h" by (auto simp: find_Some_iff)
  have no_time: "ro_eligibility (receipt_outcome_of a cm None x) \<noteq> Eligible" for a cm x
    using receipt_outcome_eligible [of a cm None x] by auto
  obtain c n where c: "rt_commit row = Some c" "rx_block c = Some n"
    using assms(1,3,4) row no_time by (auto simp: receipt_reader_def build_receipt_def Let_def split: option.splits)
  obtain bt where bt: "block_time_of client n cache = (bt, cache')"
      and rc: "rc = build_receipt parse row (outcomes_of (rt_chain row) (rt_token row) (rt_time row)) bt registry"
    using assms(1) row c by (auto simp: receipt_reader_def split: prod.splits)
  obtain x where "q = receipt_outcome_of (rt_time row) True bt x"
    using assms(3) rc c by (auto simp: build_receipt_def Let_def)
  then obtain t where t: "bt = Some t" "t < ro_horizon_end q" "t \<le> rt_time row + replay_after_ms"
    using receipt_outcome_eligible assms(4) by blast
  with block_time_of_chain [OF assms(2) bt] mem c show ?thesis by blast
qed

text \<open>
  The verifier takes the receipt's word for \<open>committed\<close>: a server that clears the flag changes
  no check and no exit code, but every outcome of the forecast is then reported as
  uncommitted, although the commit was just verified on chain.
\<close>

theorem server_can_hide_commit:
  "verify_receipt_main cr H parse client signer registry h (r\<lparr>re_committed := False\<rparr>) =
     (fst (verify_receipt_main cr H parse client signer registry h r),
      map (\<lambda>(k, e). (k, Uncommitted)) (snd (verify_receipt_main cr H parse client signer registry h r)))"
proof -
  have "verify_receipt_on_chain client (r\<lparr>re_committed := False\<rparr>) registry = verify_receipt_on_chain client r registry"
    by (simp add: verify_receipt_on_chain_def)
  moreover have "verify_receipt_offline cr H parse (r\<lparr>re_committed := False\<rparr>) h signer = verify_receipt_offline cr H parse r h signer"
  proof -
    have "signature_check cr x (r\<lparr>re_committed := False\<rparr>) y signer = signature_check cr x r y signer" for x y
      by (simp add: signature_check_def)
    moreover have "merkle_check H (r\<lparr>re_committed := False\<rparr>) y = merkle_check H r y" for y
      by (simp add: merkle_check_def)
    ultimately show ?thesis by (simp add: verify_receipt_offline_def Let_def split: option.split)
  qed
  ultimately show ?thesis
    by (auto simp: verify_receipt_main_def eligibility_from_chain_def Let_def classify_at_def classify_eligibility_def
        split: sum.splits option.splits)
qed

text \<open>
  An unreadable \<open>reportTime\<close> reads as eligible: every comparison with the invalid date is
  false, so a committed receipt with a block time shows all its outcomes as eligible, however
  late the commit (the signature check fails, but the table is printed all the same).
\<close>

theorem unreadable_anchor_is_eligible:
  assumes "parse (re_json r) = Some content" "cv_time content = BadTime" "re_committed r"
  shows "eligibility_from_chain parse r (Some t) = Inr (map (\<lambda>q. (ov_key q, Eligible)) (re_outcomes r)) \<and>
    (SignatureCheck, False) \<in> set (verify_receipt_offline cr H parse r h signer)"
  using assms by (simp add: eligibility_from_chain_def classify_at_def offline_checks signature_check_def split: option.splits)

subsection \<open>Witnesses\<close>

text \<open>The commit job with one validated report of hash \<open>h\<close>, before and after its tick.\<close>

definition demo_pending :: "hex \<Rightarrow> commit_state" where
  "demo_pending h = commit_init\<lparr>reports := [demo_report ''r'' h]\<rparr>"

definition demo_done :: "hex \<Rightarrow> commit_state" where
  "demo_done h = snd (run_commit_batch demo_hash demo_env (demo_tick ''0xt1'' (Some demo_receipt)) (demo_pending h))"

lemma demo_done_reach: "commit_reach demo_hash demo_env (demo_done h)"
proof -
  have "commit_reach demo_hash demo_env (commit_init\<lparr>reports := reports commit_init @ [demo_report ''r'' h]\<rparr>)"
    by (rule reach_step [OF reach_init insert_report]) (simp_all add: commit_init_def demo_report_def)
  then have "commit_reach demo_hash demo_env (demo_pending h)" by (simp add: demo_pending_def commit_init_def)
  then show ?thesis unfolding demo_done_def by (rule reach_step [OF _ commit_step.tick])
qed

lemma demo_done_committed:
  "demo_report ''r'' h\<lparr>r_commit := Some 0, r_leaf := Some (lower h)\<rparr> \<in> set (reports (demo_done h))"
  by (simp add: demo_done_def demo_pending_def demo_commit_defs Let_def)

theorem committed_receipt_verifies_witness:
  "\<exists>row \<in> set (commits (demo_done (dr_hash (hd demo_drafts)))). cm_id row = 0 \<and>
    verify_receipt_offline demo_crypto demo_hash (\<lambda>_. Some (view_of (dr_content (hd demo_drafts))))
      (build_receipt (\<lambda>_. Some (view_of (dr_content (hd demo_drafts)))) (join_commit (row_of_draft (hd demo_drafts)) (Some row)) [] None None)
      (dr_hash (hd demo_drafts)) (sc_address demo_crypto ''k'') = [(HashCheck, True), (SignatureCheck, True), (MerkleCheck, True)]"
  by (rule committed_receipt_verifies [OF demo_drafts_built hd_demo_drafts _ demo_hash_lower demo_done_reach demo_done_committed])
    (simp_all add: demo_launch_def demo_report_def demo_crypto_def demo_keccak_def demo_hash_def lower_def)

definition demo_tree :: merkle_tree where
  "demo_tree = projr (build_merkle_tree injective_hash [demo_keccak ''a'', demo_keccak ''b''])"

lemma demo_tree_built: "build_merkle_tree injective_hash [demo_keccak ''a'', demo_keccak ''b''] = Inr demo_tree"
  by (simp add: demo_tree_def build_merkle_tree_def Let_def split: prod.splits)

definition demo_view :: content_view where
  "demo_view = \<lparr>cv_chain = Some 4663, cv_token = Some ''0xT'', cv_time = TimeAt 1000, cv_forecaster = Some ''det_v0''\<rparr>"

definition demo_served :: receipt where
  "demo_served = \<lparr>re_hash = demo_keccak ''a'', re_json = ''a'', re_content = None, re_signature = Some ''s'', re_signer = None,
     re_message = \<lparr>cm_hash = [], cm_chain = 0, cm_token = [], cm_time = 0, cm_forecaster = []\<rparr>, re_committed = True,
     re_registry = None, re_tx = Some ''0xt'', re_block = Some 7, re_block_time = None, re_root = Some (root demo_tree),
     re_index = Some 0, re_proof = Some (proofs demo_tree (demo_keccak ''a'')), re_lag = None, re_outcomes = []\<rparr>"

definition demo_client :: chain_client where
  "demo_client = \<lparr>cc_tx = (\<lambda>_ _. Inr \<lparr>tv_success = True, tv_block = 7, tv_logs = [(''0xR'', Some (root demo_tree))]\<rparr>),
     cc_block = (\<lambda>_ _. Inr 1)\<rparr>"

lemma demo_tree_folds:
  "fold_proof injective_hash (demo_keccak ''a'') (proofs demo_tree (demo_keccak ''a'')) = root demo_tree \<and> lower (root demo_tree) = root demo_tree"
  by (rule tree_proof_folds [OF injective_hash_lower demo_tree_built]) simp

lemma demo_served_accepted:
  "fst (verify_receipt_main demo_crypto injective_hash (\<lambda>_. Some demo_view) demo_client ''0xA'' ''0xR'' (demo_keccak ''a'') demo_served) = 0"
proof -
  have "root demo_tree \<noteq> []"
    using fold_proof_nonempty [of injective_hash "demo_keccak ''a''"] demo_tree_folds
    by (metis injective_hash_def append_is_Nil_conv demo_keccak_def list.distinct(1))
  then show ?thesis
    using demo_tree_folds
    by (simp add: verify_receipt_main_def verify_receipt_on_chain_def verifier_retry_def eligibility_from_chain_def Let_def
        verify_receipt_offline_def signature_check_def merkle_check_def demo_served_def demo_client_def demo_view_def demo_crypto_def)
qed


definition demo_receipt_row :: receipt_row where
  "demo_receipt_row = \<lparr>rt_hash = ''0xh'', rt_json = ''j'', rt_signature = None, rt_signer = None, rt_chain = 4663, rt_token = ''0xT'',
     rt_time = 1000, rt_forecaster = ''det_v0'',
     rt_commit = Some \<lparr>rx_tx = Some ''0xt'', rx_block = Some 7, rx_root = ''0xr'', rx_leaves = None\<rparr>\<rparr>"

definition demo_outcome :: outcome_view where
  "demo_outcome = \<lparr>ov_key = (InsiderExit, H6), ov_status = OPending, ov_value = None\<rparr>"

theorem verifier_agrees_on_eligibility_witness:
  "eligibility_from_chain (\<lambda>_. Some demo_view) (build_receipt (\<lambda>_. Some demo_view) demo_receipt_row [demo_outcome] (Some 2000) None) (Some 2000) =
    Inr (map (\<lambda>q. (ov_key q, ro_eligibility q)) (re_outcomes (build_receipt (\<lambda>_. Some demo_view) demo_receipt_row [demo_outcome] (Some 2000) None)))"
  by (rule verifier_agrees_on_eligibility [where content = demo_view]) (simp_all add: demo_view_def demo_receipt_row_def)

definition demo_read :: receipt where
  "demo_read = build_receipt (\<lambda>_. Some demo_view) demo_receipt_row [demo_outcome] (Some 2000) None"

theorem eligible_needs_chain_time_witness:
  "\<exists>get secs. Some (\<lambda>_. Inr 2) = Some get \<and> (get (7::nat) :: string + int) = Inr secs \<and> secs * 1000 \<le> rt_time demo_receipt_row + replay_after_ms"
  using eligible_needs_chain_time [of "\<lambda>_. Some demo_view" "Some (\<lambda>_. Inr 2)" None "[demo_receipt_row]" "\<lambda>_ _ _. [demo_outcome]"
      "''0xh''" Map.empty demo_read "[7 \<mapsto> 2000]" "hd (re_outcomes demo_read)"]
  by (simp add: receipt_reader_def demo_receipt_row_def block_time_of_def times_from_chain_def demo_read_def build_receipt_def Let_def
      receipt_outcome_of_def demo_outcome_def classify_eligibility_def replay_after_ms_def)

theorem unreadable_anchor_is_eligible_witness:
  "eligibility_from_chain (\<lambda>_. Some (demo_view\<lparr>cv_time := BadTime\<rparr>)) demo_served (Some 99999999999) =
     Inr (map (\<lambda>q. (ov_key q, Eligible)) (re_outcomes demo_served))"
  using unreadable_anchor_is_eligible [of "\<lambda>_. Some (demo_view\<lparr>cv_time := BadTime\<rparr>)" demo_served] by (simp add: demo_served_def)

end
