(* ===== verification/WatcherFeatures.thy ===== *)
theory WatcherFeatures
  imports OutcomeResolve LogScan
begin

text \<open>
  The feature computations of \<open>apps/worker/src/watcher\<close> that read a token's history:
  the launch transaction and the T+10m buyers (\<open>features.ts\<close>), the creator cluster
  (\<open>cluster.ts\<close>), the holder balances (\<open>holders.ts\<close>), the creator's age and record
  (\<open>creator.ts\<close>), the token's freshness and age (\<open>freshness.ts\<close>).  The node's answers are
  parameters, an error being its message.  A \<open>Map\<close> is the association list of its entries in
  insertion order.
\<close>


section \<open>Counting maps\<close>

text \<open>\<open>m.set(k, (m.get(k) ?? 0) + d)\<close>: an existing entry keeps its place.\<close>

fun bump :: "'k \<Rightarrow> int \<Rightarrow> ('k \<times> int) list \<Rightarrow> ('k \<times> int) list" where
  "bump k d [] = [(k, d)]"
| "bump k d ((k', v) # r) = (if k' = k then (k', v + d) # r else (k', v) # bump k d r)"

text \<open>\<open>Number((part * 100n * 10n ** 12n) / total) / 1e12\<close>.\<close>

definition percent_of :: "int \<Rightarrow> int \<Rightarrow> real" where
  "percent_of total_supply part = of_int (part * 100 * 10 ^ 12 div total_supply) / 10 ^ 12"


section \<open>Index lane: the launch transaction\<close>

definition is_transfer_log :: "address \<Rightarrow> rpc_log \<Rightarrow> bool" where
  "is_transfer_log token l \<longleftrightarrow> lower (l_address l) = token \<and> 3 \<le> length (l_topics l) \<and>
     lower (hd (l_topics l)) = transfer_topic0"

fun received_by :: "address \<Rightarrow> address list \<Rightarrow> rpc_log list \<Rightarrow> (address \<times> int) list \<Rightarrow> string + (address \<times> int) list" where
  "received_by token excluded [] m = Inr m"
| "received_by token excluded (l # ls) m =
     (if \<not> is_transfer_log token l then received_by token excluded ls m
      else let dst = topic_to_address (l_topics l ! 2) in
        if dst \<in> set excluded then received_by token excluded ls m
        else case transfer_value (l_data l) of
               None \<Rightarrow> Inl ''BigInt''
             | Some v \<Rightarrow> received_by token excluded ls (bump dst v m))"

text \<open>The first entry of the largest amount above zero.\<close>

definition top_recipient :: "(address \<times> int) list \<Rightarrow> int \<times> address option" where
  "top_recipient m = fold (\<lambda>(a, v) (best, who). if v > best then (v, Some a) else (best, who)) m (0, None)"

record index_features =
  ix_devbuy_pct :: "real option"
  ix_recipient :: "address option"

text \<open>\<open>receipt\<close> and \<open>supply\<close> are what the two reads settle to; \<open>hasX\<close> and \<open>hasSite\<close> are always null.\<close>

definition compute_index_features ::
    "string + rpc_log list \<Rightarrow> string + int \<Rightarrow> address \<Rightarrow> address \<Rightarrow> index_features" where
  "compute_index_features receipt supply token source =
     (case receipt of
        Inl e \<Rightarrow> \<lparr>ix_devbuy_pct = None, ix_recipient = None\<rparr>
      | Inr logs \<Rightarrow>
          (case received_by (lower token) [lower source, zero_address, lower token] logs [] of
             Inl e \<Rightarrow> \<lparr>ix_devbuy_pct = None, ix_recipient = None\<rparr>
           | Inr m \<Rightarrow>
               (case top_recipient m of
                  (best, who) \<Rightarrow>
                    (case supply of
                       Inl e \<Rightarrow> \<lparr>ix_devbuy_pct = None, ix_recipient = who\<rparr>
                     | Inr s \<Rightarrow> \<lparr>ix_devbuy_pct = (if s > 0 then Some (percent_of s best) else None), ix_recipient = who\<rparr>))))"


section \<open>T+10m lane: buyers\<close>

definition max_t10_logs :: nat where "max_t10_logs = 8000"

record t10_features =
  tf_unique :: "int option"
  tf_per_buyer :: "real option"

definition buyers_of :: "rpc_log list \<Rightarrow> (address \<times> int) list" where
  "buyers_of logs = fold (\<lambda>l m. case topic_address 2 l of None \<Rightarrow> m | Some a \<Rightarrow> bump a 1 m) logs []"

definition compute_t10_features :: "log_client \<Rightarrow> address \<Rightarrow> address \<Rightarrow> int \<Rightarrow> int \<Rightarrow> int \<Rightarrow> t10_features" where
  "compute_t10_features c token source f t max_range =
     (case get_logs_chunked (lc_logs c 0 token [[transfer_topic0], [address_to_topic source]]) f t max_range of
        Inl e \<Rightarrow> \<lparr>tf_unique = None, tf_per_buyer = None\<rparr>
      | Inr logs \<Rightarrow>
          if length logs > max_t10_logs then \<lparr>tf_unique = None, tf_per_buyer = None\<rparr>
          else (let buyers = buyers_of logs in
            if buyers = [] then \<lparr>tf_unique = Some 0, tf_per_buyer = Some 0\<rparr>
            else \<lparr>tf_unique = Some (int (length buyers)),
                  tf_per_buyer = Some (of_int (sum_list (map snd buyers)) / of_nat (length buyers))\<rparr>))"


section \<open>Creator cluster\<close>

datatype cluster_rule = Creator | LaunchBlockBuy | DirectTransfer | FirstInbound

fun rule_confidence :: "cluster_rule \<Rightarrow> real" where
  "rule_confidence Creator = 1"
| "rule_confidence LaunchBlockBuy = 9 / 10"
| "rule_confidence DirectTransfer = 7 / 10"
| "rule_confidence FirstInbound = 85 / 100"

record cluster_member =
  cl_address :: address
  cl_rule :: cluster_rule
  cl_evidence :: "string option"
  cl_confidence :: real

record cluster_result =
  cu_members :: "cluster_member list"
  cu_size :: nat
  cu_confidence :: real
  cu_partial :: "cluster_rule list"

definition add_member :: "address \<Rightarrow> cluster_rule \<Rightarrow> string option \<Rightarrow> cluster_member list \<Rightarrow> cluster_member list" where
  "add_member a rule tx rows =
     (let b = lower a in
      if list_ex (\<lambda>r. cl_address r = b \<and> cl_rule r = rule) rows then rows
      else rows @ [\<lparr>cl_address = b, cl_rule = rule, cl_evidence = tx, cl_confidence = rule_confidence rule\<rparr>])"

text \<open>The recipient of a transfer log that rules 2 and 3 count.\<close>

definition counted_recipient :: "address \<Rightarrow> address \<Rightarrow> rpc_log \<Rightarrow> address option" where
  "counted_recipient creator source l =
     (case topic_address 2 l of
        None \<Rightarrow> None
      | Some a \<Rightarrow> if a = source \<or> a = creator then None else Some a)"

definition add_recipients :: "cluster_rule \<Rightarrow> address \<Rightarrow> address \<Rightarrow> rpc_log list \<Rightarrow> cluster_member list \<Rightarrow> cluster_member list" where
  "add_recipients rule creator source logs rows =
     fold (\<lambda>l rows. case counted_recipient creator source l of None \<Rightarrow> rows | Some a \<Rightarrow> add_member a rule (l_tx l) rows) logs rows"

text \<open>The recipients of rule 3, as a \<open>Set\<close> in insertion order.\<close>

definition direct_recipients :: "address \<Rightarrow> address \<Rightarrow> rpc_log list \<Rightarrow> address list" where
  "direct_recipients creator source logs = uniq (List.map_filter (counted_recipient creator source) logs)"

text \<open>Rule 4: \<open>firstFunder\<close> may throw, which ends the whole computation.\<close>

fun add_first_inbound ::
    "(address \<Rightarrow> string + string option) \<Rightarrow> address \<Rightarrow> address list \<Rightarrow> cluster_member list \<Rightarrow> string + cluster_member list" where
  "add_first_inbound lookup creator [] rows = Inr rows"
| "add_first_inbound lookup creator (a # as) rows =
     (if list_ex (\<lambda>r. cl_address r = a \<and> cl_rule r = FirstInbound) rows then add_first_inbound lookup creator as rows
      else case lookup a of
        Inl e \<Rightarrow> Inl e
      | Inr (Some f) \<Rightarrow>
          if f \<noteq> [] \<and> lower f = creator then add_first_inbound lookup creator as (add_member a FirstInbound None rows)
          else add_first_inbound lookup creator as rows
      | Inr None \<Rightarrow> add_first_inbound lookup creator as rows)"

definition unavailable_first_inbound :: "address \<Rightarrow> string + string option" where
  "unavailable_first_inbound a = Inr None"

definition cluster_of_rows :: "cluster_member list \<Rightarrow> cluster_rule list \<Rightarrow> cluster_result" where
  "cluster_of_rows rows partial =
     \<lparr>cu_members = rows, cu_size = card (set (map cl_address rows)),
      cu_confidence = (if rows = [] then 0 else sum_list (map cl_confidence rows) / of_nat (length rows)),
      cu_partial = partial\<rparr>"

definition build_creator_cluster ::
    "log_client \<Rightarrow> (address \<Rightarrow> string + string option) \<Rightarrow> address \<Rightarrow> address \<Rightarrow> address \<Rightarrow> int \<Rightarrow> int \<Rightarrow> int \<Rightarrow> string + cluster_result" where
  "build_creator_cluster c lookup token creator0 source0 launch_block window max_range =
     (let creator = lower creator0; source = lower source0;
          rows1 = add_member creator Creator None [];
          buys = get_logs_chunked (lc_logs c 0 token [[transfer_topic0], [address_to_topic source]]) launch_block launch_block max_range;
          rows2 = (case buys of Inl e \<Rightarrow> rows1 | Inr logs \<Rightarrow> add_recipients LaunchBlockBuy creator source logs rows1);
          sends = get_logs_chunked (lc_logs c 0 token [[transfer_topic0], [address_to_topic creator]]) launch_block (launch_block + window) max_range;
          rows3 = (case sends of Inl e \<Rightarrow> rows2 | Inr logs \<Rightarrow> add_recipients DirectTransfer creator source logs rows2);
          recipients = (case sends of Inl e \<Rightarrow> [] | Inr logs \<Rightarrow> direct_recipients creator source logs);
          partial = (case buys of Inl e \<Rightarrow> [LaunchBlockBuy] | Inr _ \<Rightarrow> []) @ (case sends of Inl e \<Rightarrow> [DirectTransfer] | Inr _ \<Rightarrow> [])
      in case add_first_inbound lookup creator recipients rows3 of
           Inl e \<Rightarrow> Inl e
         | Inr rows \<Rightarrow> Inr (cluster_of_rows rows partial))"

definition cluster_addresses :: "cluster_result \<Rightarrow> address set" where
  "cluster_addresses r = set (map cl_address (cu_members r))"


section \<open>Holders\<close>

definition max_holder_logs :: nat where "max_holder_logs = 20000"

definition bump_holder :: "address \<Rightarrow> int \<Rightarrow> (address \<times> int) list \<Rightarrow> (address \<times> int) list" where
  "bump_holder a d m = (if a = zero_address then m else bump a d m)"

fun replay_balances :: "rpc_log list \<Rightarrow> (address \<times> int) list \<Rightarrow> string + (address \<times> int) list" where
  "replay_balances [] m = Inr m"
| "replay_balances (l # ls) m =
     (case (topic_address 1 l, topic_address 2 l) of
        (Some src, Some dst) \<Rightarrow>
          (case transfer_value (l_data l) of
             None \<Rightarrow> Inl ''BigInt''
           | Some v \<Rightarrow> replay_balances ls (bump_holder dst v (bump_holder src (- v) m)))
      | _ \<Rightarrow> replay_balances ls m)"

definition reconstruct_balances :: "log_client \<Rightarrow> address \<Rightarrow> int \<Rightarrow> int \<Rightarrow> int \<Rightarrow> string + (address \<times> int) list option" where
  "reconstruct_balances c token f t max_range =
     (case get_logs_chunked (lc_logs c 0 token [[transfer_topic0]]) f t max_range of
        Inl e \<Rightarrow> Inl e
      | Inr logs \<Rightarrow> if length logs > max_holder_logs then Inr None else map_sum id Some (replay_balances logs []))"

record holder_stats =
  hs_cluster_pct :: "real option"
  hs_top10_pct :: "real option"
  hs_supply :: "int option"
  hs_holders :: "nat option"

definition no_holder_stats :: holder_stats where
  "no_holder_stats = \<lparr>hs_cluster_pct = None, hs_top10_pct = None, hs_supply = None, hs_holders = None\<rparr>"

definition top10_sum :: "int list \<Rightarrow> int" where
  "top10_sum bals = sum_list (take 10 (rev (sort bals)))"

definition holder_stats_of :: "(address \<times> int) list \<Rightarrow> int \<Rightarrow> address \<Rightarrow> address set \<Rightarrow> address \<Rightarrow> holder_stats" where
  "holder_stats_of balances total_supply creator cluster source =
     (let held = filter (\<lambda>(a, b). b > 0) balances;
          holders = filter (\<lambda>(a, b). a \<noteq> creator \<and> a \<noteq> source) held
      in \<lparr>hs_cluster_pct = Some (percent_of total_supply (sum_list (map snd (filter (\<lambda>(a, b). a \<in> cluster) held)))),
          hs_top10_pct = Some (percent_of total_supply (top10_sum (map snd holders))),
          hs_supply = Some total_supply, hs_holders = Some (length holders)\<rparr>)"

definition compute_holder_stats ::
    "log_client \<Rightarrow> (int \<Rightarrow> string + int) \<Rightarrow> address \<Rightarrow> int \<Rightarrow> int \<Rightarrow> int \<Rightarrow> address \<Rightarrow> address set \<Rightarrow> address \<Rightarrow> holder_stats" where
  "compute_holder_stats c supply_at token f t max_range creator cluster source =
     (case reconstruct_balances c token f t max_range of
        Inl e \<Rightarrow> no_holder_stats
      | Inr None \<Rightarrow> no_holder_stats
      | Inr (Some balances) \<Rightarrow>
          (case supply_at t of
             Inl e \<Rightarrow> no_holder_stats
           | Inr s \<Rightarrow> if s \<le> 0 then no_holder_stats\<lparr>hs_supply := Some s\<rparr>
                      else holder_stats_of balances s (lower creator) cluster (lower source)))"


section \<open>The creator\<close>

text \<open>The bounded binary search on the nonce; \<open>n\<close> iterations left.\<close>

fun nonce_search :: "(int \<Rightarrow> string + nat) \<Rightarrow> nat \<Rightarrow> int \<Rightarrow> int \<Rightarrow> string + int" where
  "nonce_search nonce 0 lo hi = Inr hi"
| "nonce_search nonce (Suc n) lo hi =
     (if lo < hi then
        (let mid = (lo + hi) div 2 in
         case nonce mid of
           Inl e \<Rightarrow> Inl e
         | Inr k \<Rightarrow> if k \<ge> 1 then nonce_search nonce n lo mid else nonce_search nonce n (mid + 1) hi)
      else Inr hi)"

definition first_tx_block :: "(int \<Rightarrow> string + nat) \<Rightarrow> int \<Rightarrow> nat \<Rightarrow> string + int option" where
  "first_tx_block nonce launch_block max_iters =
     (case nonce launch_block of
        Inl e \<Rightarrow> Inl e
      | Inr k \<Rightarrow> if k = 0 then Inr None else map_sum id Some (nonce_search nonce max_iters 0 launch_block))"

record prior_launch =
  pr_id :: nat
  pr_chain :: nat
  pr_creator :: address
  pr_block :: int

record creator_context =
  cn_age_days :: "real option"
  cn_prior_launches :: nat
  cn_exit_rate :: "real option"

text \<open>
  \<open>exit_rows\<close>: the resolved \<open>INSIDER_EXIT\<close> rows, as launch id and value; the last row of a
  launch decides.
\<close>

definition prior_exit_rate :: "(nat \<times> bool option) list \<Rightarrow> real option" where
  "prior_exit_rate exit_rows =
     (if exit_rows = [] then None
      else let ids = uniq (map fst exit_rows); exited = (\<lambda>i. map_of (rev (map (\<lambda>(l, v). (l, nullish v False)) exit_rows)) i = Some True)
           in Some (of_nat (length (filter exited ids)) / of_nat (length ids)))"

definition compute_creator_context ::
    "(int \<Rightarrow> string + nat) \<Rightarrow> prior_launch list \<Rightarrow> (nat \<Rightarrow> bool option list) \<Rightarrow> nat \<Rightarrow> address \<Rightarrow> int \<Rightarrow>
     nat option \<Rightarrow> real \<Rightarrow> real option \<Rightarrow> creator_context" where
  "compute_creator_context nonce launches exits chain creator launch_block launch_id block_seconds existing_age =
     (let age = (case existing_age of
            Some a \<Rightarrow> Some a
          | None \<Rightarrow>
              (case first_tx_block nonce launch_block 8 of
                 Inr (Some first) \<Rightarrow>
                   Some (of_int (if launch_block > first then launch_block - first else 0) * block_seconds / 86400)
               | _ \<Rightarrow> None));
          prior = filter (\<lambda>l. pr_chain l = chain \<and> pr_creator l = lower creator \<and> pr_block l < launch_block \<and>
                    launch_id \<noteq> Some (pr_id l)) launches;
          exit_rows = concat (map (\<lambda>l. map (\<lambda>v. (pr_id l, v)) (exits (pr_id l))) prior)
      in \<lparr>cn_age_days = age, cn_prior_launches = length prior,
          cn_exit_rate = (if prior = [] then None else prior_exit_rate exit_rows)\<rparr>)"


section \<open>Freshness\<close>

definition fresh_launch_window :: int where "fresh_launch_window = 864000"

datatype freshness_reason = Fresh | Preexisting | Inconclusive

record freshness =
  fr_is_fresh :: bool
  fr_reason :: freshness_reason
  fr_checked_at :: int

text \<open>\<open>code\<close> is \<open>getCode\<close> of the token at a block: an error, no code, or a hex text.\<close>

definition has_code_at :: "(int \<Rightarrow> string + string option) \<Rightarrow> int \<Rightarrow> string + bool" where
  "has_code_at code b = map_sum id (\<lambda>c. c \<noteq> None \<and> c \<noteq> Some [] \<and> c \<noteq> Some ''0x'') (code b)"

definition check_token_freshness :: "(int \<Rightarrow> string + string option) \<Rightarrow> int \<Rightarrow> int \<Rightarrow> freshness" where
  "check_token_freshness code pool_block window =
     (let at_block = (if pool_block > window then pool_block - window else 0) in
      case has_code_at code at_block of
        Inl e \<Rightarrow> \<lparr>fr_is_fresh = True, fr_reason = Inconclusive, fr_checked_at = at_block\<rparr>
      | Inr had \<Rightarrow> \<lparr>fr_is_fresh = (\<not> had), fr_reason = (if had then Preexisting else Fresh), fr_checked_at = at_block\<rparr>)"

record token_age =
  ta_age_sec :: "int option"
  ta_deploy :: "int option"
  ta_iters :: nat

text \<open>The \<open>while\<close> loop: an error answers with the iterations counted so far.\<close>

function code_search :: "(int \<Rightarrow> string + string option) \<Rightarrow> nat \<Rightarrow> int \<Rightarrow> int \<Rightarrow> nat \<Rightarrow> (nat + int) \<times> nat" where
  "code_search code max_iters lo hi iters =
     (if hi - lo > 1 \<and> iters < max_iters then
        (let mid = lo + (hi - lo) div 2 in
         case has_code_at code mid of
           Inl e \<Rightarrow> (Inl (Suc iters), Suc iters)
         | Inr True \<Rightarrow> code_search code max_iters lo mid (Suc iters)
         | Inr False \<Rightarrow> code_search code max_iters mid hi (Suc iters))
      else (Inr hi, iters))"
  by pat_completeness auto
termination by (relation "measure (\<lambda>(code, m, lo, hi, i). m - i)") auto

declare code_search.simps [simp del]

definition compute_token_age_at_pool :: "(int \<Rightarrow> string + string option) \<Rightarrow> int \<Rightarrow> real \<Rightarrow> int \<Rightarrow> nat \<Rightarrow> token_age" where
  "compute_token_age_at_pool code pool_block block_seconds window max_iters =
     (let lo = (if pool_block > window then pool_block - window else 0);
          failed = (\<lambda>i. \<lparr>ta_age_sec = None, ta_deploy = None, ta_iters = i\<rparr>)
      in case has_code_at code lo of
           Inl e \<Rightarrow> failed 0
         | Inr True \<Rightarrow> failed 1
         | Inr False \<Rightarrow>
             (case has_code_at code pool_block of
                Inl e \<Rightarrow> failed 0
              | Inr False \<Rightarrow> \<lparr>ta_age_sec = Some 0, ta_deploy = Some pool_block, ta_iters = 2\<rparr>
              | Inr True \<Rightarrow>
                  (case code_search code max_iters lo pool_block 2 of
                     (Inl i, _) \<Rightarrow> failed i
                   | (Inr deploy, i) \<Rightarrow>
                       \<lparr>ta_age_sec = Some (js_round (of_int (if pool_block > deploy then pool_block - deploy else 0) * block_seconds)),
                        ta_deploy = Some deploy, ta_iters = i\<rparr>)))"

section \<open>Counting facts\<close>

definition entry :: "('k \<times> int) list \<Rightarrow> 'k \<Rightarrow> int" where
  "entry m k = nullish (map_of m k) 0"

lemma bump_keys: "fst ` set (bump k d m) = insert k (fst ` set m)"
  by (induction k d m rule: bump.induct) auto

lemma bump_distinct: "distinct (map fst m) \<Longrightarrow> distinct (map fst (bump k d m))"
  by (induction k d m rule: bump.induct) (auto simp: bump_keys)

lemma bump_entry: "distinct (map fst m) \<Longrightarrow> entry (bump k d m) a = entry m a + (if a = k then d else 0)"
  by (induction m) (auto simp: entry_def)

lemma bump_sum: "sum_list (map snd (bump k d m)) = sum_list (map snd m) + d"
  by (induction m) auto

lemmas bump_facts = bump_keys bump_distinct bump_entry bump_sum

text \<open>What an honest node answers about one token whose logs are \<open>logs\<close>, in block order.\<close>

definition topics_match :: "string list list \<Rightarrow> rpc_log \<Rightarrow> bool" where
  "topics_match topics l \<longleftrightarrow> (\<forall>i < length topics. topics ! i = [] \<or>
     (i < length (l_topics l) \<and> l_topics l ! i \<in> set (topics ! i)))"

definition serves_token :: "log_client \<Rightarrow> address \<Rightarrow> rpc_log list \<Rightarrow> bool" where
  "serves_token c token logs \<longleftrightarrow> sorted (map log_block logs) \<and>
     (\<forall>topics. honest_node (filter (topics_match topics) logs) (lc_logs c 0 token topics))"

definition in_window :: "string list list \<Rightarrow> int \<Rightarrow> int \<Rightarrow> rpc_log \<Rightarrow> bool" where
  "in_window topics f t l \<longleftrightarrow> topics_match topics l \<and> in_range f t l"

lemma serves_token_scan:
  assumes "serves_token c token logs" "1 \<le> max_range"
  shows "get_logs_chunked (lc_logs c 0 token topics) f t max_range = Inr (filter (in_window topics f t) logs)"
proof -
  have "sorted (map log_block (filter (topics_match topics) logs))"
    using assms(1) by (simp add: serves_token_def sorted_filter)
  then have "request_all (lc_logs c 0 token topics) (chunk_windows max_range f t) =
      Inr (filter (in_range f t) (filter (topics_match topics) logs))"
    using assms by (intro request_all_windows) (simp_all add: serves_token_def)
  then show ?thesis using assms(2) by (simp add: get_logs_chunked_def in_window_def [abs_def])
qed


section \<open>Buyers and recipients\<close>

lemma buyers_facts:
  "distinct (map fst (buyers_of logs)) \<and>
   fst ` set (buyers_of logs) = {a. \<exists>l \<in> set logs. topic_address 2 l = Some a} \<and>
   sum_list (map snd (buyers_of logs)) = int (length (filter (\<lambda>l. topic_address 2 l \<noteq> None) logs)) \<and>
   (\<forall>e \<in> set (buyers_of logs). 1 \<le> snd e)"
proof -
  let ?step = "\<lambda>l m. case topic_address 2 l of None \<Rightarrow> m | Some a \<Rightarrow> bump a 1 m"
  have pos: "\<forall>e \<in> set (bump a 1 m). 1 \<le> snd e" if "\<forall>e \<in> set m. 1 \<le> snd e" for a :: address and m
    using that by (induction a "1 :: int" m rule: bump.induct) auto
  have "distinct (map fst (fold ?step logs m)) \<and>
      fst ` set (fold ?step logs m) = fst ` set m \<union> {a. \<exists>l \<in> set logs. topic_address 2 l = Some a} \<and>
      sum_list (map snd (fold ?step logs m)) = sum_list (map snd m) + int (length (filter (\<lambda>l. topic_address 2 l \<noteq> None) logs)) \<and>
      (\<forall>e \<in> set (fold ?step logs m). 1 \<le> snd e)"
    if "distinct (map fst m)" "\<forall>e \<in> set m. 1 \<le> snd e" for m
    using that
  proof (induction logs arbitrary: m)
    case (Cons l logs)
    show ?case
    proof (cases "topic_address 2 l")
      case None
      then show ?thesis using Cons.IH [OF Cons.prems] by auto
    next
      case (Some a)
      have "distinct (map fst (bump a 1 m))" "\<forall>e \<in> set (bump a 1 m). 1 \<le> snd e"
        using Cons.prems pos by (simp_all add: bump_distinct)
      note ih = Cons.IH [OF this]
      have "{x. \<exists>q \<in> set (l # logs). topic_address 2 q = Some x} = insert a {x. \<exists>q \<in> set logs. topic_address 2 q = Some x}"
        using Some by auto
      then show ?thesis using ih Some by (simp add: bump_keys bump_sum)
    qed
  qed simp
  from this [of "[]"] show ?thesis by (simp add: buyers_of_def)
qed

lemma top_recipient_best:
  assumes "top_recipient m = (best, who)"
  shows "(\<forall>(a, v) \<in> set m. v \<le> best) \<and> 0 \<le> best \<and> (case who of None \<Rightarrow> best = 0 | Some a \<Rightarrow> (a, best) \<in> set m \<and> 0 < best)"
proof -
  let ?step = "\<lambda>(a, v) (best, who). if v > best then (v, Some a) else (best, who)"
  have "(\<forall>(a, v) \<in> set m. v \<le> fst r) \<and> b0 \<le> fst r \<and> (r = (b0, w0) \<or> (\<exists>a. snd r = Some a \<and> (a, fst r) \<in> set m \<and> b0 < fst r))"
    if "r = fold ?step m (b0, w0)" for r and b0 :: int and w0 :: "address option" and m
    using that
  proof (induction m arbitrary: b0 w0)
    case (Cons e m)
    obtain a v where e: "e = (a, v)" by (cases e)
    show ?case
    proof (cases "b0 < v")
      case True
      then have r: "r = fold ?step m (v, Some a)" using Cons.prems by (simp add: e)
      show ?thesis using Cons.IH [OF r] True by (auto simp: e)
    next
      case False
      then have r: "r = fold ?step m (b0, w0)" using Cons.prems by (simp add: e)
      show ?thesis using Cons.IH [OF r] False by (auto simp: e)
    qed
  qed simp
  from this [OF assms [unfolded top_recipient_def, symmetric]] show ?thesis by (auto split: option.split)
qed


section \<open>Cluster facts\<close>

abbreviation member_key :: "cluster_member \<Rightarrow> address \<times> cluster_rule" where
  "member_key r \<equiv> (cl_address r, cl_rule r)"

lemma add_member_keys: "member_key ` set (add_member a rule tx rows) = insert (lower a, rule) (member_key ` set rows)"
  by (force simp: add_member_def Let_def list_ex_iff)

lemma add_member_distinct: "distinct (map member_key rows) \<Longrightarrow> distinct (map member_key (add_member a rule tx rows))"
  by (auto simp: add_member_def Let_def list_ex_iff)

lemma counted_recipient_lower: "counted_recipient creator source l = Some a \<Longrightarrow> lower a = a \<and> a \<noteq> creator \<and> a \<noteq> source"
  by (auto simp: counted_recipient_def topic_address_def topic_to_address_def split: option.splits if_splits)

text \<open>What every row of the computation satisfies, and what every row list keeps.\<close>

definition member_ok :: "address \<Rightarrow> address \<Rightarrow> cluster_member \<Rightarrow> bool" where
  "member_ok creator source r \<longleftrightarrow> lower (cl_address r) = cl_address r \<and> cl_confidence r = rule_confidence (cl_rule r) \<and>
     (if cl_rule r = Creator then cl_address r = creator else cl_address r \<noteq> creator \<and> cl_address r \<noteq> source)"

definition cluster_rows_ok :: "address \<Rightarrow> address \<Rightarrow> cluster_member list \<Rightarrow> bool" where
  "cluster_rows_ok creator source rows \<longleftrightarrow> distinct (map member_key rows) \<and>
     rows \<noteq> [] \<and> member_key (hd rows) = (creator, Creator) \<and> (\<forall>r \<in> set rows. member_ok creator source r)"

lemma add_member_ok:
  assumes "cluster_rows_ok creator source rows" "rule \<noteq> Creator" "lower a \<noteq> creator" "lower a \<noteq> source"
  shows "cluster_rows_ok creator source (add_member a rule tx rows)"
proof -
  have "distinct (map member_key (add_member a rule tx rows))"
    using assms(1) by (intro add_member_distinct) (simp add: cluster_rows_ok_def)
  moreover have "member_ok creator source \<lparr>cl_address = lower a, cl_rule = rule, cl_evidence = tx, cl_confidence = rule_confidence rule\<rparr>"
    using assms by (simp add: member_ok_def)
  ultimately show ?thesis
    using assms(1) by (auto simp: cluster_rows_ok_def add_member_def Let_def)
qed

lemma add_recipients_step:
  "add_recipients rule creator source (l # logs) rows =
   add_recipients rule creator source logs
     (case counted_recipient creator source l of None \<Rightarrow> rows | Some a \<Rightarrow> add_member a rule (l_tx l) rows)"
  by (simp add: add_recipients_def)

lemma add_recipients_ok:
  "cluster_rows_ok creator source rows \<Longrightarrow> rule \<noteq> Creator \<Longrightarrow>
   cluster_rows_ok creator source (add_recipients rule creator source logs rows)"
proof (induction logs arbitrary: rows)
  case (Cons l logs)
  show ?case
  proof (cases "counted_recipient creator source l")
    case None
    then show ?thesis using Cons by (simp add: add_recipients_step)
  next
    case (Some a)
    have "cluster_rows_ok creator source (add_member a rule (l_tx l) rows)"
      using Cons.prems counted_recipient_lower [OF Some] by (simp add: add_member_ok)
    then show ?thesis using Cons.IH Cons.prems(2) Some by (simp add: add_recipients_step)
  qed
qed (simp add: add_recipients_def)

lemma add_recipients_keys:
  "member_key ` set (add_recipients rule creator source logs rows) =
   member_key ` set rows \<union> {(a, rule) | a. \<exists>l \<in> set logs. counted_recipient creator source l = Some a}"
proof (induction logs arbitrary: rows)
  case (Cons l logs)
  show ?case
  proof (cases "counted_recipient creator source l")
    case (Some a)
    then show ?thesis
      using counted_recipient_lower [OF Some] Cons.IH [of "add_member a rule (l_tx l) rows"]
      by (auto simp: add_recipients_step add_member_keys)
  qed (use Cons.IH in \<open>auto simp: add_recipients_step\<close>)
qed (simp add: add_recipients_def)

lemma direct_recipients_counted: "a \<in> set (direct_recipients creator source logs) \<Longrightarrow> \<exists>l. counted_recipient creator source l = Some a"
  by (auto simp: direct_recipients_def List.map_filter_def split: option.splits)

lemma add_first_inbound_ok:
  "add_first_inbound lookup creator as rows = Inr rows' \<Longrightarrow> cluster_rows_ok creator source rows \<Longrightarrow>
   \<forall>a \<in> set as. lower a \<noteq> creator \<and> lower a \<noteq> source \<Longrightarrow> cluster_rows_ok creator source rows'"
  by (induction lookup creator as rows rule: add_first_inbound.induct)
    (auto simp: add_member_ok split: if_splits sum.splits option.splits)

lemma add_first_inbound_unavailable: "add_first_inbound unavailable_first_inbound creator as rows = Inr rows"
  by (induction as) (auto simp: unavailable_first_inbound_def)

section \<open>Balance facts\<close>

text \<open>The transfer a log stands for; what the ledger says of an address after a list of transfers.\<close>

definition log_transfer :: "rpc_log \<Rightarrow> (address \<times> address \<times> int) option" where
  "log_transfer l =
     (case (topic_address 1 l, topic_address 2 l) of
        (Some src, Some dst) \<Rightarrow> map_option (\<lambda>v. (src, dst, v)) (transfer_value (l_data l))
      | _ \<Rightarrow> None)"

definition decodable :: "rpc_log \<Rightarrow> bool" where
  "decodable l \<longleftrightarrow> topic_address 1 l = None \<or> topic_address 2 l = None \<or> transfer_value (l_data l) \<noteq> None"

definition moves :: "rpc_log list \<Rightarrow> (address \<times> address \<times> int) list" where
  "moves logs = List.map_filter log_transfer logs"

definition move_of :: "address \<Rightarrow> address \<times> address \<times> int \<Rightarrow> int" where
  "move_of a m = (case m of (src, dst, v) \<Rightarrow> (if dst = a then v else 0) - (if src = a then v else 0))"

definition ledger :: "(address \<times> address \<times> int) list \<Rightarrow> address \<Rightarrow> int" where
  "ledger ms a = sum_list (map (move_of a) ms)"

text \<open>Minted minus burned: what the zero address has given out, net.\<close>

definition outstanding :: "(address \<times> address \<times> int) list \<Rightarrow> int" where
  "outstanding ms = - ledger ms zero_address"

lemma bump_holder_facts:
  assumes "distinct (map fst m)" "zero_address \<notin> fst ` set m"
  shows "distinct (map fst (bump_holder a d m)) \<and> zero_address \<notin> fst ` set (bump_holder a d m) \<and>
    (\<forall>x. x \<noteq> zero_address \<longrightarrow> entry (bump_holder a d m) x = entry m x + (if x = a then d else 0)) \<and>
    sum_list (map snd (bump_holder a d m)) = sum_list (map snd m) + (if a = zero_address then 0 else d)"
  using assms bump_entry [OF assms(1)] by (auto simp: bump_holder_def bump_keys bump_distinct bump_sum)

lemma replay_balances_ledger:
  assumes "\<forall>l \<in> set logs. decodable l" "distinct (map fst m)" "zero_address \<notin> fst ` set m"
  shows "\<exists>m'. replay_balances logs m = Inr m' \<and> distinct (map fst m') \<and> zero_address \<notin> fst ` set m' \<and>
    (\<forall>a. a \<noteq> zero_address \<longrightarrow> entry m' a = entry m a + ledger (moves logs) a) \<and>
    sum_list (map snd m') = sum_list (map snd m) + outstanding (moves logs)"
  using assms
proof (induction logs arbitrary: m)
  case Nil
  then show ?case by (simp add: moves_def List.map_filter_def ledger_def outstanding_def)
next
  case (Cons l logs)
  show ?case
  proof (cases "log_transfer l")
    case None
    then have "replay_balances (l # logs) m = replay_balances logs m" "moves (l # logs) = moves logs"
      using Cons.prems(1) by (auto simp: log_transfer_def decodable_def moves_def List.map_filter_def split: option.splits)
    then show ?thesis using Cons by simp
  next
    case (Some mv)
    then obtain src dst v where mv: "mv = (src, dst, v)" "topic_address 1 l = Some src" "topic_address 2 l = Some dst"
        "transfer_value (l_data l) = Some v"
      by (auto simp: log_transfer_def split: option.splits)
    let ?m1 = "bump_holder src (- v) m" and ?m2 = "bump_holder dst v (bump_holder src (- v) m)"
    note b1 = bump_holder_facts [OF Cons.prems(2,3), of src "- v"]
    then have b2: "distinct (map fst ?m2) \<and> zero_address \<notin> fst ` set ?m2 \<and>
        (\<forall>x. x \<noteq> zero_address \<longrightarrow> entry ?m2 x = entry ?m1 x + (if x = dst then v else 0)) \<and>
        sum_list (map snd ?m2) = sum_list (map snd ?m1) + (if dst = zero_address then 0 else v)"
      by (intro bump_holder_facts) simp_all
    have run: "replay_balances (l # logs) m = replay_balances logs ?m2" using mv by simp
    have ms: "moves (l # logs) = (src, dst, v) # moves logs" using Some mv(1) by (simp add: moves_def List.map_filter_def)
    obtain m' where m': "replay_balances logs ?m2 = Inr m'" "distinct (map fst m')" "zero_address \<notin> fst ` set m'"
        "\<forall>a. a \<noteq> zero_address \<longrightarrow> entry m' a = entry ?m2 a + ledger (moves logs) a"
        "sum_list (map snd m') = sum_list (map snd ?m2) + outstanding (moves logs)"
      using Cons.IH [of ?m2] Cons.prems(1) b2 by auto
    have "entry m' a = entry m a + ledger (moves (l # logs)) a" if "a \<noteq> zero_address" for a
      using m'(4) b1 b2 that by (auto simp: ms ledger_def move_of_def)
    moreover have "sum_list (map snd m') = sum_list (map snd m) + outstanding (moves (l # logs))"
      using m'(5) b1 b2 by (auto simp: ms outstanding_def ledger_def move_of_def)
    ultimately show ?thesis using m'(1-3) run by auto
  qed
qed

lemma entry_of: "distinct (map fst m) \<Longrightarrow> (a, b) \<in> set m \<Longrightarrow> entry m a = b"
  by (simp add: entry_def)

lemma percent_bounds:
  assumes "0 < s" "0 \<le> part" "part \<le> s"
  shows "0 \<le> percent_of s part \<and> percent_of s part \<le> 100"
proof -
  have "part * 100 * 10 ^ 12 div s \<le> s * 100 * 10 ^ 12 div s" using assms by (intro zdiv_mono1) auto
  also have "\<dots> = 100 * 10 ^ 12" using assms(1) by (simp add: mult.assoc)
  finally have "(of_int (part * 100 * 10 ^ 12 div s) :: real) \<le> of_int (100 * 10 ^ 12)" by (simp only: of_int_le_iff)
  moreover have "0 \<le> part * 100 * 10 ^ 12 div s" using assms by (simp add: pos_imp_zdiv_nonneg_iff)
  ultimately show ?thesis by (simp add: percent_of_def)
qed

lemma sum_take_le:
  assumes "\<forall>x \<in> set xs. 0 \<le> (x :: int)"
  shows "0 \<le> sum_list (take n xs) \<and> sum_list (take n xs) \<le> sum_list xs"
proof -
  have "sum_list xs = sum_list (take n xs) + sum_list (drop n xs)"
    by (metis append_take_drop_id sum_list_append)
  moreover have "0 \<le> sum_list (take n xs)" "0 \<le> sum_list (drop n xs)"
    using assms by (auto intro!: sum_list_nonneg dest: in_set_takeD in_set_dropD)
  ultimately show ?thesis by simp
qed

lemma top10_le: "\<forall>x \<in> set xs. 0 \<le> (x :: int) \<Longrightarrow> 0 \<le> top10_sum xs \<and> top10_sum xs \<le> sum_list xs"
proof -
  have "sum_list (rev (sort xs)) = sum_list xs"
    by (metis mset_rev mset_sort sum_mset_sum_list)
  then show "\<forall>x \<in> set xs. 0 \<le> (x :: int) \<Longrightarrow> 0 \<le> top10_sum xs \<and> top10_sum xs \<le> sum_list xs"
    using sum_take_le [of "rev (sort xs)" 10] by (simp add: top10_sum_def)
qed

lemma sum_filter_le: "\<forall>e \<in> set m. 0 \<le> (snd e :: int) \<Longrightarrow> 0 \<le> sum_list (map snd (filter P m)) \<and> sum_list (map snd (filter P m)) \<le> sum_list (map snd m)"
  by (induction m) auto


section \<open>Search facts\<close>

lemma nonce_search_bounds:
  assumes "\<And>b. nonce b = Inr (k b)" "\<And>b. 1 \<le> k b \<longleftrightarrow> first \<le> b"
  shows "lo \<le> first \<Longrightarrow> first \<le> hi \<Longrightarrow> \<exists>h. nonce_search nonce n lo hi = Inr h \<and> first \<le> h \<and> h \<le> hi \<and> h - first \<le> (hi - lo) div 2 ^ n"
proof (induction n arbitrary: lo hi)
  case (Suc n)
  show ?case
  proof (cases "lo < hi")
    case False
    then have "hi = first" "lo = first" using Suc.prems by auto
    then show ?thesis by simp
  next
    case True
    let ?mid = "(lo + hi) div 2"
    have halves: "(hi - lo) div 2 ^ Suc n = ((hi - lo) div 2) div 2 ^ n" by (simp add: zdiv_zmult2_eq)
    show ?thesis
    proof (cases "first \<le> ?mid")
      case le: True
      then have "k ?mid \<ge> 1" using assms(2) by simp
      moreover have "?mid - lo = (hi - lo) div 2" by linarith
      ultimately show ?thesis using Suc.IH [of lo ?mid] Suc.prems le True halves assms(1) by (auto simp: Let_def)
    next
      case gt: False
      then have "\<not> k ?mid \<ge> 1" using assms(2) by simp
      moreover have "(hi - (?mid + 1)) div 2 ^ n \<le> ((hi - lo) div 2) div 2 ^ n" by (intro zdiv_mono1) auto
      ultimately show ?thesis using Suc.IH [of "?mid + 1" hi] Suc.prems gt True halves assms(1) by (auto simp: Let_def)
    qed
  qed
qed auto

lemma code_search_bounds:
  assumes "\<And>b. has_code_at code b = Inr (deploy \<le> b)"
  shows "lo < deploy \<Longrightarrow> deploy \<le> hi \<Longrightarrow> i \<le> m \<Longrightarrow>
    \<exists>d j. code_search code m lo hi i = (Inr d, j) \<and> deploy \<le> d \<and> d \<le> hi \<and> d - deploy \<le> (hi - lo - 1) div 2 ^ (m - i)"
proof (induction "m - i" arbitrary: lo hi i)
  case 0
  then have "code_search code m lo hi i = (Inr hi, i)" by (subst code_search.simps) simp
  then show ?case using 0 by auto
next
  case (Suc n)
  show ?case
  proof (cases "hi - lo > 1")
    case False
    then have "code_search code m lo hi i = (Inr hi, i)" by (subst code_search.simps) simp
    moreover have "hi = deploy" "hi - lo - 1 = 0" using False Suc.prems by auto
    ultimately show ?thesis by simp
  next
    case True
    let ?mid = "lo + (hi - lo) div 2"
    have i: "i < m" "n = m - Suc i" "Suc i \<le> m" using Suc(2) by auto
    have halves: "(hi - lo - 1) div 2 ^ (m - i) = ((hi - lo - 1) div 2) div 2 ^ (m - Suc i)"
      using Suc(2) i by (simp add: zdiv_zmult2_eq flip: Suc(2))
    show ?thesis
    proof (cases "deploy \<le> ?mid")
      case le: True
      have run: "code_search code m lo hi i = code_search code m lo ?mid (Suc i)"
        using True i le assms by (subst code_search.simps) (simp add: Let_def)
      have "(?mid - lo - 1) div 2 ^ (m - Suc i) \<le> ((hi - lo - 1) div 2) div 2 ^ (m - Suc i)" by (intro zdiv_mono1) auto
      moreover obtain d j where "code_search code m lo ?mid (Suc i) = (Inr d, j)" "deploy \<le> d" "d \<le> ?mid"
          "d - deploy \<le> (?mid - lo - 1) div 2 ^ (m - Suc i)"
        using Suc(1) [OF i(2), of lo ?mid] Suc.prems le i by auto
      moreover have "?mid \<le> hi" using True by linarith
      ultimately show ?thesis using run halves by auto
    next
      case gt: False
      have run: "code_search code m lo hi i = code_search code m ?mid hi (Suc i)"
        using True i gt assms by (subst code_search.simps) (simp add: Let_def)
      have "(hi - ?mid - 1) div 2 ^ (m - Suc i) \<le> ((hi - lo - 1) div 2) div 2 ^ (m - Suc i)" by (intro zdiv_mono1) auto
      moreover obtain d j where "code_search code m ?mid hi (Suc i) = (Inr d, j)" "deploy \<le> d" "d \<le> hi"
          "d - deploy \<le> (hi - ?mid - 1) div 2 ^ (m - Suc i)"
        using Suc(1) [OF i(2), of ?mid hi] Suc.prems gt i by auto
      ultimately show ?thesis using run halves by auto
    qed
  qed
qed

section \<open>Properties\<close>

lemma cluster_confidence_bounds:
  assumes "\<forall>r \<in> set rows. cl_confidence r = rule_confidence (cl_rule r)" "rows \<noteq> []"
  shows "7 / 10 \<le> cu_confidence (cluster_of_rows rows partial) \<and> cu_confidence (cluster_of_rows rows partial) \<le> 1"
proof -
  have "7 / 10 \<le> rule_confidence x \<and> rule_confidence x \<le> 1" for x by (cases x) auto
  then have "7 / 10 * real (length rows) \<le> sum_list (map cl_confidence rows) \<and> sum_list (map cl_confidence rows) \<le> real (length rows)"
    using assms(1)
  proof (induction rows)
    case (Cons r rows)
    have "7 / 10 \<le> cl_confidence r \<and> cl_confidence r \<le> 1" using Cons.prems by simp
    moreover have "7 / 10 * real (length rows) \<le> sum_list (map cl_confidence rows) \<and> sum_list (map cl_confidence rows) \<le> real (length rows)"
      using Cons by simp
    ultimately show ?case by (simp add: algebra_simps)
  qed simp
  then show ?thesis using assms(2) by (simp add: cluster_of_rows_def field_simps)
qed

text \<open>
  Whatever the node and the lookup answer, a cluster is well formed: no address appears twice
  under one rule, the creator comes first and is the only row of its rule, the pool is never a
  member by any other rule, every row carries the confidence of its rule, the published
  confidence lies between 0.7 and 1 and the size counts distinct addresses.
\<close>

theorem cluster_well_formed:
  assumes "build_creator_cluster c lookup token creator source launch window max_range = Inr r"
  shows "cluster_rows_ok (lower creator) (lower source) (cu_members r) \<and> 7 / 10 \<le> cu_confidence r \<and> cu_confidence r \<le> 1 \<and>
    1 \<le> cu_size r \<and> cu_size r \<le> length (cu_members r)"
proof -
  let ?cr = "lower creator" and ?so = "lower source"
  define buys where "buys = get_logs_chunked (lc_logs c 0 token [[transfer_topic0], [address_to_topic ?so]]) launch launch max_range"
  define sends where "sends = get_logs_chunked (lc_logs c 0 token [[transfer_topic0], [address_to_topic ?cr]]) launch (launch + window) max_range"
  define rows2 where "rows2 = (case buys of Inl e \<Rightarrow> add_member ?cr Creator None [] | Inr logs \<Rightarrow>
      add_recipients LaunchBlockBuy ?cr ?so logs (add_member ?cr Creator None []))"
  define rows3 where "rows3 = (case sends of Inl e \<Rightarrow> rows2 | Inr logs \<Rightarrow> add_recipients DirectTransfer ?cr ?so logs rows2)"
  define recs where "recs = (case sends of Inl e \<Rightarrow> [] | Inr logs \<Rightarrow> direct_recipients ?cr ?so logs)"
  have "cluster_rows_ok ?cr ?so (add_member ?cr Creator None [])"
    by (simp add: cluster_rows_ok_def add_member_def member_ok_def)
  then have "cluster_rows_ok ?cr ?so rows2" by (simp add: rows2_def add_recipients_ok split: sum.split)
  then have ok3: "cluster_rows_ok ?cr ?so rows3" by (simp add: rows3_def add_recipients_ok split: sum.split)
  have recs: "\<forall>a \<in> set recs. \<exists>l. counted_recipient ?cr ?so l = Some a"
    by (auto simp: recs_def direct_recipients_counted split: sum.split)
  obtain rows partial where run: "add_first_inbound lookup ?cr recs rows3 = Inr rows" "r = cluster_of_rows rows partial"
  proof (cases "add_first_inbound lookup ?cr recs rows3")
    case (Inl e)
    then show ?thesis
      using assms unfolding build_creator_cluster_def Let_def buys_def [symmetric] sends_def [symmetric] rows2_def [symmetric]
        rows3_def [symmetric] recs_def [symmetric] by simp
  next
    case (Inr rows)
    then have "r = cluster_of_rows rows ((case buys of Inl e \<Rightarrow> [LaunchBlockBuy] | Inr _ \<Rightarrow> []) @ (case sends of Inl e \<Rightarrow> [DirectTransfer] | Inr _ \<Rightarrow> []))"
      using assms unfolding build_creator_cluster_def Let_def buys_def [symmetric] sends_def [symmetric] rows2_def [symmetric]
        rows3_def [symmetric] recs_def [symmetric] by simp
    then show ?thesis by (rule that [OF Inr])
  qed
  have "lower a \<noteq> ?cr \<and> lower a \<noteq> ?so" if "a \<in> set recs" for a
    using recs that counted_recipient_lower by metis
  then have ok: "cluster_rows_ok ?cr ?so rows" using add_first_inbound_ok [OF run(1) ok3] by blast
  then have "7 / 10 \<le> cu_confidence r \<and> cu_confidence r \<le> 1"
    using cluster_confidence_bounds [of rows partial] run(2) by (auto simp: cluster_rows_ok_def member_ok_def)
  moreover have "card (set (map cl_address rows)) \<le> length rows" by (metis card_length length_map)
  moreover have "rows \<noteq> []" using ok by (simp add: cluster_rows_ok_def)
  then have "1 \<le> card (set (map cl_address rows))" by (simp add: Suc_le_eq card_gt_0_iff)
  ultimately show ?thesis using ok run(2) by (simp add: cluster_of_rows_def)
qed


text \<open>
  The T+10m buyers over an honest node: \<open>unique_buyers\<close> is the number of distinct recipients
  of transfers out of the pool in the window and \<open>buys_per_buyer\<close> their mean, at least one
  when there is a buyer; past 8,000 logs both are unknown.
\<close>

theorem t10_buyers_exact:
  assumes "serves_token c token logs" "1 \<le> max_range"
    and "W = filter (in_window [[transfer_topic0], [address_to_topic source]] f t) logs"
    and "A = {a. \<exists>l \<in> set W. topic_address 2 l = Some a}" "n = length (filter (\<lambda>l. topic_address 2 l \<noteq> None) W)"
  shows "compute_t10_features c token source f t max_range =
    (if length W > max_t10_logs then \<lparr>tf_unique = None, tf_per_buyer = None\<rparr>
     else \<lparr>tf_unique = Some (int (card A)), tf_per_buyer = Some (of_nat n / of_nat (card A))\<rparr>) \<and> card A \<le> n"
proof -
  have len: "length (buyers_of W) = card A"
    using buyers_facts [of W] assms(4) by (metis distinct_card length_map set_map)
  have "int (length (buyers_of W)) \<le> sum_list (map snd (buyers_of W))"
  proof -
    have "int (length m) \<le> sum_list (map snd m)" if "\<forall>e \<in> set m. 1 \<le> snd e" for m :: "(address \<times> int) list"
      using that by (induction m) auto
    then show ?thesis using buyers_facts by blast
  qed
  then have "card A \<le> n" using buyers_facts [of W] assms(5) len by simp
  moreover have "buyers_of W = [] \<longleftrightarrow> card A = 0" using len by auto
  ultimately show ?thesis
    using buyers_facts [of W] len assms(5)
    by (auto simp: compute_t10_features_def serves_token_scan [OF assms(1,2)] Let_def simp flip: assms(3))
qed


text \<open>
  The scan of the T+10m pass starts at the launch block, not at the token's first transfer:
  when a token's whole supply was handed out before its pool was created, all of it is held by
  somebody and yet the cluster and the top ten holders are reported to hold nothing.
\<close>

theorem holders_before_launch_missed:
  assumes "serves_token c token logs" "1 \<le> max_range" "supply_at t = Inr s" "0 < s"
    and "\<forall>l \<in> set logs. log_block l < launch"
  shows "compute_holder_stats c supply_at token launch t max_range creator cluster source =
    \<lparr>hs_cluster_pct = Some 0, hs_top10_pct = Some 0, hs_supply = Some s, hs_holders = Some 0\<rparr>"
proof -
  have "filter (in_window [[transfer_topic0]] launch t) logs = []"
    using assms(5) by (auto simp: filter_empty_conv in_window_def in_range_def)
  then show ?thesis
    using assms(3,4) serves_token_scan [OF assms(1,2), of "[[transfer_topic0]]" launch t]
    by (simp add: compute_holder_stats_def reconstruct_balances_def holder_stats_of_def top10_sum_def percent_of_def)
qed

text \<open>
  The creator's first transaction: the search never answers a block before it, and with
  \<open>n\<close> iterations at most \<open>launch / 2 ^ n\<close> blocks after it, so an age computed from it never
  makes a creator look more established than it is.
\<close>

theorem first_tx_block_bounds:
  assumes "\<And>b. nonce b = Inr (k b)" "\<And>b. 1 \<le> k b \<longleftrightarrow> first \<le> b" "0 \<le> first" "first \<le> launch"
  shows "\<exists>h. first_tx_block nonce launch n = Inr (Some h) \<and> first \<le> h \<and> h \<le> launch \<and> h - first \<le> launch div 2 ^ n"
proof -
  have "k launch \<noteq> 0" using assms(2) [of launch] assms(4) by auto
  moreover obtain h where "nonce_search nonce n 0 launch = Inr h" "first \<le> h" "h \<le> launch" "h - first \<le> launch div 2 ^ n"
    using nonce_search_bounds [OF assms(1,2), of 0 launch n] assms(3,4) by auto
  ultimately show ?thesis using assms(1) [of launch] by (simp add: first_tx_block_def)
qed

text \<open>
  The age of a token's code at pool creation: for a token deployed inside the window the block
  found is the deployment block or later, off by at most \<open>window / 2 ^ (max_iters - 2)\<close> blocks
  (843 with the defaults), and the age is never over-estimated; older code has no age.
\<close>

theorem token_age_bounds:
  assumes "\<And>b. has_code_at code b = Inr (deploy \<le> b)" "0 < window" "window < pool" "deploy \<le> pool" "2 \<le> m" "0 \<le> secs"
  shows "case ta_deploy (compute_token_age_at_pool code pool secs window m) of
      None \<Rightarrow> deploy \<le> pool - window \<and> ta_age_sec (compute_token_age_at_pool code pool secs window m) = None
    | Some d \<Rightarrow> pool - window < deploy \<and> deploy \<le> d \<and> d \<le> pool \<and> d - deploy \<le> (window - 1) div 2 ^ (m - 2) \<and>
        (\<exists>a. ta_age_sec (compute_token_age_at_pool code pool secs window m) = Some a \<and> a \<le> js_round (of_int (pool - deploy) * secs))"
proof (cases "deploy \<le> pool - window")
  case True
  then show ?thesis using assms(1,3) by (simp add: compute_token_age_at_pool_def Let_def)
next
  case False
  obtain d j where d: "code_search code m (pool - window) pool 2 = (Inr d, j)" "deploy \<le> d" "d \<le> pool"
      "d - deploy \<le> (window - 1) div 2 ^ (m - 2)"
    using code_search_bounds [OF assms(1), of "pool - window" pool 2 m] False assms(4,5) by auto
  have "of_int (if pool > d then pool - d else 0) * secs \<le> of_int (pool - deploy) * secs"
    using d(2,3) assms(4,6) by (intro mult_right_mono) auto
  then have "js_round (of_int (if pool > d then pool - d else 0) * secs) \<le> js_round (of_int (pool - deploy) * secs)"
    by (rule js_round_mono)
  then show ?thesis
    using False assms(1,3,4) d by (simp add: compute_token_age_at_pool_def Let_def)
qed

subsection \<open>Witnesses\<close>

definition token_node :: "rpc_log list \<Rightarrow> log_client" where
  "token_node logs = \<lparr>lc_logs = (\<lambda>a addr topics x y. Inr (filter (in_range x y) (filter (topics_match topics) logs))),
     lc_error_name = (\<lambda>m. [])\<rparr>"

lemma token_node_serves: "sorted (map log_block logs) \<Longrightarrow> serves_token (token_node logs) token logs"
  by (simp add: serves_token_def token_node_def honest_node_def)

definition holder_a :: address where "holder_a = ''0x'' @ replicate 40 CHR ''1''"
definition pool_a :: address where "pool_a = ''0x'' @ replicate 40 CHR ''2''"

definition mint_log :: rpc_log where
  "mint_log = \<lparr>l_address = ''0xt'', l_topics = [transfer_topic0, address_to_topic zero_address, address_to_topic holder_a],
     l_data = ''0x64'', l_block = Some 5, l_index = Some 0, l_tx = Some ''0xtx''\<rparr>"

lemma mint_facts:
  "filter (in_window [[transfer_topic0]] 0 10) [mint_log] = [mint_log]" "moves [mint_log] = [(zero_address, holder_a, 100)]"
  "decodable mint_log" "log_block mint_log = 5" "holder_a \<noteq> zero_address" "topic_address 2 mint_log = Some holder_a"
proof -
  show "moves [mint_log] = [(zero_address, holder_a, 100)]" "decodable mint_log" "topic_address 2 mint_log = Some holder_a"
    "holder_a \<noteq> zero_address" "log_block mint_log = 5" by code_simp+
  show "filter (in_window [[transfer_topic0]] 0 10) [mint_log] = [mint_log]"
    by (simp add: in_window_def topics_match_def in_range_def mint_log_def log_block_def)
qed

lemma mint_served: "serves_token (token_node [mint_log]) token [mint_log]"
  by (rule token_node_serves) simp

theorem cluster_well_formed_witness:
  "7 / 10 \<le> cu_confidence (projr (build_creator_cluster (token_node [mint_log]) unavailable_first_inbound ''0xt'' holder_a pool_a 5 100 1000))"
proof -
  have "build_creator_cluster (token_node [mint_log]) unavailable_first_inbound ''0xt'' holder_a pool_a 5 100 1000 =
      Inr (projr (build_creator_cluster (token_node [mint_log]) unavailable_first_inbound ''0xt'' holder_a pool_a 5 100 1000))"
    by (simp add: build_creator_cluster_def Let_def add_first_inbound_unavailable)
  from cluster_well_formed [OF this] show ?thesis by blast
qed


theorem t10_buyers_exact_witness:
  "compute_t10_features (token_node [mint_log]) ''0xt'' zero_address 0 10 1000 = \<lparr>tf_unique = Some 1, tf_per_buyer = Some 1\<rparr>"
proof -
  have W: "[mint_log] = filter (in_window [[transfer_topic0], [address_to_topic zero_address]] 0 10) [mint_log]"
    by (simp add: in_window_def topics_match_def in_range_def mint_log_def log_block_def less_Suc_eq)
  have A: "{holder_a} = {a. \<exists>l \<in> set [mint_log]. topic_address 2 l = Some a}" using mint_facts(6) by auto
  have n: "1 = length (filter (\<lambda>l. topic_address 2 l \<noteq> None) [mint_log])" using mint_facts(6) by simp
  show ?thesis using t10_buyers_exact [OF mint_served _ W A n, of 1000 "''0xt''"] by (simp add: max_t10_logs_def)
qed


theorem holders_before_launch_missed_witness:
  "compute_holder_stats (token_node [mint_log]) (\<lambda>_. Inr 100) ''0xt'' 6 10 1000 holder_a {holder_a} pool_a =
    \<lparr>hs_cluster_pct = Some 0, hs_top10_pct = Some 0, hs_supply = Some 100, hs_holders = Some 0\<rparr> \<and>
   ledger (moves [mint_log]) holder_a = 100"
  using holders_before_launch_missed [OF mint_served, of 1000 "\<lambda>_. Inr 100" 10 100 6] mint_facts
  by (simp add: ledger_def move_of_def)

theorem first_tx_block_bounds_witness:
  "\<exists>h. first_tx_block (\<lambda>b. Inr (if b \<ge> 70 then 1 else 0)) 100 8 = Inr (Some h) \<and> 70 \<le> h \<and> h \<le> 100 \<and> h - 70 \<le> 100 div 2 ^ 8"
  by (rule first_tx_block_bounds [where k = "\<lambda>b. if b \<ge> 70 then 1 else 0"]) auto

theorem token_age_bounds_witness:
  "\<exists>d. ta_deploy (compute_token_age_at_pool (\<lambda>b. Inr (if b \<ge> 950 then Some ''0x60'' else None)) 1000 1 100 12) = Some d \<and>
     950 \<le> d \<and> d - 950 \<le> 99 div 2 ^ 10"
proof -
  let ?code = "\<lambda>b :: int. Inr (if b \<ge> 950 then Some ''0x60'' else None) :: string + string option"
  have "has_code_at ?code b = Inr (950 \<le> b)" for b by (simp add: has_code_at_def)
  from token_age_bounds [OF this, of 100 1000 12 1] show ?thesis by (auto split: option.splits)
qed

end
