(* ===== verification/WatcherPools.thy ===== *)
theory WatcherPools
  imports WatcherFeatures
begin

text \<open>
  The pool side of \<open>apps/worker/src/watcher\<close>: the choice of a token's primary v4 pool
  (\<open>primary-pool.ts\<close>), hooks, side pools and approvals (\<open>hooks.ts\<close>), the quoted sell impact
  (\<open>sellimpact.ts\<close>), the readings of the two scanners (\<open>scanners/goplus.ts\<close>,
  \<open>scanners/scanhood.ts\<close>) and feature 9, which puts them together (\<open>feature9.ts\<close>).
\<close>


section \<open>Configuration\<close>

text \<open>The fields of \<open>ChainConfig\<close> that \<open>ChainLib\<close> does not read; the entry points of all launchpads.\<close>

record watch_config = chain_config +
  wc_quote_list :: "address list"
  wc_usdg :: address
  wc_weth :: address
  wc_v4_quoter :: address
  wc_block_seconds :: real
  wc_entrypoints :: "address list"

text \<open>A scan with \<open>withRetry\<close>: the answers of the node may differ from try to try.\<close>

definition retried_logs :: "log_client \<Rightarrow> nat \<Rightarrow> address \<Rightarrow> string list list \<Rightarrow> int \<Rightarrow> int \<Rightarrow> int \<Rightarrow> string + rpc_log list" where
  "retried_logs c tries addr topics f t max_range =
     with_retry (transient_for c) tries (\<lambda>a. get_logs_chunked (lc_logs c a addr topics) f t max_range)"


section \<open>The primary pool\<close>

definition fee_suspect_threshold :: int where "fee_suspect_threshold = 100000"

definition standard_fees :: "int list" where
  "standard_fees = [100, 200, 300, 400, 500, 2500, 3000, 5000, 10000, 20000, 30000]"

definition is_fee_suspect :: "int option \<Rightarrow> bool" where
  "is_fee_suspect fee = (case fee of None \<Rightarrow> False | Some f \<Rightarrow> f \<ge> fee_suspect_threshold)"

record pool_candidate =
  pd_id :: string
  pd_currency0 :: address
  pd_currency1 :: address
  pd_fee :: "int option"
  pd_tick_spacing :: "int option"
  pd_hooks :: "address option"
  pd_init_block :: int
  pd_quote :: "address option"
  pd_known :: bool
  pd_suspect :: bool
  pd_standard :: bool
  pd_activity :: "int option"

definition known_quotes :: "watch_config \<Rightarrow> address list" where
  "known_quotes cfg = zero_address # lower (wc_usdg cfg) # lower (wc_weth cfg) # map lower (wc_quote_list cfg)"

text \<open>\<open>annotate\<close> fills the last fields of a raw candidate.\<close>

definition annotate :: "watch_config \<Rightarrow> pool_candidate \<Rightarrow> pool_candidate" where
  "annotate cfg c =
     (let known = set (known_quotes cfg); c0 = lower (pd_currency0 c); c1 = lower (pd_currency1 c);
          quote = (if c0 \<in> known then Some c0 else if c1 \<in> known then Some c1 else None)
      in c\<lparr>pd_quote := quote, pd_known := (quote \<noteq> None), pd_suspect := is_fee_suspect (pd_fee c),
           pd_standard := (case pd_fee c of None \<Rightarrow> False | Some f \<Rightarrow> f \<in> set standard_fees)\<rparr>)"

definition candidate_of :: "string \<Rightarrow> pool_creation \<Rightarrow> int \<Rightarrow> pool_candidate" where
  "candidate_of pid pc block =
     \<lparr>pd_id = pid, pd_currency0 = lower (pc_token0 pc), pd_currency1 = lower (pc_token1 pc), pd_fee = pc_fee pc,
      pd_tick_spacing = pc_tick_spacing pc,
      pd_hooks = (case pc_hooks pc of None \<Rightarrow> None | Some h \<Rightarrow> if h = [] then None else Some (lower h)),
      pd_init_block = block, pd_quote = None, pd_known = False, pd_suspect = False, pd_standard = False, pd_activity = None\<rparr>"

text \<open>The loop over the logs of both scans: the first log of a pool id counts.\<close>

fun collect_candidates ::
    "(rpc_log \<Rightarrow> string + pool_creation option) \<Rightarrow> watch_config \<Rightarrow> rpc_log list \<Rightarrow> pool_candidate list \<Rightarrow> string + pool_candidate list" where
  "collect_candidates dec cfg [] acc = Inr acc"
| "collect_candidates dec cfg (l # ls) acc =
     (case dec l of
        Inl e \<Rightarrow> Inl e
      | Inr None \<Rightarrow> collect_candidates dec cfg ls acc
      | Inr (Some pc) \<Rightarrow>
          (case pc_pool_id pc of
             None \<Rightarrow> collect_candidates dec cfg ls acc
           | Some p \<Rightarrow>
               if p = [] \<or> list_ex (\<lambda>c. pd_id c = lower p) acc then collect_candidates dec cfg ls acc
               else (case l_block l of
                 None \<Rightarrow> Inl ''Cannot convert null to a BigInt''
               | Some b \<Rightarrow> collect_candidates dec cfg ls (acc @ [annotate cfg (candidate_of (lower p) pc b)]))))"

record pool_abi =
  pi_init_topic :: string
  pi_swap_topic :: string
  pi_decode :: "rpc_log \<Rightarrow> string + pool_creation option"

definition find_token_v4_pools ::
    "log_client \<Rightarrow> pool_abi \<Rightarrow> watch_config \<Rightarrow> address \<Rightarrow> int \<Rightarrow> int \<Rightarrow> int \<Rightarrow> string + pool_candidate list" where
  "find_token_v4_pools c abi cfg token f t max_range =
     (let pm = cc_v4_pool_manager cfg; tk = address_to_topic token; it = pi_init_topic abi in
      case retried_logs c 3 pm [[it], [], [tk]] f t max_range of
        Inl e \<Rightarrow> Inl e
      | Inr as_c0 \<Rightarrow>
          (case retried_logs c 3 pm [[it], [], [], [tk]] f t max_range of
             Inl e \<Rightarrow> Inl e
           | Inr as_c1 \<Rightarrow> collect_candidates (pi_decode abi) cfg (as_c0 @ as_c1) []))"

definition pool_activity :: "log_client \<Rightarrow> pool_abi \<Rightarrow> watch_config \<Rightarrow> string \<Rightarrow> int \<Rightarrow> int \<Rightarrow> int \<Rightarrow> int" where
  "pool_activity c abi cfg pid f t max_range =
     (case retried_logs c 2 (cc_v4_pool_manager cfg) [[pi_swap_topic abi], [pid]] f t max_range of
        Inl e \<Rightarrow> 0
      | Inr logs \<Rightarrow> int (length logs))"

text \<open>The comparator of the ranking, negative when \<open>a\<close> comes first.\<close>

definition rank_compare :: "pool_candidate \<Rightarrow> pool_candidate \<Rightarrow> int" where
  "rank_compare a b =
     (if pd_known a \<noteq> pd_known b then (if pd_known a then - 1 else 1)
      else if pd_suspect a \<noteq> pd_suspect b then (if pd_suspect a then 1 else - 1)
      else if pd_standard a \<noteq> pd_standard b then (if pd_standard a then - 1 else 1)
      else let aa = nullish (pd_activity a) (- 1); ba = nullish (pd_activity b) (- 1)
        in if aa \<noteq> ba then ba - aa
           else if pd_init_block a < pd_init_block b then - 1
           else if pd_init_block a > pd_init_block b then 1 else 0)"

text \<open>A stable sort by the comparator: insertion from the right.\<close>

fun insert_ranked :: "pool_candidate \<Rightarrow> pool_candidate list \<Rightarrow> pool_candidate list" where
  "insert_ranked x [] = [x]"
| "insert_ranked x (y # ys) = (if rank_compare x y \<le> 0 then x # y # ys else y # insert_ranked x ys)"

definition rank_candidates :: "pool_candidate list \<Rightarrow> pool_candidate list" where
  "rank_candidates cs = foldr insert_ranked cs []"

record pool_pick =
  pp_chosen :: "pool_candidate option"
  pp_changed :: bool
  pp_candidates :: "pool_candidate list"

definition contenders_of :: "pool_candidate list \<Rightarrow> pool_candidate list" where
  "contenders_of ranked = filter (\<lambda>c. pd_known c \<and> \<not> pd_suspect c) ranked"

text \<open>The activity is written into the candidate objects, found here again by their unique ids.\<close>

definition probe_activity :: "(string \<Rightarrow> int) \<Rightarrow> pool_candidate list \<Rightarrow> pool_candidate list \<Rightarrow> pool_candidate list" where
  "probe_activity activity probed cands =
     map (\<lambda>c. if pd_id c \<in> pd_id ` set probed then c\<lparr>pd_activity := Some (activity (pd_id c))\<rparr> else c) cands"

record pick_args =
  pk_token :: address
  pk_current :: "string option"
  pk_scan_from :: int
  pk_scan_to :: int
  pk_activity_from :: int
  pk_activity_to :: int
  pk_head :: "int option"

definition clamp_to :: "int option \<Rightarrow> int \<Rightarrow> int" where
  "clamp_to head t = (case head of None \<Rightarrow> t | Some h \<Rightarrow> if t > h then h else t)"

definition rank_with_activity :: "(string \<Rightarrow> int) \<Rightarrow> pool_candidate list \<Rightarrow> pool_candidate list" where
  "rank_with_activity activity cands =
     (let contenders = contenders_of (rank_candidates cands) in
      if length contenders \<ge> 2 then rank_candidates (probe_activity activity (take 4 contenders) cands)
      else rank_candidates cands)"

text \<open>\<open>read_head\<close> is \<open>eth_blockNumber\<close>, read when the caller does not know the head.\<close>

definition pick_primary_v4_pool ::
    "log_client \<Rightarrow> pool_abi \<Rightarrow> watch_config \<Rightarrow> string + int \<Rightarrow> int \<Rightarrow> pick_args \<Rightarrow> string + pool_pick" where
  "pick_primary_v4_pool c abi cfg read_head max_range p =
     (let head = (case pk_head p of Some h \<Rightarrow> Some h | None \<Rightarrow> (case read_head of Inl e \<Rightarrow> None | Inr h \<Rightarrow> Some h));
          activity_to = clamp_to head (pk_activity_to p)
      in case find_token_v4_pools c abi cfg (pk_token p) (pk_scan_from p) (clamp_to head (pk_scan_to p)) max_range of
           Inl e \<Rightarrow> Inl e
         | Inr [] \<Rightarrow> Inr \<lparr>pp_chosen = None, pp_changed = False, pp_candidates = []\<rparr>
         | Inr (x # xs) \<Rightarrow>
             (let ranked = rank_with_activity (\<lambda>pid. pool_activity c abi cfg pid (pk_activity_from p) activity_to max_range) (x # xs)
              in Inr \<lparr>pp_chosen = Some (hd ranked), pp_changed = (map_option lower (pk_current p) \<noteq> Some (pd_id (hd ranked))),
                      pp_candidates = ranked\<rparr>))"


section \<open>Hooks, side pools and approvals\<close>

record hook_features =
  hk_permissions :: int
  hk_block_swap :: bool
  hk_tax_swap :: bool
  hk_gates_lp :: bool

definition compute_hook_features :: "address option \<Rightarrow> hook_features" where
  "compute_hook_features hooks =
     (let perms = decode_hook_permissions hooks in
      if \<not> hp_has_hook perms then \<lparr>hk_permissions = 0, hk_block_swap = False, hk_tax_swap = False, hk_gates_lp = False\<rparr>
      else let risk = hook_risk_of perms
        in \<lparr>hk_permissions = hp_flags perms, hk_block_swap = hr_can_block_swap risk, hk_tax_swap = hr_can_tax_swap risk,
            hk_gates_lp = hr_gates_lp_removal risk\<rparr>)"

definition infra_addresses :: "watch_config \<Rightarrow> address set" where
  "infra_addresses cfg =
     {lower (cc_v4_pool_manager cfg), lower (cc_v3_factory cfg), lower (cc_v2_factory cfg), lower (wc_v4_quoter cfg), zero_address} \<union>
     lower ` (set (cc_v3_alternates cfg) \<union> (\<Union>lp \<in> set (cc_launchpads cfg). set (lp_factories lp) \<union> set (lp_candidates lp)) \<union>
       set (wc_entrypoints cfg))"

definition pool_ids_of :: "rpc_log list \<Rightarrow> string set" where
  "pool_ids_of logs = {lower (l_topics l ! 1) | l. l \<in> set logs \<and> 1 < length (l_topics l) \<and> l_topics l ! 1 \<noteq> []}"

definition compute_side_pool_count ::
    "log_client \<Rightarrow> pool_abi \<Rightarrow> watch_config \<Rightarrow> address \<Rightarrow> string option \<Rightarrow> int \<Rightarrow> int \<Rightarrow> int \<Rightarrow> nat option" where
  "compute_side_pool_count c abi cfg token primary f t max_range =
     (let pm = cc_v4_pool_manager cfg; tk = address_to_topic token; it = pi_init_topic abi in
      case (retried_logs c 3 pm [[it], [], [tk]] f t max_range, retried_logs c 3 pm [[it], [], [], [tk]] f t max_range) of
        (Inr as_c0, Inr as_c1) \<Rightarrow>
          Some (card (pool_ids_of (as_c0 @ as_c1) -
            (case primary of None \<Rightarrow> {} | Some p \<Rightarrow> if p = [] then {} else {lower p})))
      | _ \<Rightarrow> None)"

definition approval_topic0 :: string where
  "approval_topic0 = ''0x8c5be1e5ebec7d5bd14f71427d1e84f3dd0314c0f7b2291e5b200ac8c7c3b925''"

definition drainers_of :: "watch_config \<Rightarrow> address \<Rightarrow> rpc_log list \<Rightarrow> address set" where
  "drainers_of cfg token logs =
     {a. \<exists>l \<in> set logs. topic_address 2 l = Some a \<and> a \<notin> infra_addresses cfg \<and> a \<noteq> lower token}"

definition compute_creator_drainer_approvals ::
    "log_client \<Rightarrow> watch_config \<Rightarrow> address \<Rightarrow> address list \<Rightarrow> int \<Rightarrow> int \<Rightarrow> int \<Rightarrow> nat option" where
  "compute_creator_drainer_approvals c cfg token owners f t max_range =
     (if owners = [] then None
      else case with_retry (transient_for c) 3 (\<lambda>a. get_logs_by_topic_values
             (\<lambda>batch. lc_logs c a token [[approval_topic0], batch]) (map address_to_topic (uniq (map lower owners))) f t max_range None) of
        Inl e \<Rightarrow> None
      | Inr logs \<Rightarrow> Some (card (drainers_of cfg token logs)))"


section \<open>Sell impact\<close>

definition spot_in :: int where "spot_in = 10 ^ 12"

record sized_impact =
  si_notional :: int
  si_sell_size :: int
  si_impact_bps :: "int option"
  si_sim_ok :: bool

record sell_impact =
  sm_spot_ok :: bool
  sm_results :: "sized_impact list"

text \<open>\<open>quote amount\<close> is the decoded \<open>amountOut\<close> of the quoter call for the pool, or its error.\<close>

definition quote_call :: "(int \<Rightarrow> string + int) \<Rightarrow> int \<Rightarrow> int option" where
  "quote_call quote amount = (if amount \<le> 0 then None else case quote amount of Inl e \<Rightarrow> None | Inr out \<Rightarrow> Some out)"

definition impact_bps_of :: "int \<Rightarrow> int \<Rightarrow> int \<Rightarrow> int" where
  "impact_bps_of spot_out sell_size bulk_out =
     js_round ((1 - (of_int bulk_out / of_int sell_size) / (of_int spot_out / of_int spot_in)) * 10000)"

definition sized_quote :: "(int \<Rightarrow> string + int) \<Rightarrow> int \<Rightarrow> int \<Rightarrow> sized_impact" where
  "sized_quote quote spot_out notional =
     (let sell_size = notional * spot_in div spot_out;
          failed = \<lparr>si_notional = notional, si_sell_size = sell_size, si_impact_bps = None, si_sim_ok = False\<rparr>
      in case quote_call quote sell_size of
           None \<Rightarrow> failed
         | Some bulk \<Rightarrow> if bulk = 0 then failed
             else \<lparr>si_notional = notional, si_sell_size = sell_size,
                   si_impact_bps = Some (max 0 (impact_bps_of spot_out sell_size bulk)), si_sim_ok = True\<rparr>)"

definition quote_sell_impact :: "(int \<Rightarrow> string + int) \<Rightarrow> int list \<Rightarrow> sell_impact" where
  "quote_sell_impact quote notionals =
     (let no_spot = \<lparr>sm_spot_ok = False,
            sm_results = map (\<lambda>n. \<lparr>si_notional = n, si_sell_size = 0, si_impact_bps = None, si_sim_ok = False\<rparr>) notionals\<rparr>
      in case quote_call quote spot_in of
           None \<Rightarrow> no_spot
         | Some spot \<Rightarrow> if spot = 0 then no_spot
             else \<lparr>sm_spot_ok = True, sm_results = map (sized_quote quote spot) notionals\<rparr>)"

text \<open>The pool the quotes are for: the token and the quote in address order.\<close>

definition impact_pool :: "address \<Rightarrow> address \<Rightarrow> int \<Rightarrow> int \<Rightarrow> address \<Rightarrow> pool_key \<times> bool" where
  "impact_pool token quote fee tick hooks =
     (let t = lower token; q = lower quote; c0 = (if t < q then t else q); c1 = (if t < q then q else t)
      in (\<lparr>pk_currency0 = c0, pk_currency1 = c1, pk_fee = fee, pk_tick_spacing = tick,
           pk_hooks = (if hooks = [] then zero_address else hooks)\<rparr>, t = c0))"


section \<open>The scanners' answers\<close>

record goplus_security =
  gs_open_source :: "string option"
  gs_mintable :: "string option"
  gs_honeypot :: "string option"
  gs_owner :: "string option"
  gs_take_back :: "string option"
  gs_sell_tax :: "string option"
  gs_lp_holders :: "(bool \<times> string option) list"   \<comment> \<open>\<open>is_locked === 1\<close> and the tag\<close>

record goplus_mapped =
  gm_verified :: "bool option"
  gm_mintable :: "bool option"
  gm_honeypot :: "bool option"
  gm_renounced :: "bool option"
  gm_sell_tax_bps :: "int option"
  gm_lp_locked :: "bool option"

definition is_one :: "string option \<Rightarrow> bool option" where
  "is_one v = (case v of None \<Rightarrow> None | Some s \<Rightarrow> if s = [] then None else Some (s = ''1''))"

text \<open>\<open>number\<close> is \<open>Number\<close> of a text, \<open>None\<close> when it is not finite.\<close>

definition tax_to_bps :: "(string \<Rightarrow> real option) \<Rightarrow> string option \<Rightarrow> int option" where
  "tax_to_bps number v =
     (case v of None \<Rightarrow> None | Some s \<Rightarrow> if s = [] then None else map_option (\<lambda>n. js_round (n * 10000)) (number s))"

definition map_goplus :: "(string \<Rightarrow> real option) \<Rightarrow> goplus_security option \<Rightarrow> goplus_mapped" where
  "map_goplus number sec =
     (case sec of
        None \<Rightarrow> \<lparr>gm_verified = None, gm_mintable = None, gm_honeypot = None, gm_renounced = None, gm_sell_tax_bps = None, gm_lp_locked = None\<rparr>
      | Some s \<Rightarrow>
          (let owner = lower (nullish (gs_owner s) []); gone = (owner = [] \<or> owner = zero_address)
           in \<lparr>gm_verified = is_one (gs_open_source s), gm_mintable = is_one (gs_mintable s), gm_honeypot = is_one (gs_honeypot s),
               gm_renounced = (if gone \<and> is_one (gs_take_back s) \<noteq> Some True then Some True else if gone then None else Some False),
               gm_sell_tax_bps = tax_to_bps number (gs_sell_tax s),
               gm_lp_locked = (if gs_lp_holders s = [] then None
                 else Some (list_ex (\<lambda>(locked, tag). locked \<or> contains ''lock'' (lower (nullish tag []))) (gs_lp_holders s)))\<rparr>))"

record scanhood_scan =
  sc_verified :: "bool option"
  sc_sellable :: "bool option"
  sc_lp_status :: "string option"
  sc_lp_type :: "string option"
  sc_liq :: "real option"
  sc_launched :: "int option"
  sc_rwa :: "string option"

record scanhood_mapped =
  sh_verified :: "bool option"
  sh_sellable :: "bool option"
  sh_lp_holder :: "string option"
  sh_liquidity :: "real option"
  sh_launched :: "int option"
  sh_impostor :: "bool option"

definition map_scanhood :: "scanhood_scan option \<Rightarrow> scanhood_mapped" where
  "map_scanhood scan =
     (case scan of
        None \<Rightarrow> \<lparr>sh_verified = None, sh_sellable = None, sh_lp_holder = None, sh_liquidity = None, sh_launched = None, sh_impostor = None\<rparr>
      | Some s \<Rightarrow> \<lparr>sh_verified = sc_verified s, sh_sellable = sc_sellable s,
          sh_lp_holder = (case sc_lp_status s of
              Some st \<Rightarrow> if st \<noteq> [] \<and> st \<noteq> ''unknown'' then Some st else sc_lp_type s
            | None \<Rightarrow> sc_lp_type s),
          sh_liquidity = sc_liq s, sh_launched = sc_launched s, sh_impostor = map_option (\<lambda>r. r = ''impostor'') (sc_rwa s)\<rparr>)"


section \<open>Feature 9\<close>

record feature9 =
  f9_verified :: "bool option"
  f9_renounced :: "bool option"
  f9_mintable :: "bool option"
  f9_lp_holder :: "string option"
  f9_sell_sim_ok :: "bool option"
  f9_sell_tax_bps :: "int option"
  f9_impact :: "int option"
  f9_impact_100 :: "int option"
  f9_impact_1000 :: "int option"
  f9_liquidity :: "real option"
  f9_agree_verified :: "bool option"
  f9_agree_sell :: "bool option"

definition agreement :: "'a option \<Rightarrow> 'a option \<Rightarrow> bool option" where
  "agreement a b = (case (a, b) of (Some x, Some y) \<Rightarrow> Some (x = y) | _ \<Rightarrow> None)"

fun coalesce :: "'a option list \<Rightarrow> 'a option" where
  "coalesce [] = None"
| "coalesce (Some v # vs) = Some v"
| "coalesce (None # vs) = coalesce vs"

record feature9_args =
  fa_token :: address
  fa_quote :: "address option"
  fa_fee :: "int option"
  fa_tick_spacing :: "int option"
  fa_hooks :: "address option"
  fa_decimals :: nat

text \<open>
  \<open>quoter key zeroForOne amount\<close> is the quote at the pass's block; \<open>gp\<close> and \<open>sh\<close> the mapped
  answers of the scanners, whose raw answers and fetch times are only stored.
\<close>

definition own_quotes :: "(pool_key \<Rightarrow> bool \<Rightarrow> int \<Rightarrow> string + int) \<Rightarrow> feature9_args \<Rightarrow> sell_impact option" where
  "own_quotes quoter p =
     (case (fa_quote p, fa_fee p, fa_tick_spacing p) of
        (Some q, Some fee, Some tick) \<Rightarrow>
          if q = [] \<or> q = zero_address then None
          else (case impact_pool (fa_token p) q fee tick (nullish (fa_hooks p) zero_address) of
            (key, zfo) \<Rightarrow> Some (quote_sell_impact (quoter key zfo) [100 * 10 ^ fa_decimals p, 1000 * 10 ^ fa_decimals p]))
      | _ \<Rightarrow> None)"

definition own_sell_ok :: "sell_impact \<Rightarrow> bool" where
  "own_sell_ok q = (if \<not> sm_spot_ok q then False else if list_ex si_sim_ok (sm_results q) then True else sm_spot_ok q)"

definition nth_impact :: "nat \<Rightarrow> sell_impact option \<Rightarrow> int option" where
  "nth_impact i q = (case q of None \<Rightarrow> None
     | Some m \<Rightarrow> if i < length (sm_results m) then si_impact_bps (sm_results m ! i) else None)"

definition compute_feature9 ::
    "(pool_key \<Rightarrow> bool \<Rightarrow> int \<Rightarrow> string + int) \<Rightarrow> goplus_mapped \<Rightarrow> scanhood_mapped \<Rightarrow> feature9_args \<Rightarrow> feature9" where
  "compute_feature9 quoter gp sh p =
     (let own = own_quotes quoter p; not_honeypot = map_option Not (gm_honeypot gp)
      in \<lparr>f9_verified = coalesce [gm_verified gp, sh_verified sh], f9_renounced = gm_renounced gp, f9_mintable = gm_mintable gp,
          f9_lp_holder = coalesce [sh_lp_holder sh, map_option (\<lambda>l. if l then ''locked'' else ''unlocked'') (gm_lp_locked gp)],
          f9_sell_sim_ok = coalesce [map_option own_sell_ok own, not_honeypot, sh_sellable sh],
          f9_sell_tax_bps = gm_sell_tax_bps gp, f9_impact = nth_impact 1 own, f9_impact_100 = nth_impact 0 own,
          f9_impact_1000 = nth_impact 1 own, f9_liquidity = sh_liquidity sh,
          f9_agree_verified = agreement (gm_verified gp) (sh_verified sh), f9_agree_sell = agreement not_honeypot (sh_sellable sh)\<rparr>)"

section \<open>Ranking facts\<close>

text \<open>The comparator orders by a lexicographic key.\<close>

definition rank_key :: "pool_candidate \<Rightarrow> nat \<times> nat \<times> nat \<times> int \<times> int" where
  "rank_key c = (if pd_known c then 0 else 1, if pd_suspect c then 1 else 0, if pd_standard c then 0 else 1,
     - nullish (pd_activity c) (- 1), pd_init_block c)"

lemma rank_compare_key: "rank_compare a b \<le> 0 \<longleftrightarrow> rank_key a \<le> rank_key b"
  by (auto simp: rank_compare_def rank_key_def Let_def less_eq_prod_def)

lemma set_insert_ranked [simp]: "set (insert_ranked x ys) = insert x (set ys)"
  by (induction ys) auto

lemma length_insert_ranked [simp]: "length (insert_ranked x ys) = Suc (length ys)"
  by (induction ys) auto

lemma insert_ranked_sorted: "sorted (map rank_key ys) \<Longrightarrow> sorted (map rank_key (insert_ranked x ys))"
proof (induction ys)
  case (Cons y ys)
  show ?case
  proof (cases "rank_compare x y \<le> 0")
    case True
    then have "rank_key x \<le> rank_key y" by (simp add: rank_compare_key)
    then show ?thesis using Cons.prems True by (auto intro: order_trans)
  next
    case False
    then have "rank_key y \<le> rank_key x" by (simp add: rank_compare_key)
    then show ?thesis using Cons False by auto
  qed
qed simp

lemma rank_candidates_sorted: "sorted (map rank_key (rank_candidates cs))"
  unfolding rank_candidates_def by (induction cs) (simp_all add: insert_ranked_sorted)

lemma set_rank_candidates [simp]: "set (rank_candidates cs) = set cs"
  unfolding rank_candidates_def by (induction cs) auto

lemma length_rank_candidates [simp]: "length (rank_candidates cs) = length cs"
  unfolding rank_candidates_def by (induction cs) auto

lemma rank_candidates_hd:
  assumes "cs \<noteq> []"
  shows "hd (rank_candidates cs) \<in> set cs" "c \<in> set cs \<Longrightarrow> rank_key (hd (rank_candidates cs)) \<le> rank_key c"
proof -
  have ne: "rank_candidates cs \<noteq> []" using assms length_rank_candidates [of cs] by (metis length_0_conv)
  then show "hd (rank_candidates cs) \<in> set cs" using hd_in_set [of "rank_candidates cs"] by simp
  show "rank_key (hd (rank_candidates cs)) \<le> rank_key c" if "c \<in> set cs"
  proof -
    have "c \<in> set (rank_candidates cs)" using that by simp
    then show ?thesis using rank_candidates_sorted [of cs] ne by (cases "rank_candidates cs") auto
  qed
qed

lemma rank_with_activity_cases:
  obtains cs where "rank_with_activity act cands = rank_candidates cs" "length cs = length cands"
    "map (\<lambda>c. (pd_id c, pd_known c, pd_suspect c)) cs = map (\<lambda>c. (pd_id c, pd_known c, pd_suspect c)) cands"
proof (cases "length (contenders_of (rank_candidates cands)) \<ge> 2")
  case True
  show ?thesis
    by (rule that [of "probe_activity act (take 4 (contenders_of (rank_candidates cands))) cands"])
      (use True in \<open>simp_all add: rank_with_activity_def Let_def probe_activity_def\<close>)
next
  case False
  then show ?thesis by (intro that [of cands]) (simp_all add: rank_with_activity_def Let_def)
qed


section \<open>Properties\<close>

text \<open>
  The pool that is picked is a best candidate: none ranks before it, it is one of the token's
  pools, and it is paired with a known quote asset at an unsuspicious fee whenever some
  candidate is.
\<close>

theorem primary_pool_is_best:
  assumes "pick_primary_v4_pool c abi cfg read_head max_range p = Inr pick" "pp_chosen pick = Some best"
  shows "best \<in> set (pp_candidates pick) \<and> (\<forall>x \<in> set (pp_candidates pick). rank_compare best x \<le> 0) \<and>
    ((\<exists>x \<in> set (pp_candidates pick). pd_known x) \<longrightarrow> pd_known best) \<and>
    ((\<exists>x \<in> set (pp_candidates pick). pd_known x \<and> \<not> pd_suspect x) \<longrightarrow> pd_known best \<and> \<not> pd_suspect best) \<and>
    pp_changed pick = (map_option lower (pk_current p) \<noteq> Some (pd_id best))"
proof -
  obtain x xs act where run: "pp_candidates pick = rank_with_activity act (x # xs)" "best = hd (rank_with_activity act (x # xs))"
      "pp_changed pick = (map_option lower (pk_current p) \<noteq> Some (pd_id best))"
    using assms by (auto simp: pick_primary_v4_pool_def Let_def split: sum.splits list.splits)
  obtain cs where cs: "rank_with_activity act (x # xs) = rank_candidates cs" "cs \<noteq> []"
    by (rule rank_with_activity_cases [of act "x # xs"]) auto
  have best: "best \<in> set cs" "\<And>y. y \<in> set cs \<Longrightarrow> rank_key best \<le> rank_key y"
    using rank_candidates_hd [OF cs(2)] run(2) cs(1) by auto
  have known: "pd_known best" if "y \<in> set cs" "pd_known y" for y
    using best(2) [OF that(1)] that(2) by (auto simp: rank_key_def less_eq_prod_def split: if_splits)
  moreover have "\<not> pd_suspect best" if "y \<in> set cs" "pd_known y" "\<not> pd_suspect y" for y
    using best(2) [OF that(1)] known [OF that(1,2)] that(2,3) by (auto simp: rank_key_def less_eq_prod_def split: if_splits)
  ultimately show ?thesis using best run cs by (auto simp: rank_compare_key)
qed

lemma sorted_before:
  assumes "sorted (map f xs)" "i \<le> j" "j < length xs"
  shows "f (xs ! i) \<le> f (xs ! j)"
  using assms sorted_nth_mono [of "map f xs" i j] by simp

text \<open>
  Only the first four contenders are asked for their swaps, and a pool that was not asked
  ranks below one that was, even one without a single swap: a pool that comes fifth or later
  in the free ranking (later fees, or simply created later) is never picked, whatever its
  activity.  Four pools opened before the real one are enough to hide it.
\<close>

theorem late_pool_never_picked:
  assumes "\<forall>c \<in> set cands. pd_activity c = None" "distinct (map pd_id cands)" "\<And>i. 0 \<le> act i"
    and "i < length (contenders_of (rank_candidates cands))" "4 \<le> i" "x = contenders_of (rank_candidates cands) ! i"
  shows "hd (rank_with_activity act cands) \<noteq> x"
proof -
  let ?con = "contenders_of (rank_candidates cands)"
  let ?cs = "probe_activity act (take 4 ?con) cands"
  let ?y = "?con ! 0"
  have con: "set ?con \<subseteq> set cands" by (auto simp: contenders_of_def)
  have sorted: "sorted (map rank_key ?con)"
    unfolding contenders_of_def by (intro sorted_filter rank_candidates_sorted)
  have y: "?y \<in> set ?con" "?y \<in> set (take 4 ?con)" using assms(4,5) by (auto simp: in_set_conv_nth intro!: exI [of _ 0])
  have x: "x \<in> set ?con" using assms(4,6) by simp
  have "rank_key ?y \<le> rank_key x" using sorted_before [OF sorted _ assms(4), of 0] assms(6) by simp
  moreover have none: "pd_activity ?y = None" "pd_activity x = None" using assms(1) con x y(1) by auto
  moreover have "pd_known ?y \<and> \<not> pd_suspect ?y \<and> pd_known x \<and> \<not> pd_suspect x"
    using x y(1) by (auto simp: contenders_of_def)
  ultimately have standard: "pd_standard x \<longrightarrow> pd_standard ?y" by (auto simp: rank_key_def less_eq_prod_def split: if_splits)
  let ?y' = "?y\<lparr>pd_activity := Some (act (pd_id ?y))\<rparr>"
  have "?y' \<in> set ?cs" using y con by (force simp: probe_activity_def)
  then have "rank_key (hd (rank_candidates ?cs)) \<le> rank_key ?y'"
    by (intro rank_candidates_hd(2)) (auto simp: probe_activity_def)
  moreover have "\<not> rank_key x \<le> rank_key ?y'"
    using \<open>pd_known ?y \<and> \<not> pd_suspect ?y \<and> pd_known x \<and> \<not> pd_suspect x\<close> standard none assms(3) [of "pd_id ?y"]
    by (auto simp: rank_key_def less_eq_prod_def)
  ultimately have "hd (rank_candidates ?cs) \<noteq> x" by auto
  moreover have "length ?con \<ge> 2" using assms(4,5) by simp
  ultimately show ?thesis by (simp add: rank_with_activity_def Let_def)
qed

text \<open>
  Every result of the sell quotes is well formed: one per notional, in order; an impact is
  given exactly when the simulated sale worked and is never negative; without a spot quote no
  sale is reported as working.
\<close>

theorem sell_impact_well_formed:
  "map si_notional (sm_results (quote_sell_impact quote notionals)) = notionals \<and>
   list_all (\<lambda>r. si_sim_ok r = (si_impact_bps r \<noteq> None) \<and> (case si_impact_bps r of None \<Rightarrow> True | Some b \<Rightarrow> 0 \<le> b))
     (sm_results (quote_sell_impact quote notionals)) \<and>
   (sm_spot_ok (quote_sell_impact quote notionals) \<or> list_all (\<lambda>r. \<not> si_sim_ok r) (sm_results (quote_sell_impact quote notionals)))"
proof -
  have sized: "si_notional (sized_quote quote spot n) = n \<and> si_sim_ok (sized_quote quote spot n) = (si_impact_bps (sized_quote quote spot n) \<noteq> None) \<and>
      (case si_impact_bps (sized_quote quote spot n) of None \<Rightarrow> True | Some b \<Rightarrow> 0 \<le> b)" for spot n
    by (simp add: sized_quote_def Let_def split: option.split)
  show ?thesis
  proof (cases "quote_call quote spot_in")
    case None
    then show ?thesis by (simp add: quote_sell_impact_def Let_def list_all_iff comp_def)
  next
    case (Some spot)
    then show ?thesis
      using sized by (simp add: quote_sell_impact_def Let_def list_all_iff comp_def)
  qed
qed

text \<open>
  The spot quote sells \<open>10 ^ 12\<close> raw units and takes an answer of zero for a failure.  Against a
  quoter with a constant price of \<open>p\<close> raw quote units per \<open>10 ^ 18\<close> raw token units, every
  price below \<open>10 ^ 6\<close> -- for an 18-decimal token quoted in a 6-decimal dollar, every token
  under one dollar -- rounds to zero: the token is reported as not sellable, and both scanners
  are overruled.
\<close>

theorem cheap_token_reads_unsellable:
  assumes "\<And>key zfo amount. quoter key zfo amount = Inr (amount * price div 10 ^ 18)" "0 \<le> price" "price < 10 ^ 6"
    and "fa_quote p = Some q" "q \<noteq> []" "q \<noteq> zero_address" "fa_fee p = Some fee" "fa_tick_spacing p = Some tick"
  shows "f9_sell_sim_ok (compute_feature9 quoter gp sh p) = Some False \<and> f9_impact (compute_feature9 quoter gp sh p) = None"
proof -
  have "spot_in * price div 10 ^ 18 = 0"
    using assms(2,3) by (simp add: spot_in_def div_pos_pos_trivial)
  then have "quote_sell_impact (quoter key zfo) ns = \<lparr>sm_spot_ok = False,
      sm_results = map (\<lambda>n. \<lparr>si_notional = n, si_sell_size = 0, si_impact_bps = None, si_sim_ok = False\<rparr>) ns\<rparr>" for key zfo ns
    using assms(1) by (simp add: quote_sell_impact_def quote_call_def Let_def spot_in_def)
  then show ?thesis
    using assms(4-8)
    by (simp add: compute_feature9_def own_quotes_def Let_def own_sell_ok_def nth_impact_def split: prod.split)
qed

text \<open>
  A thin GoPlus answer claims a renounced owner: without an owner address, which GoPlus leaves
  out when it does not know, the token counts as renounced unless ownership can be taken back.
\<close>

theorem unknown_owner_reads_renounced:
  assumes "gs_owner s = None" "gs_take_back s \<noteq> Some ''1''"
  shows "gm_renounced (map_goplus number (Some s)) = Some True"
  using assms by (auto simp: map_goplus_def Let_def is_one_def lower_def split: option.splits)

subsection \<open>Witnesses\<close>

definition demo_config :: watch_config where
  "demo_config = \<lparr>cc_get_logs_max_range = 1000, cc_v2_factory = ''0xf2'', cc_v3_factory = ''0xf3'', cc_v3_alternates = [],
     cc_v4_pool_manager = ''0xpm'', cc_launchpads = [], wc_quote_list = [''0xq''], wc_usdg = ''0xq'', wc_weth = ''0xw'',
     wc_v4_quoter = ''0xqu'', wc_block_seconds = 1 / 10, wc_entrypoints = []\<rparr>"

definition demo_creation :: pool_creation where
  "demo_creation = \<lparr>pc_kind = V4, pc_token0 = ''0xq'', pc_token1 = ''0xt'', pc_pool_address = None, pc_pool_id = Some ''0xp'',
     pc_fee = Some 3000, pc_tick_spacing = Some 60, pc_hooks = None\<rparr>"

definition demo_pool_abi :: pool_abi where
  "demo_pool_abi = \<lparr>pi_init_topic = ''0xi'', pi_swap_topic = ''0xs'', pi_decode = (\<lambda>l. Inr (Some demo_creation))\<rparr>"

definition demo_pool_node :: log_client where
  "demo_pool_node = \<lparr>lc_logs = (\<lambda>a addr topics x y. Inr [mint_log]), lc_error_name = (\<lambda>m. [])\<rparr>"

definition demo_pick_args :: pick_args where
  "demo_pick_args = \<lparr>pk_token = ''0xt'', pk_current = None, pk_scan_from = 0, pk_scan_to = 10, pk_activity_from = 0, pk_activity_to = 10,
     pk_head = Some 10\<rparr>"

lemma demo_pool_scan: "retried_logs demo_pool_node 3 addr topics 0 10 1000 = Inr [mint_log]"
  by (simp add: retried_logs_def demo_pool_node_def get_logs_chunked_def chunk_windows_step chunk_windows_stop)

theorem primary_pool_is_best_witness:
  "pd_known (annotate demo_config (candidate_of ''0xp'' demo_creation 5)) \<and>
   rank_compare (annotate demo_config (candidate_of ''0xp'' demo_creation 5)) (annotate demo_config (candidate_of ''0xp'' demo_creation 5)) \<le> 0"
proof -
  let ?c = "annotate demo_config (candidate_of ''0xp'' demo_creation 5)"
  have p: "lower ''0xp'' = ''0xp''" by code_simp
  have "find_token_v4_pools demo_pool_node demo_pool_abi demo_config ''0xt'' 0 10 1000 = Inr [?c]"
    by (simp add: find_token_v4_pools_def Let_def demo_pool_scan demo_pool_abi_def demo_creation_def mint_log_def annotate_def candidate_of_def p)
  then have pick: "pick_primary_v4_pool demo_pool_node demo_pool_abi demo_config (Inl []) 1000 demo_pick_args =
      Inr \<lparr>pp_chosen = Some ?c, pp_changed = True, pp_candidates = [?c]\<rparr>"
    by (simp add: pick_primary_v4_pool_def demo_pick_args_def clamp_to_def Let_def rank_with_activity_def rank_candidates_def contenders_of_def)
  have "lower ''0xq'' = ''0xq''" by code_simp
  then have "pd_known ?c" by (simp add: annotate_def candidate_of_def demo_creation_def demo_config_def known_quotes_def Let_def)
  moreover define c where "c = ?c"
  ultimately have "pp_candidates \<lparr>pp_chosen = Some c, pp_changed = True, pp_candidates = [c]\<rparr> = [c]" "pd_known c" by simp_all
  moreover have "pick_primary_v4_pool demo_pool_node demo_pool_abi demo_config (Inl []) 1000 demo_pick_args =
      Inr \<lparr>pp_chosen = Some c, pp_changed = True, pp_candidates = [c]\<rparr>" using pick by (simp only: c_def)
  from primary_pool_is_best [OF this, of c] have "rank_compare c c \<le> 0" by simp
  ultimately show ?thesis by (simp only: c_def simp_thms)
qed

definition hidden_pool :: "nat \<Rightarrow> pool_candidate" where
  "hidden_pool n = \<lparr>pd_id = replicate n CHR ''1'', pd_currency0 = ''0xq'', pd_currency1 = ''0xt'', pd_fee = Some 3000,
     pd_tick_spacing = Some 60, pd_hooks = None, pd_init_block = int n, pd_quote = Some ''0xq'', pd_known = True, pd_suspect = False,
     pd_standard = True, pd_activity = None\<rparr>"

theorem late_pool_never_picked_witness:
  "hd (rank_with_activity (\<lambda>i. if i = replicate 5 CHR ''1'' then 1000 else 0) (map hidden_pool [1, 2, 3, 4, 5])) \<noteq> hidden_pool 5"
proof (rule late_pool_never_picked [where i = 4])
  have r: "rank_candidates (map hidden_pool [1, 2, 3, 4, 5]) = map hidden_pool [1, 2, 3, 4, 5]"
    by (simp add: rank_candidates_def hidden_pool_def rank_compare_def)
  have c: "contenders_of (map hidden_pool [1, 2, 3, 4, 5]) = map hidden_pool [1, 2, 3, 4, 5]"
    by (simp add: contenders_of_def hidden_pool_def)
  show "4 < length (contenders_of (rank_candidates (map hidden_pool [1, 2, 3, 4, 5])))"
    "hidden_pool 5 = contenders_of (rank_candidates (map hidden_pool [1, 2, 3, 4, 5])) ! 4"
    by (simp_all only: r c) simp_all
  show "distinct (map pd_id (map hidden_pool [1, 2, 3, 4, 5]))" "\<forall>c \<in> set (map hidden_pool [1, 2, 3, 4, 5]). pd_activity c = None"
    by (simp_all add: hidden_pool_def numeral_eq_Suc)
qed auto

theorem cheap_token_reads_unsellable_witness:
  "f9_sell_sim_ok (compute_feature9 (\<lambda>key zfo amount. Inr (amount * 500 div 10 ^ 18)) (map_goplus (\<lambda>_. None) None)
     (map_scanhood (Some \<lparr>sc_verified = None, sc_sellable = Some True, sc_lp_status = None, sc_lp_type = None, sc_liq = None,
        sc_launched = None, sc_rwa = None\<rparr>))
     \<lparr>fa_token = ''0xt'', fa_quote = Some ''0xq'', fa_fee = Some 3000, fa_tick_spacing = Some 60, fa_hooks = None, fa_decimals = 6\<rparr>) = Some False"
proof (rule conjunct1 [OF cheap_token_reads_unsellable [where price = 500 and q = "''0xq''" and fee = 3000 and tick = 60]])
  show "''0xq'' \<noteq> zero_address" by code_simp
qed simp_all

theorem unknown_owner_reads_renounced_witness:
  "gm_renounced (map_goplus (\<lambda>_. None) (Some \<lparr>gs_open_source = None, gs_mintable = None, gs_honeypot = None, gs_owner = None,
     gs_take_back = None, gs_sell_tax = None, gs_lp_holders = []\<rparr>)) = Some True"
  by (rule unknown_owner_reads_renounced) simp_all

end
