(* ===== verification/Watcher.thy ===== *)
theory Watcher
  imports WatcherPools
begin

text \<open>
  The watcher of \<open>apps/worker/src/watcher\<close>: which side of a pool is the token
  (\<open>classify.ts\<close>), the detection of pools (\<open>detect.ts\<close>), a creator's quota (\<open>quota.ts\<close>), the
  ingestion of a pool as a launch (\<open>ingest.ts\<close>), the poller with its cursor (\<open>poller.ts\<close>,
  \<open>cursor.ts\<close>) and the T+10m pass over a launch (\<open>t10.ts\<close>).  The database is a record of its
  tables; the node's answers are part of the input of a step.
\<close>


section \<open>Token and quote\<close>

record pair_class =
  cp_token :: address
  cp_quote :: address
  cp_confident :: bool

definition classify_pair :: "watch_config \<Rightarrow> address \<Rightarrow> address \<Rightarrow> pair_class" where
  "classify_pair cfg token0 token1 =
     (let quotes = set (zero_address # map lower (wc_quote_list cfg)); q0 = lower token0 \<in> quotes; q1 = lower token1 \<in> quotes
      in if q0 \<and> \<not> q1 then \<lparr>cp_token = token1, cp_quote = token0, cp_confident = True\<rparr>
         else if q1 \<and> \<not> q0 then \<lparr>cp_token = token0, cp_quote = token1, cp_confident = True\<rparr>
         else \<lparr>cp_token = token1, cp_quote = token0, cp_confident = False\<rparr>)"


section \<open>Detection\<close>

record detected_pool =
  dp_creation :: pool_creation
  dp_block :: int
  dp_tx :: string

fun decode_pools :: "(rpc_log \<Rightarrow> string + pool_creation option) \<Rightarrow> rpc_log list \<Rightarrow> string + detected_pool list" where
  "decode_pools dec [] = Inr []"
| "decode_pools dec (l # ls) =
     (case dec l of
        Inl e \<Rightarrow> Inl e
      | Inr None \<Rightarrow> decode_pools dec ls
      | Inr (Some pc) \<Rightarrow>
          (case l_block l of
             None \<Rightarrow> Inl ''Cannot convert null to a BigInt''
           | Some b \<Rightarrow>
               map_sum id (\<lambda>rest. \<lparr>dp_creation = pc, dp_block = b, dp_tx = nullish (l_tx l) []\<rparr> # rest) (decode_pools dec ls)))"

text \<open>\<open>logs\<close> is \<open>eth_getLogs\<close> for a list of addresses and the three pool-creation selectors.\<close>

definition detect_pools ::
    "(address list \<Rightarrow> log_request) \<Rightarrow> (rpc_log \<Rightarrow> string + pool_creation option) \<Rightarrow> chain_config \<Rightarrow> int \<Rightarrow> int \<Rightarrow> int \<Rightarrow>
     string + detected_pool list" where
  "detect_pools logs dec cfg f t max_range =
     (let src = pool_creation_sources cfg in
      case get_logs_chunked (logs (ps_v2 src # ps_v3 src @ [ps_v4 src])) f t max_range of
        Inl e \<Rightarrow> Inl e
      | Inr ls \<Rightarrow> decode_pools dec ls)"


section \<open>The database\<close>

record launch_row =
  lr_id :: nat
  lr_chain :: nat
  lr_source :: string
  lr_locked :: bool
  lr_token :: address
  lr_quote :: "address option"
  lr_kind :: "pool_kind option"
  lr_pool_address :: "address option"
  lr_pool_id :: "string option"
  lr_fee :: "int option"
  lr_tick_spacing :: "int option"
  lr_hooks :: "address option"
  lr_fee_suspect :: bool
  lr_creator :: address
  lr_block :: int
  lr_tx :: string
  lr_at :: millis
  lr_qualified :: bool             \<comment> \<open>the lane is \<open>qualified\<close>, not \<open>index\<close>\<close>
  lr_over_quota :: bool
  lr_retrospective :: bool
  lr_age_sec :: "int option"

record feature_row =
  fe_devbuy :: "real option"
  fe_hooks :: hook_features
  fe_buyers :: t10_features
  fe_creator :: creator_context
  fe_cluster :: "(nat \<times> real) option"
  fe_cluster_pct :: "real option"
  fe_top10_pct :: "real option"
  fe_side_pools :: "nat option"
  fe_approvals :: "nat option"
  fe_feature9 :: "feature9 option"
  fe_t10_at :: "millis option"

text \<open>
  The tables the watcher writes; the T+10m queue; the launches whose report assembly was started
  (what that does is \<open>Reports\<close>); the process-wide cache of quote decimals.
\<close>

record watcher_db =
  wd_launches :: "launch_row list"
  wd_features :: "nat \<rightharpoonup> feature_row"
  wd_members :: "nat \<Rightarrow> cluster_member list"
  wd_queue :: "nat list"
  wd_reported :: "nat list"
  wd_decimals :: "address \<rightharpoonup> nat"

definition find_launch :: "nat \<Rightarrow> watcher_db \<Rightarrow> launch_row option" where
  "find_launch i db = List.find (\<lambda>l. lr_id l = i) (wd_launches db)"

definition update_launch :: "nat \<Rightarrow> (launch_row \<Rightarrow> launch_row) \<Rightarrow> watcher_db \<Rightarrow> watcher_db" where
  "update_launch i f db = db\<lparr>wd_launches := map (\<lambda>l. if lr_id l = i then f l else l) (wd_launches db)\<rparr>"


section \<open>The creator's quota\<close>

definition day_ms :: millis where "day_ms = 24 * 60 * 60 * 1000"

definition is_over_quota :: "nat \<Rightarrow> nat \<Rightarrow> bool" where
  "is_over_quota prior limit \<longleftrightarrow> prior \<ge> limit"

definition creator_quota_exceeded :: "launch_row list \<Rightarrow> nat \<Rightarrow> address \<Rightarrow> millis \<Rightarrow> nat \<Rightarrow> bool" where
  "creator_quota_exceeded launches chain creator at_time limit =
     is_over_quota (length (filter (\<lambda>l. lr_chain l = chain \<and> lr_creator l = creator \<and> at_time - day_ms \<le> lr_at l \<and> lr_at l \<le> at_time) launches)) limit"


section \<open>Ingestion\<close>

text \<open>What the three reads of the launch transaction give: sender, recipient, logs, block time.\<close>

record launch_tx =
  lx_from :: address
  lx_to :: "address option"
  lx_logs :: "rpc_log list"
  lx_seconds :: int

text \<open>
  \<open>ie_tx tx block a\<close> is the \<open>a\<close>-th try of the three reads; \<open>ie_receipt\<close> the receipt the
  index features read; \<open>ie_enqueue\<close> what adding the T+10m job settles to.
\<close>

record ingest_env =
  ie_config :: watch_config
  ie_chain :: nat
  ie_code :: "address \<Rightarrow> int \<Rightarrow> string + string option"
  ie_tx :: "string \<Rightarrow> int \<Rightarrow> nat \<Rightarrow> string + launch_tx"
  ie_receipt :: "string \<Rightarrow> string + rpc_log list"
  ie_supply :: "address \<Rightarrow> string + int"
  ie_transient :: "string \<Rightarrow> bool"
  ie_enqueue :: "nat \<Rightarrow> string + unit"
  ie_quota :: nat
  ie_confident_only :: bool
  ie_retrospective :: bool

definition liquidity_source :: "watch_config \<Rightarrow> pool_creation \<Rightarrow> address" where
  "liquidity_source cfg pc = (if pc_kind pc = V4 then cc_v4_pool_manager cfg else nullish (pc_pool_address pc) [])"

text \<open>The token side, with the freshness checks that were made on the way.\<close>

record side_choice =
  sd_class :: pair_class
  sd_fresh0 :: "freshness option"
  sd_fresh1 :: "freshness option"

definition choose_side :: "ingest_env \<Rightarrow> pool_creation \<Rightarrow> int \<Rightarrow> side_choice" where
  "choose_side e pc block =
     (let c = classify_pair (ie_config e) (pc_token0 pc) (pc_token1 pc) in
      if cp_confident c then \<lparr>sd_class = c, sd_fresh0 = None, sd_fresh1 = None\<rparr>
      else
        (let f0 = check_token_freshness (ie_code e (pc_token0 pc)) block fresh_launch_window;
             f1 = check_token_freshness (ie_code e (pc_token1 pc)) block fresh_launch_window;
             c' = (if fr_is_fresh f0 \<and> \<not> fr_is_fresh f1
                   then \<lparr>cp_token = pc_token0 pc, cp_quote = pc_token1 pc, cp_confident = True\<rparr>
                   else if fr_is_fresh f1 \<and> \<not> fr_is_fresh f0
                   then \<lparr>cp_token = pc_token1 pc, cp_quote = pc_token0 pc, cp_confident = True\<rparr> else c)
         in \<lparr>sd_class = c', sd_fresh0 = Some f0, sd_fresh1 = Some f1\<rparr>))"

definition side_freshness :: "ingest_env \<Rightarrow> pool_creation \<Rightarrow> int \<Rightarrow> side_choice \<Rightarrow> freshness" where
  "side_freshness e pc block s =
     (let token = cp_token (sd_class s) in
      case (if token = pc_token0 pc then sd_fresh0 s else None) of
        Some f \<Rightarrow> f
      | None \<Rightarrow>
          (case (if token = pc_token1 pc then sd_fresh1 s else None) of
             Some f \<Rightarrow> f
           | None \<Rightarrow> check_token_freshness (ie_code e token) block fresh_launch_window))"

text \<open>\<open>lc\<close>: a missing or empty text is left out.\<close>

definition lower_opt :: "string option \<Rightarrow> string option" where
  "lower_opt s = (case s of None \<Rightarrow> None | Some t \<Rightarrow> if t = [] then None else Some (lower t))"

definition new_launch :: "ingest_env \<Rightarrow> launch_row list \<Rightarrow> pair_class \<Rightarrow> detected_pool \<Rightarrow> launch_tx \<Rightarrow> launch_row" where
  "new_launch e launches c dp x =
     (let pc = dp_creation dp; creator = lower (lx_from x); at_time = lx_seconds x * 1000;
          a = attribute_source (cc_launchpads (ie_config e)) (uniq (nullish (lx_to x) [] # map l_address (lx_logs x)))
      in \<lparr>lr_id = length launches, lr_chain = ie_chain e, lr_source = at_source a, lr_locked = at_lp_locked a,
          lr_token = lower (cp_token c), lr_quote = lower_opt (Some (cp_quote c)), lr_kind = Some (pc_kind pc),
          lr_pool_address = lower_opt (pc_pool_address pc), lr_pool_id = lower_opt (pc_pool_id pc), lr_fee = pc_fee pc,
          lr_tick_spacing = pc_tick_spacing pc, lr_hooks = lower_opt (pc_hooks pc), lr_fee_suspect = is_fee_suspect (pc_fee pc),
          lr_creator = creator, lr_block = dp_block dp, lr_tx = lower (dp_tx dp), lr_at = at_time, lr_qualified = False,
          lr_over_quota = creator_quota_exceeded launches (ie_chain e) creator at_time (ie_quota e),
          lr_retrospective = ie_retrospective e, lr_age_sec = None\<rparr>)"

definition new_feature :: "real option \<Rightarrow> hook_features \<Rightarrow> feature_row" where
  "new_feature devbuy hooks =
     \<lparr>fe_devbuy = devbuy, fe_hooks = hooks, fe_buyers = \<lparr>tf_unique = None, tf_per_buyer = None\<rparr>,
      fe_creator = \<lparr>cn_age_days = None, cn_prior_launches = 0, cn_exit_rate = None\<rparr>, fe_cluster = None, fe_cluster_pct = None,
      fe_top10_pct = None, fe_side_pools = None, fe_approvals = None, fe_feature9 = None, fe_t10_at = None\<rparr>"

text \<open>The answer is the new launch, nothing when the pool is not indexed, or the error; rows written before an error stay.\<close>

definition ingest_pool :: "ingest_env \<Rightarrow> detected_pool \<Rightarrow> watcher_db \<Rightarrow> (string + nat option) \<times> watcher_db" where
  "ingest_pool e dp db =
     (let pc = dp_creation dp; block = dp_block dp; s = choose_side e pc block; c = sd_class s in
      if ie_confident_only e \<and> \<not> cp_confident c then (Inr None, db)
      else if list_ex (\<lambda>l. lr_chain l = ie_chain e \<and> lr_token l = lower (cp_token c)) (wd_launches db) then (Inr None, db)
      else if \<not> fr_is_fresh (side_freshness e pc block s) then (Inr None, db)
      else case with_retry (ie_transient e) 4 (ie_tx e (dp_tx dp) block) of
        Inl err \<Rightarrow> (Inl err, db)
      | Inr x \<Rightarrow>
          (let idx = compute_index_features (ie_receipt e (dp_tx dp)) (ie_supply e (cp_token c)) (cp_token c) (liquidity_source (ie_config e) pc);
               row = new_launch e (wd_launches db) c dp x;
               db1 = db\<lparr>wd_launches := wd_launches db @ [row],
                        wd_features := (wd_features db)(lr_id row \<mapsto> new_feature (ix_devbuy_pct idx) (compute_hook_features (pc_hooks pc)))\<rparr>
           in case ie_enqueue e (lr_id row) of
                Inl err \<Rightarrow> (Inl err, db1)
              | Inr _ \<Rightarrow> (Inr (Some (lr_id row)), db1\<lparr>wd_queue := wd_queue db1 @ [lr_id row]\<rparr>)))"


section \<open>The poller\<close>

text \<open>
  The ghost lists \<open>pa_done\<close> and \<open>pa_abandoned\<close> record which pools were ingested without an
  error and which were given up.
\<close>

record 'db poll_acc =
  pa_db :: 'db
  pa_indexed :: nat
  pa_failed :: nat
  pa_held :: "int option"
  pa_done :: "detected_pool list"
  pa_abandoned :: "detected_pool list"

type_synonym 'db ingester = "detected_pool \<Rightarrow> 'db \<Rightarrow> (string + nat option) \<times> 'db"

definition abandons :: "int option \<Rightarrow> detected_pool \<Rightarrow> bool" where
  "abandons through dp = (case through of None \<Rightarrow> False | Some b \<Rightarrow> dp_block dp \<le> b)"

definition ingest_one :: "'db ingester \<Rightarrow> int option \<Rightarrow> detected_pool \<Rightarrow> 'db poll_acc \<Rightarrow> 'db poll_acc" where
  "ingest_one ingest through dp acc =
     (case ingest dp (pa_db acc) of
        (Inr r, db) \<Rightarrow> acc\<lparr>pa_db := db, pa_indexed := pa_indexed acc + (if r \<noteq> None then 1 else 0), pa_done := pa_done acc @ [dp]\<rparr>
      | (Inl err, db) \<Rightarrow>
          if abandons through dp
          then acc\<lparr>pa_db := db, pa_failed := pa_failed acc + 1, pa_abandoned := pa_abandoned acc @ [dp]\<rparr>
          else acc\<lparr>pa_db := db, pa_failed := pa_failed acc + 1,
                   pa_held := (case pa_held acc of None \<Rightarrow> Some (dp_block dp)
                     | Some h \<Rightarrow> if dp_block dp < h then Some (dp_block dp) else Some h)\<rparr>)"

record poll_result =
  pr_from :: int
  pr_to :: int
  pr_seen :: nat
  pr_indexed :: nat
  pr_failed :: nat
  pr_advanced :: bool

record 'db poller =
  po_cursor :: "int option"
  po_db :: 'db
  po_stuck :: nat
  po_done :: "detected_pool list"
  po_abandoned :: "detected_pool list"

record poll_options =
  op_head_lag :: int
  op_start_at_head :: bool
  op_max_span :: "int option"
  op_abandon :: "int option"

definition safe_head_of :: "int \<Rightarrow> int \<Rightarrow> int" where
  "safe_head_of head lag = (if head > lag then head - lag else 0)"

text \<open>The last block of the window; \<open>0n\<close> is falsy.\<close>

definition window_end :: "int option \<Rightarrow> int \<Rightarrow> int \<Rightarrow> int" where
  "window_end max_span f safe_head =
     (case max_span of Some m \<Rightarrow> if m \<noteq> 0 \<and> f + m - 1 < safe_head then f + m - 1 else safe_head | None \<Rightarrow> safe_head)"

definition poll_once ::
    "poll_options \<Rightarrow> string + int \<Rightarrow> (int \<Rightarrow> int \<Rightarrow> string + detected_pool list) \<Rightarrow> 'db ingester \<Rightarrow> 'db poller \<Rightarrow>
     (string + poll_result) \<times> 'db poller" where
  "poll_once op head detect ingest st =
     (case head of
        Inl e \<Rightarrow> (Inl e, st)
      | Inr h \<Rightarrow>
          (let safe_head = safe_head_of h (op_head_lag op);
               cursor = (case po_cursor st of Some c \<Rightarrow> c | None \<Rightarrow> if op_start_at_head op then safe_head else 0);
               st1 = st\<lparr>po_cursor := Some cursor\<rparr>
           in if cursor \<ge> safe_head
              then (Inr \<lparr>pr_from = cursor, pr_to = cursor, pr_seen = 0, pr_indexed = 0, pr_failed = 0, pr_advanced = False\<rparr>, st1)
              else
                (let f = cursor + 1; t = window_end (op_max_span op) f safe_head in
                 case detect f t of
                   Inl e \<Rightarrow> (Inl e, st1)
                 | Inr detected \<Rightarrow>
                     (let acc = fold (ingest_one ingest (op_abandon op)) detected
                            \<lparr>pa_db = po_db st, pa_indexed = 0, pa_failed = 0, pa_held = None, pa_done = [], pa_abandoned = []\<rparr>;
                          next = (case pa_held acc of Some b \<Rightarrow> b - 1 | None \<Rightarrow> t)
                      in (Inr \<lparr>pr_from = f, pr_to = next, pr_seen = length detected, pr_indexed = pa_indexed acc,
                               pr_failed = pa_failed acc, pr_advanced = (next > cursor)\<rparr>,
                          st1\<lparr>po_cursor := Some next, po_db := pa_db acc, po_done := po_done st @ pa_done acc,
                              po_abandoned := po_abandoned st @ pa_abandoned acc\<rparr>)))))"

definition stuck_polls_before_skip :: nat where "stuck_polls_before_skip = 6"

text \<open>One turn of \<open>runPoller\<close>: what the node answers and how ingestion behaves may change with every turn.\<close>

record 'db poll_input =
  pi_head :: "string + int"
  pi_detect :: "int \<Rightarrow> int \<Rightarrow> string + detected_pool list"
  pi_ingest :: "'db ingester"

definition poller_tick :: "int \<Rightarrow> int \<Rightarrow> 'db poll_input \<Rightarrow> 'db poller \<Rightarrow> 'db poller" where
  "poller_tick lag max_span i st =
     (let through = (if po_stuck st \<ge> stuck_polls_before_skip then map_option (\<lambda>c. c + max_span) (po_cursor st) else None);
          op = \<lparr>op_head_lag = lag, op_start_at_head = True, op_max_span = Some max_span, op_abandon = through\<rparr>
      in case poll_once op (pi_head i) (pi_detect i) (pi_ingest i) st of
           (Inl e, st1) \<Rightarrow> st1
         | (Inr r, st1) \<Rightarrow>
             if pr_advanced r then st1\<lparr>po_stuck := 0\<rparr>
             else if pr_failed r > 0 then st1\<lparr>po_stuck := po_stuck st1 + 1\<rparr> else st1)"


section \<open>The T+10m pass\<close>

record t10_env =
  te_config :: watch_config
  te_client :: log_client
  te_pool_abi :: pool_abi
  te_max_range :: int
  te_head :: "string + int"
  te_supply_at :: "address \<Rightarrow> int \<Rightarrow> string + int"
  te_nonce :: "address \<Rightarrow> int \<Rightarrow> string + nat"
  te_code :: "address \<Rightarrow> int \<Rightarrow> string + string option"
  te_decimals :: "address \<Rightarrow> string + nat"
  te_quoter :: "int \<Rightarrow> pool_key \<Rightarrow> bool \<Rightarrow> int \<Rightarrow> string + int"
  te_goplus :: "address \<Rightarrow> goplus_mapped"
  te_scanhood :: "address \<Rightarrow> scanhood_mapped"
  te_exits :: "nat \<Rightarrow> bool option list"       \<comment> \<open>the resolved \<open>INSIDER_EXIT\<close> values of a launch\<close>
  te_qualify :: int
  te_now :: millis

text \<open>A failed read is cached as 18 decimals.\<close>

definition read_quote_decimals ::
    "(address \<Rightarrow> string + nat) \<Rightarrow> address option \<Rightarrow> (address \<rightharpoonup> nat) \<Rightarrow> nat \<times> (address \<rightharpoonup> nat)" where
  "read_quote_decimals decimals quote cache =
     (case quote of
        None \<Rightarrow> (18, cache)
      | Some q \<Rightarrow>
          if q = [] \<or> lower q = zero_address then (18, cache)
          else (case cache (lower q) of
            Some d \<Rightarrow> (d, cache)
          | None \<Rightarrow> (case decimals q of
              Inr d \<Rightarrow> (d, cache(lower q \<mapsto> d))
            | Inl e \<Rightarrow> (18, cache(lower q \<mapsto> 18)))))"

definition blocks_in :: "watch_config \<Rightarrow> real \<Rightarrow> int" where
  "blocks_in cfg seconds = js_round (seconds / wc_block_seconds cfg)"

text \<open>The launch as the pass goes on with it (first), and the row the database then has (second).\<close>

definition switch_pool :: "pool_candidate \<Rightarrow> launch_row \<Rightarrow> launch_row" where
  "switch_pool c l = l\<lparr>lr_kind := Some V4, lr_pool_id := Some (pd_id c), lr_pool_address := None, lr_fee := pd_fee c,
     lr_tick_spacing := pd_tick_spacing c, lr_hooks := pd_hooks c,
     lr_quote := (case pd_quote c of Some q \<Rightarrow> Some q | None \<Rightarrow> lr_quote l), lr_fee_suspect := pd_suspect c\<rparr>"

definition store_pool :: "launch_row \<Rightarrow> launch_row \<Rightarrow> launch_row" where
  "store_pool m l = l\<lparr>lr_pool_id := lr_pool_id m, lr_pool_address := lr_pool_address m,
     lr_fee := (case lr_fee m of Some f \<Rightarrow> Some f | None \<Rightarrow> lr_fee l),
     lr_tick_spacing := (case lr_tick_spacing m of Some f \<Rightarrow> Some f | None \<Rightarrow> lr_tick_spacing l),
     lr_hooks := lr_hooks m, lr_quote := (case lr_quote m of Some q \<Rightarrow> Some q | None \<Rightarrow> lr_quote l),
     lr_fee_suspect := lr_fee_suspect m\<rparr>"

definition recheck_pool :: "t10_env \<Rightarrow> int option \<Rightarrow> int \<Rightarrow> launch_row \<Rightarrow> launch_row \<times> launch_row" where
  "recheck_pool e head t l =
     (if lr_kind l = Some V4 \<or> lr_kind l = None then
        (case pick_primary_v4_pool (te_client e) (te_pool_abi e) (te_config e) (te_head e) (te_max_range e)
            \<lparr>pk_token = lr_token l, pk_current = lr_pool_id l, pk_scan_from = lr_block l,
             pk_scan_to = lr_block l + blocks_in (te_config e) (2 * 3600), pk_activity_from = lr_block l, pk_activity_to = t,
             pk_head = head\<rparr> of
           Inl err \<Rightarrow> (l, l)
         | Inr pick \<Rightarrow>
             (let m = (case pp_chosen pick of
                  None \<Rightarrow> l
                | Some c \<Rightarrow> if pp_changed pick then switch_pool c l else l\<lparr>lr_fee_suspect := pd_suspect c\<rparr>)
              in (m, store_pool m l)))
      else (l, l))"

definition t10_source :: "watch_config \<Rightarrow> launch_row \<Rightarrow> address option" where
  "t10_source cfg l = clear_empty (if lr_kind l = Some V4 then Some (cc_v4_pool_manager cfg) else lr_pool_address l)"

text \<open>What the pass computes for the launch \<open>m\<close> it goes on with.\<close>

record t10_values =
  tv_buyers :: t10_features
  tv_cluster :: "string + cluster_result"
  tv_creator :: creator_context
  tv_age :: "int option"
  tv_holders :: holder_stats
  tv_side_pools :: "nat option"
  tv_approvals :: "nat option"
  tv_qualified :: bool

definition t10_compute :: "t10_env \<Rightarrow> watcher_db \<Rightarrow> launch_row \<Rightarrow> address \<Rightarrow> int \<Rightarrow> t10_values" where
  "t10_compute e db m src t =
     (let cfg = te_config e; c = te_client e; r = te_max_range e; token = lr_token m; f = lr_block m;
          buyers = compute_t10_features c token src f t r;
          cluster = build_creator_cluster c unavailable_first_inbound token (lr_creator m) src f (blocks_in cfg 600) r;
          addrs = (case cluster of Inl _ \<Rightarrow> {} | Inr k \<Rightarrow> cluster_addresses k);
          owners = (case cluster of Inl _ \<Rightarrow> [] | Inr k \<Rightarrow> lr_creator m # uniq (map cl_address (cu_members k)));
          launches = map (\<lambda>l. \<lparr>pr_id = lr_id l, pr_chain = lr_chain l, pr_creator = lr_creator l, pr_block = lr_block l\<rparr>) (wd_launches db)
      in \<lparr>tv_buyers = buyers, tv_cluster = cluster,
          tv_creator = compute_creator_context (te_nonce e (lr_creator m)) launches (te_exits e) (lr_chain m) (lr_creator m) f
            (Some (lr_id m)) (wc_block_seconds cfg) (case wd_features db (lr_id m) of None \<Rightarrow> None | Some fe \<Rightarrow> cn_age_days (fe_creator fe)),
          tv_age = (if lr_age_sec m = None
                    then ta_age_sec (compute_token_age_at_pool (te_code e token) f (wc_block_seconds cfg) fresh_launch_window 12)
                    else lr_age_sec m),
          tv_holders = compute_holder_stats c (te_supply_at e token) token f t r (lr_creator m) addrs src,
          tv_side_pools = (if lr_kind m = Some V4 then compute_side_pool_count c (te_pool_abi e) cfg token (lr_pool_id m) f t r else None),
          tv_approvals = compute_creator_drainer_approvals c cfg token owners f t r,
          tv_qualified = (\<not> lr_locked m \<and> nullish (tf_unique buyers) 0 \<ge> te_qualify e)\<rparr>)"

definition t10_feature9 :: "t10_env \<Rightarrow> (address \<rightharpoonup> nat) \<Rightarrow> launch_row \<Rightarrow> int \<Rightarrow> feature9 \<times> (address \<rightharpoonup> nat)" where
  "t10_feature9 e cache m t =
     (case read_quote_decimals (te_decimals e) (lr_quote m) cache of
        (d, cache') \<Rightarrow>
          (compute_feature9 (te_quoter e t) (te_goplus e (lr_token m)) (te_scanhood e (lr_token m))
             \<lparr>fa_token = lr_token m, fa_quote = lr_quote m, fa_fee = lr_fee m, fa_tick_spacing = lr_tick_spacing m,
              fa_hooks = lr_hooks m, fa_decimals = d\<rparr>, cache'))"

definition t10_feature_update :: "t10_values \<Rightarrow> cluster_result \<Rightarrow> feature9 option \<Rightarrow> millis \<Rightarrow> feature_row \<Rightarrow> feature_row" where
  "t10_feature_update v k f9 now fe =
     fe\<lparr>fe_buyers := tv_buyers v, fe_creator := tv_creator v, fe_cluster := Some (cu_size k, cu_confidence k),
        fe_cluster_pct := hs_cluster_pct (tv_holders v), fe_top10_pct := hs_top10_pct (tv_holders v),
        fe_side_pools := tv_side_pools v, fe_approvals := tv_approvals v,
        fe_feature9 := (case f9 of None \<Rightarrow> fe_feature9 fe | Some x \<Rightarrow> Some x),
        fe_t10_at := (if cu_partial k = [] then Some now else None)\<rparr>"

text \<open>The error, if one ends the pass, and the database it leaves.\<close>

definition run_t10_for_launch :: "t10_env \<Rightarrow> nat \<Rightarrow> watcher_db \<Rightarrow> string option \<times> watcher_db" where
  "run_t10_for_launch e i db =
     (case find_launch i db of
        None \<Rightarrow> (None, db)
      | Some l \<Rightarrow>
          (let head = (case te_head e of Inl _ \<Rightarrow> None | Inr h \<Rightarrow> Some h);
               t = clamp_to head (lr_block l + blocks_in (te_config e) 600);
               (m, row) = recheck_pool e head t l;
               db1 = update_launch i (\<lambda>_. row) db
           in case t10_source (te_config e) m of
                None \<Rightarrow> (None, db1)
              | Some src \<Rightarrow>
                  (let v = t10_compute e db1 m (lower src) t in
                   case tv_cluster v of
                     Inl err \<Rightarrow> (Some err, db1)
                   | Inr k \<Rightarrow>
                       (let (f9, cache) = (if tv_qualified v then map_prod Some id (t10_feature9 e (wd_decimals db1) m t) else (None, wd_decimals db1));
                            db2 = (update_launch i (\<lambda>l. l\<lparr>lr_age_sec := tv_age v\<rparr>) db1)\<lparr>wd_decimals := cache\<rparr>
                        in case wd_features db2 i of
                             None \<Rightarrow> (Some ''Record to update not found'', db2)
                           | Some fe \<Rightarrow>
                               (None, (update_launch i (\<lambda>l. l\<lparr>lr_qualified := (lr_qualified l \<or> tv_qualified v)\<rparr>) db2)
                                  \<lparr>wd_members := (wd_members db2)(i := cu_members k),
                                   wd_features := (wd_features db2)(i \<mapsto> t10_feature_update v k f9 (te_now e) fe),
                                   wd_reported := wd_reported db2 @ (if cu_partial k = [] then [i] else [])\<rparr>)))))"

section \<open>The database invariant\<close>

text \<open>
  One launch per chain and token, ids by position, a feature row for every launch and for
  nothing else, and only existing launches in the queue.
\<close>

definition watcher_inv :: "watcher_db \<Rightarrow> bool" where
  "watcher_inv db \<longleftrightarrow> distinct (map (\<lambda>l. (lr_chain l, lr_token l)) (wd_launches db)) \<and>
     map lr_id (wd_launches db) = [0..<length (wd_launches db)] \<and>
     dom (wd_features db) = {..<length (wd_launches db)} \<and> set (wd_queue db) \<subseteq> {..<length (wd_launches db)}"

text \<open>The contract of an ingester: whatever it answers, the database stays well formed and only grows.\<close>

locale db_ingester =
  fixes ingest :: "detected_pool \<Rightarrow> 'db \<Rightarrow> (string + nat option) \<times> 'db" and inv :: "'db \<Rightarrow> bool" and grows :: "'db \<Rightarrow> 'db \<Rightarrow> bool"
  assumes keeps: "inv db \<Longrightarrow> inv (snd (ingest dp db)) \<and> grows db (snd (ingest dp db))"
    and grows_refl: "grows db db" and grows_trans: "grows a b \<Longrightarrow> grows b c \<Longrightarrow> grows a c"
begin

lemma ingest_one_keeps:
  "inv (pa_db acc) \<Longrightarrow> inv (pa_db (ingest_one ingest through dp acc)) \<and> grows (pa_db acc) (pa_db (ingest_one ingest through dp acc))"
  using keeps [of "pa_db acc" dp] by (auto simp: ingest_one_def split: prod.splits sum.splits)

lemma fold_ingest_keeps:
  "inv (pa_db acc) \<Longrightarrow> inv (pa_db (fold (ingest_one ingest through) ds acc)) \<and> grows (pa_db acc) (pa_db (fold (ingest_one ingest through) ds acc))"
proof (induction ds arbitrary: acc)
  case (Cons d ds)
  then show ?case using ingest_one_keeps [of acc through d] grows_trans by (simp, blast)
qed (simp add: grows_refl)

lemma poll_once_keeps:
  assumes "inv (po_db st)"
  shows "inv (po_db (snd (poll_once op head detect ingest st))) \<and> grows (po_db st) (po_db (snd (poll_once op head detect ingest st)))"
  using fold_ingest_keeps [of "\<lparr>pa_db = po_db st, pa_indexed = 0, pa_failed = 0, pa_held = None, pa_done = [], pa_abandoned = []\<rparr>"] assms
  by (auto simp: poll_once_def Let_def grows_refl split: sum.splits)

lemma poller_tick_keeps:
  assumes "inv (po_db st)"
  shows "inv (po_db (poller_tick lag max_span \<lparr>pi_head = h, pi_detect = d, pi_ingest = ingest\<rparr> st)) \<and>
    grows (po_db st) (po_db (poller_tick lag max_span \<lparr>pi_head = h, pi_detect = d, pi_ingest = ingest\<rparr> st))"
proof -
  define op where "op = \<lparr>op_head_lag = lag, op_start_at_head = True, op_max_span = Some max_span,
    op_abandon = (if po_stuck st \<ge> stuck_polls_before_skip then map_option (\<lambda>c. c + max_span) (po_cursor st) else None)\<rparr>"
  have tick: "po_db (poller_tick lag max_span \<lparr>pi_head = h, pi_detect = d, pi_ingest = ingest\<rparr> st) = po_db (snd (poll_once op h d ingest st))"
    by (simp add: poller_tick_def op_def split: prod.split sum.split)
  show ?thesis unfolding tick by (rule poll_once_keeps [OF assms])
qed

end

definition tokens_kept :: "watcher_db \<Rightarrow> watcher_db \<Rightarrow> bool" where
  "tokens_kept a b \<longleftrightarrow> prefix (map (\<lambda>l. (lr_id l, lr_chain l, lr_token l)) (wd_launches a)) (map (\<lambda>l. (lr_id l, lr_chain l, lr_token l)) (wd_launches b))"

lemma ingest_pool_cases:
  obtains (same) "snd (ingest_pool e dp db) = db" "isl (fst (ingest_pool e dp db)) \<or> fst (ingest_pool e dp db) = Inr None"
  | (new) row fe q where "lr_id row = length (wd_launches db)" "lr_chain row = ie_chain e"
      "lr_token row = lower (cp_token (sd_class (choose_side e (dp_creation dp) (dp_block dp))))"
      "\<not> list_ex (\<lambda>l. lr_chain l = ie_chain e \<and> lr_token l = lr_token row) (wd_launches db)"
      "snd (ingest_pool e dp db) = db\<lparr>wd_launches := wd_launches db @ [row], wd_features := (wd_features db)(lr_id row \<mapsto> fe), wd_queue := wd_queue db @ q\<rparr>"
      "q = [] \<and> isl (fst (ingest_pool e dp db)) \<or> q = [lr_id row] \<and> fst (ingest_pool e dp db) = Inr (Some (lr_id row))"
proof -
  let ?pc = "dp_creation dp"
  let ?s = "choose_side e ?pc (dp_block dp)"
  let ?c = "sd_class ?s"
  show ?thesis
  proof (cases "ie_confident_only e \<and> \<not> cp_confident ?c \<or> list_ex (\<lambda>l. lr_chain l = ie_chain e \<and> lr_token l = lower (cp_token ?c)) (wd_launches db) \<or>
      \<not> fr_is_fresh (side_freshness e ?pc (dp_block dp) ?s)")
    case True
    then have "ingest_pool e dp db = (Inr None, db)" unfolding ingest_pool_def Let_def by (elim disjE) (simp_all del: de_Morgan_conj)
    then show ?thesis by (intro same) simp_all
  next
    case False
    show ?thesis
    proof (cases "with_retry (ie_transient e) 4 (ie_tx e (dp_tx dp) (dp_block dp))")
      case (Inl err)
      then have "ingest_pool e dp db = (Inl err, db)" using False by (simp add: ingest_pool_def Let_def)
      then show ?thesis by (intro same) simp_all
    next
      case (Inr x)
      let ?row = "new_launch e (wd_launches db) ?c dp x"
      let ?fe = "new_feature (ix_devbuy_pct (compute_index_features (ie_receipt e (dp_tx dp)) (ie_supply e (cp_token ?c)) (cp_token ?c)
          (liquidity_source (ie_config e) ?pc))) (compute_hook_features (pc_hooks ?pc))"
      have row: "lr_id ?row = length (wd_launches db)" "lr_chain ?row = ie_chain e" "lr_token ?row = lower (cp_token ?c)"
        by (simp_all add: new_launch_def Let_def)
      show ?thesis
        by (rule new [where row = ?row and fe = ?fe and q = "case ie_enqueue e (length (wd_launches db)) of Inl _ \<Rightarrow> [] | Inr _ \<Rightarrow> [length (wd_launches db)]"])
          (use False Inr row in \<open>auto simp: ingest_pool_def Let_def split: sum.splits\<close>)
    qed
  qed
qed

lemma ingest_pool_inv: "watcher_inv db \<Longrightarrow> watcher_inv (snd (ingest_pool e dp db))"
proof (cases rule: ingest_pool_cases [of e dp db])
  case (new row fe q)
  assume inv: "watcher_inv db"
  have "(lr_chain row, lr_token row) \<notin> (\<lambda>l. (lr_chain l, lr_token l)) ` set (wd_launches db)"
    using new(2,4) by (auto simp: list_ex_iff)
  then show ?thesis using inv new(1,5,6) by (auto simp: watcher_inv_def lessThan_Suc)
qed simp

lemma ingest_pool_grows: "tokens_kept db (snd (ingest_pool e dp db))"
  by (cases rule: ingest_pool_cases [of e dp db]) (simp_all add: tokens_kept_def)

lemma tokens_kept_order: "tokens_kept a a" "tokens_kept a b \<Longrightarrow> tokens_kept b c \<Longrightarrow> tokens_kept a c"
  unfolding tokens_kept_def by (simp_all add: prefix_order.trans [of "map _ (wd_launches a)"])

interpretation wi: db_ingester "ingest_pool e" watcher_inv tokens_kept for e
  by unfold_locales (blast intro: ingest_pool_inv ingest_pool_grows tokens_kept_order)+

lemma recheck_pool_keeps: "recheck_pool e head t l = (m, row) \<Longrightarrow> (lr_id row, lr_chain row, lr_token row) = (lr_id l, lr_chain l, lr_token l)"
  by (auto simp: recheck_pool_def store_pool_def Let_def split: if_splits sum.splits)

lemma find_launch_mem: "find_launch i db = Some l \<Longrightarrow> l \<in> set (wd_launches db) \<and> lr_id l = i"
  by (auto simp: find_launch_def find_Some_iff)

definition launch_keys :: "watcher_db \<Rightarrow> (nat \<times> nat \<times> address) list" where
  "launch_keys db = map (\<lambda>l. (lr_id l, lr_chain l, lr_token l)) (wd_launches db)"

lemma update_launch_keys:
  "(\<And>l. l \<in> set (wd_launches db) \<Longrightarrow> lr_id l = i \<Longrightarrow> (lr_id (f l), lr_chain (f l), lr_token (f l)) = (lr_id l, lr_chain l, lr_token l)) \<Longrightarrow>
   launch_keys (update_launch i f db) = launch_keys db"
  by (auto simp: launch_keys_def update_launch_def)

lemma watcher_inv_keys:
  "launch_keys b = launch_keys a \<Longrightarrow> dom (wd_features b) = dom (wd_features a) \<Longrightarrow> wd_queue b = wd_queue a \<Longrightarrow> watcher_inv a \<Longrightarrow> watcher_inv b"
proof -
  assume keys: "launch_keys b = launch_keys a" and "dom (wd_features b) = dom (wd_features a)" "wd_queue b = wd_queue a" and inv: "watcher_inv a"
  moreover have "length (wd_launches b) = length (wd_launches a)" using arg_cong [OF keys, of length] by (simp add: launch_keys_def)
  moreover have "map lr_id (wd_launches b) = map lr_id (wd_launches a)"
    using arg_cong [OF keys, of "map fst"] by (simp add: launch_keys_def comp_def)
  moreover have "map (\<lambda>l. (lr_chain l, lr_token l)) (wd_launches b) = map (\<lambda>l. (lr_chain l, lr_token l)) (wd_launches a)"
    using arg_cong [OF keys, of "map snd"] by (simp add: launch_keys_def comp_def)
  ultimately show ?thesis by (simp add: watcher_inv_def)
qed

lemma inj_on_lr_id: "map lr_id ls = [0..<n] \<Longrightarrow> inj_on lr_id (set ls)"
  using distinct_map [of lr_id ls] by (metis distinct_upt)

lemma ids_unique: "watcher_inv db \<Longrightarrow> l \<in> set (wd_launches db) \<Longrightarrow> l' \<in> set (wd_launches db) \<Longrightarrow> lr_id l = lr_id l' \<Longrightarrow> l = l'"
  by (rule inj_onD [of lr_id "set (wd_launches db)"]) (simp_all add: watcher_inv_def inj_on_lr_id)

text \<open>The T+10m pass writes no key of a launch, no new feature row and no queue entry.\<close>

lemma run_t10_keeps:
  assumes "watcher_inv db"
  shows "launch_keys (snd (run_t10_for_launch e i db)) = launch_keys db \<and>
    dom (wd_features (snd (run_t10_for_launch e i db))) = dom (wd_features db) \<and>
    wd_queue (snd (run_t10_for_launch e i db)) = wd_queue db"
proof (cases "find_launch i db")
  case None
  then show ?thesis by (simp add: run_t10_for_launch_def)
next
  case (Some l)
  define head where "head = (case te_head e of Inl _ \<Rightarrow> None | Inr h \<Rightarrow> Some h)"
  define t where "t = clamp_to head (lr_block l + blocks_in (te_config e) 600)"
  obtain m row where mr: "recheck_pool e head t l = (m, row)" by fastforce
  let ?db1 = "update_launch i (\<lambda>_. row) db"
  have k1: "launch_keys ?db1 = launch_keys db"
    by (rule update_launch_keys)
      (use recheck_pool_keeps [OF mr] find_launch_mem [OF Some] ids_unique [OF assms] in blast)
  have k2: "launch_keys (update_launch i (\<lambda>l. l\<lparr>lr_age_sec := a\<rparr>) x) = launch_keys x"
    "launch_keys (update_launch i (\<lambda>l. l\<lparr>lr_qualified := q l\<rparr>) x) = launch_keys x" for a q x
    by (simp_all add: update_launch_keys)
  have k3: "launch_keys (update_launch i (\<lambda>l. l) x) = launch_keys x" for x by (simp add: update_launch_def)
  have other: "wd_features (update_launch j f x) = wd_features x" "wd_queue (update_launch j f x) = wd_queue x" for j f x
    by (simp_all add: update_launch_def)
  have ext: "launch_keys (x\<lparr>wd_decimals := c\<rparr>) = launch_keys x"
    "launch_keys (x\<lparr>wd_members := ms, wd_features := fs, wd_reported := rs\<rparr>) = launch_keys x" for x c ms fs rs
    by (simp_all add: launch_keys_def)
  show ?thesis
    unfolding run_t10_for_launch_def Some option.case Let_def head_def [symmetric] t_def [symmetric] mr prod.case
    by (auto simp: k1 k2 k3 ext other split: option.split sum.split prod.split if_splits)
qed

lemma run_t10_inv: "watcher_inv db \<Longrightarrow> watcher_inv (snd (run_t10_for_launch e i db))"
  using run_t10_keeps [of db e i] watcher_inv_keys [of "snd (run_t10_for_launch e i db)" db] by blast

end
