(* ===== verification/WatcherFacts.thy ===== *)
theory WatcherFacts
  imports Watcher
begin

text \<open>
  The properties of the watcher: no pool is lost and no launch is made twice over any run of
  polls and T+10m passes, a stalled poller goes on, what a failed detection, a failed enqueue
  and a switched pool leave behind.
\<close>


section \<open>Runs of the poller\<close>

text \<open>The chain's pool events are settled below the safe head: every answer is the pools of the window.\<close>

definition settled_detect :: "detected_pool list \<Rightarrow> (int \<Rightarrow> int \<Rightarrow> string + detected_pool list) \<Rightarrow> bool" where
  "settled_detect pools detect \<longleftrightarrow> (\<forall>f t ds. detect f t = Inr ds \<longrightarrow> ds = filter (\<lambda>dp. f \<le> dp_block dp \<and> dp_block dp \<le> t) pools)"

inductive watcher_reach :: "detected_pool list \<Rightarrow> int \<Rightarrow> int \<Rightarrow> watcher_db poller \<Rightarrow> watcher_db poller \<Rightarrow> bool"
  for pools :: "detected_pool list" and lag :: int and max_span :: int and st0 :: "watcher_db poller" where
  reach_start: "watcher_reach pools lag max_span st0 st0"
| reach_poll: "watcher_reach pools lag max_span st0 st \<Longrightarrow> settled_detect pools d \<Longrightarrow>
    watcher_reach pools lag max_span st0 (poller_tick lag max_span \<lparr>pi_head = h, pi_detect = d, pi_ingest = ingest_pool e\<rparr> st)"
| reach_t10: "watcher_reach pools lag max_span st0 st \<Longrightarrow>
    watcher_reach pools lag max_span st0 (st\<lparr>po_db := snd (run_t10_for_launch te i (po_db st))\<rparr>)"

definition handled :: "'db poll_acc \<Rightarrow> detected_pool set" where
  "handled acc = set (pa_done acc) \<union> set (pa_abandoned acc)"

text \<open>After a batch a pool was handled, or the cursor is held before it.\<close>

definition accounts :: "int option \<Rightarrow> detected_pool set \<Rightarrow> 'db poll_acc \<Rightarrow> 'db poll_acc \<Rightarrow> bool" where
  "accounts through D a b \<longleftrightarrow>
     handled a \<subseteq> handled b \<and> pa_failed a \<le> pa_failed b \<and>
     (\<forall>d\<in>D. d \<notin> handled b \<longrightarrow> (\<exists>h. pa_held b = Some h \<and> h \<le> dp_block d)) \<and>
     (\<forall>h. pa_held a = Some h \<longrightarrow> (\<exists>h'. pa_held b = Some h' \<and> h' \<le> h)) \<and>
     (\<forall>h. pa_held b = Some h \<longrightarrow> pa_held a = Some h \<or> pa_failed b > 0 \<and> (\<exists>d\<in>D. h = dp_block d \<and> \<not> abandons through d))"

lemma accountsD:
  assumes "accounts through D a b"
  shows accounts_handled: "d \<in> handled a \<Longrightarrow> d \<in> handled b"
    and accounts_failed: "pa_failed a \<le> pa_failed b"
    and accounts_all: "d \<in> D \<Longrightarrow> d \<notin> handled b \<Longrightarrow> \<exists>h. pa_held b = Some h \<and> h \<le> dp_block d"
    and accounts_held: "pa_held a = Some h \<Longrightarrow> \<exists>h'. pa_held b = Some h' \<and> h' \<le> h"
    and accounts_why: "pa_held b = Some h \<Longrightarrow> pa_held a = Some h \<or> pa_failed b > 0 \<and> (\<exists>d\<in>D. h = dp_block d \<and> \<not> abandons through d)"
  using assms unfolding accounts_def by blast+

lemma accounts_one: "accounts through {d} acc (ingest_one ing through d acc)"
  by (auto simp: accounts_def ingest_one_def handled_def split: prod.split sum.split option.split)

lemma accounts_trans:
  assumes ab: "accounts through D a b" and bc: "accounts through E b c"
  shows "accounts through (D \<union> E) a c"
  unfolding accounts_def
proof (intro conjI ballI allI impI subsetI)
  fix d assume d: "d \<in> D \<union> E" "d \<notin> handled c"
  show "\<exists>h. pa_held c = Some h \<and> h \<le> dp_block d"
  proof (cases "d \<in> D")
    case True
    then obtain h where h: "pa_held b = Some h" "h \<le> dp_block d"
      using accounts_all [OF ab, of d] accounts_handled [OF bc, of d] d(2) by blast
    then show ?thesis using accounts_held [OF bc h(1)] by fastforce
  qed (use accounts_all [OF bc] d in blast)
next
  fix h assume "pa_held a = Some h"
  then obtain h1 where h1: "pa_held b = Some h1" "h1 \<le> h" using accounts_held [OF ab] by blast
  then show "\<exists>h'. pa_held c = Some h' \<and> h' \<le> h" using accounts_held [OF bc h1(1)] by fastforce
next
  fix h assume "pa_held c = Some h"
  then show "pa_held a = Some h \<or> pa_failed c > 0 \<and> (\<exists>d\<in>D \<union> E. h = dp_block d \<and> \<not> abandons through d)"
    using accounts_why [OF bc, of h] accounts_why [OF ab, of h] accounts_failed [OF bc] by (meson UnI1 UnI2 less_le_trans)
qed (use accounts_handled [OF ab] accounts_handled [OF bc] accounts_failed [OF ab] accounts_failed [OF bc] in \<open>blast intro: order_trans\<close>)+

lemma accounts_fold: "accounts through (set ds) acc (fold (ingest_one ing through) ds acc)"
proof (induction ds arbitrary: acc)
  case (Cons d ds)
  then show ?case using accounts_trans [OF accounts_one [of through d acc ing] Cons.IH] by simp
qed (simp add: accounts_def)

lemma settled_detectD: "settled_detect pools d \<Longrightarrow> d f t = Inr ds \<Longrightarrow> set ds = {p \<in> set pools. f \<le> dp_block p \<and> dp_block p \<le> t}"
  unfolding settled_detect_def by (metis set_filter)

text \<open>A poll with a cursor changes nothing, or accounts for every pool of the blocks it moves over.\<close>

lemma poll_once_cases:
  assumes cur: "po_cursor st = Some c" and det: "settled_detect pools d" and op: "op_max_span op = Some m" "0 < m"
  obtains (idle) "snd (poll_once op h d ing st) = st"
      "\<And>r. fst (poll_once op h d ing st) = Inr r \<Longrightarrow> \<not> pr_advanced r \<and> pr_failed r = 0"
      "(\<exists>e. h = Inl e) \<or> (\<exists>n. h = Inr n \<and> safe_head_of n (op_head_lag op) \<le> c) \<or> (\<exists>t. isl (d (c + 1) t))"
  | (moved) acc nx t n r where "h = Inr n" "t = window_end (Some m) (c + 1) (safe_head_of n (op_head_lag op))" "c < t" "t \<le> c + m"
      "poll_once op h d ing st = (Inr r, st\<lparr>po_cursor := Some nx, po_db := pa_db acc, po_done := po_done st @ pa_done acc,
         po_abandoned := po_abandoned st @ pa_abandoned acc\<rparr>)"
      "pr_advanced r \<longleftrightarrow> c < nx" "pr_failed r = pa_failed acc" "c \<le> nx" "nx \<le> t"
      "\<And>p. p \<in> set pools \<Longrightarrow> c < dp_block p \<Longrightarrow> dp_block p \<le> nx \<Longrightarrow> p \<in> handled acc"
      "nx < t \<Longrightarrow> pa_failed acc > 0 \<and> (\<exists>p\<in>set pools. dp_block p \<le> t \<and> \<not> abandons (op_abandon op) p)"
proof -
  consider (err) e where "h = Inl e" | (head) n where "h = Inr n" "safe_head_of n (op_head_lag op) \<le> c"
    | (go) n where "h = Inr n" "c < safe_head_of n (op_head_lag op)" by (cases h) fastforce+
  then show ?thesis
  proof cases
    case err
    then show ?thesis by (intro idle) (simp_all add: poll_once_def)
  next
    case (head n)
    then show ?thesis using cur by (intro idle) (auto simp: poll_once_def Let_def)
  next
    case (go n)
    define t where "t = window_end (op_max_span op) (c + 1) (safe_head_of n (op_head_lag op))"
    have t: "c < t" "t \<le> c + m" using go(2) op by (auto simp: t_def window_end_def)
    show ?thesis
    proof (cases "d (c + 1) t")
      case (Inl e)
      then have "poll_once op h d ing st = (Inl e, st)" using go cur by (simp add: poll_once_def t_def)
      then show ?thesis using Inl by (intro idle) (auto simp: isl_def)
    next
      case (Inr ds)
      define acc where "acc = fold (ingest_one ing (op_abandon op)) ds
        \<lparr>pa_db = po_db st, pa_indexed = 0, pa_failed = 0, pa_held = None, pa_done = [], pa_abandoned = []\<rparr>"
      define nx where "nx = (case pa_held acc of Some b \<Rightarrow> b - 1 | None \<Rightarrow> t)"
      have ds: "set ds = {p \<in> set pools. c + 1 \<le> dp_block p \<and> dp_block p \<le> t}" by (rule settled_detectD [OF det Inr])
      note a = accounts_fold [of "op_abandon op" ds
        "\<lparr>pa_db = po_db st, pa_indexed = 0, pa_failed = 0, pa_held = None, pa_done = [], pa_abandoned = []\<rparr>" ing, folded acc_def]
      have held: "pa_failed acc > 0 \<and> (\<exists>p\<in>set ds. b = dp_block p \<and> \<not> abandons (op_abandon op) p)" if "pa_held acc = Some b" for b
        using accounts_why [OF a that] by simp
      show ?thesis
      proof (rule moved [OF go(1) _ t, where acc = acc and nx = nx and r = "\<lparr>pr_from = c + 1, pr_to = nx, pr_seen = length ds,
            pr_indexed = pa_indexed acc, pr_failed = pa_failed acc, pr_advanced = nx > c\<rparr>"])
        show "poll_once op h d ing st = (Inr \<lparr>pr_from = c + 1, pr_to = nx, pr_seen = length ds,
            pr_indexed = pa_indexed acc, pr_failed = pa_failed acc, pr_advanced = nx > c\<rparr>,
            st\<lparr>po_cursor := Some nx, po_db := pa_db acc, po_done := po_done st @ pa_done acc, po_abandoned := po_abandoned st @ pa_abandoned acc\<rparr>)"
          using go cur Inr unfolding acc_def nx_def t_def by (simp add: poll_once_def Let_def)
        show "c \<le> nx" "nx \<le> t" using held ds t(1) by (auto simp: nx_def split: option.splits)
        show "p \<in> handled acc" if "p \<in> set pools" "c < dp_block p" "dp_block p \<le> nx" for p
          using accounts_all [OF a, of p] that ds \<open>nx \<le> t\<close> by (auto simp: nx_def split: option.splits)
        show "pa_failed acc > 0 \<and> (\<exists>p\<in>set pools. dp_block p \<le> t \<and> \<not> abandons (op_abandon op) p)" if "nx < t"
          using held ds that by (auto simp: nx_def split: option.splits)
      qed (simp_all add: t_def op)
    qed
  qed
qed


text \<open>One turn of the loop: nothing happens, or the cursor moves to \<open>nx\<close>.\<close>

lemma poller_tick_cases:
  assumes cur: "po_cursor st = Some c" and det: "settled_detect pools (pi_detect i)" and m: "0 < m"
  obtains (idle) "poller_tick lag m i st = st"
      "(\<exists>e. pi_head i = Inl e) \<or> (\<exists>n. pi_head i = Inr n \<and> safe_head_of n lag \<le> c) \<or> (\<exists>t. isl (pi_detect i (c + 1) t))"
  | (moved) acc nx t n where "pi_head i = Inr n" "t = window_end (Some m) (c + 1) (safe_head_of n lag)" "c < t" "c \<le> nx" "nx \<le> t"
      "poller_tick lag m i st = st\<lparr>po_cursor := Some nx, po_db := pa_db acc, po_done := po_done st @ pa_done acc,
         po_abandoned := po_abandoned st @ pa_abandoned acc, po_stuck := (if c < nx then 0 else po_stuck st + 1)\<rparr>"
      "\<And>p. p \<in> set pools \<Longrightarrow> c < dp_block p \<Longrightarrow> dp_block p \<le> nx \<Longrightarrow> p \<in> handled acc"
      "stuck_polls_before_skip \<le> po_stuck st \<Longrightarrow> nx = t"
proof -
  define op where "op = \<lparr>op_head_lag = lag, op_start_at_head = True, op_max_span = Some m,
    op_abandon = (if po_stuck st \<ge> stuck_polls_before_skip then map_option (\<lambda>c. c + m) (po_cursor st) else None)\<rparr>"
  have op: "op_max_span op = Some m" "op_head_lag op = lag" by (simp_all add: op_def)
  note tick = poller_tick_def [of lag m i st, unfolded Let_def, folded op_def]
  show ?thesis
  proof (cases rule: poll_once_cases [OF cur det op(1) m, of "pi_head i" "pi_ingest i"])
    case 1
    then have "poller_tick lag m i st = st"
      by (cases "poll_once op (pi_head i) (pi_detect i) (pi_ingest i) st") (auto simp: tick split: sum.split)
    then show ?thesis using 1(3) idle by (simp add: op)
  next
    case (2 acc nx t n r)
    show ?thesis
    proof (rule moved [OF 2(1) _ 2(3,8,9) _ 2(10)])
      show "poller_tick lag m i st = st\<lparr>po_cursor := Some nx, po_db := pa_db acc, po_done := po_done st @ pa_done acc,
         po_abandoned := po_abandoned st @ pa_abandoned acc, po_stuck := (if c < nx then 0 else po_stuck st + 1)\<rparr>"
        using 2(3,5-8,11) by (auto simp: tick)
      show "nx = t" if "stuck_polls_before_skip \<le> po_stuck st"
        using 2(4,9,11) that cur by (fastforce simp: op_def abandons_def)
    qed (use 2(2) op in simp_all)
  qed
qed


lemma run_t10_grows: "watcher_inv db \<Longrightarrow> tokens_kept db (snd (run_t10_for_launch e i db))"
  using run_t10_keeps [of db e i] by (simp add: tokens_kept_def launch_keys_def)

text \<open>
  C6: Over any run of polls and T+10m passes, with any answers and failures of the node, the
  database keeps its invariant: no token has two launches on a chain, every launch has its
  feature row, every queued job has its launch; and no launch ever disappears or changes its
  token.
\<close>

theorem one_launch_per_token:
  assumes "watcher_reach pools lag max_span st0 st" and "watcher_inv (po_db st0)"
  shows "watcher_inv (po_db st) \<and> tokens_kept (po_db st0) (po_db st)"
  using assms
proof induction
  case reach_start
  then show ?case by (simp add: tokens_kept_order)
next
  case (reach_poll st d h e)
  then show ?case using wi.poller_tick_keeps [of st lag max_span h d e] tokens_kept_order(2) by blast
next
  case (reach_t10 st te i)
  then show ?case using run_t10_inv run_t10_grows tokens_kept_order(2) by simp blast
qed

lemma poller_tick_covers:
  assumes "po_cursor st = Some c" and "settled_detect pools (pi_detect i)" and "0 < m"
    and "\<forall>p\<in>set pools. c0 < dp_block p \<and> dp_block p \<le> c \<longrightarrow> p \<in> set (po_done st) \<union> set (po_abandoned st)"
  shows "\<exists>c'. po_cursor (poller_tick lag m i st) = Some c' \<and> c \<le> c' \<and>
    (\<forall>p\<in>set pools. c0 < dp_block p \<and> dp_block p \<le> c' \<longrightarrow>
       p \<in> set (po_done (poller_tick lag m i st)) \<union> set (po_abandoned (poller_tick lag m i st)))"
proof (cases rule: poller_tick_cases [OF assms(1-3), of lag])
  case 1
  then show ?thesis using assms by auto
next
  case (2 acc nx t n)
  have "p \<in> set (po_done st) \<union> set (po_abandoned st) \<union> handled acc" if "p \<in> set pools" "c0 < dp_block p" "dp_block p \<le> nx" for p
    using assms(4) 2(7) that by (cases "dp_block p \<le> c") auto
  then show ?thesis unfolding 2(6) using 2(4) by (auto simp: handled_def)
qed

text \<open>
  C5: No pool is lost: over any run from a cursor, every pool of the blocks the cursor has
  passed was ingested without an error or given up by the escape hatch, however the reads,
  the detections and the ingestions failed on the way; and the cursor never moves back.
\<close>

theorem no_pool_lost:
  assumes "watcher_reach pools lag max_span st0 st" and "po_cursor st0 = Some c0" and "0 < max_span"
  shows "\<exists>c. po_cursor st = Some c \<and> c0 \<le> c \<and>
    (\<forall>p\<in>set pools. c0 < dp_block p \<and> dp_block p \<le> c \<longrightarrow> p \<in> set (po_done st) \<union> set (po_abandoned st))"
  using assms
proof induction
  case (reach_poll st d h e)
  then obtain c where c: "po_cursor st = Some c" "c0 \<le> c"
    "\<forall>p\<in>set pools. c0 < dp_block p \<and> dp_block p \<le> c \<longrightarrow> p \<in> set (po_done st) \<union> set (po_abandoned st)" by blast
  show ?case
    using poller_tick_covers [OF c(1) _ reach_poll.prems(2) c(3), of "\<lparr>pi_head = h, pi_detect = d, pi_ingest = ingest_pool e\<rparr>" lag] reach_poll.hyps(2) c(2)
    by (simp, meson order_trans)
qed auto

text \<open>
  A stalled poller gets through: seven turns in which the node answers, with the safe head
  beyond the cursor, move the cursor on, whatever the ingestion of the pools does.
\<close>

definition turn_works :: "detected_pool list \<Rightarrow> int \<Rightarrow> int \<Rightarrow> 'db poll_input \<Rightarrow> bool" where
  "turn_works pools lag c i \<longleftrightarrow> settled_detect pools (pi_detect i) \<and> (\<forall>a b. \<not> isl (pi_detect i a b)) \<and>
     (\<exists>h. pi_head i = Inr h \<and> c < safe_head_of h lag)"

lemma poller_turn:
  assumes "turn_works pools lag c i" and cur: "po_cursor st = Some c'" and "c \<le> c'" and m: "0 < m"
  shows "(\<exists>d. po_cursor (poller_tick lag m i st) = Some d \<and> c < d) \<or>
    po_cursor (poller_tick lag m i st) = Some c \<and> c' = c \<and> po_stuck (poller_tick lag m i st) = po_stuck st + 1 \<and> po_stuck st < 6"
proof -
  have det: "settled_detect pools (pi_detect i)" using assms(1) by (simp add: turn_works_def)
  show ?thesis
  proof (cases rule: poller_tick_cases [OF cur det m, of lag])
    case 1
    then show ?thesis using assms by (auto simp: turn_works_def)
  next
    case (2 acc nx t n)
    show ?thesis unfolding 2(6) using 2(3-5,8) assms(3) by (auto simp: stuck_polls_before_skip_def not_le[symmetric])
  qed
qed

lemma poller_turns:
  assumes "\<forall>i\<in>set is. turn_works pools lag c i" and "po_cursor st = Some c'" and "c \<le> c'" and "0 < m" and "c < c' \<or> 7 \<le> length is + po_stuck st"
    and "is = [] \<Longrightarrow> c < c'"
  shows "\<exists>d. po_cursor (fold (poller_tick lag m) is st) = Some d \<and> c < d"
  using assms
proof (induction "is" arbitrary: st c')
  case (Cons i "is")
  let ?st = "poller_tick lag m i st"
  consider (on) d where "po_cursor ?st = Some d" "c < d" | (stuck) "po_cursor ?st = Some c" "c' = c" "po_stuck ?st = po_stuck st + 1" "po_stuck st < 6"
    using poller_turn [of pools lag c i st c' m] Cons.prems by auto
  then show ?case
  proof cases
    case on
    then show ?thesis using Cons.IH [of ?st d] Cons.prems by simp
  next
    case stuck
    then have "is \<noteq> []" using Cons.prems(5) by auto
    then show ?thesis using Cons.IH [of ?st c] Cons.prems stuck by simp
  qed
qed simp

theorem stalled_poller_advances:
  assumes "\<forall>i\<in>set is. turn_works pools lag c i" and "po_cursor st = Some c" and "0 < max_span" and "7 \<le> length is"
  shows "\<exists>d. po_cursor (fold (poller_tick lag max_span) is st) = Some d \<and> c < d"
  using poller_turns [OF assms(1,2) _ assms(3)] assms(4) by (cases "is") auto

text \<open>
  A detection that fails does not wake the escape hatch: as long as the logs of the window
  cannot be read, every turn leaves the poller as it was and the count of stuck polls does not
  grow, for any number of turns.
\<close>

theorem failed_detection_wedges:
  assumes "po_cursor st = Some c" and "\<forall>i\<in>set is. \<forall>t. isl (pi_detect i (c + 1) t)"
  shows "fold (poller_tick lag max_span) is st = st"
  using assms(2)
proof (induction "is")
  case (Cons i "is")
  obtain err where err: "\<And>t. pi_detect i (c + 1) t = Inl (err t)" using Cons.prems by (auto simp: isl_def choice_iff)
  have "poller_tick lag max_span i st = st"
    using assms(1) by (auto simp: poller_tick_def poll_once_def Let_def err split: sum.split)
  then show ?case using Cons by simp
qed simp


section \<open>What a failed enqueue leaves\<close>

text \<open>A launch that is not queued stays so: only the ingestion that makes a launch queues it.\<close>

definition unqueued :: "nat \<Rightarrow> watcher_db \<Rightarrow> bool" where
  "unqueued i db \<longleftrightarrow> watcher_inv db \<and> i < length (wd_launches db) \<and> i \<notin> set (wd_queue db)"

lemma ingest_pool_unqueued: "unqueued i db \<Longrightarrow> unqueued i (snd (ingest_pool e dp db))"
  using ingest_pool_inv [of db e dp] by (cases rule: ingest_pool_cases [of e dp db]) (auto simp: unqueued_def)

interpretation wq: db_ingester "ingest_pool e" "unqueued i" tokens_kept for e i
  by unfold_locales (blast intro: ingest_pool_unqueued ingest_pool_grows tokens_kept_order)+

lemma reach_unqueued: "watcher_reach pools lag m st0 st \<Longrightarrow> unqueued i (po_db st0) \<Longrightarrow> unqueued i (po_db st)"
proof (induction rule: watcher_reach.induct)
  case (reach_poll st d h e)
  then show ?case using wq.poller_tick_keeps by blast
next
  case (reach_t10 st te j)
  then have inv: "watcher_inv (po_db st)" by (simp add: unqueued_def)
  have "length (wd_launches (snd (run_t10_for_launch te j (po_db st)))) = length (wd_launches (po_db st))"
    using arg_cong [OF conjunct1 [OF run_t10_keeps [OF inv, of te j]], of length] by (simp add: launch_keys_def)
  then show ?case using reach_t10 run_t10_inv [OF inv, of te j] run_t10_keeps [OF inv, of te j] by (simp add: unqueued_def)
qed simp

text \<open>
  A T+10m job can be lost: when adding the job fails after the launch was made, the pool
  is tried again, but the next ingestion finds the launch and answers that there is nothing to
  do; no run of polls and passes from there ever queues the launch.
\<close>

theorem lost_t10_job:
  assumes "watcher_inv db" and "ingest_pool e dp db = (Inl err, db')" and "wd_launches db' \<noteq> wd_launches db"
    and "ie_chain e' = ie_chain e" and "ie_config e' = ie_config e" and "ie_code e' = ie_code e"
    and "watcher_reach pools lag max_span st0 st" and "po_db st0 = db'"
  shows "\<exists>l. wd_launches db' = wd_launches db @ [l] \<and> ingest_pool e' dp db' = (Inr None, db') \<and> lr_id l \<notin> set (wd_queue (po_db st))"
proof (cases rule: ingest_pool_cases [of e dp db])
  case (new row fe q)
  then have db': "db' = db\<lparr>wd_launches := wd_launches db @ [row], wd_features := (wd_features db)(lr_id row \<mapsto> fe)\<rparr>"
    using assms(2) by auto
  have "choose_side e' = choose_side e" unfolding choose_side_def assms(5,6) ..
  then have "ingest_pool e' dp db' = (Inr None, db')"
    using new(2,3) assms(4) by (auto simp: ingest_pool_def Let_def db')
  moreover have "unqueued (lr_id row) db'"
    using ingest_pool_inv [OF assms(1), of e dp] assms(1,2) new(1) by (auto simp: unqueued_def db' watcher_inv_def)
  then have "lr_id row \<notin> set (wd_queue (po_db st))" using reach_unqueued [OF assms(7)] assms(8) by (simp add: unqueued_def)
  ultimately show ?thesis using db' by auto
qed (use assms in auto)


section \<open>The T+10m pass\<close>

definition t10_head :: "t10_env \<Rightarrow> int option" where
  "t10_head e = (case te_head e of Inl _ \<Rightarrow> None | Inr h \<Rightarrow> Some h)"

definition t10_end :: "t10_env \<Rightarrow> launch_row \<Rightarrow> int" where
  "t10_end e l = clamp_to (t10_head e) (lr_block l + blocks_in (te_config e) 600)"

lemma run_t10_cases:
  assumes "find_launch i db = Some l" and "recheck_pool e (t10_head e) (t10_end e l) l = (m, row)"
  obtains (stopped) err where "run_t10_for_launch e i db = (err, update_launch i (\<lambda>_. row) db)"
  | (missing) c age where "run_t10_for_launch e i db =
      (Some ''Record to update not found'', (update_launch i (\<lambda>l. l\<lparr>lr_age_sec := age\<rparr>) (update_launch i (\<lambda>_. row) db))\<lparr>wd_decimals := c\<rparr>)"
  | (finished) v k f9 c fe where "wd_features db i = Some fe" "tv_cluster v = Inr k"
      "run_t10_for_launch e i db = (None, (update_launch i (\<lambda>l. l\<lparr>lr_qualified := (lr_qualified l \<or> tv_qualified v)\<rparr>)
          ((update_launch i (\<lambda>l. l\<lparr>lr_age_sec := tv_age v\<rparr>) (update_launch i (\<lambda>_. row) db))\<lparr>wd_decimals := c\<rparr>))
        \<lparr>wd_members := (wd_members db)(i := cu_members k), wd_features := (wd_features db)(i \<mapsto> t10_feature_update v k f9 (te_now e) fe),
          wd_reported := wd_reported db @ (if cu_partial k = [] then [i] else [])\<rparr>)"
proof -
  let ?db1 = "update_launch i (\<lambda>_. row) db"
  have other: "wd_features (update_launch j f x) = wd_features x" "wd_members (update_launch j f x) = wd_members x"
    "wd_reported (update_launch j f x) = wd_reported x" for j f x by (simp_all add: update_launch_def)
  note run = run_t10_for_launch_def [of e i db, unfolded assms(1) option.case Let_def, folded t10_head_def, folded t10_end_def, unfolded assms(2) prod.case]
  show ?thesis
  proof (cases "t10_source (te_config e) m")
    case None
    then show ?thesis by (intro stopped) (simp add: run)
  next
    case (Some src)
    define v where "v = t10_compute e ?db1 m (lower src) (t10_end e l)"
    show ?thesis
    proof (cases "tv_cluster v")
      case (Inl err)
      then show ?thesis by (intro stopped) (simp add: run Some flip: v_def)
    next
      case (Inr k)
      obtain f9 c where f: "(if tv_qualified v then map_prod Some id (t10_feature9 e (wd_decimals ?db1) m (t10_end e l)) else (None, wd_decimals ?db1)) = (f9, c)"
        by fastforce
      show ?thesis
      proof (cases "wd_features db i")
        case None
        then show ?thesis by (intro missing [where age = "tv_age v" and c = c]) (simp add: run Some Inr f other flip: v_def)
      next
        case (Some fe)
        then show ?thesis
          by (intro finished [OF Some Inr, where c = c and ?f9.0 = f9]) (simp add: run \<open>t10_source (te_config e) m = Some src\<close> Inr f other flip: v_def)
      qed
    qed
  qed
qed


lemma find_launch_update:
  assumes "\<And>l. lr_id l = i \<Longrightarrow> lr_id (f l) = i"
  shows "find_launch j (update_launch i f db) = map_option (if j = i then f else id) (find_launch j db)"
proof -
  have "List.find (\<lambda>l. lr_id l = j) (map (\<lambda>l. if lr_id l = i then f l else l) ls) = map_option (if j = i then f else id) (List.find (\<lambda>l. lr_id l = j) ls)" for ls
    using assms by (induction ls) auto
  then show ?thesis by (simp add: find_launch_def update_launch_def)
qed

lemma find_launch_tables [simp]:
  "find_launch j (db\<lparr>wd_decimals := c\<rparr>) = find_launch j db"
  "find_launch j (db\<lparr>wd_members := ms, wd_features := fs, wd_reported := rs\<rparr>) = find_launch j db"
  by (simp_all add: find_launch_def)

lemma update_launch_tables [simp]:
  "wd_features (update_launch i f db) = wd_features db" "wd_members (update_launch i f db) = wd_members db"
  "wd_reported (update_launch i f db) = wd_reported db"
  by (simp_all add: update_launch_def)

lemma recheck_pool_row:
  "recheck_pool e head t l = (m, row) \<Longrightarrow>
   lr_hooks row = lr_hooks m \<and> lr_pool_id row = lr_pool_id m \<and> lr_kind row = lr_kind l \<and> lr_qualified row = lr_qualified l"
  by (auto simp: recheck_pool_def store_pool_def Let_def split: if_splits sum.splits)

text \<open>What the pass leaves of a launch: the rechecked row, up to the age and the lane.\<close>

lemma run_t10_launch:
  assumes l: "find_launch i db = Some l" and r: "recheck_pool e (t10_head e) (t10_end e l) l = (m, row)"
  shows "\<exists>age q. find_launch j (snd (run_t10_for_launch e i db)) =
    (if j = i then Some (row\<lparr>lr_age_sec := age, lr_qualified := (lr_qualified l \<or> q)\<rparr>) else find_launch j db)"
proof -
  have row: "lr_id row = i" "lr_qualified row = lr_qualified l"
    using recheck_pool_keeps [OF r] recheck_pool_row [OF r] find_launch_mem [OF l] by auto
  have same: "row = row\<lparr>lr_age_sec := lr_age_sec row, lr_qualified := lr_qualified l\<rparr>" using row(2) by simp
  show ?thesis
  proof (cases rule: run_t10_cases [OF l r])
    case (1 err)
    then show ?thesis using l row by (intro exI [of _ "lr_age_sec row"] exI [of _ False]) (simp add: find_launch_update option.map_id)
  next
    case (2 c age)
    then show ?thesis using l row by (intro exI [of _ age] exI [of _ False]) (simp add: find_launch_update option.map_id)
  next
    case (3 v k f9 c fe)
    then show ?thesis using l row by (intro exI [of _ "tv_age v"] exI [of _ "tv_qualified v"]) (simp add: find_launch_update option.map_id)
  qed
qed

text \<open>
  The T+10m pass leaves stale hook flags: when it moves a launch to a pool with other hook
  permissions, the launch row gets the new hook, and the feature row keeps the flags of the
  pool that was seen first.
\<close>

theorem t10_keeps_stale_hooks:
  assumes "find_launch i db = Some l" and "wd_features db i = Some fe" and "fe_hooks fe = compute_hook_features (lr_hooks l)"
    and "compute_hook_features (lr_hooks (fst (recheck_pool e (t10_head e) (t10_end e l) l))) \<noteq> compute_hook_features (lr_hooks l)"
  shows "\<exists>l' fe'. find_launch i (snd (run_t10_for_launch e i db)) = Some l' \<and> wd_features (snd (run_t10_for_launch e i db)) i = Some fe' \<and>
    lr_hooks l' = lr_hooks (fst (recheck_pool e (t10_head e) (t10_end e l) l)) \<and> fe_hooks fe' \<noteq> compute_hook_features (lr_hooks l')"
proof -
  obtain m row where r: "recheck_pool e (t10_head e) (t10_end e l) l = (m, row)" by fastforce
  obtain age q where l': "find_launch i (snd (run_t10_for_launch e i db)) = Some (row\<lparr>lr_age_sec := age, lr_qualified := (lr_qualified l \<or> q)\<rparr>)"
    using run_t10_launch [OF assms(1) r, of i] by auto
  have "\<exists>fe'. wd_features (snd (run_t10_for_launch e i db)) i = Some fe' \<and> fe_hooks fe' = fe_hooks fe"
    by (cases rule: run_t10_cases [OF assms(1) r]) (use assms(2) in \<open>auto simp: t10_feature_update_def\<close>)
  then show ?thesis using l' assms(3,4) recheck_pool_row [OF r] r by auto
qed

text \<open>
  The T+10m pass is safe: an error leaves the feature rows, the cluster members and the
  reported launches as they were; a launch is reported only with its feature row complete and
  stamped; and no launch loses its qualified lane.
\<close>

theorem t10_pass_is_safe:
  assumes "run_t10_for_launch e i db = (r, db')"
  shows "(r \<noteq> None \<longrightarrow> wd_features db' = wd_features db \<and> wd_members db' = wd_members db \<and> wd_reported db' = wd_reported db) \<and>
    (wd_reported db' = wd_reported db \<or> wd_reported db' = wd_reported db @ [i] \<and> (\<exists>fe. wd_features db' i = Some fe \<and> fe_t10_at fe = Some (te_now e))) \<and>
    (\<forall>j l. find_launch j db = Some l \<and> lr_qualified l \<longrightarrow> (\<exists>l'. find_launch j db' = Some l' \<and> lr_qualified l'))"
proof (cases "find_launch i db")
  case None
  then show ?thesis using assms by (auto simp: run_t10_for_launch_def)
next
  case (Some l)
  obtain m row where rc: "recheck_pool e (t10_head e) (t10_end e l) l = (m, row)" by fastforce
  have db': "db' = snd (run_t10_for_launch e i db)" "r = fst (run_t10_for_launch e i db)" using assms by simp_all
  have "\<exists>l'. find_launch j db' = Some l' \<and> lr_qualified l'" if "find_launch j db = Some k" "lr_qualified k" for j k
    using run_t10_launch [OF Some rc, of j] that Some by (auto simp: db' split: if_splits)
  moreover have "(r \<noteq> None \<longrightarrow> wd_features db' = wd_features db \<and> wd_members db' = wd_members db \<and> wd_reported db' = wd_reported db) \<and>
    (wd_reported db' = wd_reported db \<or> wd_reported db' = wd_reported db @ [i] \<and> (\<exists>fe. wd_features db' i = Some fe \<and> fe_t10_at fe = Some (te_now e)))"
    by (cases rule: run_t10_cases [OF Some rc]) (simp_all add: db' t10_feature_update_def)
  ultimately show ?thesis by blast
qed


section \<open>Concrete runs\<close>

text \<open>One pool at block 5, a node that answers, a database with no launch and a cursor at block 0.\<close>

definition demo_pool :: detected_pool where
  "demo_pool = \<lparr>dp_creation = demo_creation, dp_block = 5, dp_tx = ''0xtx''\<rparr>"

definition demo_ingest :: "(nat \<Rightarrow> string + unit) \<Rightarrow> ingest_env" where
  "demo_ingest enqueue = \<lparr>ie_config = demo_config, ie_chain = 1, ie_code = (\<lambda>a b. Inr None),
     ie_tx = (\<lambda>h b a. Inr \<lparr>lx_from = ''0xc'', lx_to = None, lx_logs = [], lx_seconds = 100\<rparr>), ie_receipt = (\<lambda>h. Inl []),
     ie_supply = (\<lambda>a. Inl []), ie_transient = (\<lambda>m. False), ie_enqueue = enqueue, ie_quota = 3, ie_confident_only = False,
     ie_retrospective = False\<rparr>"

definition demo_db :: watcher_db where
  "demo_db = \<lparr>wd_launches = [], wd_features = (\<lambda>i. None), wd_members = (\<lambda>i. []), wd_queue = [], wd_reported = [], wd_decimals = (\<lambda>a. None)\<rparr>"

definition demo_poller :: "watcher_db poller" where
  "demo_poller = \<lparr>po_cursor = Some 0, po_db = demo_db, po_stuck = 0, po_done = [], po_abandoned = []\<rparr>"

definition demo_detect :: "int \<Rightarrow> int \<Rightarrow> string + detected_pool list" where
  "demo_detect f t = Inr (filter (\<lambda>dp. f \<le> dp_block dp \<and> dp_block dp \<le> t) [demo_pool])"

definition demo_turn :: "(nat \<Rightarrow> string + unit) \<Rightarrow> watcher_db poll_input" where
  "demo_turn enqueue = \<lparr>pi_head = Inr 10, pi_detect = demo_detect, pi_ingest = ingest_pool (demo_ingest enqueue)\<rparr>"

definition demo_class :: pair_class where
  "demo_class = \<lparr>cp_token = ''0xt'', cp_quote = ''0xq'', cp_confident = True\<rparr>"

definition demo_row :: "(nat \<Rightarrow> string + unit) \<Rightarrow> launch_row" where
  "demo_row enqueue = new_launch (demo_ingest enqueue) [] demo_class demo_pool \<lparr>lx_from = ''0xc'', lx_to = None, lx_logs = [], lx_seconds = 100\<rparr>"

lemma demo_settled: "settled_detect [demo_pool] demo_detect"
  by (simp add: settled_detect_def demo_detect_def)

lemma demo_inv: "watcher_inv demo_db"
  by (simp add: watcher_inv_def demo_db_def)

lemma demo_row_id [simp]: "lr_id (demo_row q) = 0"
  by (simp add: demo_row_def new_launch_def Let_def)

lemma demo_side: "choose_side (demo_ingest q) demo_creation b = \<lparr>sd_class = demo_class, sd_fresh0 = None, sd_fresh1 = None\<rparr>"
proof -
  have "lower ''0xq'' = ''0xq''" "lower ''0xt'' = ''0xt''" "''0xt'' \<noteq> zero_address" by code_simp+
  then show ?thesis
    by (simp add: choose_side_def classify_pair_def demo_ingest_def demo_config_def demo_creation_def demo_class_def Let_def)
qed

lemma demo_pool_sel [simp]: "dp_creation demo_pool = demo_creation" "dp_block demo_pool = 5" "dp_tx demo_pool = ''0xtx''"
  by (simp_all add: demo_pool_def)

lemma demo_ingested:
  "\<exists>fe. ingest_pool (demo_ingest q) demo_pool demo_db =
    (case q 0 of Inl err \<Rightarrow> (Inl err, demo_db\<lparr>wd_launches := [demo_row q], wd_features := (\<lambda>i. None)(0 \<mapsto> fe)\<rparr>)
     | Inr u \<Rightarrow> (Inr (Some 0), demo_db\<lparr>wd_launches := [demo_row q], wd_features := (\<lambda>i. None)(0 \<mapsto> fe), wd_queue := [0]\<rparr>))"
proof -
  have "fr_is_fresh (side_freshness (demo_ingest q) demo_creation 5 \<lparr>sd_class = demo_class, sd_fresh0 = None, sd_fresh1 = None\<rparr>)"
    by (simp add: side_freshness_def check_token_freshness_def has_code_at_def demo_ingest_def demo_class_def Let_def)
  moreover have "with_retry (ie_transient (demo_ingest q)) 4 (ie_tx (demo_ingest q) h b) = Inr \<lparr>lx_from = ''0xc'', lx_to = None, lx_logs = [], lx_seconds = 100\<rparr>" for h b
    by (rule with_retry_Inr) (simp_all add: demo_ingest_def)
  moreover have "ie_enqueue (demo_ingest q) = q" by (simp add: demo_ingest_def)
  moreover have "\<not> ie_confident_only (demo_ingest q)" "wd_launches demo_db = []" "wd_features demo_db = (\<lambda>i. None)" "wd_queue demo_db = []"
    by (simp_all add: demo_ingest_def demo_db_def)
  ultimately show ?thesis
    by (cases "q 0") (auto simp: ingest_pool_def demo_pool_sel demo_side Let_def simp flip: demo_row_def)
qed


definition demo_polled :: "watcher_db poller" where
  "demo_polled = poller_tick 2 10 (demo_turn (\<lambda>i. Inr ())) demo_poller"

lemma demo_reach: "watcher_reach [demo_pool] 2 10 demo_poller (poller_tick 2 10 (demo_turn q) demo_poller)"
  unfolding demo_turn_def by (rule reach_poll [OF reach_start demo_settled])

text \<open>The turn ends at block 8: the pool is done when its job is queued, and the cursor is held at block 4 when it is not.\<close>

lemma demo_window: "demo_detect 1 8 = Inr [demo_pool]"
  by (simp add: demo_detect_def)

lemma demo_cursor: "po_cursor (poller_tick 2 10 (demo_turn q) demo_poller) = Some (if isl (q 0) then 4 else 8)"
proof -
  obtain fe where "ingest_pool (demo_ingest q) demo_pool demo_db =
    (case q 0 of Inl err \<Rightarrow> (Inl err, demo_db\<lparr>wd_launches := [demo_row q], wd_features := (\<lambda>i. None)(0 \<mapsto> fe)\<rparr>)
     | Inr u \<Rightarrow> (Inr (Some 0), demo_db\<lparr>wd_launches := [demo_row q], wd_features := (\<lambda>i. None)(0 \<mapsto> fe), wd_queue := [0]\<rparr>))"
    using demo_ingested by blast
  then show ?thesis
    by (cases "q 0") (simp_all add: poller_tick_def poll_once_def demo_turn_def demo_poller_def safe_head_of_def window_end_def demo_window
      ingest_one_def abandons_def stuck_polls_before_skip_def Let_def)
qed

theorem no_pool_lost_witness:
  "po_cursor demo_polled = Some 8 \<and> demo_pool \<in> set (po_done demo_polled) \<union> set (po_abandoned demo_polled)"
proof -
  have "\<exists>c. po_cursor demo_polled = Some c \<and> 0 \<le> c \<and>
    (\<forall>p\<in>set [demo_pool]. 0 < dp_block p \<and> dp_block p \<le> c \<longrightarrow> p \<in> set (po_done demo_polled) \<union> set (po_abandoned demo_polled))"
    unfolding demo_polled_def by (rule no_pool_lost [OF demo_reach]) (simp_all add: demo_poller_def)
  then show ?thesis using demo_cursor [of "\<lambda>i. Inr ()"] by (auto simp: demo_polled_def)
qed

theorem one_launch_per_token_witness: "watcher_inv (po_db demo_polled) \<and> tokens_kept demo_db (po_db demo_polled)"
  using one_launch_per_token [OF demo_reach, of "\<lambda>i. Inr ()"] demo_inv by (simp add: demo_polled_def demo_poller_def)

theorem stalled_poller_advances_witness:
  "\<exists>d. po_cursor (fold (poller_tick 2 10) (replicate 7 (demo_turn (\<lambda>i. Inl ''redis''))) demo_poller) = Some d \<and> 0 < d"
proof (rule stalled_poller_advances)
  show "\<forall>i\<in>set (replicate 7 (demo_turn (\<lambda>i. Inl ''redis''))). turn_works [demo_pool] 2 0 i"
    using demo_settled by (simp add: turn_works_def demo_turn_def demo_detect_def safe_head_of_def)
qed (simp_all add: demo_poller_def)

theorem failed_detection_wedges_witness:
  "fold (poller_tick 2 10) (replicate 100 \<lparr>pi_head = Inr 10, pi_detect = (\<lambda>f t. Inl ''logs''), pi_ingest = ingest_pool (demo_ingest (\<lambda>i. Inr ()))\<rparr>) demo_poller = demo_poller"
  by (rule failed_detection_wedges [where c = 0]) (simp_all add: demo_poller_def)

theorem lost_t10_job_witness:
  "\<exists>db' l. ingest_pool (demo_ingest (\<lambda>i. Inl ''redis'')) demo_pool demo_db = (Inl ''redis'', db') \<and> wd_launches db' = [l] \<and>
     lr_id l \<notin> set (wd_queue (po_db (poller_tick 2 10 (demo_turn (\<lambda>i. Inr ())) (demo_poller\<lparr>po_db := db'\<rparr>))))"
proof -
  obtain fe where fe: "ingest_pool (demo_ingest (\<lambda>i. Inl ''redis'')) demo_pool demo_db =
      (Inl ''redis'', demo_db\<lparr>wd_launches := [demo_row (\<lambda>i. Inl ''redis'')], wd_features := (\<lambda>i. None)(0 \<mapsto> fe)\<rparr>)"
    using demo_ingested [of "\<lambda>i. Inl ''redis''"] by auto
  define db' where "db' = demo_db\<lparr>wd_launches := [demo_row (\<lambda>i. Inl ''redis'')], wd_features := (\<lambda>i. None)(0 \<mapsto> fe)\<rparr>"
  let ?st = "poller_tick 2 10 (demo_turn (\<lambda>i. Inr ())) (demo_poller\<lparr>po_db := db'\<rparr>)"
  have "watcher_reach [demo_pool] 2 10 (demo_poller\<lparr>po_db := db'\<rparr>) ?st"
    unfolding demo_turn_def by (rule reach_poll [OF reach_start demo_settled])
  from lost_t10_job [OF demo_inv fe [folded db'_def] _ _ _ _ this, of "demo_ingest (\<lambda>i. Inr ())"]
  obtain l where "wd_launches db' = [l]" "lr_id l \<notin> set (wd_queue (po_db ?st))" by (auto simp: db'_def demo_db_def demo_ingest_def)
  then show ?thesis using fe [folded db'_def] by blast
qed

text \<open>A v4 launch with no hook, and a pool on the same pair whose hook may change a swap's amounts.\<close>

definition demo_hook :: address where "demo_hook = ''0x000000000000000000000000000000000000008c''"

definition demo_launch :: launch_row where
  "demo_launch = (demo_row (\<lambda>i. Inr ()))\<lparr>lr_token := ''0xt'', lr_kind := Some V4, lr_pool_id := Some ''0xold'', lr_hooks := None, lr_block := 0, lr_qualified := True\<rparr>"

definition demo_t10_db :: watcher_db where
  "demo_t10_db = demo_db\<lparr>wd_launches := [demo_launch], wd_features := (\<lambda>i. None)(0 \<mapsto> new_feature None (compute_hook_features None))\<rparr>"

definition demo_t10 :: t10_env where
  "demo_t10 = \<lparr>te_config = demo_config, te_client = demo_pool_node,
     te_pool_abi = demo_pool_abi\<lparr>pi_decode := (\<lambda>l. Inr (Some (demo_creation\<lparr>pc_hooks := Some demo_hook\<rparr>)))\<rparr>, te_max_range = 1000,
     te_head = Inr 10, te_supply_at = (\<lambda>a b. Inl []), te_nonce = (\<lambda>a b. Inl []), te_code = (\<lambda>a b. Inl []), te_decimals = (\<lambda>a. Inl []),
     te_quoter = (\<lambda>b k z a. Inl []), te_goplus = (\<lambda>a. map_goplus (\<lambda>_. None) None), te_scanhood = (\<lambda>a. map_scanhood None),
     te_exits = (\<lambda>i. []), te_qualify = 10, te_now = 1000\<rparr>"

lemma demo_find [simp]: "find_launch 0 demo_t10_db = Some demo_launch"
  by (simp add: find_launch_def demo_t10_db_def demo_launch_def)

lemma demo_recheck: "lr_hooks (fst (recheck_pool demo_t10 (t10_head demo_t10) (t10_end demo_t10 demo_launch) demo_launch)) = Some demo_hook"
proof -
  let ?d = "demo_creation\<lparr>pc_hooks := Some demo_hook\<rparr>"
  let ?abi = "demo_pool_abi\<lparr>pi_decode := (\<lambda>l. Inr (Some ?d))\<rparr>"
  have low: "lower ''0xp'' = ''0xp''" "lower ''0xold'' = ''0xold''" "lower demo_hook = demo_hook" by code_simp+
  have scan: "find_token_v4_pools demo_pool_node ?abi demo_config ''0xt'' 0 10 1000 = Inr [annotate demo_config (candidate_of ''0xp'' ?d 5)]"
    by (simp add: find_token_v4_pools_def Let_def demo_pool_scan demo_pool_abi_def demo_creation_def mint_log_def annotate_def candidate_of_def low)
  have ends: "clamp_to (Some 10) (blocks_in demo_config 600) = 10" "clamp_to (Some 10) (blocks_in demo_config 7200) = 10"
    by (simp_all add: clamp_to_def blocks_in_def demo_config_def js_round_def)
  have one: "rank_with_activity f [annotate demo_config (candidate_of ''0xp'' ?d 5)] = [annotate demo_config (candidate_of ''0xp'' ?d 5)]" for f
    by (simp add: rank_with_activity_def rank_candidates_def contenders_of_def Let_def)
  have sel: "pd_id (annotate demo_config (candidate_of ''0xp'' ?d 5)) = ''0xp''" "pd_hooks (annotate demo_config (candidate_of ''0xp'' ?d 5)) = Some demo_hook"
    using low(3) by (simp_all add: annotate_def candidate_of_def Let_def demo_hook_def)
  show ?thesis
    by (simp add: one sel low switch_pool_def recheck_pool_def t10_head_def t10_end_def demo_t10_def demo_launch_def pick_primary_v4_pool_def ends scan Let_def)
qed


lemma demo_hook_flags: "compute_hook_features (Some demo_hook) \<noteq> compute_hook_features None"
proof -
  have "hk_permissions (compute_hook_features (Some demo_hook)) \<noteq> hk_permissions (compute_hook_features None)" by code_simp
  then show ?thesis by metis
qed

theorem t10_keeps_stale_hooks_witness:
  "\<exists>l' fe'. find_launch 0 (snd (run_t10_for_launch demo_t10 0 demo_t10_db)) = Some l' \<and>
     wd_features (snd (run_t10_for_launch demo_t10 0 demo_t10_db)) 0 = Some fe' \<and> lr_hooks l' = Some demo_hook \<and>
     fe_hooks fe' \<noteq> compute_hook_features (lr_hooks l')"
proof -
  have h: "lr_hooks demo_launch = None" by (simp add: demo_launch_def)
  have f: "wd_features demo_t10_db 0 = Some (new_feature None (compute_hook_features None))" by (simp add: demo_t10_db_def)
  have "fe_hooks (new_feature None (compute_hook_features None)) = compute_hook_features (lr_hooks demo_launch)" by (simp add: new_feature_def h)
  from t10_keeps_stale_hooks [OF demo_find f this, of demo_t10] show ?thesis
    using demo_hook_flags unfolding demo_recheck h by blast
qed

theorem t10_pass_is_safe_witness:
  "\<exists>l'. find_launch 0 (snd (run_t10_for_launch demo_t10 0 demo_t10_db)) = Some l' \<and> lr_qualified l'"
proof -
  have "lr_qualified demo_launch" by (simp add: demo_launch_def)
  then show ?thesis
    using t10_pass_is_safe [OF surjective_pairing, of demo_t10 0 demo_t10_db] by auto
qed


end
