(* ===== verification/DeepdiveTools.thy ===== *)
theory DeepdiveTools
  imports Watcher
begin

text \<open>
  What the deep dive reads (\<open>apps/worker/src/deepdive\<close>, \<open>apps/worker/src/history\<close>): the code
  of a contract and its EIP-1967 slots (\<open>contract-code.ts\<close>), the frozen target packet
  (\<open>packet.ts\<close>), an address's token transfers from logs (\<open>rpc-logs.ts\<close>), the evidence rows
  and limitations of the eight tools (\<open>evidence.ts\<close>, \<open>tools.ts\<close>) and the binding of the tools
  to the providers of one launch (\<open>context.ts\<close>).  The node, keccak256 and the scanner are
  parameters.
\<close>


section \<open>Contract code\<close>

definition implementation_slot :: string where
  "implementation_slot = ''0x360894a13ba1a3210667c828492db98dca3e2076cc3735a920a3ca505d382bbc''"
definition admin_slot :: string where
  "admin_slot = ''0xb53127684a568b3173ae13b9f8a6016e243e63b6e8ee1178d6a717850b5d6103''"
definition beacon_slot :: string where
  "beacon_slot = ''0xa3f0ad74e5423aebfd80d3ef4346578335a9a72aeaee59ff6cb3582b35133d50''"

text \<open>\<open>getCode\<close> and \<open>getStorageAt\<close>; a block of \<open>None\<close> is the head.\<close>

record code_client =
  kc_code :: "address \<Rightarrow> int option \<Rightarrow> string + string option"
  kc_storage :: "address \<Rightarrow> string \<Rightarrow> int option \<Rightarrow> string + string option"

record contract_code =
  kd_address :: address
  kd_block :: "int option"
  kd_hash :: "string option"
  kd_size :: real
  kd_is_contract :: bool
  kd_is_proxy :: bool
  kd_implementation :: "address option"
  kd_admin :: "address option"
  kd_beacon :: "address option"

definition zero_word :: string where "zero_word = ''0x'' @ replicate 64 CHR ''0''"

text \<open>The test against the pattern of forty zeros is a comparison with the zero address.\<close>

definition word_to_address :: "string option \<Rightarrow> address option" where
  "word_to_address word =
     (case word of
        None \<Rightarrow> None
      | Some w \<Rightarrow>
          if w = [] \<or> w = zero_word \<or> length w < 66 then None
          else (let a = lower (''0x'' @ drop (length w - 40) w) in if a = zero_address then None else Some a))"

definition resolve_contract_code :: "(string \<Rightarrow> string) \<Rightarrow> code_client \<Rightarrow> address \<Rightarrow> int option \<Rightarrow> string + contract_code" where
  "resolve_contract_code keccak c address block =
     (let addr = lower address in
      case kc_code c addr block of
        Inl e \<Rightarrow> Inl e
      | Inr code \<Rightarrow>
          (let has_code = (code \<noteq> None \<and> code \<noteq> Some [] \<and> code \<noteq> Some ''0x'');
               bare = \<lparr>kd_address = addr, kd_block = block, kd_hash = (if has_code then map_option keccak code else None),
                       kd_size = (if has_code then (real (length (the code)) - 2) / 2 else 0), kd_is_contract = has_code,
                       kd_is_proxy = False, kd_implementation = None, kd_admin = None, kd_beacon = None\<rparr>
           in if \<not> has_code then Inr bare
              else (case (kc_storage c addr implementation_slot block, kc_storage c addr admin_slot block, kc_storage c addr beacon_slot block) of
                  (Inr i, Inr a, Inr b) \<Rightarrow>
                    (let impl = word_to_address i; adm = word_to_address a; bea = word_to_address b
                     in Inr (bare\<lparr>kd_implementation := impl, kd_admin := adm, kd_beacon := bea,
                                  kd_is_proxy := (impl \<noteq> None \<or> adm \<noteq> None \<or> bea \<noteq> None)\<rparr>))
                | (Inl e, _, _) \<Rightarrow> Inl e
                | (_, Inl e, _) \<Rightarrow> Inl e
                | (_, _, Inl e) \<Rightarrow> Inl e)))"


section \<open>The target packet\<close>

text \<open>The columns of a launch the deep dive reads.\<close>

record deep_launch =
  dl_id :: string
  dl_chain :: nat
  dl_token :: address
  dl_quote :: "address option"
  dl_creator :: address
  dl_block :: int
  dl_tx :: string
  dl_at :: "millis option"
  dl_source :: string
  dl_kind :: "pool_kind option"
  dl_pool_address :: "address option"
  dl_pool_id :: "string option"
  dl_fee :: "int option"
  dl_tick_spacing :: "int option"
  dl_hooks :: "address option"
  dl_fee_suspect :: bool
  dl_qualified :: bool
  dl_retrospective :: bool
  dl_over_quota :: bool
  dl_has_feature :: bool
  dl_created :: millis

record candidate_pool =
  cq_kind :: pool_kind
  cq_address :: "address option"
  cq_id :: "string option"
  cq_fee :: "int option"
  cq_tick_spacing :: "int option"
  cq_hooks :: "address option"
  cq_suspect :: bool

record deepdive_target =
  tg_chain :: nat
  tg_token :: address
  tg_quote :: "address option"
  tg_creator :: address
  tg_block :: int
  tg_tx :: string
  tg_at :: "millis option"
  tg_source :: string
  tg_pools :: "candidate_pool list"

definition target_from_launch :: "deep_launch \<Rightarrow> deepdive_target" where
  "target_from_launch l =
     \<lparr>tg_chain = dl_chain l, tg_token = dl_token l, tg_quote = dl_quote l, tg_creator = dl_creator l, tg_block = dl_block l,
      tg_tx = dl_tx l, tg_at = dl_at l, tg_source = dl_source l,
      tg_pools = [\<lparr>cq_kind = nullish (dl_kind l) V4, cq_address = dl_pool_address l, cq_id = dl_pool_id l, cq_fee = dl_fee l,
        cq_tick_spacing = dl_tick_spacing l, cq_hooks = dl_hooks l, cq_suspect = dl_fee_suspect l\<rparr>]\<rparr>"

record head_block =
  hb_number :: "int option"
  hb_hash :: "string option"
  hb_seconds :: int

record packet_client = code_client +
  pc_chain_id :: "string + nat"
  pc_block :: "int option \<Rightarrow> string + head_block"

record target_packet =
  tp_chain :: nat
  tp_rpc_chain :: nat
  tp_chain_matches :: bool
  tp_token :: address
  tp_quote :: "address option"
  tp_creator :: address
  tp_source :: string
  tp_number :: int
  tp_hash :: string
  tp_time :: millis
  tp_launch_block :: int
  tp_launch_tx :: string
  tp_launch_at :: "millis option"
  tp_code :: contract_code
  tp_implementation_code :: "contract_code option"
  tp_pools :: "candidate_pool list"

text \<open>An empty quote is a missing one.  \<open>builtAtUtc\<close> is left out.\<close>

definition build_target_packet :: "(string \<Rightarrow> string) \<Rightarrow> packet_client \<Rightarrow> deepdive_target \<Rightarrow> int option \<Rightarrow> string + target_packet" where
  "build_target_packet keccak c t report_block =
     (case (pc_chain_id c, pc_block c report_block) of
        (Inl e, _) \<Rightarrow> Inl e
      | (_, Inl e) \<Rightarrow> Inl e
      | (Inr rpc_chain, Inr head) \<Rightarrow>
          (let n = (case report_block of Some b \<Rightarrow> b | None \<Rightarrow> nullish (hb_number head) 0);
               kc = \<lparr>kc_code = kc_code c, kc_storage = kc_storage c\<rparr>
           in case resolve_contract_code keccak kc (tg_token t) (Some n) of
                Inl e \<Rightarrow> Inl e
              | Inr code \<Rightarrow>
                  (case (case (kd_is_proxy code, kd_implementation code) of
                           (True, Some i) \<Rightarrow> map_sum id Some (resolve_contract_code keccak kc i (Some n))
                         | _ \<Rightarrow> Inr None) of
                     Inl e \<Rightarrow> Inl e
                   | Inr impl \<Rightarrow>
                       Inr \<lparr>tp_chain = tg_chain t, tp_rpc_chain = rpc_chain, tp_chain_matches = (rpc_chain = tg_chain t),
                         tp_token = lower (tg_token t), tp_quote = lower_opt (tg_quote t), tp_creator = lower (tg_creator t),
                         tp_source = tg_source t, tp_number = n, tp_hash = nullish (hb_hash head) ''0x'',
                         tp_time = hb_seconds head * 1000, tp_launch_block = tg_block t, tp_launch_tx = tg_tx t, tp_launch_at = tg_at t,
                         tp_code = code, tp_implementation_code = impl, tp_pools = tg_pools t\<rparr>)))"


section \<open>Transfer history\<close>

record token_transfer =
  tt_token :: address
  tt_from :: address
  tt_to :: address
  tt_value :: int
  tt_block :: int
  tt_index :: int
  tt_tx :: "string option"

text \<open>\<open>byOrder\<close> compares block and log index; \<open>Array.sort\<close> is stable.\<close>

definition by_order :: "token_transfer list \<Rightarrow> token_transfer list" where
  "by_order ts = sort_key (\<lambda>t. (tt_block t, tt_index t)) ts"

text \<open>The \<open>map\<close> and the \<open>filter\<close>: a log without both topics is dropped, unreadable numbers throw.\<close>

fun history_transfers :: "rpc_log list \<Rightarrow> string + token_transfer list" where
  "history_transfers [] = Inr []"
| "history_transfers (l # ls) =
     (case (topic_address 1 l, topic_address 2 l) of
        (Some src, Some dst) \<Rightarrow>
          (case (transfer_value (l_data l), l_block l, l_index l) of
             (Some v, Some b, Some i) \<Rightarrow>
               map_sum id (\<lambda>ts. \<lparr>tt_token = lower (l_address l), tt_from = src, tt_to = dst, tt_value = v, tt_block = b,
                                  tt_index = i, tt_tx = l_tx l\<rparr> # ts) (history_transfers ls)
           | _ \<Rightarrow> Inl ''BigInt'')
      | _ \<Rightarrow> history_transfers ls)"

text \<open>The empty address stands for a scan without an address filter.\<close>

definition history_query :: "log_client \<Rightarrow> int \<Rightarrow> string list list \<Rightarrow> address option \<Rightarrow> int \<Rightarrow> int \<Rightarrow> string + token_transfer list" where
  "history_query c max_range topics token f t =
     (case retried_logs c 4 (nullish token []) topics f t max_range of
        Inl e \<Rightarrow> Inl e
      | Inr logs \<Rightarrow> map_sum id by_order (history_transfers logs))"

definition inbound_transfers :: "log_client \<Rightarrow> int \<Rightarrow> address \<Rightarrow> address option \<Rightarrow> int \<Rightarrow> int \<Rightarrow> string + token_transfer list" where
  "inbound_transfers c max_range a = history_query c max_range [[transfer_topic0], [], [address_to_topic a]]"

definition outbound_transfers :: "log_client \<Rightarrow> int \<Rightarrow> address \<Rightarrow> address option \<Rightarrow> int \<Rightarrow> int \<Rightarrow> string + token_transfer list" where
  "outbound_transfers c max_range a = history_query c max_range [[transfer_topic0], [address_to_topic a]]"

fun dedup_transfers :: "(int \<times> int) set \<Rightarrow> token_transfer list \<Rightarrow> token_transfer list" where
  "dedup_transfers seen [] = []"
| "dedup_transfers seen (t # ts) =
     (let k = (tt_block t, tt_index t)
      in if k \<in> seen then dedup_transfers seen ts else t # dedup_transfers (insert k seen) ts)"

definition token_activity :: "log_client \<Rightarrow> int \<Rightarrow> address \<Rightarrow> address option \<Rightarrow> int \<Rightarrow> int \<Rightarrow> string + token_transfer list" where
  "token_activity c max_range a token f t =
     (case (inbound_transfers c max_range a token f t, outbound_transfers c max_range a token f t) of
        (Inl e, _) \<Rightarrow> Inl e
      | (_, Inl e) \<Rightarrow> Inl e
      | (Inr i, Inr out) \<Rightarrow> Inr (by_order (dedup_transfers {} (i @ out))))"

definition first_erc20_funder :: "log_client \<Rightarrow> int \<Rightarrow> address \<Rightarrow> int \<Rightarrow> int \<Rightarrow> string + address option" where
  "first_erc20_funder c max_range a f t =
     map_sum id (\<lambda>ts. map_option tt_from (List.find (\<lambda>x. tt_from x \<noteq> zero_address) ts)) (inbound_transfers c max_range a None f t)"


section \<open>Tools and evidence\<close>

text \<open>A call of a tool with its validated input; a block given as a text is the number it denotes.\<close>

datatype tool_call =
    AddressTokenActivity address "address option" nat nat
  | TokenTransfers address nat nat
  | ClusterExpand address
  | PriceSeries string nat nat
  | HolderSnapshot address nat
  | ContractCode address "nat option"
  | ScanhoodScan address
  | ScanhoodQuote address real

fun tool_name :: "tool_call \<Rightarrow> string" where
  "tool_name (AddressTokenActivity a tk f t) = ''address_token_activity''"
| "tool_name (TokenTransfers tk f t) = ''token_transfers''"
| "tool_name (ClusterExpand a) = ''cluster_expand''"
| "tool_name (PriceSeries p f t) = ''price_series''"
| "tool_name (HolderSnapshot tk b) = ''holder_snapshot''"
| "tool_name (ContractCode a b) = ''contract_code''"
| "tool_name (ScanhoodScan tk) = ''scanhood_scan''"
| "tool_name (ScanhoodQuote tk s) = ''scanhood_quote''"

record scanhood_quote =
  sq_amount_in :: "string option"
  sq_amount_out :: "string option"
  sq_venue :: "string option"
  sq_error :: "string option"

datatype tool_value =
    TransfersValue nat "token_transfer list" bool
  | ClusterValue address "cluster_member list"
  | SeriesValue "price_point list" nat coverage
  | HolderValue holder_stats
  | CodeValue contract_code
  | ScanValue scanhood_mapped
  | QuoteValue scanhood_quote

record evidence_row =
  er_call :: tool_call
  er_value :: tool_value
  er_source :: string
  er_block :: "int option"

record limitation =
  lm_call :: tool_call
  lm_reason :: string

record tool_output =
  to_ok :: bool
  to_evidence :: "evidence_row list"
  to_limitations :: "limitation list"

definition ok_output :: "tool_call \<Rightarrow> string \<Rightarrow> int option \<Rightarrow> tool_value \<Rightarrow> tool_output" where
  "ok_output call src block v =
     \<lparr>to_ok = True, to_evidence = [\<lparr>er_call = call, er_value = v, er_source = src, er_block = block\<rparr>], to_limitations = []\<rparr>"

definition limited_output :: "tool_call \<Rightarrow> string \<Rightarrow> tool_output" where
  "limited_output call reason = \<lparr>to_ok = False, to_evidence = [], to_limitations = [\<lparr>lm_call = call, lm_reason = reason\<rparr>]\<rparr>"

record deepdive_context =
  dc_activity :: "address \<Rightarrow> address option \<Rightarrow> int \<Rightarrow> int \<Rightarrow> string + token_transfer list"
  dc_transfers :: "address \<Rightarrow> int \<Rightarrow> int \<Rightarrow> string + token_transfer list"
  dc_cluster :: "address \<Rightarrow> string + cluster_result"
  dc_prices :: "string \<Rightarrow> int \<Rightarrow> int \<Rightarrow> string + price_point list \<times> coverage"
  dc_holders :: "address \<Rightarrow> int \<Rightarrow> holder_stats"
  dc_code :: "address \<Rightarrow> int option \<Rightarrow> string + contract_code"
  dc_scan :: "address \<Rightarrow> scanhood_mapped option"
  dc_quote :: "address \<Rightarrow> real \<Rightarrow> scanhood_quote option"

definition max_rows :: nat where "max_rows = 200"

definition transfers_value :: "token_transfer list \<Rightarrow> tool_value" where
  "transfers_value ts = TransfersValue (length ts) (take max_rows ts) (length ts > max_rows)"

text \<open>\<open>produce\<close> of the tool; \<open>guard\<close> turns what it throws into a limitation.\<close>

fun produce :: "deepdive_context \<Rightarrow> tool_call \<Rightarrow> string + tool_output" where
  "produce c (AddressTokenActivity a tk f t) =
     map_sum id (\<lambda>ts. ok_output (AddressTokenActivity a tk f t) ''rpc-logs'' (Some (int t)) (transfers_value ts)) (dc_activity c a tk (int f) (int t))"
| "produce c (TokenTransfers tk f t) =
     map_sum id (\<lambda>ts. ok_output (TokenTransfers tk f t) ''rpc-logs'' (Some (int t)) (transfers_value ts)) (dc_transfers c tk (int f) (int t))"
| "produce c (ClusterExpand a) =
     map_sum id (\<lambda>k. ok_output (ClusterExpand a) ''rpc-logs'' None (ClusterValue (lower a) (cu_members k))) (dc_cluster c a)"
| "produce c (PriceSeries p f t) =
     map_sum id (\<lambda>(ps, cv). ok_output (PriceSeries p f t) ''rpc-logs'' (Some (int t)) (SeriesValue (take max_rows ps) (length ps) cv))
       (dc_prices c p (int f) (int t))"
| "produce c (HolderSnapshot tk b) = Inr (ok_output (HolderSnapshot tk b) ''rpc-logs'' (Some (int b)) (HolderValue (dc_holders c tk (int b))))"
| "produce c (ContractCode a b) =
     map_sum id (\<lambda>k. ok_output (ContractCode a b) ''rpc'' (kd_block k) (CodeValue k)) (dc_code c a (map_option int b))"
| "produce c (ScanhoodScan tk) =
     Inr (case dc_scan c tk of
            None \<Rightarrow> limited_output (ScanhoodScan tk) ''ScanHood returned no data for this token''
          | Some s \<Rightarrow> ok_output (ScanhoodScan tk) ''scanhood'' None (ScanValue s))"
| "produce c (ScanhoodQuote tk s) =
     Inr (case dc_quote c tk s of
            None \<Rightarrow> limited_output (ScanhoodQuote tk s) ''ScanHood returned no quote''
          | Some q \<Rightarrow> ok_output (ScanhoodQuote tk s) ''scanhood'' None (QuoteValue q))"

definition guard :: "deepdive_context \<Rightarrow> tool_call \<Rightarrow> tool_output" where
  "guard c call = (case produce c call of Inr out \<Rightarrow> out | Inl e \<Rightarrow> limited_output call e)"


section \<open>Binding the tools to a launch\<close>

text \<open>
  \<open>bc_members\<close> are the stored cluster members of the launch, \<open>bc_supply_at\<close> the supply of a token
  at a block, \<open>bc_scan\<close> and \<open>bc_quote\<close> the scanner's answers where \<open>ok\<close>.
\<close>

record bound_clients =
  bc_client :: log_client
  bc_abi :: trade_abi
  bc_code :: code_client
  bc_keccak :: "string \<Rightarrow> string"
  bc_max_range :: int
  bc_supply_at :: "address \<Rightarrow> int \<Rightarrow> string + int"
  bc_members :: "address list"
  bc_scan :: "address \<Rightarrow> scanhood_mapped option"
  bc_quote :: "address \<Rightarrow> real \<Rightarrow> scanhood_quote option"

text \<open>The transfers of the launch's token: a missing topic reads as the zero address.\<close>

fun context_transfers :: "address \<Rightarrow> rpc_log list \<Rightarrow> string + token_transfer list" where
  "context_transfers token [] = Inr []"
| "context_transfers token (l # ls) =
     (case (transfer_value (l_data l), l_block l) of
        (Some v, Some b) \<Rightarrow>
          map_sum id (\<lambda>ts. \<lparr>tt_token = token,
              tt_from = topic_to_address (if 1 < length (l_topics l) then l_topics l ! 1 else zero_address),
              tt_to = topic_to_address (if 2 < length (l_topics l) then l_topics l ! 2 else zero_address),
              tt_value = v, tt_block = b, tt_index = nullish (l_index l) 0, tt_tx = l_tx l\<rparr> # ts) (context_transfers token ls)
      | _ \<Rightarrow> Inl ''BigInt'')"

definition context_source :: "watch_config \<Rightarrow> deep_launch \<Rightarrow> address" where
  "context_source cfg l = nullish (dl_pool_address l) (cc_v4_pool_manager cfg)"

definition context_pool :: "watch_config \<Rightarrow> deep_launch \<Rightarrow> string \<Rightarrow> pool_ref" where
  "context_pool cfg l pool_id =
     (let quote = lower (nullish (dl_quote l) []) in
      \<lparr>pl_kind = nullish (dl_kind l) V4, pl_manager = cc_v4_pool_manager cfg, pl_address = dl_pool_address l, pl_id = Some pool_id,
       pl_token0 = (if quote = [] then True else lower (dl_token l) < quote)\<rparr>)"

definition build_deepdive_context :: "watch_config \<Rightarrow> bound_clients \<Rightarrow> deep_launch \<Rightarrow> deepdive_context" where
  "build_deepdive_context cfg b l =
     (let c = bc_client b; r = bc_max_range b; src = context_source cfg l in
      \<lparr>dc_activity = token_activity c r,
       dc_transfers = (\<lambda>tk f t. case get_logs_chunked (lc_logs c 0 tk [[transfer_topic0]]) f t r of
           Inl e \<Rightarrow> Inl e | Inr logs \<Rightarrow> map_sum id by_order (context_transfers (lower (dl_token l)) logs)),
       dc_cluster = (\<lambda>a. build_creator_cluster c unavailable_first_inbound (dl_token l) a src (dl_block l)
           (js_round (10 * 60 / wc_block_seconds cfg)) r),
       dc_prices = (\<lambda>p f t. build_price_series c (bc_abi b) (context_pool cfg l p) f t r),
       dc_holders = (\<lambda>tk n. compute_holder_stats c (bc_supply_at b tk) tk (dl_block l) n r (dl_creator l)
           (set (map lower (bc_members b))) src),
       dc_code = resolve_contract_code (bc_keccak b) (bc_code b),
       dc_scan = bc_scan b, dc_quote = bc_quote b\<rparr>)"

end
