(* ===== verification/Deepdive.thy ===== *)
theory Deepdive
  imports DeepdiveTools Reports Budget
begin

text \<open>
  One \<open>llm_deepdive_v0\<close> report (\<open>apps/worker/src/deepdive\<close>): prices and token estimates
  (\<open>pricing.ts\<close>), the model's structured output (\<open>schema.ts\<close>), the agent loop (\<open>agent.ts\<close>), the
  signed draft (\<open>report.ts\<close>), the recorded cost (\<open>cost.ts\<close>, \<open>openrouter.ts\<close>), the budget, the
  run, the sweep over the qualified lane and the on-demand job (\<open>run.ts\<close>).  The model's run,
  \<open>JSON.parse\<close> with the output schema, the gateway and the node are parameters.
\<close>


section \<open>Prices\<close>

definition pricing_version :: string where "pricing_version = ''openrouter-2026-09-11''"

record model_price =
  mp_in :: real
  mp_out :: real

definition model_prices :: "(string \<times> model_price) list" where
  "model_prices =
     [(''sakana/fugu-max'', \<lparr>mp_in = 2, mp_out = 6\<rparr>),
      (''deepseek/deepseek-v4.1-flash'', \<lparr>mp_in = 15 / 100, mp_out = 6 / 10\<rparr>),
      (''inception/mercury-2.5'', \<lparr>mp_in = 4 / 100, mp_out = 15 / 100\<rparr>)]"

definition price_of :: "string \<Rightarrow> model_price option" where
  "price_of slug = map_of model_prices slug"

definition is_count :: "real option \<Rightarrow> bool" where
  "is_count n = (case n of None \<Rightarrow> False | Some x \<Rightarrow> x \<ge> 0)"

definition estimate_cost_usd :: "string \<Rightarrow> real option \<Rightarrow> real option \<Rightarrow> real option" where
  "estimate_cost_usd slug prompt completion =
     (case price_of slug of
        None \<Rightarrow> None
      | Some p \<Rightarrow>
          if \<not> is_count prompt \<or> \<not> is_count completion then None
          else Some (round_dp 6 ((the prompt * mp_in p + the completion * mp_out p) / 1000000)))"

text \<open>\<open>\bauto\b\<close>: an occurrence with no word character on either side.\<close>

definition word_char :: "char \<Rightarrow> bool" where
  "word_char c \<longleftrightarrow> c \<in> set ''abcdefghijklmnopqrstuvwxyz0123456789_''"

fun has_auto :: "bool \<Rightarrow> string \<Rightarrow> bool" where
  "has_auto after_word [] = False"
| "has_auto after_word (c # cs) =
     (\<not> after_word \<and> starts_with ''auto'' (c # cs) \<and> (length (c # cs) = 4 \<or> \<not> word_char ((c # cs) ! 4)) \<or>
      has_auto (word_char c) cs)"

definition scored_model_slug :: "string \<Rightarrow> bool" where
  "scored_model_slug slug \<longleftrightarrow> slug \<noteq> [] \<and>
     \<not> (let s = lower slug in contains ''~latest'' s \<or> contains '':latest'' s \<or> contains ''openrouter/auto'' s \<or> has_auto False s)"


section \<open>The structured output\<close>

definition claim_max :: nat where "claim_max = 600"
definition ref_max :: nat where "ref_max = 400"
definition evidence_max :: nat where "evidence_max = 40"

record deep_output =
  do_insider :: real
  do_drawdown :: real
  do_sell :: real
  do_evidence :: "(string \<times> string option) list"
  do_confidence :: real

definition clamp_one :: "real \<Rightarrow> real" where "clamp_one n = min 1 (max 0 n)"

definition fix_value :: "string \<Rightarrow> real \<Rightarrow> run_warning list" where
  "fix_value label n = (if clamp_one n \<noteq> n then [ClampedValue label n (clamp_one n)] else [])"

definition trim_evidence :: "string \<times> string option \<Rightarrow> string \<times> string option" where
  "trim_evidence e = (take claim_max (fst e), map_option (take ref_max) (snd e))"

definition clamp_output :: "deep_output \<Rightarrow> deep_output \<times> run_warning list" where
  "clamp_output raw =
     (let ev = map trim_evidence (do_evidence raw)
      in (\<lparr>do_insider = clamp_one (do_insider raw), do_drawdown = clamp_one (do_drawdown raw), do_sell = clamp_one (do_sell raw),
           do_evidence = take evidence_max ev, do_confidence = clamp_one (do_confidence raw)\<rparr>,
          (if length ev > evidence_max then [EvidenceTruncated (length ev) evidence_max] else []) @
          fix_value ''p_insider_exit_24h'' (do_insider raw) @ fix_value ''p_drawdown_80_7d'' (do_drawdown raw) @
          fix_value ''p_sell_impaired_24h'' (do_sell raw) @ fix_value ''confidence'' (do_confidence raw)))"

datatype stopped_by = StoppedComplete | StoppedSteps | StoppedCost | StoppedError

record deep_result =
  rs_output :: deep_output
  rs_evidence :: "evidence_row list"
  rs_limitations :: "limitation list"
  rs_warnings :: "run_warning list"
  rs_model :: string
  rs_packet :: target_packet
  rs_generations :: "string list"
  rs_usage_cost :: "real option"
  rs_prompt_tokens :: "real option"
  rs_completion_tokens :: "real option"
  rs_steps :: nat
  rs_stopped :: stopped_by


section \<open>The agent loop\<close>

text \<open>
  A run of the model: the generation id of every turn, the tool calls it made in order, its
  final text and its usage object (finite numbers by key), or their errors.
\<close>

record agent_run =
  ag_turns :: "string option list"
  ag_calls :: "tool_call list"
  ag_text :: "string + string"
  ag_usage :: "string + (string \<Rightarrow> real option)"

definition empty_output :: deep_output where
  "empty_output = \<lparr>do_insider = 0, do_drawdown = 0, do_sell = 0, do_evidence = [(''model run did not complete'', None)], do_confidence = 0\<rparr>"

definition cost_keys :: "string list" where "cost_keys = [''costUsd'', ''totalCost'', ''total_cost'', ''cost'']"
definition prompt_keys :: "string list" where
  "prompt_keys = [''promptTokens'', ''prompt_tokens'', ''inputTokens'', ''input_tokens'']"
definition completion_keys :: "string list" where
  "completion_keys = [''completionTokens'', ''completion_tokens'', ''outputTokens'', ''output_tokens'']"

definition pick_num :: "(string \<Rightarrow> real option) \<Rightarrow> string list \<Rightarrow> real option" where
  "pick_num usage keys = coalesce (map usage keys)"

definition run_deepdive_agent ::
    "deepdive_context \<Rightarrow> (string \<Rightarrow> deep_output option) \<Rightarrow> (target_packet \<Rightarrow> nat \<Rightarrow> real \<Rightarrow> string + agent_run) \<Rightarrow>
     string \<Rightarrow> target_packet \<Rightarrow> nat \<Rightarrow> real \<Rightarrow> string + deep_result" where
  "run_deepdive_agent ctx parse invoke model packet max_steps max_cost =
     (case invoke packet max_steps max_cost of
        Inl e \<Rightarrow> Inl e
      | Inr run \<Rightarrow>
          (let outs = map (guard ctx) (ag_calls run); steps = length (ag_turns run);
               usage = (case ag_usage run of Inl e \<Rightarrow> (\<lambda>k. None) | Inr u \<Rightarrow> u);
               cost = pick_num usage cost_keys;
               base = \<lparr>rs_output = empty_output, rs_evidence = concat (map to_evidence outs),
                 rs_limitations = concat (map to_limitations outs), rs_warnings = [], rs_model = model, rs_packet = packet,
                 rs_generations = filter (\<lambda>g. g \<noteq> []) (List.map_filter id (ag_turns run)),
                 rs_usage_cost = None, rs_prompt_tokens = None, rs_completion_tokens = None, rs_steps = steps, rs_stopped = StoppedError\<rparr>
           in case ag_text run of
                Inl e \<Rightarrow> Inr (base\<lparr>rs_warnings := [RunFailed e]\<rparr>)
              | Inr text \<Rightarrow>
                  (case parse text of
                     None \<Rightarrow> Inl ''deep-dive output failed validation''
                   | Some raw \<Rightarrow>
                       (case clamp_output raw of
                          (out, warnings) \<Rightarrow>
                            Inr (base\<lparr>rs_output := out, rs_warnings := warnings, rs_usage_cost := cost,
                              rs_prompt_tokens := pick_num usage prompt_keys, rs_completion_tokens := pick_num usage completion_keys,
                              rs_stopped := (if cost \<noteq> None \<and> the cost \<ge> max_cost then StoppedCost
                                             else if steps \<ge> max_steps then StoppedSteps else StoppedComplete)\<rparr>)))))"


section \<open>The signed draft\<close>

definition deepdive_forecaster :: string where "deepdive_forecaster = ''llm_deepdive_v0''"

definition deepdive_content :: "deep_launch \<Rightarrow> string \<Rightarrow> target_packet \<Rightarrow> deep_result \<Rightarrow> report_content" where
  "deepdive_content l trig packet result =
     (let ou = rs_output result in
      \<lparr>ct_chain = dl_chain l, ct_token = dl_token l, ct_launch = Some (dl_id l), ct_time = Some (tp_time packet), ct_trigger = trig,
       ct_pin = \<lparr>bp_number = tp_number packet, bp_hash = tp_hash packet, bp_time = Some (tp_time packet)\<rparr>,
       ct_forecaster = deepdive_forecaster, ct_version = rs_model result, ct_rule = ''v1'',
       ct_probabilities = [((InsiderExit, H24), do_insider ou), ((Drawdown80, D7), do_drawdown ou), ((SellImpaired, H24), do_sell ou)],
       ct_coverage = map (\<lambda>x. ReadLimited (tool_name (lm_call x)) (lm_reason x)) (rs_limitations result) @
         (if tp_chain_matches packet then [] else [RpcChainMismatch (tp_rpc_chain packet) (tp_chain packet)]) @
         map RunWarning (rs_warnings result),
       ct_confidence = Some (do_confidence ou), ct_evidence = Some (do_evidence ou)\<rparr>)"

definition revalidated :: "crypto \<Rightarrow> deep_launch \<Rightarrow> address \<Rightarrow> draft \<Rightarrow> draft" where
  "revalidated cr l agent d =
     (let fails = validate_report cr (dl_chain l) (dl_token l) agent d in d\<lparr>dr_passed := (fails = []), dr_failures := length fails\<rparr>)"

definition assemble_deepdive_report :: "crypto \<Rightarrow> string option \<Rightarrow> deep_launch \<Rightarrow> string \<Rightarrow> target_packet \<Rightarrow> deep_result \<Rightarrow> draft" where
  "assemble_deepdive_report cr key l trig packet result =
     (let content = deepdive_content l trig packet result; json = sc_canonical cr content
      in revalidated cr l (case key of None \<Rightarrow> zero_address | Some k \<Rightarrow> sc_address cr k)
           \<lparr>dr_content = content, dr_json = json, dr_hash = report_hash cr json, dr_signature = None, dr_signer = None,
            dr_passed = False, dr_failures = 0\<rparr>)"

definition assemble_deepdive_report_signed :: "crypto \<Rightarrow> string option \<Rightarrow> deep_launch \<Rightarrow> string \<Rightarrow> target_packet \<Rightarrow> deep_result \<Rightarrow> draft" where
  "assemble_deepdive_report_signed cr key l trig packet result =
     (let d = assemble_deepdive_report cr key l trig packet result in
      case key of
        None \<Rightarrow> d
      | Some k \<Rightarrow>
          (case sign_report_commitment cr k \<lparr>cm_hash = dr_hash d, cm_chain = dl_chain l, cm_token = dl_token l,
               cm_time = tp_time packet div 1000, cm_forecaster = deepdive_forecaster\<rparr> of
             (s, a) \<Rightarrow> revalidated cr l (sc_address cr k) (d\<lparr>dr_signature := Some s, dr_signer := Some a\<rparr>)))"


section \<open>Recording the cost\<close>

text \<open>The answer of \<open>GET /generation\<close>: the status and two of its numbers.\<close>

record gen_response =
  gr_ok :: bool
  gr_total_cost :: "real option"
  gr_usage :: "real option"

definition generation_cost :: "string + gen_response \<Rightarrow> string + real" where
  "generation_cost r =
     (case r of
        Inl e \<Rightarrow> Inl e
      | Inr g \<Rightarrow> if \<not> gr_ok g then Inl ''generation lookup: HTTP error'' else Inr (nullish (coalesce [gr_total_cost g, gr_usage g]) 0))"

text \<open>The sum of the lookups that succeeded, the ids that failed and the first reason.\<close>

fun generation_total :: "(string \<Rightarrow> string + gen_response) \<Rightarrow> string list \<Rightarrow> real \<Rightarrow> string list \<Rightarrow> string option \<Rightarrow>
    real \<times> string list \<times> string option" where
  "generation_total lookup [] total_usd failed reason = (total_usd, failed, reason)"
| "generation_total lookup (g # gs) total_usd failed reason =
     (case generation_cost (lookup g) of
        Inr c \<Rightarrow> generation_total lookup gs (total_usd + c) failed reason
      | Inl e \<Rightarrow> generation_total lookup gs total_usd (failed @ [g]) (Some (nullish reason e)))"

record spend_result =
  sp_total :: real
  sp_basis :: cost_basis
  sp_estimate :: "real option"
  sp_row :: nat
  sp_deduped :: bool
  sp_failed :: "string list"
  sp_reason :: "string option"

definition cost_with_basis :: "(string \<Rightarrow> string + gen_response) \<Rightarrow> deep_result \<Rightarrow> real option \<Rightarrow> (real \<times> cost_basis) \<times> string list \<times> string option" where
  "cost_with_basis lookup r estimate =
     (case rs_usage_cost r of
        Some c \<Rightarrow> ((c, ProviderReported), [], None)
      | None \<Rightarrow>
          (case generation_total lookup (rs_generations r) 0 [] None of
             (s, failed, reason) \<Rightarrow>
               (if rs_generations r \<noteq> [] \<and> failed = [] then (s, ProviderGeneration)
                else case estimate of Some e \<Rightarrow> (e, TokenEstimate) | None \<Rightarrow> (0, BasisUnavailable), failed, reason)))"

definition record_deepdive_spend ::
    "millis \<Rightarrow> (string \<Rightarrow> string + gen_response) \<Rightarrow> string option \<Rightarrow> string option \<Rightarrow> deep_result \<Rightarrow> ledger \<Rightarrow>
     (string + spend_result) \<times> ledger" where
  "record_deepdive_spend now lookup key_prefix report_id r rows =
     (let estimate = estimate_cost_usd (rs_model r) (rs_prompt_tokens r) (rs_completion_tokens r) in
      case cost_with_basis lookup r estimate of
        ((cost, basis), failed, reason) \<Rightarrow>
          (case record_spend now
             \<lparr>se_cost = Some cost, se_model = rs_model r, se_key_hash = key_prefix, se_report = report_id,
              se_generation = (case rs_generations r of [] \<Rightarrow> None | g # gs \<Rightarrow> Some g), se_prompt_tokens = rs_prompt_tokens r,
              se_completion_tokens = rs_completion_tokens r, se_estimate = estimate,
              se_pricing = (if estimate \<noteq> None then Some pricing_version else None), se_basis = Some basis\<rparr> rows of
             (Inl e, rows') \<Rightarrow> (Inl e, rows')
           | (Inr (i, dup), rows') \<Rightarrow>
               (Inr \<lparr>sp_total = round_dp 6 cost, sp_basis = basis, sp_estimate = estimate, sp_row = i, sp_deduped = dup,
                     sp_failed = failed, sp_reason = reason\<rparr>, rows')))"


section \<open>The budget\<close>

record deep_env =
  dv_model :: string
  dv_cap_run :: real
  dv_cap_day :: real
  dv_reserve :: real
  dv_poll_sec :: real
  dv_max_steps :: nat
  dv_agent_key :: "string option"
  dv_key_prefix :: "string option"
  dv_crypto :: crypto

record life_snapshot =
  sn_balance :: "real option"
  sn_billing :: "billing_status option"
  sn_at :: millis

record deep_budget =
  bu_today :: real
  bu_provider :: real
  bu_spendable :: real
  bu_billing :: "billing_status option"
  bu_cap :: real
  bu_trailing :: "real option"
  bu_binding :: binding_constraint

definition start_of_utc_day :: "millis \<Rightarrow> millis" where
  "start_of_utc_day t = t div 86400000 * 86400000"

text \<open>\<open>credit\<close> is \<open>None\<close> when the CREDIT address or the wallet is not configured, else the chain read.\<close>

definition dynamic_daily_cap :: "deep_env \<Rightarrow> (string + real) option \<Rightarrow> real \<Rightarrow> real \<times> real option \<times> binding_constraint" where
  "dynamic_daily_cap env credit spendable =
     (case credit of
        Some (Inr trailing) \<Rightarrow>
          (let b = daily_deepdive_budget \<lparr>bi_daily_cap = dv_cap_day env, bi_trailing_credits = trailing,
                 bi_key_remaining = spendable + dv_reserve env, bi_reserve = dv_reserve env\<rparr>
           in (bb_budget b, Some trailing, bb_binding b))
      | _ \<Rightarrow> (dv_cap_day env, None, DailyCap))"

text \<open>\<open>findFirst\<close> by descending \<open>createdAt\<close> among the rows with a balance.\<close>

definition latest_snapshot :: "life_snapshot list \<Rightarrow> life_snapshot option" where
  "latest_snapshot rows = (case sort_key (\<lambda>s. - sn_at s) (filter (\<lambda>s. sn_balance s \<noteq> None) rows) of [] \<Rightarrow> None | s # ss \<Rightarrow> Some s)"

definition load_budget ::
    "deep_env \<Rightarrow> millis \<Rightarrow> ledger \<Rightarrow> (millis \<times> real) list \<Rightarrow> life_snapshot list \<Rightarrow> (string + real) option \<Rightarrow> deep_budget" where
  "load_budget env now rows epochs snapshots credit =
     (let day = start_of_utc_day now; snap = latest_snapshot snapshots;
          spendable = (case snap of None \<Rightarrow> dv_cap_day env | Some s \<Rightarrow> the (sn_balance s) - dv_reserve env);
          stale = of_int (now - (case snap of None \<Rightarrow> 0 | Some s \<Rightarrow> sn_at s)) > dv_poll_sec env * 1000 * 3;
          dyn = dynamic_daily_cap env credit spendable
      in \<lparr>bu_today = total_spend (Some day) None rows, bu_provider = sum_list (map snd (filter (\<lambda>(t, d). day \<le> t) epochs)),
          bu_spendable = spendable,
          bu_billing = (if stale then Some Stale else case snap of None \<Rightarrow> None | Some s \<Rightarrow> sn_billing s),
          bu_cap = fst dyn, bu_trailing = fst (snd dyn), bu_binding = snd (snd dyn)\<rparr>)"


section \<open>A run\<close>

text \<open>What a run reads from outside: clock, tables of the runner, node, gateway.\<close>

record deep_io =
  io_now :: millis
  io_epochs :: "(millis \<times> real) list"
  io_snapshots :: "life_snapshot list"
  io_credit :: "(string + real) option"
  io_packet :: packet_client
  io_context :: "deep_launch \<Rightarrow> deepdive_context"
  io_invoke :: "target_packet \<Rightarrow> nat \<Rightarrow> real \<Rightarrow> string + agent_run"
  io_parse :: "string \<Rightarrow> deep_output option"
  io_lookup :: "string \<Rightarrow> string + gen_response"
  io_launch_of :: "string \<Rightarrow> launch_info option"

record deep_state =
  dt_launches :: "deep_launch list"
  dt_persist :: persist_state
  dt_ledger :: ledger

datatype skip_reason = UnpinnedModel | LaunchNotFound | AlreadyScored | BudgetClosed gate_reason | ModelRunFailed "run_warning list"

datatype run_answer = Skipped skip_reason | Ran hex bool nat deep_output real stopped_by

record run_input =
  ri_launch :: string
  ri_trigger :: string
  ri_block :: "int option"
  ri_force :: bool

definition find_deep_launch :: "string \<Rightarrow> deep_state \<Rightarrow> deep_launch option" where
  "find_deep_launch i st = List.find (\<lambda>l. dl_id l = i) (dt_launches st)"

definition deepdive_report_of :: "string \<Rightarrow> report_row \<Rightarrow> bool" where
  "deepdive_report_of i r \<longleftrightarrow> ct_launch (rr_content r) = Some i \<and> ct_forecaster (rr_content r) = deepdive_forecaster"

definition scored_by_deepdive :: "string \<Rightarrow> deep_state \<Rightarrow> bool" where
  "scored_by_deepdive i st = list_ex (deepdive_report_of i) (ps_reports (dt_persist st))"

definition run_gate_of :: "deep_env \<Rightarrow> deep_io \<Rightarrow> deep_state \<Rightarrow> run_gate" where
  "run_gate_of env io st =
     (let b = load_budget env (io_now io) (dt_ledger st) (io_epochs io) (io_snapshots io) (io_credit io)
      in deepdive_run_gate \<lparr>gi_cap_per_run = dv_cap_run env, gi_daily_cap = bu_cap b, gi_today_spend = bu_today b,
           gi_provider_today = Some (bu_provider b), gi_spendable = bu_spendable b, gi_billing = bu_billing b\<rparr>)"

text \<open>The part after the agent returned: draft, persistence, spend row.  A report's id is its hash.\<close>

definition store_run ::
    "deep_env \<Rightarrow> deep_io \<Rightarrow> deep_launch \<Rightarrow> string \<Rightarrow> target_packet \<Rightarrow> deep_result \<Rightarrow> deep_state \<Rightarrow> (string + run_answer) \<times> deep_state" where
  "store_run env io l trig packet result st =
     (let d = assemble_deepdive_report_signed (dv_crypto env) (dv_agent_key env) l trig packet result;
          ps = fst (persist_launch_reports (io_launch_of io) [d] (dt_persist st));
          rid = (if list_ex (\<lambda>r. rr_hash r = dr_hash d) (ps_reports ps) then Some (dr_hash d) else None);
          st1 = st\<lparr>dt_persist := ps\<rparr>
      in case record_deepdive_spend (io_now io) (io_lookup io) (dv_key_prefix env) rid result (dt_ledger st) of
           (Inl e, rows) \<Rightarrow> (Inl e, st1\<lparr>dt_ledger := rows\<rparr>)
         | (Inr s, rows) \<Rightarrow>
             (Inr (Ran (dr_hash d) (dr_passed d) (dr_failures d) (rs_output result) (sp_total s) (rs_stopped result)), st1\<lparr>dt_ledger := rows\<rparr>))"

definition run_deepdive :: "(string \<Rightarrow> string) \<Rightarrow> deep_env \<Rightarrow> deep_io \<Rightarrow> run_input \<Rightarrow> deep_state \<Rightarrow> (string + run_answer) \<times> deep_state" where
  "run_deepdive keccak env io i st =
     (if \<not> scored_model_slug (dv_model env) then (Inr (Skipped UnpinnedModel), st)
      else case find_deep_launch (ri_launch i) st of
        None \<Rightarrow> (Inr (Skipped LaunchNotFound), st)
      | Some l \<Rightarrow>
          if \<not> ri_force i \<and> scored_by_deepdive (dl_id l) st then (Inr (Skipped AlreadyScored), st)
          else
            (let gate = run_gate_of env io st in
             if \<not> rg_allowed gate then (Inr (Skipped (BudgetClosed (rg_reason gate))), st)
             else case build_target_packet keccak (io_packet io) (target_from_launch l) (ri_block i) of
               Inl e \<Rightarrow> (Inl e, st)
             | Inr packet \<Rightarrow>
                 (case run_deepdive_agent (io_context io l) (io_parse io) (io_invoke io) (dv_model env) packet (dv_max_steps env)
                     (min (rg_max_run_cost gate) (dv_cap_run env)) of
                    Inl e \<Rightarrow> (Inl e, st)
                  | Inr result \<Rightarrow>
                      if rs_stopped result = StoppedError then (Inr (Skipped (ModelRunFailed (rs_warnings result))), st)
                      else store_run env io l (ri_trigger i) packet result st)))"


section \<open>The sweep and the job\<close>

record sweep_counts =
  sw_eligible :: nat
  sw_ran :: nat
  sw_skipped :: nat
  sw_failed :: nat

definition deepdive_eligible :: "deep_state \<Rightarrow> deep_launch \<Rightarrow> bool" where
  "deepdive_eligible st l \<longleftrightarrow> dl_qualified l \<and> \<not> dl_retrospective l \<and> \<not> dl_over_quota l \<and> dl_has_feature l \<and> \<not> scored_by_deepdive (dl_id l) st"

definition eligible_batch :: "nat \<Rightarrow> deep_state \<Rightarrow> deep_launch list" where
  "eligible_batch limit st = take limit (sort_key dl_created (filter (deepdive_eligible st) (dt_launches st)))"

definition sweep_input :: "deep_launch \<Rightarrow> run_input" where
  "sweep_input l = \<lparr>ri_launch = dl_id l, ri_trigger = ''qualified'', ri_block = None, ri_force = False\<rparr>"

text \<open>The \<open>for\<close> loop, which a closed budget ends.  \<open>io\<close> gives what the run of a launch reads.\<close>

fun sweep_launches :: "(string \<Rightarrow> string) \<Rightarrow> deep_env \<Rightarrow> (string \<Rightarrow> deep_io) \<Rightarrow> deep_launch list \<Rightarrow> sweep_counts \<Rightarrow> deep_state \<Rightarrow>
    sweep_counts \<times> deep_state" where
  "sweep_launches keccak env io [] n st = (n, st)"
| "sweep_launches keccak env io (l # ls) n st =
     (case run_deepdive keccak env (io (dl_id l)) (sweep_input l) st of
        (Inl e, st') \<Rightarrow> sweep_launches keccak env io ls (n\<lparr>sw_failed := sw_failed n + 1\<rparr>) st'
      | (Inr (Skipped (BudgetClosed g)), st') \<Rightarrow> (n\<lparr>sw_skipped := sw_skipped n + 1\<rparr>, st')
      | (Inr (Skipped r), st') \<Rightarrow> sweep_launches keccak env io ls (n\<lparr>sw_skipped := sw_skipped n + 1\<rparr>) st'
      | (Inr r, st') \<Rightarrow> sweep_launches keccak env io ls (n\<lparr>sw_ran := sw_ran n + 1\<rparr>) st')"

definition sweep_deepdive :: "(string \<Rightarrow> string) \<Rightarrow> deep_env \<Rightarrow> (string \<Rightarrow> deep_io) \<Rightarrow> nat \<Rightarrow> deep_state \<Rightarrow> sweep_counts \<times> deep_state" where
  "sweep_deepdive keccak env io limit st =
     (let batch = eligible_batch limit st
      in sweep_launches keccak env io batch \<lparr>sw_eligible = length batch, sw_ran = 0, sw_skipped = 0, sw_failed = 0\<rparr> st)"

record deep_job =
  jb_token :: "address option"
  jb_launch :: "string option"
  jb_trigger :: "string option"

text \<open>An empty id or token is a missing one; \<open>findFirst\<close> by token.  \<open>None\<close>: no launch for the token.\<close>

definition job_launch :: "deep_job \<Rightarrow> deep_state \<Rightarrow> string option" where
  "job_launch j st =
     (case clear_empty (jb_launch j) of
        Some i \<Rightarrow> Some i
      | None \<Rightarrow> (case clear_empty (jb_token j) of
          None \<Rightarrow> None
        | Some tk \<Rightarrow> clear_empty (map_option dl_id (List.find (\<lambda>l. dl_token l = lower tk) (dt_launches st)))))"

definition run_deepdive_job :: "(string \<Rightarrow> string) \<Rightarrow> deep_env \<Rightarrow> deep_io \<Rightarrow> deep_job \<Rightarrow> deep_state \<Rightarrow> (string + run_answer) option \<times> deep_state" where
  "run_deepdive_job keccak env io j st =
     (case job_launch j st of
        None \<Rightarrow> (None, st)
      | Some i \<Rightarrow>
          (let trig = nullish (jb_trigger j) ''on_demand''
           in map_prod Some id (run_deepdive keccak env io \<lparr>ri_launch = i, ri_trigger = trig, ri_block = None, ri_force = (trig = ''on_demand'')\<rparr> st)))"

end
