(* ===== verification/DeepdiveFacts.thy ===== *)
theory DeepdiveFacts
  imports Deepdive
begin

text \<open>
  The properties of the deep dive: the cleaned output, the accounting of tool calls, what a run
  may change, what a failed run leaves unrecorded, and what sweeps can and cannot do.
\<close>


section \<open>The output\<close>

lemma clamp_one_range: "0 \<le> clamp_one n" "clamp_one n \<le> 1" "clamp_one n = n \<longleftrightarrow> 0 \<le> n \<and> n \<le> 1"
  by (auto simp: clamp_one_def min_def max_def)

lemma fix_value_empty: "fix_value label n = [] \<longleftrightarrow> 0 \<le> n \<and> n \<le> 1"
  by (auto simp: fix_value_def clamp_one_range(3))

lemma fix_value_clamped [simp]: "fix_value label (clamp_one n) = []"
  by (simp add: fix_value_empty clamp_one_range)

lemma clamp_one_idem [simp]: "clamp_one (clamp_one n) = clamp_one n"
  by (simp add: clamp_one_range)

lemma trim_evidence_idem [simp]: "trim_evidence (trim_evidence e) = trim_evidence e"
  by (cases "snd e") (simp_all add: trim_evidence_def)

lemma map_trim_idem [simp]: "map trim_evidence (take n (map trim_evidence es)) = take n (map trim_evidence es)"
  by (simp add: take_map comp_def)

definition short_evidence :: "string \<times> string option \<Rightarrow> bool" where
  "short_evidence e \<longleftrightarrow> length (fst e) \<le> claim_max \<and> (case snd e of None \<Rightarrow> True | Some u \<Rightarrow> length u \<le> ref_max)"

lemma trim_evidence_short [simp]: "short_evidence (trim_evidence e)"
  by (cases "snd e") (simp_all add: trim_evidence_def short_evidence_def)

definition output_probs :: "deep_output \<Rightarrow> real list" where
  "output_probs ou = [do_insider ou, do_drawdown ou, do_sell ou, do_confidence ou]"

definition valid_output :: "deep_output \<Rightarrow> bool" where
  "valid_output ou \<longleftrightarrow> list_all (\<lambda>p. 0 \<le> p \<and> p \<le> 1) (output_probs ou) \<and> length (do_evidence ou) \<le> evidence_max \<and>
     list_all short_evidence (do_evidence ou)"

text \<open>
  Cleaning a model output gives a valid one: probabilities and confidence in [0, 1], at most
  40 evidence entries, texts within their lengths.  Cleaning it again changes nothing and warns
  of nothing, and a first cleaning warns exactly when a number or the entry count was out of
  bounds.
\<close>

theorem clamp_output_valid:
  "valid_output (fst (clamp_output raw)) \<and> clamp_output (fst (clamp_output raw)) = (fst (clamp_output raw), []) \<and>
   (snd (clamp_output raw) = [] \<longleftrightarrow> list_all (\<lambda>p. 0 \<le> p \<and> p \<le> 1) (output_probs raw) \<and> length (do_evidence raw) \<le> evidence_max)"
proof (intro conjI)
  have "list_all short_evidence (take evidence_max (map trim_evidence es))" for es
    by (auto simp: list_all_iff dest!: in_set_takeD)
  then show "valid_output (fst (clamp_output raw))"
    by (simp add: valid_output_def output_probs_def clamp_output_def Let_def clamp_one_range)
  show "clamp_output (fst (clamp_output raw)) = (fst (clamp_output raw), [])"
    by (simp add: clamp_output_def Let_def)
  show "snd (clamp_output raw) = [] \<longleftrightarrow> list_all (\<lambda>p. 0 \<le> p \<and> p \<le> 1) (output_probs raw) \<and> length (do_evidence raw) \<le> evidence_max"
    by (auto simp: output_probs_def clamp_output_def Let_def fix_value_empty)
qed

text \<open>
  Cut texts are not recorded: a claim longer than 600 characters is shortened with no
  warning, although the list of warnings is what had to be adjusted.
\<close>

lemma long_claims_cut_silently:
  assumes "valid_output ou" and "claim_max < length claim" and "do_evidence ou \<noteq> []"
  shows "snd (clamp_output (ou\<lparr>do_evidence := [(claim, None)]\<rparr>)) = [] \<and>
    fst (clamp_output (ou\<lparr>do_evidence := [(claim, None)]\<rparr>)) \<noteq> ou\<lparr>do_evidence := [(claim, None)]\<rparr>"
proof -
  have "fix_value l p = []" if "p \<in> set (output_probs ou)" for l p using that assms(1) by (auto simp: valid_output_def list_all_iff fix_value_empty)
  then have "snd (clamp_output (ou\<lparr>do_evidence := [(claim, None)]\<rparr>)) = []"
    by (simp add: clamp_output_def output_probs_def Let_def evidence_max_def)
  moreover have "length (fst (hd (do_evidence (fst (clamp_output (ou\<lparr>do_evidence := [(claim, None)]\<rparr>)))))) < length claim"
    using assms(2) by (simp add: clamp_output_def Let_def evidence_max_def trim_evidence_def numeral_eq_Suc)
  then have "do_evidence (fst (clamp_output (ou\<lparr>do_evidence := [(claim, None)]\<rparr>))) \<noteq> [(claim, None)]" by auto
  ultimately show ?thesis by auto
qed


section \<open>Tool calls\<close>

lemma map_sum_Inr: "map_sum id f x = Inr y \<longleftrightarrow> (\<exists>v. x = Inr v \<and> y = f v)"
  by (cases x) auto

lemma guard_output:
  "length (to_evidence (guard c call)) + length (to_limitations (guard c call)) = 1 \<and>
   to_ok (guard c call) = (to_limitations (guard c call) = []) \<and>
   map er_call (to_evidence (guard c call)) @ map lm_call (to_limitations (guard c call)) = [call]"
  by (cases call)
     (auto simp: guard_def ok_output_def limited_output_def map_sum_Inr split: sum.split option.split prod.split)

lemma outputs_account:
  "length (concat (map to_evidence (map (guard c) calls))) + length (concat (map to_limitations (map (guard c) calls))) = length calls \<and>
   er_call ` set (concat (map to_evidence (map (guard c) calls))) \<union> lm_call ` set (concat (map to_limitations (map (guard c) calls))) = set calls"
proof
  show "length (concat (map to_evidence (map (guard c) calls))) + length (concat (map to_limitations (map (guard c) calls))) = length calls"
  proof (induction calls)
    case (Cons a calls)
    then show ?case using guard_output [of c a] by simp
  qed simp
  have one: "er_call ` set (to_evidence (guard c x)) \<union> lm_call ` set (to_limitations (guard c x)) = {x}" for x
    using arg_cong [OF conjunct2 [OF conjunct2 [OF guard_output [of c x]]], of set] by simp
  have "er_call ` set (concat (map to_evidence (map (guard c) calls))) \<union> lm_call ` set (concat (map to_limitations (map (guard c) calls))) =
    (\<Union>x\<in>set calls. er_call ` set (to_evidence (guard c x)) \<union> lm_call ` set (to_limitations (guard c x)))"
    by (simp add: image_UN UN_Un_distrib)
  then show "er_call ` set (concat (map to_evidence (map (guard c) calls))) \<union> lm_call ` set (concat (map to_limitations (map (guard c) calls))) = set calls"
    unfolding one by simp
qed

text \<open>
  Every tool call of a run is accounted for: it leaves one evidence row or one limitation,
  never both and never none, each with the call it answers.  A read that fails is a limitation
  and no finding.
\<close>

theorem tool_calls_accounted:
  "case (invoke packet max_steps max_cost, run_deepdive_agent ctx parse invoke model packet max_steps max_cost) of
     (Inl e, r) \<Rightarrow> r = Inl e
   | (Inr run, Inl e) \<Rightarrow> (\<exists>text. ag_text run = Inr text \<and> parse text = None)
   | (Inr run, Inr r) \<Rightarrow> length (rs_evidence r) + length (rs_limitations r) = length (ag_calls run) \<and>
       er_call ` set (rs_evidence r) \<union> lm_call ` set (rs_limitations r) = set (ag_calls run)"
proof (cases "invoke packet max_steps max_cost")
  case (Inr run)
  have rows: "rs_evidence r = concat (map to_evidence (map (guard ctx) (ag_calls run)))"
    "rs_limitations r = concat (map to_limitations (map (guard ctx) (ag_calls run)))"
    if "run_deepdive_agent ctx parse invoke model packet max_steps max_cost = Inr r" for r
    using that Inr by (auto simp: run_deepdive_agent_def Let_def split: sum.splits option.splits prod.splits)
  have invalid: "\<exists>text. ag_text run = Inr text \<and> parse text = None"
    if "run_deepdive_agent ctx parse invoke model packet max_steps max_cost = Inl e" for e
    using that Inr by (auto simp: run_deepdive_agent_def Let_def split: sum.splits option.splits prod.splits)
  show ?thesis using rows invalid outputs_account [of ctx "ag_calls run"] by (simp add: Inr split: sum.split)
qed (simp add: run_deepdive_agent_def)

lemma context_transfers_token: "context_transfers tk logs = Inr ts \<Longrightarrow> list_all (\<lambda>x. tt_token x = tk) ts"
  by (induction logs arbitrary: ts) (auto simp: map_sum_Inr split: option.splits)

lemma list_all_by_order [simp]: "list_all p (by_order ts) = list_all p ts"
  by (simp add: by_order_def list_all_iff)

lemma list_all_take: "list_all p xs \<Longrightarrow> list_all p (take n xs)"
  by (auto simp: list_all_iff dest: in_set_takeD)

text \<open>
  The tool \<open>token_transfers\<close> labels what it finds with the token of the launch: whatever
  contract the model asks for, every transfer of the evidence row names the launch's token, so
  the transfers of another contract are attributed to the audited one.
\<close>

theorem foreign_transfers_mislabelled:
  "list_all (\<lambda>r. case er_value r of TransfersValue n ts tr \<Rightarrow> list_all (\<lambda>x. tt_token x = lower (dl_token l)) ts | v \<Rightarrow> False)
     (to_evidence (guard (build_deepdive_context cfg b l) (TokenTransfers tk f t)))"
proof (cases "dc_transfers (build_deepdive_context cfg b l) tk (int f) (int t)")
  case (Inr ts)
  then have "list_all (\<lambda>x. tt_token x = lower (dl_token l)) ts"
    by (auto simp: build_deepdive_context_def Let_def map_sum_Inr split: sum.splits dest: context_transfers_token)
  then show ?thesis by (simp add: guard_def Inr ok_output_def transfers_value_def list_all_take)
qed (simp add: guard_def limited_output_def)


section \<open>What a run changes\<close>

lemma record_spend_rows:
  assumes "record_spend now e rows = (r, rows')"
  shows "(\<forall>m. r = Inl m \<longrightarrow> rows' = rows) \<and>
    (\<forall>i. r = Inr (i, True) \<longrightarrow> rows' = rows) \<and>
    (\<forall>i. r = Inr (i, False) \<longrightarrow> (\<exists>row. rows' = rows @ [row] \<and> sr_report row = se_report e \<and> sr_model row = se_model e \<and> Some (sr_cost row) = se_cost e))"
  using assms by (auto simp: record_spend_def Let_def split: option.splits if_splits)

lemma record_deepdive_rows:
  assumes "record_deepdive_spend now lookup key rid res rows = (r, rows')"
  shows "(\<forall>m. r = Inl m \<longrightarrow> rows' = rows) \<and>
    (\<forall>s. r = Inr s \<longrightarrow> (if sp_deduped s then rows' = rows else (\<exists>row. rows' = rows @ [row] \<and> sr_report row = rid \<and> sr_model row = rs_model res \<and>
        sp_total s = round_dp 6 (sr_cost row))))"
proof -
  obtain cost basis failed reason where c:
    "cost_with_basis lookup res (estimate_cost_usd (rs_model res) (rs_prompt_tokens res) (rs_completion_tokens res)) = ((cost, basis), failed, reason)"
    by (metis surj_pair)
  show ?thesis
    using assms c by (auto simp: record_deepdive_spend_def Let_def split: prod.splits sum.splits if_splits dest!: record_spend_rows)
qed

lemma store_run_effect:
  assumes "store_run env io l trig packet res st = (r, st')"
  shows "dt_launches st' = dt_launches st \<and> r \<noteq> Inr (Skipped w) \<and> (\<forall>m. r = Inl m \<longrightarrow> dt_ledger st' = dt_ledger st) \<and>
    dt_persist st' = fst (persist_launch_reports (io_launch_of io) [assemble_deepdive_report_signed (dv_crypto env) (dv_agent_key env) l trig packet res] (dt_persist st))"
  using assms by (auto simp: store_run_def Let_def split: prod.splits sum.splits dest!: record_deepdive_rows)

lemma run_deepdive_cases:
  obtains (inert) "snd (run_deepdive keccak env io i st) = st" "\<nexists>h p n ou c s. fst (run_deepdive keccak env io i st) = Inr (Ran h p n ou c s)"
  | (stored) l packet res where "find_deep_launch (ri_launch i) st = Some l" "scored_model_slug (dv_model env)"
      "ri_force i \<or> \<not> scored_by_deepdive (dl_id l) st" "rg_allowed (run_gate_of env io st)"
      "run_deepdive_agent (io_context io l) (io_parse io) (io_invoke io) (dv_model env) packet (dv_max_steps env)
         (min (rg_max_run_cost (run_gate_of env io st)) (dv_cap_run env)) = Inr res" "rs_stopped res \<noteq> StoppedError"
      "run_deepdive keccak env io i st = store_run env io l (ri_trigger i) packet res st"
proof (cases "scored_model_slug (dv_model env)")
  case True
  show ?thesis
  proof (cases "find_deep_launch (ri_launch i) st")
    case (Some l)
    let ?skip = "\<not> ri_force i \<and> scored_by_deepdive (dl_id l) st" and ?gate = "run_gate_of env io st"
    note run = run_deepdive_def [of keccak env io i st, unfolded Some option.case Let_def]
    show ?thesis
    proof (cases "?skip \<or> \<not> rg_allowed ?gate")
      case True
      then show ?thesis using \<open>scored_model_slug (dv_model env)\<close> by (intro inert) (auto simp: run)
    next
      case go: False
      show ?thesis
      proof (cases "build_target_packet keccak (io_packet io) (target_from_launch l) (ri_block i)")
        case (Inl e)
        then show ?thesis using go True by (intro inert) (auto simp: run)
      next
        case (Inr packet)
        let ?agent = "run_deepdive_agent (io_context io l) (io_parse io) (io_invoke io) (dv_model env) packet (dv_max_steps env)
          (min (rg_max_run_cost ?gate) (dv_cap_run env))"
        show ?thesis
        proof (cases ?agent)
          case (Inl e)
          then show ?thesis using go True Inr by (intro inert) (auto simp: run)
        next
          case res: (Inr res)
          show ?thesis
          proof (cases "rs_stopped res = StoppedError")
            case True
            then show ?thesis using go \<open>scored_model_slug (dv_model env)\<close> Inr res by (intro inert) (auto simp: run)
          next
            case False
            then show ?thesis using go True Inr res by (intro stored [OF Some True _ _ res]) (auto simp: run)
          qed
        qed
      qed
    qed
  qed (use True in \<open>auto simp: run_deepdive_def intro: inert\<close>)
qed (auto simp: run_deepdive_def intro: inert)

lemma persist_one_reports: "ps_reports (fst (persist_launch_reports f [d] ps)) = upsert_report d (ps_reports ps)"
  by (simp add: persist_launch_reports_def Let_def)

lemma upsert_report_stores: "list_ex (\<lambda>r. rr_hash r = dr_hash d) (upsert_report d rs)"
  by (induction rs) (auto simp: row_of_draft_def)

lemma store_run_ran:
  assumes "store_run env io l trig packet res st = (Inr (Ran h p n ou c s), st')"
  shows "list_ex (\<lambda>r. rr_hash r = h) (ps_reports (dt_persist st')) \<and>
    (dt_ledger st' = dt_ledger st \<or>
     (\<exists>row. dt_ledger st' = dt_ledger st @ [row] \<and> sr_report row = Some h \<and> sr_model row = rs_model res \<and> c = round_dp 6 (sr_cost row)))"
proof -
  let ?d = "assemble_deepdive_report_signed (dv_crypto env) (dv_agent_key env) l trig packet res"
  let ?ps = "fst (persist_launch_reports (io_launch_of io) [?d] (dt_persist st))"
  have ex: "list_ex (\<lambda>r. rr_hash r = dr_hash ?d) (ps_reports ?ps)" by (simp add: persist_one_reports upsert_report_stores)
  obtain sp rows where r: "record_deepdive_spend (io_now io) (io_lookup io) (dv_key_prefix env) (Some (dr_hash ?d)) res (dt_ledger st) = (Inr sp, rows)"
    "h = dr_hash ?d" "c = sp_total sp" "st' = st\<lparr>dt_persist := ?ps, dt_ledger := rows\<rparr>"
    using assms ex by (auto simp: store_run_def Let_def split: prod.splits sum.splits)
  then show ?thesis using ex record_deepdive_rows [OF r(1)] by (auto split: if_splits)
qed

lemma agent_model: "run_deepdive_agent ctx parse invoke model packet max_steps max_cost = Inr r \<Longrightarrow> rs_model r = model"
  by (auto simp: run_deepdive_agent_def Let_def split: sum.splits option.splits prod.splits)



section \<open>A stale budget\<close>

lemma stale_billing:
  assumes "latest_snapshot (io_snapshots io) = Some s" and "dv_poll_sec env * 1000 * 3 < of_int (io_now io - sn_at s)"
  shows "bu_billing (load_budget env (io_now io) rows (io_epochs io) (io_snapshots io) credit) = Some Stale"
  using assms by (simp add: load_budget_def Let_def)

text \<open>
  C19: A compromise signal expires: once the newest balance is older than three polls, the gate
  is not closed for billing any more, whatever status that snapshot recorded -- phantom spend or
  an anomaly included -- and a run goes ahead on the amounts alone.
\<close>

theorem compromise_signal_expires:
  assumes "latest_snapshot (io_snapshots io) = Some s" and "dv_poll_sec env * 1000 * 3 < of_int (io_now io - sn_at s)"
  shows "rg_reason (run_gate_of env io st) \<noteq> BillingPaused \<and> rg_balance_stale (run_gate_of env io st) \<and>
    run_gate_of env io st = run_gate_of env (io\<lparr>io_snapshots := [s\<lparr>sn_billing := b\<rparr>]\<rparr>) st"
proof -
  have b: "sn_balance s \<noteq> None"
  proof -
    have "s \<in> set (sort_key (\<lambda>s. - sn_at s) (filter (\<lambda>s. sn_balance s \<noteq> None) (io_snapshots io)))"
      using assms(1) by (cases "sort_key (\<lambda>s. - sn_at s) (filter (\<lambda>s. sn_balance s \<noteq> None) (io_snapshots io))")
        (auto simp: latest_snapshot_def)
    then show ?thesis by simp
  qed
  then have one: "latest_snapshot [s\<lparr>sn_billing := b\<rparr>] = Some (s\<lparr>sn_billing := b\<rparr>)" by (simp add: latest_snapshot_def)
  have same: "run_gate_of env io st = run_gate_of env (io\<lparr>io_snapshots := [s\<lparr>sn_billing := b\<rparr>]\<rparr>) st"
    using assms one by (simp add: run_gate_of_def load_budget_def Let_def)
  have stale: "bu_billing (load_budget env (io_now io) (dt_ledger st) (io_epochs io) (io_snapshots io) (io_credit io)) = Some Stale"
    by (rule stale_billing [OF assms])
  have gate: "rg_reason (deepdive_run_gate i) \<noteq> BillingPaused \<and> rg_balance_stale (deepdive_run_gate i)" if "gi_billing i = Some Stale" for i
    using that by (simp add: deepdive_run_gate_def gate_verdict_def)
  have "rg_reason (run_gate_of env io st) \<noteq> BillingPaused \<and> rg_balance_stale (run_gate_of env io st)"
    unfolding run_gate_of_def Let_def by (rule gate) (simp add: stale)
  then show ?thesis using same by blast
qed


section \<open>Failed runs\<close>

text \<open>The run throws, or it ends without an output the schema accepts.\<close>

definition run_fails :: "deep_io \<Rightarrow> bool" where
  "run_fails io \<longleftrightarrow> (\<forall>p n c. case io_invoke io p n c of
     Inl e \<Rightarrow> True
   | Inr run \<Rightarrow> (case ag_text run of Inl e \<Rightarrow> True | Inr text \<Rightarrow> io_parse io text = None))"

lemma failed_agent:
  assumes "run_fails io" and "run_deepdive_agent ctx (io_parse io) (io_invoke io) model packet max_steps max_cost = Inr res"
  shows "rs_stopped res = StoppedError"
  using assms(2) spec [OF spec [OF spec [OF assms(1) [unfolded run_fails_def], of packet], of max_steps], of max_cost]
  by (auto simp: run_deepdive_agent_def Let_def split: sum.splits)

lemma failed_run_inert: "run_fails io \<Longrightarrow> snd (run_deepdive keccak env io i st) = st \<and> (\<nexists>h p n ou c s. fst (run_deepdive keccak env io i st) = Inr (Ran h p n ou c s))"
  by (cases rule: run_deepdive_cases [of keccak env io i st]) (use failed_agent in blast)+

text \<open>
  A failed run is never billed: when the model run ends in an error or gives no acceptable
  output, nothing at all is recorded, although its turns may have generation ids that the gateway
  prices.  The charge is left for the reconciliation to find.
\<close>

theorem failed_run_unrecorded:
  assumes "run_fails io"
  shows "snd (run_deepdive keccak env io i st) = st"
  using failed_run_inert [OF assms] by blast

lemma sweep_launches_stuck:
  "\<forall>l\<in>set ls. run_fails (io (dl_id l)) \<Longrightarrow> snd (sweep_launches keccak env io ls n st) = st"
proof (induction ls arbitrary: n)
  case (Cons l ls)
  obtain r where r: "run_deepdive keccak env (io (dl_id l)) (sweep_input l) st = (r, st)" "\<nexists>h p n ou c s. r = Inr (Ran h p n ou c s)"
    using failed_run_inert [of "io (dl_id l)" keccak env "sweep_input l" st] Cons.prems
    by (cases "run_deepdive keccak env (io (dl_id l)) (sweep_input l) st") auto
  show ?case using Cons r by (auto split: sum.split run_answer.split skip_reason.split)
qed simp

text \<open>
  The sweep can starve: it takes the oldest launches without a report, and a launch whose
  run fails stays the oldest.  While the runs of one batch fail, every later sweep tries the
  same batch and no other launch is ever scored.
\<close>

theorem failing_batch_starves_sweep:
  assumes "\<forall>io\<in>set ios. \<forall>l\<in>set (eligible_batch limit st). run_fails (io (dl_id l))"
  shows "fold (\<lambda>io st. snd (sweep_deepdive keccak env io limit st)) ios st = st"
  using assms by (induction ios) (simp_all add: sweep_deepdive_def Let_def sweep_launches_stuck)


section \<open>One report per launch\<close>

definition deepdive_reports :: "string \<Rightarrow> deep_state \<Rightarrow> report_row list" where
  "deepdive_reports i st = filter (deepdive_report_of i) (ps_reports (dt_persist st))"

lemma upsert_report_filter:
  "length (filter (deepdive_report_of i) (upsert_report d rs)) \<le>
   length (filter (deepdive_report_of i) rs) + (if ct_launch (dr_content d) = Some i then 1 else 0)"
  by (induction rs) (auto simp: deepdive_report_of_def row_of_draft_def)

lemma draft_launch: "ct_launch (dr_content (assemble_deepdive_report_signed cr key l trig packet res)) = Some (dl_id l)"
  by (simp add: assemble_deepdive_report_signed_def assemble_deepdive_report_def revalidated_def deepdive_content_def Let_def
    split: option.split prod.split)

lemma run_deepdive_reports:
  assumes "\<not> ri_force i"
  shows "length (deepdive_reports j (snd (run_deepdive keccak env io i st))) \<le> max 1 (length (deepdive_reports j st))"
proof (cases rule: run_deepdive_cases [of keccak env io i st])
  case (stored l packet res)
  obtain r st' where r: "store_run env io l (ri_trigger i) packet res st = (r, st')" by fastforce
  have "\<not> scored_by_deepdive (dl_id l) st" using stored(3) assms by simp
  then have "deepdive_reports (dl_id l) st = []" by (auto simp: scored_by_deepdive_def deepdive_reports_def filter_empty_conv list_ex_iff)
  moreover have "length (deepdive_reports j st') \<le> length (deepdive_reports j st) + (if dl_id l = j then 1 else 0)"
    using store_run_effect [OF r, of undefined]
      upsert_report_filter [of j "assemble_deepdive_report_signed (dv_crypto env) (dv_agent_key env) l (ri_trigger i) packet res" "ps_reports (dt_persist st)"]
    by (auto simp: deepdive_reports_def persist_one_reports draft_launch split: if_splits)
  ultimately show ?thesis by (simp add: stored(7) r split: if_splits)
qed simp

lemma sweep_launches_reports:
  "length (deepdive_reports j (snd (sweep_launches keccak env io ls n st))) \<le> max 1 (length (deepdive_reports j st))"
proof (induction ls arbitrary: n st)
  case (Cons l ls)
  obtain r st' where r: "run_deepdive keccak env (io (dl_id l)) (sweep_input l) st = (r, st')" by fastforce
  have one: "length (deepdive_reports j st') \<le> max 1 (length (deepdive_reports j st))"
    using run_deepdive_reports [of "sweep_input l" j keccak env "io (dl_id l)" st] r by (simp add: sweep_input_def)
  have "snd (sweep_launches keccak env io (l # ls) n st) = st' \<or> (\<exists>n'. snd (sweep_launches keccak env io (l # ls) n st) = snd (sweep_launches keccak env io ls n' st'))"
    by (auto simp: r split: sum.split run_answer.split skip_reason.split)
  then show ?case
  proof (elim disjE exE)
    fix n' assume "snd (sweep_launches keccak env io (l # ls) n st) = snd (sweep_launches keccak env io ls n' st')"
    then show ?thesis using Cons.IH [of n' st'] one by simp
  qed (use one in simp)
qed simp

text \<open>
  C11: The sweeps score a launch at most once: whatever the model, the gateway and the budget do
  over any number of sweeps, no launch that has at most one gets a second \<open>llm_deepdive_v0\<close> report.
\<close>

theorem sweeps_score_once:
  "length (deepdive_reports j (fold (\<lambda>io st. snd (sweep_deepdive keccak env io limit st)) ios st)) \<le> max 1 (length (deepdive_reports j st))"
proof (induction ios arbitrary: st)
  case (Cons io ios)
  have "length (deepdive_reports j (snd (sweep_deepdive keccak env io limit st))) \<le> max 1 (length (deepdive_reports j st))"
    using sweep_launches_reports [of j keccak env io "eligible_batch limit st" _ st]
    by (simp add: sweep_deepdive_def Let_def)
  then show ?case using Cons [of "snd (sweep_deepdive keccak env io limit st)"] by simp
qed simp


section \<open>Concrete runs\<close>

text \<open>
  A launch whose model run fails after a turn the gateway bills at thirty cents, over a runner
  that last reported phantom spend a day ago.
\<close>

definition demo_deep :: "string \<Rightarrow> millis \<Rightarrow> deep_launch" where
  "demo_deep i created =
     \<lparr>dl_id = i, dl_chain = 4663, dl_token = ''0xt'', dl_quote = None, dl_creator = ''0xc'', dl_block = 100, dl_tx = ''0x1'', dl_at = None,
      dl_source = ''pad'', dl_kind = None, dl_pool_address = None, dl_pool_id = None, dl_fee = None, dl_tick_spacing = None,
      dl_hooks = None, dl_fee_suspect = False, dl_qualified = True, dl_retrospective = False, dl_over_quota = False,
      dl_has_feature = True, dl_created = created\<rparr>"

definition demo_deep_env :: deep_env where
  "demo_deep_env = \<lparr>dv_model = ''sakana/fugu-max'', dv_cap_run = 1 / 10, dv_cap_day = 1, dv_reserve = 1, dv_poll_sec = 60,
     dv_max_steps = 8, dv_agent_key = None, dv_key_prefix = None, dv_crypto = demo_crypto\<rparr>"

definition demo_snapshot :: life_snapshot where
  "demo_snapshot = \<lparr>sn_balance = Some 5, sn_billing = Some PhantomSpend, sn_at = 0\<rparr>"

definition demo_packet_client :: packet_client where
  "demo_packet_client = \<lparr>kc_code = (\<lambda>a b. Inr None), kc_storage = (\<lambda>a s b. Inr None), pc_chain_id = Inr 4663,
     pc_block = (\<lambda>b. Inr \<lparr>hb_number = Some 200, hb_hash = Some ''0xh'', hb_seconds = 1000\<rparr>)\<rparr>"

definition demo_context :: deepdive_context where
  "demo_context = \<lparr>dc_activity = (\<lambda>a tk f t. Inr []), dc_transfers = (\<lambda>tk f t. Inl ''timeout''), dc_cluster = (\<lambda>a. Inl ''timeout''),
     dc_prices = (\<lambda>p f t. Inl ''timeout''), dc_holders = (\<lambda>tk b. undefined), dc_code = (\<lambda>a b. Inl ''timeout''),
     dc_scan = (\<lambda>tk. None), dc_quote = (\<lambda>tk s. None)\<rparr>"

definition demo_output :: deep_output where
  "demo_output = \<lparr>do_insider = 1 / 2, do_drawdown = 1 / 2, do_sell = 2, do_evidence = [(''c'', None)], do_confidence = 1\<rparr>"

definition demo_io :: "string + string \<Rightarrow> deep_io" where
  "demo_io text = \<lparr>io_now = 90000000, io_epochs = [], io_snapshots = [demo_snapshot], io_credit = None, io_packet = demo_packet_client,
     io_context = (\<lambda>l. demo_context),
     io_invoke = (\<lambda>p n c. Inr \<lparr>ag_turns = [Some ''gen-1''], ag_calls = [TokenTransfers ''0xt'' 1 2, ScanhoodScan ''0xt''],
       ag_text = text, ag_usage = Inl ''none''\<rparr>),
     io_parse = (\<lambda>s. Some demo_output),
     io_lookup = (\<lambda>g. Inr \<lparr>gr_ok = True, gr_total_cost = Some (3 / 10), gr_usage = None\<rparr>), io_launch_of = (\<lambda>i. None)\<rparr>"

definition demo_deep_state :: deep_state where
  "demo_deep_state = \<lparr>dt_launches = [demo_deep ''old'' 1, demo_deep ''young'' 2], dt_persist = \<lparr>ps_reports = [], ps_outcomes = []\<rparr>, dt_ledger = []\<rparr>"

lemma demo_gate_open: "rg_allowed (run_gate_of demo_deep_env (demo_io text) demo_deep_state)"
  unfolding run_gate_of_def Let_def gate_allowed_iff
  by (simp add: load_budget_def dynamic_daily_cap_def latest_snapshot_def demo_io_def demo_deep_env_def demo_snapshot_def demo_deep_state_def
    Let_def total_spend_def max_run_cost_def remaining_today_def spent_today_def round_dp_def js_round_def)

lemma demo_latest: "latest_snapshot (io_snapshots (demo_io text)) = Some demo_snapshot"
  by (simp add: latest_snapshot_def demo_io_def demo_snapshot_def)

theorem compromise_signal_expires_witness:
  "sn_billing demo_snapshot = Some PhantomSpend \<and> rg_allowed (run_gate_of demo_deep_env (demo_io (Inl ''404'')) demo_deep_state) \<and>
   rg_reason (run_gate_of demo_deep_env (demo_io (Inl ''404'')) demo_deep_state) \<noteq> BillingPaused"
proof (intro conjI)
  show "rg_reason (run_gate_of demo_deep_env (demo_io (Inl ''404'')) demo_deep_state) \<noteq> BillingPaused"
    by (rule compromise_signal_expires [THEN conjunct1, OF demo_latest]) (simp add: demo_deep_env_def demo_io_def demo_snapshot_def)
qed (simp_all add: demo_gate_open demo_snapshot_def)

lemma demo_charge: "generation_cost (io_lookup (demo_io text) g) = Inr (3 / 10)"
  by (simp add: demo_io_def generation_cost_def)

lemma demo_deep_id [simp]: "dl_id (demo_deep i c) = i"
  by (simp add: demo_deep_def)

lemma demo_fails: "run_fails (demo_io (Inl e))"
  by (simp add: run_fails_def demo_io_def)

theorem failed_run_unrecorded_witness:
  "snd (run_deepdive id demo_deep_env (demo_io (Inl ''404'')) (sweep_input (demo_deep ''old'' 1)) demo_deep_state) = demo_deep_state \<and>
   rg_allowed (run_gate_of demo_deep_env (demo_io (Inl ''404'')) demo_deep_state) \<and>
   generation_cost (io_lookup (demo_io (Inl ''404'')) ''gen-1'') = Inr (3 / 10)"
  using failed_run_unrecorded [OF demo_fails, of id demo_deep_env "''404''" "sweep_input (demo_deep ''old'' 1)" demo_deep_state]
  by (simp add: demo_gate_open demo_charge)

theorem failing_batch_starves_sweep_witness:
  "fold (\<lambda>io st. snd (sweep_deepdive id demo_deep_env io 1 st)) (replicate 9 (\<lambda>i. if i = ''old'' then demo_io (Inl ''404'') else demo_io (Inr ''ok'')))
     demo_deep_state = demo_deep_state \<and>
   deepdive_eligible demo_deep_state (demo_deep ''young'' 2)"
proof
  have "map dl_id (eligible_batch 1 demo_deep_state) = [''old'']" by code_simp
  then have ids: "\<forall>l\<in>set (eligible_batch 1 demo_deep_state). dl_id l = ''old''" by auto
  show "fold (\<lambda>io st. snd (sweep_deepdive id demo_deep_env io 1 st)) (replicate 9 (\<lambda>i. if i = ''old'' then demo_io (Inl ''404'') else demo_io (Inr ''ok'')))
     demo_deep_state = demo_deep_state"
    by (rule failing_batch_starves_sweep) (use ids demo_fails in auto)
  show "deepdive_eligible demo_deep_state (demo_deep ''young'' 2)" by code_simp
qed

text \<open>The same launch with a model that answers is scored, and charged by its generation.\<close>

lemma demo_packet: "\<exists>p. build_target_packet id demo_packet_client (target_from_launch (demo_deep i c)) None = Inr p"
  by (simp add: build_target_packet_def demo_packet_client_def resolve_contract_code_def Let_def)

lemma demo_agent:
  "\<exists>res. run_deepdive_agent demo_context (\<lambda>s. Some demo_output) (io_invoke (demo_io (Inr ''ok''))) model p 8 cap = Inr res \<and>
     rs_stopped res = StoppedComplete \<and> rs_usage_cost res = None \<and> rs_generations res = [''gen-1''] \<and> rs_model res = model"
  by (simp add: run_deepdive_agent_def demo_io_def Let_def pick_num_def cost_keys_def split: prod.split)

lemma demo_spend:
  assumes "rs_usage_cost res = None" and "rs_generations res = [''gen-1'']" and "rs_model res = ''sakana/fugu-max''"
  shows "\<exists>rows s. record_deepdive_spend now (io_lookup (demo_io t)) key rid res [] = (Inr s, rows) \<and> sp_total s = 3 / 10"
  using assms by (simp add: record_deepdive_spend_def cost_with_basis_def Let_def demo_io_def generation_cost_def record_spend_def
    find_by_generation_def round_dp_def js_round_def)

lemma store_run_total:
  assumes "\<And>rid. \<exists>rows s. record_deepdive_spend (io_now io) (io_lookup io) (dv_key_prefix env) rid res (dt_ledger st) = (Inr s, rows) \<and> sp_total s = c"
  shows "\<exists>h p n ou. fst (store_run env io l trig packet res st) = Inr (Ran h p n ou c (rs_stopped res))"
proof -
  let ?d = "assemble_deepdive_report_signed (dv_crypto env) (dv_agent_key env) l trig packet res"
  let ?rid = "if list_ex (\<lambda>r. rr_hash r = dr_hash ?d) (ps_reports (fst (persist_launch_reports (io_launch_of io) [?d] (dt_persist st))))
    then Some (dr_hash ?d) else None"
  obtain rows s where "record_deepdive_spend (io_now io) (io_lookup io) (dv_key_prefix env) ?rid res (dt_ledger st) = (Inr s, rows)" "sp_total s = c"
    using assms by blast
  then show ?thesis unfolding store_run_def Let_def by (simp only: prod.case sum.case fst_conv) blast
qed

lemma demo_run_scores:
  "\<exists>h p n ou. fst (run_deepdive id demo_deep_env (demo_io (Inr ''ok'')) (sweep_input (demo_deep ''old'' 1)) demo_deep_state) =
     Inr (Ran h p n ou (3 / 10) StoppedComplete)"
proof -
  have launch: "find_deep_launch ''old'' demo_deep_state = Some (demo_deep ''old'' 1)"
    by (simp add: find_deep_launch_def demo_deep_state_def demo_deep_def)
  have slug: "scored_model_slug (dv_model demo_deep_env)" by code_simp
  have fresh: "\<not> scored_by_deepdive (dl_id l) demo_deep_state" for l
    by (simp add: scored_by_deepdive_def demo_deep_state_def)
  obtain packet where packet: "build_target_packet id demo_packet_client (target_from_launch (demo_deep ''old'' 1)) None = Inr packet"
    using demo_packet by blast
  obtain res where res: "run_deepdive_agent demo_context (\<lambda>s. Some demo_output) (io_invoke (demo_io (Inr ''ok''))) ''sakana/fugu-max'' packet 8
      (min (rg_max_run_cost (run_gate_of demo_deep_env (demo_io (Inr ''ok'')) demo_deep_state)) (1 / 10)) = Inr res"
    "rs_stopped res = StoppedComplete" "rs_usage_cost res = None" "rs_generations res = [''gen-1'']" "rs_model res = ''sakana/fugu-max''"
    using demo_agent by blast
  let ?io = "demo_io (Inr ''ok'')"
  have io: "io_packet ?io = demo_packet_client" "io_context ?io = (\<lambda>l. demo_context)" "io_parse ?io = (\<lambda>s. Some demo_output)"
    "dt_ledger demo_deep_state = []" by (simp_all add: demo_io_def demo_deep_state_def)
  have env: "dv_model demo_deep_env = ''sakana/fugu-max''" "dv_max_steps demo_deep_env = 8" "dv_cap_run demo_deep_env = 1 / 10"
    by (simp_all add: demo_deep_env_def)
  have run: "run_deepdive id demo_deep_env ?io (sweep_input (demo_deep ''old'' 1)) demo_deep_state =
    store_run demo_deep_env ?io (demo_deep ''old'' 1) ''qualified'' packet res demo_deep_state"
    using launch slug fresh [of "demo_deep ''old'' 1"] packet res(1,2) demo_gate_open [of "Inr ''ok''"]
    by (simp add: run_deepdive_def sweep_input_def io env Let_def)
  show ?thesis
    unfolding run using res(2) store_run_total demo_spend [OF res(3,4,5)] io(4) by metis
qed

end
