(* ===== verification/Collect.thy ===== *)
theory Collect
  imports Scorer OutcomeSweep RpcCache "HOL-Library.AList" "HOL-Library.Product_Lexorder"
begin

text \<open>
  From the tables to the published benchmark (\<open>apps/worker/src/scorer\<close>): the join of resolved
  outcomes with every forecaster's prediction, its eligibility classes and base rates
  (\<open>collect.ts\<close>, \<open>eligibility.ts\<close>), the scored table (\<open>benchmark.ts\<close>), the counts of graded and
  pending outcomes (\<open>coverage.ts\<close>) and one turn of the snapshot loop (\<open>loop.ts\<close>).  The chain time
  of a block and the ISO text of a time (\<open>toISOString\<close>) are parameters; the caches of block times
  and launch sources, which hold immutable facts, are left out.
\<close>


section \<open>Rows of the tables\<close>

record graded_row = outcome_row +
  gd_trigger :: string
  gd_launch :: "string option"

text \<open>
  A report with its launch's source and its commit: \<open>None\<close> without a commit, \<open>Some None\<close> with one
  that has no block number.  \<open>qr_column\<close> are the probability columns (\<open>P_COL\<close>).
\<close>

record scored_report =
  qr_chain :: nat
  qr_token :: address
  qr_time :: millis
  qr_created :: millis
  qr_trigger :: string
  qr_launch :: "string option"
  qr_source :: "string option"
  qr_forecaster :: string
  qr_column :: "outcome_key \<Rightarrow> real option"
  qr_passed :: bool
  qr_commit :: "nat option option"

record scanner_row =
  sf_launch :: string
  sf_source :: string
  sf_scanhood :: "scan option"
  sf_scanhood_at :: "millis option"
  sf_goplus :: "scan option"
  sf_goplus_at :: "millis option"

datatype score_scope = ScopeLive | ScopeRetrospective | ScopeBoth


section \<open>Observations\<close>

record resolved_obs =
  ob_chain :: nat
  ob_token :: address
  ob_anchor :: millis
  ob_trigger :: string
  ob_launch :: "string option"
  ob_labels :: "(outcome_key \<times> bool) list"

type_synonym observations = "(string \<times> resolved_obs) list"

definition obs_key :: "(millis \<Rightarrow> string) \<Rightarrow> nat \<Rightarrow> address \<Rightarrow> millis \<Rightarrow> string" where
  "obs_key iso_of chain token anchor = digits chain @ ''|'' @ lower token @ ''|'' @ iso_of anchor"

definition horizon_end_of :: "millis \<Rightarrow> outcome_key \<Rightarrow> millis" where
  "horizon_end_of anchor key = anchor + horizon_to_ms (snd key)"

definition graded_in :: "score_scope \<Rightarrow> graded_row \<Rightarrow> bool" where
  "graded_in scope r \<longleftrightarrow> or_status r = OResolved \<and> or_value r \<noteq> None \<and>
     (case scope of ScopeLive \<Rightarrow> \<not> or_retrospective r | ScopeRetrospective \<Rightarrow> or_retrospective r | ScopeBoth \<Rightarrow> True)"

text \<open>\<open>Map.set\<close> keeps the place of a key it has and appends a new one, as \<open>AList.update\<close> does.\<close>

definition add_outcome :: "(millis \<Rightarrow> string) \<Rightarrow> graded_row \<Rightarrow> observations \<Rightarrow> observations" where
  "add_outcome iso_of r obs =
     (let k = obs_key iso_of (or_chain r) (or_token r) (or_anchor r);
          e = nullish (map_of obs k) \<lparr>ob_chain = or_chain r, ob_token = lower (or_token r), ob_anchor = or_anchor r,
            ob_trigger = gd_trigger r, ob_launch = gd_launch r, ob_labels = []\<rparr>
      in AList.update k (e\<lparr>ob_labels := AList.update (or_label r, or_horizon r) (or_value r = Some True) (ob_labels e)\<rparr>) obs)"

definition observations_of :: "(millis \<Rightarrow> string) \<Rightarrow> score_scope \<Rightarrow> graded_row list \<Rightarrow> observations" where
  "observations_of iso_of scope rows = fold (add_outcome iso_of) (filter (graded_in scope) rows) []"


section \<open>Base rates\<close>

definition thirty_days_ms :: millis where "thirty_days_ms = 30 * 24 * 3600 * 1000"

text \<open>\<open>perKey\<close>: the anchors and labels of an outcome, by time.\<close>

definition per_key :: "observations \<Rightarrow> outcome_key \<Rightarrow> (millis \<times> bool) list" where
  "per_key obs key = sort_key fst (concat (map (\<lambda>(k, e). map (\<lambda>(q, y). (ob_anchor e, y)) (filter (\<lambda>(q, y). q = key) (ob_labels e))) obs))"

definition share_of :: "(millis \<times> bool) list \<Rightarrow> real" where
  "share_of rs = real (length (filter snd rs)) / real (length rs)"

definition trailing_base_rate :: "(millis \<times> bool) list \<Rightarrow> millis \<Rightarrow> real" where
  "trailing_base_rate arr t =
     (let recent = filter (\<lambda>r. fst r \<ge> t - thirty_days_ms) (takeWhile (\<lambda>r. fst r < t) arr)
      in if recent = [] then (let past = filter (\<lambda>r. fst r < t) arr in if past = [] then 0 else share_of past)
         else share_of recent)"

definition fixed_base_rate :: "observations \<Rightarrow> outcome_key \<Rightarrow> real option" where
  "fixed_base_rate obs key = (let arr = per_key obs key in if arr = [] then None else Some (share_of arr))"


section \<open>Eligibility\<close>

type_synonym exclusion_counts = "outcome_key \<Rightarrow> string \<Rightarrow> eligibility \<Rightarrow> nat"

text \<open>An absent count is 0.\<close>

definition count_exclusion :: "exclusion_counts \<Rightarrow> outcome_key \<Rightarrow> string \<Rightarrow> eligibility \<Rightarrow> exclusion_counts" where
  "count_exclusion c key forecaster e = c(key := (c key)(forecaster := (c key forecaster)(e := c key forecaster e + 1)))"

definition reference_forecaster :: string where "reference_forecaster = ''det_v0''"

record collect_state =
  cs_rows :: "score_row list"
  cs_counts :: exclusion_counts
  cs_ref :: "string \<times> outcome_key \<Rightarrow> eligibility option"
  cs_anchor :: "string \<Rightarrow> string option"

definition empty_collect :: collect_state where
  "empty_collect = \<lparr>cs_rows = [], cs_counts = (\<lambda>k f e. 0), cs_ref = (\<lambda>p. None), cs_anchor = (\<lambda>i. None)\<rparr>"

text \<open>Every pair is counted; only an eligible one becomes a row.\<close>

definition add_pair :: "eligibility \<Rightarrow> score_row \<Rightarrow> collect_state \<Rightarrow> collect_state" where
  "add_pair cls row st =
     st\<lparr>cs_counts := count_exclusion (cs_counts st) (sw_outcome row) (sw_forecaster row) cls,
        cs_rows := (if cls = Eligible then cs_rows st @ [row] else cs_rows st)\<rparr>"

definition report_obs :: "(millis \<Rightarrow> string) \<Rightarrow> scored_report \<Rightarrow> string" where
  "report_obs iso_of r = obs_key iso_of (qr_chain r) (qr_token r) (qr_time r)"

definition commit_block :: "scored_report \<Rightarrow> nat option" where
  "commit_block r = (case qr_commit r of Some (Some b) \<Rightarrow> Some b | _ \<Rightarrow> None)"

text \<open>The block times read before the pass: of the commits of the reports that have an observation.\<close>

definition warmed_times :: "(millis \<Rightarrow> string) \<Rightarrow> (nat \<Rightarrow> millis option) \<Rightarrow> observations \<Rightarrow> scored_report list \<Rightarrow> nat \<Rightarrow> millis option" where
  "warmed_times iso_of time_of obs reports b =
     (if b \<in> set (List.map_filter commit_block (filter (\<lambda>r. map_of obs (report_obs iso_of r) \<noteq> None) reports)) then time_of b else None)"

definition report_class :: "(nat \<Rightarrow> millis option) \<Rightarrow> scored_report \<Rightarrow> outcome_key \<Rightarrow> eligibility" where
  "report_class btime r key =
     classify_eligibility \<lparr>el_report_time = qr_time r, el_committed = (commit_block r \<noteq> None),
       el_commit_block_time = Option.bind (commit_block r) btime, el_horizon_end = horizon_end_of (qr_time r) key\<rparr>"

definition report_pair :: "(millis \<Rightarrow> string) \<Rightarrow> (nat \<Rightarrow> millis option) \<Rightarrow> scored_report \<Rightarrow> resolved_obs \<Rightarrow> outcome_key \<Rightarrow> collect_state \<Rightarrow> collect_state" where
  "report_pair iso_of btime r e key st =
     (case (map_of (ob_labels e) key, qr_column r key) of
        (Some y, Some p) \<Rightarrow>
          (let k = report_obs iso_of r; cls = report_class btime r key;
               st1 = (if qr_forecaster r = reference_forecaster \<and> cs_ref st (k, key) = None
                      then st\<lparr>cs_ref := (cs_ref st)((k, key) := Some cls)\<rparr> else st)
           in add_pair cls \<lparr>sw_obs = k, sw_forecaster = qr_forecaster r, sw_outcome = key, sw_trigger = qr_trigger r,
                sw_source = nullish (qr_source r) ''unknown'', sw_prob = p, sw_label = y\<rparr> st1)
      | _ \<Rightarrow> st)"

definition anchor_launch :: "(millis \<Rightarrow> string) \<Rightarrow> scored_report \<Rightarrow> collect_state \<Rightarrow> collect_state" where
  "anchor_launch iso_of r st =
     (case qr_launch r of
        None \<Rightarrow> st
      | Some i \<Rightarrow>
          if i \<noteq> [] \<and> (qr_trigger r = ''launch'' \<or> qr_trigger r = ''qualified'') \<and> cs_anchor st i = None
          then st\<lparr>cs_anchor := (cs_anchor st)(i := Some (report_obs iso_of r))\<rparr> else st)"

definition report_step :: "(millis \<Rightarrow> string) \<Rightarrow> (nat \<Rightarrow> millis option) \<Rightarrow> observations \<Rightarrow> scored_report \<Rightarrow> collect_state \<Rightarrow> collect_state" where
  "report_step iso_of btime obs r st =
     (case map_of obs (report_obs iso_of r) of
        None \<Rightarrow> st
      | Some e \<Rightarrow> fold (report_pair iso_of btime r e) all_outcome_keys (anchor_launch iso_of r st))"

text \<open>The class a computed forecaster inherits.\<close>

definition inherited :: "collect_state \<Rightarrow> string \<Rightarrow> outcome_key \<Rightarrow> eligibility" where
  "inherited st k key = nullish (cs_ref st (k, key)) Uncommitted"

definition launch_source :: "(string \<Rightarrow> string option) \<Rightarrow> string option \<Rightarrow> string" where
  "launch_source source_of i = (case i of None \<Rightarrow> ''unknown'' | Some l \<Rightarrow> if l = [] then ''unknown'' else nullish (source_of l) ''unknown'')"

definition base_rate_pair ::
    "(millis \<Rightarrow> string) \<Rightarrow> (string \<Rightarrow> string option) \<Rightarrow> observations \<Rightarrow> resolved_obs \<Rightarrow> outcome_key \<times> bool \<Rightarrow> collect_state \<Rightarrow> collect_state" where
  "base_rate_pair iso_of source_of obs e l st =
     (let k = obs_key iso_of (ob_chain e) (ob_token e) (ob_anchor e); cls = inherited st k (fst l);
          row = \<lparr>sw_obs = k, sw_forecaster = ''base_rate'', sw_outcome = fst l, sw_trigger = ob_trigger e,
            sw_source = launch_source source_of (ob_launch e),
            sw_prob = round4 (trailing_base_rate (per_key obs (fst l)) (ob_anchor e)), sw_label = snd l\<rparr>
      in add_pair cls (row\<lparr>sw_forecaster := ''base_rate_fixed'', sw_prob := round4 (nullish (fixed_base_rate obs (fst l)) 0)\<rparr>)
           (add_pair cls row st))"

definition base_rate_step :: "(millis \<Rightarrow> string) \<Rightarrow> (string \<Rightarrow> string option) \<Rightarrow> observations \<Rightarrow> resolved_obs \<Rightarrow> collect_state \<Rightarrow> collect_state" where
  "base_rate_step iso_of source_of obs e st = fold (base_rate_pair iso_of source_of obs e) (ob_labels e) st"

definition scanner_class :: "eligibility \<Rightarrow> millis \<Rightarrow> millis option \<Rightarrow> eligibility" where
  "scanner_class ref anchor fetched = (if ref = Eligible \<and> \<not> scanner_fetch_is_timely anchor fetched then Replay else ref)"

definition scanner_cell ::
    "string \<Rightarrow> scanner_row \<Rightarrow> resolved_obs \<Rightarrow> outcome_key \<times> bool \<Rightarrow> string \<Rightarrow> grid \<Rightarrow> millis option \<Rightarrow> collect_state \<Rightarrow> collect_state" where
  "scanner_cell k f e l name probs fetched st =
     (case map_of probs (fst l) of
        None \<Rightarrow> st
      | Some p \<Rightarrow>
          add_pair (scanner_class (inherited st k (fst l)) (ob_anchor e) fetched)
            \<lparr>sw_obs = k, sw_forecaster = name, sw_outcome = fst l, sw_trigger = ob_trigger e, sw_source = sf_source f,
             sw_prob = p, sw_label = snd l\<rparr> st)"

definition scanner_step :: "observations \<Rightarrow> scanner_row \<Rightarrow> collect_state \<Rightarrow> collect_state" where
  "scanner_step obs f st =
     (case cs_anchor st (sf_launch f) of
        None \<Rightarrow> st
      | Some k \<Rightarrow>
          (case map_of obs k of
             None \<Rightarrow> st
           | Some e \<Rightarrow>
               fold (\<lambda>l st. scanner_cell k f e l ''goplus'' (goplus_to_probabilities (sf_goplus f)) (sf_goplus_at f)
                   (scanner_cell k f e l ''scanhood'' (scanhood_to_probabilities (sf_scanhood f)) (sf_scanhood_at f) st))
                 (ob_labels e) st))"

record score_tables =
  tb_outcomes :: "graded_row list"
  tb_reports :: "scored_report list"
  tb_scanners :: "scanner_row list"
  tb_source_of :: "string \<Rightarrow> string option"

definition scored_reports :: "score_tables \<Rightarrow> scored_report list" where
  "scored_reports tb = sort_key (\<lambda>r. (qr_time r, qr_created r)) (filter qr_passed (tb_reports tb))"

definition collect_score_rows ::
    "(millis \<Rightarrow> string) \<Rightarrow> (nat \<Rightarrow> millis option) \<Rightarrow> score_scope \<Rightarrow> score_tables \<Rightarrow> score_row list \<times> exclusion_counts" where
  "collect_score_rows iso_of time_of scope tb =
     (let obs = observations_of iso_of scope (tb_outcomes tb) in
      if obs = [] then ([], \<lambda>k f e. 0)
      else
        (let reports = scored_reports tb; btime = warmed_times iso_of time_of obs reports;
             st1 = fold (report_step iso_of btime obs) reports empty_collect;
             st2 = fold (base_rate_step iso_of (tb_source_of tb) obs) (map snd obs) st1;
             st3 = fold (scanner_step obs) (filter (\<lambda>f. sf_scanhood f \<noteq> None \<or> sf_goplus f \<noteq> None) (tb_scanners tb)) st2
         in (cs_rows st3, cs_counts st3)))"


section \<open>Coverage and the snapshot\<close>

record cell_coverage =
  cv_resolved :: nat
  cv_due :: nat
  cv_not_due :: int
  cv_unresolvable :: nat
  cv_na :: nat
  cv_retrospective :: nat

definition count_rows :: "(graded_row \<Rightarrow> bool) \<Rightarrow> outcome_key \<Rightarrow> graded_row list \<Rightarrow> nat" where
  "count_rows p key rows = length (filter (\<lambda>r. (or_label r, or_horizon r) = key \<and> p r) rows)"

text \<open>The three \<open>groupBy\<close> queries; a cell that none of them names is missing.\<close>

definition read_coverage :: "millis \<Rightarrow> graded_row list \<Rightarrow> outcome_key \<Rightarrow> cell_coverage option" where
  "read_coverage now rows key =
     (let live = (\<lambda>s r. \<not> or_retrospective r \<and> or_status r = s);
          due = count_rows (\<lambda>r. live OPending r \<and> (case or_horizon_at r of None \<Rightarrow> False | Some t \<Rightarrow> t \<le> now)) key rows;
          retro = count_rows (\<lambda>r. or_retrospective r \<and> or_status r = OResolved) key rows
      in if count_rows (\<lambda>r. \<not> or_retrospective r) key rows = 0 \<and> retro = 0 then None
         else Some \<lparr>cv_resolved = count_rows (live OResolved) key rows, cv_due = due,
           cv_not_due = int (count_rows (live OPending) key rows) - int due,
           cv_unresolvable = count_rows (live OUnresolvable) key rows, cv_na = count_rows (live ONotApplicable) key rows,
           cv_retrospective = retro\<rparr>)"

record scored_benchmark =
  bm_sections :: "section_row list"
  bm_exclusions :: exclusion_counts

definition run_scorer :: "(millis \<Rightarrow> string) \<Rightarrow> (nat \<Rightarrow> millis option) \<Rightarrow> real list \<Rightarrow> score_scope \<Rightarrow> score_tables \<Rightarrow> scored_benchmark \<times> nat" where
  "run_scorer iso_of time_of thresholds scope tb =
     (case collect_score_rows iso_of time_of scope tb of
        (rows, counts) \<Rightarrow> (\<lparr>bm_sections = score_benchmark rows default_baselines thresholds, bm_exclusions = counts\<rparr>, length rows))"

record benchmark_snapshot =
  bs_at :: millis
  bs_all :: scored_benchmark
  bs_live :: scored_benchmark
  bs_coverage :: "outcome_key \<Rightarrow> cell_coverage option"
  bs_qualified_only :: bool

text \<open>
  One turn of the loop: the stored singleton row afterwards.  The tables are read or the read
  fails, which leaves the stored snapshot.  The policy's text is a function of its flag.
\<close>

definition scorer_tick ::
    "(millis \<Rightarrow> string) \<Rightarrow> (nat \<Rightarrow> millis option) \<Rightarrow> real list \<Rightarrow> bool \<Rightarrow> millis \<Rightarrow> string + score_tables \<Rightarrow> benchmark_snapshot option \<Rightarrow>
     benchmark_snapshot option" where
  "scorer_tick iso_of time_of thresholds qualified_only now tables stored =
     (case tables of
        Inl e \<Rightarrow> stored
      | Inr tb \<Rightarrow>
          Some \<lparr>bs_at = now, bs_all = fst (run_scorer iso_of time_of thresholds ScopeBoth tb),
                bs_live = fst (run_scorer iso_of time_of thresholds ScopeLive tb), bs_coverage = read_coverage now (tb_outcomes tb),
                bs_qualified_only = qualified_only\<rparr>)"

end
