(* ===== verification/CollectFacts.thy ===== *)
theory CollectFacts
  imports Collect
begin

text \<open>
  The properties of the join: what stands behind every row of the benchmark, the counts of the
  excluded pairs, the base rates against a plain definition, and the coverage counts.
\<close>


section \<open>Observations\<close>

definition obs_sound :: "(millis \<Rightarrow> string) \<Rightarrow> graded_row list \<Rightarrow> observations \<Rightarrow> bool" where
  "obs_sound iso_of rows obs \<longleftrightarrow>
     (\<forall>k e. map_of obs k = Some e \<longrightarrow> k = obs_key iso_of (ob_chain e) (ob_token e) (ob_anchor e) \<and> distinct (map fst (ob_labels e)) \<and>
        (\<forall>key y. map_of (ob_labels e) key = Some y \<longrightarrow>
           (\<exists>r\<in>set rows. obs_key iso_of (or_chain r) (or_token r) (or_anchor r) = k \<and> (or_label r, or_horizon r) = key \<and> or_value r = Some y)))"

lemma obs_key_lower [simp]: "obs_key iso_of c (lower a) t = obs_key iso_of c a t"
  by (simp add: obs_key_def)

lemma add_outcome_sound:
  assumes "obs_sound iso_of rows obs" and "r \<in> set rows" and "or_value r \<noteq> None" and "distinct (map fst obs)"
  shows "obs_sound iso_of rows (add_outcome iso_of r obs) \<and> distinct (map fst (add_outcome iso_of r obs))"
proof -
  let ?k = "obs_key iso_of (or_chain r) (or_token r) (or_anchor r)" and ?key = "(or_label r, or_horizon r)"
  let ?e = "nullish (map_of obs ?k) \<lparr>ob_chain = or_chain r, ob_token = lower (or_token r), ob_anchor = or_anchor r,
    ob_trigger = gd_trigger r, ob_launch = gd_launch r, ob_labels = []\<rparr>"
  let ?new = "?e\<lparr>ob_labels := AList.update ?key (or_value r = Some True) (ob_labels ?e)\<rparr>"
  let ?from = "\<lambda>k key y. \<exists>r\<in>set rows. obs_key iso_of (or_chain r) (or_token r) (or_anchor r) = k \<and> (or_label r, or_horizon r) = key \<and> or_value r = Some y"
  have new: "add_outcome iso_of r obs = AList.update ?k ?new obs" by (simp add: add_outcome_def Let_def)
  have old: "?k = obs_key iso_of (ob_chain ?e) (ob_token ?e) (ob_anchor ?e) \<and> distinct (map fst (ob_labels ?e)) \<and>
      (\<forall>key y. map_of (ob_labels ?e) key = Some y \<longrightarrow> ?from ?k key y)"
    using assms(1) by (cases "map_of obs ?k") (simp_all add: obs_sound_def)
  obtain y where y: "or_value r = Some y" using assms(3) by blast
  have lab: "?from ?k key z" if "map_of (ob_labels ?new) key = Some z" for key z
  proof (cases "key = ?key")
    case True
    then have "or_value r = Some z" using that y by (simp add: update_conv')
    then show ?thesis using True assms(2) by blast
  next
    case False
    then have "map_of (ob_labels ?e) key = Some z" using that by (simp add: update_conv')
    then show ?thesis using old by blast
  qed
  have "?k = obs_key iso_of (ob_chain ?new) (ob_token ?new) (ob_anchor ?new) \<and> distinct (map fst (ob_labels ?new)) \<and>
      (\<forall>key y. map_of (ob_labels ?new) key = Some y \<longrightarrow> ?from ?k key y)"
    using old lab by (intro conjI allI impI) (simp_all add: distinct_update)
  note here = this
  have "obs_sound iso_of rows (AList.update ?k ?new obs)"
    unfolding obs_sound_def
  proof (intro allI impI)
    fix k e assume k: "map_of (AList.update ?k ?new obs) k = Some e"
    show "k = obs_key iso_of (ob_chain e) (ob_token e) (ob_anchor e) \<and> distinct (map fst (ob_labels e)) \<and>
        (\<forall>key y. map_of (ob_labels e) key = Some y \<longrightarrow> ?from k key y)"
    proof (cases "k = ?k")
      case True
      then have new_e: "e = ?new" using k by (simp add: update_conv')
      show ?thesis unfolding True new_e by (rule here)
    next
      case False
      then have "map_of obs k = Some e" using k by (simp add: update_conv')
      then show ?thesis using assms(1) unfolding obs_sound_def by blast
    qed
  qed
  then show ?thesis using assms(4) by (simp add: new distinct_update)
qed

lemma observations_sound:
  "obs_sound iso_of (filter (graded_in scope) rows) (observations_of iso_of scope rows) \<and> distinct (map fst (observations_of iso_of scope rows))"
proof -
  let ?rs = "filter (graded_in scope) rows"
  let ?P = "\<lambda>obs. obs_sound iso_of ?rs obs \<and> distinct (map fst obs)"
  have "?P (fold (add_outcome iso_of) ?rs [])"
  proof (rule fold_invariant [where Q = "\<lambda>r. r \<in> set ?rs \<and> or_value r \<noteq> None" and P = ?P])
    show "?P (add_outcome iso_of r obs)" if "r \<in> set ?rs \<and> or_value r \<noteq> None" "?P obs" for r obs
      using add_outcome_sound that by blast
  qed (auto simp: obs_sound_def graded_in_def)
  then show ?thesis by (simp add: observations_of_def)
qed


section \<open>Rows are backed\<close>

text \<open>The report a row rests on: of its own forecaster, or of the reference for a computed one.\<close>

definition eligible_report :: "(millis \<Rightarrow> string) \<Rightarrow> (nat \<Rightarrow> millis option) \<Rightarrow> string \<Rightarrow> string \<Rightarrow> outcome_key \<Rightarrow> scored_report \<Rightarrow> bool" where
  "eligible_report iso_of btime k forecaster key q \<longleftrightarrow>
     qr_forecaster q = forecaster \<and> report_obs iso_of q = k \<and> qr_column q key \<noteq> None \<and> report_class btime q key = Eligible"

definition row_backed :: "(millis \<Rightarrow> string) \<Rightarrow> (nat \<Rightarrow> millis option) \<Rightarrow> observations \<Rightarrow> scored_report list \<Rightarrow> scanner_row list \<Rightarrow> score_row \<Rightarrow> bool" where
  "row_backed iso_of btime obs reports scanners row \<longleftrightarrow>
     (\<exists>e. map_of obs (sw_obs row) = Some e \<and> map_of (ob_labels e) (sw_outcome row) = Some (sw_label row) \<and>
        (list_ex (\<lambda>q. eligible_report iso_of btime (sw_obs row) (sw_forecaster row) (sw_outcome row) q \<and> qr_column q (sw_outcome row) = Some (sw_prob row)) reports \<or>
         list_ex (eligible_report iso_of btime (sw_obs row) reference_forecaster (sw_outcome row)) reports \<and>
         (sw_forecaster row = ''base_rate'' \<or> sw_forecaster row = ''base_rate_fixed'' \<or>
          sw_forecaster row = ''scanhood'' \<and> list_ex (\<lambda>f. scanner_fetch_is_timely (ob_anchor e) (sf_scanhood_at f)) scanners \<or>
          sw_forecaster row = ''goplus'' \<and> list_ex (\<lambda>f. scanner_fetch_is_timely (ob_anchor e) (sf_goplus_at f)) scanners)))"

definition collect_ok :: "(millis \<Rightarrow> string) \<Rightarrow> (nat \<Rightarrow> millis option) \<Rightarrow> observations \<Rightarrow> scored_report list \<Rightarrow> scanner_row list \<Rightarrow> collect_state \<Rightarrow> bool" where
  "collect_ok iso_of btime obs reports scanners st \<longleftrightarrow>
     list_all (row_backed iso_of btime obs reports scanners) (cs_rows st) \<and>
     (\<forall>k key. cs_ref st (k, key) = Some Eligible \<longrightarrow> list_ex (eligible_report iso_of btime k reference_forecaster key) reports)"

lemma add_pair_ok:
  assumes "collect_ok iso_of btime obs reports scanners st" and "cls = Eligible \<Longrightarrow> row_backed iso_of btime obs reports scanners row"
  shows "collect_ok iso_of btime obs reports scanners (add_pair cls row st)"
  using assms by (simp add: collect_ok_def add_pair_def)

lemma collect_ok_ref:
  "collect_ok iso_of btime obs reports scanners st \<Longrightarrow> cs_ref st (k, key) = Some Eligible \<Longrightarrow>
   list_ex (eligible_report iso_of btime k reference_forecaster key) reports"
  unfolding collect_ok_def by blast

lemma inherited_eligible:
  "inherited st k key = Eligible \<Longrightarrow> collect_ok iso_of btime obs reports scanners st \<Longrightarrow>
   list_ex (eligible_report iso_of btime k reference_forecaster key) reports"
  by (rule collect_ok_ref) (auto simp: inherited_def nullish_def split: option.splits)

lemma report_pair_ok:
  assumes "collect_ok iso_of btime obs reports scanners st" and "r \<in> set reports" and "map_of obs (report_obs iso_of r) = Some e"
  shows "collect_ok iso_of btime obs reports scanners (report_pair iso_of btime r e key st)"
proof (cases "(map_of (ob_labels e) key, qr_column r key)")
  case (Pair l c)
  show ?thesis
  proof (cases "\<exists>y p. l = Some y \<and> c = Some p")
    case True
    then obtain y p where yp: "map_of (ob_labels e) key = Some y" "qr_column r key = Some p" using Pair by auto
    let ?k = "report_obs iso_of r" and ?cls = "report_class btime r key"
    have el: "eligible_report iso_of btime ?k (qr_forecaster r) key r" if "?cls = Eligible" using that yp by (simp add: eligible_report_def)
    let ?st1 = "if qr_forecaster r = reference_forecaster \<and> cs_ref st (?k, key) = None then st\<lparr>cs_ref := (cs_ref st)((?k, key) := Some ?cls)\<rparr> else st"
    have "collect_ok iso_of btime obs reports scanners ?st1"
      using assms(1,2) el by (auto simp: collect_ok_def list_ex_iff)
    moreover have "row_backed iso_of btime obs reports scanners \<lparr>sw_obs = ?k, sw_forecaster = qr_forecaster r, sw_outcome = key,
        sw_trigger = qr_trigger r, sw_source = s, sw_prob = p, sw_label = y\<rparr>" if "?cls = Eligible" for s
      using assms(2,3) el [OF that] yp by (auto simp: row_backed_def list_ex_iff)
    ultimately show ?thesis by (simp add: report_pair_def yp Let_def add_pair_ok)
  next
    case False
    then have "report_pair iso_of btime r e key st = st" using Pair by (auto simp: report_pair_def split: option.splits)
    then show ?thesis using assms(1) by simp
  qed
qed

lemma anchor_launch_ok: "collect_ok iso_of btime obs reports scanners (anchor_launch iso_of r st) = collect_ok iso_of btime obs reports scanners st"
  by (simp add: anchor_launch_def collect_ok_def split: option.split)

lemma empty_collect_ok [simp]: "collect_ok iso_of btime obs reports scanners empty_collect"
  by (simp add: collect_ok_def empty_collect_def)

lemma report_step_ok:
  assumes "collect_ok iso_of btime obs reports scanners st" and "r \<in> set reports"
  shows "collect_ok iso_of btime obs reports scanners (report_step iso_of btime obs r st)"
proof (cases "map_of obs (report_obs iso_of r)")
  case (Some e)
  have "collect_ok iso_of btime obs reports scanners (fold (report_pair iso_of btime r e) all_outcome_keys (anchor_launch iso_of r st))"
    by (rule fold_invariant [where Q = "\<lambda>_. True"]) (use assms Some report_pair_ok in \<open>auto simp: anchor_launch_ok\<close>)
  then show ?thesis by (simp add: report_step_def Some)
qed (simp add: report_step_def assms)

lemma base_rate_pair_ok:
  assumes "collect_ok iso_of btime obs reports scanners st" and "map_of obs (obs_key iso_of (ob_chain e) (ob_token e) (ob_anchor e)) = Some e"
    and "map_of (ob_labels e) (fst l) = Some (snd l)"
  shows "collect_ok iso_of btime obs reports scanners (base_rate_pair iso_of source_of obs e l st)"
proof -
  let ?k = "obs_key iso_of (ob_chain e) (ob_token e) (ob_anchor e)"
  have el: "list_ex (eligible_report iso_of btime ?k reference_forecaster (fst l)) reports" if "inherited st ?k (fst l) = Eligible"
    using inherited_eligible [OF that assms(1)] .
  show ?thesis
    unfolding base_rate_pair_def Let_def
    by (intro add_pair_ok assms(1)) (use assms(2,3) el in \<open>simp_all add: row_backed_def\<close>)
qed

lemma scanner_cell_ok:
  assumes "collect_ok iso_of btime obs reports scanners st" and "map_of obs k = Some e" and "map_of (ob_labels e) (fst l) = Some (snd l)"
    and "scanner_fetch_is_timely (ob_anchor e) fetched \<Longrightarrow> name = ''scanhood'' \<and> list_ex (\<lambda>f. scanner_fetch_is_timely (ob_anchor e) (sf_scanhood_at f)) scanners \<or>
          name = ''goplus'' \<and> list_ex (\<lambda>f. scanner_fetch_is_timely (ob_anchor e) (sf_goplus_at f)) scanners"
  shows "collect_ok iso_of btime obs reports scanners (scanner_cell k f e l name probs fetched st)"
proof (cases "map_of probs (fst l)")
  case (Some p)
  have "row_backed iso_of btime obs reports scanners \<lparr>sw_obs = k, sw_forecaster = name, sw_outcome = fst l, sw_trigger = ob_trigger e,
      sw_source = sf_source f, sw_prob = p, sw_label = snd l\<rparr>"
    if "scanner_class (inherited st k (fst l)) (ob_anchor e) fetched = Eligible"
    using that assms inherited_eligible [OF _ assms(1), of k "fst l"] by (auto simp: scanner_class_def row_backed_def split: if_splits)
  then show ?thesis by (simp add: scanner_cell_def Some add_pair_ok assms(1))
qed (simp add: scanner_cell_def assms(1))

lemma scanner_step_ok:
  assumes "collect_ok iso_of btime obs reports scanners st" and "f \<in> set scanners" and "obs_sound iso_of rows obs"
  shows "collect_ok iso_of btime obs reports scanners (scanner_step obs f st)"
proof -
  have "collect_ok iso_of btime obs reports scanners
      (fold (\<lambda>l st. scanner_cell k f e l ''goplus'' (goplus_to_probabilities (sf_goplus f)) (sf_goplus_at f)
                   (scanner_cell k f e l ''scanhood'' (scanhood_to_probabilities (sf_scanhood f)) (sf_scanhood_at f) st)) (ob_labels e) st)"
    if e: "map_of obs k = Some e" for k e
  proof (rule fold_invariant [where Q = "\<lambda>l. map_of (ob_labels e) (fst l) = Some (snd l)"])
    show "collect_ok iso_of btime obs reports scanners st" by (rule assms)
    show "map_of (ob_labels e) (fst l) = Some (snd l)" if "l \<in> set (ob_labels e)" for l
      using that e assms(3) by (auto simp: obs_sound_def)
    show "collect_ok iso_of btime obs reports scanners
        (scanner_cell k f e l ''goplus'' (goplus_to_probabilities (sf_goplus f)) (sf_goplus_at f)
           (scanner_cell k f e l ''scanhood'' (scanhood_to_probabilities (sf_scanhood f)) (sf_scanhood_at f) st'))"
      if "map_of (ob_labels e) (fst l) = Some (snd l)" "collect_ok iso_of btime obs reports scanners st'" for l st'
      using that e assms(2) by (intro scanner_cell_ok) (auto simp: list_ex_iff)
  qed
  then show ?thesis using assms(1) by (auto simp: scanner_step_def split: option.split)
qed

lemma warmed_times_read: "warmed_times iso_of time_of obs reports b = Some t \<Longrightarrow> time_of b = Some t"
  by (simp add: warmed_times_def split: if_splits)

lemma collected_ok:
  fixes iso_of time_of scope tb
  defines "obs \<equiv> observations_of iso_of scope (tb_outcomes tb)" and "reports \<equiv> scored_reports tb"
  shows "list_all (row_backed iso_of (warmed_times iso_of time_of obs reports) obs reports (tb_scanners tb))
    (fst (collect_score_rows iso_of time_of scope tb))"
proof (cases "obs = []")
  case False
  let ?bt = "warmed_times iso_of time_of obs reports"
  let ?ok = "collect_ok iso_of ?bt obs reports (tb_scanners tb)"
  let ?st1 = "fold (report_step iso_of ?bt obs) reports empty_collect"
  let ?st2 = "fold (base_rate_step iso_of (tb_source_of tb) obs) (map snd obs) ?st1"
  let ?st3 = "fold (scanner_step obs) (filter (\<lambda>f. sf_scanhood f \<noteq> None \<or> sf_goplus f \<noteq> None) (tb_scanners tb)) ?st2"
  have sound: "obs_sound iso_of (filter (graded_in scope) (tb_outcomes tb)) obs" "distinct (map fst obs)"
    using observations_sound [of iso_of scope "tb_outcomes tb"] by (simp_all add: obs_def)
  have 1: "?ok ?st1"
    by (rule fold_invariant [where Q = "\<lambda>r. r \<in> set reports"])
      (simp_all add: report_step_ok empty_collect_ok)
  have step: "?ok (base_rate_step iso_of (tb_source_of tb) obs e st)" if e: "e \<in> snd ` set obs" and st: "?ok st" for e st
    unfolding base_rate_step_def
  proof (rule fold_invariant [where Q = "\<lambda>l. map_of (ob_labels e) (fst l) = Some (snd l)"])
    obtain k where k: "map_of obs k = Some e" using e sound(2) by fastforce
    then show "map_of (ob_labels e) (fst l) = Some (snd l)" if "l \<in> set (ob_labels e)" for l
      using that sound(1) by (auto simp: obs_sound_def)
    have "map_of obs (obs_key iso_of (ob_chain e) (ob_token e) (ob_anchor e)) = Some e"
      using k sound(1) by (auto simp: obs_sound_def)
    then show "?ok (base_rate_pair iso_of (tb_source_of tb) obs e l st')"
      if "map_of (ob_labels e) (fst l) = Some (snd l)" "?ok st'" for l st'
      using that by (intro base_rate_pair_ok)
  qed (rule st)
  have 2: "?ok ?st2"
    by (rule fold_invariant [where Q = "\<lambda>e. e \<in> snd ` set obs"]) (use 1 step in auto)
  have "?ok ?st3"
    by (rule fold_invariant [where Q = "\<lambda>f. f \<in> set (tb_scanners tb)"]) (use 2 scanner_step_ok [OF _ _ sound(1)] in auto)
  then show ?thesis
    using False by (simp add: collect_score_rows_def Let_def obs_def reports_def collect_ok_def)
qed (simp add: collect_score_rows_def Let_def obs_def)

lemma eligible_report_timely:
  assumes "eligible_report iso_of (warmed_times iso_of time_of obs reports) k f key q"
  shows "qr_forecaster q = f \<and> report_obs iso_of q = k \<and>
    (\<exists>b t. qr_commit q = Some (Some b) \<and> time_of b = Some t \<and> t \<le> qr_time q + 1800000 \<and> t < horizon_end_of (qr_time q) key)"
  using assms
  by (auto simp: eligible_report_def report_class_def classify_eligibility_def commit_block_def replay_after_ms_def
    split: option.splits if_splits dest!: warmed_times_read)

text \<open>
  C27: Nothing enters the benchmark without a timely commitment: behind every row stands a
  resolved outcome in scope with the row's label, and a validated report for the same token and
  anchor whose commit has a chain time at most 30 minutes after the report and before the
  horizon ends -- the forecaster's own report with the row's probability, or the reference
  forecaster's for the computed ones, which for a scanner also needs a fetch in time.
\<close>

theorem collected_rows_are_backed:
  "list_all (\<lambda>row.
     (\<exists>r\<in>set (tb_outcomes tb). graded_in scope r \<and> obs_key iso_of (or_chain r) (or_token r) (or_anchor r) = sw_obs row \<and>
        (or_label r, or_horizon r) = sw_outcome row \<and> or_value r = Some (sw_label row)) \<and>
     (\<exists>q\<in>set (tb_reports tb). qr_passed q \<and> report_obs iso_of q = sw_obs row \<and>
        (qr_forecaster q = sw_forecaster row \<and> qr_column q (sw_outcome row) = Some (sw_prob row) \<or>
         qr_forecaster q = reference_forecaster \<and> sw_forecaster row \<in> {''base_rate'', ''base_rate_fixed'', ''scanhood'', ''goplus''}) \<and>
        (\<exists>b t. qr_commit q = Some (Some b) \<and> time_of b = Some t \<and> t \<le> qr_time q + 1800000 \<and> t < horizon_end_of (qr_time q) (sw_outcome row))))
   (fst (collect_score_rows iso_of time_of scope tb))"
proof (rule list.pred_mono_strong [OF collected_ok [of iso_of time_of scope tb]])
  fix row
  let ?obs = "observations_of iso_of scope (tb_outcomes tb)" and ?reports = "scored_reports tb"
  let ?bt = "warmed_times iso_of time_of ?obs ?reports"
  assume "row_backed iso_of ?bt ?obs ?reports (tb_scanners tb) row"
  then obtain e where e: "map_of ?obs (sw_obs row) = Some e" "map_of (ob_labels e) (sw_outcome row) = Some (sw_label row)"
    and q: "list_ex (\<lambda>q. eligible_report iso_of ?bt (sw_obs row) (sw_forecaster row) (sw_outcome row) q \<and> qr_column q (sw_outcome row) = Some (sw_prob row)) ?reports \<or>
      list_ex (eligible_report iso_of ?bt (sw_obs row) reference_forecaster (sw_outcome row)) ?reports \<and>
      sw_forecaster row \<in> {''base_rate'', ''base_rate_fixed'', ''scanhood'', ''goplus''}"
    unfolding row_backed_def by blast
  have "\<exists>r\<in>set (tb_outcomes tb). graded_in scope r \<and> obs_key iso_of (or_chain r) (or_token r) (or_anchor r) = sw_obs row \<and>
      (or_label r, or_horizon r) = sw_outcome row \<and> or_value r = Some (sw_label row)"
    using e observations_sound [of iso_of scope "tb_outcomes tb"] unfolding obs_sound_def by fastforce
  moreover have reports: "q \<in> set (tb_reports tb) \<and> qr_passed q" if "q \<in> set ?reports" for q
    using that by (simp add: scored_reports_def)
  have "\<exists>q\<in>set (tb_reports tb). qr_passed q \<and> report_obs iso_of q = sw_obs row \<and>
      (qr_forecaster q = sw_forecaster row \<and> qr_column q (sw_outcome row) = Some (sw_prob row) \<or>
       qr_forecaster q = reference_forecaster \<and> sw_forecaster row \<in> {''base_rate'', ''base_rate_fixed'', ''scanhood'', ''goplus''}) \<and>
      (\<exists>b t. qr_commit q = Some (Some b) \<and> time_of b = Some t \<and> t \<le> qr_time q + 1800000 \<and> t < horizon_end_of (qr_time q) (sw_outcome row))"
    using q
  proof (elim disjE conjE)
    assume "list_ex (\<lambda>q. eligible_report iso_of ?bt (sw_obs row) (sw_forecaster row) (sw_outcome row) q \<and> qr_column q (sw_outcome row) = Some (sw_prob row)) ?reports"
    then obtain q where "q \<in> set ?reports" "eligible_report iso_of ?bt (sw_obs row) (sw_forecaster row) (sw_outcome row) q"
      "qr_column q (sw_outcome row) = Some (sw_prob row)" by (auto simp: list_ex_iff)
    then show ?thesis using reports eligible_report_timely by blast
  next
    assume "list_ex (eligible_report iso_of ?bt (sw_obs row) reference_forecaster (sw_outcome row)) ?reports"
      and c: "sw_forecaster row \<in> {''base_rate'', ''base_rate_fixed'', ''scanhood'', ''goplus''}"
    then obtain q where "q \<in> set ?reports" "eligible_report iso_of ?bt (sw_obs row) reference_forecaster (sw_outcome row) q"
      by (auto simp: list_ex_iff)
    then show ?thesis using c reports eligible_report_timely by blast
  qed
  ultimately show "(\<exists>r\<in>set (tb_outcomes tb). graded_in scope r \<and> obs_key iso_of (or_chain r) (or_token r) (or_anchor r) = sw_obs row \<and>
        (or_label r, or_horizon r) = sw_outcome row \<and> or_value r = Some (sw_label row)) \<and>
     (\<exists>q\<in>set (tb_reports tb). qr_passed q \<and> report_obs iso_of q = sw_obs row \<and>
        (qr_forecaster q = sw_forecaster row \<and> qr_column q (sw_outcome row) = Some (sw_prob row) \<or>
         qr_forecaster q = reference_forecaster \<and> sw_forecaster row \<in> {''base_rate'', ''base_rate_fixed'', ''scanhood'', ''goplus''}) \<and>
        (\<exists>b t. qr_commit q = Some (Some b) \<and> time_of b = Some t \<and> t \<le> qr_time q + 1800000 \<and> t < horizon_end_of (qr_time q) (sw_outcome row)))"
    by blast
qed

text \<open>A launch graded, forecast and committed ten minutes later: three rows.\<close>

definition demo_tables :: score_tables where
  "demo_tables =
     \<lparr>tb_outcomes = [\<lparr>or_chain = 1, or_token = ''0xT'', or_anchor = 0, or_label = Drawdown80, or_horizon = H24, or_horizon_at = None,
        or_status = OResolved, or_value = Some True, or_evidence = NoEvidence, or_coverage = None, or_measured = None,
        or_qualified = True, or_retrospective = False, gd_trigger = ''launch'', gd_launch = Some ''l''\<rparr>],
      tb_reports = [\<lparr>qr_chain = 1, qr_token = ''0xt'', qr_time = 0, qr_created = 0, qr_trigger = ''launch'', qr_launch = Some ''l'',
        qr_source = None, qr_forecaster = ''det_v0'', qr_column = (\<lambda>k. if k = (Drawdown80, H24) then Some (1 / 2) else None),
        qr_passed = True, qr_commit = Some (Some 7)\<rparr>],
      tb_scanners = [], tb_source_of = (\<lambda>i. None)\<rparr>"

lemma demo_tables_rows:
  "map sw_forecaster (fst (collect_score_rows (\<lambda>t. ''T'') (\<lambda>b. Some 600000) ScopeLive demo_tables)) = [''det_v0'', ''base_rate'', ''base_rate_fixed'']"
  by code_simp


section \<open>Counts\<close>

definition counts_match :: "outcome_key \<Rightarrow> string \<Rightarrow> collect_state \<Rightarrow> bool" where
  "counts_match key f st \<longleftrightarrow> cs_counts st key f Eligible = length (filter (\<lambda>r. sw_outcome r = key \<and> sw_forecaster r = f) (cs_rows st))"

lemma add_pair_match: "counts_match key g st \<Longrightarrow> counts_match key g (add_pair cls row st)"
  by (auto simp: counts_match_def add_pair_def count_exclusion_def)

lemma counts_match_fields:
  "counts_match key g (st\<lparr>cs_ref := x\<rparr>) = counts_match key g st" "counts_match key g (st\<lparr>cs_anchor := y\<rparr>) = counts_match key g st"
  by (simp_all add: counts_match_def)

lemma fold_match: "(\<And>x st. counts_match key g st \<Longrightarrow> counts_match key g (f x st)) \<Longrightarrow> counts_match key g st \<Longrightarrow> counts_match key g (fold f xs st)"
  by (rule fold_invariant [where Q = "\<lambda>_. True"]) auto

lemma report_step_match: "counts_match key g st \<Longrightarrow> counts_match key g (report_step iso_of btime obs r st)"
  by (auto simp: report_step_def anchor_launch_def report_pair_def Let_def counts_match_fields
    intro!: fold_match add_pair_match split: option.split)

lemma base_rate_step_match: "counts_match key g st \<Longrightarrow> counts_match key g (base_rate_step iso_of source_of obs e st)"
  unfolding base_rate_step_def by (rule fold_match) (auto simp: base_rate_pair_def Let_def intro!: add_pair_match)

lemma scanner_step_match: "counts_match key g st \<Longrightarrow> counts_match key g (scanner_step obs f st)"
  by (auto simp: scanner_step_def scanner_cell_def intro!: fold_match add_pair_match split: option.split)

text \<open>
  The published exclusion counts match the table: in every cell and for every forecaster
  the pairs counted as eligible are exactly the rows the metrics are computed from.
\<close>

theorem eligible_counts_match_rows:
  "snd (collect_score_rows iso_of time_of scope tb) key g Eligible =
   length (filter (\<lambda>r. sw_outcome r = key \<and> sw_forecaster r = g) (fst (collect_score_rows iso_of time_of scope tb)))"
proof -
  have "counts_match key g empty_collect" by (simp add: counts_match_def empty_collect_def)
  then have "counts_match key g (fold (scanner_step obs) fs (fold (base_rate_step iso_of sf obs) es (fold (report_step iso_of bt obs) rs empty_collect)))"
    for obs fs sf es bt rs
    by (intro fold_match report_step_match base_rate_step_match scanner_step_match)
  then show ?thesis unfolding counts_match_def by (simp add: collect_score_rows_def Let_def)
qed


section \<open>Base rates\<close>

lemma takeWhile_time: "sorted (map fst rs) \<Longrightarrow> takeWhile (\<lambda>r. fst r < (t :: millis)) rs = filter (\<lambda>r. fst r < t) rs"
proof (induction rs)
  case (Cons r rs)
  have "filter (\<lambda>r. fst r < t) rs = []" if "\<not> fst r < t" using Cons.prems that by (force simp: filter_empty_conv)
  then show ?case using Cons by simp
qed simp

lemma share_of_sort [simp]: "share_of (sort_key f rs) = share_of rs"
  by (simp add: share_of_def filter_sort)

lemma share_of_bounds: "0 \<le> share_of rs" "share_of rs \<le> 1"
  by (simp_all add: share_of_def divide_le_eq_1)

lemma sort_key_Nil [simp]: "sort_key f rs = [] \<longleftrightarrow> rs = []"
  using length_sort [of f rs] by (metis length_0_conv)

text \<open>The share of positives among the observations of the last 30 days, or of all the past.\<close>

definition trailing_share :: "(millis \<times> bool) list \<Rightarrow> millis \<Rightarrow> real" where
  "trailing_share rs t =
     (let past = filter (\<lambda>r. fst r < t) rs; recent = filter (\<lambda>r. t - thirty_days_ms \<le> fst r) past
      in if recent \<noteq> [] then share_of recent else if past \<noteq> [] then share_of past else 0)"

text \<open>
  The scan for the trailing base rate, which stops at the first later observation, gives the
  share of positives of the last 30 days (of all the past when there is none), in [0, 1] and
  whatever the order of the observations.
\<close>

theorem trailing_base_rate_exact:
  "trailing_base_rate (sort_key fst rs) t = trailing_share rs t \<and> 0 \<le> trailing_base_rate rs t \<and> trailing_base_rate rs t \<le> 1"
proof -
  have "trailing_base_rate (sort_key fst rs) t = trailing_share rs t"
    by (simp add: trailing_base_rate_def trailing_share_def takeWhile_time Let_def filter_sort del: filter_filter)
  then show ?thesis by (simp add: trailing_base_rate_def Let_def share_of_bounds)
qed

lemma horizon_hour: "3600000 \<le> horizon_to_ms h"
  by (cases h) simp_all

text \<open>
  The base rate looks into the future: an observation of the millisecond before counts with
  its label, although that label is only known when its horizon ends, an hour to a week later.
  The forecast for an observation can so be 0 or 1 by an outcome that nobody could know then.
\<close>

theorem base_rate_uses_future_labels:
  "let obs = (\<lambda>y. [(k, \<lparr>ob_chain = c, ob_token = a, ob_anchor = t - 1, ob_trigger = trig, ob_launch = l, ob_labels = [(key, y)]\<rparr>),
                   (k', \<lparr>ob_chain = c, ob_token = a, ob_anchor = t, ob_trigger = trig, ob_launch = l, ob_labels = [(key, z)]\<rparr>)])
   in trailing_base_rate (per_key (obs True) key) t = 1 \<and> trailing_base_rate (per_key (obs False) key) t = 0 \<and>
      t < horizon_end_of (t - 1) key"
  using horizon_hour [of "snd key"]
  by (simp add: per_key_def trailing_base_rate_def share_of_def thirty_days_ms_def horizon_end_of_def)


section \<open>Coverage\<close>

lemma count_rows_split:
  "count_rows (\<lambda>r. p r \<and> q r) key rows + count_rows (\<lambda>r. p r \<and> \<not> q r) key rows = count_rows p key rows"
  by (induction rows) (auto simp: count_rows_def)

lemma count_rows_status:
  "count_rows (\<lambda>r. \<not> or_retrospective r) key rows =
   count_rows (\<lambda>r. \<not> or_retrospective r \<and> or_status r = OPending) key rows + count_rows (\<lambda>r. \<not> or_retrospective r \<and> or_status r = OResolved) key rows +
   count_rows (\<lambda>r. \<not> or_retrospective r \<and> or_status r = ONotApplicable) key rows + count_rows (\<lambda>r. \<not> or_retrospective r \<and> or_status r = OUnresolvable) key rows"
proof (induction rows)
  case (Cons r rows)
  then show ?case by (cases "or_status r") (simp_all add: count_rows_def)
qed (simp add: count_rows_def)

text \<open>
  The published coverage of a cell is complete: graded, due, not due, unresolvable and
  inapplicable rows add up to the live rows of the cell, none of them negative, and a cell is
  missing only when it has neither live rows nor graded backfill rows.
\<close>

theorem coverage_adds_up:
  "case read_coverage now rows key of
     None \<Rightarrow> count_rows (\<lambda>r. \<not> or_retrospective r) key rows = 0
   | Some c \<Rightarrow> 0 \<le> cv_not_due c \<and>
       int (cv_resolved c + cv_due c + cv_unresolvable c + cv_na c) + cv_not_due c = int (count_rows (\<lambda>r. \<not> or_retrospective r) key rows)"
proof -
  let ?due = "\<lambda>r. case or_horizon_at r of None \<Rightarrow> False | Some t \<Rightarrow> t \<le> now"
  have "count_rows (\<lambda>r. (\<not> or_retrospective r \<and> or_status r = OPending) \<and> ?due r) key rows \<le> count_rows (\<lambda>r. \<not> or_retrospective r \<and> or_status r = OPending) key rows"
    using count_rows_split [of "\<lambda>r. \<not> or_retrospective r \<and> or_status r = OPending" ?due key rows] by linarith
  then show ?thesis using count_rows_status [of key rows] by (simp add: read_coverage_def Let_def)
qed

end
