(* ===== verification/Publish.thy ===== *)
theory Publish
  imports Lifecycle
begin

text \<open>
  What the worker tells people: the operational alerts (\<open>apps/worker/src/alerts.ts\<close>) and the
  feed of qualified launches (\<open>apps/worker/src/telegram/poster.ts\<close>).  Sending a message is a
  parameter; the texts are records of what they say, without the fixed wording.
\<close>


section \<open>Alert checks\<close>

datatype alert_key = AlertStarved | AlertIds | AlertCommitLag | AlertWatcher

text \<open>The detail of a check: a fixed text, nothing recorded yet, or the minutes and the threshold in minutes.\<close>

datatype alert_detail = DetailOk | DetailBad | DetailNever | DetailAge int real

record alert_check =
  ac_key :: alert_key
  ac_bad :: bool
  ac_detail :: alert_detail

text \<open>The four readers: the newest lifecycle row, epoch, commit and watcher cursor.\<close>

record alert_inputs =
  ai_lifecycle :: "(life_state \<times> bool) option"
  ai_phantom :: "bool option"
  ai_commit :: "millis option"
  ai_watcher :: "millis option"

definition age_sec :: "millis \<Rightarrow> millis option \<Rightarrow> real option" where
  "age_sec now t = map_option (\<lambda>t. of_int (now - t) / 1000) t"

definition over_age :: "real option \<Rightarrow> real \<Rightarrow> bool" where
  "over_age a limit = (case a of None \<Rightarrow> False | Some s \<Rightarrow> s > limit)"

definition age_detail :: "real option \<Rightarrow> real \<Rightarrow> alert_detail" where
  "age_detail a limit = (case a of None \<Rightarrow> DetailNever | Some s \<Rightarrow> DetailAge (js_round (s / 60)) (limit / 60))"

definition evaluate_alerts :: "millis \<Rightarrow> real \<Rightarrow> real \<Rightarrow> alert_inputs \<Rightarrow> alert_check list" where
  "evaluate_alerts now commit_lag_sec watcher_sec i =
     (let starved = (case ai_lifecycle i of None \<Rightarrow> False | Some (s, m) \<Rightarrow> s = Starved);
          ids = ((case ai_lifecycle i of None \<Rightarrow> False | Some (s, m) \<Rightarrow> m) \<or> nullish (ai_phantom i) False);
          commit_age = age_sec now (ai_commit i); watcher_age = age_sec now (ai_watcher i)
      in [\<lparr>ac_key = AlertStarved, ac_bad = starved, ac_detail = (if starved then DetailBad else DetailOk)\<rparr>,
          \<lparr>ac_key = AlertIds, ac_bad = ids, ac_detail = (if ids then DetailBad else DetailOk)\<rparr>,
          \<lparr>ac_key = AlertCommitLag, ac_bad = over_age commit_age commit_lag_sec, ac_detail = age_detail commit_age commit_lag_sec\<rparr>,
          \<lparr>ac_key = AlertWatcher, ac_bad = over_age watcher_age watcher_sec, ac_detail = age_detail watcher_age watcher_sec\<rparr>])"

text \<open>A message: what it reports as wrong, or as recovered.\<close>

datatype alert_message = Alarm alert_key alert_detail | Recovery alert_key alert_detail

record alert_state =
  at_last :: "alert_key \<Rightarrow> bool option"
  at_tried :: "alert_message list"
  at_sent :: "alert_message list"

definition try_send :: "(alert_message \<Rightarrow> bool) \<Rightarrow> alert_message \<Rightarrow> alert_state \<Rightarrow> alert_state" where
  "try_send up m st = st\<lparr>at_tried := at_tried st @ [m], at_sent := (if up m then at_sent st @ [m] else at_sent st)\<rparr>"

definition apply_check :: "(alert_message \<Rightarrow> bool) \<Rightarrow> alert_check \<Rightarrow> alert_state \<Rightarrow> alert_state" where
  "apply_check up c st =
     (let was = nullish (at_last st (ac_key c)) False;
          st1 = (if ac_bad c \<and> \<not> was then try_send up (Alarm (ac_key c) (ac_detail c)) st
                 else if \<not> ac_bad c \<and> was then try_send up (Recovery (ac_key c) (ac_detail c)) st else st)
      in st1\<lparr>at_last := (at_last st1)(ac_key c := Some (ac_bad c))\<rparr>)"

definition apply_alert_transitions :: "(alert_message \<Rightarrow> bool) \<Rightarrow> alert_check list \<Rightarrow> alert_state \<Rightarrow> alert_state" where
  "apply_alert_transitions up checks st = fold (apply_check up) checks st"

text \<open>A turn of the loop: the readers answer or throw; whether sending works.\<close>

record alert_turn =
  ar_now :: millis
  ar_inputs :: "string + alert_inputs"
  ar_up :: "alert_message \<Rightarrow> bool"

definition alert_tick :: "real \<Rightarrow> real \<Rightarrow> alert_turn \<Rightarrow> alert_state \<Rightarrow> alert_state" where
  "alert_tick commit_lag_sec watcher_sec ti st =
     (case ar_inputs ti of
        Inl e \<Rightarrow> st
      | Inr i \<Rightarrow> apply_alert_transitions (ar_up ti) (evaluate_alerts (ar_now ti) commit_lag_sec watcher_sec i) st)"

definition fresh_alerts :: alert_state where
  "fresh_alerts = \<lparr>at_last = (\<lambda>k. None), at_tried = [], at_sent = []\<rparr>"


section \<open>The feed\<close>

definition min_peers :: nat where "min_peers = 20"
definition max_commit_lag_ms :: millis where "max_commit_lag_ms = 30 * 60000"
definition candidate_window_ms :: millis where "candidate_window_ms = 60 * 60000"
definition peer_window_ms :: millis where "peer_window_ms = 24 * 3600000"

text \<open>A report with its launch's lane and its commit: transaction and confirmation time.\<close>

record feed_row =
  fr_id :: string
  fr_token :: address
  fr_hash :: string
  fr_time :: millis
  fr_created :: millis
  fr_forecaster :: string
  fr_retrospective :: bool
  fr_qualified :: bool
  fr_insider :: "real option"
  fr_alive :: "real option"
  fr_commit :: "(string option \<times> millis option) option"
  fr_posted :: "millis option"

definition is_peer :: "feed_row \<Rightarrow> bool" where
  "is_peer r \<longleftrightarrow> fr_forecaster r = ''det_v0'' \<and> \<not> fr_retrospective r \<and> fr_qualified r"

definition feed_candidates :: "millis \<Rightarrow> nat \<Rightarrow> feed_row list \<Rightarrow> feed_row list" where
  "feed_candidates now limit rows =
     take limit (sort_key fr_created (filter (\<lambda>r. is_peer r \<and> fr_posted r = None \<and> fr_commit r \<noteq> None \<and> fr_time r \<ge> now - candidate_window_ms) rows))"

record peer_scores =
  ps_insider :: "real list"
  ps_alive :: "real list"

definition feed_peers :: "millis \<Rightarrow> feed_row list \<Rightarrow> peer_scores" where
  "feed_peers t rows =
     (let peers = filter (\<lambda>r. is_peer r \<and> fr_time r \<ge> t - peer_window_ms \<and> fr_time r < t) rows
      in \<lparr>ps_insider = List.map_filter fr_insider peers, ps_alive = List.map_filter fr_alive peers\<rparr>)"

datatype tier = Top10 | Top25 | Middle | Bottom25

definition rank_tier :: "real option \<Rightarrow> real list \<Rightarrow> tier option" where
  "rank_tier value peers =
     (case value of
        None \<Rightarrow> None
      | Some v \<Rightarrow>
          if length peers < min_peers then None
          else (let share = (real (length (filter (\<lambda>p. p < v) peers)) + real (length (filter (\<lambda>p. p = v) peers)) / 2) / real (length peers)
                in Some (if share \<ge> 9 / 10 then Top10 else if share \<ge> 3 / 4 then Top25 else if share \<ge> 1 / 4 then Middle else Bottom25)))"

definition committed_at :: "feed_row \<Rightarrow> millis option" where
  "committed_at r = (case fr_commit r of None \<Rightarrow> None | Some (tx, t) \<Rightarrow> t)"

definition is_fresh :: "feed_row \<Rightarrow> bool" where
  "is_fresh r = (case committed_at r of None \<Rightarrow> False | Some t \<Rightarrow> t - fr_time r \<le> max_commit_lag_ms)"

text \<open>The post; the ranking lines are there when one of the tiers is.\<close>

record feed_post =
  fp_id :: string
  fp_token :: address
  fp_tiers :: "(tier option \<times> tier option \<times> nat) option"
  fp_hash :: string
  fp_tx :: "string option"
  fp_lag_min :: "int option"

definition format_post :: "feed_row \<Rightarrow> peer_scores \<Rightarrow> feed_post" where
  "format_post r peers =
     (let insider = rank_tier (fr_insider r) (ps_insider peers); alive = rank_tier (fr_alive r) (ps_alive peers)
      in \<lparr>fp_id = fr_id r, fp_token = fr_token r,
          fp_tiers = (if insider \<noteq> None \<or> alive \<noteq> None then Some (insider, alive, max (length (ps_insider peers)) (length (ps_alive peers))) else None),
          fp_hash = fr_hash r, fp_tx = (case fr_commit r of Some (Some tx, t) \<Rightarrow> if tx = [] then None else Some tx | _ \<Rightarrow> None),
          fp_lag_min = map_option (\<lambda>t. max 0 (js_round (of_int (t - fr_time r) / 60000))) (committed_at r)\<rparr>)"

text \<open>What happens to a post: it is not sent, it is sent and marking its report fails, or both work.\<close>

datatype post_fate = NotSent | SentUnmarked | SentMarked

record feed_state =
  fs_rows :: "feed_row list"
  fs_log :: "feed_post list"

definition mark_posted :: "millis \<Rightarrow> string \<Rightarrow> feed_row list \<Rightarrow> feed_row list" where
  "mark_posted now i rows = map (\<lambda>r. if fr_id r = i then r\<lparr>fr_posted := Some now\<rparr> else r) rows"

definition post_one :: "(feed_post \<Rightarrow> post_fate) \<Rightarrow> millis \<Rightarrow> feed_row \<Rightarrow> feed_state \<times> nat \<times> nat \<Rightarrow> feed_state \<times> nat \<times> nat" where
  "post_one fate now r acc =
     (case acc of (st, posted, failed) \<Rightarrow>
        (let post = format_post r (feed_peers (fr_time r) (fs_rows st)) in
         case fate post of
           NotSent \<Rightarrow> (st, posted, failed + 1)
         | SentUnmarked \<Rightarrow> (st\<lparr>fs_log := fs_log st @ [post]\<rparr>, posted, failed + 1)
         | SentMarked \<Rightarrow> (st\<lparr>fs_log := fs_log st @ [post], fs_rows := mark_posted now (fr_id r) (fs_rows st)\<rparr>, posted + 1, failed)))"

text \<open>The sweep: the state, and the counts of candidates, stale ones, posts and failures.\<close>

definition post_qualified_launches :: "(feed_post \<Rightarrow> post_fate) \<Rightarrow> millis \<Rightarrow> nat \<Rightarrow> feed_state \<Rightarrow> feed_state \<times> nat \<times> nat \<times> nat \<times> nat" where
  "post_qualified_launches fate now limit st =
     (let all = feed_candidates now (limit * 10) (fs_rows st); fresh = filter is_fresh all in
      case fold (post_one fate now) (take limit fresh) (st, 0, 0) of
        (st', posted, failed) \<Rightarrow> (st', length all, length all - length fresh, posted, failed))"


section \<open>Alerts are edges\<close>

text \<open>The edges of a sequence of readings: where it changes, from a quiet start.\<close>

fun edges :: "bool \<Rightarrow> bool list \<Rightarrow> bool list" where
  "edges was [] = []"
| "edges was (b # bs) = (if b = was then edges b bs else b # edges b bs)"

fun message_key :: "alert_message \<Rightarrow> alert_key" where
  "message_key (Alarm k d) = k"
| "message_key (Recovery k d) = k"

fun is_alarm :: "alert_message \<Rightarrow> bool" where
  "is_alarm (Alarm k d) = True"
| "is_alarm (Recovery k d) = False"

definition alarms_of :: "alert_key \<Rightarrow> alert_state \<Rightarrow> bool list" where
  "alarms_of k st = map is_alarm (filter (\<lambda>m. message_key m = k) (at_tried st))"

definition last_bad :: "alert_key \<Rightarrow> alert_state \<Rightarrow> bool" where
  "last_bad k st = nullish (at_last st k) False"

lemma edges_append: "edges was (bs @ [b]) = edges was bs @ (if b = last (was # bs) then [] else [b])"
  by (induction bs arbitrary: was) auto

lemma apply_check_alarms:
  "alarms_of k (apply_check up c st) = alarms_of k st @ (if ac_key c = k \<and> ac_bad c \<noteq> last_bad k st then [ac_bad c] else []) \<and>
   last_bad k (apply_check up c st) = (if ac_key c = k then ac_bad c else last_bad k st)"
  by (auto simp: apply_check_def alarms_of_def last_bad_def try_send_def Let_def)

definition bad_at :: "real \<Rightarrow> real \<Rightarrow> alert_key \<Rightarrow> alert_turn \<Rightarrow> bool option" where
  "bad_at commit_lag_sec watcher_sec k ti =
     (case ar_inputs ti of
        Inl e \<Rightarrow> None
      | Inr i \<Rightarrow> map_option ac_bad (List.find (\<lambda>c. ac_key c = k) (evaluate_alerts (ar_now ti) commit_lag_sec watcher_sec i)))"

lemma alert_tick_alarms:
  "alarms_of k (alert_tick cl ws ti st) = alarms_of k st @
     (case bad_at cl ws k ti of None \<Rightarrow> [] | Some b \<Rightarrow> if b = last_bad k st then [] else [b]) \<and>
   last_bad k (alert_tick cl ws ti st) = (case bad_at cl ws k ti of None \<Rightarrow> last_bad k st | Some b \<Rightarrow> b)"
  by (cases k)
    (auto simp: alert_tick_def bad_at_def apply_alert_transitions_def evaluate_alerts_def Let_def apply_check_alarms split: sum.split)

text \<open>
  C29: Alerts are edge triggered: over any run of the loop the messages tried for a check are
  the edges of its readings, an alarm at each turn to bad and a recovery at each turn back, and
  turns whose readers fail count for nothing.
\<close>

theorem alerts_are_edges:
  "alarms_of k (fold (alert_tick commit_lag_sec watcher_sec) tis fresh_alerts) =
   edges False (List.map_filter (bad_at commit_lag_sec watcher_sec k) tis)"
proof -
  have "alarms_of k (fold (alert_tick cl ws) tis fresh_alerts) = edges False (List.map_filter (bad_at cl ws k) tis) \<and>
    last_bad k (fold (alert_tick cl ws) tis fresh_alerts) = last (False # List.map_filter (bad_at cl ws k) tis)" for cl ws
  proof (induction tis rule: rev_induct)
    case (snoc ti tis)
    then show ?case
      by (cases "bad_at cl ws k ti") (auto simp: alert_tick_alarms edges_append List.map_filter_def)
  qed (simp add: alarms_of_def last_bad_def fresh_alerts_def List.map_filter_def)
  then show ?thesis by blast
qed


lemma apply_check_sent:
  "\<not> (ac_key c = k \<and> ac_bad c \<noteq> last_bad k st) \<Longrightarrow>
   filter (\<lambda>m. message_key m = k) (at_sent (apply_check up c st)) = filter (\<lambda>m. message_key m = k) (at_sent st)"
  by (auto simp: apply_check_def last_bad_def try_send_def Let_def)

lemma apply_checks_sent:
  assumes "last_bad k st" and "list_all (\<lambda>c. ac_key c = k \<longrightarrow> ac_bad c) cs"
  shows "filter (\<lambda>m. message_key m = k) (at_sent (fold (apply_check up) cs st)) = filter (\<lambda>m. message_key m = k) (at_sent st) \<and>
    last_bad k (fold (apply_check up) cs st)"
  using assms by (induction cs arbitrary: st) (auto simp: apply_check_alarms apply_check_sent)

lemma bad_checks:
  assumes "bad_at cl ws k ti \<noteq> Some False" and "ar_inputs ti = Inr i"
  shows "list_all (\<lambda>c. ac_key c = k \<longrightarrow> ac_bad c) (evaluate_alerts (ar_now ti) cl ws i)"
  using assms by (cases k) (auto simp: bad_at_def evaluate_alerts_def Let_def)

lemma silent_send: "\<forall>m. \<not> up m \<Longrightarrow> at_sent (fold (apply_check up) cs st) = at_sent st"
  by (induction cs arbitrary: st) (auto simp: apply_check_def try_send_def Let_def)

text \<open>
  An alarm that cannot be sent is lost: the turn remembers the check as bad although the
  message failed, so while it stays bad nothing is ever sent about it, however well sending works
  again.
\<close>

theorem unsent_alarm_is_lost:
  assumes "bad_at commit_lag_sec watcher_sec k ti = Some True" and "\<forall>m. \<not> ar_up ti m"
    and "list_all (\<lambda>ti. bad_at commit_lag_sec watcher_sec k ti \<noteq> Some False) tis"
  shows "filter (\<lambda>m. message_key m = k) (at_sent (fold (alert_tick commit_lag_sec watcher_sec) (ti # tis) fresh_alerts)) = []"
proof -
  have tick: "filter (\<lambda>m. message_key m = k) (at_sent (alert_tick cl ws x st)) = filter (\<lambda>m. message_key m = k) (at_sent st) \<and>
      last_bad k (alert_tick cl ws x st)" if "bad_at cl ws k x \<noteq> Some False" "last_bad k st" for cl ws x st
  proof (cases "ar_inputs x")
    case (Inr i)
    then show ?thesis
      using apply_checks_sent [OF that(2) bad_checks [OF that(1) Inr]] by (simp add: alert_tick_def apply_alert_transitions_def)
  qed (simp add: alert_tick_def that(2))
  have run: "filter (\<lambda>m. message_key m = k) (at_sent (fold (alert_tick cl ws) xs st)) = filter (\<lambda>m. message_key m = k) (at_sent st)"
    if "list_all (\<lambda>ti. bad_at cl ws k ti \<noteq> Some False) xs" "last_bad k st" for cl ws xs st
    using that tick by (induction xs arbitrary: st) auto
  have "at_sent (alert_tick commit_lag_sec watcher_sec ti fresh_alerts) = []"
    using assms(2) by (simp add: alert_tick_def apply_alert_transitions_def silent_send fresh_alerts_def split: sum.split)
  moreover have "last_bad k (alert_tick commit_lag_sec watcher_sec ti fresh_alerts)"
    using assms(1) by (simp add: alert_tick_alarms)
  ultimately show ?thesis using run [OF assms(3)] by simp
qed

definition demo_turn :: "bool \<Rightarrow> alert_turn" where
  "demo_turn up = \<lparr>ar_now = 0, ar_inputs = Inr \<lparr>ai_lifecycle = Some (Starved, False), ai_phantom = None, ai_commit = None, ai_watcher = None\<rparr>,
     ar_up = (\<lambda>m. up)\<rparr>"

theorem unsent_alarm_is_lost_witness:
  "filter (\<lambda>m. message_key m = AlertStarved) (at_sent (fold (alert_tick 600 300) (demo_turn False # replicate 5 (demo_turn True)) fresh_alerts)) = []"
proof -
  have "bad_at 600 300 AlertStarved (demo_turn up) = Some True" for up
    by (simp add: bad_at_def demo_turn_def evaluate_alerts_def Let_def)
  moreover have "ar_up (demo_turn False) m = False" for m by (simp add: demo_turn_def)
  ultimately show ?thesis by (intro unsent_alarm_is_lost) (simp_all add: list_all_iff)
qed


section \<open>Tiers mean what they say\<close>

lemma three_way: "length (filter (\<lambda>p. p < v) ps) + length (filter (\<lambda>p. p = v) ps) + length (filter (\<lambda>p. (v :: real) < p) ps) = length ps"
  by (induction ps) auto

lemma div_ge_iff: "0 < n \<Longrightarrow> a / n \<ge> c \<longleftrightarrow> a \<ge> c * (n :: real)"
  by (simp add: pos_le_divide_eq)

text \<open>
  The tiers of the feed hold: a report in the top 10 percent has at most a tenth of its peers
  above it, one in the top quarter at most a quarter, one in the bottom quarter less than a
  quarter below it, and one in the middle half neither more than three quarters above nor below;
  no tier is given over fewer than 20 peers.
\<close>

theorem tiers_hold:
  "case rank_tier (Some v) peers of
     None \<Rightarrow> length peers < 20
   | Some Top10 \<Rightarrow> 20 \<le> length peers \<and> 10 * length (filter (\<lambda>p. v < p) peers) \<le> length peers
   | Some Top25 \<Rightarrow> 20 \<le> length peers \<and> 4 * length (filter (\<lambda>p. v < p) peers) \<le> length peers
   | Some Middle \<Rightarrow> 20 \<le> length peers \<and> 4 * length (filter (\<lambda>p. v < p) peers) \<le> 3 * length peers \<and>
       4 * length (filter (\<lambda>p. p < v) peers) < 3 * length peers
   | Some Bottom25 \<Rightarrow> 20 \<le> length peers \<and> 4 * length (filter (\<lambda>p. p < v) peers) < length peers"
proof (cases "length peers < 20")
  case False
  let ?b = "real (length (filter (\<lambda>p. p < v) peers))" and ?e = "real (length (filter (\<lambda>p. p = v) peers))"
    and ?a = "real (length (filter (\<lambda>p. v < p) peers))" and ?n = "real (length peers)"
  have sum: "?b + ?e + ?a = ?n" using arg_cong [OF three_way [of v peers], of real] by simp
  have pos: "0 < ?n" using False by linarith
  have share: "(?b + ?e / 2) / ?n \<ge> c \<longleftrightarrow> ?b + ?e / 2 \<ge> c * ?n" for c using div_ge_iff [OF pos] .
  have conv: "10 * length (filter (\<lambda>p. v < p) peers) \<le> length peers \<longleftrightarrow> 10 * ?a \<le> ?n"
    "4 * length (filter (\<lambda>p. v < p) peers) \<le> length peers \<longleftrightarrow> 4 * ?a \<le> ?n"
    "4 * length (filter (\<lambda>p. v < p) peers) \<le> 3 * length peers \<longleftrightarrow> 4 * ?a \<le> 3 * ?n"
    "4 * length (filter (\<lambda>p. p < v) peers) < 3 * length peers \<longleftrightarrow> 4 * ?b < 3 * ?n"
    "4 * length (filter (\<lambda>p. p < v) peers) < length peers \<longleftrightarrow> 4 * ?b < ?n" by linarith+
  have e: "0 \<le> ?e" "0 \<le> ?a" "0 \<le> ?b" by simp_all
  let ?s = "(?b + ?e / 2) / ?n"
  have tier: "rank_tier (Some v) peers = Some (if ?s \<ge> 9 / 10 then Top10 else if ?s \<ge> 3 / 4 then Top25 else if ?s \<ge> 1 / 4 then Middle else Bottom25)"
    using False by (simp only: rank_tier_def option.case min_peers_def Let_def if_False)
  consider (top10) "?s \<ge> 9 / 10" | (top25) "\<not> ?s \<ge> 9 / 10" "?s \<ge> 3 / 4"
    | (mid) "\<not> ?s \<ge> 9 / 10" "\<not> ?s \<ge> 3 / 4" "?s \<ge> 1 / 4" | (bottom) "\<not> ?s \<ge> 9 / 10" "\<not> ?s \<ge> 3 / 4" "\<not> ?s \<ge> 1 / 4" by blast
  then show ?thesis
  proof cases
    case top10
    have "10 * ?a \<le> ?n" using share [of "9 / 10"] top10 sum e by linarith
    then show ?thesis using False conv(1) top10 by (simp only: tier if_True option.case tier.case) linarith
  next
    case top25
    have "4 * ?a \<le> ?n" using share [of "3 / 4"] top25 sum e by linarith
    then show ?thesis using False conv(2) top25 by (simp only: tier if_True if_False option.case tier.case) linarith
  next
    case mid
    have "4 * ?a \<le> 3 * ?n" "4 * ?b < 3 * ?n" using share [of "3 / 4"] share [of "1 / 4"] mid sum e by linarith+
    then show ?thesis using False conv(3,4) mid by (simp only: tier if_True if_False option.case tier.case) linarith
  next
    case bottom
    have "4 * ?b < ?n" using share [of "1 / 4"] bottom sum e by linarith
    then show ?thesis using False conv(5) bottom by (simp only: tier if_False option.case tier.case) linarith
  qed
qed (simp add: rank_tier_def min_peers_def)



section \<open>What the feed posts\<close>

text \<open>
  A run of the feed: sweeps, and the changes that other parts of the worker make to the table --
  a new report, or the commit of one.
\<close>

datatype feed_event =
    FeedSweep "feed_post \<Rightarrow> post_fate" millis nat
  | FeedReport feed_row
  | FeedCommit string "string option \<times> millis option"

fun feed_step :: "feed_event \<Rightarrow> feed_state \<Rightarrow> feed_state" where
  "feed_step (FeedSweep fate now limit) st = fst (post_qualified_launches fate now limit st)"
| "feed_step (FeedReport r) st =
     (if fr_id r \<in> fr_id ` set (fs_rows st) then st else st\<lparr>fs_rows := fs_rows st @ [r\<lparr>fr_posted := None\<rparr>]\<rparr>)"
| "feed_step (FeedCommit i c) st = st\<lparr>fs_rows := map (\<lambda>r. if fr_id r = i then r\<lparr>fr_commit := Some c\<rparr> else r) (fs_rows st)\<rparr>"

definition empty_feed :: feed_state where "empty_feed = \<lparr>fs_rows = [], fs_log = []\<rparr>"

definition posted_ids :: "feed_state \<Rightarrow> string set" where
  "posted_ids st = fr_id ` {r \<in> set (fs_rows st). fr_posted r \<noteq> None}"

definition feed_ok :: "feed_state \<Rightarrow> bool" where
  "feed_ok st \<longleftrightarrow> distinct (map fr_id (fs_rows st)) \<and> distinct (map fp_id (fs_log st)) \<and> fp_id ` set (fs_log st) \<subseteq> posted_ids st"

lemma post_fields [simp]: "fp_id (format_post r ps) = fr_id r"
  by (simp add: format_post_def Let_def)

lemma mark_posted_ids [simp]: "map fr_id (mark_posted now i rows) = map fr_id rows"
  by (simp add: mark_posted_def)

lemma posted_iff: "x \<in> posted_ids st \<longleftrightarrow> (\<exists>r\<in>set (fs_rows st). fr_id r = x \<and> fr_posted r \<noteq> None)"
  by (auto simp: posted_ids_def)

lemma bex_map: "(\<exists>x\<in>set (map f xs). P x) \<longleftrightarrow> (\<exists>x\<in>set xs. P (f x))"
  by auto

lemma fs_rows_update: "fs_rows (st\<lparr>fs_rows := rs\<rparr>) = rs" "fs_rows (st\<lparr>fs_log := l, fs_rows := rs\<rparr>) = rs"
  by simp_all

lemma mark_posted_posted:
  "posted_ids (st\<lparr>fs_log := l, fs_rows := mark_posted now i (fs_rows st)\<rparr>) =
   posted_ids st \<union> ({i} \<inter> fr_id ` set (fs_rows st))"
proof -
  have "x \<in> posted_ids (st\<lparr>fs_log := l, fs_rows := mark_posted now i (fs_rows st)\<rparr>) \<longleftrightarrow> x \<in> posted_ids st \<or> x = i \<and> x \<in> fr_id ` set (fs_rows st)" for x
  proof -
    let ?f = "\<lambda>r. if fr_id r = i then r\<lparr>fr_posted := Some now\<rparr> else r"
    have "x \<in> posted_ids (st\<lparr>fs_log := l, fs_rows := mark_posted now i (fs_rows st)\<rparr>) \<longleftrightarrow> (\<exists>r\<in>set (fs_rows st). fr_id (?f r) = x \<and> fr_posted (?f r) \<noteq> None)"
      by (simp only: posted_iff fs_rows_update mark_posted_def bex_map)
    also have "\<dots> \<longleftrightarrow> (\<exists>r\<in>set (fs_rows st). fr_id r = x \<and> (fr_posted r \<noteq> None \<or> fr_id r = i))"
      by (intro bex_cong refl) auto
    also have "\<dots> \<longleftrightarrow> x \<in> posted_ids st \<or> x = i \<and> x \<in> fr_id ` set (fs_rows st)"
      unfolding posted_iff by blast
    finally show ?thesis .
  qed
  then show ?thesis by blast
qed

text \<open>A row still to be posted in this sweep.\<close>

definition unposted_in :: "feed_state \<Rightarrow> feed_row \<Rightarrow> bool" where
  "unposted_in st r \<longleftrightarrow> fr_id r \<in> fr_id ` set (fs_rows st) \<and> fr_id r \<notin> posted_ids st"

lemma post_one_ok:
  assumes "feed_ok st" and "unposted_in st r" and "\<forall>p. fate p \<noteq> SentUnmarked"
  shows "feed_ok (fst (post_one fate now r (st, a, b))) \<and>
    (unposted_in st r' \<and> fr_id r' \<noteq> fr_id r \<longrightarrow> unposted_in (fst (post_one fate now r (st, a, b))) r')"
proof (cases "fate (format_post r (feed_peers (fr_time r) (fs_rows st)))")
  case SentMarked
  let ?st = "st\<lparr>fs_log := fs_log st @ [format_post r (feed_peers (fr_time r) (fs_rows st))], fs_rows := mark_posted now (fr_id r) (fs_rows st)\<rparr>"
  have st': "fst (post_one fate now r (st, a, b)) = ?st" by (simp add: post_one_def SentMarked)
  have posted: "posted_ids ?st = insert (fr_id r) (posted_ids st)" using assms(2) by (auto simp: mark_posted_posted unposted_in_def)
  have ids: "fr_id ` set (mark_posted now (fr_id r) (fs_rows st)) = fr_id ` set (fs_rows st)"
    using mark_posted_ids [of now "fr_id r" "fs_rows st"] by (simp only: set_map [symmetric])
  have "feed_ok ?st" using assms(1,2) posted by (auto simp: feed_ok_def unposted_in_def)
  moreover have "unposted_in ?st r'" if "unposted_in st r'" "fr_id r' \<noteq> fr_id r"
    using that posted ids by (simp add: unposted_in_def)
  ultimately show ?thesis unfolding st' by blast
qed (use assms in \<open>auto simp: post_one_def\<close>)

lemma post_rows_ok:
  assumes "feed_ok st" and "list_all (unposted_in st) rs" and "distinct (map fr_id rs)" and "\<forall>p. fate p \<noteq> SentUnmarked"
  shows "feed_ok (fst (fold (post_one fate now) rs (st, a, b)))"
  using assms(1-3)
proof (induction rs arbitrary: st a b)
  case (Cons r rs)
  obtain st' a' b' where r: "post_one fate now r (st, a, b) = (st', a', b')" by (metis surj_pair)
  have ok: "feed_ok st'" using post_one_ok [OF _ _ assms(4), of st r now a b] Cons.prems r by simp
  have "list_all (unposted_in st') rs"
    unfolding list_all_iff
  proof
    fix r' assume r': "r' \<in> set rs"
    then have "fr_id r' \<noteq> fr_id r" using Cons.prems(3) by (force simp: image_iff)
    then show "unposted_in st' r'"
      using r' post_one_ok [OF _ _ assms(4), of st r now a b r'] Cons.prems r by (auto simp: list_all_iff)
  qed
  then show ?case using Cons.IH [OF ok] Cons.prems r by simp
qed simp

lemma distinct_map_filter_sort: "distinct (map f rs) \<Longrightarrow> distinct (map f (take n (filter q (take m (sort_key g (filter p rs))))))"
  by (auto simp: distinct_map distinct_take inj_on_def dest!: in_set_takeD)

lemma sweep_ok:
  assumes "feed_ok st" and "\<forall>p. fate p \<noteq> SentUnmarked"
  shows "feed_ok (fst (post_qualified_launches fate now limit st))"
proof -
  let ?rs = "take limit (filter is_fresh (feed_candidates now (limit * 10) (fs_rows st)))"
  have ids: "distinct (map fr_id (fs_rows st))" using assms(1) by (simp add: feed_ok_def)
  have un: "unposted_in st r" if "r \<in> set ?rs" for r
  proof -
    have r: "r \<in> set (fs_rows st)" "fr_posted r = None"
      using that by (auto simp: feed_candidates_def dest!: in_set_takeD)
    have "r' = r" if "r' \<in> set (fs_rows st)" "fr_id r' = fr_id r" for r'
      using that r(1) ids by (auto simp: distinct_map inj_on_def)
    then show ?thesis using r by (auto simp: unposted_in_def posted_ids_def)
  qed
  have "distinct (map fr_id ?rs)" unfolding feed_candidates_def by (rule distinct_map_filter_sort) (rule ids)
  then have "feed_ok (fst (fold (post_one fate now) ?rs (st, 0, 0)))"
    using post_rows_ok [OF assms(1) _ _ assms(2), of ?rs now 0 0] un by (simp add: list_all_iff)
  then show ?thesis by (simp add: post_qualified_launches_def Let_def case_prod_unfold)
qed

lemma feed_step_ok:
  assumes "feed_ok st" and "case ev of FeedSweep fate now limit \<Rightarrow> \<forall>p. fate p \<noteq> SentUnmarked | e \<Rightarrow> True"
  shows "feed_ok (feed_step ev st)"
proof (cases ev)
  case (FeedSweep fate now limit)
  then show ?thesis using assms sweep_ok by simp
next
  case (FeedReport r)
  then show ?thesis using assms(1) by (auto simp: feed_ok_def posted_ids_def)
next
  case (FeedCommit i c)
  have "map fr_id (map (\<lambda>r. if fr_id r = i then r\<lparr>fr_commit := Some c\<rparr> else r) rs) = map fr_id rs" for rs by simp
  then have ids: "map fr_id (fs_rows (feed_step ev st)) = map fr_id (fs_rows st)" unfolding FeedCommit feed_step.simps fs_rows_update .
  have "x \<in> posted_ids (feed_step ev st) \<longleftrightarrow> x \<in> posted_ids st" for x
    unfolding FeedCommit feed_step.simps by (simp only: posted_iff fs_rows_update bex_map) (intro bex_cong refl, auto)
  then have "posted_ids (feed_step ev st) = posted_ids st" by blast
  moreover have "fs_log (feed_step ev st) = fs_log st" by (simp add: FeedCommit)
  ultimately show ?thesis using assms(1) unfolding feed_ok_def ids by simp
qed

text \<open>
  C28: The feed never repeats itself: over any run of sweeps, new reports and commits, as long as
  marking a sent report works, no report is posted twice, restarts included.
\<close>

theorem feed_posts_once:
  assumes "list_all (\<lambda>ev. case ev of FeedSweep fate now limit \<Rightarrow> \<forall>p. fate p \<noteq> SentUnmarked | e \<Rightarrow> True) evs"
  shows "distinct (map fp_id (fs_log (fold feed_step evs empty_feed)))"
proof -
  have "feed_ok (fold feed_step evs st)" if "feed_ok st" for st
    using assms that feed_step_ok by (induction evs arbitrary: st) auto
  moreover have "feed_ok empty_feed" by (simp add: feed_ok_def empty_feed_def posted_ids_def)
  ultimately show ?thesis by (simp add: feed_ok_def)
qed

definition demo_feed_row :: "string \<Rightarrow> millis \<Rightarrow> feed_row" where
  "demo_feed_row i t = \<lparr>fr_id = i, fr_token = ''0xt'', fr_hash = ''0xh'', fr_time = t, fr_created = t, fr_forecaster = ''det_v0'',
     fr_retrospective = False, fr_qualified = True, fr_insider = Some (1 / 2), fr_alive = None, fr_commit = None, fr_posted = None\<rparr>"

definition demo_feed :: "post_fate \<Rightarrow> feed_event list" where
  "demo_feed fate = [FeedReport (demo_feed_row ''r'' 0), FeedCommit ''r'' (Some ''0xtx'', Some 600000),
     FeedSweep (\<lambda>p. fate) 700000 5, FeedSweep (\<lambda>p. fate) 800000 5]"

theorem feed_posts_once_witness:
  "distinct (map fp_id (fs_log (fold feed_step (demo_feed SentMarked) empty_feed))) \<and>
   map fp_id (fs_log (fold feed_step (demo_feed SentMarked) empty_feed)) = [''r'']"
proof
  show "distinct (map fp_id (fs_log (fold feed_step (demo_feed SentMarked) empty_feed)))"
    by (rule feed_posts_once) (simp add: demo_feed_def)
  show "map fp_id (fs_log (fold feed_step (demo_feed SentMarked) empty_feed)) = [''r'']" by code_simp
qed

text \<open>When the mark of a sent report fails, the next sweep sends it again.\<close>

lemma unmarked_post_repeats: "map fp_id (fs_log (fold feed_step (demo_feed SentUnmarked) empty_feed)) = [''r'', ''r'']"
  by code_simp

text \<open>
  A backlog of stale reports blocks the feed: while the oldest candidates, ten times the
  limit, were committed too late to be posted, a sweep posts nothing, whatever fresh reports wait
  behind them.
\<close>

theorem stale_backlog_blocks_feed:
  assumes "list_all (\<lambda>r. \<not> is_fresh r) (feed_candidates now (limit * 10) (fs_rows st))"
  shows "fst (post_qualified_launches fate now limit st) = st"
  using assms by (simp add: post_qualified_launches_def Let_def list_all_iff filter_empty_conv [THEN iffD2])

theorem stale_backlog_blocks_feed_witness:
  "let rows = map (\<lambda>t. (demo_feed_row (replicate (nat t) CHR ''s'') t)\<lparr>fr_commit := Some (None, Some (t + 2000000))\<rparr>) [1..10] @
        [(demo_feed_row ''fresh'' 60)\<lparr>fr_commit := Some (None, Some 1000)\<rparr>];
       st = \<lparr>fs_rows = rows, fs_log = []\<rparr>
   in fst (post_qualified_launches (\<lambda>p. SentMarked) 2100000 1 st) = st \<and> is_fresh (last rows)"
  unfolding Let_def
proof (rule conjI, rule stale_backlog_blocks_feed)
qed code_simp+

text \<open>
  Everything the feed posts was committed on time: over any run, whatever sending and marking
  do, a post names a commit at most 30 minutes after its anchor.
\<close>

theorem feed_posts_are_fresh:
  "list_all (\<lambda>p. case fp_lag_min p of None \<Rightarrow> False | Some m \<Rightarrow> 0 \<le> m \<and> m \<le> 30) (fs_log (fold feed_step evs empty_feed))"
proof -
  have post: "case fp_lag_min (format_post r ps) of None \<Rightarrow> False | Some m \<Rightarrow> 0 \<le> m \<and> m \<le> 30" if fresh: "is_fresh r" for r ps
  proof -
    obtain t where t: "committed_at r = Some t" "t - fr_time r \<le> 1800000"
      using fresh by (auto simp: is_fresh_def max_commit_lag_ms_def split: option.splits)
    have "js_round (of_int (t - fr_time r) / 60000) \<le> js_round 30" using t(2) by (intro js_round_mono) simp
    then show ?thesis using t(1) by (simp add: format_post_def Let_def js_round_def)
  qed
  let ?ok = "\<lambda>st. list_all (\<lambda>p. case fp_lag_min p of None \<Rightarrow> False | Some m \<Rightarrow> 0 \<le> m \<and> m \<le> 30) (fs_log st)"
  have one: "?ok (fst (post_one fate now r acc))" if "?ok (fst acc)" "is_fresh r" for fate now r acc
    using that post by (cases acc) (auto simp: post_one_def Let_def split: post_fate.split)
  have rows: "?ok (fst (fold (post_one fate now) rs acc))" if "list_all is_fresh rs" "?ok (fst acc)" for fate now rs acc
    using that one by (induction rs arbitrary: acc) auto
  have "?ok (fst (post_qualified_launches fate now limit st))" if "?ok st" for fate now limit st
  proof -
    let ?rs = "take limit (filter is_fresh (feed_candidates now (limit * 10) (fs_rows st)))"
    have "list_all is_fresh ?rs" by (auto simp: list_all_iff dest: in_set_takeD)
    then have "?ok (fst (fold (post_one fate now) ?rs (st, 0, 0)))" by (rule rows) (simp add: that)
    then show ?thesis unfolding post_qualified_launches_def Let_def case_prod_unfold fst_conv .
  qed
  then have "?ok (feed_step ev st)" if "?ok st" for ev st
    using that by (cases ev) auto
  then have "?ok (fold feed_step evs st)" if "?ok st" for st
    using that by (induction evs arbitrary: st) auto
  then show ?thesis by (simp add: empty_feed_def)
qed

end
