(* ===== verification/Api.thy ===== *)
theory Api
  imports DeepdiveFacts Receipts Publish Collect
begin

text \<open>
  The public read side (\<open>apps/api/src\<close>): the budget panel (\<open>budget-display.ts\<close>) and the estimator
  summary of \<open>/v1/lifecycle\<close>, the paged launch feed, the reports and proofs of a token, the
  request for a deep dive (\<open>server.ts\<close>, \<open>auth.ts\<close>, \<open>mcp.ts\<close>), the funding scan (\<open>funding.ts\<close>) and
  the metrics (\<open>metrics.ts\<close>).  HTTP routing, BullMQ, base64url and the chain client are
  parameters; a route is its answer as a value.
\<close>


section \<open>The budget panel\<close>

record panel_inputs =
  xi_daily_cap :: real
  xi_cap_run :: real
  xi_today :: real
  xi_provider :: real
  xi_balance :: "real option"
  xi_reserve :: real
  xi_billing :: "billing_status option"
  xi_trailing :: "real option"

datatype cap_source = CreditLinked | FlatFallback

record budget_panel =
  xd_daily_cap :: real
  xd_effective_cap :: real
  xd_binding :: binding_constraint
  xd_source :: cap_source
  xd_credit_share :: "real option"
  xd_cap_run :: real
  xd_spent_today :: real
  xd_remaining :: real
  xd_spendable :: real
  xd_max_run :: real
  xd_allowed :: bool
  xd_reason :: gate_reason
  xd_closed_by_billing :: bool
  xd_stale :: bool
  xd_unknown :: bool

definition panel_spendable :: "panel_inputs \<Rightarrow> real" where
  "panel_spendable i = (case xi_balance i of None \<Rightarrow> xi_daily_cap i | Some b \<Rightarrow> b - xi_reserve i)"

definition panel_budget :: "panel_inputs \<Rightarrow> budget_breakdown option" where
  "panel_budget i = map_option (\<lambda>trailing. daily_deepdive_budget \<lparr>bi_daily_cap = xi_daily_cap i, bi_trailing_credits = trailing,
     bi_key_remaining = panel_spendable i + xi_reserve i, bi_reserve = xi_reserve i\<rparr>) (xi_trailing i)"

definition panel_gate :: "panel_inputs \<Rightarrow> run_gate" where
  "panel_gate i = deepdive_run_gate \<lparr>gi_cap_per_run = xi_cap_run i,
     gi_daily_cap = (case panel_budget i of None \<Rightarrow> xi_daily_cap i | Some b \<Rightarrow> bb_budget b),
     gi_today_spend = xi_today i, gi_provider_today = Some (xi_provider i), gi_spendable = panel_spendable i, gi_billing = xi_billing i\<rparr>"

definition budget_display :: "panel_inputs \<Rightarrow> budget_panel" where
  "budget_display i =
     (let eff = panel_budget i; gate = panel_gate i in
      \<lparr>xd_daily_cap = round2 (xi_daily_cap i),
       xd_effective_cap = round2 (case eff of None \<Rightarrow> xi_daily_cap i | Some b \<Rightarrow> bb_budget b),
       xd_binding = (case eff of None \<Rightarrow> DailyCap | Some b \<Rightarrow> bb_binding b),
       xd_source = (if xi_trailing i = None then FlatFallback else CreditLinked), xd_credit_share = map_option bb_credit_share eff,
       xd_cap_run = round2 (xi_cap_run i), xd_spent_today = round2 (max (xi_today i) (xi_provider i)),
       xd_remaining = rg_remaining_today gate, xd_spendable = round2 (max 0 (panel_spendable i)),
       xd_max_run = (if rg_allowed gate then rg_max_run_cost gate else 0), xd_allowed = rg_allowed gate, xd_reason = rg_reason gate,
       xd_closed_by_billing = (xi_billing i = Some Anomaly \<or> xi_billing i = Some PhantomSpend),
       xd_stale = rg_balance_stale gate, xd_unknown = (xi_balance i = None)\<rparr>)"


section \<open>The lifecycle endpoint\<close>

text \<open>\<open>clampLimit\<close> and the limit of the lifecycle window; \<open>None\<close> for a text that is no finite number.\<close>

definition js_trunc :: "real \<Rightarrow> int" where
  "js_trunc x = (if x < 0 then \<lceil>x\<rceil> else \<lfloor>x\<rfloor>)"

definition clamp_limit :: "real option \<Rightarrow> int \<Rightarrow> int" where
  "clamp_limit n most = (case n of None \<Rightarrow> 50 | Some x \<Rightarrow> min most (max 1 (js_trunc x)))"

definition lifecycle_limit :: "real option \<Rightarrow> int" where
  "lifecycle_limit n = (case n of None \<Rightarrow> 200 | Some x \<Rightarrow> min 1000 (max 1 (js_trunc x)))"

text \<open>The newest rows, oldest first; of a row only what the panel reads.\<close>

definition lifecycle_entries :: "nat \<Rightarrow> life_snapshot list \<Rightarrow> life_snapshot list" where
  "lifecycle_entries limit rows = rev (take limit (sort_key (\<lambda>s. - sn_at s) rows))"

record panel_env =
  xe_daily_cap :: real
  xe_cap_run :: real
  xe_reserve :: real

text \<open>\<open>funding\<close> is the trailing figure of a configured funding read, \<open>today\<close> the ledger and the provider.\<close>

definition lifecycle_panel_inputs ::
    "panel_env \<Rightarrow> life_snapshot list \<Rightarrow> billing_status option \<Rightarrow> real option \<Rightarrow> real \<times> real \<Rightarrow> panel_inputs" where
  "lifecycle_panel_inputs env entries estimator_billing funding today =
     (let with_balance = List.find (\<lambda>e. sn_balance e \<noteq> None) (rev entries);
          latest = (if entries = [] then None else Some (last entries))
      in \<lparr>xi_daily_cap = xe_daily_cap env, xi_cap_run = xe_cap_run env, xi_today = fst today, xi_provider = snd today,
          xi_balance = Option.bind with_balance sn_balance, xi_reserve = xe_reserve env,
          xi_billing = coalesce [Option.bind with_balance sn_billing, Option.bind latest sn_billing, estimator_billing],
          xi_trailing = funding\<rparr>)"

text \<open>The spend since midnight UTC.\<close>

definition today_spend :: "millis \<Rightarrow> ledger \<Rightarrow> (millis \<times> real) list \<Rightarrow> real \<times> real" where
  "today_spend now rows epochs =
     (total_spend (Some (start_of_utc_day now)) None rows, sum_list (map snd (filter (\<lambda>(t, d). start_of_utc_day now \<le> t) epochs)))"

record graded_epoch =
  ge_at :: millis
  ge_provider :: real
  ge_local :: real
  ge_requests :: nat
  ge_discrepancy :: "real option"
  ge_factor :: "real option"
  ge_billing :: billing_status

datatype estimator_basis = EpochReconciled | LocalLedger | NoBasis

record estimator_summary =
  eu_windows :: nat
  eu_provider :: real
  eu_estimated :: real
  eu_requests :: nat
  eu_mean_abs :: "real option"
  eu_latest :: "graded_epoch option"
  eu_basis :: estimator_basis

text \<open>\<open>_sum\<close> of a nullable column is null when no row has a value.\<close>

definition sum_some :: "('a \<Rightarrow> real option) \<Rightarrow> 'a list \<Rightarrow> real option" where
  "sum_some f rows = (let vs = List.map_filter f rows in if vs = [] then None else Some (sum_list vs))"

definition estimator_reader :: "millis \<Rightarrow> graded_epoch list \<Rightarrow> ledger \<Rightarrow> estimator_summary" where
  "estimator_reader now epochs spends =
     (let since = now - 24 * 3600000; rows = sort_key (\<lambda>e. - ge_at e) (filter (\<lambda>e. since \<le> ge_at e) epochs) in
      if rows = [] then
        (let spend = filter (\<lambda>r. since \<le> sr_at r) spends in
         if spend = [] then
           \<lparr>eu_windows = 0, eu_provider = 0, eu_estimated = 0, eu_requests = 0, eu_mean_abs = None, eu_latest = None, eu_basis = NoBasis\<rparr>
         else
           \<lparr>eu_windows = 0, eu_provider = 0,
            eu_estimated = round4 (nullish (coalesce [sum_some sr_estimate spend, Some (sum_list (map sr_cost spend))]) 0),
            eu_requests = length spend, eu_mean_abs = None, eu_latest = None, eu_basis = LocalLedger\<rparr>)
      else
        (let graded = List.map_filter ge_discrepancy rows in
         \<lparr>eu_windows = length rows, eu_provider = round4 (sum_list (map ge_provider rows)),
          eu_estimated = round4 (sum_list (map ge_local rows)), eu_requests = sum_list (map ge_requests rows),
          eu_mean_abs = (if graded = [] then None else Some (round2 (sum_list (map abs graded) / real (length graded)))),
          eu_latest = Some (hd rows), eu_basis = EpochReconciled\<rparr>))"


section \<open>The launch feed\<close>

type_synonym launch_cursor = "int \<times> string"

definition id_char :: "char \<Rightarrow> bool" where
  "id_char c \<longleftrightarrow> c \<in> set ''ABCDEFGHIJKLMNOPQRSTUVWXYZabcdefghijklmnopqrstuvwxyz0123456789_-''"

definition digit_char :: "char \<Rightarrow> bool" where
  "digit_char c \<longleftrightarrow> c \<in> set ''0123456789''"

definition nat_of_digits :: "string \<Rightarrow> nat" where
  "nat_of_digits s = fold (\<lambda>c n. n * 10 + (of_char c - 48)) s 0"

definition encode_launch_cursor :: "(string \<Rightarrow> string) \<Rightarrow> launch_cursor \<Rightarrow> string" where
  "encode_launch_cursor b64 c = b64 (show_int (fst c) @ '':'' @ snd c)"

definition decode_launch_cursor :: "(string \<Rightarrow> string) \<Rightarrow> string \<Rightarrow> launch_cursor option" where
  "decode_launch_cursor unb64 s =
     (let text = unb64 s; block = takeWhile (\<lambda>c. c \<noteq> CHR '':'') text; rest = drop (length block) text in
      if list_all digit_char block \<and> block \<noteq> [] \<and> length block \<le> 20 \<and> rest \<noteq> [] \<and> list_all id_char (tl rest) \<and>
         tl rest \<noteq> [] \<and> length (tl rest) \<le> 64
      then Some (int (nat_of_digits block), tl rest) else None)"

definition feed_key :: "deep_launch \<Rightarrow> int \<times> string" where
  "feed_key l = (dl_block l, dl_id l)"

definition before_cursor :: "launch_cursor option \<Rightarrow> deep_launch \<Rightarrow> bool" where
  "before_cursor before l =
     (case before of None \<Rightarrow> True | Some (b, i) \<Rightarrow> dl_block l < b \<or> dl_block l = b \<and> dl_id l < i)"

text \<open>The query: newest first by block and id.\<close>

definition feed_page :: "nat \<Rightarrow> launch_cursor option \<Rightarrow> deep_launch list \<Rightarrow> deep_launch list" where
  "feed_page limit before launches =
     take limit (rev (sort_key feed_key (filter (\<lambda>l. \<not> dl_retrospective l \<and> before_cursor before l) launches)))"

definition next_cursor :: "nat \<Rightarrow> deep_launch list \<Rightarrow> launch_cursor option" where
  "next_cursor limit page = (if length page = limit \<and> page \<noteq> [] then Some (feed_key (last page)) else None)"

record feed_report =
  fd_token :: address
  fd_forecaster :: string
  fd_created :: millis
  fd_probabilities :: "outcome_key \<Rightarrow> real option"
  fd_hash :: hex
  fd_commit :: "(hex option \<times> millis option) option"

record launch_feed_row =
  lf_launch :: deep_launch
  lf_report :: "(real option \<times> real option \<times> real option \<times> hex) option"
  lf_proof :: "(hex option \<times> millis option) option"

text \<open>The newest \<open>det_v0\<close> report of a token, of whichever launch or chain.\<close>

definition newest_det :: "feed_report list \<Rightarrow> address \<Rightarrow> feed_report option" where
  "newest_det reps token =
     List.find (\<lambda>r. fd_token r = token) (sort_key (\<lambda>r. - fd_created r) (filter (\<lambda>r. fd_forecaster r = ''det_v0'') reps))"

definition launch_feed :: "nat \<Rightarrow> launch_cursor option \<Rightarrow> feed_report list \<Rightarrow> deep_launch list \<Rightarrow> launch_feed_row list" where
  "launch_feed limit before reps launches =
     map (\<lambda>l. let r = newest_det reps (dl_token l) in
       \<lparr>lf_launch = l,
        lf_report = map_option (\<lambda>r. (fd_probabilities r (InsiderExit, H24), fd_probabilities r (Drawdown80, H24),
          fd_probabilities r (TradingAlive, H24), fd_hash r)) r,
        lf_proof = Option.bind r fd_commit\<rparr>) (feed_page limit before launches)"

datatype 'a answer = Answer nat 'a | Problem nat string

text \<open>\<open>GET /v1/launches\<close>: the page and the next cursor.\<close>

definition launches_route ::
    "(string \<Rightarrow> string) \<Rightarrow> (string \<Rightarrow> string) \<Rightarrow> real option \<Rightarrow> string option \<Rightarrow> feed_report list \<Rightarrow> deep_launch list \<Rightarrow>
     (launch_feed_row list \<times> string option) answer" where
  "launches_route b64 unb64 limit_text before_text reps launches =
     (let limit = nat (clamp_limit limit_text 200);
          page = (\<lambda>before. let rows = launch_feed limit before reps launches in
            Answer 200 (rows, map_option (encode_launch_cursor b64) (next_cursor limit (map lf_launch rows))))
      in case clear_empty before_text of
           None \<Rightarrow> page None
         | Some s \<Rightarrow>
             (case decode_launch_cursor unb64 s of
                None \<Rightarrow> Problem 400 ''before must be a nextCursor from a previous page''
              | Some c \<Rightarrow> page (Some c)))"


section \<open>Reports and proofs\<close>

record api_report = feed_report +
  aq_time :: millis
  aq_version :: string
  aq_trigger :: string
  aq_confidence :: "real option"
  aq_passed :: bool

text \<open>\<open>prismaReportReader\<close>: of the fifty newest reports of the token those of the newest one's time.\<close>

definition report_reader :: "api_report list \<Rightarrow> address \<Rightarrow> (millis \<times> api_report list) option" where
  "report_reader reps token =
     (case take 50 (sort_key (\<lambda>r. - fd_created r) (filter (\<lambda>r. fd_token r = token) reps)) of
        [] \<Rightarrow> None
      | r # rs \<Rightarrow> Some (aq_time r, filter (\<lambda>q. aq_time q = aq_time r) (r # rs)))"

record proof_row =
  pv_hash :: hex
  pv_committed :: bool
  pv_available :: bool
  pv_valid :: "bool option"
  pv_root :: "hex option"
  pv_index :: "int option"
  pv_proof :: "hex list option"
  pv_tx :: "hex option"
  pv_block :: "nat option"
  pv_on_chain :: "bool option"

text \<open>The roots that the registry's \<open>BatchCommitted\<close> logs of a block name; an error is an unknown.\<close>

definition root_confirmed :: "(address \<Rightarrow> nat \<Rightarrow> string + hex option list) option \<Rightarrow> address option \<Rightarrow> receipt_commit \<Rightarrow> bool option" where
  "root_confirmed client registry c =
     (case (registry, rx_block c, client) of
        (Some a, Some n, Some logs) \<Rightarrow>
          (case logs a n of Inl e \<Rightarrow> None
           | Inr roots \<Rightarrow> Some (list_ex (\<lambda>r. map_option lower r = Some (lower (rx_root c))) roots))
      | _ \<Rightarrow> None)"

definition proof_reader ::
    "hasher \<Rightarrow> (address \<Rightarrow> nat \<Rightarrow> string + hex option list) option \<Rightarrow> address option \<Rightarrow> receipt_row list \<Rightarrow> hex \<Rightarrow> proof_row option" where
  "proof_reader H client registry rows h =
     (case List.find (\<lambda>r. rt_hash r = h) rows of
        None \<Rightarrow> None
      | Some r \<Rightarrow>
          (let none = \<lparr>pv_hash = h, pv_committed = False, pv_available = False, pv_valid = None, pv_root = None, pv_index = None,
             pv_proof = None, pv_tx = None, pv_block = None, pv_on_chain = None\<rparr>
           in case rt_commit r of
                None \<Rightarrow> Some none
              | Some c \<Rightarrow>
                  (case List.find (\<lambda>l. lower (sl_hash l) = h) (nullish (rx_leaves c) []) of
                     None \<Rightarrow> Some (none\<lparr>pv_committed := True\<rparr>)
                   | Some l \<Rightarrow>
                       Some \<lparr>pv_hash = h, pv_committed = True, pv_available = True,
                         pv_valid = Some (verify_proof H h (sl_proof l) (rx_root c)), pv_root = Some (rx_root c),
                         pv_index = Some (sl_index l), pv_proof = Some (sl_proof l), pv_tx = rx_tx c, pv_block = rx_block c,
                         pv_on_chain = root_confirmed client registry c\<rparr>)))"

definition hex_of_length :: "nat \<Rightarrow> string \<Rightarrow> bool" where
  "hex_of_length n s \<longleftrightarrow> take 2 s = ''0x'' \<and> length s = n + 2 \<and> list_all is_hex_digit (lower (drop 2 s))"

text \<open>The routes with a token or a hash in the path: the readers see it in lower case.\<close>

definition report_route :: "api_report list \<Rightarrow> string \<Rightarrow> (millis \<times> api_report list) answer" where
  "report_route reps token =
     (if \<not> hex_of_length 40 token then Problem 400 ''token must be a 20-byte hex address''
      else case report_reader reps (lower token) of
        None \<Rightarrow> Problem 404 ''no report for this token yet''
      | Some row \<Rightarrow> Answer 200 row)"

definition proof_route ::
    "hasher \<Rightarrow> (address \<Rightarrow> nat \<Rightarrow> string + hex option list) option \<Rightarrow> address option \<Rightarrow> receipt_row list \<Rightarrow> string \<Rightarrow> proof_row answer" where
  "proof_route H client registry rows h =
     (if \<not> hex_of_length 64 h then Problem 400 ''hash must be a 32-byte hex value''
      else case proof_reader H client registry rows (lower h) of
        None \<Rightarrow> Problem 404 ''unknown report hash''
      | Some row \<Rightarrow> Answer 200 row)"

definition benchmark_route :: "benchmark_snapshot option \<Rightarrow> benchmark_snapshot answer" where
  "benchmark_route stored =
     (case stored of
        None \<Rightarrow> Problem 503 ''benchmark not yet computed''
      | Some b \<Rightarrow> Answer 200 b)"


section \<open>Requests\<close>

record caller_auth =
  ca_partner :: bool
  ca_prefix :: "string option"

definition check_design_partner :: "string option \<Rightarrow> string list \<Rightarrow> caller_auth" where
  "check_design_partner key known =
     (case key of
        None \<Rightarrow> \<lparr>ca_partner = False, ca_prefix = None\<rparr>
      | Some k \<Rightarrow>
          if k = [] \<or> known = [] \<or> k \<notin> set known then \<lparr>ca_partner = False, ca_prefix = None\<rparr>
          else \<lparr>ca_partner = True, ca_prefix = Some (take 6 k)\<rparr>)"

text \<open>The jobs handed to the two queues; \<open>add\<close> answers with a job id or throws.\<close>

record job_queues =
  jq_deepdive :: "address list"
  jq_assess :: "address list"

record queued_answer =
  qa_token :: address
  qa_job :: "string option"
  qa_partner :: bool

definition deepdive_route ::
    "(address \<Rightarrow> string + string option) \<Rightarrow> string list \<Rightarrow> string option \<Rightarrow> string \<Rightarrow> job_queues \<Rightarrow> queued_answer answer \<times> job_queues" where
  "deepdive_route add known key token q =
     (if \<not> hex_of_length 40 token then (Problem 400 ''token must be a 20-byte hex address'', q)
      else if \<not> ca_partner (check_design_partner key known) then (Problem 401 ''x-api-key required for /v1/deepdive'', q)
      else case add (lower token) of
        Inl e \<Rightarrow> (Problem 503 ''could not enqueue the deep-dive'', q)
      | Inr i \<Rightarrow> (Answer 202 \<lparr>qa_token = lower token, qa_job = i, qa_partner = True\<rparr>, q\<lparr>jq_deepdive := jq_deepdive q @ [lower token]\<rparr>))"

definition assess_route ::
    "(address \<Rightarrow> string + string option) \<Rightarrow> string list \<Rightarrow> string option \<Rightarrow> string \<Rightarrow> job_queues \<Rightarrow> queued_answer answer \<times> job_queues" where
  "assess_route add known key token q =
     (if \<not> hex_of_length 40 token then (Problem 400 ''token must be a 20-byte hex address'', q)
      else case add (lower token) of
        Inl e \<Rightarrow> (Problem 503 ''could not enqueue the assessment'', q)
      | Inr i \<Rightarrow> (Answer 202 \<lparr>qa_token = lower token, qa_job = i, qa_partner = ca_partner (check_design_partner key known)\<rparr>,
                   q\<lparr>jq_assess := jq_assess q @ [lower token]\<rparr>))"

text \<open>
  The MCP tools.  A token the schema refuses never reaches the handler; an error of the queue is
  the tool call's.  The texts are values.
\<close>

datatype mcp_call = McpReport string | McpBenchmark | McpDeepdive string

datatype mcp_answer =
    McpReportAnswer "(millis \<times> api_report list) option"
  | McpBenchmarkAnswer "benchmark_snapshot option"
  | McpQueued address "string option"
  | McpNoKey
  | McpRefused string

definition mcp_authed :: "string option \<Rightarrow> string list \<Rightarrow> bool" where
  "mcp_authed key known = (case key of None \<Rightarrow> False | Some k \<Rightarrow> k \<noteq> [] \<and> k \<in> set known)"

definition mcp_tool ::
    "api_report list \<Rightarrow> benchmark_snapshot option \<Rightarrow> (address \<Rightarrow> string + string option) \<Rightarrow> string list \<Rightarrow> string option \<Rightarrow> mcp_call \<Rightarrow>
     job_queues \<Rightarrow> mcp_answer \<times> job_queues" where
  "mcp_tool reps stored add known key call q =
     (case call of
        McpReport token \<Rightarrow>
          (if hex_of_length 40 token then McpReportAnswer (report_reader reps (lower token)) else McpRefused ''must be a 20-byte hex address'', q)
      | McpBenchmark \<Rightarrow> (McpBenchmarkAnswer stored, q)
      | McpDeepdive token \<Rightarrow>
          if \<not> hex_of_length 40 token then (McpRefused ''must be a 20-byte hex address'', q)
          else if \<not> mcp_authed key known then (McpNoKey, q)
          else case add (lower token) of
            Inl e \<Rightarrow> (McpRefused e, q)
          | Inr i \<Rightarrow> (McpQueued (lower token) i, q\<lparr>jq_deepdive := jq_deepdive q @ [lower token]\<rparr>))"


section \<open>Funding\<close>

record activation =
  av_id :: int
  av_usd :: real
  av_from :: address
  av_block :: int
  av_at :: "millis option"
  av_tx :: string

record funding_summary =
  fu_total :: real
  fu_operator :: real
  fu_agent :: real
  fu_trailing :: real
  fu_rows :: "(activation \<times> bool) list"

text \<open>The flag marks the agent's own activations.\<close>

definition summarize_funding :: "address \<Rightarrow> activation list \<Rightarrow> millis \<Rightarrow> funding_summary" where
  "summarize_funding account rows now =
     (let acts = sort_key (\<lambda>a. - av_block (fst a)) (map (\<lambda>r. (r, lower (av_from r) = lower account)) rows);
          total_of = (\<lambda>p. round_dp 6 (sum_list (map (\<lambda>a. av_usd (fst a)) (filter p acts))))
      in \<lparr>fu_total = total_of (\<lambda>a. True), fu_operator = total_of (\<lambda>a. \<not> snd a), fu_agent = total_of snd,
          fu_trailing = total_of (\<lambda>a. case av_at (fst a) of None \<Rightarrow> False | Some t \<Rightarrow> now - 86400000 \<le> t), fu_rows = acts\<rparr>)"

text \<open>A log of the \<open>Activated\<close> event for the account: id, micro-dollars, sender, block, transaction.\<close>

record activation_log =
  al_id :: "int option"
  al_amount :: "int option"
  al_from :: "address option"
  al_block :: int
  al_tx :: string

record funding_client =
  fc_head :: "string + int"
  fc_logs :: "int \<Rightarrow> int \<Rightarrow> string + activation_log list"
  fc_block_time :: "int \<Rightarrow> (string + int)"

definition activation_of :: "(int \<Rightarrow> string + int) \<Rightarrow> activation_log \<Rightarrow> activation" where
  "activation_of block_time l =
     \<lparr>av_id = nullish (al_id l) 0, av_usd = of_int (nullish (al_amount l) 0) / 1000000, av_from = nullish (al_from l) [],
      av_block = al_block l, av_at = (case block_time (al_block l) of Inl e \<Rightarrow> None | Inr s \<Rightarrow> Some (s * 1000)), av_tx = al_tx l\<rparr>"

record funding_state =
  ff_rows :: "activation list"
  ff_scanned :: int
  ff_refreshed :: millis

text \<open>The loop over chunks of 9,999 blocks; an error leaves what the finished chunks added.\<close>

function funding_chunks :: "funding_client \<Rightarrow> int \<Rightarrow> funding_state \<Rightarrow> bool \<times> funding_state" where
  "funding_chunks c head st =
     (let f = ff_scanned st + 1 in
      if f > head then (True, st)
      else
        (let t = (if f + 9998 > head then head else f + 9998) in
         case fc_logs c f t of
           Inl e \<Rightarrow> (False, st)
         | Inr logs \<Rightarrow> funding_chunks c head (st\<lparr>ff_rows := ff_rows st @ map (activation_of (fc_block_time c)) logs, ff_scanned := t\<rparr>)))"
  by pat_completeness auto
termination
  by (relation "measure (\<lambda>(c, head, st). nat (head - ff_scanned st))") auto

declare funding_chunks.simps [simp del]

definition funding_refresh :: "funding_client \<Rightarrow> millis \<Rightarrow> funding_state \<Rightarrow> bool \<times> funding_state" where
  "funding_refresh c now st =
     (case fc_head c of
        Inl e \<Rightarrow> (False, st)
      | Inr head \<Rightarrow> (case funding_chunks c head st of (ok, st') \<Rightarrow> (ok, if ok then st'\<lparr>ff_refreshed := now\<rparr> else st')))"

text \<open>A read: at most one refresh a minute; a failed refresh is the reader's error.\<close>

definition funding_reader :: "funding_client \<Rightarrow> address \<Rightarrow> millis \<Rightarrow> funding_state \<Rightarrow> funding_summary option \<times> funding_state" where
  "funding_reader c account now st =
     (if now - ff_refreshed st > 60000 then
        (case funding_refresh c now st of
           (ok, st') \<Rightarrow> (if ok then Some (summarize_funding account (ff_rows st') now) else None, st'))
      else (Some (summarize_funding account (ff_rows st) now), st))"

definition funding_start :: "int \<Rightarrow> funding_state" where
  "funding_start from_block = \<lparr>ff_rows = [], ff_scanned = from_block - 1, ff_refreshed = 0\<rparr>"


section \<open>Metrics\<close>

record launch_times =
  lt_created :: millis
  lt_launched :: "millis option"
  lt_has_det :: bool

record metric_outcome =
  mo_label :: outcome_label
  mo_status :: outcome_status
  mo_due :: "millis option"
  mo_measured :: "millis option"

record metric_tables =
  mt_watcher :: "millis option"
  mt_commit :: "millis option"
  mt_lifecycle :: "(life_state \<times> bool) option"
  mt_phantom :: "bool option"
  mt_launches :: "launch_times list"
  mt_reports :: "(millis \<times> bool \<times> millis option) list"
  mt_outcomes :: "metric_outcome list"

record metrics_snapshot =
  mx_watcher :: "real option"
  mx_commit :: "real option"
  mx_state :: "life_state option"
  mx_flagged :: bool
  mx_launches :: nat
  mx_reports :: nat
  mx_det_age :: "real option"
  mx_det_lag :: "real option"
  mx_coverage :: "real option"
  mx_outcomes :: "outcome_label \<Rightarrow> nat \<times> nat \<times> nat"

text \<open>\<open>mt_reports\<close>: creation, whether \<open>det_v0\<close>, the launch's time.  Counts are 0 for labels without rows.\<close>

definition metrics_reader :: "millis \<Rightarrow> metric_tables \<Rightarrow> metrics_snapshot" where
  "metrics_reader now m =
     (let since = now - 24 * 3600000;
          newest = (case sort_key (\<lambda>r. - fst r) (filter (\<lambda>r. fst (snd r)) (mt_reports m)) of [] \<Rightarrow> None | r # rs \<Rightarrow> Some r);
          eligible = filter (\<lambda>l. case lt_launched l of None \<Rightarrow> False | Some t \<Rightarrow> now - 2 * 3600000 \<le> t \<and> t < now - 3600000) (mt_launches m);
          due = (\<lambda>q. mo_status q = OPending \<and> (case mo_due q of None \<Rightarrow> False | Some t \<Rightarrow> t \<le> now))
      in \<lparr>mx_watcher = age_sec now (mt_watcher m), mx_commit = age_sec now (mt_commit m), mx_state = map_option fst (mt_lifecycle m),
          mx_flagged = ((case mt_lifecycle m of None \<Rightarrow> False | Some (s, ids) \<Rightarrow> ids) \<or> nullish (mt_phantom m) False),
          mx_launches = length (filter (\<lambda>l. since \<le> lt_created l) (mt_launches m)),
          mx_reports = length (filter (\<lambda>r. since \<le> fst r) (mt_reports m)),
          mx_det_age = age_sec now (map_option fst newest),
          mx_det_lag = (case newest of Some (created, det, Some launched) \<Rightarrow> Some (of_int (created - launched) / 1000) | _ \<Rightarrow> None),
          mx_coverage = (if eligible = [] then None else Some (real (length (filter lt_has_det eligible)) / real (length eligible))),
          mx_outcomes = (\<lambda>l. let rows = filter (\<lambda>q. mo_label q = l) (mt_outcomes m) in
            (length (filter due rows), length (filter (\<lambda>q. due q \<and> mo_measured q \<noteq> None) rows),
             length (filter (\<lambda>q. mo_status q = OResolved \<and> (case mo_measured q of None \<Rightarrow> False | Some t \<Rightarrow> since \<le> t)) rows)))\<rparr>)"

end
