(* ===== verification/ApiFacts.thy ===== *)
theory ApiFacts
  imports Api
begin

text \<open>
  The properties of the read side: when the budget panel and the worker's gate agree and when they
  cannot, what a walk over the paged feed returns, who may buy a deep dive, what the funding scan
  counts, and what the proof of a committed report says.
\<close>


section \<open>The panel and the gate\<close>

lemma find_take_filter:
  assumes "filter P xs = x # ys" and "x \<in> set (take n xs)"
  shows "List.find P (take n xs) = Some x"
proof -
  have split: "filter P (take n xs) @ filter P (drop n xs) = x # ys"
    using assms(1) by (metis append_take_drop_id filter_append)
  have "x \<in> set (filter P xs)" by (simp add: assms(1))
  then have "P x" by simp
  then have "filter P (take n xs) \<noteq> []" using assms(2) by (auto simp: filter_empty_conv)
  then obtain z zs where "filter P (take n xs) = z # zs" by (cases "filter P (take n xs)") auto
  with split show ?thesis by (simp add: find_Some_filter)
qed

text \<open>The row the panel reads is the worker's when the window holds it.\<close>

lemma panel_snapshot:
  assumes "latest_snapshot rows = Some s" and "s \<in> set (lifecycle_entries limit rows)"
  shows "List.find (\<lambda>e. sn_balance e \<noteq> None) (rev (lifecycle_entries limit rows)) = Some s" and "sn_balance s \<noteq> None"
proof -
  obtain ss where "sort_key (\<lambda>s. - sn_at s) (filter (\<lambda>s. sn_balance s \<noteq> None) rows) = s # ss"
    using assms(1) by (auto simp: latest_snapshot_def split: list.splits)
  then have one: "filter (\<lambda>s. sn_balance s \<noteq> None) (sort_key (\<lambda>s. - sn_at s) rows) = s # ss" by (simp add: filter_sort)
  then show "List.find (\<lambda>e. sn_balance e \<noteq> None) (rev (lifecycle_entries limit rows)) = Some s"
    using assms(2) by (simp add: lifecycle_entries_def find_take_filter)
  have "s \<in> set (filter (\<lambda>s. sn_balance s \<noteq> None) (sort_key (\<lambda>s. - sn_at s) rows))" by (simp only: one) simp
  then show "sn_balance s \<noteq> None" by simp
qed

definition panel_env_of :: "deep_env \<Rightarrow> panel_env" where
  "panel_env_of env = \<lparr>xe_daily_cap = dv_cap_day env, xe_cap_run = dv_cap_run env, xe_reserve = dv_reserve env\<rparr>"

text \<open>The trailing figure when the funding read and the worker's chain read see the same.\<close>

definition credit_seen :: "(string + real) option \<Rightarrow> real option" where
  "credit_seen credit = (case credit of Some (Inr t) \<Rightarrow> Some t | _ \<Rightarrow> None)"

definition panel_of :: "nat \<Rightarrow> deep_env \<Rightarrow> deep_io \<Rightarrow> billing_status option \<Rightarrow> deep_state \<Rightarrow> panel_inputs" where
  "panel_of limit env io est st =
     lifecycle_panel_inputs (panel_env_of env) (lifecycle_entries limit (io_snapshots io)) est (credit_seen (io_credit io))
       (today_spend (io_now io) (dt_ledger st) (io_epochs io))"

lemma panel_of_gate:
  assumes "latest_snapshot (io_snapshots io) = Some s" and "s \<in> set (lifecycle_entries limit (io_snapshots io))"
    and "sn_billing s = Some b"
  shows "panel_gate (panel_of limit env io est st) =
    (let u = load_budget env (io_now io) (dt_ledger st) (io_epochs io) (io_snapshots io) (io_credit io)
     in deepdive_run_gate \<lparr>gi_cap_per_run = dv_cap_run env, gi_daily_cap = bu_cap u, gi_today_spend = bu_today u,
       gi_provider_today = Some (bu_provider u), gi_spendable = bu_spendable u, gi_billing = Some b\<rparr>)"
proof -
  note find = panel_snapshot [OF assms(1,2)]
  obtain v where v: "sn_balance s = Some v" using find(2) by auto
  show ?thesis
    using find(1) v assms(1,3)
    by (simp add: panel_gate_def panel_of_def lifecycle_panel_inputs_def Let_def panel_env_of_def today_spend_def load_budget_def
      dynamic_daily_cap_def credit_seen_def panel_budget_def panel_spendable_def
      split: option.splits sum.splits)
qed

text \<open>
  C20: While the newest balance is at most three polls old, carries a billing status and is inside the
  window the endpoint was asked for, the panel shows exactly what the worker's gate decides: the
  same verdict, reason, remaining budget and cost cap.
\<close>

theorem panel_agrees_with_gate:
  assumes "latest_snapshot (io_snapshots io) = Some s" and "s \<in> set (lifecycle_entries limit (io_snapshots io))"
    and "sn_billing s \<noteq> None" and "of_int (io_now io - sn_at s) \<le> dv_poll_sec env * 1000 * 3"
  shows "panel_gate (panel_of limit env io est st) = run_gate_of env io st"
proof -
  obtain b where b: "sn_billing s = Some b" using assms(3) by auto
  have "bu_billing (load_budget env (io_now io) (dt_ledger st) (io_epochs io) (io_snapshots io) (io_credit io)) = Some b"
    using assms(1,4) b by (simp add: load_budget_def Let_def)
  then show ?thesis
    by (simp add: panel_of_gate [OF assms(1,2) b] run_gate_of_def Let_def)
qed

text \<open>
  Once that balance is older, they disagree: a panel that reads a compromise signal shows a closed
  gate, with its reason, while the worker calls the signal stale and is not stopped by billing.
\<close>

theorem stale_panel_disagrees:
  assumes "latest_snapshot (io_snapshots io) = Some s" and "s \<in> set (lifecycle_entries limit (io_snapshots io))"
    and "sn_billing s = Some PhantomSpend \<or> sn_billing s = Some Anomaly" and "dv_poll_sec env * 1000 * 3 < of_int (io_now io - sn_at s)"
  shows "\<not> xd_allowed (budget_display (panel_of limit env io est st)) \<and> xd_reason (budget_display (panel_of limit env io est st)) = BillingPaused \<and>
    xd_max_run (budget_display (panel_of limit env io est st)) = 0 \<and> rg_reason (run_gate_of env io st) \<noteq> BillingPaused"
proof -
  have stale: "bu_billing (load_budget env (io_now io) rows (io_epochs io) (io_snapshots io) credit) = Some Stale" for rows credit
    by (rule stale_billing [OF assms(1,4)])
  obtain b where b: "sn_billing s = Some b" "b = PhantomSpend \<or> b = Anomaly" using assms(3) by auto
  have closed: "\<not> rg_allowed (panel_gate (panel_of limit env io est st)) \<and> rg_reason (panel_gate (panel_of limit env io est st)) = BillingPaused"
    using b(2) by (auto simp: panel_of_gate [OF assms(1,2) b(1)] Let_def deepdive_run_gate_def gate_verdict_def)
  have "rg_reason (run_gate_of env io st) \<noteq> BillingPaused"
    by (simp add: run_gate_of_def Let_def deepdive_run_gate_def gate_verdict_def stale)
  then show ?thesis using closed by (simp add: budget_display_def Let_def)
qed

text \<open>
  A window that is too short for the newest balance -- \<open>?limit=1\<close> after one row without a balance is
  enough -- hides it: the panel then calls the balance unknown and shows the daily cap as
  spendable, while the worker keeps counting with the balance less the reserve.
\<close>

theorem short_window_hides_balance:
  assumes "latest_snapshot (io_snapshots io) = Some s" and "\<forall>e\<in>set (lifecycle_entries limit (io_snapshots io)). sn_balance e = None"
  shows "xd_unknown (budget_display (panel_of limit env io est st)) \<and>
    xd_spendable (budget_display (panel_of limit env io est st)) = round2 (max 0 (dv_cap_day env)) \<and>
    bu_spendable (load_budget env (io_now io) (dt_ledger st) (io_epochs io) (io_snapshots io) (io_credit io)) =
      the (sn_balance s) - dv_reserve env"
proof -
  have "List.find (\<lambda>e. sn_balance e \<noteq> None) (rev (lifecycle_entries limit (io_snapshots io))) = None"
    using assms(2) by (auto simp: find_None_iff)
  then show ?thesis
    using assms(1) by (simp add: budget_display_def Let_def panel_of_def lifecycle_panel_inputs_def panel_spendable_def panel_env_of_def load_budget_def)
qed


section \<open>Cursors\<close>

lemma digit_code: "(n :: nat) < 10 \<Longrightarrow> digit_char (char_of (48 + n)) \<and> of_char (char_of (48 + n) :: char) = 48 + n"
proof -
  assume n: "n < 10"
  have "list_all (\<lambda>k. digit_char (char_of (48 + k))) [0..<10]" by code_simp
  with n show ?thesis by (simp add: list_all_iff of_char_of)
qed

lemma digits_read:
  "list_all digit_char (digits n) \<and> digits n \<noteq> [] \<and> fold (\<lambda>c n. n * 10 + (of_char c - 48)) (digits n) 0 = n"
proof (induction n rule: digits.induct)
  case (1 n)
  show ?case
  proof (cases "n < 10")
    case True
    then show ?thesis using digit_code [of n] by (subst (1 2 3) digits.simps) simp
  next
    case False
    have "n mod 10 < 10" by simp
    then show ?thesis using 1 [OF False] digit_code [of "n mod 10"] False by (subst (1 2 3) digits.simps) simp
  qed
qed

lemma digits_length: "n < 10 ^ k \<Longrightarrow> 0 < k \<Longrightarrow> length (digits n) \<le> k"
proof (induction n arbitrary: k rule: digits.induct)
  case (1 n)
  show ?case
  proof (cases "n < 10")
    case True
    then show ?thesis using 1(3) by (subst digits.simps) simp
  next
    case False
    obtain j where j: "k = Suc j" using 1(3) by (cases k) auto
    have "0 < j" using False 1(2) j by (cases j) auto
    moreover have "n div 10 < 10 ^ j" using 1(2) j by auto
    ultimately show ?thesis using 1(1) [OF False] j False by (subst digits.simps) auto
  qed
qed

lemma digit_not_colon: "digit_char c \<Longrightarrow> c \<noteq> CHR '':''"
  by (auto simp: digit_char_def)

definition cursor_ok :: "launch_cursor \<Rightarrow> bool" where
  "cursor_ok c \<longleftrightarrow> 0 \<le> fst c \<and> fst c < 10 ^ 20 \<and> list_all id_char (snd c) \<and> snd c \<noteq> [] \<and> length (snd c) \<le> 64"

text \<open>A cursor comes back from its text, for a codec that gives its texts back.\<close>

definition codec_ok :: "(string \<Rightarrow> string) \<Rightarrow> (string \<Rightarrow> string) \<Rightarrow> bool" where
  "codec_ok b64 unb64 \<longleftrightarrow> (\<forall>s. unb64 (b64 s) = s \<and> (b64 s = [] \<longrightarrow> s = []))"

lemma cursor_roundtrip:
  assumes "codec_ok b64 unb64" and "cursor_ok c"
  shows "decode_launch_cursor unb64 (encode_launch_cursor b64 c) = Some c"
proof -
  obtain n where n: "fst c = int n" using assms(2) by (metis cursor_ok_def nonneg_int_cases)
  have show_n: "show_int (fst c) = digits n" by (simp add: n show_int_def)
  note d = digits_read [of n]
  have "n < 10 ^ 20" using assms(2) n by (simp add: cursor_ok_def)
  then have len: "length (digits n) \<le> 20" by (rule digits_length) simp
  have "takeWhile (\<lambda>c. c \<noteq> CHR '':'') (digits n @ '':'' @ snd c) = digits n"
    using d digit_not_colon by (subst takeWhile_append2) (auto simp: list_all_iff)
  then show ?thesis
    using d len assms(2)
    by (simp add: decode_launch_cursor_def encode_launch_cursor_def assms(1) [unfolded codec_ok_def, rule_format] show_n Let_def cursor_ok_def nat_of_digits_def n [symmetric])
qed


section \<open>The walk over the feed\<close>

definition feed_order :: "deep_launch list \<Rightarrow> deep_launch list" where
  "feed_order launches = rev (sort_key feed_key (filter (\<lambda>l. \<not> dl_retrospective l) launches))"

lemma feed_order_decreasing:
  assumes "distinct (map dl_id launches)"
  shows "sorted_wrt (\<lambda>a b. feed_key b < feed_key a) (feed_order launches)"
proof -
  let ?xs = "sort_key feed_key (filter (\<lambda>l. \<not> dl_retrospective l) launches)"
  have "inj_on dl_id (set ?xs)" using assms by (auto simp: distinct_map inj_on_def)
  then have "inj_on feed_key (set ?xs)" by (auto simp: inj_on_def feed_key_def)
  moreover have "distinct ?xs" using assms by (simp add: distinct_map)
  ultimately have "distinct (map feed_key ?xs)" by (simp add: distinct_map)
  then have "sorted_wrt (<) (map feed_key ?xs)" by (simp add: strict_sorted_iff)
  then show ?thesis by (simp add: feed_order_def sorted_wrt_rev sorted_wrt_map)
qed

lemma before_cursor_less: "before_cursor (Some c) l \<longleftrightarrow> feed_key l < c"
  by (cases c) (auto simp: before_cursor_def feed_key_def less_prod_def')

lemma below_last:
  assumes "sorted_wrt (\<lambda>a b. feed_key b < feed_key a) (pre @ x # suf)"
  shows "filter (\<lambda>l. feed_key l < feed_key x) (pre @ x # suf) = suf"
proof -
  have "filter (\<lambda>l. feed_key l < feed_key x) pre = []"
    using assms by (auto simp: filter_empty_conv sorted_wrt_append)
  moreover have "filter (\<lambda>l. feed_key l < feed_key x) suf = suf"
    using assms by (auto simp: filter_id_conv sorted_wrt_append)
  ultimately show ?thesis by simp
qed

text \<open>What is left after the launches \<open>done\<close> were returned, whatever newer ones there are now.\<close>

lemma feed_page_rest:
  assumes "distinct (map dl_id launches)" and "feed_order launches = pre @ x # rest"
    and "\<forall>f\<in>set fresh. \<forall>l\<in>set launches. dl_block l < dl_block f"
  shows "feed_page k (Some (feed_key x)) (launches @ fresh) = take k rest"
proof -
  have "x \<in> set (feed_order launches)" using assms(2) by simp
  then have x: "x \<in> set launches" by (simp add: feed_order_def)
  have "filter (\<lambda>l. \<not> dl_retrospective l \<and> feed_key l < feed_key x) fresh = []"
    using assms(3) x by (force simp: filter_empty_conv feed_key_def less_prod_def')
  then have "feed_page k (Some (feed_key x)) (launches @ fresh) =
      take k (filter (\<lambda>l. feed_key l < feed_key x) (feed_order launches))"
    by (simp add: feed_page_def before_cursor_less feed_order_def filter_sort conj_commute flip: filter_filter rev_filter)
  moreover have "filter (\<lambda>l. feed_key l < feed_key x) (feed_order launches) = rest"
    using feed_order_decreasing [OF assms(1)] unfolding assms(2) by (rule below_last)
  ultimately show ?thesis by (simp only:)
qed

lemma feed_page_first: "feed_page k None launches = take k (feed_order launches)"
  by (simp add: feed_page_def before_cursor_def feed_order_def)

text \<open>
  A client that asks for page after page with the cursor it was given; each read sees the reports
  and the launches there are then.
\<close>

fun feed_walk ::
    "(string \<Rightarrow> string) \<Rightarrow> (string \<Rightarrow> string) \<Rightarrow> real option \<Rightarrow> string option \<Rightarrow> deep_launch list \<Rightarrow>
     (feed_report list \<times> deep_launch list) list \<Rightarrow> deep_launch list" where
  "feed_walk b64 unb64 limit_text before launches [] = []"
| "feed_walk b64 unb64 limit_text before launches ((reps, fresh) # reads) =
     (case launches_route b64 unb64 limit_text before reps (launches @ fresh) of
        Problem n e \<Rightarrow> []
      | Answer n (rows, nxt) \<Rightarrow>
          map lf_launch rows @
          (case nxt of None \<Rightarrow> [] | Some t \<Rightarrow> feed_walk b64 unb64 limit_text (Some t) launches reads))"

lemma launch_feed_launches: "map lf_launch (launch_feed k before reps launches) = feed_page k before launches"
  by (simp add: launch_feed_def Let_def comp_def)

lemma clamp_limit_pos: "0 < m \<Longrightarrow> 0 < nat (clamp_limit x m) \<and> (50 \<le> m \<longrightarrow> clamp_limit x m \<le> m)"
  by (auto simp: clamp_limit_def less_max_iff_disj split: option.split)

definition feed_ok :: "deep_launch list \<Rightarrow> bool" where
  "feed_ok launches \<longleftrightarrow> distinct (map dl_id launches) \<and> (\<forall>l\<in>set launches. cursor_ok (feed_key l))"

lemma feed_walk_rest:
  assumes codec: "codec_ok b64 unb64" and ok: "feed_ok launches"
    and k: "k = nat (clamp_limit limit_text 200)"
  shows "feed_order launches = pre @ x # rest \<Longrightarrow> \<forall>(reps, fresh)\<in>set reads. \<forall>f\<in>set fresh. \<forall>l\<in>set launches. dl_block l < dl_block f \<Longrightarrow>
    length rest div k < length reads \<Longrightarrow>
    feed_walk b64 unb64 limit_text (Some (encode_launch_cursor b64 (feed_key x))) launches reads = rest"
proof (induction reads arbitrary: pre x rest)
  case Nil
  then show ?case by simp
next
  case (Cons r reads)
  obtain reps fresh where r: "r = (reps, fresh)" by (cases r)
  have k0: "0 < k" using clamp_limit_pos [of 200 limit_text] k by simp
  have "x \<in> set (feed_order launches)" using Cons.prems(1) by simp
  then have "cursor_ok (feed_key x)" using ok by (auto simp: feed_order_def feed_ok_def)
  then have dec: "decode_launch_cursor unb64 (encode_launch_cursor b64 (feed_key x)) = Some (feed_key x)"
    by (rule cursor_roundtrip [OF codec])
  have ctext: "clear_empty (Some (encode_launch_cursor b64 (feed_key x))) = Some (encode_launch_cursor b64 (feed_key x))"
    using codec by (auto simp: codec_ok_def clear_empty_def encode_launch_cursor_def)
  have page: "feed_page k (Some (feed_key x)) (launches @ fresh) = take k rest"
    using feed_page_rest ok Cons.prems(1,2) r by (fastforce simp: feed_ok_def)
  have step: "feed_walk b64 unb64 limit_text (Some (encode_launch_cursor b64 (feed_key x))) launches (r # reads) =
    take k rest @ (case next_cursor k (take k rest) of None \<Rightarrow> []
      | Some c \<Rightarrow> feed_walk b64 unb64 limit_text (Some (encode_launch_cursor b64 c)) launches reads)"
    by (simp add: r launches_route_def Let_def ctext dec launch_feed_launches page flip: k split: option.split)
  show ?case
  proof (cases "k \<le> length rest")
    case False
    then show ?thesis unfolding step by (simp add: next_cursor_def)
  next
    case True
    then have last: "take k rest = butlast (take k rest) @ [last (take k rest)]" using k0 by (cases rest) auto
    then have "feed_order launches = (pre @ x # butlast (take k rest)) @ last (take k rest) # drop k rest"
      using Cons.prems(1) by (metis append.assoc append_Cons append_Nil append_take_drop_id)
    moreover have "length (drop k rest) div k < length reads"
      using Cons.prems(3) True k0 by (simp add: le_div_geq)
    ultimately have "feed_walk b64 unb64 limit_text (Some (encode_launch_cursor b64 (feed_key (last (take k rest))))) launches reads = drop k rest"
      using Cons.IH Cons.prems(2) by simp
    then show ?thesis using True k0 unfolding step by (auto simp: next_cursor_def)
  qed
qed



section \<open>Who may buy a deep dive\<close>

definition buyer :: "string list \<Rightarrow> string option \<Rightarrow> bool" where
  "buyer known key \<longleftrightarrow> (\<exists>k. key = Some k \<and> k \<noteq> [] \<and> k \<in> set known)"

lemma partner_iff: "ca_partner (check_design_partner key known) \<longleftrightarrow> buyer known key"
  by (auto simp: check_design_partner_def buyer_def split: option.split)

lemma mcp_authed_iff: "mcp_authed key known \<longleftrightarrow> buyer known key"
  by (auto simp: mcp_authed_def buyer_def split: option.split)

text \<open>
  The paid queue only grows by a request with a listed, non-empty key and a well-formed token,
  over HTTP and over MCP alike, and then by exactly that token in lower case; nothing else
  changes a queue, whatever the queue answers.
\<close>

theorem deepdive_needs_key:
  "snd (deepdive_route add known key token q) =
     (if buyer known key \<and> hex_of_length 40 token \<and> (\<exists>i. add (lower token) = Inr i)
      then q\<lparr>jq_deepdive := jq_deepdive q @ [lower token]\<rparr> else q) \<and>
   snd (mcp_tool reps stored add known key call q) =
     (if buyer known key \<and> (\<exists>token i. call = McpDeepdive token \<and> hex_of_length 40 token \<and> add (lower token) = Inr i)
      then q\<lparr>jq_deepdive := jq_deepdive q @ [lower (case call of McpDeepdive t \<Rightarrow> t | _ \<Rightarrow> [])]\<rparr> else q)"
  by (auto simp: deepdive_route_def mcp_tool_def partner_iff mcp_authed_iff split: sum.splits mcp_call.splits)


section \<open>The funding scan\<close>

text \<open>The account's activations on the chain, and a node that serves them or fails.\<close>

definition honest_funding :: "activation_log list \<Rightarrow> funding_client \<Rightarrow> bool" where
  "honest_funding chain c \<longleftrightarrow>
     (\<forall>f t logs. fc_logs c f t = Inr logs \<longrightarrow> logs = filter (\<lambda>l. f \<le> al_block l \<and> al_block l \<le> t) chain)"

text \<open>A row stands for a log: all its fields but the time, which may be unread.\<close>

definition row_of_log :: "activation_log \<Rightarrow> activation \<Rightarrow> bool" where
  "row_of_log l a \<longleftrightarrow> av_id a = nullish (al_id l) 0 \<and> av_usd a = of_int (nullish (al_amount l) 0) / 1000000 \<and>
     av_from a = nullish (al_from l) [] \<and> av_block a = al_block l \<and> av_tx a = al_tx l"

definition scanned_ok :: "activation_log list \<Rightarrow> int \<Rightarrow> funding_state \<Rightarrow> bool" where
  "scanned_ok chain from_block st \<longleftrightarrow> from_block \<le> ff_scanned st + 1 \<and>
     list_all2 row_of_log (filter (\<lambda>l. from_block \<le> al_block l \<and> al_block l \<le> ff_scanned st) chain) (ff_rows st)"

lemma filter_adjacent:
  assumes "sorted (map key xs)" and "a \<le> b + 1" and "b \<le> (c :: int)"
  shows "filter (\<lambda>x. a \<le> key x \<and> key x \<le> b) xs @ filter (\<lambda>x. b + 1 \<le> key x \<and> key x \<le> c) xs =
    filter (\<lambda>x. a \<le> key x \<and> key x \<le> c) xs"
  using assms(1)
proof (induction xs)
  case (Cons x xs)
  have "b < key x \<Longrightarrow> filter (\<lambda>x. a \<le> key x \<and> key x \<le> b) xs = []"
    using Cons.prems by (auto simp: filter_empty_conv)
  then show ?case using Cons assms(2,3) by (cases "key x \<le> b") auto
qed simp

lemma map_rows_of_logs: "list_all2 row_of_log logs (map (activation_of block_time) logs)"
  by (simp add: list_all2_conv_all_nth row_of_log_def activation_of_def)

lemma funding_chunks_ok:
  assumes "sorted (map al_block chain)"
  shows "honest_funding chain c \<Longrightarrow> scanned_ok chain from_block st \<Longrightarrow>
    scanned_ok chain from_block (snd (funding_chunks c head st)) \<and> ff_scanned st \<le> ff_scanned (snd (funding_chunks c head st)) \<and>
    (fst (funding_chunks c head st) \<longrightarrow> head \<le> ff_scanned (snd (funding_chunks c head st)))"
proof (induction c head st rule: funding_chunks.induct)
  case (1 c head st)
  let ?f = "ff_scanned st + 1"
  let ?t = "if ?f + 9998 > head then head else ?f + 9998"
  show ?case
  proof (cases "?f > head")
    case True
    then show ?thesis using 1(3) by (subst (1 2 3 4) funding_chunks.simps) simp
  next
    case False
    show ?thesis
    proof (cases "fc_logs c ?f ?t")
      case (Inl e)
      then show ?thesis using 1(3) False by (subst (1 2 3 4) funding_chunks.simps) (simp add: Let_def)
    next
      case (Inr logs)
      define st1 where "st1 = st\<lparr>ff_rows := ff_rows st @ map (activation_of (fc_block_time c)) logs, ff_scanned := ?t\<rparr>"
      have run: "funding_chunks c head st = funding_chunks c head st1"
        using False Inr by (subst funding_chunks.simps) (simp add: Let_def st1_def)
      have logs: "logs = filter (\<lambda>l. ?f \<le> al_block l \<and> al_block l \<le> ?t) chain"
        by (rule 1(2) [unfolded honest_funding_def, rule_format, OF Inr])
      have t: "ff_scanned st \<le> ?t" using False by simp
      have "scanned_ok chain from_block st1"
      proof -
        have "list_all2 row_of_log (filter (\<lambda>l. from_block \<le> al_block l \<and> al_block l \<le> ff_scanned st) chain @ logs) (ff_rows st1)"
          using 1(3) map_rows_of_logs by (auto simp: scanned_ok_def st1_def intro: list_all2_appendI)
        then show ?thesis
          using 1(3) t filter_adjacent [OF assms(1), of from_block "ff_scanned st" ?t]
          by (simp add: scanned_ok_def logs st1_def)
      qed
      then have "scanned_ok chain from_block (snd (funding_chunks c head st1)) \<and> ff_scanned st1 \<le> ff_scanned (snd (funding_chunks c head st1)) \<and>
          (fst (funding_chunks c head st1) \<longrightarrow> head \<le> ff_scanned (snd (funding_chunks c head st1)))"
        unfolding st1_def by (intro 1(1) [OF refl False refl Inr 1(2)])
      then show ?thesis unfolding run using t by (auto simp: st1_def)
    qed
  qed
qed

lemma funding_reader_ok:
  assumes "honest_funding chain c" and "sorted (map al_block chain)" and "scanned_ok chain from_block st"
  shows "scanned_ok chain from_block (snd (funding_reader c account now st)) \<and> ff_scanned st \<le> ff_scanned (snd (funding_reader c account now st))"
proof -
  have keep: "scanned_ok chain from_block (s\<lparr>ff_refreshed := t\<rparr>) = scanned_ok chain from_block s" for s t
    by (simp add: scanned_ok_def)
  have "scanned_ok chain from_block (snd (funding_refresh c now st)) \<and> ff_scanned st \<le> ff_scanned (snd (funding_refresh c now st))"
    using funding_chunks_ok [OF assms(2,1,3)] assms(3)
    by (auto simp: funding_refresh_def keep split: sum.split prod.split) (metis snd_conv)+
  then show ?thesis using assms(3) by (auto simp: funding_reader_def split: prod.split)
qed

text \<open>A sequence of reads: each has its client, account and time.\<close>

definition funding_reads :: "address \<Rightarrow> (funding_client \<times> millis) list \<Rightarrow> funding_state \<Rightarrow> funding_state" where
  "funding_reads account reads st = fold (\<lambda>(c, now) st. snd (funding_reader c account now st)) reads st"

lemma funding_reads_ok:
  assumes "\<forall>(c, now)\<in>set reads. honest_funding chain c" and "sorted (map al_block chain)" and "scanned_ok chain from_block st"
  shows "scanned_ok chain from_block (funding_reads account reads st)"
  using assms(1,3)
proof (induction reads arbitrary: st)
  case (Cons r reads)
  then show ?case
    using funding_reader_ok [OF _ assms(2)] by (cases r) (simp add: funding_reads_def)
qed (simp add: funding_reads_def)

lemma sum_by_rows: "list_all2 row_of_log logs rows \<Longrightarrow>
  sum_list (map av_usd rows) = sum_list (map (\<lambda>l. of_int (nullish (al_amount l) 0) / 1000000) logs)"
  by (induction rule: list_all2_induct) (auto simp: row_of_log_def)

lemma sum_sort_key: "sum_list (map f (sort_key k xs)) = sum_list (map (f :: 'a \<Rightarrow> real) xs)"
  by (metis mset_map mset_sort sum_mset_sum_list)

lemma fu_total_rows: "fu_total (summarize_funding account rows now) = round_dp 6 (sum_list (map av_usd rows))"
  by (simp add: summarize_funding_def Let_def sum_sort_key comp_def)

text \<open>
  C30: However the reads of \<open>/v1/funding\<close> are timed, and whichever node calls fail in between, every
  activation of the account between the start block and the scanned one is listed once and
  nothing else is: the rows stand for the chain's logs one for one, in chain order, and the
  total is theirs.
\<close>

theorem funding_scan_exact:
  assumes "\<forall>(c, now)\<in>set reads. honest_funding chain c" and "sorted (map al_block chain)"
    and "st = funding_reads account reads (funding_start from_block)"
  shows "list_all2 row_of_log (filter (\<lambda>l. from_block \<le> al_block l \<and> al_block l \<le> ff_scanned st) chain) (ff_rows st) \<and>
    fu_total (summarize_funding account (ff_rows st) now) =
      round_dp 6 (sum_list (map (\<lambda>l. of_int (nullish (al_amount l) 0) / 1000000)
        (filter (\<lambda>l. from_block \<le> al_block l \<and> al_block l \<le> ff_scanned st) chain)))"
proof -
  have "filter (\<lambda>l. from_block \<le> al_block l \<and> al_block l \<le> from_block - 1) chain = []"
    by (auto simp: filter_empty_conv)
  then have "scanned_ok chain from_block (funding_start from_block)" by (simp add: scanned_ok_def funding_start_def)
  then have "scanned_ok chain from_block st" unfolding assms(3) by (rule funding_reads_ok [OF assms(1,2)])
  then have rows: "list_all2 row_of_log (filter (\<lambda>l. from_block \<le> al_block l \<and> al_block l \<le> ff_scanned st) chain) (ff_rows st)"
    by (simp add: scanned_ok_def)
  then show ?thesis by (simp add: fu_total_rows sum_by_rows [OF rows])
qed

text \<open>A row is never read again: neither its block nor its time.\<close>

lemma funding_chunks_rows: "set (ff_rows st) \<subseteq> set (ff_rows (snd (funding_chunks c head st)))"
proof (induction c head st rule: funding_chunks.induct)
  case (1 c head st)
  show ?case
  proof (cases "ff_scanned st + 1 > head")
    case True
    then show ?thesis by (subst funding_chunks.simps) simp
  next
    case False
    show ?thesis
    proof (cases "fc_logs c (ff_scanned st + 1) (if ff_scanned st + 1 + 9998 > head then head else ff_scanned st + 1 + 9998)")
      case (Inl e)
      then show ?thesis using False by (subst funding_chunks.simps) (simp add: Let_def)
    next
      case (Inr logs)
      then show ?thesis using 1 [OF refl False refl Inr] False by (subst funding_chunks.simps) (auto simp: Let_def)
    qed
  qed
qed

lemma funding_reads_rows: "set (ff_rows st) \<subseteq> set (ff_rows (funding_reads account reads st))"
proof (induction reads arbitrary: st)
  case (Cons r reads)
  have "set (ff_rows st) \<subseteq> set (ff_rows (snd (funding_reader c account now st)))" for c now
    using funding_chunks_rows [of st c]
    by (auto simp: funding_reader_def funding_refresh_def split: prod.split sum.split) (metis snd_conv subsetD)+
  then show ?case using Cons by (cases r) (force simp: funding_reads_def)
qed (simp add: funding_reads_def)

text \<open>
  An activation whose block could not be read when it was found -- one failed call -- is in the
  list for the life of the process without a time, and so never in the trailing day, which is
  what the panel's share of CREDIT is computed from.
\<close>

theorem unread_block_time_is_final:
  assumes "a \<in> set (ff_rows st)" and "av_at a = None"
  shows "a \<in> set (ff_rows (funding_reads account reads st)) \<and>
    fu_trailing (summarize_funding account (ff_rows (funding_reads account reads st)) now) =
      fu_trailing (summarize_funding account (removeAll a (ff_rows (funding_reads account reads st))) now)"
proof
  show "a \<in> set (ff_rows (funding_reads account reads st))" using assms(1) funding_reads_rows by blast
  have sum: "sum_list (map av_usd (filter P (removeAll a rows))) = sum_list (map av_usd (filter P rows))" if "\<not> P a" for P rows
    using that by (induction rows) auto
  have trailing: "fu_trailing (summarize_funding account rows now) =
      round_dp 6 (sum_list (map av_usd (filter (\<lambda>a. case av_at a of None \<Rightarrow> False | Some t \<Rightarrow> now - 86400000 \<le> t) rows)))" for rows
    by (simp add: summarize_funding_def Let_def filter_sort sum_sort_key filter_map comp_def)
  show "fu_trailing (summarize_funding account (ff_rows (funding_reads account reads st)) now) =
      fu_trailing (summarize_funding account (removeAll a (ff_rows (funding_reads account reads st))) now)"
    unfolding trailing using assms(2) by (subst sum) simp_all
qed


section \<open>The proof of a report\<close>

text \<open>
  The proof the API serves for a report the commit job has committed verifies: the route
  answers with the leaf's proof, against the root of the report's own batch, and says so.
\<close>

theorem served_proof_valid:
  assumes "lower_hash H" "commit_reach H env s" "r \<in> set (reports s)" "r_commit r = Some c" "hex_of_length 64 (p_hash r)"
  shows "\<exists>row\<in>set (commits s). cm_id row = c \<and>
    (\<forall>rr rows. rr_hash rr = lower (p_hash r) \<and> List.find (\<lambda>q. rt_hash q = lower (p_hash r)) rows = Some (join_commit rr (Some row)) \<longrightarrow>
      (\<exists>p pf. proof_route H client registry rows (p_hash r) = Answer 200 p \<and> pv_committed p \<and> pv_available p \<and> pv_valid p = Some True \<and>
        pv_root p = Some (cm_root row) \<and> pv_proof p = Some pf \<and> verify_proof H (lower (p_hash r)) pf (cm_root row)))"
proof -
  obtain row sl where row: "row \<in> set (commits s)" "cm_id row = c"
      and sl: "sl \<in> set (cm_leaves row)" "sl_hash sl = lower (p_hash r)"
    using commit_reach_inv [OF assms(2,1)] assms(3,4) unfolding commit_inv_def anchored_def by metis
  have "List.find (\<lambda>l. lower (sl_hash l) = lower (p_hash r)) (cm_leaves row) \<noteq> None"
    using sl by (auto simp: find_None_iff)
  then obtain leaf where leaf: "List.find (\<lambda>l. lower (sl_hash l) = lower (p_hash r)) (cm_leaves row) = Some leaf" by auto
  have "row_from_tree H row" using commit_reach_rows [OF assms(2)] row(1) by (simp add: rows_from_trees_def)
  then have valid: "verify_proof H (lower (p_hash r)) (sl_proof leaf) (cm_root row)"
    by (rule found_leaf_verifies [OF assms(1)]) (simp add: leaf)
  show ?thesis
    by (rule bexI [OF _ row(1)])
      (simp add: row(2) proof_route_def assms(5) proof_reader_def Let_def join_commit_def leaf valid)
qed


section \<open>Metrics\<close>

definition alerts_of_metrics :: "metric_tables \<Rightarrow> alert_inputs" where
  "alerts_of_metrics m = \<lparr>ai_lifecycle = mt_lifecycle m, ai_phantom = mt_phantom m, ai_commit = mt_commit m, ai_watcher = mt_watcher m\<rparr>"

text \<open>What the metrics endpoint shows is what the alert loop acts on, and its shares are shares.\<close>

lemma metrics_agree_with_alerts:
  "map ac_bad (evaluate_alerts now commit_lag watcher_age (alerts_of_metrics m)) =
     (let x = metrics_reader now m
      in [mx_state x = Some Starved, mx_flagged x, over_age (mx_commit x) commit_lag, over_age (mx_watcher x) watcher_age])"
  by (auto simp: evaluate_alerts_def Let_def metrics_reader_def alerts_of_metrics_def split: option.split)

lemma length_filter_conj: "length (filter (\<lambda>x. P x \<and> Q x) xs) \<le> length (filter P xs)"
  by (induction xs) auto

lemma metrics_shares:
  "mx_coverage (metrics_reader now m) = Some share \<Longrightarrow> 0 \<le> share \<and> share \<le> 1"
  "fst (snd (mx_outcomes (metrics_reader now m) label)) \<le> fst (mx_outcomes (metrics_reader now m) label)"
proof -
  have share: "0 \<le> real (length (filter P xs)) / real (length xs) \<and> real (length (filter P xs)) / real (length xs) \<le> 1" for P and xs :: "launch_times list"
    by (simp add: divide_le_eq_1)
  have "\<exists>xs :: launch_times list. mx_coverage (metrics_reader now m) = (if xs = [] then None else Some (real (length (filter lt_has_det xs)) / real (length xs)))"
    by (simp only: metrics_reader_def Let_def metrics_snapshot.simps) (rule exI, rule refl)
  then show "mx_coverage (metrics_reader now m) = Some share \<Longrightarrow> 0 \<le> share \<and> share \<le> 1"
    using share by (auto split: if_splits)
  show "fst (snd (mx_outcomes (metrics_reader now m) label)) \<le> fst (mx_outcomes (metrics_reader now m) label)"
    by (simp only: metrics_reader_def Let_def metrics_snapshot.simps fst_conv snd_conv length_filter_conj)
qed

section \<open>Examples\<close>

definition demo_fresh_io :: deep_io where
  "demo_fresh_io = (demo_io (Inr ''ok''))\<lparr>io_now := 1000\<rparr>"

lemmas demo_panel_defs = demo_fresh_io_def demo_io_def demo_deep_env_def demo_snapshot_def latest_snapshot_def lifecycle_entries_def

theorem panel_agrees_with_gate_witness:
  "panel_gate (panel_of 50 demo_deep_env demo_fresh_io None demo_deep_state) = run_gate_of demo_deep_env demo_fresh_io demo_deep_state"
  by (rule panel_agrees_with_gate [where s = demo_snapshot]) (simp_all add: demo_panel_defs)

theorem stale_panel_disagrees_witness:
  "\<not> xd_allowed (budget_display (panel_of 50 demo_deep_env (demo_io (Inr ''ok'')) None demo_deep_state)) \<and>
   rg_allowed (run_gate_of demo_deep_env (demo_io (Inr ''ok'')) demo_deep_state)"
proof (rule conjI)
  show "\<not> xd_allowed (budget_display (panel_of 50 demo_deep_env (demo_io (Inr ''ok'')) None demo_deep_state))"
    by (rule stale_panel_disagrees [where s = demo_snapshot, THEN conjunct1]) (simp_all add: demo_panel_defs)
qed (rule demo_gate_open)

theorem short_window_hides_balance_witness:
  "xd_unknown (budget_display (panel_of 1 demo_deep_env
     (demo_fresh_io\<lparr>io_snapshots := [demo_snapshot, \<lparr>sn_balance = None, sn_billing = None, sn_at = 500\<rparr>]\<rparr>) None demo_deep_state))"
  by (rule short_window_hides_balance [where s = demo_snapshot, THEN conjunct1]) (simp_all add: demo_panel_defs)


definition demo_activation_log :: "int \<Rightarrow> activation_log" where
  "demo_activation_log b = \<lparr>al_id = Some b, al_amount = Some 2500000, al_from = Some ''0xop'', al_block = b, al_tx = ''0xt''\<rparr>"

definition demo_funding_client :: "int \<Rightarrow> (string + int) \<Rightarrow> funding_client" where
  "demo_funding_client head t = \<lparr>fc_head = Inr head,
     fc_logs = (\<lambda>f u. Inr (filter (\<lambda>l. f \<le> al_block l \<and> al_block l \<le> u) [demo_activation_log 120, demo_activation_log 20000])),
     fc_block_time = (\<lambda>b. t)\<rparr>"

theorem funding_scan_exact_witness:
  "let st = funding_reads ''0xa'' [(demo_funding_client 15000 (Inr 1), 70000), (demo_funding_client 30000 (Inl ''timeout''), 200000)] (funding_start 100)
   in fu_total (summarize_funding ''0xa'' (ff_rows st) 200000) = round_dp 6 (sum_list (map (\<lambda>l. of_int (nullish (al_amount l) 0) / 1000000)
     (filter (\<lambda>l. 100 \<le> al_block l \<and> al_block l \<le> ff_scanned st) [demo_activation_log 120, demo_activation_log 20000])))"
  unfolding Let_def
  by (rule funding_scan_exact [THEN conjunct2])
    (simp_all add: honest_funding_def demo_funding_client_def demo_activation_log_def)

definition demo_untimed :: funding_state where
  "demo_untimed = \<lparr>ff_rows = [activation_of (\<lambda>b. Inl ''timeout'') (demo_activation_log 120)], ff_scanned = 150, ff_refreshed = 0\<rparr>"

theorem unread_block_time_is_final_witness:
  "activation_of (\<lambda>b. Inl ''timeout'') (demo_activation_log 120) \<in>
     set (ff_rows (funding_reads ''0xa'' [(demo_funding_client 30000 (Inr 1), 200000)] demo_untimed))"
  by (rule unread_block_time_is_final [THEN conjunct1]) (simp_all add: demo_untimed_def activation_of_def)

theorem served_proof_valid_witness:
  "\<exists>row\<in>set (commits (demo_done (''0x'' @ replicate 64 (CHR ''a'')))). cm_id row = 0 \<and>
    (\<forall>rr rows. rr_hash rr = lower (''0x'' @ replicate 64 (CHR ''a'')) \<and>
       List.find (\<lambda>q. rt_hash q = lower (''0x'' @ replicate 64 (CHR ''a''))) rows = Some (join_commit rr (Some row)) \<longrightarrow>
      (\<exists>p. proof_route demo_hash None None rows (''0x'' @ replicate 64 (CHR ''a'')) = Answer 200 p \<and> pv_valid p = Some True))"
proof -
  let ?h = "''0x'' @ replicate 64 (CHR ''a'')"
  have h: "p_hash (demo_report ''r'' ?h\<lparr>r_commit := Some 0, r_leaf := Some (lower ?h)\<rparr>) = ?h" by (simp add: demo_report_def)
  have "hex_of_length 64 ?h" by code_simp
  then show ?thesis
    using served_proof_valid [OF demo_hash_lower demo_done_reach demo_done_committed, of ?h 0 None None] unfolding h
    by (simp add: demo_report_def) blast
qed

end
