(* ===== verification/Backfill.thy ===== *)
theory Backfill
  imports WatcherFacts OutcomeSweep
begin

text \<open>
  The backfill (\<open>apps/worker/src/backfill/run.ts\<close>): the window of blocks, the discovery of past
  launches, their features, the resolution of their outcomes, under a cap on RPC calls, and the
  observed base rates.  The world \<open>'w\<close> holds the tables and the scheduler's call counter; what each
  step does to it is the step's field of the environment (\<open>detectPools\<close>, \<open>ingestPool\<close>, ...).
  Log lines are left out.
\<close>


section \<open>Options and environment\<close>

record backfill_opts =
  bo_days :: int
  bo_max_calls :: nat
  bo_dry :: bool
  bo_from :: "int option"
  bo_to :: "int option"
  bo_end_hours :: "int option"
  bo_max_launches :: "nat option"
  bo_features_only :: bool
  bo_resolve_only :: bool
  bo_skip_features :: bool
  bo_refeature :: bool
  bo_repool :: bool

record 'w backfill_env =
  bv_used :: "'w \<Rightarrow> nat"
  bv_launches :: "'w \<Rightarrow> launch_row list"
  bv_featured :: "'w \<Rightarrow> nat \<Rightarrow> bool"      \<comment> \<open>the launch's \<open>t10ComputedAt\<close> is set\<close>
  bv_pick :: "pick_args \<Rightarrow> 'w \<Rightarrow> (string + pool_pick) \<times> 'w"
  bv_store :: "nat \<Rightarrow> (launch_row \<Rightarrow> launch_row) \<Rightarrow> 'w \<Rightarrow> 'w"
  bv_detect :: "int \<Rightarrow> int \<Rightarrow> 'w \<Rightarrow> (string + detected_pool list) \<times> 'w"
  bv_ingest :: "detected_pool \<Rightarrow> 'w \<Rightarrow> (string + nat option) \<times> 'w"
  bv_t10 :: "nat \<Rightarrow> 'w \<Rightarrow> string option \<times> 'w"
  bv_sweep :: "'w \<Rightarrow> (string + nat \<times> (tally \<Rightarrow> nat)) \<times> 'w"

definition over_budget :: "'w backfill_env \<Rightarrow> backfill_opts \<Rightarrow> nat \<Rightarrow> 'w \<Rightarrow> bool" where
  "over_budget e op start w \<longleftrightarrow> bo_max_calls op > 0 \<and> bo_max_calls op \<le> bv_used e w - start"

text \<open>The window: \<open>block_at\<close> is \<open>blockAtTime\<close>.\<close>

definition backfill_window ::
    "(millis \<Rightarrow> string + int) \<Rightarrow> millis \<Rightarrow> int \<Rightarrow> int \<Rightarrow> backfill_opts \<Rightarrow> string + int \<times> int" where
  "backfill_window block_at now head lag op =
     (let to_block =
            (case bo_to op of Some b \<Rightarrow> Inr b
             | None \<Rightarrow>
                 (case bo_end_hours op of
                    Some h \<Rightarrow> if h \<noteq> 0 then block_at (now - h * 3600000) else Inr (if head > lag then head - lag else head)
                  | None \<Rightarrow> Inr (if head > lag then head - lag else head)));
          from_block = (case bo_from op of Some b \<Rightarrow> Inr b | None \<Rightarrow> block_at (now - bo_days op * 86400000))
      in case to_block of Inl err \<Rightarrow> Inl err
         | Inr t \<Rightarrow> (case from_block of Inl err \<Rightarrow> Inl err | Inr f \<Rightarrow> Inr (f, t)))"


section \<open>Pools again\<close>

definition repool_args :: "watch_config \<Rightarrow> launch_row \<Rightarrow> pick_args" where
  "repool_args cfg l = \<lparr>pk_token = lr_token l, pk_current = lr_pool_id l, pk_scan_from = lr_block l,
     pk_scan_to = lr_block l + blocks_in cfg (2 * 3600), pk_activity_from = lr_block l,
     pk_activity_to = lr_block l + blocks_in cfg 600, pk_head = None\<rparr>"

definition repool_row :: "pool_pick \<Rightarrow> launch_row \<Rightarrow> launch_row" where
  "repool_row p l =
     (case pp_chosen p of
        None \<Rightarrow> l
      | Some c \<Rightarrow>
          if pp_changed p then
            l\<lparr>lr_kind := Some V4, lr_pool_id := Some (pd_id c), lr_pool_address := None,
              lr_fee := (case pd_fee c of Some f \<Rightarrow> Some f | None \<Rightarrow> lr_fee l),
              lr_tick_spacing := (case pd_tick_spacing c of Some f \<Rightarrow> Some f | None \<Rightarrow> lr_tick_spacing l),
              lr_hooks := pd_hooks c, lr_quote := (case pd_quote c of Some q \<Rightarrow> Some q | None \<Rightarrow> lr_quote l),
              lr_fee_suspect := pd_suspect c\<rparr>
          else l\<lparr>lr_fee_suspect := pd_suspect c\<rparr>)"

text \<open>A failed pick or a pick without a pool leaves its row; the flag says whether the cap stopped the pass.\<close>

fun repool_rows ::
    "'w backfill_env \<Rightarrow> backfill_opts \<Rightarrow> watch_config \<Rightarrow> nat \<Rightarrow> launch_row list \<Rightarrow> 'w \<Rightarrow> bool \<times> 'w" where
  "repool_rows e op cfg start [] w = (False, w)"
| "repool_rows e op cfg start (l # ls) w =
     (if over_budget e op start w then (True, w)
      else case bv_pick e (repool_args cfg l) w of
        (Inl err, w1) \<Rightarrow> repool_rows e op cfg start ls w1
      | (Inr p, w1) \<Rightarrow> repool_rows e op cfg start ls (bv_store e (lr_id l) (repool_row p) w1))"

definition repool_pass :: "'w backfill_env \<Rightarrow> backfill_opts \<Rightarrow> watch_config \<Rightarrow> nat \<Rightarrow> 'w \<Rightarrow> bool \<times> 'w" where
  "repool_pass e op cfg start w =
     (if bo_repool op then
        repool_rows e op cfg start (filter (\<lambda>l. lr_retrospective l \<and> (lr_kind l = Some V4 \<or> lr_kind l = None)) (bv_launches e w)) w
      else (False, w))"


section \<open>Discovery\<close>

definition launches_full :: "backfill_opts \<Rightarrow> nat list \<Rightarrow> bool" where
  "launches_full op ids = (case bo_max_launches op of None \<Rightarrow> False | Some m \<Rightarrow> m \<le> length ids)"

fun ingest_detected :: "'w backfill_env \<Rightarrow> backfill_opts \<Rightarrow> nat \<Rightarrow> detected_pool list \<Rightarrow> nat list \<Rightarrow> 'w \<Rightarrow> nat list \<times> 'w" where
  "ingest_detected e op start [] ids w = (ids, w)"
| "ingest_detected e op start (dp # dps) ids w =
     (if over_budget e op start w \<or> launches_full op ids then (ids, w)
      else case bv_ingest e dp w of
        (Inr (Some i), w1) \<Rightarrow> ingest_detected e op start dps (ids @ [i]) w1
      | (_, w1) \<Rightarrow> ingest_detected e op start dps ids w1)"

text \<open>The loop over windows of \<open>chunk\<close> blocks, a positive number; a window whose scan fails is passed over.\<close>

function discover ::
    "'w backfill_env \<Rightarrow> backfill_opts \<Rightarrow> nat \<Rightarrow> int \<Rightarrow> int \<Rightarrow> int \<Rightarrow> nat list \<Rightarrow> 'w \<Rightarrow> nat list \<times> 'w" where
  "discover e op start chunk to_block f ids w =
     (if f > to_block \<or> over_budget e op start w \<or> launches_full op ids \<or> chunk \<le> 0 then (ids, w)
      else case bv_detect e f (min (f + chunk - 1) to_block) w of
        (Inl err, w1) \<Rightarrow> discover e op start chunk to_block (f + chunk) ids w1
      | (Inr dps, w1) \<Rightarrow>
          (case ingest_detected e op start dps ids w1 of
             (ids', w2) \<Rightarrow> discover e op start chunk to_block (f + chunk) ids' w2))"
  by pat_completeness auto
termination
  by (relation "measure (\<lambda>(e, op, start, chunk, to_block, f, ids, w). nat (to_block + 1 - f))") auto

declare discover.simps [simp del]


section \<open>Features\<close>

definition to_feature :: "'w backfill_env \<Rightarrow> backfill_opts \<Rightarrow> nat list \<Rightarrow> 'w \<Rightarrow> nat list" where
  "to_feature e op ids w =
     (if bo_skip_features op then []
      else if bo_resolve_only op then
        map lr_id (filter (\<lambda>l. lr_retrospective l \<and> (bo_refeature op \<or> \<not> bv_featured e w (lr_id l))) (bv_launches e w))
      else ids)"

text \<open>Ran, failed, stopped by the cap.\<close>

fun feature_rows :: "'w backfill_env \<Rightarrow> backfill_opts \<Rightarrow> nat \<Rightarrow> nat list \<Rightarrow> nat \<times> nat \<Rightarrow> 'w \<Rightarrow> (nat \<times> nat) \<times> bool \<times> 'w" where
  "feature_rows e op start [] n w = (n, False, w)"
| "feature_rows e op start (i # is) n w =
     (if over_budget e op start w then (n, True, w)
      else case bv_t10 e i w of
        (None, w1) \<Rightarrow> feature_rows e op start is (Suc (fst n), snd n) w1
      | (Some err, w1) \<Rightarrow> feature_rows e op start is (fst n, Suc (snd n)) w1)"


section \<open>Outcomes\<close>

record sweep_totals =
  so_picked :: nat
  so_tally :: "tally \<Rightarrow> nat"

definition no_totals :: sweep_totals where
  "no_totals = \<lparr>so_picked = 0, so_tally = (\<lambda>t. 0)\<rparr>"

definition add_sweep :: "sweep_totals \<Rightarrow> nat \<times> (tally \<Rightarrow> nat) \<Rightarrow> sweep_totals" where
  "add_sweep c r = \<lparr>so_picked = so_picked c + fst r, so_tally = (\<lambda>t. so_tally c t + snd r t)\<rparr>"

text \<open>Sweeps until two in a row pick nothing, or the cap is reached; it need not end.  A sweep may throw.\<close>

partial_function (option) outcome_loop ::
    "'w backfill_env \<Rightarrow> backfill_opts \<Rightarrow> nat \<Rightarrow> nat \<Rightarrow> sweep_totals \<Rightarrow> 'w \<Rightarrow> ((string + sweep_totals) \<times> 'w) option" where
  "outcome_loop e op start quiet c w =
     (if over_budget e op start w \<or> 2 \<le> quiet then Some (Inr c, w)
      else (let r = bv_sweep e w in
        case fst r of
          Inl err \<Rightarrow> Some (Inl err, snd r)
        | Inr p \<Rightarrow> outcome_loop e op start (if fst p = 0 then Suc quiet else 0) (add_sweep c p) (snd r)))"


section \<open>A run\<close>

record backfill_result =
  br_from :: int
  br_to :: int
  br_ingested :: nat
  br_ran :: nat
  br_failed :: nat
  br_outcomes :: sweep_totals
  br_used :: nat
  br_stopped :: bool

text \<open>
  The run after the window is known; \<open>None\<close> when the outcome loop does not end, and an error when
  one of its sweeps throws.
\<close>

definition run_backfill ::
    "'w backfill_env \<Rightarrow> backfill_opts \<Rightarrow> watch_config \<Rightarrow> int \<Rightarrow> int \<times> int \<Rightarrow> 'w \<Rightarrow> ((string + backfill_result) \<times> 'w) option" where
  "run_backfill e op cfg chunk window w =
     (let start = bv_used e w;
          result = (\<lambda>ids n c w' stopped. \<lparr>br_from = fst window, br_to = snd window, br_ingested = length ids, br_ran = fst n,
            br_failed = snd n, br_outcomes = c, br_used = bv_used e w' - start, br_stopped = (stopped \<or> over_budget e op start w')\<rparr>)
      in if bo_dry op then
           Some (Inr \<lparr>br_from = fst window, br_to = snd window, br_ingested = 0, br_ran = 0, br_failed = 0, br_outcomes = no_totals,
             br_used = 0, br_stopped = False\<rparr>, w)
         else
           (case repool_pass e op cfg start w of
              (stopped0, w0) \<Rightarrow>
                (case (if bo_resolve_only op then ([], w0) else discover e op start chunk (snd window) (fst window) [] w0) of
                   (ids, w1) \<Rightarrow>
                     (case feature_rows e op start (to_feature e op ids w1) (0, 0) w1 of
                        (n, stopped, w2) \<Rightarrow>
                          if bo_features_only op then Some (Inr (result ids n no_totals w2 (stopped0 \<or> stopped)), w2)
                          else
                            (case outcome_loop e op start 0 no_totals w2 of
                               None \<Rightarrow> None
                             | Some (Inl err, w3) \<Rightarrow> Some (Inl err, w3)
                             | Some (Inr c, w3) \<Rightarrow> Some (Inr (result ids n c w3 (stopped0 \<or> stopped)), w3))))))"


section \<open>Observed base rates\<close>

record observed_rate =
  bq_key :: outcome_key
  bq_n :: nat
  bq_positives :: nat
  bq_rate :: real

text \<open>\<open>name\<close> is the text of a cell, by which the rates are ordered.\<close>

definition observed_base_rates :: "(outcome_key \<Rightarrow> string) \<Rightarrow> bool \<Rightarrow> outcome_row list \<Rightarrow> observed_rate list" where
  "observed_base_rates name qualified_only rows =
     (let used = filter (\<lambda>r. or_status r = OResolved \<and> or_value r \<noteq> None \<and> or_retrospective r \<and> (qualified_only \<longrightarrow> or_qualified r)) rows;
          key = (\<lambda>r. (or_label r, or_horizon r))
      in sort_key (\<lambda>q. name (bq_key q))
           (map (\<lambda>k. let cell = filter (\<lambda>r. key r = k) used; pos = length (filter (\<lambda>r. or_value r = Some True) cell)
                 in \<lparr>bq_key = k, bq_n = length cell, bq_positives = pos, bq_rate = (if cell = [] then 0 else real pos / real (length cell))\<rparr>)
              (remdups (map key used))))"

end
