(* ===== verification/BackfillFacts.thy ===== *)
theory BackfillFacts
  imports Backfill
begin

text \<open>
  The properties of the backfill: what its cap on calls is worth, that its outcome loop ends with
  nothing left due, what is passed over in silence, and the observed base rates.
\<close>


section \<open>The cap\<close>

text \<open>No single step makes more than \<open>cost\<close> calls; the database makes none.\<close>

definition step_costs :: "'w backfill_env \<Rightarrow> nat \<Rightarrow> bool" where
  "step_costs e cost \<longleftrightarrow>
     (let ok = (\<lambda>w w'. bv_used e w \<le> bv_used e w' \<and> bv_used e w' \<le> bv_used e w + cost)
      in (\<forall>a w. ok w (snd (bv_pick e a w))) \<and> (\<forall>i f w. bv_used e (bv_store e i f w) = bv_used e w) \<and>
         (\<forall>f t w. ok w (snd (bv_detect e f t w))) \<and> (\<forall>dp w. ok w (snd (bv_ingest e dp w))) \<and>
         (\<forall>i w. ok w (snd (bv_t10 e i w))) \<and> (\<forall>w. ok w (snd (bv_sweep e w))))"

definition within_cap :: "'w backfill_env \<Rightarrow> nat \<Rightarrow> nat \<Rightarrow> nat \<Rightarrow> 'w \<Rightarrow> bool" where
  "within_cap e start cap cost w \<longleftrightarrow> start \<le> bv_used e w \<and> bv_used e w < start + cap + cost"

lemma step_within:
  assumes "within_cap e start (bo_max_calls op) cost w" and "\<not> over_budget e op start w" and "0 < bo_max_calls op"
    and "bv_used e w \<le> bv_used e w'" and "bv_used e w' \<le> bv_used e w + cost"
  shows "within_cap e start (bo_max_calls op) cost w'"
  using assms by (simp add: within_cap_def over_budget_def)

lemma steps_within:
  assumes "step_costs e cost" and "within_cap e start (bo_max_calls op) cost w" and "\<not> over_budget e op start w" and "0 < bo_max_calls op"
  shows "within_cap e start (bo_max_calls op) cost (snd (bv_pick e a w))"
    and "within_cap e start (bo_max_calls op) cost (snd (bv_detect e f t w))"
    and "within_cap e start (bo_max_calls op) cost (snd (bv_ingest e dp w))"
    and "within_cap e start (bo_max_calls op) cost (snd (bv_t10 e i w))"
    and "within_cap e start (bo_max_calls op) cost (snd (bv_sweep e w))"
  using assms(1) by (auto simp: step_costs_def Let_def intro!: step_within [OF assms(2,3,4)])

lemma store_within: "step_costs e cost \<Longrightarrow> within_cap e start cap cost (bv_store e i f w) = within_cap e start cap cost w"
  by (simp add: step_costs_def Let_def within_cap_def)

lemma repool_within:
  assumes "step_costs e cost" and "0 < bo_max_calls op"
  shows "within_cap e start (bo_max_calls op) cost w \<Longrightarrow> within_cap e start (bo_max_calls op) cost (snd (repool_rows e op cfg start ls w))"
proof (induction ls arbitrary: w)
  case (Cons l ls)
  show ?case
  proof (cases "over_budget e op start w")
    case False
    then have "within_cap e start (bo_max_calls op) cost (snd (bv_pick e (repool_args cfg l) w))"
      by (rule steps_within(1) [OF assms(1) Cons.prems _ assms(2)])
    then show ?thesis
      using Cons.IH False store_within [OF assms(1)] by (auto split: prod.split sum.split)
  qed (simp add: Cons.prems)
qed simp

lemma ingest_within:
  assumes "step_costs e cost" and "0 < bo_max_calls op"
  shows "within_cap e start (bo_max_calls op) cost w \<Longrightarrow> within_cap e start (bo_max_calls op) cost (snd (ingest_detected e op start dps ids w))"
proof (induction dps arbitrary: ids w)
  case (Cons dp dps)
  show ?case
  proof (cases "over_budget e op start w \<or> launches_full op ids")
    case False
    then have "within_cap e start (bo_max_calls op) cost (snd (bv_ingest e dp w))"
      by (intro steps_within(3) [OF assms(1) Cons.prems _ assms(2)]) simp
    then show ?thesis using Cons.IH False by (auto split: prod.split sum.split option.split)
  qed (simp add: Cons.prems)
qed simp

lemma discover_within:
  assumes "step_costs e cost"
  shows "0 < bo_max_calls op \<Longrightarrow> within_cap e start (bo_max_calls op) cost w \<Longrightarrow>
    within_cap e start (bo_max_calls op) cost (snd (discover e op start chunk to_block f ids w))"
  using assms
proof (induction e op start chunk to_block f ids w rule: discover.induct)
  case (1 e op start chunk to_block f ids w)
  show ?case
  proof (cases "f > to_block \<or> over_budget e op start w \<or> launches_full op ids \<or> chunk \<le> 0")
    case True
    then show ?thesis using 1(4) by (subst discover.simps) simp
  next
    case False
    let ?r = "bv_detect e f (min (f + chunk - 1) to_block) w"
    have within: "within_cap e start (bo_max_calls op) cost (snd ?r)"
      using False by (intro steps_within(2) [OF 1(5,4) _ 1(3)]) simp
    show ?thesis
    proof (cases "fst ?r")
      case (Inl err)
      then show ?thesis
        using 1(1) [OF False prod.collapse Inl 1(3) within 1(5)] False
        by (subst discover.simps) (simp add: case_prod_beta)
    next
      case (Inr dps)
      have "within_cap e start (bo_max_calls op) cost (snd (ingest_detected e op start dps ids (snd ?r)))"
        by (rule ingest_within [OF 1(5,3) within])
      then show ?thesis
        using 1(2) [OF False prod.collapse Inr prod.collapse 1(3) _ 1(5)] False Inr
        by (subst discover.simps) (simp add: case_prod_beta)
    qed
  qed
qed

lemma feature_within:
  assumes "step_costs e cost" and "0 < bo_max_calls op"
  shows "within_cap e start (bo_max_calls op) cost w \<Longrightarrow> within_cap e start (bo_max_calls op) cost (snd (snd (feature_rows e op start is n w)))"
proof (induction "is" arbitrary: n w)
  case (Cons i "is")
  show ?case
  proof (cases "over_budget e op start w")
    case False
    then have "within_cap e start (bo_max_calls op) cost (snd (bv_t10 e i w))"
      by (rule steps_within(4) [OF assms(1) Cons.prems _ assms(2)])
    then show ?thesis using Cons.IH False by (auto split: prod.split option.split)
  qed (simp add: Cons.prems)
qed simp

lemma outcome_within:
  assumes "outcome_loop e op start quiet c w = Some r"
  shows "step_costs e cost \<longrightarrow> 0 < bo_max_calls op \<longrightarrow> within_cap e start (bo_max_calls op) cost w \<longrightarrow>
    within_cap e start (bo_max_calls op) cost (snd r)"
proof (rule outcome_loop.raw_induct [where P = "\<lambda>e op start quiet c w r. step_costs e cost \<longrightarrow> 0 < bo_max_calls op \<longrightarrow>
    within_cap e start (bo_max_calls op) cost w \<longrightarrow> within_cap e start (bo_max_calls op) cost (snd r)", OF _ assms], goal_cases)
  case (1 loop e op start quiet c w r)
  show ?case
  proof (intro impI)
    assume ok: "step_costs e cost" "0 < bo_max_calls op" and w: "within_cap e start (bo_max_calls op) cost w"
    show "within_cap e start (bo_max_calls op) cost (snd r)"
    proof (cases "over_budget e op start w \<or> 2 \<le> quiet")
      case False
      then have within: "within_cap e start (bo_max_calls op) cost (snd (bv_sweep e w))"
        by (intro steps_within(5) [OF ok(1) w _ ok(2)]) simp
      show ?thesis
      proof (cases "fst (bv_sweep e w)")
        case (Inl err)
        then show ?thesis using 1(2) False within by (auto simp: Let_def)
      next
        case (Inr p)
        then show ?thesis using 1(1) ok within 1(2) False by (auto simp: Let_def)
      qed
    qed (use 1 w in auto)
  qed
qed

text \<open>
  What the cap on RPC calls is worth: it is looked at between steps only, so a run stays below the
  cap and one step's calls -- a step being a whole sweep of sixty outcomes, a window of blocks, or
  the features of a launch.
\<close>

theorem backfill_cap_overshoot:
  assumes "step_costs e cost" and "0 < bo_max_calls op" and "run_backfill e op cfg chunk window w = Some (r, w')"
  shows "bv_used e w' - bv_used e w < bo_max_calls op + cost"
proof -
  define start where "start = bv_used e w"
  note ok = assms(1,2)
  have w: "within_cap e start (bo_max_calls op) cost w" using assms(2) by (simp add: within_cap_def start_def)
  have w0: "within_cap e start (bo_max_calls op) cost (snd (repool_pass e op cfg start w))"
    using repool_within [OF ok w] w by (simp add: repool_pass_def)
  define w1 where "w1 = snd (if bo_resolve_only op then ([], snd (repool_pass e op cfg start w))
    else discover e op start chunk (snd window) (fst window) [] (snd (repool_pass e op cfg start w)))"
  have w1: "within_cap e start (bo_max_calls op) cost w1"
    using discover_within [OF ok(1,2) w0] w0 by (simp add: w1_def)
  have w2: "within_cap e start (bo_max_calls op) cost (snd (snd (feature_rows e op start is n w1)))" for "is" n
    by (rule feature_within [OF ok w1])
  have "w' = w \<or> (\<exists>is n. w' = snd (snd (feature_rows e op start is n w1)) \<or>
      (\<exists>x. outcome_loop e op start 0 no_totals (snd (snd (feature_rows e op start is n w1))) = Some (x, w')))"
    using assms(3)
    by (auto simp: run_backfill_def Let_def w1_def start_def [symmetric] case_prod_beta split: if_splits option.splits sum.splits)
  then have "within_cap e start (bo_max_calls op) cost w'"
    using w w2 outcome_within [of e op start] ok by fastforce
  then show ?thesis by (simp add: within_cap_def start_def) linarith
qed


section \<open>The outcome loop\<close>

text \<open>The sweeps of the loop on the outcome table: the \<open>k\<close>-th one starts at \<open>now k\<close>.\<close>

definition table_sweep ::
    "(nat \<Rightarrow> millis) \<Rightarrow> (nat \<Rightarrow> string \<Rightarrow> millis) \<Rightarrow> (nat \<Rightarrow> string \<Rightarrow> attempt) \<Rightarrow> sweep_filter \<Rightarrow> outcome_table \<times> nat \<Rightarrow>
     (string + nat \<times> (tally \<Rightarrow> nat)) \<times> outcome_table \<times> nat" where
  "table_sweep now clock attempts f w =
     (case sweep_due_outcomes (clock (snd w)) (attempts (snd w)) (now (snd w)) 60 f (fst w) of
        (table, r) \<Rightarrow> (Inr r, (table, Suc (snd w))))"

definition due_row :: "millis \<Rightarrow> sweep_filter \<Rightarrow> outcome_row \<Rightarrow> bool" where
  "due_row t f r \<longleftrightarrow> row_due t f r \<and> label_due f (or_label r)"

text \<open>Rows no sweep since \<open>t\<close> has settled.\<close>

definition untried :: "millis \<Rightarrow> outcome_row \<Rightarrow> bool" where
  "untried t r \<longleftrightarrow> or_status r = OPending \<and> (case or_measured r of None \<Rightarrow> True | Some m \<Rightarrow> m < t)"

definition untried_ids :: "millis \<Rightarrow> outcome_table \<Rightarrow> string set" where
  "untried_ids t table = {i. \<exists>r. (i, r) \<in> set table \<and> untried t r}"

lemma finite_untried [simp]: "finite (untried_ids t table)"
  by (rule finite_subset [of _ "fst ` set table"]) (force simp: untried_ids_def)+

lemma due_later: "due_row t f r \<Longrightarrow> t \<le> now \<Longrightarrow> due_row now f r"
  by (auto simp: due_row_def row_due_def split: option.splits)

lemma due_untried: "row_due now f r \<Longrightarrow> now \<le> t + sf_backoff f \<Longrightarrow> untried t r"
  by (auto simp: row_due_def untried_def split: option.splits)

lemma settled_tried: "t \<le> m \<Longrightarrow> \<not> untried t (fst (settle_row m give_up att r))"
  by (auto simp: untried_def settle_row_def defer_row_def record_verdict_def Let_def
    split: attempt.split option.split prod.split defer_action.split)

lemma sort_key_empty: "sort_key k xs = [] \<longleftrightarrow> xs = []"
  by (metis set_empty set_sort)

lemma distinct_picks: "distinct (map fst xs) \<Longrightarrow> distinct (map fst (take n (sort_key k (filter P xs))))"
  by (simp add: distinct_map inj_on_def flip: take_map)

lemma picks_due:
  assumes "sf_order f \<noteq> ByFair"
  shows "sweep_due now f 60 table = [] \<longleftrightarrow> (\<forall>p\<in>set table. \<not> due_row now f (snd p))"
    and "distinct (map fst table) \<Longrightarrow> distinct (map fst (sweep_due now f 60 table))"
proof -
  let ?due = "filter (\<lambda>p. row_due now f (snd p) \<and> label_due f (or_label (snd p))) table"
  have eq: "sweep_due now f 60 table = take 60 (sort_key horizon_order ?due) \<or> sweep_due now f 60 table = take 60 (sort_key fst ?due)"
    using assms by (cases "sf_order f") (simp_all add: sweep_due_def)
  have "sweep_due now f 60 table = [] \<longleftrightarrow> ?due = []"
    using eq by (elim disjE) (simp_all only: take_eq_Nil sort_key_empty, simp_all)
  then show "sweep_due now f 60 table = [] \<longleftrightarrow> (\<forall>p\<in>set table. \<not> due_row now f (snd p))"
    by (auto simp: filter_empty_conv due_row_def)
  assume "distinct (map fst table)"
  note d = distinct_picks [OF this]
  show "distinct (map fst (sweep_due now f 60 table))"
    using eq by (elim disjE) (simp_all only: d)
qed

lemma sweep_progress:
  assumes "sf_order f \<noteq> ByFair" and "distinct (map fst table)" and "t \<le> now" "now \<le> t + sf_backoff f" and "\<And>i. t \<le> clock i"
    and "sweep_due_outcomes clock att now 60 f table = (table', n, counts)"
  shows "map fst table' = map fst table \<and>
    (if n = 0 then table' = table \<and> (\<forall>p\<in>set table. \<not> due_row t f (snd p))
     else card (untried_ids t table') < card (untried_ids t table))"
proof -
  let ?due = "sweep_due now f 60 table"
  have n: "n = length ?due" and table': "table' = fst (settle_all clock (sf_give_up f) att ?due table)"
    using assms(6) by (auto simp: sweep_due_outcomes_def Let_def split: prod.splits)
  have fst_eq: "map fst table' = map fst table"
    using settle_all_fst [of clock "sf_give_up f" att "(table, \<lambda>_. 0)" ?due] by (simp add: table' settle_all_def)
  show ?thesis
  proof (cases "?due = []")
    case True
    then have "table' = table" by (simp add: table' settle_all_def)
    moreover have "\<not> due_row t f (snd p)" if "p \<in> set table" for p
      using that picks_due(1) [OF assms(1)] True due_later [OF _ assms(3)] by blast
    ultimately show ?thesis using True n by auto
  next
    case False
    have sub: "untried_ids t table' \<subseteq> untried_ids t table - fst ` set ?due"
    proof
      fix i assume "i \<in> untried_ids t table'"
      then obtain q where q: "(i, q) \<in> set table'" "untried t q" by (auto simp: untried_ids_def)
      have notin: "i \<notin> fst ` set ?due"
      proof
        assume "i \<in> fst ` set ?due"
        then obtain r where r: "(i, r) \<in> set ?due" by auto
        then have "i \<in> fst ` set table" using sweep_due_rows by force
        then have "q = fst (settle_row (clock i) (sf_give_up f) (att i) r)"
          using settle_all_member [OF picks_due(2) [OF assms(1,2)] r, of "(table, \<lambda>_. 0)" q clock "sf_give_up f" att] q(1)
          by (simp add: table' settle_all_def)
        then show False using settled_tried [OF assms(5)] q(2) by simp
      qed
      then have "(i, q) \<in> set table"
        using settle_all_other [OF notin, of q clock "sf_give_up f" att "(table, \<lambda>_. 0)"] q(1) by (simp add: table' settle_all_def)
      then show "i \<in> untried_ids t table - fst ` set ?due" using q(2) notin by (auto simp: untried_ids_def)
    qed
    obtain p where p: "p \<in> set ?due" using False by (meson hd_in_set)
    then have "p \<in> set table" "untried t (snd p)" using sweep_due_rows due_untried assms(4) by blast+
    then have "(fst p, snd p) \<in> set table" "untried t (snd p)" by simp_all
    then have "fst p \<in> untried_ids t table" unfolding untried_ids_def by blast
    then have "untried_ids t table' \<subset> untried_ids t table" using sub p by blast
    then have "card (untried_ids t table') < card (untried_ids t table)" by (rule psubset_card_mono [rotated]) simp
    then show ?thesis using False n fst_eq by simp
  qed
qed



section \<open>What is passed over\<close>

text \<open>A window of blocks whose scan fails is not read again: discovery goes on behind it.\<close>

lemma failed_window_skipped:
  assumes "f \<le> to_block" "\<not> over_budget e op start w" "\<not> launches_full op ids" "0 < chunk"
    and "bv_detect e f (min (f + chunk - 1) to_block) w = (Inl err, w1)"
  shows "discover e op start chunk to_block f ids w = discover e op start chunk to_block (f + chunk) ids w1"
  using assms by (subst discover.simps) simp

text \<open>The option that says it skips the features leaves discovery as it is, and new launches without features.\<close>

lemma skip_features_discovers:
  assumes "bo_skip_features op" and "bo_features_only op" and "\<not> bo_resolve_only op" and "\<not> bo_dry op" and "\<not> bo_repool op"
  shows "\<exists>n b. run_backfill e op cfg chunk window w =
    (case discover e op (bv_used e w) chunk (snd window) (fst window) [] w of
       (ids, w1) \<Rightarrow> Some (Inr \<lparr>br_from = fst window, br_to = snd window, br_ingested = length ids, br_ran = 0, br_failed = 0,
         br_outcomes = no_totals, br_used = n, br_stopped = b\<rparr>, w1))"
  using assms by (auto simp: run_backfill_def Let_def repool_pass_def to_feature_def split: prod.split)


section \<open>Base rates\<close>

lemma sum_by_key: "sum_list (map (\<lambda>k. length (filter (\<lambda>r. g r = k) rows)) (remdups (map g rows))) = length rows"
proof -
  have "sum_list (map (\<lambda>k. length (filter (\<lambda>r. g r = k) rows)) (remdups (map g rows))) =
      (\<Sum>k\<in>set (map g rows). length (filter (\<lambda>r. g r = k) rows))"
    by (simp add: sum_list_distinct_conv_sum_set)
  also have "\<dots> = length rows"
  proof -
    have "(\<Sum>k\<in>K. length (filter (\<lambda>r. g r = k) rs)) = length (filter (\<lambda>r. g r \<in> K) rs)" if "finite K" for K rs
      using that
    proof (induction K rule: finite_induct)
      case (insert k K)
      have "length (filter (\<lambda>r. g r \<in> insert k K) rs) = length (filter (\<lambda>r. g r = k) rs) + length (filter (\<lambda>r. g r \<in> K) rs)"
        using insert(2) by (induction rs) auto
      then show ?case using insert by simp
    qed simp
    then show ?thesis by (simp add: filter_id_conv)
  qed
  finally show ?thesis .
qed

text \<open>The cells of the base rates share the used outcomes out, and every rate is a share.\<close>

lemma base_rates_add_up:
  "sum_list (map bq_n (observed_base_rates name q rows)) =
     length (filter (\<lambda>r. or_status r = OResolved \<and> or_value r \<noteq> None \<and> or_retrospective r \<and> (q \<longrightarrow> or_qualified r)) rows)"
  "b \<in> set (observed_base_rates name q rows) \<Longrightarrow> 0 \<le> bq_rate b \<and> bq_rate b \<le> 1"
proof -
  have sum: "sum_list (map g (sort_key k xs)) = sum_list (map g xs)" for g :: "'a \<Rightarrow> nat" and k :: "'a \<Rightarrow> string" and xs
    by (metis mset_map mset_sort sum_mset_sum_list)
  show "sum_list (map bq_n (observed_base_rates name q rows)) =
     length (filter (\<lambda>r. or_status r = OResolved \<and> or_value r \<noteq> None \<and> or_retrospective r \<and> (q \<longrightarrow> or_qualified r)) rows)"
    by (simp only: observed_base_rates_def Let_def sum map_map comp_def observed_rate.simps sum_by_key)
  show "b \<in> set (observed_base_rates name q rows) \<Longrightarrow> 0 \<le> bq_rate b \<and> bq_rate b \<le> 1"
  proof -
    assume b: "b \<in> set (observed_base_rates name q rows)"
    have share: "0 \<le> (if xs = [] then 0 else real (length (filter P xs)) / real (length xs)) \<and>
        (if xs = [] then 0 else real (length (filter P xs)) / real (length xs)) \<le> 1" for xs :: "outcome_row list" and P
      by (simp add: divide_le_eq_1)
    show ?thesis
      using b unfolding observed_base_rates_def Let_def set_sort set_map by (elim imageE) (simp only: observed_rate.simps share)
  qed
qed


section \<open>Examples\<close>

text \<open>Worlds in which nothing but the sweeps happens.\<close>

definition sweeps_only :: "('w \<Rightarrow> nat) \<Rightarrow> ('w \<Rightarrow> (string + nat \<times> (tally \<Rightarrow> nat)) \<times> 'w) \<Rightarrow> 'w backfill_env" where
  "sweeps_only calls sweep = \<lparr>bv_used = calls, bv_launches = (\<lambda>w. []), bv_featured = (\<lambda>w i. True), bv_pick = (\<lambda>a w. (Inl ''down'', w)),
     bv_store = (\<lambda>i f w. w), bv_detect = (\<lambda>f t w. (Inr [], w)), bv_ingest = (\<lambda>d w. (Inr None, w)), bv_t10 = (\<lambda>i w. (None, w)),
     bv_sweep = sweep\<rparr>"

definition resolve_opts :: "nat \<Rightarrow> backfill_opts" where
  "resolve_opts cap = \<lparr>bo_days = 3, bo_max_calls = cap, bo_dry = False, bo_from = None, bo_to = None, bo_end_hours = None,
     bo_max_launches = None, bo_features_only = False, bo_resolve_only = True, bo_skip_features = True, bo_refeature = False, bo_repool = False\<rparr>"

text \<open>A sweep of a hundred calls under a cap of one.\<close>

definition costly_env :: "nat backfill_env" where
  "costly_env = sweeps_only id (\<lambda>w. (Inr (1, \<lambda>t. 0), w + 100))"

lemma costly_run: "\<exists>r. run_backfill costly_env (resolve_opts 1) cfg chunk (0, 0) 0 = Some (r, 100)"
proof -
  have "outcome_loop costly_env (resolve_opts 1) 0 0 no_totals 0 = Some (Inr (add_sweep no_totals (1, \<lambda>t. 0)), 100)"
    by (subst outcome_loop.simps, simp add: over_budget_def costly_env_def sweeps_only_def resolve_opts_def Let_def,
        subst outcome_loop.simps, simp add: over_budget_def)
  then show ?thesis
    by (simp add: run_backfill_def Let_def repool_pass_def to_feature_def resolve_opts_def)
      (simp add: costly_env_def sweeps_only_def)
qed

theorem backfill_cap_overshoot_witness:
  "bv_used costly_env 100 - bv_used costly_env 0 < bo_max_calls (resolve_opts 1) + 100 \<and>
   bo_max_calls (resolve_opts 1) < bv_used costly_env 100 - bv_used costly_env 0"
proof (rule conjI)
  obtain r where r: "run_backfill costly_env (resolve_opts 1) undefined 1 (0, 0) 0 = Some (r, 100)" using costly_run by blast
  show "bv_used costly_env 100 - bv_used costly_env 0 < bo_max_calls (resolve_opts 1) + 100"
    by (rule backfill_cap_overshoot [OF _ _ r])
      (simp_all add: step_costs_def Let_def costly_env_def sweeps_only_def resolve_opts_def)
qed (simp add: costly_env_def sweeps_only_def resolve_opts_def)


end
