(* ===== verification/Session.thy ===== *)
theory Session
  imports Forecasters Lifecycle
begin

text \<open>
  The worker's session with the compute gateway (\<open>apps/worker/src/metabolism\<close>): the encrypted store of
  the OAuth client, the tokens and the gateway key (\<open>token-store.ts\<close>), the seed that carries a session
  into a container (\<open>session-seed.ts\<close>), the auth provider, the connection and the tool payloads
  (\<open>orbio-client.ts\<close>), the gateway read (\<open>gateway-reader.ts\<close>) and the key a deep dive uses
  (\<open>resolveGatewayKey\<close>, \<open>deepdive/openrouter.ts\<close>).  AES-GCM, base64, SHA-256 and JSON are parameters;
  texts and byte buffers are both lists of characters.
\<close>


section \<open>The encrypted store\<close>

type_synonym bytes = string

text \<open>\<open>ci_open\<close> is \<open>None\<close> where \<open>final()\<close> throws on a wrong tag.\<close>

record cipher =
  ci_seal :: "bytes \<Rightarrow> bytes \<Rightarrow> string \<Rightarrow> bytes \<times> bytes"
  ci_open :: "bytes \<Rightarrow> bytes \<Rightarrow> bytes \<Rightarrow> bytes \<Rightarrow> string option"
  ci_b64 :: "bytes \<Rightarrow> string"
  ci_unb64 :: "string \<Rightarrow> bytes"
  ci_sha :: "bytes \<Rightarrow> string"

definition iv_len :: nat where "iv_len = 12"
definition tag_len :: nat where "tag_len = 16"

definition load_encryption_key :: "cipher \<Rightarrow> string option \<Rightarrow> string + bytes" where
  "load_encryption_key ci text =
     (case clear_empty text of
        None \<Rightarrow> Inl ''TOKEN_ENCRYPTION_KEY is not set''
      | Some s \<Rightarrow>
          (let key = ci_unb64 ci s
           in if length key \<noteq> 32 then Inl ''TOKEN_ENCRYPTION_KEY must decode to 32 bytes'' else Inr key))"

text \<open>\<open>iv\<close> is what \<open>randomBytes\<close> returned.\<close>

definition encrypt_token :: "cipher \<Rightarrow> bytes \<Rightarrow> string \<Rightarrow> bytes \<Rightarrow> string" where
  "encrypt_token ci iv plain key = (case ci_seal ci key iv plain of (enc, tag) \<Rightarrow> ci_b64 ci (iv @ tag @ enc))"

definition decrypt_token :: "cipher \<Rightarrow> string \<Rightarrow> bytes \<Rightarrow> string + string" where
  "decrypt_token ci wire key =
     (let buf = ci_unb64 ci wire
      in if length buf < iv_len + tag_len + 1 then Inl ''ciphertext too short''
         else case ci_open ci key (take iv_len buf) (take tag_len (drop iv_len buf)) (drop (iv_len + tag_len) buf) of
           None \<Rightarrow> Inl ''unable to authenticate data''
         | Some plain \<Rightarrow> Inr plain)"

definition key_hash_prefix :: "cipher \<Rightarrow> string \<Rightarrow> string" where
  "key_hash_prefix ci token = take 12 (ci_sha ci token)"

record oauth_tokens =
  tk_access :: "string option"
  tk_refresh :: "string option"
  tk_expires :: "nat option"

record oauth_blob =
  ob_client :: "string option"
  ob_verifier :: "string option"
  ob_tokens :: "oauth_tokens option"
  ob_key :: "string option"
  ob_prefix :: "string option"
  ob_baseline :: "spend_baseline option"
  ob_updated :: "millis option"

definition empty_blob :: oauth_blob where
  "empty_blob = \<lparr>ob_client = None, ob_verifier = None, ob_tokens = None, ob_key = None, ob_prefix = None, ob_baseline = None, ob_updated = None\<rparr>"

text \<open>\<open>JSON.stringify\<close> of a blob, and \<open>JSON.parse\<close>: an error, \<open>null\<close> or a blob.\<close>

record blob_json =
  bj_text :: "oauth_blob \<Rightarrow> string"
  bj_parse :: "string \<Rightarrow> string + oauth_blob option"

type_synonym files = "string \<rightharpoonup> string"

text \<open>The store's path: \<open>base\<close> is what \<open>findRepoRoot\<close> finds.\<close>

definition token_store_path :: "string \<Rightarrow> string option \<Rightarrow> string" where
  "token_store_path base override =
     (case clear_empty (map_option trim override) of
        Some p \<Rightarrow> p
      | None \<Rightarrow> base @ ''/.orbio/token-store.enc.json'')"

definition read_oauth_blob :: "cipher \<Rightarrow> blob_json \<Rightarrow> string \<Rightarrow> bytes \<Rightarrow> files \<Rightarrow> string + oauth_blob" where
  "read_oauth_blob ci bj path key fs =
     (case fs path of
        None \<Rightarrow> Inr empty_blob
      | Some content \<Rightarrow>
          (let wire = trim content in
           if wire = [] then Inr empty_blob
           else case decrypt_token ci wire key of
             Inl e \<Rightarrow> Inl e
           | Inr json \<Rightarrow> (case bj_parse bj json of Inl e \<Rightarrow> Inl e | Inr b \<Rightarrow> Inr (nullish b empty_blob))))"

definition write_oauth_blob ::
    "cipher \<Rightarrow> blob_json \<Rightarrow> bytes \<Rightarrow> millis \<Rightarrow> string \<Rightarrow> bytes \<Rightarrow> oauth_blob \<Rightarrow> files \<Rightarrow> files" where
  "write_oauth_blob ci bj iv now path key b fs =
     fs(path \<mapsto> encrypt_token ci iv (bj_text bj (b\<lparr>ob_updated := Some now\<rparr>)) key @ [CHR 0x0A])"

text \<open>One entry of a patch; \<open>None\<close> deletes the field.\<close>

datatype blob_patch =
    SetClient "string option"
  | SetVerifier "string option"
  | SetTokens "oauth_tokens option"
  | SetKey "string option"
  | SetPrefix "string option"
  | SetBaseline "spend_baseline option"

fun apply_patch :: "blob_patch \<Rightarrow> oauth_blob \<Rightarrow> oauth_blob" where
  "apply_patch (SetClient v) b = b\<lparr>ob_client := v\<rparr>"
| "apply_patch (SetVerifier v) b = b\<lparr>ob_verifier := v\<rparr>"
| "apply_patch (SetTokens v) b = b\<lparr>ob_tokens := v\<rparr>"
| "apply_patch (SetKey v) b = b\<lparr>ob_key := v\<rparr>"
| "apply_patch (SetPrefix v) b = b\<lparr>ob_prefix := v\<rparr>"
| "apply_patch (SetBaseline v) b = b\<lparr>ob_baseline := v\<rparr>"

text \<open>The blob written, or the error of the read; \<open>seed\<close> is the random IV and the time.\<close>

definition update_oauth_blob ::
    "cipher \<Rightarrow> blob_json \<Rightarrow> bytes \<times> millis \<Rightarrow> string \<Rightarrow> bytes \<Rightarrow> blob_patch list \<Rightarrow> files \<Rightarrow> (string + oauth_blob) \<times> files" where
  "update_oauth_blob ci bj seed path key patch fs =
     (case read_oauth_blob ci bj path key fs of
        Inl e \<Rightarrow> (Inl e, fs)
      | Inr b \<Rightarrow> (let b' = fold apply_patch patch b in (Inr b', write_oauth_blob ci bj (fst seed) (snd seed) path key b' fs)))"


section \<open>Seeding a session\<close>

definition encryption_key_fingerprint :: "cipher \<Rightarrow> bytes \<Rightarrow> string" where
  "encryption_key_fingerprint ci key = take 8 (ci_sha ci key)"

text \<open>Client registration and access token, nothing else; \<open>!x\<close> also holds of an empty text.\<close>

definition session_only :: "oauth_blob \<Rightarrow> string + oauth_blob" where
  "session_only b =
     (case ob_tokens b of
        None \<Rightarrow> Inl ''the local token store holds no access token''
      | Some t \<Rightarrow>
          (if clear_empty (tk_access t) = None then Inl ''the local token store holds no access token''
           else if ob_client b = None then Inl ''the local token store holds no client registration''
           else Inr (empty_blob\<lparr>ob_client := ob_client b, ob_tokens := Some (t\<lparr>tk_refresh := None\<rparr>)\<rparr>)))"

definition seed_version :: string where "seed_version = ''v1''"

definition build_session_seed :: "cipher \<Rightarrow> blob_json \<Rightarrow> bytes \<Rightarrow> oauth_blob \<Rightarrow> bytes \<Rightarrow> string + string" where
  "build_session_seed ci bj iv b key =
     (case session_only b of
        Inl e \<Rightarrow> Inl e
      | Inr s \<Rightarrow> Inr (seed_version @ ''.'' @ encryption_key_fingerprint ci key @ ''.'' @ encrypt_token ci iv (bj_text bj s) key))"

text \<open>\<open>split(d)\<close> for a separator of one character.\<close>

fun split_at_char :: "char \<Rightarrow> string \<Rightarrow> string list" where
  "split_at_char d [] = [[]]"
| "split_at_char d (c # cs) =
     (if c = d then [] # split_at_char d cs else (case split_at_char d cs of p # ps \<Rightarrow> (c # p) # ps | [] \<Rightarrow> [[c]]))"

record session_env =
  ev_seed :: "string option"
  ev_store :: "string option"
  ev_enc_key :: "string option"
  ev_management :: "string option"
  ev_source :: "string option"
  ev_orbio_key :: "string option"
  ev_router_key :: "string option"

datatype seed_refusal = SeedNotSet | StoreExists | NoKey string | NotASeed | OtherKey string string | BadBlob string | CannotWrite

text \<open>The boot hook; \<open>writable\<close> says whether the file system takes the file.\<close>

definition seed_token_store ::
    "cipher \<Rightarrow> blob_json \<Rightarrow> bytes \<times> millis \<Rightarrow> string \<Rightarrow> (string \<Rightarrow> bool) \<Rightarrow> session_env \<Rightarrow> files \<Rightarrow> seed_refusal option \<times> files" where
  "seed_token_store ci bj seed base writable env fs =
     (case clear_empty (map_option trim (ev_seed env)) of
        None \<Rightarrow> (Some SeedNotSet, fs)
      | Some raw \<Rightarrow>
          (let path = token_store_path base (ev_store env) in
           if fs path \<noteq> None then (Some StoreExists, fs)
           else case load_encryption_key ci (ev_enc_key env) of
             Inl e \<Rightarrow> (Some (NoKey e), fs)
           | Inr key \<Rightarrow>
               (case split_at_char (CHR ''.'') raw of
                  [version, fp, wire] \<Rightarrow>
                    (if version \<noteq> seed_version then (Some NotASeed, fs)
                     else if fp \<noteq> encryption_key_fingerprint ci key then (Some (OtherKey fp (encryption_key_fingerprint ci key)), fs)
                     else case decrypt_token ci wire key of
                       Inl e \<Rightarrow> (Some (BadBlob e), fs)
                     | Inr json \<Rightarrow>
                         (case bj_parse bj json of
                            Inl e \<Rightarrow> (Some (BadBlob e), fs)
                          | Inr None \<Rightarrow> (Some (BadBlob ''null''), fs)
                          | Inr (Some b) \<Rightarrow>
                              (case session_only b of
                                 Inl e \<Rightarrow> (Some (BadBlob e), fs)
                               | Inr s \<Rightarrow>
                                   (if writable path then (None, write_oauth_blob ci bj (fst seed) (snd seed) path key s fs)
                                    else (Some CannotWrite, fs)))))
                | _ \<Rightarrow> (Some NotASeed, fs))))"

datatype management = Managed | Observe

definition key_management_mode :: "session_env \<Rightarrow> management" where
  "key_management_mode env =
     (let explicit = map_option (\<lambda>s. lower (trim s)) (ev_management env)
      in if explicit = Some ''managed'' then Managed
         else if explicit = Some ''observe'' then Observe
         else if clear_empty (map_option trim (ev_seed env)) \<noteq> None then Observe else Managed)"

text \<open>\<open>metabolismSource\<close>: the gateway unless it says \<open>mcp\<close>.\<close>

definition gateway_source :: "session_env \<Rightarrow> bool" where
  "gateway_source env \<longleftrightarrow> map_option (\<lambda>s. lower (trim s)) (ev_source env) \<noteq> Some ''mcp''"


section \<open>The key a deep dive uses\<close>

definition resolve_gateway_key :: "cipher \<Rightarrow> blob_json \<Rightarrow> string \<Rightarrow> session_env \<Rightarrow> string option \<Rightarrow> files \<Rightarrow> string" where
  "resolve_gateway_key ci bj base env wallet fs =
     (let from_env = nullish (clear_empty (ev_orbio_key env)) (nullish (ev_router_key env) []);
          stored =
            (if clear_empty (ev_enc_key env) = None then None
             else case load_encryption_key ci (ev_enc_key env) of
               Inl e \<Rightarrow> None
             | Inr key \<Rightarrow>
                 (case read_oauth_blob ci bj (token_store_path base (ev_store env)) key fs of
                    Inl e \<Rightarrow> None
                  | Inr b \<Rightarrow> clear_empty (ob_key b)))
      in case clear_empty wallet of
           Some k \<Rightarrow> k
         | None \<Rightarrow> (case stored of Some k \<Rightarrow> k | None \<Rightarrow> from_env))"


section \<open>The auth provider\<close>

record auth_provider =
  ap_key :: bytes
  ap_path :: string
  ap_interactive :: bool
  ap_use_refresh :: bool
  ap_verifier :: "string option"    \<comment> \<open>\<open>memoryVerifier\<close>\<close>

definition provider_tokens :: "cipher \<Rightarrow> blob_json \<Rightarrow> auth_provider \<Rightarrow> files \<Rightarrow> string + oauth_tokens option" where
  "provider_tokens ci bj p fs =
     (case read_oauth_blob ci bj (ap_path p) (ap_key p) fs of
        Inl e \<Rightarrow> Inl e
      | Inr b \<Rightarrow>
          (case ob_tokens b of
             None \<Rightarrow> Inr None
           | Some t \<Rightarrow> Inr (Some (if ap_use_refresh p then t else t\<lparr>tk_refresh := None\<rparr>))))"

definition client_information :: "cipher \<Rightarrow> blob_json \<Rightarrow> auth_provider \<Rightarrow> files \<Rightarrow> string + string option" where
  "client_information ci bj p fs =
     (case read_oauth_blob ci bj (ap_path p) (ap_key p) fs of Inl e \<Rightarrow> Inl e | Inr b \<Rightarrow> Inr (ob_client b))"

definition code_verifier :: "cipher \<Rightarrow> blob_json \<Rightarrow> auth_provider \<Rightarrow> files \<Rightarrow> string + string" where
  "code_verifier ci bj p fs =
     (case (if ap_interactive p then
              (case read_oauth_blob ci bj (ap_path p) (ap_key p) fs of Inl e \<Rightarrow> Inl e | Inr b \<Rightarrow> Inr (clear_empty (ob_verifier b)))
            else Inr (clear_empty (ap_verifier p))) of
        Inl e \<Rightarrow> Inl e
      | Inr None \<Rightarrow> Inl ''No PKCE code verifier on disk''
      | Inr (Some v) \<Rightarrow> Inr v)"

datatype credential_scope = ScopeAll | ScopeClient | ScopeTokens | ScopeVerifier | ScopeDiscovery

definition invalidation_patch :: "credential_scope \<Rightarrow> blob_patch list" where
  "invalidation_patch s =
     (if s = ScopeAll \<or> s = ScopeClient then [SetClient None] else []) @
     (if s = ScopeAll \<or> s = ScopeTokens then [SetTokens None] else []) @
     (if s = ScopeAll \<or> s = ScopeVerifier then [SetVerifier None] else [])"

text \<open>What the OAuth library calls on the provider to change what is stored.\<close>

datatype provider_op = SaveClient string | SaveTokens oauth_tokens | SaveVerifier string | Invalidate credential_scope

definition provider_store ::
    "cipher \<Rightarrow> blob_json \<Rightarrow> bytes \<times> millis \<Rightarrow> blob_patch list \<Rightarrow> auth_provider \<times> files \<Rightarrow> bool \<times> auth_provider \<times> files" where
  "provider_store ci bj seed patch pf =
     (case pf of (p, fs) \<Rightarrow>
        (case update_oauth_blob ci bj seed (ap_path p) (ap_key p) patch fs of (r, fs') \<Rightarrow> (\<not> isl r, p, fs')))"

definition provider_call ::
    "cipher \<Rightarrow> blob_json \<Rightarrow> bytes \<times> millis \<Rightarrow> provider_op \<Rightarrow> auth_provider \<times> files \<Rightarrow> bool \<times> auth_provider \<times> files" where
  "provider_call ci bj seed c pf =
     (case pf of (p, fs) \<Rightarrow>
        (case c of
           SaveClient i \<Rightarrow> provider_store ci bj seed [SetClient (Some i)] (p, fs)
         | SaveTokens t \<Rightarrow> provider_store ci bj seed [SetTokens (Some t)] (p, fs)
         | SaveVerifier v \<Rightarrow>
             (if ap_interactive p then provider_store ci bj seed [SetVerifier (Some v)] (p\<lparr>ap_verifier := Some v\<rparr>, fs)
              else (True, p\<lparr>ap_verifier := Some v\<rparr>, fs))
         | Invalidate s \<Rightarrow>
             (if invalidation_patch s = [] then (True, p, fs) else provider_store ci bj seed (invalidation_patch s) (p, fs))))"


section \<open>Connecting and calling tools\<close>

datatype connect_error = Unauthorized | InteractiveRequired | OtherConnectError string

datatype orbio_error = NotAuthed bool | ConnectFailed string   \<comment> \<open>whether a token was stored\<close>

text \<open>\<open>connectOrbio\<close>: \<open>r\<close> is the outcome of the library's connect; reading the tokens may itself throw.\<close>

definition connect_orbio :: "cipher \<Rightarrow> blob_json \<Rightarrow> auth_provider \<Rightarrow> files \<Rightarrow> connect_error + 'c \<Rightarrow> orbio_error + 'c" where
  "connect_orbio ci bj p fs r =
     (case r of
        Inr c \<Rightarrow> Inr c
      | Inl (OtherConnectError e) \<Rightarrow> Inl (ConnectFailed e)
      | Inl _ \<Rightarrow>
          (case provider_tokens ci bj p fs of
             Inl e \<Rightarrow> Inl (ConnectFailed e)
           | Inr t \<Rightarrow> Inl (NotAuthed (t \<noteq> None))))"

text \<open>A tool result: its error flag, its structured content, its texts.  A payload is a parsed or plain text.\<close>

datatype 'j payload = Structured 'j | PlainText string | ManyTexts "string list" | EmptyPayload

fun join_lines :: "string list \<Rightarrow> string" where
  "join_lines [] = []"
| "join_lines [t] = t"
| "join_lines (t # ts) = t @ CHR 0x0A # join_lines ts"

definition extract_tool_payload :: "(string \<Rightarrow> 'j option) \<Rightarrow> bool \<Rightarrow> 'j option \<Rightarrow> string list \<Rightarrow> string + 'j payload" where
  "extract_tool_payload parse is_error structured texts =
     (if is_error then
        Inl (''Orbio tool error: '' @ nullish (clear_empty (Some (join_lines texts))) ''Orbio tool returned isError with no text'')
      else case structured of
        Some j \<Rightarrow> Inr (Structured j)
      | None \<Rightarrow>
          (case texts of
             [] \<Rightarrow> Inr EmptyPayload
           | [t] \<Rightarrow> Inr (case parse t of Some j \<Rightarrow> Structured j | None \<Rightarrow> PlainText t)
           | ts \<Rightarrow> Inr (ManyTexts ts)))"

definition label_max :: nat where "label_max = 60"

text \<open>\<open>orbioCreateKey\<close>: whether the label goes out with the call.\<close>

definition orbio_create_key :: "(string option \<Rightarrow> string + 'k) \<Rightarrow> string option \<Rightarrow> string + 'k" where
  "orbio_create_key call label =
     (case label of
        Some l \<Rightarrow> if length l > label_max then Inl ''orbio_create_key label must be <= 60 chars'' else call (Some l)
      | None \<Rightarrow> call None)"


section \<open>Reading the gateway\<close>

text \<open>\<open>^-?\d+(\.\d+)?$\<close>.\<close>

definition money_text :: "string \<Rightarrow> bool" where
  "money_text s =
     (let u = (if s \<noteq> [] \<and> hd s = CHR ''-'' then tl s else s); whole = takeWhile is_digit u; rest = dropWhile is_digit u
      in whole \<noteq> [] \<and> (rest = [] \<or> hd rest = CHR ''.'' \<and> tl rest \<noteq> [] \<and> list_all is_digit (tl rest)))"

record gateway_key =
  gk_prefix :: string
  gk_created :: "string option"
  gk_currency :: string
  gk_available :: string
  gk_used :: string

record metabolism_reading =
  mr_balance :: real
  mr_spend :: real
  mr_prefix :: string
  mr_created :: "string option"

definition gateway_key_to_reading :: "gateway_key \<Rightarrow> metabolism_reading" where
  "gateway_key_to_reading k =
     \<lparr>mr_balance = nullish (js_number (gk_available k)) 0, mr_spend = nullish (js_number (gk_used k)) 0, mr_prefix = gk_prefix k, mr_created = gk_created k\<rparr>"

text \<open>\<open>get\<close> answers a bearer key with a status and a body; \<open>parse\<close> is \<open>JSON.parse\<close>, the checks are the schema's.\<close>

definition gateway_get_key ::
    "(string \<Rightarrow> string + nat \<times> string) \<Rightarrow> (string \<Rightarrow> string + gateway_key) \<Rightarrow> string \<Rightarrow> string + gateway_key" where
  "gateway_get_key get parse key =
     (if key = [] then Inl ''gateway balance read: no gateway key (set ORBIO_API_KEY)''
      else case get key of
        Inl e \<Rightarrow> Inl e
      | Inr (status, body) \<Rightarrow>
          (if \<not> (200 \<le> status \<and> status \<le> 299) then Inl (''gateway GET /key: '' @ take 200 body)
           else case parse body of
             Inl e \<Rightarrow> Inl e
           | Inr k \<Rightarrow>
               (if gk_currency k = ''USD'' \<and> money_text (gk_available k) \<and> money_text (gk_used k) then Inr k
                else Inl ''expected a decimal money string'')))"

end
