(* ===== verification/SessionFacts.thy ===== *)
theory SessionFacts
  imports Session "HOL-Library.Countable"
begin

text \<open>
  The properties of the session store: what was written is read back, what a seed can bring into a
  container and what it cannot, which key a seeded worker uses, that it never manages keys, that
  the worker leaves a sign-in in progress alone, and what two writers do to each other.
\<close>


section \<open>Round trips\<close>

text \<open>
  What the code relies on: opening what was sealed, the form of the tags, base64 without the dot and
  white space that the seed's and the file's framing use.
\<close>

definition wire_char :: "char \<Rightarrow> bool" where
  "wire_char c \<longleftrightarrow> c \<noteq> CHR ''.'' \<and> \<not> is_space c"

definition cipher_ok :: "cipher \<Rightarrow> bool" where
  "cipher_ok ci \<longleftrightarrow>
     (\<forall>key iv plain enc tag. ci_seal ci key iv plain = (enc, tag) \<longrightarrow>
        length tag = tag_len \<and> (plain \<noteq> [] \<longrightarrow> enc \<noteq> []) \<and> ci_open ci key iv tag enc = Some plain) \<and>
     (\<forall>s. ci_unb64 ci (ci_b64 ci s) = s \<and> list_all wire_char (ci_b64 ci s)) \<and> ci_unb64 ci [] = [] \<and>
     (\<forall>s. list_all wire_char (ci_sha ci s))"

definition json_ok :: "blob_json \<Rightarrow> oauth_blob \<Rightarrow> bool" where
  "json_ok bj b \<longleftrightarrow> bj_text bj b \<noteq> [] \<and> bj_parse bj (bj_text bj b) = Inr (Some b)"

lemma decrypt_encrypt:
  assumes "cipher_ok ci" and "length iv = iv_len" and "plain \<noteq> []"
  shows "decrypt_token ci (encrypt_token ci iv plain key) key = Inr plain"
proof -
  obtain enc tag where s: "ci_seal ci key iv plain = (enc, tag)" by fastforce
  then have "length tag = tag_len" "enc \<noteq> []" "ci_open ci key iv tag enc = Some plain" using assms(1,3) by (auto simp: cipher_ok_def)
  moreover have "ci_unb64 ci (ci_b64 ci (iv @ tag @ enc)) = iv @ tag @ enc" using assms(1) by (simp add: cipher_ok_def)
  ultimately show ?thesis
    using assms(2) by (cases enc) (simp_all add: decrypt_token_def encrypt_token_def s Let_def)
qed

text \<open>An empty text is encrypted to a wire that cannot be decrypted.\<close>

lemma empty_plaintext_lost:
  assumes "cipher_ok ci" and "length iv = iv_len" and "\<And>enc tag. ci_seal ci key iv [] = (enc, tag) \<Longrightarrow> enc = []"
  shows "decrypt_token ci (encrypt_token ci iv [] key) key = Inl ''ciphertext too short''"
proof -
  obtain enc tag where "ci_seal ci key iv [] = (enc, tag)" by fastforce
  with assms(3) have s: "ci_seal ci key iv [] = ([], tag)" by simp
  then have "length tag = tag_len" using assms(1) by (auto simp: cipher_ok_def)
  moreover have "ci_unb64 ci (ci_b64 ci (iv @ tag)) = iv @ tag" using assms(1) by (simp add: cipher_ok_def)
  ultimately show ?thesis using assms(2) by (simp add: decrypt_token_def encrypt_token_def s Let_def)
qed

lemma encrypt_wire:
  assumes "cipher_ok ci" and "length iv = iv_len"
  shows "list_all wire_char (encrypt_token ci iv plain key)" and "encrypt_token ci iv plain key \<noteq> []"
proof -
  show "list_all wire_char (encrypt_token ci iv plain key)"
    using assms(1) by (simp add: encrypt_token_def cipher_ok_def split: prod.split)
  show "encrypt_token ci iv plain key \<noteq> []"
  proof
    assume "encrypt_token ci iv plain key = []"
    then obtain enc tag where "ci_b64 ci (iv @ tag @ enc) = []" by (auto simp: encrypt_token_def split: prod.splits)
    moreover have "ci_unb64 ci (ci_b64 ci (iv @ tag @ enc)) = iv @ tag @ enc" "ci_unb64 ci [] = []"
      using assms(1) by (auto simp: cipher_ok_def)
    ultimately show False using assms(2) by (simp add: iv_len_def)
  qed
qed

lemma dropWhile_no_space: "list_all wire_char s \<Longrightarrow> dropWhile is_space s = s"
  by (cases s) (auto simp: wire_char_def)

lemma trim_wire: "list_all wire_char s \<Longrightarrow> trim s = s \<and> trim (s @ [CHR 0x0A]) = s"
proof -
  assume s: "list_all wire_char s"
  have n: "is_space (CHR 0x0A)" by (simp add: is_space_def)
  have rev: "dropWhile is_space (rev s) = rev s" using s by (intro dropWhile_no_space) (simp add: list_all_iff)
  have "dropWhile is_space (s @ [CHR 0x0A]) = (if s = [] then [] else s @ [CHR 0x0A])"
    using s n by (cases s) (auto simp: wire_char_def)
  then show ?thesis using rev n dropWhile_no_space [OF s] by (auto simp: trim_def)
qed

text \<open>What was written is read back, with its time, and no other file is touched.\<close>

lemma read_write:
  assumes "cipher_ok ci" and "length iv = iv_len" and "json_ok bj (b\<lparr>ob_updated := Some now\<rparr>)"
  shows "read_oauth_blob ci bj path key (write_oauth_blob ci bj iv now path key b fs) = Inr (b\<lparr>ob_updated := Some now\<rparr>)"
    and "p \<noteq> path \<Longrightarrow> write_oauth_blob ci bj iv now path key b fs p = fs p"
proof -
  let ?b = "b\<lparr>ob_updated := Some now\<rparr>"
  have json: "bj_text bj ?b \<noteq> []" "bj_parse bj (bj_text bj ?b) = Inr (Some ?b)" using assms(3) by (simp_all add: json_ok_def)
  have "trim (encrypt_token ci iv (bj_text bj ?b) key @ [CHR 0x0A]) = encrypt_token ci iv (bj_text bj ?b) key"
    using trim_wire encrypt_wire(1) [OF assms(1,2)] by blast
  then show "read_oauth_blob ci bj path key (write_oauth_blob ci bj iv now path key b fs) = Inr ?b"
    using encrypt_wire(2) [OF assms(1,2)] decrypt_encrypt [OF assms(1,2) json(1)] json(2)
    by (simp add: read_oauth_blob_def write_oauth_blob_def Let_def)
qed (simp add: write_oauth_blob_def)

lemma update_reads:
  assumes "cipher_ok ci" and "length (fst seed) = iv_len" and "read_oauth_blob ci bj path key fs = Inr b"
    and "json_ok bj (fold apply_patch patch b\<lparr>ob_updated := Some (snd seed)\<rparr>)"
  shows "read_oauth_blob ci bj path key (snd (update_oauth_blob ci bj seed path key patch fs)) =
    Inr (fold apply_patch patch b\<lparr>ob_updated := Some (snd seed)\<rparr>)"
  using read_write(1) [OF assms(1,2,4)] by (simp add: update_oauth_blob_def assms(3) Let_def)


section \<open>Seeds\<close>

definition session_shaped :: "oauth_blob \<Rightarrow> bool" where
  "session_shaped b \<longleftrightarrow> ob_verifier b = None \<and> ob_key b = None \<and> ob_prefix b = None \<and> ob_baseline b = None \<and>
     ob_client b \<noteq> None \<and> (\<exists>t. ob_tokens b = Some t \<and> tk_refresh t = None \<and> tk_access t \<noteq> None)"

lemma session_only_shaped: "session_only b = Inr s \<Longrightarrow> session_shaped (s\<lparr>ob_updated := u\<rparr>)"
  by (auto simp: session_only_def session_shaped_def empty_blob_def clear_empty_def split: option.splits if_splits)

lemma seed_writes:
  assumes "seed_token_store ci bj seed base writable env fs = (None, fs')"
  obtains key s b where "load_encryption_key ci (ev_enc_key env) = Inr key" and "session_only b = Inr s"
    and "fs (token_store_path base (ev_store env)) = None"
    and "fs' = write_oauth_blob ci bj (fst seed) (snd seed) (token_store_path base (ev_store env)) key s fs"
  using assms
  by (auto simp: seed_token_store_def Let_def split: option.splits sum.splits if_splits list.splits)

lemma seed_refused: "seed_token_store ci bj seed base writable env fs = (Some r, fs') \<Longrightarrow> fs' = fs"
  by (auto simp: seed_token_store_def Let_def split: option.splits sum.splits if_splits list.splits)

text \<open>
  C24: Whatever text the seed variable holds -- a hand-made one with a gateway key and a refresh token
  in it included -- the boot hook never touches an existing store or any other file, and a store it
  does write holds a client and an access token and no gateway key, refresh token or verifier; so
  the key the deep dive uses is the environment's, not one from the seed.
\<close>

theorem seed_carries_no_key:
  assumes "cipher_ok ci" and "length (fst seed) = iv_len" and "\<forall>b. session_shaped b \<longrightarrow> json_ok bj b"
    and "seed_token_store ci bj seed base writable env fs = (refusal, fs')"
  shows "if refusal \<noteq> None then fs' = fs
    else fs (token_store_path base (ev_store env)) = None \<and>
      (\<forall>p. p \<noteq> token_store_path base (ev_store env) \<longrightarrow> fs' p = fs p) \<and>
      (\<exists>key b. load_encryption_key ci (ev_enc_key env) = Inr key \<and>
         read_oauth_blob ci bj (token_store_path base (ev_store env)) key fs' = Inr b \<and> session_shaped b) \<and>
      resolve_gateway_key ci bj base env None fs' = nullish (clear_empty (ev_orbio_key env)) (nullish (ev_router_key env) [])"
proof (cases refusal)
  case None
  then obtain key s b where s: "load_encryption_key ci (ev_enc_key env) = Inr key" "session_only b = Inr s"
      "fs (token_store_path base (ev_store env)) = None"
      "fs' = write_oauth_blob ci bj (fst seed) (snd seed) (token_store_path base (ev_store env)) key s fs"
    using seed_writes assms(4) by blast
  let ?s = "s\<lparr>ob_updated := Some (snd seed)\<rparr>"
  have shaped: "session_shaped ?s" by (rule session_only_shaped [OF s(2)])
  then have read: "read_oauth_blob ci bj (token_store_path base (ev_store env)) key fs' = Inr ?s"
    using read_write(1) [OF assms(1,2)] assms(3) s(4) by blast
  have "resolve_gateway_key ci bj base env None fs' = nullish (clear_empty (ev_orbio_key env)) (nullish (ev_router_key env) [])"
    using s(1) read shaped by (simp add: resolve_gateway_key_def Let_def clear_empty_def session_shaped_def)
  then show ?thesis using None s read shaped by (auto simp: write_oauth_blob_def)
qed (use seed_refused assms(4) in auto)

lemma split_dots_wire:
  "list_all wire_char a \<Longrightarrow> split_at_char (CHR ''.'') (a @ CHR ''.'' # rest) = a # split_at_char (CHR ''.'') rest" "list_all wire_char a \<Longrightarrow> split_at_char (CHR ''.'') a = [a]"
  by (induction a) (auto simp: wire_char_def)

definition seed_text :: "cipher \<Rightarrow> blob_json \<Rightarrow> bytes \<Rightarrow> bytes \<Rightarrow> oauth_blob \<Rightarrow> string" where
  "seed_text ci bj iv key b = seed_version @ ''.'' @ encryption_key_fingerprint ci key @ ''.'' @ encrypt_token ci iv (bj_text bj b) key"

text \<open>A well-formed seed of any blob with a session in it is taken, and stripped.\<close>

lemma seed_accepts:
  assumes "cipher_ok ci" and "length iv = iv_len" and "session_only b = Inr s" and "json_ok bj b"
    and "ev_seed env = Some (seed_text ci bj iv key b)" "load_encryption_key ci (ev_enc_key env) = Inr key"
    and "fs (token_store_path base (ev_store env)) = None" "writable (token_store_path base (ev_store env))"
  shows "seed_token_store ci bj seed base writable env fs =
    (None, write_oauth_blob ci bj (fst seed) (snd seed) (token_store_path base (ev_store env)) key s fs)"
proof -
  let ?wire = "encrypt_token ci iv (bj_text bj b) key" and ?fp = "encryption_key_fingerprint ci key"
  define raw where "raw = seed_text ci bj iv key b"
  have shape: "raw = seed_version @ CHR ''.'' # ?fp @ CHR ''.'' # ?wire"
    by (simp add: raw_def seed_text_def)
  have v: "list_all wire_char seed_version" by (simp add: seed_version_def wire_char_def is_space_def)
  have fp: "list_all wire_char ?fp"
    using assms(1) by (auto simp: cipher_ok_def encryption_key_fingerprint_def list_all_iff dest: in_set_takeD)
  note wire = encrypt_wire [OF assms(1,2), of "bj_text bj b" key]
  have "dropWhile is_space raw = raw" by (simp add: shape seed_version_def is_space_def)
  moreover have "dropWhile is_space (rev raw) = rev raw"
  proof (cases "rev ?wire")
    case (Cons c cs)
    then have "c \<in> set ?wire" by (metis list.set_intros(1) set_rev)
    then have "\<not> is_space c" using wire(1) by (simp add: list_all_iff wire_char_def)
    then show ?thesis using Cons by (simp add: shape)
  qed (use wire(2) in simp)
  ultimately have trim: "trim raw = raw" by (simp add: trim_def)
  have "decrypt_token ci ?wire key = Inr (bj_text bj b)"
    using assms(4) by (intro decrypt_encrypt [OF assms(1,2)]) (simp add: json_ok_def)
  moreover have "split_at_char (CHR ''.'') raw = [seed_version, ?fp, ?wire]"
    using v fp wire(1) by (simp add: shape split_dots_wire)
  moreover have "clear_empty (Some raw) = Some raw" by (simp add: clear_empty_def shape)
  ultimately show ?thesis
    using assms(3-8) by (simp add: seed_token_store_def Let_def trim json_ok_def flip: raw_def)
qed

text \<open>
  A seed built from a signed-in store brings up a worker that has no store and the same key: the hook
  takes it, and the store then holds that session and nothing else.
\<close>

theorem seed_roundtrip:
  assumes "cipher_ok ci" and "length iv = iv_len" "length (fst seed) = iv_len" and "\<forall>b. session_shaped b \<longrightarrow> json_ok bj b"
    and "session_only b = Inr s" "json_ok bj s" and "build_session_seed ci bj iv b key = Inr raw"
    and "ev_seed env = Some raw" "load_encryption_key ci (ev_enc_key env) = Inr key"
    and "fs (token_store_path base (ev_store env)) = None" "writable (token_store_path base (ev_store env))"
  shows "\<exists>fs'. seed_token_store ci bj seed base writable env fs = (None, fs') \<and>
    read_oauth_blob ci bj (token_store_path base (ev_store env)) key fs' = Inr (s\<lparr>ob_updated := Some (snd seed)\<rparr>)"
proof -
  have "raw = seed_text ci bj iv key s" using assms(5,7) by (simp add: build_session_seed_def seed_text_def)
  moreover have "session_only s = Inr s"
    using assms(5) by (auto simp: session_only_def empty_blob_def clear_empty_def split: option.splits if_splits)
  ultimately have "seed_token_store ci bj seed base writable env fs =
      (None, write_oauth_blob ci bj (fst seed) (snd seed) (token_store_path base (ev_store env)) key s fs)"
    using assms(6,8-11) by (intro seed_accepts [OF assms(1,2)]) auto
  moreover have "json_ok bj (s\<lparr>ob_updated := Some (snd seed)\<rparr>)" using session_only_shaped [OF assms(5)] assms(4) by blast
  ultimately show ?thesis using read_write(1) [OF assms(1,3)] by simp
qed

text \<open>
  A store without a session -- the runner writes one for its baseline when there is none -- keeps the
  seed out.
\<close>

lemma baseline_store_blocks_seed:
  assumes "update_oauth_blob ci bj upd (token_store_path base (ev_store env)) key [SetBaseline x] fs = (Inr b, fs')"
    and "ev_seed env = Some raw" "trim raw \<noteq> []"
  shows "seed_token_store ci bj seed base writable env fs' = (Some StoreExists, fs')"
proof -
  have "fs' (token_store_path base (ev_store env)) \<noteq> None"
    using assms(1) by (auto simp: update_oauth_blob_def write_oauth_blob_def Let_def split: sum.splits)
  then show ?thesis using assms(2,3) by (auto simp: seed_token_store_def Let_def clear_empty_def)
qed

text \<open>
  A worker that was given a seed and no explicit mode never creates or revokes a key, in any
  reachable state of its runner and whatever source it reads from.
\<close>

theorem seeded_worker_manages_no_keys:
  assumes "life_reach cfg rn" and "lc_gateway cfg = gateway_source env" "lc_managed cfg \<longleftrightarrow> key_management_mode env = Managed"
    and "ev_seed env = Some raw" "trim raw \<noteq> []" and "\<forall>m. ev_management env = Some m \<longrightarrow> lower (trim m) \<noteq> ''managed''"
  shows "rn_calls rn = []"
proof -
  have "key_management_mode env = Observe"
    using assms(4-6) by (auto simp: key_management_mode_def Let_def clear_empty_def)
  then show ?thesis using assms(3) by (intro observe_no_calls [OF assms(1)]) (simp add: observing_def)
qed


section \<open>Two processes on one store\<close>

text \<open>The calls a process without a browser makes, in any order.\<close>

fun provider_run ::
    "cipher \<Rightarrow> blob_json \<Rightarrow> ((bytes \<times> millis) \<times> provider_op) list \<Rightarrow> auth_provider \<times> files \<Rightarrow> auth_provider \<times> files" where
  "provider_run ci bj [] pf = pf"
| "provider_run ci bj ((seed, c) # cs) pf = provider_run ci bj cs (snd (provider_call ci bj seed c pf))"

definition keeps_verifier :: "provider_op \<Rightarrow> bool" where
  "keeps_verifier c \<longleftrightarrow> c \<noteq> Invalidate ScopeAll \<and> c \<noteq> Invalidate ScopeVerifier"

lemma provider_call_keeps:
  assumes "cipher_ok ci" and "\<forall>b. ob_baseline b = None \<longrightarrow> json_ok bj b" and "\<not> ap_interactive p" and "keeps_verifier c"
    and "length (fst seed) = iv_len" and "read_oauth_blob ci bj (ap_path p) (ap_key p) fs = Inr b" "ob_baseline b = None"
  shows "\<exists>p' fs' b'. snd (provider_call ci bj seed c (p, fs)) = (p', fs') \<and> ap_path p' = ap_path p \<and> ap_key p' = ap_key p \<and>
    \<not> ap_interactive p' \<and> read_oauth_blob ci bj (ap_path p) (ap_key p) fs' = Inr b' \<and> ob_baseline b' = None \<and> ob_verifier b' = ob_verifier b"
proof -
  have store: "\<exists>fs' b'. snd (provider_store ci bj seed patch (p, fs)) = (p, fs') \<and>
      read_oauth_blob ci bj (ap_path p) (ap_key p) fs' = Inr b' \<and> ob_baseline b' = None \<and> ob_verifier b' = ob_verifier b"
    if "ob_baseline (fold apply_patch patch b) = None" "ob_verifier (fold apply_patch patch b) = ob_verifier b" for patch
  proof -
    have "json_ok bj (fold apply_patch patch b\<lparr>ob_updated := Some (snd seed)\<rparr>)" using assms(2) that(1) by simp
    from update_reads [OF assms(1,5,6) this] show ?thesis
      using that by (simp add: provider_store_def case_prod_beta)
  qed
  show ?thesis
  proof (cases c)
    case (SaveVerifier v)
    then show ?thesis using assms(3,6,7) by (simp add: provider_call_def)
  next
    case (Invalidate s)
    then show ?thesis
      using assms(3,4,6,7) store [of "invalidation_patch s"]
      by (cases s) (auto simp: provider_call_def invalidation_patch_def keeps_verifier_def)
  next
    case (SaveClient i)
    then show ?thesis using assms(3,7) store [of "[SetClient (Some i)]"] by (auto simp: provider_call_def)
  next
    case (SaveTokens t)
    then show ?thesis using assms(3,7) store [of "[SetTokens (Some t)]"] by (auto simp: provider_call_def)
  qed
qed


text \<open>
  The store's update is a read and a write with nothing in between only within one process.  When a
  sign-in saves its tokens between the read and the write of another process's update, that write
  takes the tokens away again.
\<close>

theorem concurrent_update_loses_tokens:
  assumes "cipher_ok ci" and "length (fst seed1) = iv_len" "length (fst seed2) = iv_len"
    and "read_oauth_blob ci bj path key fs = Inr b" "fs1 = snd (update_oauth_blob ci bj seed1 path key [SetTokens (Some t)] fs)"
    and "b' = fold apply_patch patch b" "\<forall>x\<in>set patch. \<forall>v. x \<noteq> SetTokens v" "json_ok bj (b'\<lparr>ob_updated := Some (snd seed2)\<rparr>)"
    and "fs2 = write_oauth_blob ci bj (fst seed2) (snd seed2) path key b' fs1"
  shows "\<exists>b2. read_oauth_blob ci bj path key fs2 = Inr b2 \<and> ob_tokens b2 = ob_tokens b"
proof -
  have "ob_tokens (fold apply_patch patch b) = ob_tokens b"
    using assms(7)
  proof (induction patch arbitrary: b)
    case (Cons x patch)
    have "ob_tokens (apply_patch x b) = ob_tokens b" using Cons.prems by (cases x) auto
    then show ?case using Cons by simp
  qed simp
  then show ?thesis using read_write(1) [OF assms(1,3,8)] by (simp add: assms(6,9))
qed


section \<open>Examples\<close>

text \<open>A cipher and a JSON that keep what the code relies on: texts are coded by numbers.\<close>

definition toy_cipher :: cipher where
  "toy_cipher = \<lparr>ci_seal = (\<lambda>key iv plain. (plain, replicate 16 (CHR ''t''))), ci_open = (\<lambda>key iv tag enc. Some enc),
     ci_b64 = (\<lambda>s. if s = [] then [] else replicate (Suc (to_nat s)) (CHR ''x'')),
     ci_unb64 = (\<lambda>t. if t = [] then [] else from_nat (length t - 1)), ci_sha = (\<lambda>s. ''c0ffee'')\<rparr>"

lemma toy_cipher_ok: "cipher_ok toy_cipher"
  by (auto simp: cipher_ok_def toy_cipher_def tag_len_def wire_char_def is_space_def list_all_iff)

definition blob_code :: "oauth_blob \<Rightarrow> string option \<times> string option \<times> (string option \<times> string option \<times> nat option) option \<times>
    string option \<times> string option \<times> int option" where
  "blob_code b = (ob_client b, ob_verifier b, map_option (\<lambda>t. (tk_access t, tk_refresh t, tk_expires t)) (ob_tokens b), ob_key b, ob_prefix b,
     ob_updated b)"

definition toy_json :: blob_json where
  "toy_json = \<lparr>bj_text = (\<lambda>b. replicate (Suc (to_nat (blob_code b))) (CHR ''j'')),
     bj_parse = (\<lambda>s. case from_nat (length s - 1) of (c, v, t, k, p, u) \<Rightarrow>
       Inr (Some \<lparr>ob_client = c, ob_verifier = v, ob_tokens = map_option (\<lambda>(a, r, x). \<lparr>tk_access = a, tk_refresh = r, tk_expires = x\<rparr>) t,
         ob_key = k, ob_prefix = p, ob_baseline = None, ob_updated = u\<rparr>))\<rparr>"

lemma toy_json_ok: "ob_baseline b = None \<Longrightarrow> json_ok toy_json b"
  by (cases "ob_tokens b") (simp_all add: json_ok_def toy_json_def blob_code_def)

lemma toy_session_json: "session_shaped b \<Longrightarrow> json_ok toy_json b"
  by (simp add: session_shaped_def toy_json_ok)

definition toy_key :: bytes where "toy_key = replicate 32 (CHR ''k'')"
definition toy_iv :: bytes where "toy_iv = replicate 12 (CHR ''i'')"

lemma toy_iv_length: "length toy_iv = iv_len" by (simp add: toy_iv_def iv_len_def)

text \<open>A blob with everything in it, and the environment of a container that was given a seed made of it.\<close>

definition full_blob :: oauth_blob where
  "full_blob = \<lparr>ob_client = Some ''client'', ob_verifier = Some ''pkce'',
     ob_tokens = Some \<lparr>tk_access = Some ''access'', tk_refresh = Some ''refresh'', tk_expires = None\<rparr>,
     ob_key = Some ''old key'', ob_prefix = Some ''sk'', ob_baseline = None, ob_updated = None\<rparr>"

definition seeded_env :: "string \<Rightarrow> session_env" where
  "seeded_env raw = \<lparr>ev_seed = Some raw, ev_store = Some ''/data/store'', ev_enc_key = Some (ci_b64 toy_cipher toy_key), ev_management = None,
     ev_source = Some ''mcp'', ev_orbio_key = Some ''new key'', ev_router_key = None\<rparr>"

lemma toy_loads: "load_encryption_key toy_cipher (ev_enc_key (seeded_env raw)) = Inr toy_key"
  by (simp add: load_encryption_key_def seeded_env_def toy_cipher_def clear_empty_def toy_key_def Let_def)

definition stripped_blob :: oauth_blob where
  "stripped_blob = empty_blob\<lparr>ob_client := Some ''client'',
     ob_tokens := Some \<lparr>tk_access = Some ''access'', tk_refresh = None, tk_expires = None\<rparr>\<rparr>"

lemma full_stripped: "session_only full_blob = Inr stripped_blob"
  by (simp add: session_only_def full_blob_def clear_empty_def stripped_blob_def)

abbreviation full_seed :: string where "full_seed \<equiv> seed_text toy_cipher toy_json toy_iv toy_key full_blob"

lemma full_seed_taken:
  "seed_token_store toy_cipher toy_json (toy_iv, 5) ''/app'' (\<lambda>p. True) (seeded_env full_seed) Map.empty =
     (None, write_oauth_blob toy_cipher toy_json toy_iv 5 (token_store_path ''/app'' (ev_store (seeded_env full_seed))) toy_key stripped_blob Map.empty)"
proof -
  have "json_ok toy_json full_blob" by (rule toy_json_ok) (simp add: full_blob_def)
  then show ?thesis
    using seed_accepts [OF toy_cipher_ok toy_iv_length full_stripped, of toy_json "seeded_env full_seed" toy_key Map.empty "''/app''" "\<lambda>p. True" "(toy_iv, 5)"]
    by (simp add: toy_loads) (simp add: seeded_env_def)
qed

theorem seed_carries_no_key_witness:
  "fst (seed_token_store toy_cipher toy_json (toy_iv, 5) ''/app'' (\<lambda>p. True) (seeded_env full_seed) Map.empty) = None \<and>
   resolve_gateway_key toy_cipher toy_json ''/app'' (seeded_env full_seed) None
     (snd (seed_token_store toy_cipher toy_json (toy_iv, 5) ''/app'' (\<lambda>p. True) (seeded_env full_seed) Map.empty)) = ''new key''"
proof -
  have "\<forall>b. session_shaped b \<longrightarrow> json_ok toy_json b" using toy_session_json by blast
  moreover have "length (fst (toy_iv, 5 :: int)) = iv_len" by (simp add: toy_iv_length)
  ultimately show ?thesis
    using seed_carries_no_key [OF toy_cipher_ok _ _ full_seed_taken]
    by (simp add: full_seed_taken) (simp add: seeded_env_def clear_empty_def)
qed

theorem seed_roundtrip_witness:
  "\<exists>raw fs'. build_session_seed toy_cipher toy_json toy_iv full_blob toy_key = Inr raw \<and>
    seed_token_store toy_cipher toy_json (toy_iv, 5) ''/app'' (\<lambda>p. True) (seeded_env raw) Map.empty = (None, fs') \<and>
    read_oauth_blob toy_cipher toy_json ''/data/store'' toy_key fs' = Inr (stripped_blob\<lparr>ob_updated := Some 5\<rparr>)"
proof -
  have json: "\<forall>b. session_shaped b \<longrightarrow> json_ok toy_json b" using toy_session_json by blast
  have "json_ok toy_json stripped_blob" by (rule toy_json_ok) (simp add: stripped_blob_def empty_blob_def)
  moreover obtain raw where raw: "build_session_seed toy_cipher toy_json toy_iv full_blob toy_key = Inr raw"
    by (simp add: build_session_seed_def full_stripped)
  moreover have "token_store_path ''/app'' (ev_store (seeded_env raw)) = ''/data/store''" by (simp add: seeded_env_def, code_simp)
  ultimately show ?thesis
    using seed_roundtrip [OF toy_cipher_ok toy_iv_length _ json full_stripped _ raw, of "(toy_iv, 5)" "seeded_env raw" Map.empty "''/app''" "\<lambda>p. True"]
    by (simp add: toy_iv_length toy_loads) (simp add: seeded_env_def)
qed


theorem concurrent_update_loses_tokens_witness:
  "\<exists>b2. read_oauth_blob toy_cipher toy_json ''s'' toy_key
     (write_oauth_blob toy_cipher toy_json toy_iv 8 ''s'' toy_key (fold apply_patch [SetKey None, SetPrefix None, SetBaseline None] empty_blob)
       (snd (update_oauth_blob toy_cipher toy_json (toy_iv, 7) ''s'' toy_key
         [SetTokens (Some \<lparr>tk_access = Some ''a'', tk_refresh = None, tk_expires = None\<rparr>)] Map.empty))) = Inr b2 \<and> ob_tokens b2 = None"
proof -
  have read: "read_oauth_blob toy_cipher toy_json ''s'' toy_key Map.empty = Inr empty_blob" by (simp add: read_oauth_blob_def)
  have json: "json_ok toy_json (fold apply_patch [SetKey None, SetPrefix None, SetBaseline None] empty_blob\<lparr>ob_updated := Some (snd (toy_iv, 8 :: int))\<rparr>)"
    by (rule toy_json_ok) (simp add: empty_blob_def)
  have seeds: "length (fst (toy_iv, 7 :: int)) = iv_len" "length (fst (toy_iv, 8 :: int)) = iv_len" by (simp_all add: toy_iv_length)
  have other: "\<forall>x\<in>set [SetKey None, SetPrefix None, SetBaseline None]. \<forall>v. x \<noteq> SetTokens v" by simp
  show ?thesis
    using concurrent_update_loses_tokens [OF toy_cipher_ok seeds read refl refl other json refl, unfolded fst_conv snd_conv]
    by (simp add: empty_blob_def)
qed

theorem seeded_worker_manages_no_keys_witness:
  "rn_calls (restart (fresh_runner \<lparr>ok_key = None, ok_prefix = None, ok_baseline = None\<rparr>)) = [] \<and>
   \<not> gateway_source (seeded_env ''v1.a.b'')"
proof (rule conjI)
  show "rn_calls (restart (fresh_runner \<lparr>ok_key = None, ok_prefix = None, ok_baseline = None\<rparr>)) = []"
    by (rule seeded_worker_manages_no_keys [OF life_reach.boot [OF life_reach.init], where env = "seeded_env ''v1.a.b''" and raw = "''v1.a.b''" and
        cfg = "\<lparr>lc_reserve = 1, lc_low_water = 2, lc_hygiene_days = 30, lc_ids_tolerance = 1, lc_ids_grace = 1,
          lc_anomaly_pct = 50, lc_anomaly_epochs = 3, lc_phantom_tolerance = 0, lc_interval_ms = 60000,
          lc_gateway = gateway_source (seeded_env ''v1.a.b''), lc_managed = (key_management_mode (seeded_env ''v1.a.b'') = Managed)\<rparr>"])
      (simp_all add: seeded_env_def trim_def is_space_def)
qed (code_simp)

end
