(* ===== verification/Config.thy ===== *)
theory Config
  imports Api Session
begin

text \<open>
  The worker as a configured process: its environment (\<open>apps/worker/src/env.ts\<close>), the numbers an
  environment text becomes and what the budget gate does with them, the loops a boot starts
  (\<open>index.ts\<close>), assessments on demand (\<open>assess.ts\<close>), the failure counters (\<open>failures.ts\<close>), and the
  API's environment and its two queues (\<open>apps/api/src/env.ts\<close>, \<open>deepdive-queue.ts\<close>,
  \<open>assess-queue.ts\<close>).  Loading a \<open>.env\<close> file is left out.
\<close>


section \<open>Numbers from texts\<close>

text \<open>
  A JavaScript number, \<open>None\<close> being \<open>NaN\<close>: arithmetic passes it on and every comparison with it is
  false.  The infinities are left out.
\<close>

type_synonym js = "real option"

definition js2 :: "(real \<Rightarrow> real \<Rightarrow> real) \<Rightarrow> js \<Rightarrow> js \<Rightarrow> js" where
  "js2 f a b = (case (a, b) of (Some x, Some y) \<Rightarrow> Some (f x y) | _ \<Rightarrow> None)"

definition js_less :: "js \<Rightarrow> js \<Rightarrow> bool" where
  "js_less a b = (case (a, b) of (Some x, Some y) \<Rightarrow> x < y | _ \<Rightarrow> False)"

definition js_le :: "js \<Rightarrow> js \<Rightarrow> bool" where
  "js_le a b = (case (a, b) of (Some x, Some y) \<Rightarrow> x \<le> y | _ \<Rightarrow> False)"

text \<open>\<open>a || b\<close> of numbers: zero and \<open>NaN\<close> give way.\<close>

definition js_or :: "js \<Rightarrow> js \<Rightarrow> js" where
  "js_or a b = (if a = None \<or> a = Some 0 then b else a)"

type_synonym environment = "string \<Rightarrow> string option"

text \<open>\<open>process.env.X || d\<close>, \<open>process.env.X || undefined\<close>.\<close>

definition text_or :: "environment \<Rightarrow> string \<Rightarrow> string \<Rightarrow> string" where
  "text_or ev k d = nullish (clear_empty (ev k)) d"

text \<open>\<open>Number(process.env.X || d)\<close> and \<open>Number(process.env.X ?? d)\<close>: only the second reads an empty text, as zero.\<close>

definition number_or :: "environment \<Rightarrow> string \<Rightarrow> js \<Rightarrow> js" where
  "number_or ev k d = (case clear_empty (ev k) of None \<Rightarrow> d | Some s \<Rightarrow> js_number s)"

definition number_nullish :: "environment \<Rightarrow> string \<Rightarrow> real \<Rightarrow> js" where
  "number_nullish ev k d = (case ev k of None \<Rightarrow> Some d | Some s \<Rightarrow> js_number s)"

text \<open>\<open>BigInt(s)\<close> of decimal texts; \<open>None\<close> where it throws.\<close>

definition js_bigint :: "string \<Rightarrow> int option" where
  "js_bigint s =
     (let t = trim s; u = (if t \<noteq> [] \<and> (hd t = CHR ''-'' \<or> hd t = CHR ''+'') then tl t else t)
      in if t = [] then Some 0
         else if u = [] \<or> \<not> list_all is_digit u then None
         else Some ((if hd t = CHR ''-'' then - 1 else 1) * int (nat_of_digits u)))"

definition bigint_nullish :: "environment \<Rightarrow> string \<Rightarrow> int \<Rightarrow> int option" where
  "bigint_nullish ev k d = (case ev k of None \<Rightarrow> Some d | Some s \<Rightarrow> js_bigint s)"

text \<open>A private key with or without its \<open>0x\<close>; any other text is dropped.\<close>

definition norm_key :: "string option \<Rightarrow> string option" where
  "norm_key v =
     (case clear_empty v of
        None \<Rightarrow> None
      | Some s \<Rightarrow> (let k = (if take 2 s = ''0x'' then s else ''0x'' @ s) in if bytes32 k then Some k else None))"


section \<open>The worker's environment\<close>

record worker_env =
  we_chain :: js
  we_rpc :: string
  we_archive :: string
  we_redis :: string
  we_poll_ms :: js
  we_quota :: js
  we_head_lag :: int
  we_max_span :: int
  we_qualify :: js
  we_goplus :: "string option"
  we_scanhood :: string
  we_agent_key :: "string option"
  we_gas_key :: "string option"
  we_registry :: "string option"
  we_commit_sec :: js
  we_commit_leaves :: js
  we_rpm :: js
  we_logs_range :: js
  we_reserve :: js
  we_low_water :: js
  we_rotate_days :: js
  we_status_poll :: js
  we_ids_tolerance :: js
  we_anomaly_pct :: js
  we_anomaly_epochs :: js
  we_phantom_tolerance :: js
  we_ids_grace :: js
  we_gateway :: string
  we_model :: string
  we_referer :: string
  we_title :: string
  we_cap_run :: js
  we_cap_day :: js
  we_max_steps :: js
  we_bot_token :: "string option"
  we_chat :: "string option"
  we_poster_ms :: js
  we_api_base :: "string option"
  we_alerts_chat :: "string option"
  we_alerts_ms :: js
  we_commit_lag :: js
  we_watcher_stalled :: js
  we_health_port :: js

definition worker_env_of :: "environment \<Rightarrow> int \<Rightarrow> int \<Rightarrow> worker_env" where
  "worker_env_of ev lag max_block_span =
     (let rpc = nullish (ev ''RH_RPC_URL'') [] in
      \<lparr>we_chain = number_nullish ev ''CHAIN_ID'' 4663,
       we_rpc = rpc,
       we_archive = text_or ev ''RH_RPC_ARCHIVE_URL'' rpc,
       we_redis = nullish (ev ''REDIS_URL'') ''redis://localhost:6379'',
       we_poll_ms = number_nullish ev ''WATCHER_POLL_INTERVAL_MS'' 2000,
       we_quota = number_nullish ev ''QUOTA_PER_CREATOR_24H'' 5,
       we_head_lag = lag,
       we_max_span = max_block_span,
       we_qualify = number_nullish ev ''QUALIFY_UNIQUE_BUYERS'' 25,
       we_goplus = clear_empty (ev ''GOPLUS_API_KEY''),
       we_scanhood = text_or ev ''SCANHOOD_API_BASE'' ''https://scanhood.xyz'',
       we_agent_key = norm_key (ev ''AGENT_EIP712_PRIVATE_KEY''),
       we_gas_key = norm_key (ev ''GAS_WALLET_PRIVATE_KEY''),
       we_registry = clear_empty (ev ''COMMIT_REGISTRY_ADDRESS''),
       we_commit_sec = number_nullish ev ''COMMIT_INTERVAL_SEC'' 300,
       we_commit_leaves = number_nullish ev ''COMMIT_MAX_LEAVES'' 200,
       we_rpm = number_nullish ev ''RPC_BUDGET_RPM'' 500,
       we_logs_range = number_nullish ev ''RPC_MAX_GETLOGS_RANGE'' 0,
       we_reserve = number_or ev ''RESERVE_USD'' (Some 3),
       we_low_water = js_or (number_or ev ''METABOLISM_LOW_WATER_USD'' (Some 0))
         (js2 (*) (number_or ev ''RESERVE_USD'' (Some 3)) (Some 2)),
       we_rotate_days = number_or ev ''METABOLISM_HYGIENE_ROTATE_DAYS'' (Some 7),
       we_status_poll = number_or ev ''METABOLISM_STATUS_POLL_SEC'' (Some 60),
       we_ids_tolerance = number_or ev ''METABOLISM_IDS_TOLERANCE_USD'' (Some (1 / 100)),
       we_anomaly_pct = number_or ev ''METABOLISM_ANOMALY_PCT'' (Some 50),
       we_anomaly_epochs = number_or ev ''METABOLISM_ANOMALY_EPOCHS'' (Some 3),
       we_phantom_tolerance = number_or ev ''METABOLISM_PHANTOM_TOLERANCE_USD'' (Some (5 / 1000)),
       we_ids_grace = number_or ev ''METABOLISM_IDS_GRACE_USD''
         (js2 (+) (number_or ev ''DEEPDIVE_CAP_PER_RUN_USD'' (Some (1 / 5))) (Some (5 / 100))),
       we_gateway = text_or ev ''ORBIO_GATEWAY_V1_URL'' ''https://api.orbio.so/api/v1'',
       we_model = text_or ev ''OPENROUTER_MODEL_DEEPDIVE'' [],
       we_referer = text_or ev ''OPENROUTER_HTTP_REFERER'' [],
       we_title = text_or ev ''OPENROUTER_X_TITLE'' ''Launch Auditor'',
       we_cap_run = number_or ev ''DEEPDIVE_CAP_PER_RUN_USD'' (Some (1 / 5)),
       we_cap_day = number_or ev ''DEEPDIVE_DAILY_CAP_USD'' (Some 5),
       we_max_steps = number_or ev ''DEEPDIVE_MAX_STEPS'' (Some 12),
       we_bot_token = clear_empty (ev ''TELEGRAM_BOT_TOKEN''),
       we_chat = clear_empty (ev ''TELEGRAM_CHANNEL_ID''),
       we_poster_ms = number_or ev ''TELEGRAM_POSTER_INTERVAL_MS'' (Some 30000),
       we_api_base = clear_empty (ev ''PUBLIC_API_BASE_URL''),
       we_alerts_chat = (case clear_empty (ev ''TELEGRAM_ALERTS_CHANNEL_ID'') of
          Some c \<Rightarrow> Some c | None \<Rightarrow> clear_empty (ev ''TELEGRAM_CHANNEL_ID'')),
       we_alerts_ms = number_or ev ''ALERTS_INTERVAL_MS'' (Some 60000),
       we_commit_lag = number_or ev ''ALERTS_COMMIT_LAG_SEC'' (Some 600),
       we_watcher_stalled = number_or ev ''ALERTS_WATCHER_STALLED_SEC'' (Some 300),
       we_health_port = number_or ev ''WORKER_PORT'' (Some 3010)\<rparr>)"

definition load_env :: "environment \<Rightarrow> string + worker_env" where
  "load_env ev =
     (case (bigint_nullish ev ''WATCHER_HEAD_LAG_BLOCKS'' 60, bigint_nullish ev ''WATCHER_MAX_SPAN_BLOCKS'' 4000) of
        (Some lag, Some max_block_span) \<Rightarrow> Inr (worker_env_of ev lag max_block_span)
      | _ \<Rightarrow> Inl ''SyntaxError'')"


section \<open>The gate on these numbers\<close>

text \<open>\<open>dailyDeepdiveBudget\<close>: the budget and what binds it.\<close>

definition js_round2 :: "js \<Rightarrow> js" where "js_round2 = map_option round2"

definition js_tightest :: "(binding_constraint \<times> js) list \<Rightarrow> binding_constraint \<times> js" where
  "js_tightest cs = fold (\<lambda>c b. if js_less (snd c) (snd b) then c else b) cs (hd cs)"

definition js_daily_budget :: "js \<Rightarrow> js \<Rightarrow> js \<Rightarrow> js \<Rightarrow> js \<times> binding_constraint" where
  "js_daily_budget daily_cap trailing key_remaining reserve =
     (let b = js_tightest
            [(DailyCap, js2 max (Some 0) daily_cap), (CreditShare, js2 max (Some 0) (js2 (*) (Some (1 / 2)) trailing)),
             (KeyReserve, js2 max (Some 0) (js2 (-) key_remaining reserve))];
          budget = js2 max (Some 0) (snd b)
      in (js_round2 budget, if budget = Some 0 then ZeroBudget else fst b))"

record js_gate_inputs =
  jg_cap_per_run :: js
  jg_daily_cap :: js
  jg_today_spend :: js
  jg_provider_today :: "js option"
  jg_spendable :: js
  jg_billing :: "billing_status option"

record js_gate =
  jv_allowed :: bool
  jv_reason :: gate_reason
  jv_remaining_today :: js
  jv_max_run_cost :: js
  jv_balance_stale :: bool

definition js_run_gate :: "js_gate_inputs \<Rightarrow> js_gate" where
  "js_run_gate i =
     (let spent = js2 max (jg_today_spend i) (nullish (jg_provider_today i) (Some 0));
          remaining = js_round2 (js2 max (Some 0) (js2 (-) (jg_daily_cap i) spent));
          cost = js_round2 (js2 max (Some 0) (js2 min (jg_cap_per_run i) (js2 min remaining (jg_spendable i))));
          verdict = (\<lambda>ok reason c. \<lparr>jv_allowed = ok, jv_reason = reason, jv_remaining_today = remaining, jv_max_run_cost = c,
            jv_balance_stale = (jg_billing i = Some Stale)\<rparr>)
      in if jg_billing i = Some PhantomSpend \<or> jg_billing i = Some Anomaly then verdict False BillingPaused (Some 0)
         else if js_le (jg_spendable i) (Some 0) then verdict False AtReserve cost
         else if js_le remaining (Some 0) then verdict False DailyCapReached cost
         else if js_le cost (Some 0) then verdict False NothingAffordable cost
         else verdict True GateOk cost)"

text \<open>\<open>dynamicDailyCapUsd\<close>, \<open>defaultLoadBudget\<close> and the gate of a run, on the loaded environment.\<close>

definition js_dynamic_cap :: "worker_env \<Rightarrow> (string + real) option \<Rightarrow> js \<Rightarrow> js" where
  "js_dynamic_cap we credit spendable =
     (case credit of
        Some (Inr trailing) \<Rightarrow>
          fst (js_daily_budget (we_cap_day we) (Some trailing) (js2 (+) spendable (we_reserve we)) (we_reserve we))
      | _ \<Rightarrow> we_cap_day we)"

definition js_spendable :: "worker_env \<Rightarrow> life_snapshot list \<Rightarrow> js" where
  "js_spendable we snapshots =
     (case latest_snapshot snapshots of None \<Rightarrow> we_cap_day we | Some s \<Rightarrow> js2 (-) (sn_balance s) (we_reserve we))"

definition js_billing :: "worker_env \<Rightarrow> millis \<Rightarrow> life_snapshot list \<Rightarrow> billing_status option" where
  "js_billing we now snapshots =
     (let snap = latest_snapshot snapshots in
      if js_less (js2 (*) (js2 (*) (we_status_poll we) (Some 1000)) (Some 3)) (Some (of_int (now - (case snap of None \<Rightarrow> 0 | Some s \<Rightarrow> sn_at s))))
      then Some Stale else case snap of None \<Rightarrow> None | Some s \<Rightarrow> sn_billing s)"

definition js_run_gate_of ::
    "worker_env \<Rightarrow> millis \<Rightarrow> ledger \<Rightarrow> (millis \<times> real) list \<Rightarrow> life_snapshot list \<Rightarrow> (string + real) option \<Rightarrow> js_gate" where
  "js_run_gate_of we now rows epochs snapshots credit =
     (let day = start_of_utc_day now; spendable = js_spendable we snapshots
      in js_run_gate \<lparr>jg_cap_per_run = we_cap_run we, jg_daily_cap = js_dynamic_cap we credit spendable,
           jg_today_spend = Some (total_spend (Some day) None rows),
           jg_provider_today = Some (Some (sum_list (map snd (filter (\<lambda>(t, d). day \<le> t) epochs)))),
           jg_spendable = spendable, jg_billing = js_billing we now snapshots\<rparr>)"

text \<open>The limit handed to the agent, and its own check of it.\<close>

definition js_run_limit :: "worker_env \<Rightarrow> js_gate \<Rightarrow> js" where
  "js_run_limit we g = js2 min (jv_max_run_cost g) (we_cap_run we)"

definition stopped_at_cost :: "js \<Rightarrow> js option \<Rightarrow> bool" where
  "stopped_at_cost limit cost = (case cost of None \<Rightarrow> False | Some c \<Rightarrow> js_le limit c)"


section \<open>Boot\<close>

datatype worker_loop =
    FeaturesWorker | AssessWorker | CommitLoop | OutcomesLoop | ScorerLoop | LifecycleLoop | DeepdiveWorker | DeepdiveLoop
  | PosterLoop | AlertLoop | PollerLoop

definition boot_loops :: "environment \<Rightarrow> worker_env \<Rightarrow> worker_loop list" where
  "boot_loops ev we =
     [FeaturesWorker, AssessWorker] @
     (if we_registry we \<noteq> None \<and> we_gas_key we \<noteq> None then [CommitLoop] else []) @
     [OutcomesLoop, ScorerLoop] @
     (if we_agent_key we \<noteq> None \<and> clear_empty (ev ''TOKEN_ENCRYPTION_KEY'') \<noteq> None then [LifecycleLoop] else []) @
     (if we_model we \<noteq> [] \<and> we_agent_key we \<noteq> None then [DeepdiveWorker, DeepdiveLoop] else []) @
     (if we_bot_token we \<noteq> None \<and> we_chat we \<noteq> None then [PosterLoop] else []) @
     (if we_bot_token we \<noteq> None \<and> we_alerts_chat we \<noteq> None then [AlertLoop] else []) @
     [PollerLoop]"

text \<open>The gateway key of the wallet, asked for before anything else; \<open>derive\<close> signs.\<close>

definition wallet_gateway_key :: "(string \<Rightarrow> js \<Rightarrow> string) \<Rightarrow> environment \<Rightarrow> worker_env \<Rightarrow> string option" where
  "wallet_gateway_key derive ev we =
     (if map_option (\<lambda>s. lower (trim s)) (ev ''ORBIO_KEY_SOURCE'') \<noteq> Some ''wallet'' then None
      else case we_gas_key we of
        None \<Rightarrow> None
      | Some k \<Rightarrow> Some (derive k (number_or ev ''ORBIO_KEY_EPOCH'' (Some 0))))"

text \<open>What the boot hook and the session code read of the environment.\<close>

definition session_env_of :: "environment \<Rightarrow> session_env" where
  "session_env_of ev = \<lparr>ev_seed = ev ''ORBIO_SESSION_SEED'', ev_store = ev ''ORBIO_TOKEN_STORE'', ev_enc_key = ev ''TOKEN_ENCRYPTION_KEY'',
     ev_management = ev ''METABOLISM_KEY_MANAGEMENT'', ev_source = ev ''METABOLISM_SOURCE'', ev_orbio_key = ev ''ORBIO_API_KEY'',
     ev_router_key = ev ''OPENROUTER_API_KEY''\<rparr>"

text \<open>The span of a log scan: pinned by the environment, else probed, else \<open>dflt\<close>.\<close>

definition boot_log_range :: "worker_env \<Rightarrow> (string + int) \<Rightarrow> js \<Rightarrow> (string + int) \<Rightarrow> js" where
  "boot_log_range we head dflt probe =
     (if js_less (Some 0) (we_logs_range we) then we_logs_range we
      else case (head, probe) of (Inr h, Inr n) \<Rightarrow> Some (of_int n) | _ \<Rightarrow> dflt)"


section \<open>Assessments on demand\<close>

datatype assess_answer = NotRun string | Assessed "hex list"

text \<open>\<open>launch_of\<close> finds a launch by its lower-case token on the chain, \<open>by_id\<close> by its id.\<close>

definition run_assess ::
    "crypto \<Rightarrow> model_weights \<Rightarrow> worker_env \<Rightarrow> real \<Rightarrow> (int \<Rightarrow> string + pinned_block) \<Rightarrow> (address \<Rightarrow> launch_info option) \<Rightarrow>
     (string \<Rightarrow> launch_info option) \<Rightarrow> string \<Rightarrow> persist_state \<Rightarrow> (string + assess_answer) \<times> persist_state" where
  "run_assess cr w we block_seconds block_at launch_of by_id token st =
     (case launch_of (lower token) of
        None \<Rightarrow> (Inr (NotRun ''token is not an indexed launch on this chain''), st)
      | Some la \<Rightarrow>
          (case build_launch_reports cr w (we_agent_key we) block_seconds block_at (by_id (li_id la)) ''on_demand'' of
             Inl e \<Rightarrow> (Inl e, st)
           | Inr [] \<Rightarrow> (Inr (NotRun ''report assembly produced nothing''), st)
           | Inr drafts \<Rightarrow> (Inr (Assessed (map dr_hash drafts)), fst (persist_launch_reports by_id drafts st))))"


section \<open>Failure counters\<close>

record site_failure =
  sf_count :: nat
  sf_last :: string

text \<open>\<open>upsert\<close> by the site; \<open>ok\<close> says whether the write works, a failed one is only logged.\<close>

definition record_failure :: "bool \<Rightarrow> bool \<Rightarrow> string \<Rightarrow> string \<Rightarrow> (string \<rightharpoonup> site_failure) \<Rightarrow> (string \<rightharpoonup> site_failure)" where
  "record_failure in_test ok site message t =
     (if in_test \<or> \<not> ok then t
      else t(site \<mapsto> (case t site of
             None \<Rightarrow> \<lparr>sf_count = 1, sf_last = message\<rparr>
           | Some f \<Rightarrow> \<lparr>sf_count = Suc (sf_count f), sf_last = message\<rparr>)))"


section \<open>The API's environment and queues\<close>

record api_env =
  ae_rpc :: string
  ae_chain :: js
  ae_registry :: "string option"
  ae_partner_keys :: "string list"
  ae_benchmark :: string
  ae_revenue :: "string option"
  ae_price :: js
  ae_cap_day :: js
  ae_cap_run :: js
  ae_reserve :: js
  ae_account :: "string option"
  ae_credit :: "string option"
  ae_from_block :: "js option"

definition load_api_env :: "string \<Rightarrow> environment \<Rightarrow> api_env" where
  "load_api_env base ev =
     \<lparr>ae_rpc = nullish (ev ''RH_RPC_URL'') [],
      ae_chain = number_or ev ''CHAIN_ID'' (Some 4663),
      ae_registry = clear_empty (ev ''COMMIT_REGISTRY_ADDRESS''),
      ae_partner_keys = filter (\<lambda>k. k \<noteq> []) (map trim (split_at_char (CHR '','') (nullish (ev ''DESIGN_PARTNER_API_KEYS'') []))),
      ae_benchmark = text_or ev ''BENCHMARK_FILE'' (base @ ''/data/benchmark.json''),
      ae_revenue = clear_empty (ev ''REVENUE_ADDRESS''),
      ae_price = number_or ev ''PRICE_DEEPDIVE_USDG'' (Some (1 / 10)),
      ae_cap_day = number_or ev ''DEEPDIVE_DAILY_CAP_USD'' (Some 5),
      ae_cap_run = number_or ev ''DEEPDIVE_CAP_PER_RUN_USD'' (Some (1 / 5)),
      ae_reserve = number_or ev ''RESERVE_USD'' (Some 3),
      ae_account = clear_empty (ev ''ORBIO_AGENT_ACCOUNT''),
      ae_credit = clear_empty (ev ''ORBIO_CREDIT_ADDRESS''),
      ae_from_block = map_option js_number (clear_empty (ev ''ORBIO_FUNDING_FROM_BLOCK''))\<rparr>"

text \<open>The ids of the queues' jobs; \<open>stamp\<close> is the text of the time.\<close>

definition deepdive_job_id :: "address \<Rightarrow> string" where
  "deepdive_job_id token = lower token @ '':on_demand''"

definition assess_job_id :: "string \<Rightarrow> address \<Rightarrow> string" where
  "assess_job_id stamp token = ''assess:'' @ lower token @ '':'' @ stamp"

definition features_job_id :: "string \<Rightarrow> string" where
  "features_job_id launch = ''t10-'' @ launch"

text \<open>\<open>queue.add\<close> answers a job's id with the id or throws.\<close>

definition deepdive_enqueuer :: "(string \<Rightarrow> string + string option) \<Rightarrow> address \<Rightarrow> string + string option" where
  "deepdive_enqueuer add token = add (deepdive_job_id token)"

definition assess_enqueuer :: "(string \<Rightarrow> string + string option) \<Rightarrow> string \<Rightarrow> address \<Rightarrow> string + string option" where
  "assess_enqueuer add stamp token = add (assess_job_id stamp token)"

end
