(* ===== verification/ConfigFacts.thy ===== *)
theory ConfigFacts
  imports Config
begin

text \<open>
  What the configuration does to the program: with proper numbers the gate is the one of the budget
  theory, with a text that is no number it opens for any cost; a malformed agent key silences the
  worker; no request for a deep dive reaches its queue; what the API and the worker read alike.
\<close>


section \<open>Numbers\<close>

lemma js2_simps [simp]: "js2 f (Some x) (Some y) = Some (f x y)" "js2 f None b = None" "js2 f a None = None"
  by (auto simp: js2_def split: option.split)

lemma js_compare_simps [simp]:
  "js_less (Some x) (Some y) = (x < y)" "js_less None b = False" "js_less a None = False"
  "js_le (Some x) (Some y) = (x \<le> y)" "js_le None b = False" "js_le a None = False"
  by (auto simp: js_less_def js_le_def split: option.split)

text \<open>Characters of the texts \<open>Number\<close> takes, the infinities and the prefixed forms included.\<close>

definition number_char :: "char \<Rightarrow> bool" where
  "number_char c \<longleftrightarrow> is_digit c \<or> c \<in> set ''.+-eExXoObBaAcCdDfFInity''"

definition no_number :: "string \<Rightarrow> bool" where
  "no_number s \<longleftrightarrow> \<not> list_all number_char (trim s)"

lemma decimal_value_chars:
  assumes "decimal_value s \<noteq> None"
  shows "list_all number_char s"
proof -
  have digits: "list_all is_digit u \<Longrightarrow> list_all number_char u" for u
    by (induction u) (simp_all add: number_char_def)
  have "list_all is_digit (takeWhile is_digit s)" by (auto simp: list_all_iff dest: set_takeWhileD)
  moreover have "list_all number_char (dropWhile is_digit s)"
  proof (cases "dropWhile is_digit s")
    case Nil
    show ?thesis unfolding Nil by simp
  next
    case (Cons c cs)
    then have "c = CHR ''.'' \<and> list_all is_digit cs" using assms by (auto simp: decimal_value_def Let_def split: if_splits)
    moreover have "number_char (CHR ''.'')" by (simp add: number_char_def)
    ultimately show ?thesis using Cons digits by simp
  qed
  ultimately have "list_all number_char (takeWhile is_digit s @ dropWhile is_digit s)" using digits by (simp only: list_all_append)
  then show ?thesis by simp
qed

lemma no_number_NaN: "no_number s \<Longrightarrow> js_number s = None"
proof (rule ccontr)
  assume a: "no_number s" "js_number s \<noteq> None"
  have "list_all number_char (trim s)"
  proof (cases "trim s")
    case (Cons c cs)
    then have "decimal_value cs \<noteq> None \<and> number_char c \<or> decimal_value (trim s) \<noteq> None"
      using a(2) by (simp add: js_number_def Let_def number_char_def split: if_splits)
    then show ?thesis using decimal_value_chars [of "trim s"] decimal_value_chars [of cs] Cons by (metis list.pred_inject(2))
  qed simp
  then show False using a(1) by (simp add: no_number_def)
qed

lemma load_env_parts:
  "load_env ev = Inr we \<Longrightarrow> \<exists>lag max_block_span. we = worker_env_of ev lag max_block_span"
  by (auto simp: load_env_def split: option.splits)

lemma load_env_plain:
  "ev ''WATCHER_HEAD_LAG_BLOCKS'' = None \<Longrightarrow> ev ''WATCHER_MAX_SPAN_BLOCKS'' = None \<Longrightarrow> load_env ev = Inr (worker_env_of ev 60 4000)"
  by (simp add: load_env_def bigint_nullish_def)


section \<open>The gate\<close>

text \<open>An environment whose four amounts are the numbers of a deep-dive environment.\<close>

definition numeric_env :: "worker_env \<Rightarrow> deep_env \<Rightarrow> bool" where
  "numeric_env we env \<longleftrightarrow> we_cap_run we = Some (dv_cap_run env) \<and> we_cap_day we = Some (dv_cap_day env) \<and>
     we_reserve we = Some (dv_reserve env) \<and> we_status_poll we = Some (dv_poll_sec env)"

definition js_gate_of :: "run_gate \<Rightarrow> js_gate" where
  "js_gate_of g = \<lparr>jv_allowed = rg_allowed g, jv_reason = rg_reason g, jv_remaining_today = Some (rg_remaining_today g),
     jv_max_run_cost = Some (rg_max_run_cost g), jv_balance_stale = rg_balance_stale g\<rparr>"

lemma js_tightest_numbers: "js_tightest (map (apsnd Some) (c # cs)) = apsnd Some (tightest (c # cs))"
proof -
  have "fold (\<lambda>c b. if js_less (snd c) (snd b) then c else b) (map (apsnd Some) cs) (apsnd Some b) =
      apsnd Some (fold (\<lambda>c b. if snd c < snd b then c else b) cs b)" for b :: "binding_constraint \<times> real" and cs
  proof (induction cs arbitrary: b)
    case (Cons c cs)
    have "(if js_less (snd (apsnd Some c)) (snd (apsnd Some b)) then apsnd Some c else apsnd Some b) = apsnd Some (if snd c < snd b then c else b)"
      by simp
    then show ?case using Cons by (simp only: list.map fold.simps comp_def)
  qed simp
  from this [of "c # cs" c] show ?thesis by (simp add: js_tightest_def tightest_def)
qed

lemma js_daily_budget_numbers:
  "js_daily_budget (Some a) (Some t) (Some k) (Some r) =
     (let b = daily_deepdive_budget \<lparr>bi_daily_cap = a, bi_trailing_credits = t, bi_key_remaining = k, bi_reserve = r\<rparr>
      in (Some (bb_budget b), bb_binding b))"
proof -
  let ?i = "\<lparr>bi_daily_cap = a, bi_trailing_credits = t, bi_key_remaining = k, bi_reserve = r\<rparr>"
  have "[(DailyCap, js2 max (Some 0) (Some a)), (CreditShare, js2 max (Some 0) (js2 (*) (Some (1 / 2)) (Some t))),
      (KeyReserve, js2 max (Some 0) (js2 (-) (Some k) (Some r)))] = map (apsnd Some) (budget_candidates ?i)"
    by (simp add: budget_candidates_def)
  moreover have "js_tightest (map (apsnd Some) (budget_candidates ?i)) = apsnd Some (tightest (budget_candidates ?i))"
    unfolding budget_candidates_def by (rule js_tightest_numbers)
  ultimately show ?thesis
    unfolding js_daily_budget_def daily_deepdive_budget_def Let_def by (simp add: js_round2_def)
qed

lemma js_run_gate_numbers:
  assumes "jg_cap_per_run j = Some (gi_cap_per_run i)" "jg_daily_cap j = Some (gi_daily_cap i)" "jg_today_spend j = Some (gi_today_spend i)"
    and "jg_provider_today j = map_option Some (gi_provider_today i)" "jg_spendable j = Some (gi_spendable i)" "jg_billing j = gi_billing i"
  shows "js_run_gate j = js_gate_of (deepdive_run_gate i)"
proof -
  have "js2 max (jg_today_spend j) (nullish (jg_provider_today j) (Some 0)) = Some (spent_today i)"
    using assms(3,4) by (cases "gi_provider_today i") (simp_all add: spent_today_def)
  then have remaining: "js_round2 (js2 max (Some 0) (js2 (-) (jg_daily_cap j) (js2 max (jg_today_spend j) (nullish (jg_provider_today j) (Some 0))))) =
      Some (remaining_today i)"
    using assms(2) by (simp only: js2_simps js_round2_def remaining_today_def option.map)
  have cost: "js_round2 (js2 max (Some 0) (js2 min (jg_cap_per_run j) (js2 min (Some (remaining_today i)) (jg_spendable j)))) = Some (max_run_cost i)"
    using assms(1,5) by (simp only: js2_simps js_round2_def max_run_cost_def option.map)
  show ?thesis
    unfolding js_run_gate_def Let_def remaining cost
    unfolding deepdive_run_gate_def assms(5,6) js_compare_simps js_gate_of_def gate_verdict_def
    by (simp cong: if_cong)
qed

lemma latest_balance: "latest_snapshot snapshots = Some s \<Longrightarrow> \<exists>b. sn_balance s = Some b"
proof -
  assume "latest_snapshot snapshots = Some s"
  then have "s \<in> set (sort_key (\<lambda>s. - sn_at s) (filter (\<lambda>s. sn_balance s \<noteq> None) snapshots))"
    by (simp only: latest_snapshot_def split: list.splits) auto
  then show ?thesis by auto
qed


text \<open>A cap that is no number passes through the dynamic cap as it is.\<close>

lemma NaN_cap: "we_cap_day we = None \<Longrightarrow> js_dynamic_cap we credit spendable = None"
  by (auto simp: js_dynamic_cap_def js_daily_budget_def js_tightest_def Let_def js_round2_def split: option.split sum.split)



section \<open>A malformed agent key\<close>

lemma unsigned_draft_fails: "\<not> dr_passed (draft_of cr None la trig pin coverage fc) \<and> dr_signature (draft_of cr None la trig pin coverage fc) = None"
  by (simp add: draft_of_def Let_def validate_report_def)

lemma unsigned_reports_fail:
  "build_launch_reports cr w None secs block_at la trig = Inr ds \<Longrightarrow> d \<in> set ds \<Longrightarrow> \<not> dr_passed d \<and> dr_signature d = None"
  by (auto simp: build_launch_reports_def unsigned_draft_fails split: option.splits prod.splits sum.splits)

lemma assess_persists:
  assumes "run_assess cr w we secs block_at launch_of by_id token st = (Inr (Assessed hs), st')"
  shows "\<exists>ds. hs = map dr_hash ds \<and> ps_reports st' = fold upsert_report ds (ps_reports st)"
proof -
  have persist: "ps_reports (fst (persist_launch_reports by_id ds st)) = fold upsert_report ds (ps_reports st)" for ds
    by (simp add: persist_launch_reports_def Let_def)
  have "\<exists>ds. Assessed hs = Assessed (map dr_hash ds) \<and> st' = fst (persist_launch_reports by_id ds st)"
    using assms unfolding run_assess_def
    by (auto split: option.splits sum.splits list.splits simp del: list.map simp: persist_launch_reports_def)
  then show ?thesis using persist by auto
qed

text \<open>
  An agent key that is no 32-byte hex text is dropped without a word: the worker boots without its
  lifecycle and deep-dive loops and every report it builds is unsigned and fails its validation -- the
  answer of an assessment still says it ran and names the hashes.
\<close>

theorem malformed_agent_key_silences:
  assumes "load_env ev = Inr we" and "ev ''AGENT_EIP712_PRIVATE_KEY'' = Some k" "\<not> bytes32 k" "\<not> bytes32 (''0x'' @ k)"
  shows "set (boot_loops ev we) \<inter> {LifecycleLoop, DeepdiveWorker, DeepdiveLoop} = {} \<and>
    (\<forall>ds. build_launch_reports cr w (we_agent_key we) secs block_at la trig = Inr ds \<longrightarrow> (\<forall>d\<in>set ds. \<not> dr_passed d \<and> dr_signature d = None)) \<and>
    (\<forall>hs st'. run_assess cr w we secs block_at launch_of by_id token st = (Inr (Assessed hs), st') \<longrightarrow> set hs \<subseteq> rr_hash ` set (ps_reports st'))"
proof -
  have key: "we_agent_key we = None"
    using load_env_parts [OF assms(1)] assms(2-4) by (auto simp: worker_env_of_def Let_def norm_key_def clear_empty_def)
  have "set hs \<subseteq> rr_hash ` set (ps_reports st')" if r: "run_assess cr w we secs block_at launch_of by_id token st = (Inr (Assessed hs), st')" for hs st'
  proof -
    obtain ds where "hs = map dr_hash ds" "ps_reports st' = fold upsert_report ds (ps_reports st)"
      using assess_persists [OF r] by blast
    then show ?thesis by (simp add: fold_upsert_hashes)
  qed
  then show ?thesis using key unsigned_reports_fail by (auto simp: boot_loops_def)
qed


section \<open>The API beside the worker\<close>

text \<open>The panel's amounts are read from the same texts as the gate's, bad ones alike.\<close>

lemma same_budget_texts:
  "load_env ev = Inr we \<Longrightarrow> ae_cap_day (load_api_env base ev) = we_cap_day we \<and> ae_cap_run (load_api_env base ev) = we_cap_run we \<and>
     ae_reserve (load_api_env base ev) = we_reserve we \<and> ae_registry (load_api_env base ev) = we_registry we"
  using load_env_parts by (fastforce simp: load_api_env_def worker_env_of_def Let_def)

text \<open>Not so the chain: an empty text is chain zero to the worker and the default to the API.\<close>

lemma empty_chain_id_differs:
  "load_env ev = Inr we \<Longrightarrow> ev ''CHAIN_ID'' = Some [] \<Longrightarrow> we_chain we = Some 0 \<and> ae_chain (load_api_env base ev) = Some 4663"
  using load_env_parts
  by (fastforce simp: load_api_env_def worker_env_of_def Let_def number_or_def number_nullish_def clear_empty_def js_number_def trim_def)

lemma partner_keys_nonempty: "k \<in> set (ae_partner_keys (load_api_env base ev)) \<Longrightarrow> k \<noteq> []"
  by (simp add: load_api_env_def)


section \<open>The queues\<close>

text \<open>
  The queue library refuses a custom id with a colon in it, save for ids of three parts, which it keeps
  for old repeatable jobs.
\<close>

definition refuses_colons :: "(string \<Rightarrow> string + string option) \<Rightarrow> bool" where
  "refuses_colons add \<longleftrightarrow> (\<forall>i. CHR '':'' \<in> set i \<and> length (split_at_char (CHR '':'') i) \<noteq> 3 \<longrightarrow> isl (add i))"

lemma split_at_char_length: "length (split_at_char d s) = Suc (length (filter (\<lambda>c. c = d) s))"
  by (induction s) (auto split: list.split)

lemma lower_hex_no_colon:
  assumes "hex_of_length n token"
  shows "filter (\<lambda>c. c = CHR '':'') (lower token) = []"
proof -
  have "lower token = lower (take 2 token) @ lower (drop 2 token)" unfolding lower_def by (simp flip: map_append)
  moreover have "lower (take 2 token) = ''0x''" "list_all is_hex_digit (lower (drop 2 token))"
    using assms by (simp_all add: hex_of_length_def) (simp add: lower_def lower_char_def)
  moreover have "\<not> is_hex_digit (CHR '':'')" by (simp add: is_hex_digit_def)
  ultimately show ?thesis by (auto simp: filter_empty_conv list_all_iff)
qed

text \<open>
  C10: Nobody can buy a deep dive: the id of its job has one colon, which the queue library refuses, so
  that every request, over HTTP and over MCP and whoever asks, is answered with an error and leaves the
  queue as it was.  The ids of an assessment and of a features job are not affected.
\<close>

theorem deepdive_requests_all_refused:
  assumes "refuses_colons add"
  shows "snd (deepdive_route (deepdive_enqueuer add) known key token q) = q \<and>
    (\<exists>status reason. fst (deepdive_route (deepdive_enqueuer add) known key token q) = Problem status reason \<and> status \<in> {400, 401, 503}) \<and>
    snd (mcp_tool reps stored (deepdive_enqueuer add) known key (McpDeepdive token) q) = q"
proof (cases "hex_of_length 40 token")
  case True
  have "length (split_at_char (CHR '':'') (deepdive_job_id (lower token))) = 2"
    by (simp add: split_at_char_length deepdive_job_id_def lower_hex_no_colon [OF True])
  moreover have "CHR '':'' \<in> set (deepdive_job_id (lower token))" by (simp add: deepdive_job_id_def)
  ultimately have "isl (deepdive_enqueuer add (lower token))"
    using assms by (simp add: refuses_colons_def deepdive_enqueuer_def)
  then obtain e where "deepdive_enqueuer add (lower token) = Inl e" by (auto simp: isl_def)
  then show ?thesis by (simp add: deepdive_route_def mcp_tool_def)
qed (simp add: deepdive_route_def mcp_tool_def)

lemma assess_id_parts:
  assumes "hex_of_length 40 token" and "CHR '':'' \<notin> set stamp"
  shows "length (split_at_char (CHR '':'') (assess_job_id stamp token)) = 3"
  using assms lower_hex_no_colon [OF assms(1)] by (auto simp: split_at_char_length assess_job_id_def filter_empty_conv)


section \<open>Failure counters\<close>

text \<open>A counter counts the writes that worked, and keeps the message of the last one.\<close>

lemma failures_counted:
  "fold (\<lambda>(ok, message) t. record_failure False ok site message t) events t0 site =
     (case rev (filter fst events) of
        [] \<Rightarrow> t0 site
      | (ok, message) # rest \<Rightarrow>
          Some \<lparr>sf_count = length (filter fst events) + (case t0 site of None \<Rightarrow> 0 | Some f \<Rightarrow> sf_count f), sf_last = message\<rparr>)"
proof (induction events rule: rev_induct)
  case (snoc x events)
  then show ?case
    by (cases x) (auto simp: record_failure_def split: list.splits option.splits)
qed simp


section \<open>Concrete environments\<close>

definition budget_demo_env :: deep_env where
  "budget_demo_env = \<lparr>dv_model = ''vendor/model-1'', dv_cap_run = 1 / 5, dv_cap_day = 5, dv_reserve = 3, dv_poll_sec = 60, dv_max_steps = 12,
     dv_agent_key = None, dv_key_prefix = None, dv_crypto = demo_crypto\<rparr>"

text \<open>An environment with nothing set has the documented amounts.\<close>

lemma default_env_numeric: "numeric_env (worker_env_of (\<lambda>k. None) 60 4000) budget_demo_env"
  by (simp add: numeric_env_def worker_env_of_def Let_def number_or_def clear_empty_def budget_demo_env_def)


definition typo_env :: environment where
  "typo_env = [''DEEPDIVE_DAILY_CAP_USD'' \<mapsto> ''$5'', ''AGENT_EIP712_PRIVATE_KEY'' \<mapsto> ''0x12'']"

lemma typo_env_loads: "load_env typo_env = Inr (worker_env_of typo_env 60 4000)"
  by (rule load_env_plain) (simp_all add: typo_env_def)

definition rich_snapshot :: life_snapshot where
  "rich_snapshot = \<lparr>sn_balance = Some 10, sn_billing = Some Exact, sn_at = 0\<rparr>"

lemma rich_spendable: "js_spendable (worker_env_of typo_env 60 4000) [rich_snapshot] = Some 7"
  by (simp add: js_spendable_def latest_snapshot_def rich_snapshot_def worker_env_of_def Let_def number_or_def clear_empty_def typo_env_def)

lemma rich_billing: "js_billing (worker_env_of typo_env 60 4000) 0 [rich_snapshot] = Some Exact"
  by (simp add: js_billing_def latest_snapshot_def rich_snapshot_def worker_env_of_def Let_def number_or_def clear_empty_def typo_env_def)

lemma dollar_no_number: "no_number ''$5''"
  by (simp add: no_number_def trim_def is_space_def number_char_def is_digit_def)


theorem malformed_agent_key_silences_witness:
  "set (boot_loops typo_env (worker_env_of typo_env 60 4000)) \<inter> {LifecycleLoop, DeepdiveWorker, DeepdiveLoop} = {}"
  by (rule malformed_agent_key_silences [OF typo_env_loads, of "''0x12''", THEN conjunct1]) (simp_all add: typo_env_def bytes32_def)

definition strict_queue :: "string \<Rightarrow> string + string option" where
  "strict_queue i =
     (if CHR '':'' \<in> set i \<and> length (split_at_char (CHR '':'') i) \<noteq> 3 then Inl ''Custom Id cannot contain :'' else Inr (Some i))"

theorem deepdive_requests_all_refused_witness:
  "snd (deepdive_route (deepdive_enqueuer strict_queue) [''partner''] (Some ''partner'') (''0x'' @ replicate 40 (CHR ''a''))
     \<lparr>jq_deepdive = [], jq_assess = []\<rparr>) = \<lparr>jq_deepdive = [], jq_assess = []\<rparr>"
  by (rule deepdive_requests_all_refused [THEN conjunct1]) (simp add: refuses_colons_def strict_queue_def)

end
