(* ===== verification/Scripts.thy ===== *)
theory Scripts
  imports Artifacts Reports
begin

text \<open>
  The repair scripts of the worker that write to its tables (\<open>apps/worker/src/scripts\<close>): the
  reconciliation of the commit table with the chain (\<open>commit-reconcile.ts\<close>), the re-run of a gap of
  reports (\<open>backfill-det-v0-1-gap.ts\<close>) and the reset of outcomes (\<open>reset-stale-outcomes.ts\<close>), and what they
  do to the jobs that run after them.  What they print is left out.
\<close>


section \<open>Reconciling artifacts\<close>

text \<open>An \<open>ArtifactCommitted\<close> log of one kind: hash, block, transaction; a scan of a range of blocks may throw.\<close>

type_synonym artifact_log = "hex \<times> int \<times> hex"
type_synonym artifact_scan = "int \<Rightarrow> int \<Rightarrow> string + artifact_log list"

definition reconcile_floor :: "int \<Rightarrow> int" where
  "reconcile_floor head = (if head > 800000 then head - 800000 else 0)"

text \<open>The walk back from the head in windows of ten thousand blocks.\<close>

function walk_back :: "artifact_scan \<Rightarrow> int \<Rightarrow> int \<Rightarrow> string + artifact_log option" where
  "walk_back scan lo to_block =
     (if to_block \<le> lo then Inr None
      else let from_block = (if to_block > lo + 9999 then to_block - 9999 else lo) in
        case scan from_block to_block of
          Inl e \<Rightarrow> Inl e
        | Inr [] \<Rightarrow> walk_back scan lo (to_block - 10000)
        | Inr (l # ls) \<Rightarrow> Inr (Some (last (l # ls))))"
  by pat_completeness auto
termination by (relation "measure (\<lambda>(scan, lo, to_block). nat (to_block - lo))") auto

declare walk_back.simps [simp del]

definition artifact_kinds :: "artifact list" where
  "artifact_kinds = [Weights, WeightsV01, FeatureCode, OutcomeRule, ForecasterMappings, ScorerCode]"

datatype reconcile_status = RowOk | RowMissing | StaleOnChain | OddRow

definition status_of_artifact :: "hex \<Rightarrow> hex option \<Rightarrow> hex option \<Rightarrow> reconcile_status" where
  "status_of_artifact file chain db =
     (if chain = Some file \<and> db = Some file then RowOk
      else if chain = Some file \<and> db \<noteq> Some file then RowMissing
      else if chain \<noteq> Some file then StaleOnChain else OddRow)"

fun reconcile_rows ::
    "(artifact \<Rightarrow> artifact_scan) \<Rightarrow> int \<Rightarrow> (artifact \<Rightarrow> hex) \<Rightarrow> (artifact \<rightharpoonup> hex) \<Rightarrow> artifact list \<Rightarrow> string + artifact_row list" where
  "reconcile_rows scan head files db [] = Inr []"
| "reconcile_rows scan head files db (l # ls) =
     (case walk_back (scan l) (reconcile_floor head) head of
        Inl e \<Rightarrow> Inl e
      | Inr found \<Rightarrow>
          (case reconcile_rows scan head files db ls of
             Inl e \<Rightarrow> Inl e
           | Inr rows \<Rightarrow>
               (case found of
                  None \<Rightarrow> Inr rows
                | Some (h, b, tx) \<Rightarrow>
                    Inr (if status_of_artifact (lower (files l)) (Some (lower h)) (db l) = RowMissing
                         then recommit_row l (lower (files l)) tx # rows else rows))))"

text \<open>\<open>apply\<close> is \<open>--commit\<close>; the answer counts the rows to insert.\<close>

definition run_reconcile ::
    "bool \<Rightarrow> string option \<Rightarrow> (artifact \<Rightarrow> artifact_scan) \<Rightarrow> (string + int) \<Rightarrow> (artifact \<Rightarrow> hex) \<Rightarrow> artifact_row list \<Rightarrow>
     (string + nat) \<times> artifact_row list" where
  "run_reconcile really registry scan head files rows =
     (if clear_empty registry = None then (Inl ''COMMIT_REGISTRY_ADDRESS not set'', rows)
      else case head of
        Inl e \<Rightarrow> (Inl e, rows)
      | Inr h \<Rightarrow>
          (case reconcile_rows scan h files (last_committed rows) artifact_kinds of
             Inl e \<Rightarrow> (Inl e, rows)
           | Inr new \<Rightarrow> (Inr (length new), if really then rows @ new else rows)))"


section \<open>Re-running a gap\<close>

text \<open>\<open>build\<close> is \<open>buildLaunchReports\<close> with the trigger of a launch; counted are the launches done and failed.\<close>

fun repair_gap ::
    "(string \<Rightarrow> string + draft list) \<Rightarrow> (string \<Rightarrow> launch_info option) \<Rightarrow> string list \<Rightarrow> nat \<times> nat \<Rightarrow> persist_state \<Rightarrow>
     (nat \<times> nat) \<times> persist_state" where
  "repair_gap build by_id [] n st = (n, st)"
| "repair_gap build by_id (i # is) n st =
     (case build i of
        Inl e \<Rightarrow> repair_gap build by_id is (fst n, Suc (snd n)) st
      | Inr [] \<Rightarrow> repair_gap build by_id is (fst n, Suc (snd n)) st
      | Inr (d # ds) \<Rightarrow> repair_gap build by_id is (Suc (fst n), snd n) (fst (persist_launch_reports by_id (d # ds) st)))"


section \<open>Resetting outcomes\<close>

text \<open>\<open>evidence.reason\<close>; of a row that gave up it is the message behind a fixed start without any of the words.\<close>

definition evidence_reason :: "row_evidence \<Rightarrow> string" where
  "evidence_reason e = (case e of GaveUpEvidence msg t n \<Rightarrow> msg | MeasuredEvidence (Some r) m \<Rightarrow> r | _ \<Rightarrow> [])"

definition wrong_pool_words :: "string list" where
  "wrong_pool_words = [''no positive price'', ''no swap'', ''no modifyliquidity'', ''empty window'', ''series'']"

definition stale_sell :: "outcome_row \<Rightarrow> bool" where
  "stale_sell r \<longleftrightarrow> or_retrospective r \<and> or_label r = SellImpaired \<and> (or_status r = OResolved \<or> or_status r = OUnresolvable)"

definition stale_pool :: "bool \<Rightarrow> outcome_row \<Rightarrow> bool" where
  "stale_pool checked r \<longleftrightarrow> or_retrospective r \<and> or_status r = OUnresolvable \<and>
     or_label r \<in> {Drawdown80, LiqImpaired, TradingAlive} \<and> checked \<and>
     list_ex (\<lambda>w. contains w (lower (evidence_reason (or_evidence r)))) wrong_pool_words"

definition reset_row :: "outcome_row \<Rightarrow> outcome_row" where
  "reset_row r = r\<lparr>or_status := OPending, or_value := None, or_measured := None\<rparr>"

text \<open>\<open>checked\<close> tells whether the launch of a row had its primary pool derived again.\<close>

definition reset_stale_outcomes :: "bool \<Rightarrow> (string \<Rightarrow> bool) \<Rightarrow> outcome_table \<Rightarrow> nat \<times> outcome_table" where
  "reset_stale_outcomes really checked table =
     (let stale = (\<lambda>p. stale_sell (snd p) \<or> stale_pool (checked (fst p)) (snd p))
      in (length (filter stale table), if really then map (\<lambda>p. if stale p then (fst p, reset_row (snd p)) else p) table else table))"


section \<open>Walking back\<close>

lemma last_filter_window:
  assumes "sorted (map key xs)" and "filter (\<lambda>x. a \<le> key x \<and> key x \<le> t) xs \<noteq> []"
  shows "last (filter (\<lambda>x. a \<le> key x \<and> key x \<le> (t :: int)) xs) = last (filter (\<lambda>x. key x \<le> t) xs)"
  using assms
proof (induction xs rule: rev_induct)
  case (snoc x xs)
  show ?case
  proof (cases "key x \<le> t")
    case True
    obtain y where "y \<in> set (xs @ [x])" "a \<le> key y" using snoc.prems(2) unfolding filter_empty_conv by blast
    moreover have "\<forall>y\<in>set xs. key y \<le> key x" using snoc.prems(1) by (auto simp: sorted_append)
    ultimately have "a \<le> key x" by auto
    then show ?thesis using True by simp
  next
    case False
    then show ?thesis using snoc by (simp add: sorted_append)
  qed
qed simp

text \<open>A node that answers every range with its logs, in the order of the blocks.\<close>

definition honest_scan :: "artifact_log list \<Rightarrow> artifact_scan \<Rightarrow> bool" where
  "honest_scan logs scan \<longleftrightarrow> sorted (map (\<lambda>l. fst (snd l)) logs) \<and>
     (\<forall>f t. scan f t = Inr (filter (\<lambda>l. f \<le> fst (snd l) \<and> fst (snd l) \<le> t) logs))"

lemma walk_back_finds:
  assumes "honest_scan logs scan" and "filter (\<lambda>l. lo + 1 \<le> fst (snd l) \<and> fst (snd l) \<le> t) logs \<noteq> []"
  shows "walk_back scan lo t = Inr (Some (last (filter (\<lambda>l. fst (snd l) \<le> t) logs)))"
  using assms
proof (induction scan lo t rule: walk_back.induct)
  case (1 scan lo t)
  let ?block = "\<lambda>l :: artifact_log. fst (snd l)"
  let ?f = "if t > lo + 9999 then t - 9999 else lo"
  let ?w = "filter (\<lambda>l. ?f \<le> ?block l \<and> ?block l \<le> t) logs"
  have sorted: "sorted (map ?block logs)" and scan: "scan ?f t = Inr ?w" using 1(2) by (simp_all add: honest_scan_def)
  have t: "\<not> t \<le> lo" using 1(3) by (auto simp: filter_empty_conv)
  show ?case
  proof (cases ?w)
    case Nil
    have gap: "\<not> (?f \<le> ?block l \<and> ?block l \<le> t)" if "l \<in> set logs" for l using Nil that by (simp add: filter_empty_conv)
    have far: "t > lo + 9999"
    proof (rule ccontr)
      assume "\<not> t > lo + 9999"
      then show False using 1(3) gap by (auto simp: filter_empty_conv)
    qed
    have le: "?block l \<le> t \<longleftrightarrow> ?block l \<le> t - 10000" if "l \<in> set logs" for l using gap [OF that] far by auto
    have "filter (\<lambda>l. lo + 1 \<le> ?block l \<and> ?block l \<le> t - 10000) logs = filter (\<lambda>l. lo + 1 \<le> ?block l \<and> ?block l \<le> t) logs"
      and same: "filter (\<lambda>l. ?block l \<le> t - 10000) logs = filter (\<lambda>l. ?block l \<le> t) logs"
      using le by (auto intro!: filter_cong)
    then have "walk_back scan lo (t - 10000) = Inr (Some (last (filter (\<lambda>l. ?block l \<le> t - 10000) logs)))"
      using 1(1) [OF t refl scan Nil 1(2)] 1(3) by simp
    then show ?thesis using t scan Nil same by (subst walk_back.simps) simp
  next
    case (Cons l ls)
    have "last ?w = last (filter (\<lambda>l. ?block l \<le> t) logs)" by (rule last_filter_window [OF sorted]) (simp add: Cons)
    then show ?thesis using t scan Cons by (subst walk_back.simps) (simp add: Let_def)
  qed
qed


section \<open>Reconciled artifacts are not posted again\<close>

definition missing_row :: "(artifact \<Rightarrow> artifact_scan) \<Rightarrow> int \<Rightarrow> (artifact \<Rightarrow> hex) \<Rightarrow> (artifact \<rightharpoonup> hex) \<Rightarrow> artifact \<Rightarrow> bool" where
  "missing_row scan head files db l \<longleftrightarrow>
     (\<exists>h b tx. walk_back (scan l) (reconcile_floor head) head = Inr (Some (h, b, tx)) \<and> lower h = lower (files l)) \<and>
     db l \<noteq> Some (lower (files l))"

lemma reconcile_rows_note:
  "reconcile_rows scan head files db ls = Inr new \<Longrightarrow>
     fold note_row new m l = (if l \<in> set ls \<and> missing_row scan head files db l then Some (lower (files l)) else m l)"
proof (induction ls arbitrary: new m)
  case (Cons k ks)
  obtain found rest where found: "walk_back (scan k) (reconcile_floor head) head = Inr found"
      and rest: "reconcile_rows scan head files db ks = Inr rest"
    using Cons.prems by (auto split: sum.splits)
  show ?case
  proof (cases "missing_row scan head files db k")
    case True
    then obtain h b tx where "found = Some (h, b, tx)" "lower h = lower (files k)" "db k \<noteq> Some (lower (files k))"
      using found by (auto simp: missing_row_def)
    then have "new = recommit_row k (lower (files k)) tx # rest"
      using Cons.prems found rest by (simp add: status_of_artifact_def)
    then show ?thesis using Cons.IH [OF rest] True by auto
  next
    case False
    then have "new = rest"
      using Cons.prems found rest by (auto simp: missing_row_def status_of_artifact_def split: option.splits if_splits)
    then show ?thesis using Cons.IH [OF rest] False by auto
  qed
qed simp

lemma all_kinds: "l \<in> set artifact_kinds"
  by (cases l) (simp_all add: artifact_kinds_def)

lemma run_reconcile_noted:
  assumes "run_reconcile True registry scan (Inr head) files rows = (Inr n, rows')"
  shows "last_committed rows' l =
    (if missing_row scan head files (last_committed rows) l then Some (lower (files l)) else last_committed rows l)"
proof -
  obtain new where "reconcile_rows scan head files (last_committed rows) artifact_kinds = Inr new" "rows' = rows @ new"
    using assms by (auto simp: run_reconcile_def split: if_splits sum.splits)
  then show ?thesis using reconcile_rows_note [of scan head files "last_committed rows" artifact_kinds new] all_kinds
    by (simp add: last_committed_def)
qed

lemma recommit_loop_posts:
  "l \<in> set (rr_committed (recommit_loop False post prev items run)) \<Longrightarrow>
     l \<in> set (rr_committed run) \<or> (\<exists>h. (l, h) \<in> set items \<and> prev l \<noteq> Some (lower h))"
proof (induction items arbitrary: run)
  case (Cons x items)
  obtain k h where x: "x = (k, h)" by (cases x)
  show ?case
  proof (cases "prev k = Some (lower h)")
    case True
    then show ?thesis using Cons.IH [of "run\<lparr>rr_skipped := rr_skipped run @ [k]\<rparr>"] Cons.prems x by auto
  next
    case False
    then show ?thesis
    proof (cases "post k")
      case (Some p)
      then show ?thesis
        using Cons.IH [of "run\<lparr>rr_committed := rr_committed run @ [k], rr_rows := rr_rows run @ [recommit_row k h (fst p)]\<rparr>"] Cons.prems x False
        by (cases p) auto
    qed (use Cons.prems x in auto)
  qed
qed simp

text \<open>
  C22: A transaction that was mined but whose row was lost -- the newest log of its kind, within the last 800000
  blocks, names the current file -- is found by the reconciliation on a node that answers its scans:
  afterwards \<open>recommitArtifacts\<close> does not post that artifact again, a second reconciliation has nothing
  to insert for it, and what the table says of an artifact the chain does not confirm is as before.
\<close>

theorem reconciled_artifact_not_reposted:
  assumes "run_reconcile True registry scan (Inr head) files rows = (Inr n, rows')" and "honest_scan logs (scan l)"
    and "filter (\<lambda>e. reconcile_floor head + 1 \<le> fst (snd e) \<and> fst (snd e) \<le> head) logs \<noteq> []"
    and "lower (fst (last (filter (\<lambda>e. fst (snd e) \<le> head) logs))) = lower (files l)" and "\<forall>(k, h)\<in>set hashes. h = files k"
  shows "l \<notin> set (rr_committed (recommit_artifacts env False post hashes rows')) \<and>
    \<not> missing_row scan head files (last_committed rows') l \<and>
    (\<forall>k. \<not> missing_row scan head files (last_committed rows) k \<longrightarrow> last_committed rows' k = last_committed rows k)"
proof -
  note noted = run_reconcile_noted [OF assms(1)]
  have "walk_back (scan l) (reconcile_floor head) head = Inr (Some (last (filter (\<lambda>e. fst (snd e) \<le> head) logs)))"
    by (rule walk_back_finds [OF assms(2,3)])
  then have "missing_row scan head files db l \<longleftrightarrow> db l \<noteq> Some (lower (files l))" for db
    using assms(4) by (cases "last (filter (\<lambda>e. fst (snd e) \<le> head) logs)") (simp add: missing_row_def)
  then have l: "last_committed rows' l = Some (lower (files l))" using noted [of l] by simp
  have "l \<notin> set (rr_committed (recommit_artifacts env False post hashes rows'))"
  proof
    assume "l \<in> set (rr_committed (recommit_artifacts env False post hashes rows'))"
    then have "\<exists>h. (l, h) \<in> set hashes \<and> last_committed rows' l \<noteq> Some (lower h)"
      by (auto simp: recommit_artifacts_def Let_def split: sum.splits dest!: recommit_loop_posts)
    then show False using assms(5) l by auto
  qed
  moreover have "\<not> missing_row scan head files (last_committed rows') l" using l by (simp add: missing_row_def)
  ultimately show ?thesis using noted by simp
qed


section \<open>Resetting does not reset the clock\<close>

text \<open>
  C40: A sell simulation that was given up after a day of transient failures and put back by the
  reset keeps the time of its first failure in its evidence, so the next transient failure, at once or
  at any later time, gives it up again: the reset buys one attempt, not the day the give-up rule
  grants, while a row without that evidence is deferred.
\<close>

theorem reset_keeps_give_up_clock:
  assumes "settle_row m give_up (DeadlineHit msg) r = (r', TUnresolvable)" and "or_retrospective r" "or_label r = SellImpaired"
    and "m \<le> now" and "(k, r') \<in> set table" "0 < give_up"
  shows "(k, reset_row r') \<in> set (snd (reset_stale_outcomes True checked table)) \<and>
    or_status (fst (settle_row now give_up (DeadlineHit msg') (reset_row r'))) = OUnresolvable \<and>
    or_status (fst (settle_row now give_up (DeadlineHit msg') (reset_row r'\<lparr>or_evidence := NoEvidence\<rparr>))) = OPending"
proof -
  define t where "t = nullish (first_deferred (or_evidence r)) m"
  have clock: "give_up \<le> m - t" and r': "r' = r\<lparr>or_status := OUnresolvable, or_value := None,
      or_evidence := GaveUpEvidence msg t (Suc (deferral_count (or_evidence r))), or_measured := Some m\<rparr>"
    using assms(1) by (auto simp: settle_row_def defer_row_def defer_or_give_up_def Let_def t_def split: if_splits)
  have "stale_sell r'" using assms(2,3) by (simp add: r' stale_sell_def)
  then have "(k, reset_row r') \<in> set (snd (reset_stale_outcomes True checked table))"
    using assms(5) by (force simp: reset_stale_outcomes_def Let_def)
  then show ?thesis using clock assms(4,6)
    by (simp add: settle_row_def defer_row_def defer_or_give_up_def Let_def reset_row_def r' first_deferred_def)
qed


section \<open>Repeating a repair\<close>

definition built :: "(string \<Rightarrow> string + draft list) \<Rightarrow> string list \<Rightarrow> draft list" where
  "built build is = concat (map (\<lambda>i. case build i of Inl e \<Rightarrow> [] | Inr ds \<Rightarrow> ds) is)"

lemma repair_reports: "ps_reports (snd (repair_gap build by_id is n st)) = fold upsert_report (built build is) (ps_reports st)"
proof (induction "build" by_id "is" n st rule: repair_gap.induct)
  case (2 "build" by_id i "is" n st)
  then show ?case
    by (cases "build i" rule: sum.exhaust; (cases "projr (build i)")?)
      (auto simp: built_def persist_launch_reports_def Let_def)
qed (simp add: built_def)

definition settled_by :: "draft \<Rightarrow> report_row \<Rightarrow> bool" where
  "settled_by d r \<longleftrightarrow> rr_signature r = dr_signature d \<and> rr_signer r = dr_signer d \<and> rr_passed r = dr_passed d \<and> rr_failures r = dr_failures d"

lemma upsert_settles:
  "distinct (map rr_hash rs) \<Longrightarrow> r \<in> set (upsert_report d rs) \<Longrightarrow> rr_hash r = dr_hash d \<Longrightarrow> settled_by d r"
  by (induction rs) (auto simp: settled_by_def row_of_draft_def image_iff split: if_splits)

lemma upsert_settled: "r \<in> set rs \<Longrightarrow> rr_hash r = dr_hash d \<Longrightarrow> \<forall>q\<in>set rs. rr_hash q = dr_hash d \<longrightarrow> settled_by d q \<Longrightarrow> upsert_report d rs = rs"
  by (induction rs) (auto simp: settled_by_def)

lemma upsert_mem: "r \<in> set (upsert_report d rs) \<Longrightarrow> rr_hash r \<noteq> dr_hash d \<Longrightarrow> r \<in> set rs"
  by (induction rs) (auto simp: row_of_draft_def split: if_splits)

lemma fold_upsert_settles:
  assumes "distinct (map rr_hash rs)" and "\<forall>d\<in>set ds. \<forall>e\<in>set ds. dr_hash d = dr_hash e \<longrightarrow> d = e"
    and "d \<in> set ds" "r \<in> set (fold upsert_report ds rs)" "rr_hash r = dr_hash d"
  shows "settled_by d r"
  using assms(2-)
proof (induction ds arbitrary: r rule: rev_induct)
  case (snoc e ds)
  show ?case
  proof (cases "dr_hash d = dr_hash e")
    case True
    then have "d = e" using snoc.prems(1) [rule_format, of d e] snoc.prems(2) by simp
    then show ?thesis using upsert_settles [OF fold_upsert_distinct [OF assms(1)]] snoc.prems(3,4) by simp
  next
    case False
    then have "r \<in> set (upsert_report e (fold upsert_report ds rs))" "rr_hash r \<noteq> dr_hash e" using snoc.prems(3,4) by simp_all
    then have "r \<in> set (fold upsert_report ds rs)" by (rule upsert_mem)
    moreover have "d \<in> set ds" using snoc.prems(2) False by auto
    ultimately show ?thesis using snoc.IH snoc.prems(1,4) by simp
  qed
qed simp

text \<open>
  The repair of a gap may be repeated: a second run over the same launches, whose drafts are the same, leaves every
  report as the first one left it.
\<close>

theorem repair_repeatable:
  assumes "distinct (map rr_hash (ps_reports st))" and "\<forall>d\<in>set (built build is). \<forall>e\<in>set (built build is). dr_hash d = dr_hash e \<longrightarrow> d = e"
  shows "ps_reports (snd (repair_gap build by_id is n' (snd (repair_gap build by_id is n st)))) = ps_reports (snd (repair_gap build by_id is n st))"
proof -
  let ?rows = "fold upsert_report (built build is) (ps_reports st)"
  have "upsert_report d ?rows = ?rows" if "d \<in> set (built build is)" for d
  proof -
    have "dr_hash d \<in> rr_hash ` set ?rows" using that by (simp add: fold_upsert_hashes)
    then obtain r where "r \<in> set ?rows" "rr_hash r = dr_hash d" by auto
    then show ?thesis using fold_upsert_settles [OF assms that] by (intro upsert_settled) auto
  qed
  then have "fold upsert_report ds ?rows = ?rows" if "set ds \<subseteq> set (built build is)" for ds
    using that by (induction ds) auto
  then show ?thesis by (simp add: repair_reports)
qed


section \<open>Concrete runs\<close>

definition mined_log :: artifact_log where "mined_log = (''0xab'', 50, ''0xtx'')"

definition mined_scan :: artifact_scan where
  "mined_scan f t = Inr (filter (\<lambda>l. f \<le> fst (snd l) \<and> fst (snd l) \<le> t) [mined_log])"

lemma mined_walk: "walk_back mined_scan 0 100 = Inr (Some mined_log)"
  by (subst walk_back.simps) (simp add: mined_scan_def mined_log_def)

lemma mined_reconciled: "\<exists>n. fst (run_reconcile True (Some ''0xreg'') (\<lambda>k. mined_scan) (Inr 100) (\<lambda>k. ''0xab'') []) = Inr n"
  by (simp add: run_reconcile_def clear_empty_def artifact_kinds_def reconcile_floor_def mined_walk mined_log_def)

theorem reconciled_artifact_not_reposted_witness:
  "Weights \<notin> set (rr_committed (recommit_artifacts demo_env False demo_post [(Weights, ''0xab'')]
     (snd (run_reconcile True (Some ''0xreg'') (\<lambda>k. mined_scan) (Inr 100) (\<lambda>k. ''0xab'') []))))"
proof -
  obtain n where n: "run_reconcile True (Some ''0xreg'') (\<lambda>k. mined_scan) (Inr 100) (\<lambda>k. ''0xab'') [] =
      (Inr n, snd (run_reconcile True (Some ''0xreg'') (\<lambda>k. mined_scan) (Inr 100) (\<lambda>k. ''0xab'') []))"
    using mined_reconciled by (metis prod.collapse)
  show ?thesis
    by (rule reconciled_artifact_not_reposted [OF n, where logs = "[mined_log]", THEN conjunct1])
      (simp_all add: honest_scan_def mined_scan_def reconcile_floor_def, simp_all add: mined_log_def lower_def lower_char_def)
qed

definition failing_sell :: outcome_row where
  "failing_sell = \<lparr>or_chain = 1, or_token = ''0xa'', or_anchor = 0, or_label = SellImpaired, or_horizon = H24, or_horizon_at = Some 0,
     or_status = OPending, or_value = None, or_evidence = DeferredEvidence 0 40 ''timeout'', or_coverage = None, or_measured = Some 1,
     or_qualified = True, or_retrospective = True\<rparr>"

theorem reset_keeps_give_up_clock_witness:
  "or_status (fst (settle_row 200000000 default_give_up_ms (DeadlineHit ''late'')
     (reset_row (fst (settle_row 86400000 default_give_up_ms (DeadlineHit ''late'') failing_sell))))) = OUnresolvable"
proof -
  let ?r = "fst (settle_row 86400000 default_give_up_ms (DeadlineHit ''late'') failing_sell)"
  have "settle_row 86400000 default_give_up_ms (DeadlineHit ''late'') failing_sell = (?r, TUnresolvable)"
    by (simp add: settle_row_def defer_row_def defer_or_give_up_def Let_def failing_sell_def first_deferred_def default_give_up_ms_def)
  from reset_keeps_give_up_clock [OF this, of 200000000 "''k''" "[(''k'', ?r)]"] show ?thesis
    by (simp add: failing_sell_def default_give_up_ms_def)
qed

end
