(* ===== verification/Dashboard.thy ===== *)
theory Dashboard
  imports Api LifecycleChain
begin

text \<open>
  The figures the dashboard derives from the API's answers before it draws them
  (\<open>apps/web/public/app.js\<close>): accrual per hour, the age of the balance, gaps of the log, the verdict on
  the chain, the benchmark table with its claim badges and coverage lines, and the links of a forecast.
  The markup is left out.
\<close>


section \<open>Figures\<close>

text \<open>\<open>creditsAccruedPerHour\<close>: per hour, and the hours; a missing balance counts as zero.\<close>

fun accrued_over :: "life_snapshot list \<Rightarrow> real" where
  "accrued_over (a # b # es) = max 0 (nullish (sn_balance b) 0 - nullish (sn_balance a) 0) + accrued_over (b # es)"
| "accrued_over es = 0"

definition credits_accrued_per_hour :: "life_snapshot list \<Rightarrow> (real \<times> real) option" where
  "credits_accrued_per_hour es =
     (if length es < 2 then None
      else let hours = of_int (sn_at (last es) - sn_at (hd es)) / 3600000
           in if hours \<le> 0 then None else Some (accrued_over es / hours, hours))"

datatype age_label = NeverRead | UnknownAge | MinutesAgo int | HoursAgo real | DaysAgo real

definition balance_age_label :: "millis \<Rightarrow> life_snapshot list \<Rightarrow> age_label" where
  "balance_age_label now es =
     (if es = [] then NeverRead
      else let mins = of_int (now - sn_at (last es)) / 60000 :: real
           in if mins < 0 then UnknownAge
              else if mins < 60 then MinutesAgo (js_round mins)
              else if mins < 1440 then HoursAgo (round_dp 1 (mins / 60)) else DaysAgo (round_dp 1 (mins / 1440)))"

fun longest_gap :: "millis list \<Rightarrow> millis" where
  "longest_gap (a # b # ts) = max (b - a) (longest_gap (b # ts))"
| "longest_gap ts = 0"

definition span_days :: "life_snapshot list \<Rightarrow> real" where
  "span_days es = (if es = [] then 0 else of_int (sn_at (last es) - sn_at (hd es)) / 86400000)"

definition spend_per_report :: "estimator_summary \<Rightarrow> real option" where
  "spend_per_report e = (if eu_requests e > 0 then Some (eu_estimated e / real (eu_requests e)) else None)"

datatype chain_label = BrokenAt "nat option" | IntactForks nat | IntactOneChain

definition chain_label_of :: "chain_check \<Rightarrow> chain_label" where
  "chain_label_of c =
     (if \<not> ck_intact c then BrokenAt (ck_broken_at c)
      else if length (ck_forks c) \<noteq> 0 then IntactForks (length (ck_forks c)) else IntactOneChain)"

datatype proof_cell = NotCommitted | NoTxYet "hex option" | CommittedIn "hex option" hex

text \<open>The receipt's report, when it is known, and the batch's transaction.\<close>

definition proof_cell_of :: "(bool \<times> hex option) option \<Rightarrow> hex option \<Rightarrow> proof_cell" where
  "proof_cell_of p report =
     (case p of
        None \<Rightarrow> NotCommitted
      | Some (committed, tx) \<Rightarrow>
          (if \<not> committed then NotCommitted
           else case clear_empty tx of None \<Rightarrow> NoTxYet (clear_empty report) | Some t \<Rightarrow> CommittedIn (clear_empty report) t))"


section \<open>The benchmark table\<close>

definition descriptive_outcomes :: "outcome_key list" where
  "descriptive_outcomes = [(SellImpaired, H1), (SellImpaired, H24)]"

text \<open>The badge of a row: what the forecaster beats, with the p-value.\<close>

definition claim_badge :: "outcome_key \<Rightarrow> forecaster_cell \<Rightarrow> (string \<times> real option) option" where
  "claim_badge key c =
     (if key \<in> set descriptive_outcomes then None
      else map_option (\<lambda>x. (co_vs x, co_p x)) (List.find co_claim (ce_comparisons c)))"

record table_row =
  tr_outcome :: outcome_key
  tr_forecaster :: string
  tr_n :: nat
  tr_insufficient :: bool
  tr_positives :: nat
  tr_auroc :: "real option"
  tr_inverted :: bool
  tr_skill :: "real option"
  tr_badge :: "(string \<times> real option) option"

definition table_row_of :: "outcome_key \<Rightarrow> forecaster_cell \<Rightarrow> table_row" where
  "table_row_of key c = \<lparr>tr_outcome = key, tr_forecaster = ce_forecaster c, tr_n = ce_n c, tr_insufficient = ce_insufficient c,
     tr_positives = ce_positives c, tr_auroc = ce_auroc c, tr_inverted = ce_inverted c, tr_skill = ce_brier_skill c,
     tr_badge = claim_badge key c\<rparr>"

text \<open>The rows of the section over everything, \<open>None\<close> where there is no such section.\<close>

definition benchmark_table :: "scored_benchmark \<Rightarrow> table_row list option" where
  "benchmark_table b =
     map_option (\<lambda>s. concat (map (\<lambda>(key, cells). map (table_row_of key) cells) (se_outcomes s)))
       (List.find (\<lambda>s. se_split s = SplitAll) (bm_sections b))"

text \<open>\<open>Graded so far\<close>: graded and due over all cells.\<close>

definition graded_so_far :: "cell_coverage list \<Rightarrow> nat \<times> nat" where
  "graded_so_far cells =
     (sum_list (map cv_resolved cells), sum_list (map (\<lambda>c. cv_resolved c + cv_due c + cv_unresolvable c) cells))"

record coverage_line =
  cl_graded :: "(nat \<times> nat) option"          \<comment> \<open>graded and pending\<close>
  cl_unresolvable :: "nat option"
  cl_na :: "nat option"
  cl_excluded :: "(eligibility \<times> nat) list"
  cl_backfill :: "nat option"

definition count_shown :: "nat \<Rightarrow> nat option" where
  "count_shown n = (if n = 0 then None else Some n)"

definition coverage_line_of :: "cell_coverage option \<Rightarrow> (eligibility \<Rightarrow> nat) option \<Rightarrow> coverage_line option" where
  "coverage_line_of c excl =
     (if c = None \<and> excl = None then None
      else Some \<lparr>cl_graded = map_option (\<lambda>x. (cv_resolved x, cv_due x)) c,
        cl_unresolvable = (case c of None \<Rightarrow> None | Some x \<Rightarrow> count_shown (cv_unresolvable x)),
        cl_na = (case c of None \<Rightarrow> None | Some x \<Rightarrow> count_shown (cv_na x)),
        cl_excluded = (case excl of None \<Rightarrow> [] | Some f \<Rightarrow> filter (\<lambda>(e, n). n \<noteq> 0) (map (\<lambda>e. (e, f e)) [Late, Replay, Uncommitted, MissingTime])),
        cl_backfill = (case c of None \<Rightarrow> None | Some x \<Rightarrow> count_shown (cv_retrospective x))\<rparr>)"


section \<open>What the page says is so\<close>

text \<open>A row whose badge, if it has one, is no descriptive outcome's and has a paired sample behind it.\<close>

definition badge_backed :: "string list \<Rightarrow> table_row \<Rightarrow> bool" where
  "badge_backed bs r =
     (case tr_badge r of
        None \<Rightarrow> True
      | Some (vs, p) \<Rightarrow>
          tr_outcome r \<notin> {(SellImpaired, H1), (SellImpaired, H24)} \<and> vs \<in> set bs \<and> vs \<noteq> tr_forecaster r \<and> 100 \<le> tr_n r \<and>
          (\<exists>pa pb y a b. fast_delong pa pb y \<noteq> None \<and> 200 \<le> length y \<and> 30 \<le> count_true y \<and>
             auroc pa y = Some a \<and> auroc pb y = Some b \<and> b < a))"

lemma row_of_cell_backed:
  assumes "s \<in> set (score_benchmark rows bs ts)" and "(key, cells) \<in> set (se_outcomes s)" "c \<in> set cells"
  shows "badge_backed bs (table_row_of key c)"
proof (cases "claim_badge key c")
  case (Some badge)
  then obtain x where x: "List.find co_claim (ce_comparisons c) = Some x" "badge = (co_vs x, co_p x)" "key \<notin> set descriptive_outcomes"
    by (auto simp: claim_badge_def split: if_splits)
  then have "x \<in> set (ce_comparisons c)" "co_claim x" by (auto simp: find_Some_iff)
  note backed = claim_in_benchmark [OF assms this]
  then have "\<exists>pa pb y a b. fast_delong pa pb y \<noteq> None \<and> 200 \<le> length y \<and> 30 \<le> count_true y \<and>
      auroc pa y = Some a \<and> auroc pb y = Some b \<and> b < a" by metis
  then show ?thesis using backed x(2,3) Some by (simp add: badge_backed_def table_row_of_def descriptive_outcomes_def)
qed (simp add: badge_backed_def table_row_of_def)


text \<open>
  A row without a balance between two equal ones makes the page show the whole balance as
  accrued CREDIT, although it never changed.
\<close>

theorem unread_balance_accrues:
  assumes "sn_balance e1 = Some b" "sn_balance e2 = None" "sn_balance e3 = Some b" and "0 < b" "sn_at e1 < sn_at e3"
  shows "\<exists>hours > 0. credits_accrued_per_hour [e1, e2, e3] = Some (b / hours, hours)"
  by (rule exI [of _ "of_int (sn_at e3 - sn_at e1) / 3600000"]) (use assms in \<open>simp add: credits_accrued_per_hour_def Let_def\<close>)

text \<open>
  The age printed for the balance is that of the newest row, also where that row has none: with a
  signed row every minute and no balance read for a day the page says the balance was confirmed just now.
\<close>

theorem balance_age_is_row_age:
  assumes "es \<noteq> []" and "sn_at (last es) = now"
  shows "balance_age_label now es = MinutesAgo 0"
  using assms by (simp add: balance_age_label_def js_round_def)

lemma graded_le_due: "fst (graded_so_far cells) \<le> snd (graded_so_far cells)"
  by (simp add: graded_so_far_def sum_list_addf)

lemma longest_gap_bound: "sorted ts \<Longrightarrow> longest_gap ts \<le> (if ts = [] then 0 else last ts - hd ts)"
proof (induction ts rule: longest_gap.induct)
  case (1 a b ts)
  then have "longest_gap (b # ts) \<le> last (b # ts) - b" "b \<le> last (b # ts)" "a \<le> b" by auto
  then show ?case by auto
qed auto

end
