(* ===== verification/Activation.thy ===== *)
theory Activation
  imports Lifecycle
begin

text \<open>
  The CREDIT activation of the lifecycle loop (\<open>metabolism/lifecycle-runner.ts\<close>) as a step of its own: the
  memory of the last activation, the rows that record one, the transactions sent.  What the step
  reads from outside is its record of answers; the transaction's outcome is what \<open>activateCredit\<close>
  returned or threw (\<open>Budget.activate_credit\<close>).
\<close>


section \<open>The step\<close>

record activation_cfg =
  an_low_water :: real
  an_chunk :: real
  an_daily_cap :: real
  an_keep_warm :: millis

record activation_state =
  as_memo :: "activation_memo option"
  as_logged :: "millis list"              \<comment> \<open>times of the rows \<open>activated $...\<close>, newest first\<close>
  as_sent :: "(millis \<times> real) list"

record activation_io =
  ai_now :: millis
  ai_balance :: real
  ai_held :: "string + real"
  ai_today :: "string + real"
  ai_receipt :: "string + unit"
  ai_row :: "string + millis"             \<comment> \<open>appending the row: its time, or the error\<close>

definition activation_inputs_of :: "activation_cfg \<Rightarrow> activation_io \<Rightarrow> bool \<Rightarrow> real \<Rightarrow> millis option \<Rightarrow> real \<Rightarrow> activation_inputs" where
  "activation_inputs_of cfg io pending held since today =
     \<lparr>ac_api_balance = ai_balance io, ac_credit_held = held, ac_low_water = an_low_water cfg, ac_chunk = an_chunk cfg,
      ac_activated_today = today, ac_daily_cap = an_daily_cap cfg, ac_pending = pending, ac_since_last = since,
      ac_keep_warm = Some (an_keep_warm cfg)\<rparr>"

text \<open>The chain is asked for today's sum only where an activation may follow.\<close>

definition activation_needs_check :: "activation_cfg \<Rightarrow> activation_io \<Rightarrow> bool \<Rightarrow> real \<Rightarrow> millis option \<Rightarrow> bool" where
  "activation_needs_check cfg io pending held since \<longleftrightarrow>
     \<not> pending \<and> held > 0 \<and>
     (ai_balance io < an_low_water cfg \<or> (case since of None \<Rightarrow> False | Some ms \<Rightarrow> an_keep_warm cfg \<le> ms))"

definition activation_step :: "activation_cfg \<Rightarrow> activation_io \<Rightarrow> activation_state \<Rightarrow> string option \<times> activation_state" where
  "activation_step cfg io st =
     (let pending = activation_pending (ai_now io) (ai_balance io) (as_memo st);
          st1 = (if pending then st else st\<lparr>as_memo := None\<rparr>)
      in case ai_held io of
           Inl e \<Rightarrow> (Some e, st1)
         | Inr held \<Rightarrow>
             (let since = activation_query pending held (ai_now io) (case as_logged st of [] \<Rightarrow> None | t # ts \<Rightarrow> Some t)
              in case (if activation_needs_check cfg io pending held since then ai_today io else Inr 0) of
                   Inl e \<Rightarrow> (Some e, st1)
                 | Inr today \<Rightarrow>
                     (case activation_decision (activation_inputs_of cfg io pending held since today) of
                        None \<Rightarrow> (None, st1)
                      | Some a \<Rightarrow>
                          (let st2 = st1\<lparr>as_memo := Some \<lparr>am_at = ai_now io, am_balance_before = ai_balance io, am_amount = a\<rparr>,
                                 as_sent := as_sent st1 @ [(ai_now io, a)]\<rparr>
                           in case ai_receipt io of
                                Inl e \<Rightarrow> (Some e, st2)
                              | Inr _ \<Rightarrow>
                                  (case ai_row io of
                                     Inl e \<Rightarrow> (Some e, st2)
                                   | Inr t \<Rightarrow> (None, st2\<lparr>as_logged := t # as_logged st2\<rparr>))))))"

text \<open>What a step sends: nothing, or one amount.\<close>

definition sends :: "activation_cfg \<Rightarrow> activation_io \<Rightarrow> activation_state \<Rightarrow> real option" where
  "sends cfg io st =
     (let pending = activation_pending (ai_now io) (ai_balance io) (as_memo st)
      in case ai_held io of
           Inl e \<Rightarrow> None
         | Inr held \<Rightarrow>
             (let since = activation_query pending held (ai_now io) (case as_logged st of [] \<Rightarrow> None | t # ts \<Rightarrow> Some t)
              in case (if activation_needs_check cfg io pending held since then ai_today io else Inr 0) of
                   Inl e \<Rightarrow> None
                 | Inr today \<Rightarrow> activation_decision (activation_inputs_of cfg io pending held since today)))"

lemma step_sent:
  "as_sent (snd (activation_step cfg io st)) = as_sent st @ (case sends cfg io st of None \<Rightarrow> [] | Some a \<Rightarrow> [(ai_now io, a)])"
  by (auto simp: activation_step_def sends_def Let_def split: sum.split option.split)

lemma sends_decided:
  assumes "sends cfg io st = Some a" and "pending = activation_pending (ai_now io) (ai_balance io) (as_memo st)"
    and "last_at = (case as_logged st of [] \<Rightarrow> None | t # ts \<Rightarrow> Some t)"
  obtains held today where "ai_held io = Inr held"
    and "(if activation_needs_check cfg io pending held (activation_query pending held (ai_now io) last_at) then ai_today io else Inr 0) = Inr today"
    and "activation_decision (activation_inputs_of cfg io pending held (activation_query pending held (ai_now io) last_at) today) = Some a"
  using assms(1) unfolding sends_def Let_def assms(2,3) by (auto split: sum.splits)

lemma timed_out_step:
  assumes "sends cfg io st = Some a" and "ai_receipt io = Inl e"
  shows "as_memo (snd (activation_step cfg io st)) = Some \<lparr>am_at = ai_now io, am_balance_before = ai_balance io, am_amount = a\<rparr>"
    and "as_logged (snd (activation_step cfg io st)) = as_logged st"
proof -
  obtain held today where h: "ai_held io = Inr held" and t: "(if activation_needs_check cfg io (activation_pending (ai_now io) (ai_balance io) (as_memo st)) held
        (activation_query (activation_pending (ai_now io) (ai_balance io) (as_memo st)) held (ai_now io) (case as_logged st of [] \<Rightarrow> None | t # ts \<Rightarrow> Some t))
        then ai_today io else Inr 0) = Inr today"
    and d: "activation_decision (activation_inputs_of cfg io (activation_pending (ai_now io) (ai_balance io) (as_memo st)) held
        (activation_query (activation_pending (ai_now io) (ai_balance io) (as_memo st)) held (ai_now io) (case as_logged st of [] \<Rightarrow> None | t # ts \<Rightarrow> Some t))
        today) = Some a"
    using sends_decided [OF assms(1) refl refl] by blast
  have "activation_step cfg io st = (Some e, (if activation_pending (ai_now io) (ai_balance io) (as_memo st) then st else st\<lparr>as_memo := None\<rparr>)
      \<lparr>as_memo := Some \<lparr>am_at = ai_now io, am_balance_before = ai_balance io, am_amount = a\<rparr>, as_sent := as_sent st @ [(ai_now io, a)]\<rparr>)"
    unfolding activation_step_def Let_def h sum.case t d assms(2) option.case by simp
  then show "as_memo (snd (activation_step cfg io st)) = Some \<lparr>am_at = ai_now io, am_balance_before = ai_balance io, am_amount = a\<rparr>"
    and "as_logged (snd (activation_step cfg io st)) = as_logged st" by simp_all
qed

text \<open>A decision to send comes with the chain's sum for the day, and is never made while one is pending.\<close>

lemma sends_checked:
  assumes "sends cfg io st = Some a"
  shows "\<exists>held today. ai_held io = Inr held \<and> ai_today io = Inr today \<and> 0 < held \<and>
    \<not> activation_pending (ai_now io) (ai_balance io) (as_memo st) \<and> 1 / 100 \<le> a \<and> a \<le> an_chunk cfg \<and> a \<le> held \<and>
    today + a \<le> an_daily_cap cfg"
proof -
  let ?pending = "activation_pending (ai_now io) (ai_balance io) (as_memo st)"
  define since where "since held = activation_query ?pending held (ai_now io) (case as_logged st of [] \<Rightarrow> None | t # ts \<Rightarrow> Some t)" for held
  obtain held today where held: "ai_held io = Inr held"
      and today: "(if activation_needs_check cfg io ?pending held (since held) then ai_today io else Inr 0) = Inr today"
      and d: "activation_decision (activation_inputs_of cfg io ?pending held (since held) today) = Some a"
    using sends_decided [OF assms refl refl] unfolding since_def by blast
  have ok: "\<not> ?pending" "0 < held"
      "an_low_water cfg \<le> ai_balance io \<longrightarrow> activation_stale (activation_inputs_of cfg io ?pending held (since held) today)"
    using d by (auto simp: activation_decision_def activation_inputs_of_def split: if_splits)
  then have "activation_needs_check cfg io ?pending held (since held)"
    by (auto simp: activation_needs_check_def activation_stale_def activation_inputs_of_def since_def activation_query_def
        split: option.splits list.splits)
  then have "ai_today io = Inr today" using today by simp
  then show ?thesis using held ok activation_amount_bounds [OF d] by (auto simp: activation_inputs_of_def)
qed


section \<open>Runs\<close>

fun activation_run :: "activation_cfg \<Rightarrow> activation_io list \<Rightarrow> activation_state \<Rightarrow> activation_state" where
  "activation_run cfg [] st = st"
| "activation_run cfg (io # ios) st = activation_run cfg ios (snd (activation_step cfg io st))"

definition sent_total :: "activation_state \<Rightarrow> real" where
  "sent_total st = sum_list (map snd (as_sent st))"

text \<open>The chain's sum covers all that was sent: every transaction is mined before the next decision.\<close>

fun sums_cover :: "activation_cfg \<Rightarrow> activation_io list \<Rightarrow> activation_state \<Rightarrow> bool" where
  "sums_cover cfg [] st = True"
| "sums_cover cfg (io # ios) st \<longleftrightarrow>
     (case ai_today io of Inl e \<Rightarrow> True | Inr today \<Rightarrow> sent_total st \<le> today) \<and> sums_cover cfg ios (snd (activation_step cfg io st))"

text \<open>
  C34: Over any run of ticks of a day, with whatever answers, errors and lost rows, what the wallet sends stays
  within the daily cap, as long as each transaction is mined before the chain's sum is read again.
\<close>

theorem activations_within_daily_cap:
  assumes "sums_cover cfg ios st" and "sent_total st \<le> an_daily_cap cfg"
  shows "sent_total (activation_run cfg ios st) \<le> an_daily_cap cfg"
  using assms
proof (induction ios arbitrary: st)
  case (Cons io ios)
  have "sent_total (snd (activation_step cfg io st)) \<le> an_daily_cap cfg"
  proof (cases "sends cfg io st")
    case (Some a)
    then obtain today where "ai_today io = Inr today" "today + a \<le> an_daily_cap cfg" using sends_checked by blast
    then show ?thesis using Cons.prems(1) Some by (simp add: sent_total_def step_sent)
  qed (use Cons.prems(2) in \<open>simp add: sent_total_def step_sent\<close>)
  then show ?case using Cons.IH Cons.prems(1) by simp
qed simp

text \<open>Between two activations of one process lie ten minutes or half of the first one's amount in the balance.\<close>

lemma activations_are_spaced:
  assumes "sends cfg io st = Some a" and "as_memo st = Some m"
  shows "600000 \<le> ai_now io - am_at m \<or> am_balance_before m + am_amount m * (1 / 2) \<le> ai_balance io"
  using sends_checked [OF assms(1)] assms(2) by (auto simp: activation_pending_def)

text \<open>
  C35: A timeout does become a second activation.  When no receipt is seen in time no row is written, and the
  keep-warm rule goes by the rows: as soon as the balance shows that the transaction was mined after
  all, the next tick activates again, above the low-water mark; with the row it would not.
\<close>

theorem timed_out_activation_repeats:
  assumes "sends cfg io1 st = Some a" and "ai_receipt io1 = Inl e" and "an_keep_warm cfg \<le> ai_now io2 - last_row" "as_logged st = last_row # rows"
    and "ai_balance io1 + a * (1 / 2) \<le> ai_balance io2" "an_low_water cfg \<le> ai_balance io2"
    and "ai_held io2 = Inr held" "1 / 100 \<le> held" "ai_today io2 = Inr today" "today + 1 / 100 \<le> an_daily_cap cfg"
    and "ai_now io2 - ai_now io1 < an_keep_warm cfg"
  shows "sends cfg io2 (snd (activation_step cfg io1 st)) \<noteq> None \<and>
    sends cfg io2 ((snd (activation_step cfg io1 st))\<lparr>as_logged := ai_now io1 # as_logged st\<rparr>) = None"
proof -
  let ?st = "snd (activation_step cfg io1 st)"
  have st: "as_memo ?st = Some \<lparr>am_at = ai_now io1, am_balance_before = ai_balance io1, am_amount = a\<rparr>" "as_logged ?st = last_row # rows"
    using timed_out_step [OF assms(1,2)] assms(4) by simp_all
  have free: "\<not> activation_pending (ai_now io2) (ai_balance io2) (as_memo ?st)"
    using assms(5) by (simp add: st activation_pending_def)
  have chunk: "1 / 100 \<le> an_chunk cfg" using sends_checked [OF assms(1)] by auto
  have floor: "1 / 100 \<le> floor_units x" if "1 / 100 \<le> x" for x
  proof -
    have "(10000 :: int) \<le> \<lfloor>x * 10 ^ 6\<rfloor>" using that by (simp add: le_floor_iff)
    then have "(10000 :: real) \<le> of_int \<lfloor>x * 10 ^ 6\<rfloor>" by linarith
    then show ?thesis by (simp add: floor_units_def)
  qed
  have "1 / 100 \<le> min (an_chunk cfg) (min held (an_daily_cap cfg - today))" using chunk assms(8,10) by auto
  from floor [OF this] have amount: "\<not> floor_units (min (an_chunk cfg) (min held (an_daily_cap cfg - today))) < 1 / 100" by simp
  have held: "0 < held" using assms(8) by linarith
  have "sends cfg io2 ?st \<noteq> None"
    using free assms(3,7,9,10) held amount
    by (simp add: sends_def Let_def st(2) activation_query_def activation_needs_check_def activation_decision_def activation_inputs_of_def
        activation_stale_def)
  moreover have "sends cfg io2 (?st\<lparr>as_logged := ai_now io1 # as_logged st\<rparr>) = None"
    using free assms(6,7,11) held
    by (simp add: sends_def Let_def activation_query_def activation_needs_check_def activation_decision_def activation_inputs_of_def
        activation_stale_def)
  ultimately show ?thesis by simp
qed


section \<open>A day\<close>

definition demo_activation :: activation_cfg where
  "demo_activation = \<lparr>an_low_water = 2, an_chunk = 5, an_daily_cap = 10, an_keep_warm = 72000000\<rparr>"

definition cold_state :: activation_state where
  "cold_state = \<lparr>as_memo = None, as_logged = [0], as_sent = []\<rparr>"

text \<open>A tick after twenty hours whose receipt is not seen, and the tick a minute later.\<close>

definition lost_io :: activation_io where
  "lost_io = \<lparr>ai_now = 72000000, ai_balance = 10, ai_held = Inr 20, ai_today = Inr 0, ai_receipt = Inl ''no receipt'', ai_row = Inr 0\<rparr>"

definition next_io :: activation_io where
  "next_io = \<lparr>ai_now = 72060000, ai_balance = 15, ai_held = Inr 15, ai_today = Inr 5, ai_receipt = Inr (), ai_row = Inr 72060000\<rparr>"

lemma lost_sends: "sends demo_activation lost_io cold_state = Some 5"
  by (simp add: sends_def Let_def demo_activation_def lost_io_def cold_state_def activation_pending_def activation_query_def
      activation_needs_check_def activation_decision_def activation_inputs_of_def activation_stale_def floor_units_def)

lemma lost_total: "sent_total (snd (activation_step demo_activation lost_io cold_state)) = 5" "sent_total cold_state = 0"
  by (simp_all add: sent_total_def step_sent lost_sends) (simp_all add: cold_state_def)

lemma day_sums: "ai_today lost_io = Inr 0" "ai_today next_io = Inr 5"
  by (simp_all add: lost_io_def next_io_def)

lemma day_covered: "sums_cover demo_activation [lost_io, next_io] cold_state"
  by (simp add: lost_total day_sums)

theorem activations_within_daily_cap_witness:
  "sent_total (activation_run demo_activation [lost_io, next_io] cold_state) \<le> an_daily_cap demo_activation"
  by (rule activations_within_daily_cap [OF day_covered]) (simp add: lost_total demo_activation_def)

theorem timed_out_activation_repeats_witness:
  "sends demo_activation next_io (snd (activation_step demo_activation lost_io cold_state)) \<noteq> None"
  using timed_out_activation_repeats [OF lost_sends, of "''no receipt''" next_io 0 "[]" 15 5]
  by (simp add: demo_activation_def lost_io_def next_io_def cold_state_def)

end
