(* ===== verification/Spec2Isabelle.thy ===== *)
theory Spec2Isabelle
  imports RpcTransport Artifacts Lifecycle LifecycleChain Scorer OutcomeFacts OutcomeSweep Receipts WatcherFacts DeepdiveFacts CollectFacts Publish ApiFacts
    BackfillFacts SessionFacts ConfigFacts Scripts Dashboard Activation
begin

text \<open>
  \<^bold>\<open>The program.\<close>  Tripwire watches token launches on a chain, forecasts what will happen to each
  launch, signs and commits the forecasts before the outcome is known, measures the outcomes and
  publishes how good the forecasts were.  The worker (\<open>apps/worker\<close>) polls the pool factories
  (\<open>watcher/\<close>), keeps one launch row per token and, ten minutes after a launch, computes its
  features and writes the free reports (\<open>report/\<close>); for selected launches it buys a report from a
  language model (\<open>deepdive/\<close>) within a budget that the key runner (\<open>metabolism/\<close>) keeps.  Validated
  report hashes are batched under a Merkle root on chain (\<open>commit/\<close>), the outcomes are measured at
  the horizons' end (\<open>outcomes/\<close>), joined with the forecasts into the benchmark (\<open>scorer/\<close>,
  \<open>packages/scoring\<close>), and the alarms and the feed go out (\<open>alerts.ts\<close>, \<open>telegram/\<close>).  All chain reads
  go through one scheduler with a cache (\<open>packages/rpc-budget\<close>).  The API (\<open>apps/api\<close>) only reads,
  and hands jobs to the worker's queues.

  \<^bold>\<open>The theories and the code they model.\<close>
  \<^item> \<open>Prelude\<close>: the JavaScript primitives (rounding, nullish values, lower case, sorting), shared list,
    option and map lemmas, the lemma collections and the interfaces several components share.
  \<^item> \<open>ChainLib\<close>, \<open>LogScan\<close>: \<open>packages/chain\<close> (log scans in chunks, launchpads, Uniswap events and prices);
    what a scan over topic values returns from an honest node.
  \<^item> \<open>RpcQueue\<close>, \<open>RpcScheduler\<close>, \<open>RpcCache\<close>, \<open>RpcTransport\<close>: \<open>packages/rpc-budget\<close> (priority queue, token
    bucket, the scheduler as a step relation, the response cache, the transport over both).
  \<^item> \<open>BlockTime\<close>: \<open>watcher/retry.ts\<close> and the memoised search for the last block before a time.
  \<^item> \<open>Watcher\<close>, \<open>WatcherPools\<close>, \<open>WatcherFeatures\<close>, \<open>WatcherFacts\<close>: \<open>watcher/\<close> (which side of a pool is the
    token, the pollers, the launch and pool rows, the T+10m pass; holder, cluster and liquidity
    features; runs of polls and passes).
  \<^item> \<open>Reports\<close>: \<open>report/\<close> (feature inputs, coverage, validation, canonical bytes, the write-once store).
  \<^item> \<open>Merkle\<close>, \<open>CommitJob\<close>, \<open>Artifacts\<close>: \<open>commit/\<close> (tree and proofs, the batch job with its crash points,
    the hashes of frozen artifacts).
  \<^item> \<open>Receipts\<close>: \<open>apps/api/src/receipt.ts\<close> and the verifiers of receipts.
  \<^item> \<open>Budget\<close>, \<open>Lifecycle\<close>, \<open>LifecycleChain\<close>, \<open>Activation\<close>: \<open>packages/db/src/deepdive-budget.ts\<close> and \<open>metabolism/\<close>
    (run gate, reconciliation, spend ledger, wallet, the key runner and its state machine, the
    hash chain of its log, the activation of CREDIT).
  \<^item> \<open>DeepdiveTools\<close>, \<open>Deepdive\<close>, \<open>DeepdiveFacts\<close>: \<open>deepdive/\<close> and \<open>history/\<close> (the tools the model may call,
    one run, the sweeps and the budget they share).
  \<^item> \<open>OutcomeResolve\<close>, \<open>OutcomeFacts\<close>, \<open>OutcomeSweep\<close>: \<open>outcomes/\<close> (series, quotes, the three resolvers,
    the sweep over due rows).
  \<^item> \<open>Metrics\<close>, \<open>Forecasters\<close>, \<open>Scorer\<close>: \<open>packages/scoring\<close> (AUROC and DeLong test, outcome cells,
    claims, baseline forecasters, the benchmark table).
  \<^item> \<open>Collect\<close>, \<open>CollectFacts\<close>: \<open>scorer/\<close> (the join of outcomes and forecasts, eligibility, coverage).
  \<^item> \<open>Publish\<close>: \<open>alerts.ts\<close> and \<open>telegram/\<close>.
  \<^item> \<open>Api\<close>, \<open>ApiFacts\<close>: \<open>apps/api/src\<close> (budget panel, funding scan, metrics, launch feed, reports and
    proofs, requests).
  \<^item> \<open>Backfill\<close>, \<open>BackfillFacts\<close>: \<open>backfill/run.ts\<close> (past launches, their features and outcomes under a
    cap on calls; the observed base rates).
  \<^item> \<open>Session\<close>, \<open>SessionFacts\<close>: \<open>metabolism/token-store.ts\<close>, \<open>session-seed.ts\<close>, \<open>orbio-client.ts\<close>,
    \<open>gateway-reader.ts\<close> (the encrypted store of the gateway session, the seed of a container, two
    processes on one store, the choice of the gateway key).
  \<^item> \<open>Config\<close>, \<open>ConfigFacts\<close>: \<open>env.ts\<close> and \<open>index.ts\<close> of the worker, \<open>env.ts\<close> and the queues of the API
    (environment texts, numbers that may be \<open>NaN\<close> and the budget gate on them, the loops a boot
    starts, assessments, failure counters, job ids).
  \<^item> \<open>Scripts\<close>: the repair scripts that write to the tables (\<open>commit-reconcile.ts\<close>,
    \<open>backfill-det-v0-1-gap.ts\<close>, \<open>reset-stale-outcomes.ts\<close>).
  \<^item> \<open>Dashboard\<close>: the figures, labels and badges of \<open>apps/web/public/app.js\<close>.

  \<^bold>\<open>How code becomes definitions.\<close>  A class or row is a record, a union a datatype, a table a list of rows
  (or a map where it has a unique key); an operation that awaits and writes returns its result with
  the new state; a throw is \<open>Inl\<close>, \<open>None\<close> or an explicit branch.  The order of operations that can interleave
  is explicit: steps of a relation (scheduler, commit job, lifecycle writers) or lists of steps (polls
  and passes of the watcher, sweeps).  JavaScript numbers are exact reals where the code computes with
  amounts, probabilities and prices (rounding that the code does itself is kept, that of binary
  floating point is not; \<open>NaN\<close> is modelled in \<open>Config\<close>, where environment texts become numbers),
  integers where they count or are \<open>bigint\<close>s.  Times are integers in milliseconds.

  \<^bold>\<open>What the lemmas show.\<close>  For each component: its invariant and that every operation keeps it; every branch
  of its operations; and where it has a contract, that it keeps it.  The contracts are locales
  interpreted on the model: a stable queue and a rate limiter (\<open>RpcQueue\<close>), a memo store (\<open>RpcCache\<close>), a
  pair hash (\<open>Merkle\<close>), steps that commute (\<open>OutcomeSweep\<close>) and an ingester of pools (\<open>Watcher\<close>).
  Across components: a recorded commit leads to a receipt that verifies, and an accepted receipt to the committed report (\<open>Receipts\<close>); launches survive any run of
  polls, crashes and passes (\<open>WatcherFacts\<close>); what a deep-dive run spends is in the ledger the gate reads
  (\<open>DeepdiveFacts\<close>); every row of the benchmark has a resolved outcome and a forecast behind it
  (\<open>CollectFacts\<close>); alarms are edges of what the tables say (\<open>Publish\<close>).  Several theorems state what the code
  does where that is not what its comments say; the manifest lists these as findings.

  \<^bold>\<open>Bounds and fuel.\<close>  Loops are recursions with a proved measure, except those the code bounds itself: the
  block search (18 halvings, enough for the chain's height), retries (their number of tries), the nonce
  search of the cluster features (8), the search for a token's age (12), the receipt verifier's retries
  (10) and the polls for an activation (7); there the bound is the code's own number.

  \<^bold>\<open>Parameters.\<close>  Hash functions, signatures, canonical JSON, base64url, the chain's RPC answers, the language
  model and the provider's MCP tools are arguments.  Theorems name what they rely on (a collision-free
  hash, an honest node) as hypotheses.

  \<^bold>\<open>Not modelled.\<close>  Construction of clients and processes, loading of \<open>.env\<close> files, HTTP and MCP framing, BullMQ,
  Prisma and the schema, the Solidity contracts, the markup of the web pages, and scripts that only print, deploy or sign in.
\<close>

end
